(* ===== verification/HS_Prelude.thy ===== *)
theory HS_Prelude
  imports Main "HOL-Library.Multiset" "HOL-Library.Word"
begin

text \<open>
  Shared vocabulary of the development: the result type of fallible Go functions,
  two's complement wrap-around of Go's \<open>int64\<close> arithmetic, association-list
  views of Go maps, first-match search, and the hint collections that the component
  theories use.  Every theory of the library imports this one.
\<close>

named_theorems hs_defs \<open>unfolding rules of the component operations\<close>
named_theorems hs_bounds \<open>bounds on machine integers\<close>

section \<open>Results\<close>

text \<open>A Go function returning a pair of a value and an error is a sum: the error
  on the left, the value on the right.\<close>

type_synonym ('e, 'a) result = "'e + 'a"

abbreviation Err :: "'e \<Rightarrow> ('e, 'a) result" where "Err \<equiv> Inl"
abbreviation Ok :: "'a \<Rightarrow> ('e, 'a) result" where "Ok \<equiv> Inr"

definition is_ok :: "('e, 'a) result \<Rightarrow> bool" where
  "is_ok r = (case r of Inl _ \<Rightarrow> False | Inr _ \<Rightarrow> True)"

lemma is_ok_simps [simp]: "is_ok (Ok x)" "\<not> is_ok (Err e)"
  by (simp_all add: is_ok_def)

lemma is_ok_E: "is_ok r \<Longrightarrow> (\<And>x. r = Ok x \<Longrightarrow> P) \<Longrightarrow> P"
  by (cases r) auto

definition bind_ok :: "('e, 'a) result \<Rightarrow> ('a \<Rightarrow> ('e, 'b) result) \<Rightarrow> ('e, 'b) result" where
  "bind_ok r f = (case r of Inl e \<Rightarrow> Inl e | Inr x \<Rightarrow> f x)"

lemma bind_ok_simps [simp]: "bind_ok (Err e) f = Err e" "bind_ok (Ok x) f = f x"
  by (simp_all add: bind_ok_def)

lemma bind_ok_Ok: "bind_ok r f = Ok y \<longleftrightarrow> (\<exists>x. r = Ok x \<and> f x = Ok y)"
  by (cases r) auto

section \<open>Calls with an effect\<close>

text \<open>A write to the API server takes effect, is refused, or takes effect although the caller
  sees an error (a lost response).\<close>

datatype outcome = Applied | Refused | AppliedLost

definition call :: "outcome \<Rightarrow> ('s \<Rightarrow> 's) \<Rightarrow> 's \<Rightarrow> bool \<times> 's" where
  "call o' f s = (case o' of Applied \<Rightarrow> (True, f s) | Refused \<Rightarrow> (False, s) | AppliedLost \<Rightarrow> (False, f s))"

lemma call_simps [simp]: "call Applied f s = (True, f s)" "call Refused f s = (False, s)" "call AppliedLost f s = (False, f s)"
  by (simp_all add: call_def)

lemma call_ok: "call o' f s = (True, s') \<longleftrightarrow> o' = Applied \<and> s' = f s"
  by (cases o') auto

lemma snd_call: "snd (call o' f s) = s \<or> snd (call o' f s) = f s"
  by (cases o') auto

section \<open>Machine integers\<close>

definition int64_min :: int where "int64_min = - 9223372036854775808"
definition int64_max :: int where "int64_max = 9223372036854775807"

text \<open>The value of a Go \<open>int64\<close> expression whose exact value is the argument.\<close>

definition wrap64 :: "int \<Rightarrow> int" where
  "wrap64 x = (x + 9223372036854775808) mod 18446744073709551616 - 9223372036854775808"

definition in_int64 :: "int \<Rightarrow> bool" where
  "in_int64 x \<longleftrightarrow> int64_min \<le> x \<and> x \<le> int64_max"

lemma wrap64_in_int64 [hs_bounds]: "in_int64 (wrap64 x)"
proof -
  have "0 \<le> (x + 9223372036854775808) mod (18446744073709551616::int)" by simp
  moreover have "(x + 9223372036854775808) mod (18446744073709551616::int) < 18446744073709551616"
    by simp
  ultimately show ?thesis
    unfolding in_int64_def wrap64_def int64_min_def int64_max_def by linarith
qed

lemma wrap64_id: "in_int64 x \<Longrightarrow> wrap64 x = x"
  unfolding in_int64_def wrap64_def int64_min_def int64_max_def by simp

lemma wrap64_small: "0 \<le> x \<Longrightarrow> x < 9223372036854775808 \<Longrightarrow> wrap64 x = x"
  by (rule wrap64_id) (simp add: in_int64_def int64_min_def int64_max_def)

section \<open>First match and association lists\<close>

fun find_first :: "('a \<Rightarrow> bool) \<Rightarrow> 'a list \<Rightarrow> 'a option" where
  "find_first P [] = None"
| "find_first P (x # xs) = (if P x then Some x else find_first P xs)"

lemma find_first_Some: "find_first P xs = Some x \<Longrightarrow> x \<in> set xs \<and> P x"
  by (induction xs) (auto split: if_splits)

lemma find_first_None [simp]: "find_first P xs = None \<longleftrightarrow> (\<forall>x\<in>set xs. \<not> P x)"
  by (induction xs) auto

text \<open>A Go map read without the comma-ok form yields the zero value on a missing key.\<close>

definition map_get :: "'v \<Rightarrow> ('k \<times> 'v) list \<Rightarrow> 'k \<Rightarrow> 'v" where
  "map_get z m k = (case map_of m k of None \<Rightarrow> z | Some v \<Rightarrow> v)"

text \<open>Assignment \<open>m[k] = v\<close>: an existing key keeps its place.\<close>

fun map_set :: "'k \<Rightarrow> 'v \<Rightarrow> ('k \<times> 'v) list \<Rightarrow> ('k \<times> 'v) list" where
  "map_set k v [] = [(k, v)]"
| "map_set k v ((k', v') # m) = (if k = k' then (k, v) # m else (k', v') # map_set k v m)"

lemma map_of_map_set [simp]: "map_of (map_set k v m) = (map_of m)(k \<mapsto> v)"
  by (induction k v m rule: map_set.induct) (auto simp: fun_eq_iff)

lemma map_get_map_set [simp]:
  "map_get z (map_set k v m) k' = (if k' = k then v else map_get z m k')"
  by (simp add: map_get_def)

lemma keys_map_set: "set (map fst (map_set k v m)) = insert k (set (map fst m))"
  by (induction k v m rule: map_set.induct) auto

lemma distinct_map_set: "distinct (map fst m) \<Longrightarrow> distinct (map fst (map_set k v m))"
proof (induction k v m rule: map_set.induct)
  case (2 k v k' v' m)
  then show ?case using keys_map_set[of k v m] by auto
qed simp

section \<open>List facts\<close>

lemma filter_partition_mset:
  "mset (filter P xs) + mset (filter (\<lambda>x. \<not> P x) xs) = mset xs"
  by (induction xs) auto

lemma length_filter_le_count: "length (filter P xs) + length (filter (\<lambda>x. \<not> P x) xs) = length xs"
  by (induction xs) auto

lemma take_drop_mset: "mset (take n xs) + mset (drop n xs) = mset xs"
  by (metis append_take_drop_id mset_append)

lemma distinct_nth_unique:
  "distinct xs \<Longrightarrow> i < length xs \<Longrightarrow> j < length xs \<Longrightarrow> xs ! i = xs ! j \<Longrightarrow> i = j"
  by (simp add: nth_eq_iff_index_eq)

section \<open>Sorting with a less function\<close>

text \<open>\<open>sort.Slice\<close> takes a strict order.  Insertion sort with that order is
  one of the results \<open>sort.Slice\<close> may return, and the only one when no two
  elements are unordered.\<close>

fun insert_by :: "('a \<Rightarrow> 'a \<Rightarrow> bool) \<Rightarrow> 'a \<Rightarrow> 'a list \<Rightarrow> 'a list" where
  "insert_by lt x [] = [x]"
| "insert_by lt x (y # ys) = (if lt y x then y # insert_by lt x ys else x # y # ys)"

fun sort_by :: "('a \<Rightarrow> 'a \<Rightarrow> bool) \<Rightarrow> 'a list \<Rightarrow> 'a list" where
  "sort_by lt [] = []"
| "sort_by lt (x # xs) = insert_by lt x (sort_by lt xs)"

lemma mset_insert_by [simp]: "mset (insert_by lt x ys) = add_mset x (mset ys)"
  by (induction ys) auto

lemma mset_sort_by [simp]: "mset (sort_by lt xs) = mset xs"
  by (induction xs) auto

lemma set_sort_by [simp]: "set (sort_by lt xs) = set xs"
  by (metis mset_sort_by set_mset_mset)

lemma length_sort_by [simp]: "length (sort_by lt xs) = length xs"
  by (metis mset_sort_by size_mset)

lemma sort_by_Nil_iff [simp]: "sort_by lt xs = [] \<longleftrightarrow> xs = []"
  by (metis length_0_conv length_sort_by)

text \<open>The order property of the result, for a strict weak order.\<close>

definition strict_weak :: "('a \<Rightarrow> 'a \<Rightarrow> bool) \<Rightarrow> bool" where
  "strict_weak lt \<longleftrightarrow> (\<forall>x y. lt x y \<longrightarrow> \<not> lt y x) \<and>
     (\<forall>x y z. \<not> lt x y \<longrightarrow> \<not> lt y z \<longrightarrow> \<not> lt x z)"

lemma strict_weak_asym: "strict_weak lt \<Longrightarrow> lt x y \<Longrightarrow> \<not> lt y x"
  unfolding strict_weak_def by blast

lemma strict_weak_trans: "strict_weak lt \<Longrightarrow> \<not> lt x y \<Longrightarrow> \<not> lt y z \<Longrightarrow> \<not> lt x z"
  unfolding strict_weak_def by blast

lemma set_insert_by [simp]: "set (insert_by lt x ys) = insert x (set ys)"
  by (metis mset_insert_by set_mset_add_mset_insert set_mset_mset)

lemma sorted_insert_by:
  assumes "strict_weak lt" "sorted_wrt (\<lambda>x y. \<not> lt y x) ys"
  shows "sorted_wrt (\<lambda>x y. \<not> lt y x) (insert_by lt x ys)"
  using assms(2)
proof (induction ys)
  case (Cons y ys)
  show ?case
  proof (cases "lt y x")
    case True
    then have "\<not> lt x y" using strict_weak_asym[OF assms(1)] by blast
    then show ?thesis using Cons True by simp
  next
    case False
    have "\<not> lt z x" if "z \<in> set ys" for z
    proof -
      have "\<not> lt z y" using Cons.prems that by simp
      then show ?thesis using False strict_weak_trans[OF assms(1)] by blast
    qed
    then show ?thesis using Cons.prems False by simp
  qed
qed simp

lemma sorted_sort_by:
  "strict_weak lt \<Longrightarrow> sorted_wrt (\<lambda>x y. \<not> lt y x) (sort_by lt xs)"
  by (induction xs) (simp_all add: sorted_insert_by)

lemma hd_sort_by_least:
  assumes sw: "strict_weak lt" and x: "x \<in> set xs"
  shows "\<not> lt x (hd (sort_by lt xs))"
proof (cases "sort_by lt xs")
  case Nil
  then show ?thesis using x by simp
next
  case (Cons y ys)
  have irr: "\<not> lt y y" using strict_weak_asym[OF sw] by blast
  have "sorted_wrt (\<lambda>x y. \<not> lt y x) (y # ys)"
    using sorted_sort_by[OF sw, of xs] Cons by simp
  moreover have "x \<in> set (y # ys)" using x Cons by (metis set_sort_by)
  ultimately show ?thesis using irr Cons by auto
qed

end
