(* ===== verification/Go_Strings.thy ===== *)
theory Go_Strings
  imports HS_Prelude
begin

text \<open>
  The part of Go's \<open>strings\<close>, \<open>strconv\<close> and \<open>fmt\<close> packages that the
  modelled code calls.  A Go string is a list of bytes (\<open>string\<close>); white space is
  ASCII white space, which is what the tool outputs parsed by the code contain.
  Substring tests, splitting, trimming, base 10 and base 16 parsing with the range
  checks of \<open>ParseInt\<close> and \<open>ParseUint\<close>, and the integer formats
  are definitions that compute.
\<close>

section \<open>Characters\<close>

abbreviation NL :: char where "NL \<equiv> CHR 0x0A"
abbreviation TAB :: char where "TAB \<equiv> CHR 0x09"

definition em_dash :: string where "em_dash = [CHR 0xE2, CHR 0x80, CHR 0x94]"

definition is_space :: "char \<Rightarrow> bool" where
  "is_space c \<longleftrightarrow> c = CHR '' '' \<or> c = CHR 0x09 \<or> c = CHR 0x0A \<or> c = CHR 0x0B \<or> c = CHR 0x0C \<or> c = CHR 0x0D"

definition byte_of :: "char \<Rightarrow> int" where "byte_of c = of_char c"

definition to_lower_char :: "char \<Rightarrow> char" where
  "to_lower_char c = (if 65 \<le> byte_of c \<and> byte_of c \<le> 90 then char_of (byte_of c + 32) else c)"

definition to_lower :: "string \<Rightarrow> string" where "to_lower = map to_lower_char"

section \<open>Substrings\<close>

definition has_prefix :: "string \<Rightarrow> string \<Rightarrow> bool" where
  "has_prefix s p \<longleftrightarrow> take (length p) s = p"

definition has_suffix :: "string \<Rightarrow> string \<Rightarrow> bool" where
  "has_suffix s p \<longleftrightarrow> length p \<le> length s \<and> drop (length s - length p) s = p"

fun str_contains :: "string \<Rightarrow> string \<Rightarrow> bool" where
  "str_contains [] p \<longleftrightarrow> p = []"
| "str_contains (c # cs) p \<longleftrightarrow> has_prefix (c # cs) p \<or> str_contains cs p"

fun str_index :: "string \<Rightarrow> string \<Rightarrow> nat option" where
  "str_index [] p = (if p = [] then Some 0 else None)"
| "str_index (c # cs) p =
     (if has_prefix (c # cs) p then Some 0 else map_option Suc (str_index cs p))"

definition trim_prefix :: "string \<Rightarrow> string \<Rightarrow> string" where
  "trim_prefix s p = (if has_prefix s p then drop (length p) s else s)"

definition trim_suffix :: "string \<Rightarrow> string \<Rightarrow> string" where
  "trim_suffix s p = (if has_suffix s p then take (length s - length p) s else s)"

lemma has_prefix_append [simp]: "has_prefix (p @ s) p"
  by (simp add: has_prefix_def)

lemma has_prefix_iff: "has_prefix s p \<longleftrightarrow> (\<exists>t. s = p @ t)"
  by (metis append_eq_conv_conj append_take_drop_id has_prefix_def)

lemma has_prefix_refl [simp]: "has_prefix s s"
  by (simp add: has_prefix_def)

lemma str_contains_iff: "str_contains s p \<longleftrightarrow> (\<exists>u v. s = u @ p @ v)"
proof (induction s)
  case IH: (Cons c cs)
  show ?case
  proof
    assume "str_contains (c # cs) p"
    then consider "has_prefix (c # cs) p" | "str_contains cs p" by auto
    then show "\<exists>u v. c # cs = u @ p @ v"
    proof cases
      case 1 then show ?thesis unfolding has_prefix_iff by (metis append_Nil)
    next
      case 2 then show ?thesis using IH by (metis append_Cons)
    qed
  next
    assume "\<exists>u v. c # cs = u @ p @ v"
    then obtain u v where "c # cs = u @ p @ v" by blast
    then show "str_contains (c # cs) p"
    proof (cases u)
      case Nil
      then have "has_prefix (c # cs) p" using \<open>c # cs = u @ p @ v\<close> by simp
      then show ?thesis by simp
    next
      case (Cons x u')
      then have "cs = u' @ p @ v" using \<open>c # cs = u @ p @ v\<close> by simp
      then have "str_contains cs p" using IH by blast
      then show ?thesis by simp
    qed
  qed
qed auto

section \<open>Trimming\<close>

definition trim_left :: "string \<Rightarrow> string" where "trim_left s = dropWhile is_space s"
definition trim_space :: "string \<Rightarrow> string" where
  "trim_space s = rev (dropWhile is_space (rev (dropWhile is_space s)))"

definition trim_byte :: "char \<Rightarrow> string \<Rightarrow> string" where
  "trim_byte c s = rev (dropWhile (\<lambda>x. x = c) (rev (dropWhile (\<lambda>x. x = c) s)))"

lemma trim_space_Nil [simp]: "trim_space [] = []"
  by (simp add: trim_space_def)

lemma dropWhile_no_head: "dropWhile P xs \<noteq> [] \<Longrightarrow> \<not> P (hd (dropWhile P xs))"
  by (rule hd_dropWhile)

lemma trim_space_nonspace:
  "\<forall>c\<in>set s. \<not> is_space c \<Longrightarrow> trim_space s = s"
proof -
  have *: "dropWhile is_space t = t" if "\<forall>c\<in>set t. \<not> is_space c" for t
    using that by (cases t) auto
  assume "\<forall>c\<in>set s. \<not> is_space c"
  then show ?thesis by (simp add: trim_space_def *)
qed

lemma set_trim_space: "set (trim_space s) \<subseteq> set s"
  unfolding trim_space_def by (metis set_dropWhileD set_rev subsetI)

section \<open>Splitting and joining\<close>

text \<open>\<open>strings.Split(s, sep)\<close> for a one-byte separator.\<close>

fun split_char :: "char \<Rightarrow> string \<Rightarrow> string list" where
  "split_char c [] = [[]]"
| "split_char c (x # xs) =
     (if x = c then [] # split_char c xs
      else (case split_char c xs of [] \<Rightarrow> [[x]] | w # ws \<Rightarrow> (x # w) # ws))"

definition split_lines :: "string \<Rightarrow> string list" where "split_lines s = split_char NL s"

fun join_with :: "string \<Rightarrow> string list \<Rightarrow> string" where
  "join_with sep [] = []"
| "join_with sep [w] = w"
| "join_with sep (w # v # ws) = w @ sep @ join_with sep (v # ws)"

text \<open>\<open>strings.SplitN(s, c, 2)\<close>: at the first separator only.\<close>

definition split_n2 :: "char \<Rightarrow> string \<Rightarrow> string list" where
  "split_n2 c s =
     (let (a, b) = (takeWhile (\<lambda>x. x \<noteq> c) s, dropWhile (\<lambda>x. x \<noteq> c) s)
      in if b = [] then [a] else [a, tl b])"

text \<open>\<open>strings.Fields\<close>.\<close>

fun fields_aux :: "string \<Rightarrow> string \<Rightarrow> string list" where
  "fields_aux acc [] = (if acc = [] then [] else [rev acc])"
| "fields_aux acc (x # xs) =
     (if is_space x then (if acc = [] then fields_aux [] xs else rev acc # fields_aux [] xs)
      else fields_aux (x # acc) xs)"

definition str_fields :: "string \<Rightarrow> string list" where "str_fields s = fields_aux [] s"

lemma split_char_ne [simp]: "split_char c s \<noteq> []"
  by (induction c s rule: split_char.induct) (auto split: list.splits)

lemma split_char_no_sep: "w \<in> set (split_char c s) \<Longrightarrow> c \<notin> set w"
proof (induction s arbitrary: w)
  case (Cons x xs)
  then show ?case
    by (cases "split_char c xs") (auto split: if_splits)
qed simp

lemma split_char_id: "c \<notin> set s \<Longrightarrow> split_char c s = [s]"
  by (induction s) auto

lemma split_char_append:
  "c \<notin> set s \<Longrightarrow> split_char c (s @ c # t) = s # split_char c t"
  by (induction s) auto

lemma join_split_char: "join_with [c] (split_char c s) = s"
proof (induction s)
  case (Cons x xs)
  show ?case
  proof (cases "split_char c xs")
    case Nil then show ?thesis by simp
  next
    case (Cons w ws)
    then show ?thesis using Cons.IH by (cases ws) auto
  qed
qed simp

lemma split_join_char:
  "ws \<noteq> [] \<Longrightarrow> \<forall>w\<in>set ws. c \<notin> set w \<Longrightarrow> split_char c (join_with [c] ws) = ws"
proof (induction "[c]" ws rule: join_with.induct)
  case (3 w v ws) then show ?case by (simp add: split_char_append)
qed (auto simp: split_char_id)

section \<open>Integers\<close>

text \<open>The value of a digit in a base up to 16, letters of both cases.\<close>

definition digit_val :: "char \<Rightarrow> int" where
  "digit_val c =
     (let b = byte_of c in
      if 48 \<le> b \<and> b \<le> 57 then b - 48
      else if 97 \<le> b \<and> b \<le> 122 then b - 87
      else if 65 \<le> b \<and> b \<le> 90 then b - 55
      else 255)"

fun parse_digits :: "int \<Rightarrow> int \<Rightarrow> string \<Rightarrow> int option" where
  "parse_digits base acc [] = Some acc"
| "parse_digits base acc (c # cs) =
     (if digit_val c < base then parse_digits base (acc * base + digit_val c) cs else None)"

datatype num_error = ErrSyntax | ErrRange

text \<open>\<open>strconv.ParseUint(s, base, 64)\<close>.\<close>

definition parse_uint64 :: "int \<Rightarrow> string \<Rightarrow> (num_error, int) result" where
  "parse_uint64 base s =
     (if s = [] then Err ErrSyntax
      else case parse_digits base 0 s of
             None \<Rightarrow> Err ErrSyntax
           | Some n \<Rightarrow> if n < 18446744073709551616 then Ok n else Err ErrRange)"

text \<open>\<open>strconv.ParseInt(s, base, 64)\<close>: an optional sign, then the unsigned
  value, rejected outside the range of \<open>int64\<close>.  \<open>strconv.Atoi\<close> is the
  base 10 case on the platforms the program is built for.\<close>

definition parse_int64 :: "int \<Rightarrow> string \<Rightarrow> (num_error, int) result" where
  "parse_int64 base s =
     (case s of
        [] \<Rightarrow> Err ErrSyntax
      | c # cs \<Rightarrow>
          (let neg = (c = CHR ''-'');
               body = (if c = CHR ''-'' \<or> c = CHR ''+'' then cs else s)
           in case parse_uint64 base body of
                Inl e \<Rightarrow> Err e
              | Inr n \<Rightarrow> if neg then (if n \<le> 9223372036854775808 then Ok (- n) else Err ErrRange)
                         else (if n < 9223372036854775808 then Ok n else Err ErrRange)))"

lemma digit_val_nonneg: "0 \<le> digit_val c"
  by (simp add: digit_val_def Let_def)

lemma parse_digits_nonneg: "parse_digits b acc s = Some n \<Longrightarrow> 0 \<le> acc \<Longrightarrow> 0 \<le> b \<Longrightarrow> 0 \<le> n"
  by (induction b acc s rule: parse_digits.induct) (auto split: if_splits simp: digit_val_nonneg)

lemma parse_uint64_range: "parse_uint64 b s = Ok n \<Longrightarrow> 0 \<le> b \<Longrightarrow> 0 \<le> n \<and> n < 18446744073709551616"
  by (auto simp: parse_uint64_def split: if_splits option.splits dest: parse_digits_nonneg)

lemma parse_int64_range: "parse_int64 b s = Ok v \<Longrightarrow> 0 \<le> b \<Longrightarrow> in_int64 v"
  by (auto simp: parse_int64_def in_int64_def int64_min_def int64_max_def Let_def
      split: list.splits sum.splits if_splits dest: parse_uint64_range)

section \<open>Formatting\<close>

definition digit_char :: "int \<Rightarrow> char" where
  "digit_char d = (if d < 10 then char_of (48 + d) else char_of (55 + d))"

text \<open>The digits of a nonnegative number.\<close>

function num_str :: "int \<Rightarrow> int \<Rightarrow> string" where
  "num_str b n = (if n < b \<or> b < 2 then [digit_char n] else num_str b (n div b) @ [digit_char (n mod b)])"
  by pat_completeness auto
termination
proof (relation "measure (\<lambda>p. nat (snd p))")
  fix b n :: int
  assume *: "\<not> (n < b \<or> b < 2)"
  then have "n div b < n" by (intro int_div_less_self) auto
  then show "((b, n div b), (b, n)) \<in> measure (\<lambda>p. nat (snd p))" using * by auto
qed auto

declare num_str.simps [simp del]

definition dec_str :: "int \<Rightarrow> string" where
  "dec_str i = (if i < 0 then CHR ''-'' # num_str 10 (- i) else num_str 10 i)"

definition hex_str :: "int \<Rightarrow> string" where
  "hex_str i = (if i < 0 then CHR ''-'' # num_str 16 (- i) else num_str 16 i)"

text \<open>\<open>%0wX\<close>: zero padding to the width, after the sign.\<close>

definition pad_zero :: "nat \<Rightarrow> string \<Rightarrow> string" where
  "pad_zero w s = replicate (w - length s) (CHR ''0'') @ s"

definition hex_pad :: "nat \<Rightarrow> int \<Rightarrow> string" where
  "hex_pad w i = (if i < 0 then CHR ''-'' # pad_zero (w - 1) (num_str 16 (- i))
                  else pad_zero w (num_str 16 i))"

definition digit_good :: "int \<Rightarrow> bool" where
  "digit_good d \<longleftrightarrow> digit_val (digit_char d) = d \<and> digit_char d \<noteq> CHR ''-'' \<and> digit_char d \<noteq> CHR ''+''
     \<and> digit_char d \<noteq> CHR ''/'' \<and> \<not> is_space (digit_char d)"

lemma digit_good_16: "0 \<le> d \<Longrightarrow> d < 16 \<Longrightarrow> digit_good d"
proof -
  assume "0 \<le> d" "d < 16"
  then have "d \<in> set [0..15]" by simp
  moreover have "list_all digit_good [0..15]" by code_simp
  ultimately show ?thesis by (metis list_all_iff)
qed

lemma digit_val_digit_char: "0 \<le> d \<Longrightarrow> d < 16 \<Longrightarrow> digit_val (digit_char d) = d"
  using digit_good_16 by (simp add: digit_good_def)

lemma digit_char_chars:
  "0 \<le> d \<Longrightarrow> d < 16 \<Longrightarrow> digit_char d \<noteq> CHR ''-'' \<and> digit_char d \<noteq> CHR ''+''
     \<and> digit_char d \<noteq> CHR ''/'' \<and> \<not> is_space (digit_char d)"
  using digit_good_16 by (simp add: digit_good_def)

lemma parse_digits_append:
  "parse_digits b acc (s @ t) =
     (case parse_digits b acc s of None \<Rightarrow> None | Some n \<Rightarrow> parse_digits b n t)"
  by (induction b acc s rule: parse_digits.induct) auto

lemma parse_num_str:
  "2 \<le> b \<Longrightarrow> b \<le> 16 \<Longrightarrow> 0 \<le> n \<Longrightarrow> parse_digits b 0 (num_str b n) = Some n"
proof (induction b n rule: num_str.induct)
  case (1 b n)
  show ?case
  proof (cases "n < b")
    case True
    then show ?thesis using 1(2-4) by (simp add: num_str.simps[of b n] digit_val_digit_char)
  next
    case False
    have m: "0 \<le> n mod b" "n mod b < b" using 1(2) by simp_all
    then have d: "digit_val (digit_char (n mod b)) = n mod b"
      using 1(3) by (simp add: digit_val_digit_char)
    have "parse_digits b 0 (num_str b (n div b)) = Some (n div b)"
      using 1 False by (simp add: pos_imp_zdiv_nonneg_iff)
    then show ?thesis
      using False 1(2) m d by (simp add: num_str.simps[of b n] parse_digits_append)
  qed
qed

lemma num_str_ne [simp]: "num_str b n \<noteq> []"
  by (subst num_str.simps) auto

lemma num_str_all:
  assumes P: "\<And>d. 0 \<le> d \<Longrightarrow> d < 16 \<Longrightarrow> P (digit_char d)"
  shows "2 \<le> b \<Longrightarrow> b \<le> 16 \<Longrightarrow> 0 \<le> n \<Longrightarrow> list_all P (num_str b n)"
proof (induction b n rule: num_str.induct)
  case (1 b n)
  show ?case
  proof (cases "n < b")
    case True
    then show ?thesis using 1(2-4) P by (simp add: num_str.simps[of b n])
  next
    case False
    have m: "0 \<le> n mod b" "n mod b < b" using 1(2) by simp_all
    have "list_all P (num_str b (n div b))"
      using 1 False by (simp add: pos_imp_zdiv_nonneg_iff)
    moreover have "P (digit_char (n mod b))" using P m 1(3) by simp
    ultimately show ?thesis using 1(2) False by (simp add: num_str.simps[of b n])
  qed
qed

lemma parse_int64_num_str:
  assumes "2 \<le> b" "b \<le> 16" "0 \<le> n" "n < 9223372036854775808"
  shows "parse_int64 b (num_str b n) = Ok n"
proof -
  have "list_all (\<lambda>c. c \<noteq> CHR ''-'' \<and> c \<noteq> CHR ''+'') (num_str b n)"
    by (rule num_str_all) (use assms digit_char_chars in auto)
  then show ?thesis
    using assms parse_num_str[OF assms(1,2,3)]
    by (cases "num_str b n") (auto simp: parse_int64_def parse_uint64_def Let_def)
qed

end
