(* ===== verification/Pg_Lsn.thy ===== *)
theory Pg_Lsn
  imports Go_Strings
begin

text \<open>
  PostgreSQL positions as the engine reads and prints them
  (\<open>triage/cnpg.go\<close>: \<open>parseLSNValue\<close>, \<open>parseTimelineInt\<close>;
  \<open>triage/cnpg_authority.go\<close>: \<open>formatLSN\<close>, \<open>formatWALPastFork\<close>).
  A log sequence number is an \<open>int64\<close>; the arithmetic of the parser wraps as
  the machine's does.
\<close>

section \<open>Parsing\<close>

definition unknown :: string where "unknown = ''unknown''"

definition parse_lsn_value :: "string \<Rightarrow> int" where
  "parse_lsn_value lsn =
     (if lsn = '''' \<or> lsn = unknown then 0
      else case split_char (CHR ''/'') lsn of
             [hi, lo] \<Rightarrow>
               (case (parse_int64 16 hi, parse_int64 16 lo) of
                  (Inr h, Inr l) \<Rightarrow> wrap64 (wrap64 (h * 4294967296) + l)
                | _ \<Rightarrow> 0)
           | _ \<Rightarrow> 0)"

definition parse_timeline_int :: "string \<Rightarrow> int" where
  "parse_timeline_int txt =
     (let t = trim_space txt in
      if t = '''' \<or> t = unknown then 0
      else case parse_int64 10 t of Inl _ \<Rightarrow> 0 | Inr n \<Rightarrow> n)"

section \<open>Printing\<close>

definition format_lsn :: "int \<Rightarrow> string" where
  "format_lsn v =
     (if v = 0 then ''0/0''
      else hex_str (v div 4294967296) @ ''/'' @ hex_str (v mod 4294967296))"

definition round_half_even :: "int \<Rightarrow> int \<Rightarrow> int" where
  "round_half_even n d =
     (let q = n div d; r = n mod d in
      if 2 * r < d then q else if 2 * r > d then q + 1 else if even q then q else q + 1)"

text \<open>\<open>float64(d)\<close> for a nonnegative integer: exact below 2 to the 53, else the
  nearest multiple of the unit in the last place.\<close>

function f64_ulp :: "int \<Rightarrow> int" where
  "f64_ulp d = (if d < 9007199254740992 then 1 else 2 * f64_ulp (d div 2))"
  by pat_completeness auto
termination by (relation "measure nat") auto

declare f64_ulp.simps [simp del]

definition f64_of_int :: "int \<Rightarrow> int" where
  "f64_of_int d = round_half_even d (f64_ulp d) * f64_ulp d"

text \<open>\<open>%.1f\<close> of a quotient by a power of two, which is exact in binary.\<close>

definition fmt_tenths :: "int \<Rightarrow> int \<Rightarrow> string" where
  "fmt_tenths n d =
     (let t = round_half_even (n * 10) d in dec_str (t div 10) @ ''.'' @ dec_str (t mod 10))"

definition format_wal_past_fork :: "int \<Rightarrow> int \<Rightarrow> string" where
  "format_wal_past_fork checkpoint fork =
     (let d = wrap64 (checkpoint - fork) in
      if d \<le> 0 then ''0 B''
      else if d \<ge> 1073741824 then fmt_tenths (f64_of_int d) 1073741824 @ '' GB''
      else if d \<ge> 1048576 then fmt_tenths (f64_of_int d) 1048576 @ '' MB''
      else if d \<ge> 1024 then fmt_tenths (f64_of_int d) 1024 @ '' KB''
      else dec_str d @ '' B'')"

section \<open>Lemmas\<close>

lemma hex_no_slash: "0 \<le> v \<Longrightarrow> CHR ''/'' \<notin> set (hex_str v)"
proof -
  have "0 \<le> v \<Longrightarrow> list_all (\<lambda>c. c \<noteq> CHR ''/'') (num_str 16 v)"
    by (rule num_str_all) (auto dest: digit_char_chars)
  then show "0 \<le> v \<Longrightarrow> ?thesis" by (auto simp: hex_str_def list_all_iff)
qed

lemma format_lsn_split:
  "0 \<le> v \<Longrightarrow> v \<noteq> 0 \<Longrightarrow>
     split_char (CHR ''/'') (format_lsn v) = [hex_str (v div 4294967296), hex_str (v mod 4294967296)]"
  by (simp add: format_lsn_def split_char_append split_char_id hex_no_slash)

lemma format_lsn_known: "0 \<le> v \<Longrightarrow> format_lsn v \<noteq> '''' \<and> format_lsn v \<noteq> unknown"
proof (cases "v = 0")
  case False
  assume "0 \<le> v"
  then have "CHR ''/'' \<in> set (format_lsn v)" using False by (simp add: format_lsn_def)
  then show ?thesis by (auto simp: unknown_def)
qed (simp add: format_lsn_def unknown_def)

lemma in_int64_0 [simp]: "in_int64 0"
  by (simp add: in_int64_def int64_min_def int64_max_def)

lemma parse_lsn_in_int64 [hs_bounds]: "in_int64 (parse_lsn_value s)"
  unfolding parse_lsn_value_def
  by (simp add: wrap64_in_int64 split: list.splits sum.splits)

lemma parse_timeline_in_int64 [hs_bounds]: "in_int64 (parse_timeline_int s)"
  unfolding parse_timeline_int_def Let_def
  by (simp add: parse_int64_range split: sum.splits)

section \<open>Properties\<close>

text \<open>Printing a log sequence number and parsing it again gives the same number,
  for every nonnegative value of the machine type.\<close>

theorem lsn_roundtrip:
  assumes "0 \<le> v" "v < 9223372036854775808"
  shows "parse_lsn_value (format_lsn v) = v"
proof (cases "v = 0")
  case True
  have "parse_lsn_value ''0/0'' = 0" by code_simp
  then show ?thesis using True by (simp add: format_lsn_def)
next
  case False
  define h l where "h = v div 4294967296" and "l = v mod 4294967296"
  have h: "0 \<le> h" "h < 2147483648" and l: "0 \<le> l" "l < 4294967296"
    using assms by (auto simp: h_def l_def)
  have v: "h * 4294967296 + l = v" by (simp add: h_def l_def)
  have ph: "parse_int64 16 (hex_str h) = Ok h"
    using h parse_int64_num_str[of 16 h] by (simp add: hex_str_def)
  have pl: "parse_int64 16 (hex_str l) = Ok l"
    using l parse_int64_num_str[of 16 l] by (simp add: hex_str_def)
  have "wrap64 (h * 4294967296) = h * 4294967296"
    by (rule wrap64_small) (use h in linarith)+
  moreover have "wrap64 v = v" by (rule wrap64_small[OF assms])
  ultimately have "wrap64 (wrap64 (h * 4294967296) + l) = v" by (simp add: v)
  then show ?thesis
    using format_lsn_known[OF assms(1)] format_lsn_split[OF assms(1) False] ph pl
    by (simp add: parse_lsn_value_def h_def l_def)
qed

lemma lsn_roundtrip_witness: "parse_lsn_value (format_lsn 24305993464) = 24305993464"
  by (rule lsn_roundtrip) simp_all

end
