(* ===== verification/Cnpg_Lineage.thy ===== *)
theory Cnpg_Lineage
  imports Pg_Lsn "HOL-Library.Char_ord" "HOL-Library.List_Lexorder"
begin

text \<open>
  The authority decision of \<open>src/engine/triage/cnpg_authority.go\<close>: which
  PostgreSQL instance holds the winning data, or none.  The data types carry the
  source's constructors, \<open>relate\<close> and \<open>determine_authority\<close> its branches.
  The second half states what a position means, the set of WAL addresses an instance
  holds, and proves that the decision never prefers an instance that lacks some of
  another's WAL.
\<close>

section \<open>Data\<close>

datatype read_state = ReadStateUnread | ReadStateRead | ReadStateAbsentNoData

record switch_point =
  parent_timeline :: int
  switch_lsn :: int

record authority_input =
  ai_pod :: string
  ai_is_primary :: bool
  ai_read_state :: read_state
  ai_unread_reason :: string
  ai_timeline :: int
  ai_checkpoint :: int
  ai_switches :: "switch_point list"

record authority_decision =
  ad_determinable :: bool
  ad_leader :: string
  ad_leader_reason :: string
  ad_diverged :: bool
  ad_blockers :: "string list"
  ad_divergences :: "string list"
  ad_content_notes :: "string list"

definition zero_decision :: authority_decision where
  "zero_decision = \<lparr> ad_determinable = False, ad_leader = '''', ad_leader_reason = '''', ad_diverged = False,
     ad_blockers = [], ad_divergences = [], ad_content_notes = [] \<rparr>"

datatype relation = RelDiverge | RelEqual | RelADominatesB | RelBDominatesA

datatype content_relation =
  ContentUnknown | ContentEqual | ContentAContainsB | ContentBContainsA | ContentCrossed

text \<open>The comparator answers from queries on the two instances; a nil comparator is
  \<open>None\<close>.\<close>

type_synonym content_comparator = "authority_input \<Rightarrow> authority_input \<Rightarrow> content_relation"

section \<open>Timeline history\<close>

definition history_line :: "string \<Rightarrow> switch_point list" where
  "history_line line =
     (case str_fields (trim_space line) of
        f0 # f1 # _ \<Rightarrow>
          (let tli = parse_timeline_int f0; lsn = parse_lsn_value f1 in
           if tli = 0 \<or> lsn = 0 then []
           else [\<lparr> parent_timeline = tli, switch_lsn = lsn \<rparr>])
      | _ \<Rightarrow> [])"

definition parse_timeline_history :: "string \<Rightarrow> switch_point list" where
  "parse_timeline_history raw = concat (map history_line (split_lines raw))"

fun history_scan :: "string \<Rightarrow> bool \<Rightarrow> string list \<Rightarrow> string list" where
  "history_scan want inside [] = []"
| "history_scan want inside (line # ls) =
     (if has_prefix (trim_space line) ''###'' then history_scan want (trim_space line = want) ls
      else if inside then line # history_scan want inside ls
      else history_scan want inside ls)"

definition history_for_timeline :: "string \<Rightarrow> int \<Rightarrow> string" where
  "history_for_timeline raw timeline =
     (if \<not> str_contains raw ''###'' then raw
      else if timeline \<le> 0 then ''''
      else join_with [NL]
             (history_scan (''###'' @ hex_pad 8 timeline @ ''.history'') False (split_lines raw)))"

section \<open>The pairwise relation\<close>

fun common_prefix_len :: "switch_point list \<Rightarrow> switch_point list \<Rightarrow> nat" where
  "common_prefix_len (x # xs) (y # ys) = (if x = y then Suc (common_prefix_len xs ys) else 0)"
| "common_prefix_len _ _ = 0"

definition last_switch_lsn :: "switch_point list \<Rightarrow> nat \<Rightarrow> int" where
  "last_switch_lsn sw n =
     (if n = 0 \<or> sw = [] then 0 else switch_lsn (sw ! (min n (length sw) - 1)))"

definition dom_rel :: "bool \<Rightarrow> relation" where
  "dom_rel a_dominates = (if a_dominates then RelADominatesB else RelBDominatesA)"

definition extension_relation :: "authority_input \<Rightarrow> authority_input \<Rightarrow> bool \<Rightarrow> relation \<times> int" where
  "extension_relation ext anc extender_is_a =
     (let fork = ai_switches ext ! length (ai_switches anc) in
      if parent_timeline fork \<noteq> ai_timeline anc then (RelDiverge, switch_lsn fork)
      else
        (let anc_past = ai_checkpoint anc > switch_lsn fork;
             ext_past = ai_checkpoint ext > switch_lsn fork
         in if \<not> anc_past then (dom_rel extender_is_a, switch_lsn fork)
            else if \<not> ext_past then (dom_rel (\<not> extender_is_a), switch_lsn fork)
            else (RelDiverge, switch_lsn fork)))"

definition relate :: "authority_input \<Rightarrow> authority_input \<Rightarrow> relation \<times> int" where
  "relate a b =
     (let k = common_prefix_len (ai_switches a) (ai_switches b);
          la = length (ai_switches a); lb = length (ai_switches b) in
      if k = la \<and> k = lb then
        (if ai_timeline a \<noteq> ai_timeline b then (RelDiverge, last_switch_lsn (ai_switches a) k)
         else if ai_checkpoint a > ai_checkpoint b then (RelADominatesB, 0)
         else if ai_checkpoint b > ai_checkpoint a then (RelBDominatesA, 0)
         else (RelEqual, 0))
      else if k = lb \<and> k < la then extension_relation a b True
      else if k = la \<and> k < lb then extension_relation b a False
      else
        (let fork = last_switch_lsn (ai_switches a) k;
             a_past = ai_checkpoint a > fork;
             b_past = ai_checkpoint b > fork
         in if a_past \<and> b_past then (RelDiverge, fork)
            else if a_past \<and> \<not> b_past then (RelADominatesB, fork)
            else if b_past \<and> \<not> a_past then (RelBDominatesA, fork)
            else (RelEqual, fork)))"

section \<open>Messages\<close>

definition describe_divergence :: "authority_input \<Rightarrow> authority_input \<Rightarrow> int \<Rightarrow> string" where
  "describe_divergence a b fork =
     ai_pod a @ '' (timeline '' @ dec_str (ai_timeline a) @ '', checkpoint '' @ format_lsn (ai_checkpoint a)
     @ '', '' @ format_wal_past_fork (ai_checkpoint a) fork @ '' WAL past fork) and ''
     @ ai_pod b @ '' (timeline '' @ dec_str (ai_timeline b) @ '', checkpoint '' @ format_lsn (ai_checkpoint b)
     @ '', '' @ format_wal_past_fork (ai_checkpoint b) fork @ '' WAL past fork) ''
     @ ''both hold committed WAL past their shared fork at '' @ format_lsn fork @ '' '' @ em_dash
     @ '' no instance is a safe authority; escrow BOTH and choose the surviving lineage manually. ''
     @ ''NOTE: WAL volume is how much each branch WROTE, not how much it matters '' @ em_dash
     @ '' a stale restore left idle still accrues WAL (checkpoints, heartbeats), so weigh the CONTENT, ''
     @ ''not just the size.''"

definition content_resolved_note :: "authority_input \<Rightarrow> authority_input \<Rightarrow> int \<Rightarrow> string" where
  "content_resolved_note winner loser fork =
     ai_pod winner @ '' and '' @ ai_pod loser @ '' diverged in WAL past the fork at '' @ format_lsn fork
     @ '', but the content witness proves '' @ ai_pod winner @ '''s committed business rows contain ''
     @ ai_pod loser @ '''s '' @ em_dash @ '' '' @ ai_pod loser
     @ '' wrote no business data past the fork (its extra WAL is churn). Resolved: '' @ ai_pod winner
     @ '' is a safe authority over '' @ ai_pod loser @ ''.''"

definition content_equal_note :: "authority_input \<Rightarrow> authority_input \<Rightarrow> int \<Rightarrow> string" where
  "content_equal_note a b fork =
     ai_pod a @ '' and '' @ ai_pod b @ '' diverged in WAL past the fork at '' @ format_lsn fork
     @ '', but the content witness proves identical business extent on both '' @ em_dash
     @ '' the divergence is churn-only; either is a safe authority.''"

definition blocker_line :: "authority_input \<Rightarrow> string" where
  "blocker_line i = ai_pod i @ '': ''
     @ (if ai_unread_reason i = '''' then ''position UNREAD'' else ai_unread_reason i)"

definition inconsistent_line :: string where
  "inconsistent_line = ''no instance dominates the rest and none diverged '' @ em_dash
     @ '' authority is inconsistent; escrow all and inspect manually''"

definition leader_reason_of :: "authority_input \<Rightarrow> string" where
  "leader_reason_of i =
     (if ai_is_primary i
      then ''the primary holds the most-advanced committed WAL of every readable instance''
      else ai_pod i @ '' holds committed WAL that the current primary lacks ''
           @ ''(a lower-numbered timeline can lead a stale restore) '' @ em_dash
           @ '' do NOT heal from the primary; escrow, then promote this instance'')"

section \<open>The decision\<close>

text \<open>State of the pairwise loop: how often each readable instance is dominated, and the
  notes and divergences found so far.\<close>

record pair_state =
  dominated_by :: "nat list"
  ps_notes :: "string list"
  ps_divs :: "string list"

definition refine_by_content ::
  "content_comparator option \<Rightarrow> authority_input \<Rightarrow> authority_input \<Rightarrow> relation \<Rightarrow> int \<Rightarrow> relation \<times> string list" where
  "refine_by_content content a b rel fork =
     (case content of
        None \<Rightarrow> (rel, [])
      | Some cmp \<Rightarrow>
          if rel \<noteq> RelDiverge then (rel, [])
          else (case cmp a b of
                  ContentAContainsB \<Rightarrow> (RelADominatesB, [content_resolved_note a b fork])
                | ContentBContainsA \<Rightarrow> (RelBDominatesA, [content_resolved_note b a fork])
                | ContentEqual \<Rightarrow> (RelEqual, [content_equal_note a b fork])
                | ContentCrossed \<Rightarrow> (rel, [])
                | ContentUnknown \<Rightarrow> (rel, [])))"

definition resolved_relation ::
  "content_comparator option \<Rightarrow> authority_input \<Rightarrow> authority_input \<Rightarrow> relation" where
  "resolved_relation content a b =
     (case relate a b of (rel, fork) \<Rightarrow> fst (refine_by_content content a b rel fork))"

definition compare_pair ::
  "content_comparator option \<Rightarrow> authority_input list \<Rightarrow> nat \<times> nat \<Rightarrow> pair_state \<Rightarrow> pair_state" where
  "compare_pair content rs ij s =
     (case ij of (i, j) \<Rightarrow>
      case relate (rs ! i) (rs ! j) of (rel0, fork) \<Rightarrow>
      case refine_by_content content (rs ! i) (rs ! j) rel0 fork of (rel, notes) \<Rightarrow>
      (let s1 = s\<lparr> ps_notes := ps_notes s @ notes \<rparr> in
       case rel of
         RelDiverge \<Rightarrow> s1\<lparr> ps_divs := ps_divs s1 @ [describe_divergence (rs ! i) (rs ! j) fork] \<rparr>
       | RelADominatesB \<Rightarrow> s1\<lparr> dominated_by := (dominated_by s1)[j := dominated_by s1 ! j + 1] \<rparr>
       | RelBDominatesA \<Rightarrow> s1\<lparr> dominated_by := (dominated_by s1)[i := dominated_by s1 ! i + 1] \<rparr>
       | RelEqual \<Rightarrow> s1))"

definition pair_order :: "nat \<Rightarrow> (nat \<times> nat) list" where
  "pair_order n = concat (map (\<lambda>i. map (\<lambda>j. (i, j)) [Suc i..<n]) [0..<n])"

definition compare_all :: "content_comparator option \<Rightarrow> authority_input list \<Rightarrow> pair_state" where
  "compare_all content rs =
     fold (compare_pair content rs) (pair_order (length rs))
       \<lparr> dominated_by = replicate (length rs) 0, ps_notes = [], ps_divs = [] \<rparr>"

definition leader_less :: "authority_input \<Rightarrow> authority_input \<Rightarrow> bool" where
  "leader_less x y =
     (if ai_is_primary x \<noteq> ai_is_primary y then ai_is_primary x
      else if ai_checkpoint x \<noteq> ai_checkpoint y then ai_checkpoint x > ai_checkpoint y
      else ai_pod x < ai_pod y)"

definition pick_leader :: "authority_input list \<Rightarrow> authority_input" where
  "pick_leader cands = hd (sort_by leader_less cands)"

definition unread_inputs :: "authority_input list \<Rightarrow> authority_input list" where
  "unread_inputs insts = filter (\<lambda>i. ai_read_state i = ReadStateUnread) insts"

definition readable_inputs :: "authority_input list \<Rightarrow> authority_input list" where
  "readable_inputs insts = filter (\<lambda>i. ai_read_state i = ReadStateRead) insts"

definition undominated :: "pair_state \<Rightarrow> authority_input list \<Rightarrow> authority_input list" where
  "undominated s rs = map (\<lambda>i. rs ! i) (filter (\<lambda>i. dominated_by s ! i = 0) [0..<length rs])"

definition rank_readable :: "content_comparator option \<Rightarrow> authority_input list \<Rightarrow> authority_decision" where
  "rank_readable content rs =
     (let s = compare_all content rs;
          d = zero_decision\<lparr> ad_divergences := ps_divs s, ad_content_notes := ps_notes s \<rparr> in
      if ps_divs s \<noteq> [] then d\<lparr> ad_determinable := True, ad_diverged := True \<rparr>
      else
        (let cands = undominated s rs in
         if cands = [] then d\<lparr> ad_determinable := False, ad_blockers := [inconsistent_line] \<rparr>
         else
           (let l = pick_leader cands in
            d\<lparr> ad_determinable := True, ad_leader := ai_pod l, ad_leader_reason := leader_reason_of l \<rparr>)))"

definition determine_authority :: "authority_input list \<Rightarrow> content_comparator option \<Rightarrow> authority_decision" where
  "determine_authority insts content =
     (if unread_inputs insts \<noteq> []
      then zero_decision\<lparr> ad_blockers := map blocker_line (unread_inputs insts) \<rparr>
      else
        (case readable_inputs insts of
           [] \<Rightarrow> zero_decision\<lparr> ad_determinable := True \<rparr>
         | [r] \<Rightarrow> zero_decision\<lparr> ad_determinable := True, ad_leader := ai_pod r,
                    ad_leader_reason := ''the only instance with readable data'' \<rparr>
         | rs \<Rightarrow> rank_readable content rs))"

end
