(* ===== verification/Cnpg_Authority.thy ===== *)
theory Cnpg_Authority
  imports Cnpg_Lineage
begin

text \<open>
  Correctness of the authority decision of \<open>Cnpg_Lineage\<close>.  The abstract
  specification is the set of write-ahead-log addresses an instance holds
  (\<open>wal_extent\<close>): a position on a branch, where a branch is the chain of
  timeline switches that leads to it.  The pairwise relation refines containment of
  these sets, and the leader the decision names holds every address of every readable
  instance.  The locale \<open>content_contract\<close> states what a content comparator
  promises; its lemma extends the guarantee to decisions that used one.
\<close>

section \<open>Specification: the addresses an instance holds\<close>

definition seg_timeline :: "authority_input \<Rightarrow> nat \<Rightarrow> int" where
  "seg_timeline a i = (if i < length (ai_switches a) then parent_timeline (ai_switches a ! i)
                       else ai_timeline a)"

definition seg_low :: "authority_input \<Rightarrow> nat \<Rightarrow> int" where
  "seg_low a i = (if i = 0 then 0 else switch_lsn (ai_switches a ! (i - 1)))"

definition seg_high :: "authority_input \<Rightarrow> nat \<Rightarrow> int" where
  "seg_high a i = (if i < length (ai_switches a) then switch_lsn (ai_switches a ! i)
                   else ai_checkpoint a)"

definition in_seg :: "authority_input \<Rightarrow> nat \<Rightarrow> int \<Rightarrow> int \<Rightarrow> bool" where
  "in_seg a i t x \<longleftrightarrow> t = seg_timeline a i \<and> seg_low a i < x \<and> x \<le> seg_high a i"

definition wal_extent :: "authority_input \<Rightarrow> (switch_point list \<times> int \<times> int) set" where
  "wal_extent a = {(br, t, x). length br \<le> length (ai_switches a) \<and>
     br = take (length br) (ai_switches a) \<and> in_seg a (length br) t x}"

text \<open>A history whose forks never go backwards and end at or before the checkpoint.\<close>

definition wf_lineage :: "authority_input \<Rightarrow> bool" where
  "wf_lineage a \<longleftrightarrow> sorted (0 # map switch_lsn (ai_switches a) @ [ai_checkpoint a])"

section \<open>Segments\<close>

lemma seg_low_nth:
  "i \<le> length (ai_switches a) \<Longrightarrow> seg_low a i = (0 # map switch_lsn (ai_switches a) @ [ai_checkpoint a]) ! i"
  by (cases i) (auto simp: seg_low_def nth_append)

lemma seg_high_nth:
  "i \<le> length (ai_switches a) \<Longrightarrow> seg_high a i = (0 # map switch_lsn (ai_switches a) @ [ai_checkpoint a]) ! Suc i"
  by (auto simp: seg_high_def nth_append)

lemma wf_low_mono:
  assumes "wf_lineage a" "i \<le> j" "j \<le> length (ai_switches a)"
  shows "seg_low a i \<le> seg_low a j"
  using assms sorted_nth_mono[OF assms(1)[unfolded wf_lineage_def], of i j]
  by (simp add: seg_low_nth)

lemma wf_high_checkpoint:
  assumes "wf_lineage a" "i \<le> length (ai_switches a)"
  shows "seg_high a i \<le> ai_checkpoint a"
  using sorted_nth_mono[OF assms(1)[unfolded wf_lineage_def], of "Suc i" "Suc (length (ai_switches a))"] assms(2)
  by (auto simp: seg_high_def nth_append)

lemma in_seg_empty:
  assumes "wf_lineage a" "j \<le> i" "i \<le> length (ai_switches a)" "ai_checkpoint a \<le> seg_low a j"
  shows "\<not> in_seg a i t x"
  using wf_low_mono[OF assms(1-3)] wf_high_checkpoint[OF assms(1,3)] assms(4)
  by (auto simp: in_seg_def)

lemma seg_high_low: "i < length (ai_switches a) \<Longrightarrow> seg_high a i = seg_low a (Suc i)"
  by (simp add: seg_high_def seg_low_def)

text \<open>Past the start of segment \<open>k\<close> with the checkpoint beyond it, some address is held.\<close>

lemma extent_beyond:
  assumes "k \<le> length (ai_switches a)" "seg_low a k < ai_checkpoint a"
  shows "\<exists>i t x. k \<le> i \<and> i \<le> length (ai_switches a) \<and> in_seg a i t x"
  using assms
proof (induction "length (ai_switches a) - k" arbitrary: k)
  case 0
  then have "in_seg a k (seg_timeline a k) (ai_checkpoint a)"
    by (auto simp: in_seg_def seg_high_def)
  then show ?case using 0 by blast
next
  case (Suc d)
  then have k: "k < length (ai_switches a)" by linarith
  show ?case
  proof (cases "seg_low a k < seg_high a k")
    case True
    then have "in_seg a k (seg_timeline a k) (seg_high a k)" by (simp add: in_seg_def)
    then show ?thesis using k by (intro exI[of _ k]) auto
  next
    case False
    then have "seg_low a (Suc k) < ai_checkpoint a" using seg_high_low[OF k] Suc.prems by simp
    then have "\<exists>i t x. Suc k \<le> i \<and> i \<le> length (ai_switches a) \<and> in_seg a i t x"
      using Suc.hyps(1)[of "Suc k"] Suc.hyps(2) k by simp
    then show ?thesis by (meson Suc_leD)
  qed
qed

section \<open>Common prefixes\<close>

lemma cpl_le: "common_prefix_len xs ys \<le> length xs" "common_prefix_len xs ys \<le> length ys"
  by (induction xs ys rule: common_prefix_len.induct) auto

lemma cpl_take: "take (common_prefix_len xs ys) xs = take (common_prefix_len xs ys) ys"
  by (induction xs ys rule: common_prefix_len.induct) auto

lemma cpl_nth: "i < common_prefix_len xs ys \<Longrightarrow> xs ! i = ys ! i"
proof -
  assume "i < common_prefix_len xs ys"
  then show ?thesis using arg_cong[OF cpl_take[of xs ys], of "\<lambda>l. l ! i"] by simp
qed

lemma cpl_differ:
  "common_prefix_len xs ys < length xs \<Longrightarrow> common_prefix_len xs ys < length ys \<Longrightarrow>
   xs ! common_prefix_len xs ys \<noteq> ys ! common_prefix_len xs ys"
  by (induction xs ys rule: common_prefix_len.induct) auto

lemma cpl_commute: "common_prefix_len xs ys = common_prefix_len ys xs"
  by (induction xs ys rule: common_prefix_len.induct) auto

lemma last_switch_low:
  "k \<le> length (ai_switches a) \<Longrightarrow> last_switch_lsn (ai_switches a) k = seg_low a k"
  by (auto simp: last_switch_lsn_def seg_low_def min_def)

text \<open>Below the shared prefix the two instances have the same segments.\<close>

lemma shared_segs:
  assumes "k = common_prefix_len (ai_switches a) (ai_switches b)" "i \<le> k"
  shows "take i (ai_switches a) = take i (ai_switches b)" "seg_low a i = seg_low b i"
    "i < k \<Longrightarrow> in_seg a i t x \<longleftrightarrow> in_seg b i t x"
proof -
  have le: "k \<le> length (ai_switches a)" "k \<le> length (ai_switches b)"
    using assms(1) cpl_le by simp_all
  have "take k (ai_switches a) = take k (ai_switches b)" using assms(1) cpl_take by simp
  then show "take i (ai_switches a) = take i (ai_switches b)"
    using assms(2) by (metis min.absorb1 take_take)
  have nth: "j < k \<Longrightarrow> ai_switches a ! j = ai_switches b ! j" for j
    using assms(1) cpl_nth by blast
  show low: "seg_low a i = seg_low b i"
    using nth[of "i - 1"] assms(2) by (cases "i = 0") (auto simp: seg_low_def)
  assume "i < k"
  then show "in_seg a i t x \<longleftrightarrow> in_seg b i t x"
    using nth[of i] le low by (auto simp: in_seg_def seg_timeline_def seg_high_def)
qed

lemma extentI:
  "i \<le> length (ai_switches a) \<Longrightarrow> br = take i (ai_switches a) \<Longrightarrow> in_seg a i t x \<Longrightarrow> (br, t, x) \<in> wal_extent a"
  by (auto simp: wal_extent_def)

lemma extentE:
  assumes "p \<in> wal_extent a"
  obtains i t x where "i \<le> length (ai_switches a)" "p = (take i (ai_switches a), t, x)" "in_seg a i t x"
proof -
  obtain br t x where "p = (br, t, x)" "length br \<le> length (ai_switches a)"
    "br = take (length br) (ai_switches a)" "in_seg a (length br) t x"
    using assms unfolding wal_extent_def by blast
  then show ?thesis using that[of "length br" t x] by simp
qed

text \<open>An address of segment \<open>i\<close> is on no other segment.\<close>

lemma extent_seg_iff:
  "i \<le> length (ai_switches a) \<Longrightarrow> (take i (ai_switches a), t, x) \<in> wal_extent a \<longleftrightarrow> in_seg a i t x"
  by (auto simp: wal_extent_def)

section \<open>Containment from the lineages\<close>

text \<open>Containment segment by segment: every nonempty segment of \<open>b\<close> lies on
  \<open>a\<close>'s chain of switches.\<close>

lemma extent_subsetI:
  assumes "\<And>i t x. i \<le> length (ai_switches b) \<Longrightarrow> in_seg b i t x \<Longrightarrow>
     i \<le> length (ai_switches a) \<and> take i (ai_switches b) = take i (ai_switches a) \<and> in_seg a i t x"
  shows "wal_extent b \<subseteq> wal_extent a"
proof
  fix p assume "p \<in> wal_extent b"
  then obtain i t x where i: "i \<le> length (ai_switches b)" and p: "p = (take i (ai_switches b), t, x)"
    and s: "in_seg b i t x" by (rule extentE)
  then show "p \<in> wal_extent a" using assms[OF i s] by (auto intro: extentI)
qed

lemma same_chain_subset:
  assumes "ai_switches a = ai_switches b" "ai_timeline a = ai_timeline b" "ai_checkpoint b \<le> ai_checkpoint a"
  shows "wal_extent b \<subseteq> wal_extent a"
  by (rule extent_subsetI)
     (use assms in \<open>auto simp: in_seg_def seg_timeline_def seg_low_def seg_high_def split: if_splits\<close>)

text \<open>An instance that wrote nothing past the last agreed switch is contained in the other.\<close>

lemma not_past_subset:
  assumes wf: "wf_lineage b" and k: "k = common_prefix_len (ai_switches a) (ai_switches b)"
    and np: "ai_checkpoint b \<le> seg_low b k"
  shows "wal_extent b \<subseteq> wal_extent a"
proof (rule extent_subsetI)
  fix i t x
  assume i: "i \<le> length (ai_switches b)" and s: "in_seg b i t x"
  have "i < k"
    using in_seg_empty[OF wf _ i np] s by (meson not_le)
  then show "i \<le> length (ai_switches a) \<and> take i (ai_switches b) = take i (ai_switches a) \<and> in_seg a i t x"
    using shared_segs(1)[OF k, of i] shared_segs(3)[OF k, of i t x] s cpl_le(1)[of "ai_switches a" "ai_switches b"] k by simp
qed

lemma ancestor_subset:
  assumes k: "common_prefix_len (ai_switches e) (ai_switches a) = length (ai_switches a)"
    and lt: "length (ai_switches a) < length (ai_switches e)"
    and tl: "parent_timeline (ai_switches e ! length (ai_switches a)) = ai_timeline a"
    and np: "ai_checkpoint a \<le> switch_lsn (ai_switches e ! length (ai_switches a))"
  shows "wal_extent a \<subseteq> wal_extent e"
proof (rule extent_subsetI)
  fix i t x
  let ?n = "length (ai_switches a)"
  assume i: "i \<le> ?n" and s: "in_seg a i t x"
  have le: "i \<le> length (ai_switches e)" using i lt by simp
  have sh: "take i (ai_switches e) = take i (ai_switches a)" "seg_low e i = seg_low a i"
    using shared_segs(1,2)[OF k[symmetric] i] by simp_all
  have "in_seg e i t x"
  proof (cases "i = ?n")
    case True
    then show ?thesis using s tl np lt sh
      by (auto simp: in_seg_def seg_timeline_def seg_high_def)
  next
    case False
    then show ?thesis using shared_segs(3)[OF k[symmetric] i, of t x] i s by simp
  qed
  then show "i \<le> length (ai_switches e) \<and> take i (ai_switches a) = take i (ai_switches e) \<and> in_seg e i t x"
    using le sh by simp
qed

lemma dataless_extension_subset:
  assumes wf: "wf_lineage e"
    and k: "common_prefix_len (ai_switches e) (ai_switches a) = length (ai_switches a)"
    and lt: "length (ai_switches a) < length (ai_switches e)"
    and tl: "parent_timeline (ai_switches e ! length (ai_switches a)) = ai_timeline a"
    and ap: "switch_lsn (ai_switches e ! length (ai_switches a)) < ai_checkpoint a"
    and np: "ai_checkpoint e \<le> switch_lsn (ai_switches e ! length (ai_switches a))"
  shows "wal_extent e \<subseteq> wal_extent a"
proof (rule extent_subsetI)
  fix i t x
  let ?n = "length (ai_switches a)"
  assume i: "i \<le> length (ai_switches e)" and s: "in_seg e i t x"
  have "ai_checkpoint e \<le> seg_low e (Suc ?n)" using np by (simp add: seg_low_def)
  then have le: "i \<le> ?n" using in_seg_empty[OF wf _ i, of "Suc ?n"] s by (meson not_less_eq_eq)
  have sh: "take i (ai_switches e) = take i (ai_switches a)" "seg_low e i = seg_low a i"
    using shared_segs(1,2)[OF k[symmetric] le] by simp_all
  have "in_seg a i t x"
  proof (cases "i = ?n")
    case True
    then show ?thesis using s tl ap lt sh
      by (auto simp: in_seg_def seg_timeline_def seg_high_def)
  next
    case False
    then show ?thesis using shared_segs(3)[OF k[symmetric] le, of t x] le s by simp
  qed
  then show "i \<le> ?n \<and> take i (ai_switches e) = take i (ai_switches a) \<and> in_seg a i t x"
    using le sh by simp
qed

text \<open>What each answer of \<open>relate\<close> says of the two extents.\<close>

definition relation_sound :: "relation \<Rightarrow> authority_input \<Rightarrow> authority_input \<Rightarrow> bool" where
  "relation_sound r a b =
     (case r of
        RelDiverge \<Rightarrow> True
      | RelEqual \<Rightarrow> wal_extent a = wal_extent b
      | RelADominatesB \<Rightarrow> wal_extent b \<subseteq> wal_extent a
      | RelBDominatesA \<Rightarrow> wal_extent a \<subseteq> wal_extent b)"

lemma extension_sound:
  assumes "wf_lineage e" "common_prefix_len (ai_switches e) (ai_switches a) = length (ai_switches a)"
    "length (ai_switches a) < length (ai_switches e)"
  shows "relation_sound (fst (extension_relation e a True)) e a"
    "relation_sound (fst (extension_relation e a False)) a e"
  using ancestor_subset[OF assms(2,3)] dataless_extension_subset[OF assms]
  by (auto simp: extension_relation_def relation_sound_def dom_rel_def Let_def)

lemma relate_sound:
  assumes "wf_lineage a" "wf_lineage b"
  shows "relation_sound (fst (relate a b)) a b"
proof -
  define k where "k = common_prefix_len (ai_switches a) (ai_switches b)"
  have kab: "k = common_prefix_len (ai_switches a) (ai_switches b)"
    "k = common_prefix_len (ai_switches b) (ai_switches a)"
    by (simp_all add: k_def cpl_commute)
  have le: "k \<le> length (ai_switches a)" "k \<le> length (ai_switches b)"
    by (simp_all add: k_def cpl_le)
  consider (same) "k = length (ai_switches a)" "k = length (ai_switches b)"
    | (ext_a) "k = length (ai_switches b)" "k < length (ai_switches a)"
    | (ext_b) "k = length (ai_switches a)" "k < length (ai_switches b)"
    | (fork) "k < length (ai_switches a)" "k < length (ai_switches b)"
    using le by linarith
  then show ?thesis
  proof cases
    case same
    then have eq: "ai_switches a = ai_switches b"
      using cpl_take[of "ai_switches a" "ai_switches b"] by (simp flip: k_def)
    have rel: "fst (relate a b) = (if ai_timeline a \<noteq> ai_timeline b then RelDiverge
        else if ai_checkpoint a > ai_checkpoint b then RelADominatesB
        else if ai_checkpoint b > ai_checkpoint a then RelBDominatesA else RelEqual)"
      using same by (simp add: relate_def Let_def flip: k_def)
    show ?thesis
      unfolding rel relation_sound_def
      using same_chain_subset[of a b] same_chain_subset[of b a] eq by (simp add: subset_antisym)
  next
    case ext_a
    then show ?thesis
      using extension_sound(1)[OF assms(1), of b] by (simp add: relate_def Let_def flip: k_def)
  next
    case ext_b
    then show ?thesis
      using extension_sound(2)[OF assms(2), of a] kab(2) by (simp add: relate_def Let_def flip: k_def)
  next
    case fork
    have low: "last_switch_lsn (ai_switches a) k = seg_low a k" "seg_low a k = seg_low b k"
      using last_switch_low[OF le(1)] shared_segs(2)[OF kab(1), of k] by simp_all
    show ?thesis
      using fork low not_past_subset[OF assms(2) kab(1)] not_past_subset[OF assms(1) kab(2)]
      by (simp add: relate_def relation_sound_def Let_def flip: k_def) auto
  qed
qed

section \<open>Strictness\<close>

text \<open>Strict order on instances: a larger extent, or the same extent on a longer chain.\<close>

definition below :: "authority_input \<Rightarrow> authority_input \<Rightarrow> bool" where
  "below b a \<longleftrightarrow> wal_extent b \<subset> wal_extent a \<or>
     (wal_extent b = wal_extent a \<and> length (ai_switches b) < length (ai_switches a))"

lemma below_irrefl: "\<not> below a a"
  by (simp add: below_def)

lemma below_trans: "below c b \<Longrightarrow> below b a \<Longrightarrow> below c a"
  unfolding below_def by (metis order.strict_trans)

lemma extent_other:
  assumes "i \<le> length (ai_switches a)"
  shows "(take i (ai_switches a), t, x) \<in> wal_extent b \<longleftrightarrow>
     i \<le> length (ai_switches b) \<and> take i (ai_switches a) = take i (ai_switches b) \<and> in_seg b i t x"
  using assms by (auto simp: wal_extent_def min_def)

lemma belowI:
  "wal_extent b \<subseteq> wal_extent a \<Longrightarrow> p \<in> wal_extent a \<Longrightarrow> p \<notin> wal_extent b \<Longrightarrow> below b a"
  by (auto simp: below_def)

lemma relate_swap:
  "relate b a = (case relate a b of (r, f) \<Rightarrow>
     (case r of RelADominatesB \<Rightarrow> RelBDominatesA | RelBDominatesA \<Rightarrow> RelADominatesB | r' \<Rightarrow> r', f))"
proof -
  define k where "k = common_prefix_len (ai_switches a) (ai_switches b)"
  have kba: "common_prefix_len (ai_switches b) (ai_switches a) = k"
    by (simp add: k_def cpl_commute)
  have le: "k \<le> length (ai_switches a)" "k \<le> length (ai_switches b)"
    by (simp_all add: k_def cpl_le)
  have low: "last_switch_lsn (ai_switches a) k = last_switch_lsn (ai_switches b) k"
    using last_switch_low[OF le(1)] last_switch_low[OF le(2)] shared_segs(2)[OF k_def, of k] by simp
  have ext: "extension_relation e n False = (case extension_relation e n True of (r, f) \<Rightarrow>
     (case r of RelADominatesB \<Rightarrow> RelBDominatesA | RelBDominatesA \<Rightarrow> RelADominatesB | r' \<Rightarrow> r', f))" for e n
    by (simp add: extension_relation_def Let_def dom_rel_def)
  consider (same) "k = length (ai_switches a)" "k = length (ai_switches b)"
    | (ext_a) "k = length (ai_switches b)" "k < length (ai_switches a)"
    | (ext_b) "k = length (ai_switches a)" "k < length (ai_switches b)"
    | (fork) "k < length (ai_switches a)" "k < length (ai_switches b)"
    using le by linarith
  then show ?thesis
  proof cases
    case same
    then show ?thesis unfolding relate_def Let_def kba k_def[symmetric] using low by simp
  next
    case ext_a
    then show ?thesis unfolding relate_def Let_def kba k_def[symmetric] using ext[of a b] by simp
  next
    case ext_b
    then show ?thesis unfolding relate_def Let_def kba k_def[symmetric] using ext[of b a]
      by (cases "extension_relation b a True"; cases "fst (extension_relation b a True)") auto
  next
    case fork
    then show ?thesis unfolding relate_def Let_def kba k_def[symmetric] using low by simp
  qed
qed

lemma dominates_below:
  assumes wf: "wf_lineage a" "wf_lineage b" and r: "fst (relate a b) = RelADominatesB"
  shows "below b a"
proof -
  have sub: "wal_extent b \<subseteq> wal_extent a"
    using relate_sound[OF wf] r by (simp add: relation_sound_def)
  define k where "k = common_prefix_len (ai_switches a) (ai_switches b)"
  have le: "k \<le> length (ai_switches a)" "k \<le> length (ai_switches b)"
    by (simp_all add: k_def cpl_le)
  note low = shared_segs(2)[OF k_def, of k]
  consider (same) "k = length (ai_switches a)" "k = length (ai_switches b)"
    | (ext_a) "k = length (ai_switches b)" "k < length (ai_switches a)"
    | (ext_b) "k = length (ai_switches a)" "k < length (ai_switches b)"
    | (fork) "k < length (ai_switches a)" "k < length (ai_switches b)"
    using le by linarith
  then show ?thesis
  proof cases
    case same
    then have C: "ai_checkpoint b < ai_checkpoint a"
      using r unfolding relate_def Let_def k_def[symmetric] by (simp split: if_splits)
    have "seg_low a k \<le> ai_checkpoint b"
      using low same seg_low_nth[of k b] seg_high_nth[of k b] sorted_nth_mono[OF wf(2)[unfolded wf_lineage_def], of k "Suc k"]
      by (simp add: nth_append)
    then have "in_seg a k (ai_timeline a) (ai_checkpoint a)" "\<not> in_seg b k (ai_timeline a) (ai_checkpoint a)"
      using C same by (auto simp: in_seg_def seg_timeline_def seg_high_def)
    then show ?thesis
      using belowI[OF sub] extent_seg_iff[OF le(1)] extent_other[OF le(1)] by blast
  next
    case ext_a
    then show ?thesis using sub by (auto simp: below_def)
  next
    case ext_b
    then have C: "switch_lsn (ai_switches b ! k) < ai_checkpoint a"
      using r unfolding relate_def Let_def k_def[symmetric]
      by (simp add: extension_relation_def dom_rel_def Let_def split: if_splits)
    have "seg_low a k \<le> switch_lsn (ai_switches b ! k)"
      using low ext_b seg_low_nth[of k b] sorted_nth_mono[OF wf(2)[unfolded wf_lineage_def], of k "Suc k"]
      by (simp add: nth_append)
    then have "in_seg a k (ai_timeline a) (ai_checkpoint a)" "\<not> in_seg b k (ai_timeline a) (ai_checkpoint a)"
      using C ext_b by (auto simp: in_seg_def seg_timeline_def seg_high_def)
    then show ?thesis
      using belowI[OF sub] extent_seg_iff[OF le(1)] extent_other[OF le(1)] by blast
  next
    case fork
    have fl: "last_switch_lsn (ai_switches a) k = seg_low a k" by (rule last_switch_low[OF le(1)])
    have past: "seg_low a k < ai_checkpoint a" "ai_checkpoint b \<le> seg_low b k"
      using fork r low fl unfolding relate_def Let_def k_def[symmetric] by (simp_all split: if_splits)
    obtain i t x where i: "k \<le> i" "i \<le> length (ai_switches a)" "in_seg a i t x"
      using extent_beyond[OF le(1) past(1)] by blast
    have "(take i (ai_switches a), t, x) \<notin> wal_extent b"
      using extent_other[OF i(2)] in_seg_empty[OF wf(2) i(1) _ past(2)] by blast
    then show ?thesis using belowI[OF sub] extent_seg_iff[OF i(2)] i(3) by blast
  qed
qed

lemma dominated_below:
  assumes "wf_lineage a" "wf_lineage b" "fst (relate a b) = RelBDominatesA"
  shows "below a b"
proof (rule dominates_below[OF assms(2,1)])
  show "fst (relate b a) = RelADominatesB"
    using assms(3) relate_swap[of b a] by (cases "relate a b") simp
qed

text \<open>A finite nonempty set of instances has one that is below no other.\<close>

lemma exists_top:
  assumes "finite A" "A \<noteq> {}"
  shows "\<exists>m\<in>A. \<forall>x\<in>A. \<not> below m x"
  using assms
proof (induction A rule: finite_ne_induct)
  case (insert x F)
  then obtain m where m: "m \<in> F" "\<forall>y\<in>F. \<not> below m y" by blast
  show ?case
  proof (cases "below m x")
    case True
    then have "\<forall>y\<in>insert x F. \<not> below x y" using m below_trans below_irrefl by blast
    then show ?thesis by blast
  next
    case False
    then show ?thesis using m by blast
  qed
qed (simp add: below_irrefl)

section \<open>The pairwise loop\<close>

definition pair_resolved :: "content_comparator option \<Rightarrow> authority_input list \<Rightarrow> nat \<times> nat \<Rightarrow> relation" where
  "pair_resolved content rs ij = resolved_relation content (rs ! fst ij) (rs ! snd ij)"

definition dominates_index :: "content_comparator option \<Rightarrow> authority_input list \<Rightarrow> nat \<Rightarrow> nat \<times> nat \<Rightarrow> bool" where
  "dominates_index content rs i p \<longleftrightarrow>
     (snd p = i \<and> pair_resolved content rs p = RelADominatesB) \<or>
     (fst p = i \<and> pair_resolved content rs p = RelBDominatesA)"

lemma pair_order_set: "(i, j) \<in> set (pair_order n) \<longleftrightarrow> i < j \<and> j < n"
  by (auto simp: pair_order_def image_iff)

lemma compare_pair_effect:
  assumes "i < j" "j < length (dominated_by s)"
  shows "length (dominated_by (compare_pair content rs (i, j) s)) = length (dominated_by s)"
    "q < length (dominated_by s) \<Longrightarrow> dominated_by (compare_pair content rs (i, j) s) ! q =
       dominated_by s ! q + (if dominates_index content rs q (i, j) then 1 else 0)"
    "ps_divs (compare_pair content rs (i, j) s) = [] \<longleftrightarrow>
       ps_divs s = [] \<and> pair_resolved content rs (i, j) \<noteq> RelDiverge"
proof -
  obtain rel0 fork where r0: "relate (rs ! i) (rs ! j) = (rel0, fork)" by fastforce
  obtain rel ns where r: "refine_by_content content (rs ! i) (rs ! j) rel0 fork = (rel, ns)" by fastforce
  have res: "pair_resolved content rs (i, j) = rel"
    by (simp add: pair_resolved_def resolved_relation_def r0 r)
  show "length (dominated_by (compare_pair content rs (i, j) s)) = length (dominated_by s)"
    by (simp add: compare_pair_def r0 r Let_def split: relation.splits)
  show "q < length (dominated_by s) \<Longrightarrow> dominated_by (compare_pair content rs (i, j) s) ! q =
       dominated_by s ! q + (if dominates_index content rs q (i, j) then 1 else 0)"
    using assms by (cases rel) (auto simp: compare_pair_def r0 r Let_def dominates_index_def res nth_list_update)
  show "ps_divs (compare_pair content rs (i, j) s) = [] \<longleftrightarrow>
       ps_divs s = [] \<and> pair_resolved content rs (i, j) \<noteq> RelDiverge"
    by (cases rel) (auto simp: compare_pair_def r0 r Let_def res)
qed

lemma fold_compare:
  assumes "\<forall>p\<in>set ps. fst p < snd p \<and> snd p < length (dominated_by s)"
  shows "length (dominated_by (fold (compare_pair content rs) ps s)) = length (dominated_by s)
     \<and> (\<forall>q<length (dominated_by s). dominated_by (fold (compare_pair content rs) ps s) ! q =
          dominated_by s ! q + length (filter (dominates_index content rs q) ps))
     \<and> (ps_divs (fold (compare_pair content rs) ps s) = [] \<longleftrightarrow>
          ps_divs s = [] \<and> (\<forall>p\<in>set ps. pair_resolved content rs p \<noteq> RelDiverge))"
  using assms
proof (induction ps arbitrary: s)
  case (Cons p ps)
  obtain i j where p: "p = (i, j)" by fastforce
  then have ij: "i < j" "j < length (dominated_by s)" using Cons.prems by auto
  note eff = compare_pair_effect[OF ij, where content = content and rs = rs]
  have len: "length (dominated_by (compare_pair content rs p s)) = length (dominated_by s)"
    using eff(1) p by simp
  note IH = Cons.IH[of "compare_pair content rs p s", unfolded len]
  show ?case
    using IH Cons.prems eff(2,3) len p by simp
qed simp

lemma compare_all_divs:
  "ps_divs (compare_all content rs) = [] \<longleftrightarrow>
     (\<forall>i j. i < j \<and> j < length rs \<longrightarrow> resolved_relation content (rs ! i) (rs ! j) \<noteq> RelDiverge)"
proof -
  have "\<forall>p\<in>set (pair_order (length rs)). fst p < snd p \<and> snd p < length rs"
    using pair_order_set by auto
  then show ?thesis
    using fold_compare[of "pair_order (length rs)"
        "\<lparr> dominated_by = replicate (length rs) 0, ps_notes = [], ps_divs = [] \<rparr>" content rs]
    by (simp add: compare_all_def pair_resolved_def) (metis fst_conv old.prod.exhaust pair_order_set snd_conv)
qed

lemma compare_all_undominated:
  assumes "q < length rs"
  shows "dominated_by (compare_all content rs) ! q = 0 \<longleftrightarrow>
     (\<forall>j<length rs. q < j \<longrightarrow> resolved_relation content (rs ! q) (rs ! j) \<noteq> RelBDominatesA) \<and>
     (\<forall>j<q. resolved_relation content (rs ! j) (rs ! q) \<noteq> RelADominatesB)"
proof -
  have "\<forall>p\<in>set (pair_order (length rs)). fst p < snd p \<and> snd p < length rs"
    using pair_order_set by auto
  then have "dominated_by (compare_all content rs) ! q =
      length (filter (dominates_index content rs q) (pair_order (length rs)))"
    using assms fold_compare[of "pair_order (length rs)"
        "\<lparr> dominated_by = replicate (length rs) 0, ps_notes = [], ps_divs = [] \<rparr>" content rs]
    by (simp add: compare_all_def)
  also have "\<dots> = 0 \<longleftrightarrow> (\<forall>p\<in>set (pair_order (length rs)). \<not> dominates_index content rs q p)"
    by (simp add: filter_empty_conv)
  also have "\<dots> \<longleftrightarrow> (\<forall>i j. i < j \<and> j < length rs \<longrightarrow> \<not> dominates_index content rs q (i, j))"
    using pair_order_set by auto
  also have "\<dots> \<longleftrightarrow> (\<forall>j<length rs. q < j \<longrightarrow> resolved_relation content (rs ! q) (rs ! j) \<noteq> RelBDominatesA) \<and>
     (\<forall>j<q. resolved_relation content (rs ! j) (rs ! q) \<noteq> RelADominatesB)"
    using assms by (auto simp: dominates_index_def pair_resolved_def)
  finally show ?thesis .
qed

section \<open>The leader\<close>

lemma undominated_iff:
  "x \<in> set (undominated s rs) \<longleftrightarrow> (\<exists>i<length rs. x = rs ! i \<and> dominated_by s ! i = 0)"
  by (auto simp: undominated_def)

lemma pick_leader_in: "cands \<noteq> [] \<Longrightarrow> pick_leader cands \<in> set cands"
  unfolding pick_leader_def by (metis hd_in_set set_sort_by sort_by_Nil_iff)

text \<open>The relation of the leader, at index \<open>i\<close>, to each other readable instance.\<close>

definition leads_at :: "content_comparator option \<Rightarrow> authority_input list \<Rightarrow> nat \<Rightarrow> bool" where
  "leads_at content rs i \<longleftrightarrow> i < length rs \<and>
     (\<forall>j<length rs. i < j \<longrightarrow> resolved_relation content (rs ! i) (rs ! j) \<in> {RelADominatesB, RelEqual}) \<and>
     (\<forall>j<i. resolved_relation content (rs ! j) (rs ! i) \<in> {RelBDominatesA, RelEqual})"

lemma rank_readable_leads:
  assumes "ad_determinable (rank_readable content rs)" "\<not> ad_diverged (rank_readable content rs)"
  shows "\<exists>i. leads_at content rs i \<and> ad_leader (rank_readable content rs) = ai_pod (rs ! i)"
proof -
  let ?s = "compare_all content rs"
  have nd: "ps_divs ?s = []" and ne: "undominated ?s rs \<noteq> []"
    using assms by (auto simp: rank_readable_def Let_def zero_decision_def split: if_splits)
  then obtain i where i: "i < length rs" "pick_leader (undominated ?s rs) = rs ! i" "dominated_by ?s ! i = 0"
    using pick_leader_in[OF ne] by (auto simp: undominated_iff)
  have "leads_at content rs i"
    unfolding leads_at_def
  proof (intro conjI allI impI)
    fix j assume "j < length rs" "i < j"
    then show "resolved_relation content (rs ! i) (rs ! j) \<in> {RelADominatesB, RelEqual}"
      using nd i compare_all_divs[of content rs] compare_all_undominated[OF i(1), of content]
      by (cases "resolved_relation content (rs ! i) (rs ! j)") auto
  next
    fix j assume "j < i"
    then show "resolved_relation content (rs ! j) (rs ! i) \<in> {RelBDominatesA, RelEqual}"
      using nd i compare_all_divs[of content rs] compare_all_undominated[OF i(1), of content]
      by (cases "resolved_relation content (rs ! j) (rs ! i)") auto
  qed (use i in simp)
  moreover have "ad_leader (rank_readable content rs) = ai_pod (rs ! i)"
    using nd ne i by (simp add: rank_readable_def Let_def)
  ultimately show ?thesis by blast
qed

lemma determine_leads:
  assumes "ad_determinable (determine_authority insts content)"
    "\<not> ad_diverged (determine_authority insts content)" "readable_inputs insts \<noteq> []"
  shows "\<exists>i. leads_at content (readable_inputs insts) i \<and>
     ad_leader (determine_authority insts content) = ai_pod (readable_inputs insts ! i)"
proof -
  have u: "unread_inputs insts = []"
    using assms(1) by (auto simp: determine_authority_def zero_decision_def split: if_splits)
  obtain r rs where rs: "readable_inputs insts = r # rs" using assms(3) by (cases "readable_inputs insts") auto
  show ?thesis
  proof (cases rs)
    case Nil
    then show ?thesis using u rs by (auto simp: determine_authority_def leads_at_def)
  next
    case (Cons r2 rs2)
    then have "determine_authority insts content = rank_readable content (readable_inputs insts)"
      using u rs by (simp add: determine_authority_def)
    then show ?thesis using rank_readable_leads assms(1,2) by metis
  qed
qed

lemma readable_state: "r \<in> set (readable_inputs insts) \<longleftrightarrow> r \<in> set insts \<and> ai_read_state r = ReadStateRead"
  by (auto simp: readable_inputs_def)

lemma resolved_None: "resolved_relation None a b = fst (relate a b)"
  by (simp add: resolved_relation_def refine_by_content_def split: prod.splits)

lemma leads_atE:
  assumes "leads_at content rs i" "b \<in> set rs"
  obtains (same) "b = rs ! i"
    | (left) "resolved_relation content (rs ! i) b \<in> {RelADominatesB, RelEqual}"
    | (right) "resolved_relation content b (rs ! i) \<in> {RelBDominatesA, RelEqual}"
proof -
  obtain j where j: "j < length rs" "b = rs ! j" using assms(2) by (metis in_set_conv_nth)
  consider "j = i" | "i < j" | "j < i" by linarith
  then show ?thesis using that j assms(1) by cases (auto simp: leads_at_def)
qed

section \<open>Content comparators\<close>

text \<open>What a comparator promises: a relation \<open>covers\<close> of business content that its
  containment answers establish.\<close>

locale content_contract =
  fixes cmp :: content_comparator
    and covers :: "authority_input \<Rightarrow> authority_input \<Rightarrow> bool"
  assumes contains_left: "cmp a b = ContentAContainsB \<Longrightarrow> covers a b"
    and contains_right: "cmp a b = ContentBContainsA \<Longrightarrow> covers b a"
    and contains_equal: "cmp a b = ContentEqual \<Longrightarrow> covers a b \<and> covers b a"
begin

lemma resolved_sound:
  assumes "wf_lineage a" "wf_lineage b"
  shows "resolved_relation (Some cmp) a b \<in> {RelADominatesB, RelEqual} \<Longrightarrow>
           wal_extent b \<subseteq> wal_extent a \<or> covers a b"
    "resolved_relation (Some cmp) a b \<in> {RelBDominatesA, RelEqual} \<Longrightarrow>
           wal_extent a \<subseteq> wal_extent b \<or> covers b a"
proof -
  obtain r f where r: "relate a b = (r, f)" by fastforce
  have snd: "relation_sound r a b" using relate_sound[OF assms] r by simp
  note * = contains_left[of a b] contains_right[of a b] contains_equal[of a b]
  show "resolved_relation (Some cmp) a b \<in> {RelADominatesB, RelEqual} \<Longrightarrow>
           wal_extent b \<subseteq> wal_extent a \<or> covers a b"
    using snd * r by (cases r; cases "cmp a b")
      (auto simp: resolved_relation_def refine_by_content_def relation_sound_def)
  show "resolved_relation (Some cmp) a b \<in> {RelBDominatesA, RelEqual} \<Longrightarrow>
           wal_extent a \<subseteq> wal_extent b \<or> covers b a"
    using snd * r by (cases r; cases "cmp a b")
      (auto simp: resolved_relation_def refine_by_content_def relation_sound_def)
qed

lemma leader_covers:
  assumes "ad_determinable (determine_authority insts (Some cmp))"
    "\<not> ad_diverged (determine_authority insts (Some cmp))"
    "readable_inputs insts \<noteq> []"
    "\<forall>r\<in>set (readable_inputs insts). wf_lineage r"
  shows "\<exists>l\<in>set (readable_inputs insts).
     ad_leader (determine_authority insts (Some cmp)) = ai_pod l \<and>
     (\<forall>b\<in>set (readable_inputs insts). wal_extent b \<subseteq> wal_extent l \<or> covers l b)"
proof -
  let ?rs = "readable_inputs insts"
  obtain i where i: "leads_at (Some cmp) ?rs i"
    "ad_leader (determine_authority insts (Some cmp)) = ai_pod (?rs ! i)"
    using determine_leads[OF assms(1-3)] by blast
  have l: "?rs ! i \<in> set ?rs" using i(1) by (simp add: leads_at_def)
  have "wal_extent b \<subseteq> wal_extent (?rs ! i) \<or> covers (?rs ! i) b" if b: "b \<in> set ?rs" for b
    using leads_atE[OF i(1) b] resolved_sound assms(4) l b by (metis subset_refl)
  then show ?thesis using i(2) l by blast
qed

end

text \<open>What a comparator answered of two instances, whichever way round it was asked; without one, nothing.\<close>

definition answered_covers :: "content_comparator option \<Rightarrow> authority_input \<Rightarrow> authority_input \<Rightarrow> bool" where
  "answered_covers content a b =
     (case content of
        None \<Rightarrow> False
      | Some cmp \<Rightarrow> cmp a b \<in> {ContentAContainsB, ContentEqual} \<or> cmp b a \<in> {ContentBContainsA, ContentEqual})"

interpretation answers: content_contract cmp "answered_covers (Some cmp)" for cmp
  by unfold_locales (simp_all add: answered_covers_def)

lemma resolved_covers:
  assumes "wf_lineage a" "wf_lineage b"
  shows "resolved_relation content a b \<in> {RelADominatesB, RelEqual} \<Longrightarrow> wal_extent b \<subseteq> wal_extent a \<or> answered_covers content a b"
    "resolved_relation content a b \<in> {RelBDominatesA, RelEqual} \<Longrightarrow> wal_extent a \<subseteq> wal_extent b \<or> answered_covers content b a"
  using answers.resolved_sound[OF assms] relate_sound[OF assms]
  by (cases content; auto simp: resolved_None relation_sound_def answered_covers_def split: relation.splits)+

section \<open>Properties\<close>

text \<open>C1: soundness of the authority decision.  When the decision over instances whose
  histories are well formed names a leader without a content comparator, the named
  instance is readable and holds every write-ahead-log address of every readable
  instance: nothing is lost by re-cloning the others from it.\<close>

theorem leader_holds_all_wal:
  assumes "ad_determinable (determine_authority insts None)"
    "\<not> ad_diverged (determine_authority insts None)"
    "readable_inputs insts \<noteq> []"
    "\<forall>r\<in>set (readable_inputs insts). wf_lineage r"
  shows "\<exists>l\<in>set (readable_inputs insts).
     ad_leader (determine_authority insts None) = ai_pod l \<and>
     (\<forall>b\<in>set (readable_inputs insts). wal_extent b \<subseteq> wal_extent l)"
proof -
  let ?rs = "readable_inputs insts"
  obtain i where i: "leads_at None ?rs i"
    "ad_leader (determine_authority insts None) = ai_pod (?rs ! i)"
    using determine_leads[OF assms(1-3)] by blast
  have l: "?rs ! i \<in> set ?rs" using i(1) by (simp add: leads_at_def)
  have "wal_extent b \<subseteq> wal_extent (?rs ! i)" if b: "b \<in> set ?rs" for b
    using i(1) b
  proof (cases rule: leads_atE)
    case left
    then show ?thesis using relate_sound[of "?rs ! i" b] assms(4) l b
      by (auto simp: resolved_None relation_sound_def split: relation.splits)
  next
    case right
    then show ?thesis using relate_sound[of b "?rs ! i"] assms(4) l b
      by (auto simp: resolved_None relation_sound_def split: relation.splits)
  qed simp
  then show ?thesis using i(2) l by blast
qed

text \<open>C3: legibility gates the decision.  While one instance that may hold data is unread
  the decision is not determinable, names no leader, reports no divergence and lists
  exactly one blocker per unread instance; with none unread the only refusal is the
  inconsistency line, so a comparator never unblocks an unread instance.\<close>

theorem unread_blocks:
  "(if list_ex (\<lambda>i. ai_read_state i = ReadStateUnread) insts
    then \<not> ad_determinable (determine_authority insts content) \<and>
         ad_leader (determine_authority insts content) = '''' \<and>
         \<not> ad_diverged (determine_authority insts content) \<and>
         ad_blockers (determine_authority insts content) =
           map blocker_line (filter (\<lambda>i. ai_read_state i = ReadStateUnread) insts)
    else ad_determinable (determine_authority insts content) \<or>
         ad_blockers (determine_authority insts content) = [inconsistent_line])"
proof -
  have "list_ex (\<lambda>i. ai_read_state i = ReadStateUnread) insts \<longleftrightarrow> unread_inputs insts \<noteq> []"
    by (auto simp: unread_inputs_def list_ex_iff filter_empty_conv)
  then show ?thesis
    by (auto simp: determine_authority_def zero_decision_def rank_readable_def Let_def unread_inputs_def split: list.splits)
qed

text \<open>C5: the refusal for an inconsistent domination cycle is unreachable: over well
  formed histories and without a comparator, the decision is determinable whenever
  every instance was read or proven empty.\<close>

theorem decision_is_total:
  assumes "unread_inputs insts = []" "\<forall>r\<in>set (readable_inputs insts). wf_lineage r"
  shows "ad_determinable (determine_authority insts None)"
proof -
  let ?rs = "readable_inputs insts" and ?s = "compare_all None (readable_inputs insts)"
  have "undominated ?s ?rs \<noteq> []" if ne: "?rs \<noteq> []"
  proof -
    obtain m where m: "m \<in> set ?rs" "\<forall>x\<in>set ?rs. \<not> below m x"
      using exists_top[of "set ?rs"] ne by auto
    then obtain q where q: "q < length ?rs" "m = ?rs ! q" by (metis in_set_conv_nth)
    have "dominated_by ?s ! q = 0"
      unfolding compare_all_undominated[OF q(1)] resolved_None
      using m q assms(2) dominates_below dominated_below by (metis nth_mem order.strict_trans)
    then have "m \<in> set (undominated ?s ?rs)" using q undominated_iff by blast
    then show ?thesis by auto
  qed
  then have "ad_determinable (rank_readable None ?rs)" if "?rs \<noteq> []"
    using that by (simp add: rank_readable_def Let_def)
  then show ?thesis
    using assms(1) by (auto simp: determine_authority_def split: list.split)
qed

text \<open>The pairwise relation does not depend on the order of its arguments: swapping
  them mirrors the verdict and keeps the fork position.\<close>

theorem relate_mirrors:
  "relate b a = (case relate a b of (r, f) \<Rightarrow>
     (case r of RelADominatesB \<Rightarrow> RelBDominatesA | RelBDominatesA \<Rightarrow> RelADominatesB | r' \<Rightarrow> r', f))"
  by (rule relate_swap)

text \<open>A primary on a stale restore: timeline 3 forked early from timeline 1 and wrote
  nothing, while the replica on timeline 1 went on.\<close>

definition stale_primary :: authority_input where
  "stale_primary = \<lparr> ai_pod = ''pg-1'', ai_is_primary = True, ai_read_state = ReadStateRead,
     ai_unread_reason = '''', ai_timeline = 3, ai_checkpoint = 100,
     ai_switches = [\<lparr> parent_timeline = 1, switch_lsn = 100 \<rparr>] \<rparr>"

definition ahead_replica :: authority_input where
  "ahead_replica = \<lparr> ai_pod = ''pg-2'', ai_is_primary = False, ai_read_state = ReadStateRead,
     ai_unread_reason = '''', ai_timeline = 1, ai_checkpoint = 5000, ai_switches = [] \<rparr>"

lemma stale_primary_eval:
  "readable_inputs [stale_primary, ahead_replica] = [stale_primary, ahead_replica]"
  "unread_inputs [stale_primary, ahead_replica] = []"
  "wf_lineage stale_primary" "wf_lineage ahead_replica"
  "ad_diverged (determine_authority [stale_primary, ahead_replica] None) = False"
  "ad_determinable (determine_authority [stale_primary, ahead_replica] None) = True"
  "ad_leader (determine_authority [stale_primary, ahead_replica] None) = ''pg-2''"
  by code_simp+

lemma leader_holds_all_wal_witness:
  "\<exists>l\<in>{stale_primary, ahead_replica}. ad_leader (determine_authority [stale_primary, ahead_replica] None) = ai_pod l
     \<and> (\<forall>b\<in>{stale_primary, ahead_replica}. wal_extent b \<subseteq> wal_extent l)"
  using leader_holds_all_wal[of "[stale_primary, ahead_replica]"] by (simp add: stale_primary_eval)

lemma decision_is_total_witness:
  "ad_determinable (determine_authority [stale_primary, ahead_replica] None)"
  using decision_is_total[of "[stale_primary, ahead_replica]"] by (simp add: stale_primary_eval)

end
