(* ===== verification/Cnpg_Content.thy ===== *)
theory Cnpg_Content
  imports Cnpg_Authority
begin

text \<open>
  The content comparators that resolve a WAL divergence:
  the generic row-hash comparison of \<open>src/engine/triage/cnpg_diff.go\<close>, with the caches it
  threads through the pairwise walk, and the operator-declared witness of
  \<open>cnpg_witness.go\<close>.  An instance is a function from query text to an answer or an
  error, as \<open>instanceExec\<close> is.
\<close>

section \<open>Queries\<close>

type_synonym instance_exec = "string \<Rightarrow> (string, string) result"

definition quote :: string where "quote = [CHR 0x27]"
definition backslash :: string where "backslash = [CHR 0x5C]"

definition discover_query :: string where
  "discover_query =
     ''SELECT n.nspname||'' @ quote @ ''.'' @ quote @ ''||c.relname FROM pg_class c ''
     @ ''JOIN pg_namespace n ON n.oid=c.relnamespace ''
     @ ''WHERE c.relkind='' @ quote @ ''r'' @ quote @ '' AND n.nspname NOT IN ('' @ quote @ ''pg_catalog''
     @ quote @ '','' @ quote @ ''information_schema'' @ quote @ '') ''
     @ ''AND n.nspname NOT LIKE '' @ quote @ ''pg'' @ backslash @ ''_toast%'' @ quote
     @ '' AND n.nspname NOT LIKE '' @ quote @ ''pg'' @ backslash @ ''_temp%'' @ quote @ '' ORDER BY 1;''"

definition sig_query :: "string \<Rightarrow> string" where
  "sig_query tbl =
     ''SELECT count(*)::text||'' @ quote @ ''|'' @ quote @ ''||coalesce(md5(string_agg(rh, '' @ quote @ '',''
     @ quote @ '' ORDER BY rh)),'' @ quote @ quote @ '') ''
     @ ''FROM (SELECT md5(t.*::text) rh FROM '' @ tbl @ '' t) s;''"

definition hashes_query :: "string \<Rightarrow> string" where
  "hashes_query tbl = ''SELECT md5(t.*::text) FROM '' @ tbl @ '' t;''"

definition nonblank_lines :: "string \<Rightarrow> string list" where
  "nonblank_lines out = filter (\<lambda>t. t \<noteq> '''') (map trim_space (split_lines (trim_space out)))"

definition discover_tables :: "instance_exec \<Rightarrow> (string, string list) result" where
  "discover_tables exec =
     (case exec discover_query of Inl e \<Rightarrow> Err e | Inr out \<Rightarrow> Ok (nonblank_lines out))"

record table_sig =
  sig_count :: int
  sig_hash :: string

definition sig_of :: "instance_exec \<Rightarrow> string \<Rightarrow> (string, table_sig) result" where
  "sig_of exec tbl =
     (case exec (sig_query tbl) of
        Inl e \<Rightarrow> Err e
      | Inr out \<Rightarrow>
          (case split_n2 (CHR ''|'') (trim_space out) of
             [f0, f1] \<Rightarrow>
               (case parse_int64 10 f0 of
                  Inl _ \<Rightarrow> Err ''strconv.ParseInt''
                | Inr c \<Rightarrow> Ok \<lparr> sig_count = c, sig_hash = f1 \<rparr>)
           | _ \<Rightarrow> Err (''bad sig for '' @ tbl)))"

text \<open>\<open>ms[h]++\<close> for each nonblank line.\<close>

fun count_hashes :: "string list \<Rightarrow> (string \<times> int) list \<Rightarrow> (string \<times> int) list" where
  "count_hashes [] ms = ms"
| "count_hashes (h # hs) ms = count_hashes hs (map_set h (map_get 0 ms h + 1) ms)"

definition hashes_of :: "instance_exec \<Rightarrow> string \<Rightarrow> (string, (string \<times> int) list) result" where
  "hashes_of exec tbl =
     (case exec (hashes_query tbl) of
        Inl e \<Rightarrow> Err e
      | Inr out \<Rightarrow> Ok (count_hashes (nonblank_lines out) []))"

section \<open>Comparing one table\<close>

record table_divergence =
  td_table :: string
  td_a_missing :: int
  td_b_missing :: int

fun extra_rows :: "(string \<times> int) list \<Rightarrow> (string \<times> int) list \<Rightarrow> int \<Rightarrow> int" where
  "extra_rows [] other acc = acc"
| "extra_rows ((h, c) # rest) other acc =
     (let extra = c - map_get 0 other h in
      extra_rows rest other (if extra > 0 then acc + extra else acc))"

definition diff_table :: "string \<Rightarrow> (string \<times> int) list \<Rightarrow> (string \<times> int) list \<Rightarrow> table_divergence" where
  "diff_table tbl ah bh =
     \<lparr> td_table = tbl, td_a_missing = extra_rows bh ah 0, td_b_missing = extra_rows ah bh 0 \<rparr>"

definition relation_from_divergences :: "table_divergence list \<Rightarrow> content_relation" where
  "relation_from_divergences divs =
     (if divs = [] then ContentEqual
      else (let a_lacks = list_ex (\<lambda>d. td_a_missing d > 0) divs;
                b_lacks = list_ex (\<lambda>d. td_b_missing d > 0) divs in
            if a_lacks \<and> b_lacks then ContentCrossed
            else if b_lacks then ContentAContainsB
            else if a_lacks then ContentBContainsA
            else ContentEqual))"

section \<open>The cached pairwise comparison\<close>

text \<open>Both caches are keyed by instance and table.\<close>

record diff_cache =
  sig_cache :: "string \<times> string \<Rightarrow> table_sig option"
  hash_cache :: "string \<times> string \<Rightarrow> (string \<times> int) list option"

definition empty_cache :: diff_cache where
  "empty_cache = \<lparr> sig_cache = (\<lambda>_. None), hash_cache = (\<lambda>_. None) \<rparr>"

definition cached_sig ::
  "instance_exec \<Rightarrow> string \<Rightarrow> string \<Rightarrow> diff_cache \<Rightarrow> (string, table_sig) result \<times> diff_cache" where
  "cached_sig exec key tbl c =
     (case sig_cache c (key, tbl) of
        Some s \<Rightarrow> (Ok s, c)
      | None \<Rightarrow> (case sig_of exec tbl of
                   Inl e \<Rightarrow> (Err e, c)
                 | Inr s \<Rightarrow> (Ok s, c\<lparr> sig_cache := (sig_cache c)((key, tbl) \<mapsto> s) \<rparr>)))"

definition cached_hashes ::
  "instance_exec \<Rightarrow> string \<Rightarrow> string \<Rightarrow> diff_cache \<Rightarrow> (string, (string \<times> int) list) result \<times> diff_cache" where
  "cached_hashes exec key tbl c =
     (case hash_cache c (key, tbl) of
        Some h \<Rightarrow> (Ok h, c)
      | None \<Rightarrow> (case hashes_of exec tbl of
                   Inl e \<Rightarrow> (Err e, c)
                 | Inr h \<Rightarrow> (Ok h, c\<lparr> hash_cache := (hash_cache c)((key, tbl) \<mapsto> h) \<rparr>)))"

text \<open>One table of the walk: the divergence when the tables differ.\<close>

definition compare_table ::
  "instance_exec \<Rightarrow> instance_exec \<Rightarrow> string \<Rightarrow> string \<Rightarrow> string \<Rightarrow> diff_cache
     \<Rightarrow> (string, table_divergence list) result \<times> diff_cache" where
  "compare_table ax bx ak bk tbl c =
     (case cached_sig ax ak tbl c of
        (Inl e, c1) \<Rightarrow> (Err e, c1)
      | (Inr sa, c1) \<Rightarrow>
        (case cached_sig bx bk tbl c1 of
           (Inl e, c2) \<Rightarrow> (Err e, c2)
         | (Inr sb, c2) \<Rightarrow>
           if sa = sb then (Ok [], c2)
           else
           (case cached_hashes ax ak tbl c2 of
              (Inl e, c3) \<Rightarrow> (Err e, c3)
            | (Inr ah, c3) \<Rightarrow>
              (case cached_hashes bx bk tbl c3 of
                 (Inl e, c4) \<Rightarrow> (Err e, c4)
               | (Inr bh, c4) \<Rightarrow>
                 (let d = diff_table tbl ah bh in
                  (Ok (if td_a_missing d > 0 \<or> td_b_missing d > 0 then [d] else []), c4))))))"

fun compare_tables ::
  "instance_exec \<Rightarrow> instance_exec \<Rightarrow> string \<Rightarrow> string \<Rightarrow> string list \<Rightarrow> table_divergence list \<Rightarrow> diff_cache
     \<Rightarrow> (string, table_divergence list) result \<times> diff_cache" where
  "compare_tables ax bx ak bk [] divs c = (Ok divs, c)"
| "compare_tables ax bx ak bk (t # ts) divs c =
     (case compare_table ax bx ak bk t c of
        (Inl e, c') \<Rightarrow> (Err e, c')
      | (Inr ds, c') \<Rightarrow> compare_tables ax bx ak bk ts (divs @ ds) c')"

definition generic_compare ::
  "instance_exec \<Rightarrow> instance_exec \<Rightarrow> string \<Rightarrow> string \<Rightarrow> string list \<Rightarrow> diff_cache
     \<Rightarrow> (string, content_relation \<times> table_divergence list) result \<times> diff_cache" where
  "generic_compare ax bx ak bk tables c =
     (case compare_tables ax bx ak bk tables [] c of
        (Inl e, c') \<Rightarrow> (Err e, c')
      | (Inr divs, c') \<Rightarrow> (Ok (relation_from_divergences divs, divs), c'))"

text \<open>Table discovery takes the first instance, in the iteration order of the map, whose
  answer is a nonempty list.\<close>

fun ensure_tables :: "(string \<times> instance_exec) list \<Rightarrow> string list" where
  "ensure_tables [] = []"
| "ensure_tables ((k, ex) # rest) =
     (case discover_tables ex of
        Inr ts \<Rightarrow> if ts \<noteq> [] then ts else ensure_tables rest
      | Inl _ \<Rightarrow> ensure_tables rest)"

definition generic_comparator_step ::
  "(string \<times> instance_exec) list \<Rightarrow> authority_input \<Rightarrow> authority_input \<Rightarrow> diff_cache
     \<Rightarrow> content_relation \<times> diff_cache" where
  "generic_comparator_step execs a b c =
     (case (map_of execs (ai_pod a), map_of execs (ai_pod b)) of
        (Some ax, Some bx) \<Rightarrow>
          (let tables = ensure_tables execs in
           if tables = [] then (ContentUnknown, c)
           else (case generic_compare ax bx (ai_pod a) (ai_pod b) tables c of
                   (Inl _, c') \<Rightarrow> (ContentUnknown, c')
                 | (Inr (r, _), c') \<Rightarrow> (r, c')))
      | _ \<Rightarrow> (ContentUnknown, c))"

text \<open>The comparator as the decision sees it: a call on fresh caches.  The equivalence
  below shows that the caches never change an answer.\<close>

definition generic_comparator :: "(string \<times> instance_exec) list \<Rightarrow> content_comparator" where
  "generic_comparator execs a b = fst (generic_comparator_step execs a b empty_cache)"

text \<open>The operator summary: largest divergence first.\<close>

definition summarize_divergences :: "table_divergence list \<Rightarrow> table_divergence list" where
  "summarize_divergences d =
     sort_by (\<lambda>x y. td_a_missing x + td_b_missing x > td_a_missing y + td_b_missing y) d"

section \<open>The witness\<close>

record witness_spec =
  ws_db :: string
  ws_table :: string
  ws_position :: string
  ws_exclude :: string
  ws_append_only :: bool

definition witness_prefix :: string where "witness_prefix = ''hasteward.prplanit.com/''"

definition witness_anno :: "(string \<times> string) list \<Rightarrow> string \<Rightarrow> string" where
  "witness_anno annos k = trim_space (map_get '''' annos (witness_prefix @ k))"

definition equal_fold :: "string \<Rightarrow> string \<Rightarrow> bool" where
  "equal_fold a b \<longleftrightarrow> to_lower a = to_lower b"

definition read_witness_spec :: "(string \<times> string) list \<Rightarrow> string \<Rightarrow> witness_spec option" where
  "read_witness_spec annos default_db =
     (let tbl = witness_anno annos ''witness-table''; pos = witness_anno annos ''witness-position'' in
      if tbl = '''' \<or> pos = '''' then None
      else (let db = witness_anno annos ''witness-db'' in
            Some \<lparr> ws_db = (if db = '''' then default_db else db), ws_table = tbl, ws_position = pos,
                   ws_exclude = witness_anno annos ''witness-exclude'',
                   ws_append_only = equal_fold (witness_anno annos ''witness-append-only'') ''true'' \<rparr>))"

definition where_not_churn :: "witness_spec \<Rightarrow> string \<Rightarrow> string" where
  "where_not_churn w leading =
     (if trim_space (ws_exclude w) = '''' then '''' else leading @ '' NOT ('' @ ws_exclude w @ '')'')"

definition base_query :: "witness_spec \<Rightarrow> string" where
  "base_query w =
     ''SELECT count(*)::text||'' @ quote @ ''|'' @ quote @ ''||coalesce(max('' @ ws_position w @ '')::text,''
     @ quote @ quote @ '')||'' @ quote @ ''|'' @ quote @ ''||''
     @ ''coalesce(md5(string_agg('' @ ws_position w @ ''::text, '' @ quote @ '','' @ quote @ '' ORDER BY ''
     @ ws_position w @ '')),'' @ quote @ quote @ '') FROM '' @ ws_table w @ where_not_churn w '' WHERE'' @ '';''"

definition cut_query :: "witness_spec \<Rightarrow> string \<Rightarrow> string" where
  "cut_query w peer_max =
     ''SELECT count(*)::text||'' @ quote @ ''|'' @ quote @ ''||coalesce(md5(string_agg('' @ ws_position w
     @ ''::text, '' @ quote @ '','' @ quote @ '' ORDER BY '' @ ws_position w @ '')),'' @ quote @ quote @ '') ''
     @ ''FROM '' @ ws_table w @ '' WHERE '' @ ws_position w @ '' <= '' @ peer_max
     @ where_not_churn w '' AND'' @ '';''"

text \<open>A base is \<open>None\<close> when the source's \<open>ok\<close> is false; a cut is \<open>None\<close> for a position
  that was not answered.\<close>

record base_data =
  wb_count :: int
  wb_max_pos :: string
  wb_hash :: string
  wb_cut :: "string \<Rightarrow> (int \<times> string) option"

type_synonym witness_base = "base_data option"

definition parse_base :: "(string, string) result \<Rightarrow> (int \<times> string \<times> string) option" where
  "parse_base res =
     (case res of
        Inl _ \<Rightarrow> None
      | Inr out \<Rightarrow>
          if out = '''' then None
          else (case split_char (CHR ''|'') out of
                  [f0, f1, f2] \<Rightarrow>
                    (case parse_int64 10 (trim_space f0) of
                       Inl _ \<Rightarrow> None
                     | Inr c \<Rightarrow> Some (c, trim_space f1, trim_space f2))
                | _ \<Rightarrow> None))"

definition parse_cut :: "(string, string) result \<Rightarrow> (int \<times> string) option" where
  "parse_cut res =
     (case res of
        Inl _ \<Rightarrow> None
      | Inr out \<Rightarrow>
          if out = '''' then None
          else (case split_char (CHR ''|'') out of
                  [f0, f1] \<Rightarrow>
                    (case parse_int64 10 (trim_space f0) of
                       Inl _ \<Rightarrow> None
                     | Inr c \<Rightarrow> Some (c, trim_space f1))
                | _ \<Rightarrow> None))"

text \<open>\<open>psql\<close> answers a query on a pod's database; the standard output is trimmed.\<close>

definition psql_out :: "instance_exec \<Rightarrow> string \<Rightarrow> (string, string) result" where
  "psql_out exec q = (case exec q of Inl e \<Rightarrow> Err e | Inr out \<Rightarrow> Ok (trim_space out))"

definition live_base :: "witness_spec \<Rightarrow> instance_exec \<Rightarrow> witness_base" where
  "live_base w exec =
     (case parse_base (psql_out exec (base_query w)) of
        None \<Rightarrow> None
      | Some (c, mx, h) \<Rightarrow>
          Some \<lparr> wb_count = c, wb_max_pos = mx, wb_hash = h,
                 wb_cut = (\<lambda>peer_max. parse_cut (psql_out exec (cut_query w peer_max))) \<rparr>)"

definition collect_live_bases ::
  "witness_spec \<Rightarrow> (string \<Rightarrow> instance_exec) \<Rightarrow> string list \<Rightarrow> (string \<times> witness_base) list" where
  "collect_live_bases w execs pods = map (\<lambda>p. (p, live_base w (execs p))) pods"

text \<open>The standalone copy of a down instance: \<open>start\<close> is the result of the preparation
  script, \<open>exec\<close> answers on the copy while it is up.  The cuts are taken in the window.\<close>

definition deep_content_base ::
  "witness_spec \<Rightarrow> (string, unit) result \<Rightarrow> instance_exec \<Rightarrow> string list \<Rightarrow> witness_base" where
  "deep_content_base w start exec peer_maxes =
     (case start of
        Inl _ \<Rightarrow> None
      | Inr _ \<Rightarrow>
          (case parse_base (psql_out exec (base_query w)) of
             None \<Rightarrow> None
           | Some (c, mx, h) \<Rightarrow>
               (let cuts = concat (map (\<lambda>pm. case parse_cut (psql_out exec (cut_query w pm)) of
                                               None \<Rightarrow> [] | Some r \<Rightarrow> [(pm, r)]) peer_maxes)
                in Some \<lparr> wb_count = c, wb_max_pos = mx, wb_hash = h, wb_cut = map_of cuts \<rparr>)))"

text \<open>The collection closure: live bases, then a deep read of every pod without one.\<close>

definition collect_witness ::
  "witness_spec \<Rightarrow> (string \<Rightarrow> instance_exec) \<Rightarrow> (string \<Rightarrow> (string, unit) result) \<Rightarrow> (string \<Rightarrow> instance_exec)
     \<Rightarrow> string list \<Rightarrow> (string \<times> witness_base) list" where
  "collect_witness w live start copy readable =
     (let bases = collect_live_bases w live readable;
          maxes = concat (map (\<lambda>(p, b). case b of None \<Rightarrow> []
                                 | Some d \<Rightarrow> if wb_max_pos d \<noteq> '''' then [wb_max_pos d] else []) bases)
      in map (\<lambda>(p, b). case b of None \<Rightarrow> (p, deep_content_base w (start p) (copy p) maxes)
                                | Some d \<Rightarrow> (p, b)) bases)"

definition contains_peer :: "base_data \<Rightarrow> base_data \<Rightarrow> bool" where
  "contains_peer host peer =
     (case wb_cut host (wb_max_pos peer) of
        None \<Rightarrow> False
      | Some (c, h) \<Rightarrow> c = wb_count peer \<and> h = wb_hash peer)"

definition decide_content :: "witness_spec \<Rightarrow> witness_base \<Rightarrow> witness_base \<Rightarrow> content_relation" where
  "decide_content w a b =
     (case (a, b) of
        (Some a', Some b') \<Rightarrow>
          if \<not> ws_append_only w then ContentUnknown
          else if wb_count a' = 0 \<and> wb_count b' = 0 then ContentEqual
          else if wb_count b' = 0 then ContentAContainsB
          else if wb_count a' = 0 then ContentBContainsA
          else (let a_cb = contains_peer a' b'; b_ca = contains_peer b' a' in
                if a_cb \<and> b_ca then ContentEqual
                else if a_cb then ContentAContainsB
                else if b_ca then ContentBContainsA
                else ContentCrossed)
      | _ \<Rightarrow> ContentUnknown)"

definition lazy_content_comparator :: "witness_spec \<Rightarrow> (string \<times> witness_base) list \<Rightarrow> content_comparator" where
  "lazy_content_comparator w bases a b =
     decide_content w (map_get None bases (ai_pod a)) (map_get None bases (ai_pod b))"

section \<open>Row multisets\<close>

lemma count_hashes_get:
  "map_get 0 (count_hashes hs ms) h = map_get 0 ms h + int (count (mset hs) h)"
  by (induction hs ms rule: count_hashes.induct) auto

lemma count_hashes_distinct: "distinct (map fst ms) \<Longrightarrow> distinct (map fst (count_hashes hs ms))"
  by (induction hs ms rule: count_hashes.induct) (simp_all add: distinct_map_set)

text \<open>An association list of positive multiplicities of a multiset.\<close>

definition counts_mset :: "(string \<times> int) list \<Rightarrow> string multiset \<Rightarrow> bool" where
  "counts_mset ms M \<longleftrightarrow> distinct (map fst ms) \<and> (\<forall>h. map_get 0 ms h = int (count M h))"

lemma count_hashes_mset: "counts_mset (count_hashes hs []) (mset hs)"
proof -
  have "map_get 0 [] h = (0::int)" for h :: string by (simp add: map_get_def)
  then show ?thesis by (simp add: counts_mset_def count_hashes_get count_hashes_distinct)
qed

lemma extra_rows_acc: "extra_rows ms other acc = acc + extra_rows ms other 0"
proof (induction ms arbitrary: acc)
  case (Cons p ms)
  obtain h c where p: "p = (h, c)" by fastforce
  define e where "e = c - map_get 0 other h"
  have "extra_rows ms other (acc + e) = acc + e + extra_rows ms other 0"
    "extra_rows ms other e = e + extra_rows ms other 0"
    "extra_rows ms other acc = acc + extra_rows ms other 0"
    by (rule Cons.IH)+
  then show ?case by (simp add: p Let_def flip: e_def)
qed simp

lemma extra_rows_Cons:
  "extra_rows ((h, c) # ms) other 0 = max 0 (c - map_get 0 other h) + extra_rows ms other 0"
  using extra_rows_acc[of ms other "c - map_get 0 other h"] by (simp add: Let_def)

lemma extra_rows_nonneg: "0 \<le> extra_rows ms other 0"
proof (induction ms)
  case (Cons p ms)
  then show ?case by (cases p) (simp add: extra_rows_Cons del: extra_rows.simps)
qed simp

lemma extra_rows_zero:
  "extra_rows ms other 0 = 0 \<longleftrightarrow> (\<forall>(h, c)\<in>set ms. c \<le> map_get 0 other h)"
proof (induction ms)
  case (Cons p ms)
  obtain h c where p: "p = (h, c)" by fastforce
  show ?case
    using Cons extra_rows_nonneg[of ms other] unfolding p extra_rows_Cons by auto
qed simp

lemma extra_rows_subset:
  assumes "counts_mset ms M" "counts_mset other N"
  shows "extra_rows ms other 0 = 0 \<longleftrightarrow> M \<subseteq># N"
proof -
  have get: "map_get 0 ms h = c" if "(h, c) \<in> set ms" for h c
    using that assms(1) by (simp add: counts_mset_def map_get_def)
  have "(\<forall>(h, c)\<in>set ms. c \<le> map_get 0 other h) \<longleftrightarrow> (\<forall>h. count M h \<le> count N h)"
  proof
    assume L: "\<forall>(h, c)\<in>set ms. c \<le> map_get 0 other h"
    show "\<forall>h. count M h \<le> count N h"
    proof
      fix h
      show "count M h \<le> count N h"
      proof (cases "map_of ms h")
        case None
        then have "map_get 0 ms h = 0" by (simp add: map_get_def)
        then show ?thesis using assms(1) by (simp add: counts_mset_def)
      next
        case (Some c)
        then have "(h, c) \<in> set ms" by (rule map_of_SomeD)
        then show ?thesis using L get[of h c] assms by (auto simp: counts_mset_def)
      qed
    qed
  next
    assume R: "\<forall>h. count M h \<le> count N h"
    show "\<forall>(h, c)\<in>set ms. c \<le> map_get 0 other h"
      using get R assms unfolding counts_mset_def by (metis case_prodI2 of_nat_mono)
  qed
  then show ?thesis by (simp add: extra_rows_zero subseteq_mset_def)
qed

text \<open>The multiset of row hashes an instance answers for a table.\<close>

definition rows_of :: "instance_exec \<Rightarrow> string \<Rightarrow> string multiset" where
  "rows_of exec tbl = (case exec (hashes_query tbl) of Inl _ \<Rightarrow> {#} | Inr out \<Rightarrow> mset (nonblank_lines out))"

lemma hashes_of_rows: "hashes_of exec tbl = Ok h \<Longrightarrow> counts_mset h (rows_of exec tbl)"
  by (auto simp: hashes_of_def rows_of_def count_hashes_mset split: sum.splits)

section \<open>Caches do not change answers\<close>

definition cache_ok :: "(string \<times> instance_exec) list \<Rightarrow> diff_cache \<Rightarrow> bool" where
  "cache_ok execs c \<longleftrightarrow>
     (\<forall>k t s. sig_cache c (k, t) = Some s \<longrightarrow> (\<exists>ex. map_of execs k = Some ex \<and> sig_of ex t = Ok s)) \<and>
     (\<forall>k t h. hash_cache c (k, t) = Some h \<longrightarrow> (\<exists>ex. map_of execs k = Some ex \<and> hashes_of ex t = Ok h))"

lemma cache_ok_empty: "cache_ok execs empty_cache"
  by (simp add: cache_ok_def empty_cache_def)

lemma cache_okD:
  "cache_ok execs c \<Longrightarrow> sig_cache c (k, t) = Some s \<Longrightarrow> map_of execs k = Some ex \<Longrightarrow> sig_of ex t = Ok s"
  "cache_ok execs c \<Longrightarrow> hash_cache c (k, t) = Some h \<Longrightarrow> map_of execs k = Some ex \<Longrightarrow> hashes_of ex t = Ok h"
  unfolding cache_ok_def by (metis option.inject)+

lemma cached_sig_ok:
  assumes "cache_ok execs c" "map_of execs k = Some ex"
  shows "fst (cached_sig ex k t c) = sig_of ex t \<and> cache_ok execs (snd (cached_sig ex k t c))"
proof (cases "sig_cache c (k, t)")
  case (Some s)
  then show ?thesis using assms cache_okD(1)[OF assms(1) Some assms(2)] by (simp add: cached_sig_def)
next
  case None
  show ?thesis
  proof (cases "sig_of ex t")
    case (Inl e)
    then show ?thesis using assms(1) None by (simp add: cached_sig_def)
  next
    case (Inr s)
    then have "cache_ok execs (c\<lparr> sig_cache := (sig_cache c)((k, t) \<mapsto> s) \<rparr>)"
      using assms by (simp add: cache_ok_def)
    then show ?thesis using Inr None by (simp add: cached_sig_def)
  qed
qed

lemma cached_hashes_ok:
  assumes "cache_ok execs c" "map_of execs k = Some ex"
  shows "fst (cached_hashes ex k t c) = hashes_of ex t \<and> cache_ok execs (snd (cached_hashes ex k t c))"
proof (cases "hash_cache c (k, t)")
  case (Some h)
  then show ?thesis using assms cache_okD(2)[OF assms(1) Some assms(2)] by (simp add: cached_hashes_def)
next
  case None
  show ?thesis
  proof (cases "hashes_of ex t")
    case (Inl e)
    then show ?thesis using assms(1) None by (simp add: cached_hashes_def)
  next
    case (Inr h)
    then have "cache_ok execs (c\<lparr> hash_cache := (hash_cache c)((k, t) \<mapsto> h) \<rparr>)"
      using assms by (simp add: cache_ok_def)
    then show ?thesis using Inr None by (simp add: cached_hashes_def)
  qed
qed

text \<open>The comparison of one table without caches.\<close>

definition plain_table :: "instance_exec \<Rightarrow> instance_exec \<Rightarrow> string \<Rightarrow> (string, table_divergence list) result" where
  "plain_table ax bx t =
     bind_ok (sig_of ax t) (\<lambda>sa. bind_ok (sig_of bx t) (\<lambda>sb.
       if sa = sb then Ok []
       else bind_ok (hashes_of ax t) (\<lambda>ah. bind_ok (hashes_of bx t) (\<lambda>bh.
         let d = diff_table t ah bh in
         Ok (if td_a_missing d > 0 \<or> td_b_missing d > 0 then [d] else [])))))"

fun plain_tables :: "instance_exec \<Rightarrow> instance_exec \<Rightarrow> string list \<Rightarrow> (string, table_divergence list) result" where
  "plain_tables ax bx [] = Ok []"
| "plain_tables ax bx (t # ts) =
     bind_ok (plain_table ax bx t) (\<lambda>ds. bind_ok (plain_tables ax bx ts) (\<lambda>r. Ok (ds @ r)))"

lemma compare_table_plain:
  assumes ok: "cache_ok execs c" and a: "map_of execs ak = Some ax" and b: "map_of execs bk = Some bx"
  shows "fst (compare_table ax bx ak bk t c) = plain_table ax bx t
    \<and> cache_ok execs (snd (compare_table ax bx ak bk t c))"
proof -
  obtain r1 c1 where 1: "cached_sig ax ak t c = (r1, c1)" by fastforce
  have r1: "r1 = sig_of ax t" "cache_ok execs c1" using cached_sig_ok[OF ok a, of t] 1 by simp_all
  obtain r2 c2 where 2: "cached_sig bx bk t c1 = (r2, c2)" by fastforce
  have r2: "r2 = sig_of bx t" "cache_ok execs c2" using cached_sig_ok[OF r1(2) b, of t] 2 by simp_all
  obtain r3 c3 where 3: "cached_hashes ax ak t c2 = (r3, c3)" by fastforce
  have r3: "r3 = hashes_of ax t" "cache_ok execs c3" using cached_hashes_ok[OF r2(2) a, of t] 3 by simp_all
  obtain r4 c4 where 4: "cached_hashes bx bk t c3 = (r4, c4)" by fastforce
  have r4: "r4 = hashes_of bx t" "cache_ok execs c4" using cached_hashes_ok[OF r3(2) b, of t] 4 by simp_all
  have "plain_table ax bx t = bind_ok r1 (\<lambda>sa. bind_ok r2 (\<lambda>sb.
       if sa = sb then Ok []
       else bind_ok r3 (\<lambda>ah. bind_ok r4 (\<lambda>bh.
         let d = diff_table t ah bh in
         Ok (if td_a_missing d > 0 \<or> td_b_missing d > 0 then [d] else [])))))"
    by (simp only: plain_table_def r1 r2 r3 r4)
  then show ?thesis
    using r1(2) r2(2) r3(2) r4(2)
    by (cases r1; cases r2; cases r3; cases r4) (simp_all add: compare_table_def 1 2 3 4 Let_def)
qed

lemma compare_tables_plain:
  assumes a: "map_of execs ak = Some ax" and b: "map_of execs bk = Some bx"
  shows "cache_ok execs c \<Longrightarrow>
    fst (compare_tables ax bx ak bk ts divs c) = bind_ok (plain_tables ax bx ts) (\<lambda>r. Ok (divs @ r))
    \<and> cache_ok execs (snd (compare_tables ax bx ak bk ts divs c))"
proof (induction ts arbitrary: divs c)
  case (Cons t ts)
  obtain r c' where r: "compare_table ax bx ak bk t c = (r, c')" by fastforce
  have p: "r = plain_table ax bx t" "cache_ok execs c'"
    using compare_table_plain[OF Cons.prems a b, of t] r by simp_all
  show ?case
  proof (cases r)
    case (Inl e)
    then have "plain_table ax bx t = Err e" using p(1) by simp
    then show ?thesis using r p(2) Inl by simp
  next
    case (Inr ds)
    then have "plain_table ax bx t = Ok ds" using p(1) by simp
    then show ?thesis using r Inr Cons.IH[OF p(2), of "divs @ ds"]
      by (cases "plain_tables ax bx ts") simp_all
  qed
qed simp

text \<open>The comparator's answer without caches.\<close>

definition plain_comparator :: "(string \<times> instance_exec) list \<Rightarrow> content_comparator" where
  "plain_comparator execs a b =
     (case (map_of execs (ai_pod a), map_of execs (ai_pod b)) of
        (Some ax, Some bx) \<Rightarrow>
          (if ensure_tables execs = [] then ContentUnknown
           else (case plain_tables ax bx (ensure_tables execs) of
                   Inl _ \<Rightarrow> ContentUnknown
                 | Inr divs \<Rightarrow> relation_from_divergences divs))
      | _ \<Rightarrow> ContentUnknown)"

lemma comparator_step_plain:
  assumes "cache_ok execs c"
  shows "fst (generic_comparator_step execs a b c) = plain_comparator execs a b
     \<and> cache_ok execs (snd (generic_comparator_step execs a b c))"
proof (cases "map_of execs (ai_pod a)")
  case None
  then show ?thesis using assms by (simp add: generic_comparator_step_def plain_comparator_def)
next
  case A: (Some ax)
  show ?thesis
  proof (cases "map_of execs (ai_pod b)")
    case None
    then show ?thesis using assms A by (simp add: generic_comparator_step_def plain_comparator_def)
  next
    case B: (Some bx)
    obtain r c' where r: "compare_tables ax bx (ai_pod a) (ai_pod b) (ensure_tables execs) [] c = (r, c')"
      by fastforce
    have "r = plain_tables ax bx (ensure_tables execs)" "cache_ok execs c'"
      using compare_tables_plain[OF A B assms, of "ensure_tables execs" "[]"] r
      by (auto simp: bind_ok_def split: sum.splits)
    then show ?thesis using assms A B r
      by (simp add: generic_comparator_step_def plain_comparator_def generic_compare_def Let_def
          split: sum.splits)
  qed
qed

text \<open>Calls in sequence, threading the caches as the closure does.\<close>

fun comparator_run ::
  "(string \<times> instance_exec) list \<Rightarrow> (authority_input \<times> authority_input) list \<Rightarrow> diff_cache \<Rightarrow> content_relation list" where
  "comparator_run execs [] c = []"
| "comparator_run execs ((a, b) # ps) c =
     (case generic_comparator_step execs a b c of (r, c') \<Rightarrow> r # comparator_run execs ps c')"

lemma generic_comparator_plain: "generic_comparator execs = plain_comparator execs"
  by (intro ext) (simp add: generic_comparator_def comparator_step_plain[OF cache_ok_empty])

lemma comparator_run_plain:
  "cache_ok execs c \<Longrightarrow> comparator_run execs ps c = map (\<lambda>(a, b). plain_comparator execs a b) ps"
proof (induction ps arbitrary: c)
  case (Cons p ps)
  obtain a b where p: "p = (a, b)" by fastforce
  show ?case
    using comparator_step_plain[OF Cons.prems, of a b] Cons.IH
    by (cases "generic_comparator_step execs a b c") (simp add: p)
qed simp

section \<open>Containment is proven\<close>

text \<open>The signature of a table determines its rows: what an md5 over the ordered row
  hashes and their count is used for.\<close>

definition sig_faithful :: "(string \<times> instance_exec) list \<Rightarrow> bool" where
  "sig_faithful execs =
     list_all (\<lambda>t. list_all (\<lambda>(k1, x1). list_all (\<lambda>(k2, x2).
        is_ok (sig_of x1 t) \<and> sig_of x1 t = sig_of x2 t \<longrightarrow> rows_of x1 t = rows_of x2 t) execs) execs)
       (ensure_tables execs)"

definition rows_in :: "(string \<times> instance_exec) list \<Rightarrow> authority_input \<Rightarrow> string \<Rightarrow> string multiset" where
  "rows_in execs i t = (case map_of execs (ai_pod i) of None \<Rightarrow> {#} | Some ex \<Rightarrow> rows_of ex t)"

definition holds_rows :: "(string \<times> instance_exec) list \<Rightarrow> authority_input \<Rightarrow> authority_input \<Rightarrow> bool" where
  "holds_rows execs a b \<longleftrightarrow> (\<forall>t\<in>set (ensure_tables execs). rows_in execs b t \<subseteq># rows_in execs a t)"

lemma diff_table_missing:
  assumes "hashes_of ax t = Ok ah" "hashes_of bx t = Ok bh"
  shows "td_a_missing (diff_table t ah bh) \<le> 0 \<longleftrightarrow> rows_of bx t \<subseteq># rows_of ax t"
    "td_b_missing (diff_table t ah bh) \<le> 0 \<longleftrightarrow> rows_of ax t \<subseteq># rows_of bx t"
  using extra_rows_subset[OF hashes_of_rows[OF assms(2)] hashes_of_rows[OF assms(1)]]
    extra_rows_subset[OF hashes_of_rows[OF assms(1)] hashes_of_rows[OF assms(2)]]
    extra_rows_nonneg[of ah bh] extra_rows_nonneg[of bh ah]
  by (auto simp: diff_table_def)

lemma plain_table_missing:
  assumes "plain_table ax bx t = Ok ds"
    and "is_ok (sig_of ax t) \<and> sig_of ax t = sig_of bx t \<longrightarrow> rows_of ax t = rows_of bx t"
  shows "(\<forall>d\<in>set ds. td_a_missing d \<le> 0) \<longleftrightarrow> rows_of bx t \<subseteq># rows_of ax t"
    "(\<forall>d\<in>set ds. td_b_missing d \<le> 0) \<longleftrightarrow> rows_of ax t \<subseteq># rows_of bx t"
proof -
  obtain sa sb where s: "sig_of ax t = Ok sa" "sig_of bx t = Ok sb"
    using assms(1) by (auto simp: plain_table_def bind_ok_Ok)
  have "(\<forall>d\<in>set ds. td_a_missing d \<le> 0) \<longleftrightarrow> rows_of bx t \<subseteq># rows_of ax t"
    "(\<forall>d\<in>set ds. td_b_missing d \<le> 0) \<longleftrightarrow> rows_of ax t \<subseteq># rows_of bx t" if "sa = sb"
    using that s assms by (auto simp: plain_table_def)
  moreover have "(\<forall>d\<in>set ds. td_a_missing d \<le> 0) \<longleftrightarrow> rows_of bx t \<subseteq># rows_of ax t"
    "(\<forall>d\<in>set ds. td_b_missing d \<le> 0) \<longleftrightarrow> rows_of ax t \<subseteq># rows_of bx t" if ne: "sa \<noteq> sb"
  proof -
    obtain ah bh where h: "hashes_of ax t = Ok ah" "hashes_of bx t = Ok bh"
      using assms(1) s ne by (auto simp: plain_table_def bind_ok_Ok)
    have ds: "ds = (let d = diff_table t ah bh in if td_a_missing d > 0 \<or> td_b_missing d > 0 then [d] else [])"
      using assms(1) s ne h by (simp add: plain_table_def Let_def)
    show "(\<forall>d\<in>set ds. td_a_missing d \<le> 0) \<longleftrightarrow> rows_of bx t \<subseteq># rows_of ax t"
      "(\<forall>d\<in>set ds. td_b_missing d \<le> 0) \<longleftrightarrow> rows_of ax t \<subseteq># rows_of bx t"
      unfolding ds using diff_table_missing[OF h] by (auto simp: Let_def)
  qed
  ultimately show "(\<forall>d\<in>set ds. td_a_missing d \<le> 0) \<longleftrightarrow> rows_of bx t \<subseteq># rows_of ax t"
    "(\<forall>d\<in>set ds. td_b_missing d \<le> 0) \<longleftrightarrow> rows_of ax t \<subseteq># rows_of bx t" by blast+
qed

lemma plain_tables_missing:
  assumes "plain_tables ax bx ts = Ok divs"
    and "\<forall>t\<in>set ts. is_ok (sig_of ax t) \<and> sig_of ax t = sig_of bx t \<longrightarrow> rows_of ax t = rows_of bx t"
  shows "((\<forall>d\<in>set divs. td_a_missing d \<le> 0) \<longleftrightarrow> (\<forall>t\<in>set ts. rows_of bx t \<subseteq># rows_of ax t)) \<and>
    ((\<forall>d\<in>set divs. td_b_missing d \<le> 0) \<longleftrightarrow> (\<forall>t\<in>set ts. rows_of ax t \<subseteq># rows_of bx t))"
  using assms
proof (induction ts arbitrary: divs)
  case (Cons t ts)
  then obtain ds r where d: "plain_table ax bx t = Ok ds" "plain_tables ax bx ts = Ok r" "divs = ds @ r"
    by (auto simp: bind_ok_Ok)
  show ?case
    using plain_table_missing[OF d(1)] Cons.IH[OF d(2)] Cons.prems(2) d(3) by auto
qed simp

lemma relation_from_lacks:
  "relation_from_divergences divs = ContentAContainsB \<Longrightarrow> \<forall>d\<in>set divs. td_a_missing d \<le> 0"
  "relation_from_divergences divs = ContentBContainsA \<Longrightarrow> \<forall>d\<in>set divs. td_b_missing d \<le> 0"
  "relation_from_divergences divs = ContentEqual \<Longrightarrow>
     (\<forall>d\<in>set divs. td_a_missing d \<le> 0) \<and> (\<forall>d\<in>set divs. td_b_missing d \<le> 0)"
  by (auto simp: relation_from_divergences_def Let_def list_ex_iff not_less split: if_splits)

lemma plain_comparator_sound:
  assumes sf: "sig_faithful execs" and r: "plain_comparator execs a b = r" and ne: "r \<noteq> ContentUnknown"
  shows "(r = ContentAContainsB \<longrightarrow> holds_rows execs a b) \<and>
     (r = ContentBContainsA \<longrightarrow> holds_rows execs b a) \<and>
     (r = ContentEqual \<longrightarrow> holds_rows execs a b \<and> holds_rows execs b a)"
proof -
  obtain ax bx where m: "map_of execs (ai_pod a) = Some ax" "map_of execs (ai_pod b) = Some bx"
    using r ne by (auto simp: plain_comparator_def split: option.splits)
  then obtain divs where d: "plain_tables ax bx (ensure_tables execs) = Ok divs"
    "r = relation_from_divergences divs"
    using r ne by (auto simp: plain_comparator_def split: if_splits sum.splits)
  have "\<forall>t\<in>set (ensure_tables execs). is_ok (sig_of ax t) \<and> sig_of ax t = sig_of bx t \<longrightarrow> rows_of ax t = rows_of bx t"
    using sf map_of_SomeD[OF m(1)] map_of_SomeD[OF m(2)] unfolding sig_faithful_def list_all_iff by fast
  from plain_tables_missing[OF d(1) this] relation_from_lacks[of divs] show ?thesis
    unfolding d(2) holds_rows_def rows_in_def by (auto simp: m)
qed

interpretation generic: content_contract "generic_comparator execs"
    "\<lambda>a b. sig_faithful execs \<longrightarrow> holds_rows execs a b" for execs
proof
  fix a b
  note s = plain_comparator_sound[OF _ refl, of execs a b, folded generic_comparator_plain]
  show "generic_comparator execs a b = ContentAContainsB \<Longrightarrow> sig_faithful execs \<longrightarrow> holds_rows execs a b"
    using s by simp
  show "generic_comparator execs a b = ContentBContainsA \<Longrightarrow> sig_faithful execs \<longrightarrow> holds_rows execs b a"
    using s by simp
  show "generic_comparator execs a b = ContentEqual \<Longrightarrow>
      (sig_faithful execs \<longrightarrow> holds_rows execs a b) \<and> (sig_faithful execs \<longrightarrow> holds_rows execs b a)"
    using s by simp
qed

section \<open>The witness proves containment\<close>

text \<open>\<open>rows p\<close> are the positions of pod \<open>p\<close>'s business rows in order, \<open>H\<close> the
  fingerprint of a row list.  A base is faithful when its count and hash are those of the
  rows and each answered cut those of a selection of them; the fingerprint has no collision
  between such selections.\<close>

definition base_faithful :: "(string list \<Rightarrow> string) \<Rightarrow> string list \<Rightarrow> base_data \<Rightarrow> bool" where
  "base_faithful H rs d \<longleftrightarrow> wb_count d = int (length rs) \<and> wb_hash d = H rs \<and>
     (\<forall>p c h. wb_cut d p = Some (c, h) \<longrightarrow>
        (\<exists>keep. c = int (length (filter keep rs)) \<and> h = H (filter keep rs)))"

definition bases_faithful ::
  "(string list \<Rightarrow> string) \<Rightarrow> (string \<Rightarrow> string list) \<Rightarrow> (string \<times> witness_base) list \<Rightarrow> bool" where
  "bases_faithful H rows bases \<longleftrightarrow>
     (\<forall>p d. map_get None bases p = Some d \<longrightarrow> base_faithful H (rows p) d) \<and>
     (\<forall>p q keep. map_get None bases p \<noteq> None \<longrightarrow> map_get None bases q \<noteq> None \<longrightarrow>
        H (filter keep (rows p)) = H (rows q) \<longrightarrow> filter keep (rows p) = rows q)"

lemma contains_peer_rows:
  assumes "bases_faithful H rows bases" "map_get None bases p = Some a" "map_get None bases q = Some b"
    "contains_peer a b"
  shows "mset (rows q) \<subseteq># mset (rows p)"
proof -
  have "base_faithful H (rows p) a" "base_faithful H (rows q) b"
    using assms(1-3) unfolding bases_faithful_def by blast+
  then obtain keep where "H (filter keep (rows p)) = H (rows q)"
    using assms(4) unfolding contains_peer_def base_faithful_def by (fastforce split: option.splits)
  then have "filter keep (rows p) = rows q"
    using assms(1-3) unfolding bases_faithful_def by (metis option.distinct(1))
  then show ?thesis by (metis mset_filter multiset_filter_subset)
qed

lemma decide_content_rows:
  assumes f: "bases_faithful H rows bases"
    and r: "r = decide_content w (map_get None bases p) (map_get None bases q)"
  shows "(r = ContentAContainsB \<longrightarrow> mset (rows q) \<subseteq># mset (rows p)) \<and>
    (r = ContentBContainsA \<longrightarrow> mset (rows p) \<subseteq># mset (rows q)) \<and>
    (r = ContentEqual \<longrightarrow> mset (rows p) \<subseteq># mset (rows q) \<and> mset (rows q) \<subseteq># mset (rows p))"
proof (cases "map_get None bases p")
  case None
  then show ?thesis using r by (simp add: decide_content_def)
next
  case A: (Some a)
  show ?thesis
  proof (cases "map_get None bases q")
    case None
    then show ?thesis using r A by (simp add: decide_content_def)
  next
    case B: (Some b)
    have "base_faithful H (rows p) a" "base_faithful H (rows q) b"
      using f A B unfolding bases_faithful_def by blast+
    then have "wb_count a = 0 \<longleftrightarrow> rows p = []" "wb_count b = 0 \<longleftrightarrow> rows q = []"
      unfolding base_faithful_def by auto
    then show ?thesis
      using r A B contains_peer_rows[OF f A B] contains_peer_rows[OF f B A]
      by (auto simp: decide_content_def Let_def split: if_splits)
  qed
qed

interpretation witness: content_contract "lazy_content_comparator w bases"
    "\<lambda>a b. bases_faithful H rows bases \<longrightarrow> mset (rows (ai_pod b)) \<subseteq># mset (rows (ai_pod a))"
  for w bases H rows
  by unfold_locales (use decide_content_rows in \<open>auto simp: lazy_content_comparator_def\<close>)

section \<open>Properties\<close>

text \<open>Memoising table signatures and row hashes across the pairwise walk never changes an
  answer: every sequence of calls on the shared caches gives what each call would give on
  fresh ones.\<close>

theorem caches_transparent:
  "comparator_run execs pairs empty_cache = map (\<lambda>(a, b). generic_comparator execs a b) pairs"
  by (simp add: comparator_run_plain[OF cache_ok_empty] generic_comparator_plain)

text \<open>C4: over well-formed histories, and when the counts and fingerprints the instances answered for the witness
  table are those of its rows there and no two selections of these rows share a fingerprint, the leader the
  decision names with the operator's witness holds, of every other readable instance, every write-ahead-log
  address or every row of the witness table.\<close>

theorem witness_leader_covers:
  assumes "ad_determinable (determine_authority insts (Some (lazy_content_comparator w bases)))"
    "\<not> ad_diverged (determine_authority insts (Some (lazy_content_comparator w bases)))"
    "readable_inputs insts \<noteq> []" "\<forall>r\<in>set (readable_inputs insts). wf_lineage r"
    "bases_faithful H rows bases"
  shows "\<exists>l\<in>set (readable_inputs insts).
     ad_leader (determine_authority insts (Some (lazy_content_comparator w bases))) = ai_pod l \<and>
     (\<forall>b\<in>set (readable_inputs insts). wal_extent b \<subseteq> wal_extent l \<or>
        mset (rows (ai_pod b)) \<subseteq># mset (rows (ai_pod l)))"
  using witness.leader_covers[OF assms(1-4), of H rows] assms(5) by blast

text \<open>A diverged pair that the witness resolves: both wrote past the fork at 100, the second
  holds one more business row.\<close>

definition left_branch :: authority_input where
  "left_branch = \<lparr> ai_pod = ''pg-1'', ai_is_primary = True, ai_read_state = ReadStateRead,
     ai_unread_reason = '''', ai_timeline = 3, ai_checkpoint = 900,
     ai_switches = [\<lparr> parent_timeline = 1, switch_lsn = 100 \<rparr>] \<rparr>"

definition right_branch :: authority_input where
  "right_branch = \<lparr> ai_pod = ''pg-2'', ai_is_primary = False, ai_read_state = ReadStateRead,
     ai_unread_reason = '''', ai_timeline = 1, ai_checkpoint = 500, ai_switches = [] \<rparr>"

definition demo_rows :: "string \<Rightarrow> string list" where
  "demo_rows p = (if p = ''pg-1'' then [''1''] else if p = ''pg-2'' then [''1'', ''2''] else [])"

definition demo_base :: "string list \<Rightarrow> string \<Rightarrow> base_data" where
  "demo_base rs mx = \<lparr> wb_count = int (length rs), wb_max_pos = mx, wb_hash = concat rs,
     wb_cut = (\<lambda>p. let ks = filter (\<lambda>x. x \<le> p) rs in Some (int (length ks), concat ks)) \<rparr>"

definition demo_bases :: "(string \<times> witness_base) list" where
  "demo_bases = [(''pg-1'', Some (demo_base [''1''] ''1'')), (''pg-2'', Some (demo_base [''1'', ''2''] ''2''))]"

definition demo_witness :: witness_spec where
  "demo_witness = \<lparr> ws_db = ''app'', ws_table = ''orders'', ws_position = ''id'', ws_exclude = '''', ws_append_only = True \<rparr>"

lemma demo_base_faithful: "base_faithful concat rs (demo_base rs mx)"
  unfolding base_faithful_def demo_base_def Let_def by auto

lemma demo_faithful: "bases_faithful concat demo_rows demo_bases"
proof -
  have get: "map_get None demo_bases p =
      (if p = ''pg-1'' then Some (demo_base [''1''] ''1'')
       else if p = ''pg-2'' then Some (demo_base [''1'', ''2''] ''2'') else None)" for p
    by (simp add: demo_bases_def map_get_def)
  show ?thesis
    unfolding bases_faithful_def get by (auto simp: demo_rows_def demo_base_faithful split: if_splits)
qed

lemma demo_eval:
  "readable_inputs [left_branch, right_branch] = [left_branch, right_branch]"
  "wf_lineage left_branch" "wf_lineage right_branch"
  "ad_determinable (determine_authority [left_branch, right_branch] (Some (lazy_content_comparator demo_witness demo_bases)))"
  "\<not> ad_diverged (determine_authority [left_branch, right_branch] (Some (lazy_content_comparator demo_witness demo_bases)))"
  by code_simp+

lemma witness_leader_covers_witness:
  "\<exists>l\<in>{left_branch, right_branch}.
     ad_leader (determine_authority [left_branch, right_branch] (Some (lazy_content_comparator demo_witness demo_bases))) = ai_pod l \<and>
     (\<forall>b\<in>{left_branch, right_branch}. wal_extent b \<subseteq> wal_extent l \<or>
        mset (demo_rows (ai_pod b)) \<subseteq># mset (demo_rows (ai_pod l)))"
  using witness_leader_covers[of "[left_branch, right_branch]" demo_witness demo_bases, OF _ _ _ _ demo_faithful]
  by (simp add: demo_eval)

text \<open>The generic comparator proves containment of the tables it discovered: its answers
  imply that, table by table, one instance's row multiset contains the other's, provided
  equal signatures mean equal rows.\<close>

theorem generic_containment:
  assumes "sig_faithful execs"
  shows "(generic_comparator execs a b = ContentAContainsB \<longrightarrow> holds_rows execs a b) \<and>
     (generic_comparator execs a b = ContentBContainsA \<longrightarrow> holds_rows execs b a) \<and>
     (generic_comparator execs a b = ContentEqual \<longrightarrow> holds_rows execs a b \<and> holds_rows execs b a)"
  using generic.contains_left[of execs a b] generic.contains_right[of execs a b]
    generic.contains_equal[of execs a b] assms by blast

text \<open>An instance answering from given tables; the signature hash is the rows themselves.\<close>

definition demo_exec :: "(string \<times> string list) list \<Rightarrow> instance_exec" where
  "demo_exec tabs q =
     (if q = discover_query then Ok (join_with [NL] (map fst tabs))
      else case find_first (\<lambda>(t, rs). q = sig_query t) tabs of
             Some (t, rs) \<Rightarrow> Ok (dec_str (int (length rs)) @ ''|'' @ concat rs)
           | None \<Rightarrow> (case find_first (\<lambda>(t, rs). q = hashes_query t) tabs of
                        Some (t, rs) \<Rightarrow> Ok (join_with [NL] rs)
                      | None \<Rightarrow> Err ''no such table''))"

definition demo_execs :: "(string \<times> instance_exec) list" where
  "demo_execs = [(''pg-1'', demo_exec [(''public.a'', [''x''])]),
                 (''pg-2'', demo_exec [(''public.a'', [''x'', ''y''])])]"

lemma demo_sig_faithful: "sig_faithful demo_execs"
  by code_simp

lemma generic_containment_witness:
  "generic_comparator demo_execs left_branch right_branch = ContentBContainsA \<and>
   holds_rows demo_execs right_branch left_branch"
proof -
  have "generic_comparator demo_execs left_branch right_branch = ContentBContainsA" by code_simp
  then show ?thesis using generic_containment[OF demo_sig_faithful, of left_branch right_branch] by blast
qed

definition extra_execs :: "(string \<times> instance_exec) list" where
  "extra_execs = [(''pg-1'', demo_exec [(''public.a'', [''x''])]),
                  (''pg-2'', demo_exec [(''public.a'', [''x'']), (''public.b'', [''z''])])]"

text \<open>Tables are discovered on one instance only.  A second instance with a further table
  the first lacks is reported equal, although no containment holds that way.\<close>

theorem undiscovered_table_missed:
  "generic_comparator extra_execs left_branch right_branch = ContentEqual \<and>
   rows_in extra_execs right_branch ''public.b'' = {#''z''#} \<and>
   rows_in extra_execs left_branch ''public.b'' = {#}"
  by code_simp

end
