(* ===== verification/Results_Model.thy ===== *)
theory Results_Model
  imports Go_Strings
begin

text \<open>
  The result types every engine reports with (\<open>src/output/model/results.go\<close>,
  \<open>refs.go\<close>).  String-typed Go enumerations are datatypes; the zero value of the
  Go type is the constructor ending in \<open>Unset\<close>.  A Go pointer that may be nil is an
  option.
\<close>

datatype classification =
  ClassUnset | ClassAuthoritative | ClassRecoverable | ClassDisposable | ClassUnknown

datatype authority_outcome =
  AuthorityUnset | AuthorityProvable | AuthorityLeaderNotPrimary | AuthorityDiverged | AuthorityUndeterminable

record object_ref =
  or_namespace :: string
  or_name :: string

record disk_stats =
  ds_source :: string
  ds_total :: int
  ds_used :: int
  ds_free :: int
  ds_used_percent :: int
  ds_wal :: int
  ds_data :: int
  ds_segments :: int

record recovery =
  rec_blocked :: bool
  rec_reason :: string
  rec_authority :: string
  rec_disposable :: "string list"
  rec_set :: "string list"

record instance_assessment =
  ia_pod :: string
  ia_instance :: int
  ia_running :: bool
  ia_ready :: bool
  ia_needs_heal :: bool
  ia_notes :: "string list"
  ia_recommendation :: string
  ia_remediation :: string
  ia_is_primary :: bool
  ia_timeline :: int
  ia_lsn :: string
  ia_classification :: classification
  ia_in_primary :: bool
  ia_seqno :: int
  ia_eff_seqno :: int
  ia_seqno_source :: string
  ia_seqno_lag :: int
  ia_uuid :: string
  ia_safe_to_bootstrap :: string
  ia_wsrep_state :: int
  ia_wsrep_comment :: string
  ia_wsrep_connected :: string
  ia_wsrep_ready :: string
  ia_wsrep_cluster_status :: string
  ia_crash_reason :: string
  ia_disk_pct :: int
  ia_disk :: "disk_stats option"

record data_comparison =
  dc_most_advanced :: string
  dc_most_advanced_value :: int
  dc_safe_to_heal :: bool
  dc_authority :: authority_outcome
  dc_warnings :: "string list"
  dc_split_brain :: "string list"
  dc_checkpoint :: string
  dc_primary_members :: "string list"
  dc_best_primary_seqno :: int

record diagnosis =
  dg_id :: string
  dg_summary :: string
  dg_detail :: string
  dg_remedy :: string
  dg_target :: string

record triage_result =
  tr_engine :: string
  tr_cluster :: object_ref
  tr_assessments :: "instance_assessment list"
  tr_comparison :: data_comparison
  tr_phase :: string
  tr_ready :: int
  tr_total :: int
  tr_recovery :: "recovery option"
  tr_all_down :: bool
  tr_best_seqno_node :: "instance_assessment option"
  tr_authority_status :: string
  tr_donor :: string
  tr_diagnoses :: "diagnosis list"

record repair_result =
  rr_engine :: string
  rr_cluster :: object_ref
  rr_healed :: "string list"
  rr_skipped :: "string list"
  rr_post_triage :: "triage_result option"

record lineage_group =
  lg_uuid :: string
  lg_members :: "string list"
  lg_max_seqno :: int
  lg_max_committed :: int
  lg_best_node :: string

record bootstrap_decision =
  bd_eligible :: bool
  bd_reason :: string
  bd_candidate_pod :: string
  bd_candidate_seqno :: int
  bd_candidate_uuid :: string
  bd_ambiguity :: bool
  bd_force_required :: bool
  bd_safe :: bool
  bd_competitors :: "string list"
  bd_wsrep_applied :: bool
  bd_original :: string
  bd_groups :: "lineage_group list"

section \<open>Zero values\<close>

definition zero_disk :: disk_stats where
  "zero_disk = \<lparr> ds_source = '''', ds_total = 0, ds_used = 0, ds_free = 0, ds_used_percent = 0,
     ds_wal = 0, ds_data = 0, ds_segments = 0 \<rparr>"

definition zero_assessment :: instance_assessment where
  "zero_assessment = \<lparr> ia_pod = '''', ia_instance = 0, ia_running = False, ia_ready = False,
     ia_needs_heal = False, ia_notes = [], ia_recommendation = '''', ia_remediation = '''',
     ia_is_primary = False, ia_timeline = 0, ia_lsn = '''', ia_classification = ClassUnset,
     ia_in_primary = False, ia_seqno = 0, ia_eff_seqno = 0, ia_seqno_source = '''', ia_seqno_lag = 0,
     ia_uuid = '''', ia_safe_to_bootstrap = '''', ia_wsrep_state = 0, ia_wsrep_comment = '''',
     ia_wsrep_connected = '''', ia_wsrep_ready = '''', ia_wsrep_cluster_status = '''',
     ia_crash_reason = '''', ia_disk_pct = 0, ia_disk = None \<rparr>"

definition zero_comparison :: data_comparison where
  "zero_comparison = \<lparr> dc_most_advanced = '''', dc_most_advanced_value = 0, dc_safe_to_heal = False,
     dc_authority = AuthorityUnset, dc_warnings = [], dc_split_brain = [], dc_checkpoint = '''',
     dc_primary_members = [], dc_best_primary_seqno = 0 \<rparr>"

definition zero_recovery :: recovery where
  "zero_recovery = \<lparr> rec_blocked = False, rec_reason = '''', rec_authority = '''',
     rec_disposable = [], rec_set = [] \<rparr>"

definition zero_triage :: triage_result where
  "zero_triage = \<lparr> tr_engine = '''', tr_cluster = \<lparr> or_namespace = '''', or_name = '''' \<rparr>,
     tr_assessments = [], tr_comparison = zero_comparison, tr_phase = '''', tr_ready = 0, tr_total = 0,
     tr_recovery = None, tr_all_down = False, tr_best_seqno_node = None, tr_authority_status = '''',
     tr_donor = '''', tr_diagnoses = [] \<rparr>"

end
