(* ===== verification/Go_Float.thy ===== *)
theory Go_Float
  imports Pg_Lsn
begin

text \<open>
  The float64 quotients of integers that the disk arithmetic uses.  A double is a pair of
  an integer and a binary exponent, \<open>m * 2 ^ e\<close>; a quotient is rounded to 53 significant
  bits, ties to even, as IEEE 754 division does (subnormals and overflow do not occur on
  the byte counts and percentages involved).
\<close>

type_synonym f64 = "int \<times> int"

function f64_scale_down :: "int \<Rightarrow> int \<Rightarrow> int \<Rightarrow> int \<times> int \<times> int" where
  "f64_scale_down n d e =
     (if d \<le> 0 \<or> n < 9007199254740992 * d then (n, d, e) else f64_scale_down n (2 * d) (e + 1))"
  by pat_completeness auto
termination
proof (relation "measure (\<lambda>(n, d, e). nat (n - d))", goal_cases)
  case (2 n d e)
  then show ?case by auto
qed simp

function f64_scale_up :: "int \<Rightarrow> int \<Rightarrow> int \<Rightarrow> int \<times> int \<times> int" where
  "f64_scale_up n d e =
     (if n \<le> 0 \<or> n \<ge> 4503599627370496 * d then (n, d, e) else f64_scale_up (2 * n) d (e - 1))"
  by pat_completeness auto
termination
proof (relation "measure (\<lambda>(n, d, e). nat (4503599627370496 * d - n))", goal_cases)
  case (2 n d e)
  then show ?case by auto
qed simp

declare f64_scale_down.simps [simp del] f64_scale_up.simps [simp del]

text \<open>The double nearest to \<open>n / d\<close>, for a positive \<open>d\<close>.\<close>

definition f64_rat :: "int \<Rightarrow> int \<Rightarrow> f64" where
  "f64_rat n d =
     (let s = sgn n;
          (n1, d1, e1) = f64_scale_down (abs n) d 0;
          (n2, d2, e2) = f64_scale_up n1 d1 e1
      in (s * round_half_even n2 d2, e2))"

text \<open>The quotient of two doubles, the divisor positive.\<close>

definition f64_div :: "f64 \<Rightarrow> f64 \<Rightarrow> f64" where
  "f64_div x y =
     (case (x, y) of ((m, e), (m', e')) \<Rightarrow>
        (case f64_rat m m' of (q, eq) \<Rightarrow> (q, eq + e - e')))"

definition f64_le :: "f64 \<Rightarrow> f64 \<Rightarrow> bool" where
  "f64_le x y =
     (case (x, y) of ((m, e), (m', e')) \<Rightarrow>
        (let b = min e e' in m * 2 ^ nat (e - b) \<le> m' * 2 ^ nat (e' - b)))"

definition f64_of :: "int \<Rightarrow> f64" where "f64_of n = f64_rat n 1"

text \<open>Conversion to an integer truncates; the values converted are nonnegative.\<close>

definition f64_trunc :: "f64 \<Rightarrow> int" where
  "f64_trunc x = (case x of (m, e) \<Rightarrow> if e \<ge> 0 then m * 2 ^ nat e else m div 2 ^ nat (- e))"

text \<open>\<open>%.1f\<close> of a nonnegative double.\<close>

definition f64_fmt1 :: "f64 \<Rightarrow> string" where
  "f64_fmt1 x = (case x of (m, e) \<Rightarrow>
     if e \<ge> 0 then fmt_tenths (m * 2 ^ nat e) 1 else fmt_tenths m (2 ^ nat (- e)))"

text \<open>\<open>output.FormatBytes\<close>: the largest binary unit not above the value.\<close>

fun format_bytes_unit :: "nat \<Rightarrow> int \<Rightarrow> int \<Rightarrow> nat \<Rightarrow> int \<times> nat" where
  "format_bytes_unit 0 n dv ex = (dv, ex)"
| "format_bytes_unit (Suc fuel) n dv ex =
     (if n \<ge> 1024 then format_bytes_unit fuel (n div 1024) (dv * 1024) (ex + 1) else (dv, ex))"

text \<open>Five rounds suffice: an int64 is below \<open>1024 ^ 7\<close>.\<close>

definition format_bytes :: "int \<Rightarrow> string" where
  "format_bytes b =
     (if b < 1024 then dec_str b @ '' B''
      else (case format_bytes_unit 6 (b div 1024) 1024 0 of
              (dv, ex) \<Rightarrow> f64_fmt1 (f64_div (f64_of b) (f64_of dv)) @ '' '' @ [''KMGTPE'' ! ex] @ ''B''))"

lemma format_bytes_unit_fuel:
  "n < 1024 ^ Suc k \<Longrightarrow> k \<le> fuel \<Longrightarrow>
     format_bytes_unit fuel n dv ex = format_bytes_unit k n dv ex \<and> snd (format_bytes_unit k n dv ex) \<le> ex + k"
proof (induction k arbitrary: fuel n dv ex)
  case 0
  then show ?case by (cases fuel) auto
next
  case (Suc k)
  then obtain f where f: "fuel = Suc f" "k \<le> f" by (cases fuel) auto
  have "n div 1024 < 1024 ^ Suc k" using Suc.prems(1) by (simp add: div_less_iff_less_mult)
  then show ?case using Suc.IH[of "n div 1024" f "dv * 1024" "ex + 1"] f by auto
qed

end
