(* ===== verification/Cnpg_Data.thy ===== *)
theory Cnpg_Data
  imports Cnpg_Content Results_Model Go_Float
begin

text \<open>
  What PostgreSQL triage collects (\<open>src/engine/triage/cnpg.go\<close>, \<open>cnpg_deeprecover.go\<close>):
  the parsers of the tool outputs and \<open>triageCollect\<close> as a function of what the cluster
  answers.  The answers of the API server, of the commands run in pods and of the probe
  and deep-recovery pods are the fields of \<open>cnpg_env\<close>; polling and printing are not
  modelled.
\<close>

section \<open>Data\<close>

record control_data =
  cd_pod :: string
  cd_source :: string
  cd_reachable :: bool
  cd_state :: string
  cd_timeline :: string
  cd_checkpoint :: string
  cd_checkpoint_time :: string
  cd_min_recovery :: string
  cd_crash_reason :: string
  cd_history :: string
  cd_pgdata_present :: string

record replica_info =
  ri_client :: string
  ri_state :: string
  ri_sent :: string
  ri_write :: string
  ri_flush :: string
  ri_replay :: string
  ri_write_lag :: string
  ri_flush_lag :: string
  ri_replay_lag :: string
  ri_app :: string

record pod =
  p_name :: string
  p_phase :: string
  p_ready :: bool
  p_node :: string

record cnpg_data =
  cx_expected :: "string list"
  cx_running :: "pod list"
  cx_nonrunning :: "pod list"
  cx_missing :: "string list"
  cx_crashloop :: "pod list"
  cx_control :: "control_data list"
  cx_streaming :: "string list"
  cx_replication :: "replica_info list"
  cx_disk_usage :: "(string \<times> int) list"
  cx_disk_stats :: "(string \<times> disk_stats) list"
  cx_capacity :: "(string \<times> int) list"
  cx_pvc_states :: "(string \<times> string) list"
  cx_primary_running :: bool
  cx_primary_control :: control_data
  cx_primary_timeline :: string
  cx_crash_reasons :: "(string \<times> string) list"
  cx_slots :: "string list"
  cx_activity_db :: string
  cx_activity :: "string list"

section \<open>Parsers\<close>

definition zero_control :: control_data where
  "zero_control = \<lparr> cd_pod = '''', cd_source = '''', cd_reachable = False, cd_state = '''', cd_timeline = '''',
     cd_checkpoint = '''', cd_checkpoint_time = '''', cd_min_recovery = '''', cd_crash_reason = '''',
     cd_history = '''', cd_pgdata_present = '''' \<rparr>"

definition unknown_control :: "string \<Rightarrow> string \<Rightarrow> control_data" where
  "unknown_control pname src =
     zero_control\<lparr> cd_pod := pname, cd_source := src, cd_state := unknown, cd_timeline := unknown,
       cd_checkpoint := unknown, cd_checkpoint_time := unknown, cd_min_recovery := unknown \<rparr>"

definition after_colon :: "string \<Rightarrow> string" where
  "after_colon line = (case split_n2 (CHR '':'') line of [_, v] \<Rightarrow> trim_space v | _ \<Rightarrow> '''')"

definition control_line :: "string \<Rightarrow> control_data \<Rightarrow> control_data" where
  "control_line raw cd =
     (let line = trim_space raw in
      if has_prefix line ''Database cluster state:'' then cd\<lparr> cd_state := after_colon line \<rparr>
      else if has_prefix line (''Latest checkpoint'' @ quote @ ''s TimeLineID:'') then cd\<lparr> cd_timeline := after_colon line \<rparr>
      else if has_prefix line ''Latest checkpoint location:'' then cd\<lparr> cd_checkpoint := after_colon line \<rparr>
      else if has_prefix line ''Time of latest checkpoint:'' then cd\<lparr> cd_checkpoint_time := after_colon line \<rparr>
      else if has_prefix line ''Min recovery ending location:'' then cd\<lparr> cd_min_recovery := after_colon line \<rparr>
      else cd)"

definition parse_control_data :: "string \<Rightarrow> string \<Rightarrow> string \<Rightarrow> control_data" where
  "parse_control_data pname src raw = fold control_line (split_lines raw) (unknown_control pname src)"

fun section_scan :: "string \<Rightarrow> bool \<Rightarrow> string list \<Rightarrow> string list" where
  "section_scan marker inside [] = []"
| "section_scan marker inside (l # ls) =
     (let t = trim_space l in
      if t = marker then section_scan marker True ls
      else if inside \<and> has_prefix t ''==='' \<and> has_suffix t ''==='' then []
      else if inside then l # section_scan marker inside ls
      else section_scan marker inside ls)"

definition extract_section :: "string \<Rightarrow> string \<Rightarrow> string" where
  "extract_section raw marker = join_with [NL] (section_scan marker False (split_lines raw))"

definition parse_history_section :: "string \<Rightarrow> string" where
  "parse_history_section raw = trim_space (extract_section raw ''===HISTORY==='')"

definition presence_word :: "string \<Rightarrow> bool" where
  "presence_word t \<longleftrightarrow> t = ''yes'' \<or> t = ''empty'' \<or> t = ''unknown''"

definition parse_pgdata_present :: "string \<Rightarrow> string" where
  "parse_pgdata_present raw =
     (case find_first presence_word (map trim_space (split_lines (extract_section raw ''===PGDATA_PRESENT===''))) of
        Some w \<Rightarrow> w | None \<Rightarrow> '''')"

definition kb_to_bytes :: "string \<Rightarrow> int" where
  "kb_to_bytes s = (case parse_int64 10 (trim_space s) of Inl _ \<Rightarrow> 0 | Inr n \<Rightarrow> wrap64 (n * 1024))"

definition parse_pct :: "string \<Rightarrow> int" where
  "parse_pct s = (case parse_int64 10 (trim_suffix (trim_space s) ''%'') of Inl _ \<Rightarrow> 0 | Inr n \<Rightarrow> n)"

text \<open>\<open>strconv.Atoi\<close> with the error ignored: the value on a range error is the bound.\<close>

definition atoi_lossy :: "string \<Rightarrow> int" where
  "atoi_lossy s =
     (case parse_int64 10 s of
        Inr n \<Rightarrow> n
      | Inl ErrSyntax \<Rightarrow> 0
      | Inl ErrRange \<Rightarrow> if has_prefix s ''-'' then int64_min else int64_max)"

text \<open>The first nonempty line of each disk section.\<close>

fun disk_sections :: "string list \<Rightarrow> string \<Rightarrow> (string \<times> string) list \<Rightarrow> (string \<times> string) list" where
  "disk_sections [] cur secs = secs"
| "disk_sections (line # ls) cur secs =
     (let l = trim_space line in
      if l = ''===DF==='' \<or> l = ''===WAL==='' \<or> l = ''===PGDATA==='' \<or> l = ''===SEGMENTS===''
      then disk_sections ls (trim_byte (CHR ''='') l) secs
      else if cur \<noteq> '''' \<and> l \<noteq> '''' \<and> map_get '''' secs cur = '''' then disk_sections ls cur (map_set cur l secs)
      else disk_sections ls cur secs)"

definition disk_df :: "string \<Rightarrow> disk_stats \<Rightarrow> disk_stats" where
  "disk_df df ds =
     (case str_fields df of
        _ # f1 # f2 # f3 # f4 # _ \<Rightarrow>
          ds\<lparr> ds_total := kb_to_bytes f1, ds_used := kb_to_bytes f2, ds_free := kb_to_bytes f3,
              ds_used_percent := parse_pct f4 \<rparr>
      | _ \<Rightarrow> ds)"

definition first_field :: "string \<Rightarrow> string" where
  "first_field s = (case str_fields s of [] \<Rightarrow> '''' | f # _ \<Rightarrow> f)"

definition parse_disk_stats :: "string \<Rightarrow> string \<Rightarrow> disk_stats" where
  "parse_disk_stats raw src =
     (let secs = disk_sections (split_lines raw) '''' [];
          df = map_get '''' secs ''DF''; w = map_get '''' secs ''WAL'';
          p = map_get '''' secs ''PGDATA''; s = map_get '''' secs ''SEGMENTS'';
          d0 = zero_disk\<lparr> ds_source := src \<rparr>;
          d1 = (if df \<noteq> '''' then disk_df df d0 else d0);
          d2 = (if w \<noteq> '''' then d1\<lparr> ds_wal := kb_to_bytes (first_field w) \<rparr> else d1);
          d3 = (if p \<noteq> '''' then d2\<lparr> ds_data := (let v = wrap64 (kb_to_bytes (first_field p) - ds_wal d2)
                                              in if v < 0 then 0 else v) \<rparr> else d2)
      in if s \<noteq> '''' then d3\<lparr> ds_segments := atoi_lossy (trim_space s) \<rparr> else d3)"

definition cnpg_fill_total :: "disk_stats \<Rightarrow> int \<Rightarrow> disk_stats" where
  "cnpg_fill_total ds cap = (if ds_total ds = 0 \<and> cap > 0 then ds\<lparr> ds_total := cap \<rparr> else ds)"

definition corruption_signatures :: "string list" where
  "corruption_signatures =
     [''could not locate a valid checkpoint record'', ''invalid checkpoint record'',
      ''invalid primary checkpoint record'', ''invalid secondary checkpoint record'',
      ''invalid record length'', ''incorrect resource manager data checksum'',
      ''could not read from log segment'', ''database files are incompatible'']"

definition log_shows_corruption :: "string \<Rightarrow> bool" where
  "log_shows_corruption log = list_ex (str_contains log) corruption_signatures"

definition is_safe_db_char :: "char \<Rightarrow> bool" where
  "is_safe_db_char c \<longleftrightarrow>
     (97 \<le> byte_of c \<and> byte_of c \<le> 122) \<or> (65 \<le> byte_of c \<and> byte_of c \<le> 90) \<or>
     (48 \<le> byte_of c \<and> byte_of c \<le> 57) \<or> c = CHR ''_'' \<or> c = CHR ''-''"

definition is_safe_db_ident :: "string \<Rightarrow> bool" where
  "is_safe_db_ident s \<longleftrightarrow> s \<noteq> '''' \<and> length s \<le> 63 \<and> list_all is_safe_db_char s"

definition cnpg_ordinal :: "string \<Rightarrow> string" where
  "cnpg_ordinal p = (if p = '''' then ''none'' else last (split_char (CHR ''-'') p))"

definition pod_instance_number :: "string \<Rightarrow> int" where
  "pod_instance_number p = (case parse_int64 10 (cnpg_ordinal p) of Inl _ \<Rightarrow> -1 | Inr n \<Rightarrow> n)"

end
