(* ===== verification/Cnpg_Collect.thy ===== *)
theory Cnpg_Collect
  imports Cnpg_Data
begin

text \<open>
  \<open>triageCollect\<close> and the belly-up escalation of \<open>cnpg_deeprecover.go\<close>, as functions of the
  cluster's answers (\<open>cnpg_env\<close>).  The order of the phases is the source's: pods, claims,
  crash reasons, live control data, probes, placeholders, deep recovery, primary,
  replication, disk.
\<close>

section \<open>The cluster's answers\<close>

datatype pvc_answer = PvcNotFound | PvcError | PvcFound string "int option"

datatype probe_answer = ProbeNotCreated | ProbeLogs "(string, string) result"

text \<open>What the read-only inspection of a fenced instance gave: the job failed, or the three
  commands run while the helper held the claim.\<close>

datatype deep_answer = DeepFailed | DeepRead "(string, string) result" "(string, string) result" "(string, string) result"

record cnpg_env =
  ce_cluster :: string
  ce_namespace :: string
  ce_instance_names :: "string option list"
  ce_instances :: int
  ce_current_primary :: string
  ce_ready_instances :: int
  ce_phase :: string
  ce_expand_target :: int
  ce_pods :: "(string, pod list) result"
  ce_pvc :: "string \<Rightarrow> pvc_answer"
  ce_log :: "string \<Rightarrow> (string, string) result"
  ce_control :: "string \<Rightarrow> (string, string) result"
  ce_history :: "string \<Rightarrow> (string, string) result"
  ce_probe :: "string \<Rightarrow> probe_answer"
  ce_isready :: "string \<Rightarrow> (string, string) result"
  ce_deep :: "string \<Rightarrow> deep_answer"
  ce_replication :: "(string, string) result"
  ce_slots :: "(string, string) result"
  ce_activity_db :: "(string, string) result"
  ce_activity :: "string \<Rightarrow> (string, string) result"
  ce_disk :: "string \<Rightarrow> (string, string) result"

section \<open>Pods and claims\<close>

definition expected_instances :: "cnpg_env \<Rightarrow> string list" where
  "expected_instances e =
     (if ce_instance_names e \<noteq> [] then concat (map (\<lambda>n. case n of None \<Rightarrow> [] | Some s \<Rightarrow> [s]) (ce_instance_names e))
      else map (\<lambda>i. ce_cluster e @ ''-'' @ dec_str i) [1..ce_instances e])"

definition running_pods :: "pod list \<Rightarrow> pod list" where
  "running_pods ps = filter (\<lambda>p. p_phase p = ''Running'') ps"

definition nonrunning_pods :: "pod list \<Rightarrow> pod list" where
  "nonrunning_pods ps = filter (\<lambda>p. p_phase p \<noteq> ''Running'') ps"

definition missing_instances :: "string list \<Rightarrow> pod list \<Rightarrow> string list" where
  "missing_instances expected ps = filter (\<lambda>n. n \<notin> set (map p_name ps)) expected"

definition pvc_state_of :: "pvc_answer \<Rightarrow> string" where
  "pvc_state_of a = (case a of PvcNotFound \<Rightarrow> ''MISSING'' | PvcError \<Rightarrow> ''UNKNOWN'' | PvcFound ph _ \<Rightarrow> ph)"

definition pvc_states_of :: "cnpg_env \<Rightarrow> string list \<Rightarrow> (string \<times> string) list" where
  "pvc_states_of e expected = map (\<lambda>n. (n, pvc_state_of (ce_pvc e n))) expected"

definition capacity_of :: "cnpg_env \<Rightarrow> string list \<Rightarrow> (string \<times> int) list" where
  "capacity_of e expected =
     concat (map (\<lambda>n. case ce_pvc e n of PvcFound _ (Some q) \<Rightarrow> [(n, q)] | _ \<Rightarrow> []) expected)"

definition crashloop_pods :: "pod list \<Rightarrow> pod list" where
  "crashloop_pods running = filter (\<lambda>p. \<not> p_ready p) running"

definition crash_reason_of :: "string \<Rightarrow> string option" where
  "crash_reason_of log =
     (if str_contains log ''low-disk space condition'' \<or> str_contains log ''low disk space'' then Some ''disk_full''
      else if log_shows_corruption log then Some ''pgdata_corruption''
      else None)"

definition crash_reasons_of :: "cnpg_env \<Rightarrow> pod list \<Rightarrow> (string \<times> string) list" where
  "crash_reasons_of e crashloop =
     concat (map (\<lambda>p. case ce_log e (p_name p) of
                        Inl _ \<Rightarrow> []
                      | Inr log \<Rightarrow> (case crash_reason_of log of None \<Rightarrow> [] | Some r \<Rightarrow> [(p_name p, r)])) crashloop)"

section \<open>Control data\<close>

definition live_control :: "cnpg_env \<Rightarrow> pod \<Rightarrow> control_data list" where
  "live_control e p =
     (if \<not> p_ready p then []
      else case ce_control e (p_name p) of
             Inl _ \<Rightarrow> []
           | Inr out \<Rightarrow>
               (let cd = (parse_control_data (p_name p) ''exec'' out)\<lparr> cd_reachable := True, cd_pgdata_present := ''yes'' \<rparr>
                in [case ce_history e (p_name p) of Inl _ \<Rightarrow> cd | Inr h \<Rightarrow> cd\<lparr> cd_history := trim_space h \<rparr>]))"

definition probe_targets :: "cnpg_env \<Rightarrow> string list \<Rightarrow> control_data list \<Rightarrow> string list" where
  "probe_targets e expected live =
     filter (\<lambda>n. n \<notin> set (map cd_pod live) \<and> pvc_state_of (ce_pvc e n) = ''Bound'') expected"

definition probe_control :: "string \<Rightarrow> (string, string) result \<Rightarrow> control_data \<times> disk_stats option" where
  "probe_control name logs =
     (case logs of
        Inl _ \<Rightarrow> (unknown_control name ''none'', None)
      | Inr out \<Rightarrow>
          if out = '''' then (unknown_control name ''none'', None)
          else ((parse_control_data name ''pvc_probe'' out)
                  \<lparr> cd_history := parse_history_section out, cd_pgdata_present := parse_pgdata_present out \<rparr>,
                Some (parse_disk_stats out ''pvc_probe'')))"

definition probe_results :: "cnpg_env \<Rightarrow> string list \<Rightarrow> (string \<times> control_data \<times> disk_stats option) list" where
  "probe_results e targets =
     concat (map (\<lambda>n. case ce_probe e n of ProbeNotCreated \<Rightarrow> [] | ProbeLogs l \<Rightarrow> [(n, probe_control n l)]) targets)"

definition placeholder_control :: "(string \<times> string) list \<Rightarrow> string \<Rightarrow> control_data" where
  "placeholder_control reasons n = (unknown_control n ''none'')\<lparr> cd_crash_reason := map_get '''' reasons n \<rparr>"

definition collect_control :: "cnpg_env \<Rightarrow> string list \<Rightarrow> pod list \<Rightarrow> control_data list" where
  "collect_control e expected running =
     (let reasons = crash_reasons_of e (crashloop_pods running);
          live = concat (map (live_control e) running);
          probed = map (\<lambda>(n, cd, _). cd\<lparr> cd_crash_reason := map_get '''' reasons n \<rparr>)
                     (probe_results e (probe_targets e expected live));
          known = live @ probed;
          rest = filter (\<lambda>n. n \<notin> set (map cd_pod known)) expected
      in known @ map (placeholder_control reasons) rest)"

section \<open>Belly-up escalation\<close>

definition is_anything_alive :: "pod list \<Rightarrow> int \<Rightarrow> bool" where
  "is_anything_alive running ready = (if ready > 0 then True else list_ex p_ready running)"

definition unread_bound_instances :: "control_data list \<Rightarrow> (string \<times> string) list \<Rightarrow> string list" where
  "unread_bound_instances cds states =
     map cd_pod (filter (\<lambda>cd. trim_space (cd_timeline cd) = unknown \<and> map_get '''' states (cd_pod cd) = ''Bound'') cds)"

definition any_serving :: "cnpg_env \<Rightarrow> pod list \<Rightarrow> bool" where
  "any_serving e running =
     list_ex (\<lambda>p. case ce_isready e (p_name p) of Inl _ \<Rightarrow> False | Inr out \<Rightarrow> str_contains out ''accepting connections'') running"

definition deep_recover_instance :: "cnpg_env \<Rightarrow> string \<Rightarrow> control_data option" where
  "deep_recover_instance e name =
     (case ce_deep e name of
        DeepFailed \<Rightarrow> None
      | DeepRead ctl hist present \<Rightarrow>
          (case ctl of
             Inl _ \<Rightarrow> None
           | Inr out \<Rightarrow>
               (let cd = (parse_control_data name ''deep_recover'' out)\<lparr> cd_reachable := True \<rparr>;
                    cd = (case hist of Inl _ \<Rightarrow> cd | Inr h \<Rightarrow> cd\<lparr> cd_history := trim_space h \<rparr>)
                in Some (case present of Inl _ \<Rightarrow> cd | Inr p \<Rightarrow> cd\<lparr> cd_pgdata_present := parse_pgdata_present p \<rparr>))))"

fun replace_control :: "string \<Rightarrow> control_data \<Rightarrow> control_data list \<Rightarrow> control_data list" where
  "replace_control n cd [] = []"
| "replace_control n cd (x # xs) = (if cd_pod x = n then cd # xs else x # replace_control n cd xs)"

fun deep_recover_all :: "cnpg_env \<Rightarrow> string list \<Rightarrow> control_data list \<Rightarrow> control_data list" where
  "deep_recover_all e [] cds = cds"
| "deep_recover_all e (n # ns) cds =
     (case deep_recover_instance e n of
        None \<Rightarrow> deep_recover_all e ns cds
      | Some cd \<Rightarrow> deep_recover_all e ns (replace_control n cd cds))"

text \<open>The instances fenced for inspection: none while anything is alive or serving.\<close>

definition fenced_for_inspection :: "cnpg_env \<Rightarrow> pod list \<Rightarrow> control_data list \<Rightarrow> (string \<times> string) list \<Rightarrow> string list" where
  "fenced_for_inspection e running cds states =
     (if is_anything_alive running (ce_ready_instances e) then []
      else if unread_bound_instances cds states = [] then []
      else if any_serving e running then []
      else unread_bound_instances cds states)"

definition maybe_deep_recover :: "cnpg_env \<Rightarrow> pod list \<Rightarrow> (string \<times> string) list \<Rightarrow> control_data list \<Rightarrow> control_data list" where
  "maybe_deep_recover e running states cds = deep_recover_all e (fenced_for_inspection e running cds states) cds"

section \<open>Primary, replication and disk\<close>

definition primary_control_of :: "string \<Rightarrow> control_data list \<Rightarrow> control_data \<times> string" where
  "primary_control_of primary cds =
     (case find_first (\<lambda>cd. cd_pod cd = primary) cds of
        Some cd \<Rightarrow> (cd, trim_space (cd_timeline cd))
      | None \<Rightarrow> (zero_control\<lparr> cd_timeline := unknown, cd_checkpoint := unknown \<rparr>, unknown))"

definition nonempty_output_lines :: "string \<Rightarrow> string list" where
  "nonempty_output_lines out = filter (\<lambda>l. l \<noteq> '''') (split_lines (trim_space out))"

definition replica_row :: "string \<Rightarrow> replica_info option" where
  "replica_row line =
     (case split_char (CHR ''|'') line of
        p0 # p1 # p2 # p3 # p4 # p5 # p6 # p7 # p8 # p9 # _ \<Rightarrow>
          Some \<lparr> ri_client = p0, ri_state = p1, ri_sent = p2, ri_write = p3, ri_flush = p4, ri_replay = p5,
                 ri_write_lag = p6, ri_flush_lag = p7, ri_replay_lag = p8, ri_app = p9 \<rparr>
      | _ \<Rightarrow> None)"

definition replica_rows :: "(string, string) result \<Rightarrow> replica_info list" where
  "replica_rows res =
     (case res of Inl _ \<Rightarrow> []
      | Inr out \<Rightarrow> concat (map (\<lambda>l. case replica_row l of None \<Rightarrow> [] | Some r \<Rightarrow> [r]) (nonempty_output_lines out)))"

definition streaming_of :: "replica_info list \<Rightarrow> string list" where
  "streaming_of rows = map ri_app (filter (\<lambda>r. ri_state r = ''streaming'') rows)"

definition slot_lines :: "(string, string) result \<Rightarrow> string list" where
  "slot_lines res = (case res of Inl _ \<Rightarrow> [] | Inr out \<Rightarrow> nonempty_output_lines out)"

definition write_activity :: "cnpg_env \<Rightarrow> string \<times> string list" where
  "write_activity e =
     (case ce_activity_db e of
        Inl _ \<Rightarrow> ('''', [])
      | Inr dbout \<Rightarrow>
          (let db = trim_space dbout in
           if db = '''' \<or> \<not> is_safe_db_ident db then ('''', [])
           else (case ce_activity e db of
                   Inl _ \<Rightarrow> ('''', [])
                 | Inr out \<Rightarrow> (db, filter (\<lambda>l. l \<noteq> '''') (map trim_space (split_lines (trim_space out)))))))"

fun live_disk :: "cnpg_env \<Rightarrow> (string \<times> int) list \<Rightarrow> pod list
    \<Rightarrow> (string \<times> disk_stats) list \<times> (string \<times> int) list \<Rightarrow> (string \<times> disk_stats) list \<times> (string \<times> int) list" where
  "live_disk e cap [] acc = acc"
| "live_disk e cap (p # ps) (stats, usage) =
     (case ce_disk e (p_name p) of
        Inl _ \<Rightarrow> live_disk e cap ps (stats, usage)
      | Inr out \<Rightarrow>
          (let ds = cnpg_fill_total (parse_disk_stats out ''exec'') (map_get 0 cap (p_name p)) in
           live_disk e cap ps (map_set (p_name p) ds stats, map_set (p_name p) (ds_used_percent ds) usage)))"

fun backfill_disk :: "(string \<times> int) list \<Rightarrow> string list \<Rightarrow> (string \<times> disk_stats) list \<Rightarrow> (string \<times> disk_stats) list" where
  "backfill_disk cap [] stats = stats"
| "backfill_disk cap (n # ns) stats =
     (if map_of stats n \<noteq> None then backfill_disk cap ns stats
      else if map_get 0 cap n > 0
      then backfill_disk cap ns (map_set n (zero_disk\<lparr> ds_source := ''pvc_capacity_only'', ds_total := map_get 0 cap n \<rparr>) stats)
      else backfill_disk cap ns (map_set n (zero_disk\<lparr> ds_source := ''none'' \<rparr>) stats))"

definition probe_disk :: "cnpg_env \<Rightarrow> string list \<Rightarrow> control_data list \<Rightarrow> (string \<times> int) list \<Rightarrow> (string \<times> disk_stats) list" where
  "probe_disk e expected live cap =
     concat (map (\<lambda>(n, _, d). case d of None \<Rightarrow> [] | Some ds \<Rightarrow> [(n, cnpg_fill_total ds (map_get 0 cap n))])
       (probe_results e (probe_targets e expected live)))"

section \<open>The whole collection\<close>

definition triage_collect :: "cnpg_env \<Rightarrow> (string, cnpg_data) result" where
  "triage_collect e =
     (case ce_pods e of
        Inl err \<Rightarrow> Err (''failed to list pods: '' @ err)
      | Inr pods \<Rightarrow>
          (let expected = expected_instances e;
               running = running_pods pods;
               states = pvc_states_of e expected;
               cap = capacity_of e expected;
               live = concat (map (live_control e) running);
               control = maybe_deep_recover e running states (collect_control e expected running);
               (pcd, ptl) = primary_control_of (ce_current_primary e) control;
               prun = list_ex (\<lambda>p. p_name p = ce_current_primary e) running;
               rows = (if prun then replica_rows (ce_replication e) else []);
               (adb, act) = (if prun then write_activity e else ('''', []));
               (stats, usage) = live_disk e cap running (probe_disk e expected live cap, [])
           in Ok \<lparr> cx_expected = expected, cx_running = running, cx_nonrunning = nonrunning_pods pods,
                   cx_missing = missing_instances expected pods, cx_crashloop = crashloop_pods running,
                   cx_control = control, cx_streaming = streaming_of rows, cx_replication = rows,
                   cx_disk_usage = usage, cx_disk_stats = backfill_disk cap expected stats, cx_capacity = cap,
                   cx_pvc_states = states, cx_primary_running = prun, cx_primary_control = pcd,
                   cx_primary_timeline = ptl, cx_crash_reasons = crash_reasons_of e (crashloop_pods running),
                   cx_slots = (if prun then slot_lines (ce_slots e) else []),
                   cx_activity_db = adb, cx_activity = act \<rparr>))"

end
