(* ===== verification/Triage_Verdict.thy ===== *)
theory Triage_Verdict
  imports Results_Model
begin

text \<open>
  The verdict assembly shared by the engines (\<open>src/engine/triage/authority.go\<close>) and the
  cluster verdict (\<open>src/engine/triage/classify.go\<close>): what kind of response a completed
  triage calls for.
\<close>

section \<open>Comparison assembly\<close>

definition authority_warnings :: "bool \<Rightarrow> string \<Rightarrow> string list \<Rightarrow> string list" where
  "authority_warnings safe ok_msg reasons =
     (if safe then (if ok_msg = '''' then [] else [ok_msg])
      else map (\<lambda>r. ''SPLIT-BRAIN RISK: '' @ r) reasons)"

definition new_authority_comparison ::
  "authority_outcome \<Rightarrow> string \<Rightarrow> int \<Rightarrow> string list \<Rightarrow> string \<Rightarrow> data_comparison" where
  "new_authority_comparison outcome most_advanced val reasons ok_msg =
     (let safe = (outcome = AuthorityProvable) in
      zero_comparison\<lparr> dc_most_advanced := most_advanced, dc_most_advanced_value := val,
        dc_safe_to_heal := safe, dc_authority := outcome,
        dc_warnings := authority_warnings safe ok_msg reasons, dc_split_brain := reasons \<rparr>)"

definition derive_authority_status :: "bool \<Rightarrow> string" where
  "derive_authority_status safe = (if safe then ''unambiguous'' else ''ambiguous'')"

section \<open>Cluster verdict\<close>

datatype cluster_verdict =
  VerdictHealthy | VerdictAutoHeal | VerdictBootstrapRequired | VerdictOperatorRequired

record triage_verdict =
  tv_class :: cluster_verdict
  tv_reason :: string
  tv_targets :: "string list"

definition has_join_target :: "triage_result \<Rightarrow> bool" where
  "has_join_target r =
     (if tr_all_down r then False
      else if dc_primary_members (tr_comparison r) \<noteq> [] then True
      else list_ex (\<lambda>a. ia_is_primary a \<and> ia_running a \<and> ia_ready a) (tr_assessments r))"

definition classify :: "triage_result \<Rightarrow> triage_verdict" where
  "classify r =
     (if \<not> has_join_target r then
        (if dc_safe_to_heal (tr_comparison r) then
           \<lparr> tv_class = VerdictBootstrapRequired,
             tv_reason = ''no serving primary, but authority is provable (single lineage, positions known) ''
               @ em_dash @ '' bootstrap can declare it deterministically'', tv_targets = [] \<rparr>
         else
           \<lparr> tv_class = VerdictOperatorRequired,
             tv_reason = ''no serving primary and authority is ambiguous (divergent lineage or unread positions) ''
               @ em_dash @ '' an operator must declare the source of truth'', tv_targets = [] \<rparr>)
      else if \<not> dc_safe_to_heal (tr_comparison r) then
        \<lparr> tv_class = VerdictOperatorRequired,
          tv_reason = ''a primary is serving but the data comparison is not safe (potential split-brain) ''
            @ em_dash @ '' healing could destroy diverged data'', tv_targets = [] \<rparr>
      else
        (let targets = map ia_pod (filter ia_needs_heal (tr_assessments r)) in
         if targets \<noteq> [] then
           \<lparr> tv_class = VerdictAutoHeal,
             tv_reason = ''a healthy primary component exists and the flagged node(s) can rejoin via SST ''
               @ em_dash @ '' safe to auto-heal'', tv_targets = targets \<rparr>
         else
           \<lparr> tv_class = VerdictHealthy,
             tv_reason = ''all nodes healthy and consistent '' @ em_dash @ '' nothing to do'',
             tv_targets = [] \<rparr>))"

section \<open>Lemmas\<close>

lemma new_comparison_safe [simp]:
  "dc_safe_to_heal (new_authority_comparison out ma v rs ok) \<longleftrightarrow> out = AuthorityProvable"
  "dc_authority (new_authority_comparison out ma v rs ok) = out"
  "dc_most_advanced (new_authority_comparison out ma v rs ok) = ma"
  "dc_split_brain (new_authority_comparison out ma v rs ok) = rs"
  "dc_most_advanced_value (new_authority_comparison out ma v rs ok) = v"
  "dc_checkpoint (new_authority_comparison out ma v rs ok) = ''''"
  "dc_primary_members (new_authority_comparison out ma v rs ok) = []"
  by (auto simp: new_authority_comparison_def zero_comparison_def Let_def)

text \<open>The verdict draws the line between automatic and operator repair: it is automatic
  heal exactly when there is a node to join to, the comparison is safe and some instance
  needs a heal, and then its targets are exactly the instances that need it; every verdict
  on an unsafe comparison is for the operator, so unsafe data is never auto-healed nor
  bootstrapped.\<close>

theorem classify_boundary:
  "(tv_class (classify r) = VerdictAutoHeal \<longleftrightarrow>
     has_join_target r \<and> dc_safe_to_heal (tr_comparison r) \<and> list_ex ia_needs_heal (tr_assessments r)) \<and>
   set (tv_targets (classify r)) =
     (if tv_class (classify r) = VerdictAutoHeal
      then {ia_pod a | a. a \<in> set (tr_assessments r) \<and> ia_needs_heal a} else {}) \<and>
   (tv_class (classify r) = VerdictOperatorRequired \<longleftrightarrow> \<not> dc_safe_to_heal (tr_comparison r)) \<and>
   (tv_class (classify r) = VerdictBootstrapRequired \<longleftrightarrow>
     dc_safe_to_heal (tr_comparison r) \<and> \<not> has_join_target r)"
  by (auto simp: classify_def Let_def list_ex_iff filter_empty_conv)

end
