(* ===== verification/Cnpg_Triage.thy ===== *)
theory Cnpg_Triage
  imports Cnpg_Collect Triage_Verdict
begin

text \<open>
  The analysis half of PostgreSQL triage (\<open>src/engine/triage/cnpg.go\<close>, \<open>Analyze\<close> and
  what it calls): the projection of collected data into authority inputs, the
  cross-instance comparison, the diagnosis catalogue, the per-instance assessment with
  its classification, and the recovery projection.
\<close>

section \<open>Authority inputs\<close>

definition authority_input_of :: "(string \<times> string) list \<Rightarrow> string \<Rightarrow> control_data \<Rightarrow> authority_input" where
  "authority_input_of states primary cd =
     (let base = \<lparr> ai_pod = cd_pod cd, ai_is_primary = (cd_pod cd = primary), ai_read_state = ReadStateUnread,
                   ai_unread_reason = '''', ai_timeline = 0, ai_checkpoint = 0, ai_switches = [] \<rparr>;
          tli = trim_space (cd_timeline cd);
          pvc = map_get '''' states (cd_pod cd) in
      if tli \<noteq> '''' \<and> tli \<noteq> unknown then
        (let t = parse_timeline_int tli;
             sw = parse_timeline_history (history_for_timeline (cd_history cd) t);
             full = base\<lparr> ai_timeline := t, ai_checkpoint := parse_lsn_value (trim_space (cd_checkpoint cd)),
                          ai_switches := sw \<rparr> in
         if t > 1 \<and> sw = [] then
           full\<lparr> ai_unread_reason := ''on timeline '' @ dec_str t
                   @ '' but its timeline-history is unread '' @ em_dash @ '' fork points unknown; ''
                   @ ''re-probe (fenced inspection) before any heal'' \<rparr>
         else full\<lparr> ai_read_state := ReadStateRead \<rparr>)
      else if cd_pgdata_present cd = ''empty'' then base\<lparr> ai_read_state := ReadStateAbsentNoData \<rparr>
      else if pvc = ''MISSING'' then base\<lparr> ai_read_state := ReadStateAbsentNoData \<rparr>
      else base\<lparr> ai_unread_reason :=
             (if pvc \<noteq> '''' then ''PVC '' @ pvc @ '', position UNREAD'' else ''position UNREAD'')
             @ '' '' @ em_dash @ '' bring it up for inspection (fenced read) before any heal'' \<rparr>)"

definition build_authority_inputs :: "cnpg_data \<Rightarrow> string \<Rightarrow> authority_input list" where
  "build_authority_inputs d primary = map (authority_input_of (cx_pvc_states d) primary) (cx_control d)"

section \<open>Cross-instance comparison\<close>

definition ledger_row :: "string \<Rightarrow> string" where
  "ledger_row row =
     (case split_char (CHR ''|'') row of
        p0 # p1 # p2 # p3 # rest \<Rightarrow>
          ''  '' @ p0 @ '': ins='' @ p1 @ '' upd='' @ p2 @ '' del='' @ p3
            @ (case rest of [] \<Rightarrow> '''' | p4 # _ \<Rightarrow> '', live='' @ p4)
      | _ \<Rightarrow> ''  '' @ row)"

definition format_write_ledger :: "cnpg_data \<Rightarrow> string list" where
  "format_write_ledger d =
     (if cx_activity d = [] then []
      else (''Write activity on the running primary (db='' @ cx_activity_db d @ ''), top tables by ins+upd+del ''
              @ em_dash @ '' weigh CHURN (schedulers/heartbeats/queues) vs REAL business writes when choosing the lineage:'')
           # map ledger_row (cx_activity d))"

definition comparison_outcome :: "authority_decision \<Rightarrow> string \<Rightarrow> authority_outcome \<times> string list" where
  "comparison_outcome dec primary =
     (if \<not> ad_determinable dec then (AuthorityUndeterminable, ad_blockers dec)
      else if ad_diverged dec then (AuthorityDiverged, ad_divergences dec)
      else if ad_leader dec \<noteq> '''' \<and> ad_leader dec \<noteq> primary then
        (AuthorityLeaderNotPrimary,
         [''AUTHORITY IS NOT THE PRIMARY: '' @ ad_leader dec @ '' holds the winning data, not '' @ primary
            @ '' '' @ em_dash @ '' '' @ ad_leader_reason dec])
      else if ad_leader dec = primary \<and> primary \<noteq> '''' then (AuthorityProvable, [])
      else (AuthorityUndeterminable, [''no instance holds readable data (all provably empty)'']))"

definition most_advanced_of :: "authority_decision \<Rightarrow> string \<Rightarrow> string" where
  "most_advanced_of dec primary =
     (if ad_leader dec = '''' \<and> ad_determinable dec \<and> \<not> ad_diverged dec then primary else ad_leader dec)"

definition most_advanced_position :: "authority_input list \<Rightarrow> string \<Rightarrow> int \<times> string" where
  "most_advanced_position inputs ma =
     fold (\<lambda>i acc. if ai_pod i = ma then (ai_timeline i, format_lsn (ai_checkpoint i)) else acc) inputs (0, '''')"

definition cnpg_comparison :: "cnpg_data \<Rightarrow> content_comparator option \<Rightarrow> string \<Rightarrow> data_comparison" where
  "cnpg_comparison d content primary =
     (let inputs = build_authority_inputs d primary;
          dec = determine_authority inputs content;
          ma = most_advanced_of dec primary;
          (outcome, reasons0) = comparison_outcome dec primary;
          reasons = (if outcome = AuthorityDiverged \<or> outcome = AuthorityLeaderNotPrimary
                     then reasons0 @ format_write_ledger d else reasons0);
          (ma_val, ma_lsn) = most_advanced_position inputs ma;
          ok_msg = ''OK: primary '' @ primary @ '' is the decisive authority (timeline '' @ dec_str ma_val
                     @ '', checkpoint '' @ ma_lsn @ '') '' @ em_dash @ '' '' @ ad_leader_reason dec
      in (new_authority_comparison outcome ma ma_val reasons ok_msg)\<lparr> dc_checkpoint := ma_lsn \<rparr>)"

section \<open>Classification\<close>

definition classify_instance :: "bool \<Rightarrow> bool \<Rightarrow> bool \<Rightarrow> bool \<Rightarrow> bool \<Rightarrow> bool \<Rightarrow> bool \<Rightarrow> classification" where
  "classify_instance is_primary is_authority has_data safe behind_tl same_tl stranded =
     (if \<not> has_data \<or> \<not> safe then ClassUnknown
      else if is_primary \<or> is_authority then ClassAuthoritative
      else if behind_tl \<or> stranded then ClassDisposable
      else if same_tl then ClassRecoverable
      else ClassUnknown)"

definition replace_dashes :: "string \<Rightarrow> string" where
  "replace_dashes s = map (\<lambda>c. if c = CHR ''-'' then CHR ''_'' else c) s"

fun slot_scan :: "string \<Rightarrow> string list \<Rightarrow> string option" where
  "slot_scan key [] = None"
| "slot_scan key (line # ls) =
     (case split_char (CHR ''|'') line of
        f0 # f1 # f2 # f3 # _ \<Rightarrow>
          if \<not> str_contains (trim_space f0) key then slot_scan key ls
          else if trim_space f3 = '''' then None
          else Some (trim_space f3)
      | _ \<Rightarrow> slot_scan key ls)"

text \<open>The retained restart position, or \<open>None\<close>.\<close>

definition slot_retains_wal :: "string list \<Rightarrow> string \<Rightarrow> string option" where
  "slot_retains_wal slots inst = slot_scan (replace_dashes inst) slots"

section \<open>Disk judgement\<close>

definition wal_dominant :: "disk_stats option \<Rightarrow> bool" where
  "wal_dominant dso =
     (case dso of
        None \<Rightarrow> False
      | Some ds \<Rightarrow>
          if ds_total ds \<le> 0 \<or> ds_used ds \<le> 0 then False
          else (let wal_share = f64_div (f64_of (ds_wal ds)) (f64_of (ds_total ds));
                    drained = f64_div (f64_of (wrap64 (ds_used ds - ds_wal ds))) (f64_of (ds_total ds))
                in f64_le (f64_rat 1 4) wal_share \<and> f64_le drained (f64_rat 7 10)))"

definition gib :: int where "gib = 1073741824"

text \<open>The new size and the growth factor; a size of 0 when it cannot be computed.\<close>

definition suggest_expansion :: "disk_stats option \<Rightarrow> int \<Rightarrow> int \<times> f64" where
  "suggest_expansion dso target =
     (case dso of
        None \<Rightarrow> (0, (0, 0))
      | Some ds \<Rightarrow>
          if ds_data ds \<le> 0 \<or> ds_total ds \<le> 0 \<or> target \<le> 0 \<or> target \<ge> 100 then (0, (0, 0))
          else (let raw = f64_trunc (f64_div (f64_of (ds_data ds)) (f64_div (f64_of target) (f64_of 100)));
                    nb0 = ((raw + gib - 1) div gib) * gib;
                    nb = (if nb0 \<le> ds_total ds then (ds_total ds div gib + 1) * gib else nb0)
                in (nb, f64_div (f64_of nb) (f64_of (ds_total ds)))))"

definition expand_rec :: "int \<Rightarrow> disk_stats option \<Rightarrow> string \<Rightarrow> string" where
  "expand_rec target dso lead =
     (case suggest_expansion dso target of
        (nb, factor) \<Rightarrow>
          if nb > 0 then
            lead @ '' expand the PVC ~''
              @ (case dso of None \<Rightarrow> '''' | Some ds \<Rightarrow> format_bytes (ds_total ds))
              @ '' -> ~'' @ format_bytes nb @ '' so data sits at ~'' @ dec_str target @ ''% (~''
              @ f64_fmt1 factor @ ''x); tune with --expand-target-pct / HASTEWARD_EXPAND_TARGET_PCT.''
          else lead @ '' expand the PVC storage in the Cluster spec (or prune data).'')"

section \<open>Assessing one instance\<close>

text \<open>The signals \<open>buildAssessments\<close> derives for one instance.\<close>

record inst_view =
  iv_pod :: string
  iv_primary :: bool
  iv_missing :: bool
  iv_crashloop :: bool
  iv_running :: bool
  iv_streaming :: bool
  iv_disk_full :: bool
  iv_disk_pct :: int
  iv_has_data :: bool
  iv_tl :: string
  iv_lsn :: string
  iv_same_tl :: bool
  iv_behind_tl :: bool
  iv_behind_lsn :: bool
  iv_ahead_lsn :: bool
  iv_ahead_tl :: bool
  iv_authority :: bool
  iv_disk :: "disk_stats option"
  iv_pvc :: string
  iv_slot :: "string option"

definition inst_view_of :: "cnpg_data \<Rightarrow> string \<Rightarrow> string \<Rightarrow> control_data \<Rightarrow> inst_view" where
  "inst_view_of d ma primary cd =
     (let p_tl = cx_primary_timeline d;
          p_lsn = trim_space (cd_checkpoint (cx_primary_control d));
          i_tl = trim_space (cd_timeline cd); i_lsn = trim_space (cd_checkpoint cd);
          same = (i_tl = p_tl \<and> i_tl \<noteq> unknown);
          dso = map_of (cx_disk_stats d) (cd_pod cd)
      in \<lparr> iv_pod = cd_pod cd, iv_primary = (cd_pod cd = primary),
           iv_missing = (cd_pod cd \<in> set (cx_missing d)),
           iv_crashloop = (cd_pod cd \<in> set (map p_name (cx_crashloop d))),
           iv_running = (cd_pod cd \<in> set (map p_name (cx_running d))),
           iv_streaming = (cd_pod cd \<in> set (cx_streaming d)),
           iv_disk_full = (cd_crash_reason cd = ''disk_full''),
           iv_disk_pct = (case dso of
                            Some ds \<Rightarrow> if ds_source ds = ''exec'' \<or> ds_source ds = ''pvc_probe'' then ds_used_percent ds
                                       else map_get 0 (cx_disk_usage d) (cd_pod cd)
                          | None \<Rightarrow> map_get 0 (cx_disk_usage d) (cd_pod cd)),
           iv_has_data = (cd_source cd \<noteq> ''none''),
           iv_tl = i_tl, iv_lsn = i_lsn, iv_same_tl = same,
           iv_behind_tl = (i_tl \<noteq> unknown \<and> p_tl \<noteq> unknown \<and> parse_timeline_int i_tl < parse_timeline_int p_tl),
           iv_behind_lsn = (same \<and> parse_lsn_value i_lsn < parse_lsn_value p_lsn),
           iv_ahead_lsn = (same \<and> parse_lsn_value i_lsn > parse_lsn_value p_lsn),
           iv_ahead_tl = (i_tl \<noteq> unknown \<and> p_tl \<noteq> unknown \<and> parse_timeline_int i_tl > parse_timeline_int p_tl),
           iv_authority = (cd_pod cd = ma), iv_disk = dso,
           iv_pvc = map_get '''' (cx_pvc_states d) (cd_pod cd),
           iv_slot = slot_retains_wal (cx_slots d) (cd_pod cd) \<rparr>)"

definition iv_stranded :: "inst_view \<Rightarrow> bool" where
  "iv_stranded v \<longleftrightarrow> iv_same_tl v \<and> iv_behind_lsn v \<and> \<not> iv_streaming v \<and> \<not> iv_missing v \<and> \<not> iv_disk_full v"

record advice =
  av_notes :: "string list"
  av_rec :: string
  av_heal :: bool
  av_remedy :: string

definition advise :: "string list \<Rightarrow> string \<Rightarrow> advice" where
  "advise ns r = \<lparr> av_notes = ns, av_rec = r, av_heal = False, av_remedy = ''none'' \<rparr>"

definition advise_restart :: "string list \<Rightarrow> string \<Rightarrow> advice" where
  "advise_restart ns r = (advise ns r)\<lparr> av_remedy := ''restart'' \<rparr>"

definition advise_reseed :: "string list \<Rightarrow> string \<Rightarrow> advice" where
  "advise_reseed ns r = (advise ns r)\<lparr> av_heal := True, av_remedy := ''reseed'' \<rparr>"

definition advise_heal :: "string list \<Rightarrow> string \<Rightarrow> advice" where
  "advise_heal ns r = (advise ns r)\<lparr> av_heal := True \<rparr>"

record triage_conf =
  tc_cluster :: string
  tc_namespace :: string
  tc_expand :: int

definition heal_cmd :: "triage_conf \<Rightarrow> string \<Rightarrow> string" where
  "heal_cmd c pod_name = ''hasteward repair -e cnpg -c '' @ tc_cluster c @ '' -n '' @ tc_namespace c
     @ '' --instance '' @ last (split_char (CHR ''-'') pod_name) @ '' --backups-path /backups''"

definition wal_data_bytes :: "disk_stats option \<Rightarrow> string \<times> string" where
  "wal_data_bytes dso = (case dso of None \<Rightarrow> ('''', '''') | Some ds \<Rightarrow> (format_bytes (ds_wal ds), format_bytes (ds_data ds)))"

definition para :: string where "para = [NL, NL] @ ''  ''"

section \<open>The branches of the assessment\<close>

definition advise_primary :: "triage_conf \<Rightarrow> inst_view \<Rightarrow> advice" where
  "advise_primary c v =
     (if iv_disk_full v \<or> iv_disk_pct v \<ge> 90 then
        (if wal_dominant (iv_disk v) then
           (case wal_data_bytes (iv_disk v) of (w, dt) \<Rightarrow>
              advise [''PRIMARY - disk full from un-recycled WAL, not data (WAL '' @ w @ '' vs data '' @ dt @ '')'']
                (''Disk is full but '' @ w @ '' of it is un-recycled WAL against only '' @ dt @ '' of real data ''
                 @ em_dash @ '' the volume is NOT undersized, the WAL just is not draining (continuous archiving has ''
                 @ ''likely stalled; check the barmanObjectStore credentials/endpoint). Do NOT expand the PVC ''
                 @ em_dash @ '' that only burns finite cluster capacity while WAL keeps growing. Fix in place: escrow ''
                 @ ''the authority, clear the WAL-bloated pgdata on the existing PVC, then pg_basebackup re-clone:''
                 @ para @ heal_cmd c (iv_pod v)))
         else advise [''PRIMARY - disk full/low (usage is real data)'']
                (expand_rec (tc_expand c) (iv_disk v) (''Primary disk is full of real data, not WAL '' @ em_dash)))
      else advise [''PRIMARY - healthy''] ''No action needed.'')"

definition advise_unsafe :: "inst_view \<Rightarrow> advice" where
  "advise_unsafe v =
     (if iv_ahead_tl v \<or> iv_ahead_lsn v then
        advise [''AHEAD OF PRIMARY - potential split-brain'']
          (''MANUAL REVIEW REQUIRED. This instance has data ahead of the primary. ''
           @ ''Do NOT heal without understanding the data state. ''
           @ ''Consider promoting this instance or performing manual data recovery.'')
      else if \<not> iv_has_data v then
        advise [''NO DATA - cannot assess during split-brain'']
          ''MANUAL REVIEW REQUIRED. Cannot determine this instance state. Resolve split-brain first.''
      else
        advise [''behind primary but split-brain detected elsewhere'']
          (''MANUAL REVIEW REQUIRED. Split-brain detected in cluster. Resolve the split-brain before healing any ''
           @ ''replicas.''))"

definition advise_no_data :: "inst_view \<Rightarrow> advice" where
  "advise_no_data v =
     advise [''NO DATA - could not probe PVC'', ''PVC: '' @ iv_pvc v]
       (if iv_pvc v = ''MISSING'' then ''PVC is missing. Check CNPG operator logs.''
        else ''Could not probe PVC data. Check if pod can be scheduled and PVC can be mounted.'')"

definition advise_behind_tl :: "triage_conf \<Rightarrow> cnpg_data \<Rightarrow> inst_view \<Rightarrow> advice" where
  "advise_behind_tl c d v =
     advise_heal ((''behind: timeline '' @ iv_tl v @ '' < primary '' @ cx_primary_timeline d)
                  # (if iv_disk_full v then [''disk full (WAL accumulation from being stuck)''] else []))
       (''Needs heal (pg_basebackup). Cannot catch up via streaming - different timeline.'' @ para @ heal_cmd c (iv_pod v))"

definition advise_disk_low :: "triage_conf \<Rightarrow> inst_view \<Rightarrow> string \<Rightarrow> string" where
  "advise_disk_low c v lead =
     (if wal_dominant (iv_disk v) then
        (case wal_data_bytes (iv_disk v) of (w, dt) \<Rightarrow>
           lead @ '' but the disk is filling with un-recycled WAL ('' @ w @ '' WAL vs '' @ dt @ '' data) '' @ em_dash
             @ '' check continuous archiving; do not expand the PVC for WAL bloat.'')
      else expand_rec (tc_expand c) (iv_disk v) (lead @ '' but disk usage is high (real data) '' @ em_dash))"

definition advise_streaming :: "triage_conf \<Rightarrow> inst_view \<Rightarrow> advice" where
  "advise_streaming c v =
     (let n = ''healthy (streaming, checkpoint LSN slightly behind - normal)'' in
      if iv_disk_pct v \<ge> 90 then
        advise [n, ''disk low ('' @ dec_str (iv_disk_pct v) @ ''%)''] (advise_disk_low c v ''Streaming OK'')
      else advise [n] ''No action needed.'')"

definition advise_behind_lsn :: "triage_conf \<Rightarrow> cnpg_data \<Rightarrow> inst_view \<Rightarrow> advice" where
  "advise_behind_lsn c d v =
     (let n = ''same timeline, behind by LSN ('' @ iv_lsn v @ '' < ''
                @ trim_space (cd_checkpoint (cx_primary_control d)) @ ''), not streaming'' in
      if iv_disk_full v then
        advise_heal [n, ''disk full (WAL accumulation from being stuck)'']
          (''Needs heal. Same timeline but disk full prevents catch-up.'' @ para @ heal_cmd c (iv_pod v))
      else if iv_missing v then
        advise_restart [n, ''no pod running'']
          (''Pod missing but data is on correct timeline. ''
           @ ''CNPG should recreate the pod (a restart, not a re-clone). If it does not, check cluster phase. ''
           @ ''Catches up via streaming while WAL is retained.'')
      else if iv_crashloop v then
        (case iv_slot v of
           Some lsn \<Rightarrow>
             advise_restart [n, ''crash-looping but data intact; WAL retained (slot restart_lsn '' @ lsn @ '')'']
               (''Data is intact and on the primary'' @ quote @ ''s timeline, and the WAL to catch up is still ''
                @ ''retained (its replication slot has a restart_lsn). RESTART the pod (delete it; CNPG recreates ''
                @ ''against the same PVC) '' @ em_dash @ '' it resumes streaming and catches up. Do NOT re-clone; ''
                @ ''the data is fine. Check pod logs for the crash root cause.'')
         | None \<Rightarrow>
             advise_reseed [n, ''crash-looping, not streaming, WAL discarded (no slot restart_lsn)'']
               (''Same timeline but crash-looping and the WAL needed to catch up is gone ''
                @ ''(no replication slot / no restart_lsn), so it cannot rejoin by replication. Heal (re-clone from ''
                @ ''primary).'' @ para @ heal_cmd c (iv_pod v)))
      else
        (case iv_slot v of
           Some lsn \<Rightarrow>
             advise_restart [n, ''not streaming but WAL retained (slot restart_lsn '' @ lsn @ '')'']
               (''Not streaming, but data is on the primary'' @ quote @ ''s timeline and the WAL is still retained ''
                @ ''(replication slot has a restart_lsn). RESTART the pod to resume streaming '' @ em_dash
                @ '' no re-clone needed.'')
         | None \<Rightarrow>
             advise_reseed [n]
               (''Not streaming and the WAL has been discarded (no replication slot / no ''
                @ ''restart_lsn) '' @ em_dash @ '' it cannot catch up. Heal (re-clone from primary).''
                @ para @ heal_cmd c (iv_pod v))))"

definition advise_current :: "triage_conf \<Rightarrow> inst_view \<Rightarrow> advice" where
  "advise_current c v =
     (if iv_missing v then
        advise_restart [''data current but no pod'']
          (''Data is current. CNPG should recreate the pod (a restart, not a re-clone). If it does not, ''
           @ ''check cluster phase.'')
      else if iv_crashloop v then
        advise_restart [''data current but crash-looping'']
          (''Data is current '' @ em_dash @ '' a RESTART, not a re-clone. Delete the pod so CNPG recreates it ''
           @ ''against the same PVC, and check pod logs for the crash root cause.'')
      else if iv_disk_pct v \<ge> 90 then
        advise [''healthy but disk low ('' @ dec_str (iv_disk_pct v) @ ''%)''] (advise_disk_low c v ''Healthy'')
      else advise [''healthy''] ''No action needed.'')"

definition advise_instance :: "triage_conf \<Rightarrow> cnpg_data \<Rightarrow> bool \<Rightarrow> inst_view \<Rightarrow> advice" where
  "advise_instance c d safe v =
     (if iv_primary v then advise_primary c v
      else if \<not> safe then advise_unsafe v
      else if \<not> iv_has_data v then advise_no_data v
      else if iv_behind_tl v then advise_behind_tl c d v
      else if iv_same_tl v \<and> iv_behind_lsn v \<and> iv_streaming v then advise_streaming c v
      else if iv_same_tl v \<and> iv_behind_lsn v then advise_behind_lsn c d v
      else if iv_same_tl v \<and> \<not> iv_behind_lsn v then advise_current c v
      else advise [''timeline unknown''] ''Could not determine timeline. Check instance manually.'')"

text \<open>The corruption override, and the reconciliation of class and remedy.\<close>

definition override_corruption ::
  "triage_conf \<Rightarrow> control_data \<Rightarrow> classification \<Rightarrow> advice \<Rightarrow> classification \<times> advice" where
  "override_corruption c cd cls a =
     (if cd_crash_reason cd = ''pgdata_corruption'' then
        (ClassDisposable,
         \<lparr> av_notes = av_notes a @ [''pgdata corruption (invalid checkpoint) '' @ em_dash @ '' restart cannot recover''],
           av_rec = ''Local pgdata/WAL is corrupt (invalid checkpoint record) '' @ em_dash @ '' a restart ''
             @ ''re-panics. Reseed (re-clone from the primary).'' @ para @ heal_cmd c (cd_pod cd),
           av_heal = True, av_remedy = ''reseed'' \<rparr>)
      else if av_remedy a = ''restart'' then (ClassRecoverable, a)
      else if av_remedy a = ''none'' \<and> av_heal a then (cls, a\<lparr> av_remedy := ''reseed'' \<rparr>)
      else (cls, a))"

definition assess_instance ::
  "triage_conf \<Rightarrow> cnpg_data \<Rightarrow> data_comparison \<Rightarrow> string \<Rightarrow> control_data \<Rightarrow> instance_assessment" where
  "assess_instance c d cmp primary cd =
     (let v = inst_view_of d (dc_most_advanced cmp) primary cd;
          safe = dc_safe_to_heal cmp;
          cls0 = classify_instance (iv_primary v) (iv_authority v) (iv_has_data v) safe
                   (iv_behind_tl v) (iv_same_tl v) (iv_stranded v);
          (cls, a) = override_corruption c cd cls0 (advise_instance c d safe v)
      in zero_assessment\<lparr> ia_pod := cd_pod cd, ia_instance := pod_instance_number (cd_pod cd),
           ia_running := iv_running v, ia_ready := iv_running v \<and> \<not> iv_crashloop v,
           ia_is_primary := iv_primary v, ia_timeline := parse_timeline_int (iv_tl v), ia_lsn := iv_lsn v,
           ia_classification := cls, ia_notes := av_notes a, ia_recommendation := av_rec a,
           ia_needs_heal := av_heal a, ia_remediation := av_remedy a, ia_disk := iv_disk v \<rparr>)"

definition build_assessments :: "triage_conf \<Rightarrow> cnpg_data \<Rightarrow> data_comparison \<Rightarrow> string \<Rightarrow> instance_assessment list" where
  "build_assessments c d cmp primary = map (assess_instance c d cmp primary) (cx_control d)"

section \<open>Recovery\<close>

definition derive_recovery ::
  "instance_assessment list \<Rightarrow> data_comparison \<Rightarrow> string \<Rightarrow> string \<Rightarrow> bool \<Rightarrow> recovery option" where
  "derive_recovery as cmp primary phase primary_running =
     (if \<not> dc_safe_to_heal cmp \<or> primary = '''' then Some (zero_recovery\<lparr> rec_reason := ''ambiguous_authority'' \<rparr>)
      else
        (let disp = filter (\<lambda>a. ia_classification a = ClassDisposable) as;
             pods = map ia_pod disp;
             full = list_ex (\<lambda>a. list_ex (\<lambda>n. str_contains n ''disk full'') (ia_notes a)) disp;
             frozen = str_contains (to_lower phase) ''not enough disk space''
         in if pods = [] then None
            else (let r = zero_recovery\<lparr> rec_authority := primary, rec_disposable := pods,
                            rec_set := (if primary_running then [] else [primary]) @ pods \<rparr> in
                  if frozen \<and> full \<and> \<not> primary_running
                  then Some (r\<lparr> rec_blocked := True, rec_reason := ''disk_full_disposable_replica'' \<rparr>)
                  else Some r)))"

section \<open>Diagnoses\<close>

definition arrow :: string where "arrow = [CHR 0xE2, CHR 0x86, CHR 0x92]"
definition backtick :: string where "backtick = [CHR 0x60]"

definition full_disk :: "disk_stats option \<Rightarrow> bool" where
  "full_disk dso = (case dso of None \<Rightarrow> False | Some ds \<Rightarrow> ds_total ds > 0 \<and> ds_used_percent ds \<ge> 95)"

definition authority_is_disk_constrained :: "string \<Rightarrow> instance_assessment list \<Rightarrow> bool" where
  "authority_is_disk_constrained authority as =
     list_ex (\<lambda>a. ia_pod a = authority \<and> (ia_crash_reason a = ''disk_full'' \<or> full_disk (ia_disk a))) as"

definition rebuild_steps :: "triage_conf \<Rightarrow> string \<Rightarrow> instance_assessment list \<Rightarrow> string" where
  "rebuild_steps c authority as =
     (let relief = (if authority_is_disk_constrained authority as
            then '' (it is disk-full/crash-looping '' @ em_dash @ '' relieve WAL first: '' @ backtick
                 @ ''hasteward prune-wal -e cnpg -c '' @ tc_cluster c @ '' -n '' @ tc_namespace c
                 @ '' --instance '' @ cnpg_ordinal authority @ '' --dry-run'' @ backtick @ '')'' else '''') in
      ''  1. Escrow every instance (reversible) before touching anything: hasteward backup create -e cnpg -c ''
        @ tc_cluster c @ '' -n '' @ tc_namespace c @ [NL]
      @ ''  2. Bring the authority '' @ authority @ '' up Ready and inspect it'' @ relief @ [NL]
      @ ''  3. Make '' @ authority @ '' the primary. CNPG has no single safe command to promote a divergent/behind replica; do this ''
        @ ''deliberately (switchover only if the topology is healthy, otherwise a rebuild-based promotion) '' @ em_dash
        @ '' HASteward does not yet automate this step.'' @ [NL]
      @ ''  4. Once '' @ authority @ '' is the primary, rebuild the stale ex-primary and replicas FROM it: hasteward repair -e cnpg -c ''
        @ tc_cluster c @ '' -n '' @ tc_namespace c)"

definition authority_first_step :: "triage_conf \<Rightarrow> string \<Rightarrow> instance_assessment list \<Rightarrow> string" where
  "authority_first_step c authority as =
     (if authority_is_disk_constrained authority as
      then ''hasteward prune-wal -e cnpg -c '' @ tc_cluster c @ '' -n '' @ tc_namespace c
           @ '' --instance '' @ cnpg_ordinal authority @ '' --dry-run   # relieve the wedged authority first''
      else ''hasteward backup create -e cnpg -c '' @ tc_cluster c @ '' -n '' @ tc_namespace c
           @ ''   # escrow the authority before any promotion'')"

definition diagnose_authority_recovery ::
  "triage_conf \<Rightarrow> data_comparison \<Rightarrow> instance_assessment list \<Rightarrow> string \<Rightarrow> diagnosis list" where
  "diagnose_authority_recovery c cmp as primary =
     (case dc_authority cmp of
        AuthorityLeaderNotPrimary \<Rightarrow>
          (let au = dc_most_advanced cmp in
           [\<lparr> dg_id = ''cnpg-authority-not-primary'',
              dg_summary = ''The data authority is '' @ au @ '' (a replica), not the primary '' @ primary @ '' ''
                @ em_dash @ '' recovery is to rebuild the cluster AROUND '' @ au @ '', never to heal from the primary'',
              dg_detail = ''CNPG'' @ quote @ ''s normal heal clones replicas FROM the primary. Here the newest committed data is on ''
                @ au @ '' while the primary '' @ primary @ '' is an older/stale lineage, so a normal heal '' @ em_dash
                @ '' or a --force targeted heal of '' @ au @ '' '' @ em_dash @ '' would rm -rf the authority'' @ quote
                @ ''s pgdata and re-clone the stale data over it, DESTROYING the newest data. ''
                @ ''Repair now refuses to heal the authority even with --force. Recovery, in order:'' @ [NL]
                @ rebuild_steps c au as,
              dg_remedy = authority_first_step c au as, dg_target = au \<rparr>])
      | AuthorityDiverged \<Rightarrow>
          [\<lparr> dg_id = ''cnpg-split-brain-diverged'',
             dg_summary = ''Committed data exists on more than one lineage past a shared fork '' @ em_dash
               @ '' no automatic winner; a human must choose the surviving lineage'',
             dg_detail = ''No instance is a safe authority. Review the divergence evidence in the authority verdict above ''
               @ em_dash @ '' the per-branch WAL-past-fork volume and the primary'' @ quote
               @ ''s write-activity ledger (churn vs real business writes) '' @ em_dash
               @ '' then ESCROW every instance before touching anything. Once you have chosen the surviving instance X, rebuild ''
               @ ''the cluster AROUND X with the same ordered steps as '' @ backtick @ ''cnpg-authority-not-primary'' @ backtick
               @ '' (escrow '' @ arrow @ '' relieve '' @ arrow @ '' promote X '' @ arrow @ '' heal the rest). ''
               @ ''HASteward will not choose for you: picking the wrong lineage is unrecoverable.'',
             dg_remedy = ''hasteward backup create -e cnpg -c '' @ tc_cluster c @ '' -n '' @ tc_namespace c
               @ ''   # escrow ALL before any mutation'', dg_target = '''' \<rparr>]
      | _ \<Rightarrow> [])"

definition is_trapped_authority :: "data_comparison \<Rightarrow> instance_assessment \<Rightarrow> bool" where
  "is_trapped_authority cmp a \<longleftrightarrow>
     (ia_classification a = ClassAuthoritative \<or> (dc_most_advanced cmp \<noteq> '''' \<and> ia_pod a = dc_most_advanced cmp)) \<and>
     \<not> ia_ready a \<and> (ia_crash_reason a = ''disk_full'' \<or> full_disk (ia_disk a))"

definition diagnose_trapped_authority :: "triage_conf \<Rightarrow> data_comparison \<Rightarrow> instance_assessment list \<Rightarrow> diagnosis list" where
  "diagnose_trapped_authority c cmp as =
     (case find_first (is_trapped_authority cmp) as of
        None \<Rightarrow> []
      | Some a \<Rightarrow>
          [\<lparr> dg_id = ''cnpg-authority-wal-trapped'',
             dg_summary = ''URGENT: the data authority '' @ ia_pod a @ '' is not ready on a FULL disk '' @ em_dash
               @ '' the golden data is at risk while the node cannot start'',
             dg_detail = ''A data-bearing authority stuck on a disk-full volume cannot checkpoint or recycle WAL, so it ''
               @ ''never recovers on its own and the newest data sits at risk. Relieve it by pruning WAL older than its ''
               @ ''OWN checkpoint REDO '' @ em_dash @ '' committed data past the checkpoint is kept, so this is safe. HASteward can now ''
               @ ''run this relief even when the authority is a non-primary replica. Escrow first if the data is irreplaceable.'',
             dg_remedy = ''hasteward prune-wal -e cnpg -c '' @ tc_cluster c @ '' -n '' @ tc_namespace c
               @ '' --instance '' @ cnpg_ordinal (ia_pod a) @ '' --dry-run'', dg_target = ia_pod a \<rparr>])"

text \<open>The first backwards fork of a lineage, as the pair of its positions.\<close>

fun first_rewind :: "switch_point list \<Rightarrow> (int \<times> int) option" where
  "first_rewind (x # y # rest) =
     (if switch_lsn y < switch_lsn x then Some (switch_lsn x, switch_lsn y) else first_rewind (y # rest))"
| "first_rewind _ = None"

record rewind_state =
  rw_pod :: string
  rw_tl :: int
  rw_max :: int
  rw_from :: int
  rw_to :: int

definition rewind_step :: "control_data \<Rightarrow> rewind_state \<Rightarrow> rewind_state" where
  "rewind_step cd s =
     (let t = parse_timeline_int (trim_space (cd_timeline cd));
          s1 = (if t > rw_max s then s\<lparr> rw_max := t \<rparr> else s)
      in case first_rewind (parse_timeline_history (history_for_timeline (cd_history cd) t)) of
           None \<Rightarrow> s1
         | Some (fr, to) \<Rightarrow>
             if t \<ge> rw_tl s1 then s1\<lparr> rw_pod := cd_pod cd, rw_tl := t, rw_from := fr, rw_to := to \<rparr> else s1)"

definition rewind_scan :: "control_data list \<Rightarrow> rewind_state" where
  "rewind_scan cds = fold rewind_step cds \<lparr> rw_pod = '''', rw_tl = 0, rw_max = 0, rw_from = 0, rw_to = 0 \<rparr>"

definition diagnose_timeline_rewind :: "triage_conf \<Rightarrow> control_data list \<Rightarrow> diagnosis list" where
  "diagnose_timeline_rewind c cds =
     (let s = rewind_scan cds in
      if rw_pod s = '''' then []
      else [\<lparr> dg_id = ''cnpg-timeline-rewind'',
              dg_summary = ''Timeline history shows a REWIND on '' @ rw_pod s @ '' '' @ em_dash @ '' timeline ''
                @ dec_str (rw_tl s) @ '' forked at '' @ format_lsn (rw_to s) @ '', BEHIND an earlier fork at ''
                @ format_lsn (rw_from s) @ '' (a restore/PITR to an earlier point); the cluster spans ''
                @ dec_str (rw_max s) @ '' timelines'',
              dg_detail = ''WAL only moves forward and a normal failover forks at the current LSN, so a fork that goes BACKWARDS is ''
                @ ''the fingerprint of a point-in-time restore. If that restore was intentional this is informational; if it was ''
                @ ''not, the pre-rewind lineage held committed WAL that the restored timeline discarded '' @ em_dash
                @ '' check the authority verdict above, because the instance still on the pre-rewind timeline may be the real data authority.'',
              dg_remedy = ''hasteward triage -e cnpg -c '' @ tc_cluster c @ '' -n '' @ tc_namespace c
                @ ''   # review the authority verdict; escrow before acting on any divergence'',
              dg_target = rw_pod s \<rparr>])"

definition cnpg_diagnose ::
  "triage_conf \<Rightarrow> data_comparison \<Rightarrow> instance_assessment list \<Rightarrow> string \<Rightarrow> cnpg_data \<Rightarrow> diagnosis list" where
  "cnpg_diagnose c cmp as primary d =
     diagnose_authority_recovery c cmp as primary @ diagnose_trapped_authority c cmp as
     @ diagnose_timeline_rewind c (cx_control d)"

section \<open>Analyze\<close>

definition triage_conf_of :: "cnpg_env \<Rightarrow> triage_conf" where
  "triage_conf_of e = \<lparr> tc_cluster = ce_cluster e, tc_namespace = ce_namespace e, tc_expand = ce_expand_target e \<rparr>"

definition cnpg_analyze :: "cnpg_env \<Rightarrow> content_comparator option \<Rightarrow> cnpg_data \<Rightarrow> triage_result" where
  "cnpg_analyze e content d =
     (let c = triage_conf_of e;
          primary = ce_current_primary e;
          cmp = cnpg_comparison d content primary;
          as = build_assessments c d cmp primary
      in zero_triage\<lparr> tr_engine := ''cnpg'',
           tr_cluster := \<lparr> or_namespace = ce_namespace e, or_name = ce_cluster e \<rparr>,
           tr_assessments := as, tr_comparison := cmp, tr_phase := ce_phase e,
           tr_ready := (if ce_ready_instances e > 0 then ce_ready_instances e else 0),
           tr_total := ce_instances e,
           tr_authority_status := derive_authority_status (dc_safe_to_heal cmp),
           tr_donor := (if dc_safe_to_heal cmp \<and> primary \<noteq> '''' then cnpg_ordinal primary else ''none''),
           tr_recovery := derive_recovery as cmp primary (ce_phase e) (cx_primary_running d),
           tr_diagnoses := cnpg_diagnose c cmp as primary d \<rparr>)"

definition cnpg_triage :: "cnpg_env \<Rightarrow> content_comparator option \<Rightarrow> (string, triage_result) result" where
  "cnpg_triage e content =
     (case triage_collect e of
        Inl err \<Rightarrow> Err (''triage collect failed: '' @ err)
      | Inr d \<Rightarrow> Ok (cnpg_analyze e content d))"

end
