(* ===== verification/Cnpg_Triage_Correct.thy ===== *)
theory Cnpg_Triage_Correct
  imports Cnpg_Triage
begin

text \<open>
  Correctness of PostgreSQL triage: no expected instance escapes the legibility gate, a
  live cluster is never fenced for inspection, the comparison is safe exactly when the
  primary is the proven authority, and the remedies of the assessments agree with their
  classes.
\<close>

section \<open>Coverage of the collected control data\<close>

lemma control_line_pod [simp]: "cd_pod (control_line l cd) = cd_pod cd"
  by (simp add: control_line_def Let_def)

lemma fold_control_pod: "cd_pod (fold control_line ls cd) = cd_pod cd"
  by (induction ls arbitrary: cd) simp_all

lemma parse_control_pod [simp]: "cd_pod (parse_control_data p s raw) = p"
  by (simp add: parse_control_data_def fold_control_pod unknown_control_def)

lemma deep_recover_pod: "deep_recover_instance e n = Some cd \<Longrightarrow> cd_pod cd = n"
  by (auto simp: deep_recover_instance_def Let_def split: deep_answer.splits sum.splits)

lemma replace_control_pods: "cd_pod cd = n \<Longrightarrow> map cd_pod (replace_control n cd cds) = map cd_pod cds"
  by (induction n cd cds rule: replace_control.induct) auto

lemma deep_recover_all_pods: "map cd_pod (deep_recover_all e ns cds) = map cd_pod cds"
  by (induction e ns cds rule: deep_recover_all.induct)
     (auto simp: replace_control_pods deep_recover_pod split: option.splits)

lemma maybe_deep_recover_pods: "map cd_pod (maybe_deep_recover e r st cds) = map cd_pod cds"
  by (simp add: maybe_deep_recover_def deep_recover_all_pods)

lemma placeholder_pod [simp]: "cd_pod (placeholder_control rs n) = n"
  by (simp add: placeholder_control_def unknown_control_def)

lemma collect_control_covers: "n \<in> set expected \<Longrightarrow> n \<in> set (map cd_pod (collect_control e expected running))"
proof -
  assume n: "n \<in> set expected"
  define known where "known = concat (map (live_control e) running) @
     map (\<lambda>(n, cd, _). cd\<lparr> cd_crash_reason := map_get '''' (crash_reasons_of e (crashloop_pods running)) n \<rparr>)
       (probe_results e (probe_targets e expected (concat (map (live_control e) running))))"
  have eq: "collect_control e expected running =
      known @ map (placeholder_control (crash_reasons_of e (crashloop_pods running)))
                (filter (\<lambda>n. n \<notin> set (map cd_pod known)) expected)"
    by (simp only: collect_control_def known_def Let_def)
  show ?thesis unfolding eq using n by (auto simp: image_iff simp del: set_concat)
qed

lemma triage_collect_parts:
  assumes "triage_collect e = Ok d"
  shows "cx_expected d = expected_instances e"
    "cx_control d = maybe_deep_recover e (cx_running d) (cx_pvc_states d) (collect_control e (expected_instances e) (cx_running d))"
    "cx_pvc_states d = pvc_states_of e (expected_instances e)"
    "\<exists>pods. ce_pods e = Ok pods \<and> cx_running d = running_pods pods"
  using assms by (auto simp: triage_collect_def Let_def split: sum.splits prod.splits)

section \<open>Authority inputs\<close>

lemma input_pod [simp]: "ai_pod (authority_input_of st pr cd) = cd_pod cd"
  "ai_is_primary (authority_input_of st pr cd) \<longleftrightarrow> cd_pod cd = pr"
  by (auto simp: authority_input_of_def Let_def)

text \<open>A position was read from the instance's control data.\<close>

definition position_read :: "control_data \<Rightarrow> bool" where
  "position_read cd \<longleftrightarrow> trim_space (cd_timeline cd) \<noteq> '''' \<and> trim_space (cd_timeline cd) \<noteq> unknown"

lemma input_unread:
  "\<not> position_read cd \<Longrightarrow> cd_pgdata_present cd \<noteq> ''empty'' \<Longrightarrow> map_get '''' st (cd_pod cd) \<noteq> ''MISSING'' \<Longrightarrow>
     ai_read_state (authority_input_of st pr cd) = ReadStateUnread"
  by (auto simp: authority_input_of_def position_read_def Let_def)

lemma comparison_fields:
  "dc_authority (cnpg_comparison d content primary) =
     fst (comparison_outcome (determine_authority (build_authority_inputs d primary) content) primary)"
  "dc_safe_to_heal (cnpg_comparison d content primary) \<longleftrightarrow>
     dc_authority (cnpg_comparison d content primary) = AuthorityProvable"
  "dc_most_advanced (cnpg_comparison d content primary) =
     most_advanced_of (determine_authority (build_authority_inputs d primary) content) primary"
  by (auto simp: cnpg_comparison_def Let_def split: prod.splits)

lemma unread_not_safe:
  assumes "i \<in> set (build_authority_inputs d primary)" "ai_read_state i = ReadStateUnread"
  shows "dc_authority (cnpg_comparison d content primary) = AuthorityUndeterminable"
proof -
  have "unread_inputs (build_authority_inputs d primary) \<noteq> []"
    using assms by (auto simp: unread_inputs_def filter_empty_conv)
  then have "\<not> ad_determinable (determine_authority (build_authority_inputs d primary) content)"
    by (simp add: determine_authority_def zero_decision_def)
  then show ?thesis by (simp add: comparison_fields(1) comparison_outcome_def)
qed

lemma pvc_states_get: "n \<in> set ns \<Longrightarrow> map_get z (pvc_states_of e ns) n = pvc_state_of (ce_pvc e n)"
proof -
  assume "n \<in> set ns"
  then have "map_of (pvc_states_of e ns) n = Some (pvc_state_of (ce_pvc e n))"
    unfolding pvc_states_of_def by (simp add: map_of_map_restrict restrict_map_def)
  then show ?thesis by (simp add: map_get_def)
qed

section \<open>Comparison\<close>

lemma outcome_provable:
  "fst (comparison_outcome dec primary) = AuthorityProvable \<longleftrightarrow>
     ad_determinable dec \<and> \<not> ad_diverged dec \<and> ad_leader dec = primary \<and> primary \<noteq> ''''"
  by (auto simp: comparison_outcome_def)

section \<open>Assessments\<close>

lemma advise_sel [simp]:
  "av_heal (advise ns r) = False" "av_remedy (advise ns r) = ''none''"
  "av_heal (advise_restart ns r) = False" "av_remedy (advise_restart ns r) = ''restart''"
  "av_heal (advise_reseed ns r) = True" "av_remedy (advise_reseed ns r) = ''reseed''"
  "av_heal (advise_heal ns r) = True" "av_remedy (advise_heal ns r) = ''none''"
  by (simp_all add: advise_def advise_restart_def advise_reseed_def advise_heal_def)

lemma advise_primary_none [simp]:
  "av_heal (advise_primary c v) = False" "av_remedy (advise_primary c v) = ''none''"
  by (simp_all add: advise_primary_def split: prod.splits)

lemma advise_unsafe_none [simp]:
  "av_heal (advise_unsafe v) = False" "av_remedy (advise_unsafe v) = ''none''"
  by (simp_all add: advise_unsafe_def)

lemma advise_other_none [simp]:
  "av_heal (advise_no_data v) = False" "av_remedy (advise_no_data v) = ''none''"
  "av_heal (advise_streaming c v) = False" "av_remedy (advise_streaming c v) = ''none''"
  "av_heal (advise_behind_tl c d v) = True" "av_remedy (advise_behind_tl c d v) = ''none''"
  "av_heal (advise_current c v) = False"
  by (simp_all add: advise_no_data_def advise_streaming_def advise_behind_tl_def advise_current_def Let_def)

text \<open>The three remedies of the source's switch, before reconciliation.\<close>

definition remedy_ok :: "advice \<Rightarrow> bool" where
  "remedy_ok a \<longleftrightarrow> av_remedy a = ''none'' \<or> (av_remedy a = ''restart'' \<and> \<not> av_heal a)
     \<or> (av_remedy a = ''reseed'' \<and> av_heal a)"

lemma remedy_ok_basic [simp]:
  "remedy_ok (advise ns r)" "remedy_ok (advise_restart ns r)" "remedy_ok (advise_reseed ns r)"
  "remedy_ok (advise_heal ns r)"
  by (simp_all add: remedy_ok_def)

lemma remedy_ok_behind: "remedy_ok (advise_behind_lsn c d v)"
  by (cases "iv_slot v") (simp_all only: advise_behind_lsn_def Let_def option.case remedy_ok_basic if_split simp_thms)

lemma remedy_ok_current: "remedy_ok (advise_current c v)"
  by (simp only: advise_current_def remedy_ok_basic if_split simp_thms)

lemma remedy_ok_none: "av_remedy a = ''none'' \<Longrightarrow> remedy_ok a"
  by (simp add: remedy_ok_def)

lemma advice_shape: "remedy_ok (advise_instance c d safe v)"
  by (simp only: advise_instance_def remedy_ok_behind remedy_ok_current remedy_ok_none
      advise_primary_none advise_unsafe_none advise_other_none remedy_ok_basic if_split simp_thms)

lemma advice_heal_cases:
  "av_heal (advise_instance c d safe v) \<Longrightarrow>
     safe \<and> \<not> iv_primary v \<and> iv_has_data v \<and>
     (iv_behind_tl v \<or> (iv_same_tl v \<and> iv_behind_lsn v \<and> \<not> iv_streaming v))"
  by (auto simp: advise_instance_def split: if_splits)

lemma assess_fields:
  "ia_pod (assess_instance c d cmp primary cd) = cd_pod cd"
  "ia_is_primary (assess_instance c d cmp primary cd) \<longleftrightarrow> cd_pod cd = primary"
  by (simp_all add: assess_instance_def Let_def inst_view_of_def split: prod.splits)

lemma assess_uncorrupted:
  assumes "cd_crash_reason cd \<noteq> ''pgdata_corruption''"
    and "v = inst_view_of d (dc_most_advanced cmp) primary cd"
    and "a = advise_instance c d (dc_safe_to_heal cmp) v"
  shows "ia_needs_heal (assess_instance c d cmp primary cd) = av_heal a"
    "ia_remediation (assess_instance c d cmp primary cd) =
       (if av_remedy a = ''none'' \<and> av_heal a then ''reseed'' else av_remedy a)"
    "ia_classification (assess_instance c d cmp primary cd) =
       (if av_remedy a = ''restart'' then ClassRecoverable
        else classify_instance (iv_primary v) (iv_authority v) (iv_has_data v) (dc_safe_to_heal cmp)
               (iv_behind_tl v) (iv_same_tl v) (iv_stranded v))"
  using assms by (simp_all add: assess_instance_def override_corruption_def Let_def split: prod.splits)

lemma assess_corrupted:
  assumes "cd_crash_reason cd = ''pgdata_corruption''"
  shows "ia_needs_heal (assess_instance c d cmp primary cd)"
    "ia_remediation (assess_instance c d cmp primary cd) = ''reseed''"
    "ia_classification (assess_instance c d cmp primary cd) = ClassDisposable"
  using assms by (simp_all add: assess_instance_def override_corruption_def Let_def split: prod.splits)

section \<open>Properties\<close>

text \<open>No expected instance escapes the authority gate: after a successful collection
  every instance the cluster expects has a control-data entry, hence an authority input,
  whatever failed while reading it, and the belly-up inspection replaces entries only.\<close>

theorem every_expected_instance_is_judged:
  assumes "triage_collect e = Ok d" "n \<in> set (expected_instances e)"
  shows "\<exists>i\<in>set (build_authority_inputs d primary). ai_pod i = n"
proof -
  note p = triage_collect_parts[OF assms(1)]
  have "n \<in> set (map cd_pod (cx_control d))"
    using collect_control_covers[OF assms(2)] by (simp only: p(2) maybe_deep_recover_pods)
  then show ?thesis by (auto simp: build_authority_inputs_def)
qed

text \<open>A transient failure never discredits an instance: when the claim of an expected
  instance could not be looked up, and nothing was read of it nor proven empty, the verdict
  is undeterminable, so no heal is authorised, whatever the content comparator answers.\<close>

theorem transient_failure_blocks_heal:
  assumes "triage_collect e = Ok d" "n \<in> set (expected_instances e)" "ce_pvc e n = PvcError"
    "\<forall>cd\<in>set (cx_control d). cd_pod cd = n \<longrightarrow> \<not> position_read cd \<and> cd_pgdata_present cd \<noteq> ''empty''"
  shows "dc_authority (cnpg_comparison d content primary) = AuthorityUndeterminable \<and>
     \<not> dc_safe_to_heal (cnpg_comparison d content primary)"
proof -
  note p = triage_collect_parts[OF assms(1)]
  have "n \<in> set (map cd_pod (cx_control d))"
    using collect_control_covers[OF assms(2)] by (simp only: p(2) maybe_deep_recover_pods)
  then obtain cd where cd: "cd \<in> set (cx_control d)" "cd_pod cd = n" by auto
  have "map_get '''' (cx_pvc_states d) n = ''UNKNOWN''"
    using assms(2,3) p(3) by (simp add: pvc_states_get pvc_state_of_def)
  then have "ai_read_state (authority_input_of (cx_pvc_states d) primary cd) = ReadStateUnread"
    using cd assms(4) by (intro input_unread) auto
  then have "dc_authority (cnpg_comparison d content primary) = AuthorityUndeterminable"
    using cd(1) by (intro unread_not_safe) (auto simp: build_authority_inputs_def)
  then show ?thesis by (simp add: comparison_fields(2))
qed

text \<open>A live cluster is never fenced to be inspected: instances are selected for the
  fenced read exactly when no pod is ready, the status reports no ready instance and no pod
  accepts connections; each selected one holds a bound claim and was not read.\<close>

theorem live_cluster_never_fenced:
  "fenced_for_inspection e running cds states =
     (if \<not> list_ex p_ready running \<and> ce_ready_instances e \<le> 0 \<and> \<not> any_serving e running
      then unread_bound_instances cds states else []) \<and>
   list_all (\<lambda>n. map_get '''' states n = ''Bound'' \<and> list_ex (\<lambda>cd. cd_pod cd = n \<and> \<not> position_read cd) cds)
     (fenced_for_inspection e running cds states)"
  by (auto simp: fenced_for_inspection_def is_anything_alive_def unread_bound_instances_def list_all_iff list_ex_iff
      position_read_def)

text \<open>C2: when the comparison is safe to heal, over well-formed histories of which some were read, no instance is
  unread, and the primary was read and holds of every instance whose position was read every write-ahead-log
  address, or is answered by the content comparator to hold that instance's content; the second only with a
  comparator.\<close>

theorem safe_means_primary_holds_all:
  assumes "dc_safe_to_heal (cnpg_comparison d content primary)"
    "readable_inputs (build_authority_inputs d primary) \<noteq> []"
    "\<forall>r\<in>set (readable_inputs (build_authority_inputs d primary)). wf_lineage r"
  shows "\<exists>p\<in>set (readable_inputs (build_authority_inputs d primary)). ai_pod p = primary \<and>
     (\<forall>b\<in>set (readable_inputs (build_authority_inputs d primary)). wal_extent b \<subseteq> wal_extent p \<or> answered_covers content p b) \<and>
     unread_inputs (build_authority_inputs d primary) = []"
proof -
  let ?in = "build_authority_inputs d primary"
  let ?dec = "determine_authority ?in content"
  have dec: "ad_determinable ?dec" "\<not> ad_diverged ?dec" "ad_leader ?dec = primary"
    using assms(1) by (simp_all add: comparison_fields outcome_provable)
  have u: "unread_inputs ?in = []"
    using dec(1) by (auto simp: determine_authority_def zero_decision_def split: if_splits)
  obtain i where i: "leads_at content (readable_inputs ?in) i" "ad_leader ?dec = ai_pod (readable_inputs ?in ! i)"
    using determine_leads[OF dec(1,2) assms(2)] by blast
  let ?l = "readable_inputs ?in ! i"
  have l: "?l \<in> set (readable_inputs ?in)" using i(1) by (simp add: leads_at_def)
  have "wal_extent b \<subseteq> wal_extent ?l \<or> answered_covers content ?l b" if b: "b \<in> set (readable_inputs ?in)" for b
    using i(1) b
  proof (cases rule: leads_atE)
    case left
    then show ?thesis using resolved_covers(1)[of ?l b content] assms(3) l b by blast
  next
    case right
    then show ?thesis using resolved_covers(2)[of b ?l content] assms(3) l b by blast
  qed simp
  then show ?thesis using l i(2) dec(3) u by (intro bexI[of _ ?l]) simp_all
qed

text \<open>Remedies agree with the flags: an assessment asks for a heal exactly when its
  remedy is a reseed, and a restart is recommended only for an instance classified
  recoverable.\<close>

theorem remedy_matches_heal:
  "(ia_needs_heal (assess_instance c d cmp primary cd) \<longleftrightarrow>
     ia_remediation (assess_instance c d cmp primary cd) = ''reseed'') \<and>
   (if ia_remediation (assess_instance c d cmp primary cd) = ''restart''
    then ia_classification (assess_instance c d cmp primary cd) = ClassRecoverable else True)"
proof (cases "cd_crash_reason cd = ''pgdata_corruption''")
  case True
  then show ?thesis by (simp add: assess_corrupted)
next
  case False
  then show ?thesis
    using advice_shape[of c d "dc_safe_to_heal cmp" "inst_view_of d (dc_most_advanced cmp) primary cd"]
    by (auto simp: assess_uncorrupted[OF False refl refl] remedy_ok_def)
qed

text \<open>Without a corruption signature in its crash log, an instance is marked for a heal
  only when the comparison is safe, it is not the primary, its data was read, and it is on
  an older timeline or behind on the same one without streaming.\<close>

theorem heal_only_stale_replicas:
  assumes "ia_needs_heal (assess_instance c d cmp primary cd)" "cd_crash_reason cd \<noteq> ''pgdata_corruption''"
  shows "dc_safe_to_heal cmp \<and> cd_pod cd \<noteq> primary \<and> cd_source cd \<noteq> ''none'' \<and>
     (parse_timeline_int (trim_space (cd_timeline cd)) < parse_timeline_int (cx_primary_timeline d) \<or>
      (trim_space (cd_timeline cd) = cx_primary_timeline d \<and> cd_pod cd \<notin> set (cx_streaming d) \<and>
       parse_lsn_value (trim_space (cd_checkpoint cd)) <
         parse_lsn_value (trim_space (cd_checkpoint (cx_primary_control d)))))"
  using advice_heal_cases[of c d "dc_safe_to_heal cmp" "inst_view_of d (dc_most_advanced cmp) primary cd"] assms
  unfolding assess_uncorrupted(1)[OF assms(2) refl refl] by (auto simp: inst_view_of_def Let_def)

text \<open>Classification fails closed: an instance is disposable only when its data was read,
  the comparison is safe, it is neither the primary nor the authority, and it is behind or
  stranded; and an unread or unsafe instance is never anything but unknown.\<close>

theorem classification_fails_closed:
  "(classify_instance ip ia dat safe btl stl str = ClassDisposable \<longleftrightarrow>
     dat \<and> safe \<and> \<not> ip \<and> \<not> ia \<and> (btl \<or> str)) \<and>
   (classify_instance ip ia dat safe btl stl str = ClassUnknown \<longleftrightarrow>
     \<not> (dat \<and> safe) \<or> (\<not> ip \<and> \<not> ia \<and> \<not> btl \<and> \<not> str \<and> \<not> stl)) \<and>
   (classify_instance ip ia dat safe btl stl str = ClassAuthoritative \<longleftrightarrow> dat \<and> safe \<and> (ip \<or> ia))"
  by (auto simp: classify_instance_def)

text \<open>The recovery projection: it reports a deadlock only when the comparison is safe, the
  authority is not running and a disposable instance is on a full disk; everything it may
  clear is classified disposable; and the set to be made reversible contains every such
  instance, and the authority too when it is down.\<close>

theorem recovery_projection:
  "case derive_recovery as cmp primary phase running of
     None \<Rightarrow> dc_safe_to_heal cmp \<and> \<not> list_ex (\<lambda>a. ia_classification a = ClassDisposable) as
   | Some r \<Rightarrow>
       set (rec_disposable r) \<subseteq> {ia_pod a | a. a \<in> set as \<and> ia_classification a = ClassDisposable} \<and>
       set (rec_disposable r) \<subseteq> set (rec_set r) \<and>
       (rec_disposable r = [] \<or> running \<or> primary \<in> set (rec_set r)) \<and>
       (if rec_blocked r then dc_safe_to_heal cmp \<and> \<not> running \<and> rec_authority r = primary \<and>
          list_ex (\<lambda>a. ia_classification a = ClassDisposable \<and> list_ex (\<lambda>n. str_contains n ''disk full'') (ia_notes a)) as
        else True)"
  by (auto simp: derive_recovery_def Let_def zero_recovery_def list_ex_iff filter_empty_conv)

text \<open>A suggested volume size is a whole number of gibibytes larger than the current
  volume, or zero when no suggestion can be made.\<close>

theorem expansion_grows_volume:
  "case suggest_expansion (Some ds) target of
     (nb, factor) \<Rightarrow> nb = 0 \<or> (nb mod gib = 0 \<and> nb > ds_total ds \<and> 0 < target \<and> target < 100)"
proof -
  have "ds_total ds < (ds_total ds div gib + 1) * gib"
    by (simp add: gib_def)
  then show ?thesis
    by (auto simp: suggest_expansion_def Let_def split: if_splits)
qed

text \<open>The corruption override takes precedence over every other signal: even the primary,
  even on an unsafe comparison, is classified disposable and marked for a reseed once its
  crash log shows a corruption signature.\<close>

theorem corruption_overrides_authority:
  assumes "cd_crash_reason cd = ''pgdata_corruption''"
  shows "ia_needs_heal (assess_instance c d cmp primary cd) \<and>
     ia_classification (assess_instance c d cmp primary cd) = ClassDisposable"
  using assess_corrupted[OF assms] by simp

section \<open>Witnesses\<close>

text \<open>Two instances; \<open>pg-1\<close> is the ready primary, \<open>pg-2\<close> runs and is behind without a
  replication slot.  The fields of the environment that an example changes follow.\<close>

definition demo_control_text :: "string \<Rightarrow> string" where
  "demo_control_text lsn = ''Latest checkpoint location: '' @ lsn @ [NL]
     @ ''Latest checkpoint'' @ quote @ ''s TimeLineID: 1'' @ [NL]"

definition demo_env :: cnpg_env where
  "demo_env = \<lparr> ce_cluster = ''pg'', ce_namespace = ''db'', ce_instance_names = [Some ''pg-1'', Some ''pg-2''],
     ce_instances = 2, ce_current_primary = ''pg-1'', ce_ready_instances = 1, ce_phase = ''ok'', ce_expand_target = 60,
     ce_pods = Ok [\<lparr> p_name = ''pg-1'', p_phase = ''Running'', p_ready = True, p_node = ''n1'' \<rparr>,
                   \<lparr> p_name = ''pg-2'', p_phase = ''Running'', p_ready = True, p_node = ''n2'' \<rparr>],
     ce_pvc = (\<lambda>n. PvcFound ''Bound'' None), ce_log = (\<lambda>n. Err ''''),
     ce_control = (\<lambda>n. Ok (demo_control_text (if n = ''pg-1'' then ''0/5000'' else ''0/4000''))),
     ce_history = (\<lambda>n. Ok ''''), ce_probe = (\<lambda>n. ProbeNotCreated), ce_isready = (\<lambda>n. Err ''''),
     ce_deep = (\<lambda>n. DeepFailed), ce_replication = Ok '''', ce_slots = Ok '''', ce_activity_db = Err '''',
     ce_activity = (\<lambda>n. Err ''''), ce_disk = (\<lambda>n. Err '''') \<rparr>"

definition demo_env_blind :: cnpg_env where
  "demo_env_blind = demo_env\<lparr> ce_pvc := (\<lambda>n. if n = ''pg-2'' then PvcError else PvcFound ''Bound'' None),
     ce_control := (\<lambda>n. if n = ''pg-1'' then Ok (demo_control_text ''0/5000'') else Err ''timeout'') \<rparr>"

definition the_data :: "(string, cnpg_data) result \<Rightarrow> cnpg_data" where
  "the_data r = (case r of Inr d \<Rightarrow> d | Inl _ \<Rightarrow> undefined)"

lemma the_data_ok: "is_ok r \<Longrightarrow> r = Ok (the_data r)"
  by (cases r) (simp_all add: the_data_def)

lemma demo_collect: "triage_collect demo_env = Ok (the_data (triage_collect demo_env))"
  by (rule the_data_ok) code_simp

lemma demo_collect_blind: "triage_collect demo_env_blind = Ok (the_data (triage_collect demo_env_blind))"
  by (rule the_data_ok) code_simp

lemma every_expected_instance_is_judged_witness:
  "\<exists>i\<in>set (build_authority_inputs (the_data (triage_collect demo_env_blind)) ''pg-1''). ai_pod i = ''pg-2''"
  by (rule every_expected_instance_is_judged[OF demo_collect_blind]) code_simp

lemma transient_failure_blocks_heal_witness:
  "\<not> dc_safe_to_heal (cnpg_comparison (the_data (triage_collect demo_env_blind)) None ''pg-1'')"
proof -
  have "list_all (\<lambda>cd. cd_pod cd = ''pg-2'' \<longrightarrow> \<not> position_read cd \<and> cd_pgdata_present cd \<noteq> ''empty'')
      (cx_control (the_data (triage_collect demo_env_blind)))" by code_simp
  moreover have "''pg-2'' \<in> set (expected_instances demo_env_blind)" "ce_pvc demo_env_blind ''pg-2'' = PvcError"
    by code_simp+
  ultimately show ?thesis
    using transient_failure_blocks_heal[OF demo_collect_blind, of "''pg-2''"] by (simp add: list_all_iff)
qed

lemma safe_means_primary_holds_all_witness:
  "\<exists>p\<in>set (readable_inputs (build_authority_inputs (the_data (triage_collect demo_env)) ''pg-1'')). ai_pod p = ''pg-1'' \<and>
     (\<forall>b\<in>set (readable_inputs (build_authority_inputs (the_data (triage_collect demo_env)) ''pg-1'')). wal_extent b \<subseteq> wal_extent p)"
proof -
  have "dc_safe_to_heal (cnpg_comparison (the_data (triage_collect demo_env)) None ''pg-1'')" by code_simp
  moreover have "readable_inputs (build_authority_inputs (the_data (triage_collect demo_env)) ''pg-1'') \<noteq> []" by code_simp
  moreover have "list_all wf_lineage (readable_inputs (build_authority_inputs (the_data (triage_collect demo_env)) ''pg-1''))"
    by code_simp
  ultimately show ?thesis
    using safe_means_primary_holds_all[of "the_data (triage_collect demo_env)" None "''pg-1''"]
    by (auto simp: list_all_iff answered_covers_def)
qed

definition demo_conf :: triage_conf where
  "demo_conf = \<lparr> tc_cluster = ''pg'', tc_namespace = ''db'', tc_expand = 60 \<rparr>"

definition demo_stale :: control_data where "demo_stale = last (cx_control (the_data (triage_collect demo_env)))"

lemma heal_only_stale_replicas_witness:
  "cd_pod demo_stale \<noteq> ''pg-1'' \<and> cd_source demo_stale \<noteq> ''none''"
proof -
  have "ia_needs_heal (assess_instance demo_conf (the_data (triage_collect demo_env))
      (cnpg_comparison (the_data (triage_collect demo_env)) None ''pg-1'') ''pg-1'' demo_stale)" by code_simp
  moreover have "cd_crash_reason demo_stale \<noteq> ''pgdata_corruption''" by code_simp
  ultimately show ?thesis using heal_only_stale_replicas by blast
qed

lemma corruption_overrides_authority_witness:
  "ia_needs_heal (assess_instance demo_conf (the_data (triage_collect demo_env))
      (cnpg_comparison (the_data (triage_collect demo_env)) None ''pg-1'') ''pg-1''
      ((unknown_control ''pg-1'' ''pvc_probe'')\<lparr> cd_crash_reason := ''pgdata_corruption'' \<rparr>))"
  by (rule conjunct1[OF corruption_overrides_authority]) simp

end
