(* ===== verification/Galera_Data.thy ===== *)
theory Galera_Data
  imports Cnpg_Data Triage_Verdict
begin

text \<open>
  Galera positions: the parsers of \<open>grastate.dat\<close>, the wsrep status, the server log and
  the output of \<open>mariadbd --wsrep-recover\<close> (\<open>src/engine/triage/galera.go\<close>,
  \<open>src/engine/provider/galera_ops.go\<close>), the ranking of a node's candidate positions, and
  the collected data.  Go maps are association lists in their iteration order.
\<close>

section \<open>Data\<close>

record grastate =
  gs_pod :: string
  gs_source :: string
  gs_reachable :: bool
  gs_uuid :: string
  gs_seqno :: string
  gs_safe :: string

record wsrep_status =
  ws_local_state :: int
  ws_state_comment :: string
  ws_cluster_status :: string
  ws_cluster_size :: string
  ws_connected :: string
  ws_ready :: string
  ws_cluster_uuid :: string
  ws_last_committed :: int
  ws_flow_paused :: string
  ws_unread :: bool

record effective_seqno =
  es_value :: int
  es_source :: string
  es_known :: bool

record wsrep_recover_result =
  wr_uuid :: string
  wr_seqno :: int
  wr_last_committed :: int
  wr_valid :: bool

record galera_data =
  gd_expected :: "string list"
  gd_running :: "pod list"
  gd_nonrunning :: "pod list"
  gd_missing :: "string list"
  gd_crashloop :: "pod list"
  gd_grastate :: "grastate list"
  gd_wsrep :: "(string \<times> wsrep_status) list"
  gd_log_recovered :: "(string \<times> int) list"
  gd_log_uuid :: "(string \<times> string) list"
  gd_wsrep_recovered :: "(string \<times> wsrep_recover_result) list"
  gd_effective :: "(string \<times> effective_seqno) list"
  gd_disk :: "(string \<times> int) list"
  gd_crash_reasons :: "(string \<times> string) list"
  gd_all_down :: bool
  gd_any_ready :: bool
  gd_primary_members :: "string list"
  gd_recovery_uuids :: "string list"
  gd_best_node :: string
  gd_best_value :: int

definition zero_uuid :: string where "zero_uuid = ''00000000-0000-0000-0000-000000000000''"
definition max_phantom_seqno :: int where "max_phantom_seqno = 1000000000000"

section \<open>Parsers\<close>

definition parse_int_or :: "string \<Rightarrow> int \<Rightarrow> int" where
  "parse_int_or s fallback = (case parse_int64 10 (trim_space s) of Inl _ \<Rightarrow> fallback | Inr n \<Rightarrow> n)"

definition grastate_line :: "string \<Rightarrow> grastate \<Rightarrow> grastate" where
  "grastate_line raw g =
     (let line = trim_space raw in
      if has_prefix line ''uuid:'' then g\<lparr> gs_uuid := after_colon line \<rparr>
      else if has_prefix line ''seqno:'' then g\<lparr> gs_seqno := after_colon line \<rparr>
      else if has_prefix line ''safe_to_bootstrap:'' then g\<lparr> gs_safe := after_colon line \<rparr>
      else g)"

definition blank_grastate :: "string \<Rightarrow> string \<Rightarrow> grastate" where
  "blank_grastate pname src = \<lparr> gs_pod = pname, gs_source = src, gs_reachable = False, gs_uuid = unknown,
     gs_seqno = ''-1'', gs_safe = ''0'' \<rparr>"

definition parse_grastate :: "string \<Rightarrow> string \<Rightarrow> string \<Rightarrow> grastate" where
  "parse_grastate pname src raw = fold grastate_line (split_lines raw) (blank_grastate pname src)"

definition unread_wsrep :: wsrep_status where
  "unread_wsrep = \<lparr> ws_local_state = 0, ws_state_comment = '''', ws_cluster_status = '''', ws_cluster_size = '''',
     ws_connected = '''', ws_ready = '''', ws_cluster_uuid = '''', ws_last_committed = -1, ws_flow_paused = '''',
     ws_unread = True \<rparr>"

definition parse_wsrep_status :: "(string \<times> string) list \<Rightarrow> wsrep_status" where
  "parse_wsrep_status m =
     \<lparr> ws_local_state = (case map_of m ''wsrep_local_state'' of None \<Rightarrow> 0 | Some v \<Rightarrow> atoi_lossy v),
       ws_state_comment = map_get '''' m ''wsrep_local_state_comment'',
       ws_cluster_status = map_get '''' m ''wsrep_cluster_status'',
       ws_cluster_size = map_get '''' m ''wsrep_cluster_size'',
       ws_connected = map_get '''' m ''wsrep_connected'',
       ws_ready = map_get '''' m ''wsrep_ready'',
       ws_cluster_uuid = map_get '''' m ''wsrep_cluster_state_uuid'',
       ws_last_committed = (case map_of m ''wsrep_last_committed'' of None \<Rightarrow> -1 | Some v \<Rightarrow> atoi_lossy v),
       ws_flow_paused = map_get '''' m ''wsrep_flow_control_paused'',
       ws_unread = False \<rparr>"

text \<open>\<open>QueryWsrep\<close>: the tab-separated rows as a map with lowercased names.\<close>

fun wsrep_rows :: "string list \<Rightarrow> (string \<times> string) list \<Rightarrow> (string \<times> string) list" where
  "wsrep_rows [] m = m"
| "wsrep_rows (l # ls) m =
     (case split_n2 TAB (trim_space l) of
        [k, v] \<Rightarrow> wsrep_rows ls (map_set (to_lower (trim_space k)) (trim_space v) m)
      | _ \<Rightarrow> wsrep_rows ls m)"

definition query_wsrep :: "(string, string) result \<Rightarrow> (string, (string \<times> string) list) result" where
  "query_wsrep res = (case res of Inl e \<Rightarrow> Err e | Inr out \<Rightarrow> Ok (wsrep_rows (split_lines out) []))"

definition parse_disk_percent :: "string \<Rightarrow> int" where
  "parse_disk_percent df =
     (let ls = split_lines (trim_space df) in
      if length ls < 2 then -1
      else (case str_fields (last ls) of
              _ # _ # _ # _ # f4 # _ \<Rightarrow>
                (case parse_int64 10 (trim_suffix f4 ''%'') of Inl _ \<Rightarrow> -1 | Inr n \<Rightarrow> n)
            | _ \<Rightarrow> -1))"

text \<open>\<open>strings.LastIndex\<close> of one byte: the text before and after it.\<close>

definition split_last :: "char \<Rightarrow> string \<Rightarrow> (string \<times> string) option" where
  "split_last c s =
     (if c \<in> set s
      then Some (rev (tl (dropWhile (\<lambda>x. x \<noteq> c) (rev s))), rev (takeWhile (\<lambda>x. x \<noteq> c) (rev s)))
      else None)"

definition after_marker :: "string \<Rightarrow> string \<Rightarrow> string option" where
  "after_marker line marker =
     (case str_index line marker of
        None \<Rightarrow> None
      | Some i \<Rightarrow> Some (trim_space (drop (i + length marker) line)))"

text \<open>One log line: an explicit recovered position, else the GCache upper bound.\<close>

definition log_line :: "string \<Rightarrow> int \<times> string \<Rightarrow> int \<times> string" where
  "log_line line acc =
     (case acc of (seqno, uuid) \<Rightarrow>
        (case after_marker line ''Recovered position:'' of
           Some rest \<Rightarrow>
             (case split_last (CHR '':'') rest of
                Some (before, after) \<Rightarrow>
                  if before = '''' then acc
                  else (case str_fields after of
                          [] \<Rightarrow> acc
                        | f # _ \<Rightarrow> (let s = parse_int_or f (-1) in
                                     if s > seqno then (s, trim_space before) else acc))
              | None \<Rightarrow> acc)
         | None \<Rightarrow>
             (case after_marker line ''found gapless sequence'' of
                Some rest \<Rightarrow>
                  (case split_last (CHR ''-'') rest of
                     Some (before, after) \<Rightarrow>
                       if before = '''' then acc
                       else (case str_fields after of
                               [] \<Rightarrow> acc
                             | f # _ \<Rightarrow> (let y = parse_int_or f (-1) in
                                          if y > seqno then (y, uuid) else acc))
                   | None \<Rightarrow> acc)
              | None \<Rightarrow> acc)))"

definition parse_recovered_log :: "string \<Rightarrow> int \<times> string" where
  "parse_recovered_log log = fold log_line (split_lines log) (-1, '''')"

section \<open>The recover output\<close>

definition re_space :: "char \<Rightarrow> bool" where
  "re_space c \<longleftrightarrow> c = CHR '' '' \<or> c = CHR 0x09 \<or> c = CHR 0x0A \<or> c = CHR 0x0C \<or> c = CHR 0x0D"

definition is_digit :: "char \<Rightarrow> bool" where
  "is_digit c \<longleftrightarrow> 48 \<le> byte_of c \<and> byte_of c \<le> 57"

definition is_hex_dash :: "char \<Rightarrow> bool" where
  "is_hex_dash c \<longleftrightarrow> is_digit c \<or> (97 \<le> byte_of c \<and> byte_of c \<le> 102) \<or> (65 \<le> byte_of c \<and> byte_of c \<le> 70) \<or> c = CHR ''-''"

text \<open>The match of the position pattern at the start of a suffix.\<close>

definition position_here :: "string \<Rightarrow> (string \<times> string) option" where
  "position_here s =
     (if has_prefix s ''Recovered position:'' then
        (let t = dropWhile re_space (drop (length ''Recovered position:'') s);
             u = takeWhile is_hex_dash t; r = dropWhile is_hex_dash t in
         if u = '''' then None
         else (case r of
                 c # r' \<Rightarrow>
                   (let q = takeWhile (\<lambda>x. is_digit x \<or> x = CHR ''-'') r' in
                    if c = CHR '':'' \<and> q \<noteq> '''' then Some (u, q) else None)
               | [] \<Rightarrow> None))
      else None)"

fun find_position :: "string \<Rightarrow> (string \<times> string) option" where
  "find_position [] = position_here []"
| "find_position (c # cs) = (case position_here (c # cs) of Some m \<Rightarrow> Some m | None \<Rightarrow> find_position cs)"

definition commit_here :: "string \<Rightarrow> string option" where
  "commit_here s =
     (if has_prefix s ''Last committed:'' then
        (let q = takeWhile is_digit (dropWhile re_space (drop (length ''Last committed:'') s)) in
         if q = '''' then None else Some q)
      else None)"

fun find_commit :: "string \<Rightarrow> string option" where
  "find_commit [] = commit_here []"
| "find_commit (c # cs) = (case commit_here (c # cs) of Some m \<Rightarrow> Some m | None \<Rightarrow> find_commit cs)"

datatype recover_error = NoPosition | BadSeqno string | RecoveredZeroUuid | PhantomSeqno int

definition parse_wsrep_recover :: "string \<Rightarrow> (recover_error, wsrep_recover_result) result" where
  "parse_wsrep_recover out =
     (case find_position out of
        None \<Rightarrow> Err NoPosition
      | Some (u, q) \<Rightarrow>
          (case parse_int64 10 q of
             Inl _ \<Rightarrow> Err (BadSeqno q)
           | Inr seqno \<Rightarrow>
               (let lc = (case find_commit out of
                            None \<Rightarrow> seqno
                          | Some d \<Rightarrow> (case parse_int64 10 d of Inr n \<Rightarrow> n | Inl _ \<Rightarrow> seqno)) in
                if u = zero_uuid then Err RecoveredZeroUuid
                else if seqno < 0 \<or> seqno > max_phantom_seqno then Err (PhantomSeqno seqno)
                else Ok \<lparr> wr_uuid = u, wr_seqno = seqno, wr_last_committed = lc, wr_valid = True \<rparr>)))"

section \<open>A node's effective position\<close>

definition best_candidate :: "(int \<times> string) list \<Rightarrow> int \<times> string \<Rightarrow> int \<times> string" where
  "best_candidate cs acc = fold (\<lambda>(v, src) (best, s). if v > 0 \<and> v > best then (v, src) else (best, s)) cs acc"

definition derive_effective_seqno :: "int \<Rightarrow> int \<Rightarrow> int \<Rightarrow> int \<Rightarrow> int \<Rightarrow> int \<Rightarrow> effective_seqno" where
  "derive_effective_seqno ws_committed cr_rec cr_state grastate log_seqno rec_seqno =
     (let auth = [(rec_seqno, ''wsrep_recover''), (ws_committed, ''wsrep_last_committed''), (grastate, ''grastate'')];
          hints = [(log_seqno, ''log_gcache_estimate''), (cr_rec, ''cr_recovered''), (cr_state, ''cr_state'')];
          (best, src) = best_candidate auth (-1, ''none'');
          known = list_ex (\<lambda>(v, _). v > 0) auth;
          (val, source) = (if known then (best, src) else best_candidate hints (best, src))
      in \<lparr> es_value = val, es_source = source, es_known = known \<rparr>)"

section \<open>The operator's recovery snapshot\<close>

datatype json_scalar = JInt int | JStr string

datatype recovery_entry = NotAnObject | RecoveryEntry "json_scalar option" "json_scalar option"

definition json_str :: "json_scalar \<Rightarrow> string" where
  "json_str j = (case j of JInt n \<Rightarrow> dec_str n | JStr s \<Rightarrow> s)"

definition recovery_uuids_of :: "(string \<times> recovery_entry) list \<Rightarrow> string list" where
  "recovery_uuids_of m =
     concat (map (\<lambda>(_, e). case e of
        RecoveryEntry (Some u) _ \<Rightarrow>
          (let s = trim_space (json_str u) in if s \<noteq> '''' \<and> s \<noteq> zero_uuid then [s] else [])
      | _ \<Rightarrow> []) m)"

definition recovery_seqno_of :: "(string \<times> recovery_entry) list \<Rightarrow> string \<Rightarrow> int" where
  "recovery_seqno_of m p =
     (case map_of m p of
        Some (RecoveryEntry _ (Some q)) \<Rightarrow> parse_int_or (json_str q) (-1)
      | _ \<Rightarrow> -1)"

definition grastate_seqno_for :: "grastate list \<Rightarrow> string \<Rightarrow> int" where
  "grastate_seqno_for gs p =
     (case find_first (\<lambda>g. gs_pod g = p) gs of None \<Rightarrow> -1 | Some g \<Rightarrow> parse_int_or (gs_seqno g) (-1))"

definition grastate_uuid_for :: "grastate list \<Rightarrow> string \<Rightarrow> string" where
  "grastate_uuid_for gs p =
     (case find_first (\<lambda>g. gs_pod g = p) gs of None \<Rightarrow> '''' | Some g \<Rightarrow> gs_uuid g)"

end
