(* ===== verification/Galera_Collect.thy ===== *)
theory Galera_Collect
  imports Galera_Data
begin

text \<open>
  Galera collection (\<open>triageCollect\<close> of \<open>src/engine/triage/galera.go\<close>) as a function of the
  cluster's answers, with the fenced deep recovery as an explicit sequence of actions.
  An answer that the code asks for repeatedly takes the attempt number.
\<close>

section \<open>The cluster's answers\<close>

datatype get_answer = GetFound | GetNotFound | GetError

record galera_env =
  ge_cluster :: string
  ge_namespace :: string
  ge_replicas :: int
  ge_suspended :: bool
  ge_galera_condition :: string
  ge_pods :: "(string, pod list) result"
  ge_storage :: "string \<Rightarrow> nat \<Rightarrow> get_answer"
  ge_grastate :: "string \<Rightarrow> (string, string) result"
  ge_probe :: "string \<Rightarrow> (string, string) result"
  ge_wsrep :: "string \<Rightarrow> nat \<Rightarrow> (string, string) result"
  ge_log :: "string \<Rightarrow> (string, string) result"
  ge_root_password :: string
  ge_select1 :: "string \<Rightarrow> (string, string) result"
  ge_lock :: "(string, bool) result"
  ge_lock_written :: bool
  ge_lock_time :: int
  ge_suspend :: outcome
  ge_scale_down :: outcome
  ge_terminated :: bool
  ge_scale_up :: outcome
  ge_resume :: outcome
  ge_clear :: outcome
  ge_recover :: "string \<Rightarrow> (string, string) result"
  ge_recovered :: "(string \<times> recovery_entry) list"
  ge_state :: "(string \<times> recovery_entry) list"
  ge_df :: "string \<Rightarrow> (string, string) result"

section \<open>Nodes and claims\<close>

definition galera_expected :: "galera_env \<Rightarrow> string list" where
  "galera_expected e = map (\<lambda>i. ge_cluster e @ ''-'' @ dec_str i) [0..ge_replicas e - 1]"

text \<open>Up to three attempts; a NotFound is final, an error after the last is unknown.\<close>

fun pvc_get_state :: "(nat \<Rightarrow> get_answer) \<Rightarrow> nat \<Rightarrow> nat \<Rightarrow> string" where
  "pvc_get_state ans attempt 0 = ''UNKNOWN''"
| "pvc_get_state ans attempt (Suc left) =
     (case ans attempt of
        GetFound \<Rightarrow> ''Bound''
      | GetNotFound \<Rightarrow> ''MISSING''
      | GetError \<Rightarrow> pvc_get_state ans (Suc attempt) left)"

definition storage_state :: "galera_env \<Rightarrow> string \<Rightarrow> string" where
  "storage_state e n = pvc_get_state (ge_storage e n) 1 3"

definition galera_crashloop :: "pod list \<Rightarrow> pod list" where
  "galera_crashloop running = filter (\<lambda>p. \<not> p_ready p) running"

section \<open>Positions on disk\<close>

definition live_grastate :: "galera_env \<Rightarrow> pod list \<Rightarrow> grastate list" where
  "live_grastate e running =
     concat (map (\<lambda>p. case ge_grastate e (p_name p) of
                        Inl _ \<Rightarrow> []
                      | Inr out \<Rightarrow> [(parse_grastate (p_name p) ''exec'' out)\<lparr> gs_reachable := True \<rparr>])
       (filter p_ready running))"

definition crashloop_grastate :: "galera_env \<Rightarrow> pod list \<Rightarrow> grastate list" where
  "crashloop_grastate e running =
     concat (map (\<lambda>p. case ge_grastate e (p_name p) of
                        Inl _ \<Rightarrow> []
                      | Inr out \<Rightarrow> [parse_grastate (p_name p) ''exec_crashloop'' out]) (galera_crashloop running))"

definition probe_grastate :: "galera_env \<Rightarrow> string list \<Rightarrow> grastate list" where
  "probe_grastate e targets =
     concat (map (\<lambda>n. case ge_probe e n of
                        Inl _ \<Rightarrow> []
                      | Inr logs \<Rightarrow> if logs = '''' then [] else [parse_grastate n ''pvc_probe'' logs]) targets)"

definition collect_grastate :: "galera_env \<Rightarrow> string list \<Rightarrow> pod list \<Rightarrow> grastate list" where
  "collect_grastate e expected running =
     (let execd = live_grastate e running @ crashloop_grastate e running;
          probed = probe_grastate e (filter (\<lambda>n. n \<notin> set (map gs_pod execd) \<and> storage_state e n = ''Bound'') expected);
          known = execd @ probed
      in known @ map (\<lambda>n. blank_grastate n ''none'') (filter (\<lambda>n. n \<notin> set (map gs_pod known)) expected))"

section \<open>Live status and log scrapes\<close>

fun query_with_retry :: "(nat \<Rightarrow> (string, string) result) \<Rightarrow> nat \<Rightarrow> nat \<Rightarrow> (string \<times> string) list option" where
  "query_with_retry ans attempt 0 = None"
| "query_with_retry ans attempt (Suc left) =
     (case query_wsrep (ans attempt) of
        Inr m \<Rightarrow> if m \<noteq> [] then Some m else query_with_retry ans (Suc attempt) left
      | Inl _ \<Rightarrow> query_with_retry ans (Suc attempt) left)"

definition wsrep_of :: "galera_env \<Rightarrow> string \<Rightarrow> wsrep_status" where
  "wsrep_of e p = (case query_with_retry (ge_wsrep e p) 1 3 of None \<Rightarrow> unread_wsrep | Some m \<Rightarrow> parse_wsrep_status m)"

definition collect_wsrep :: "galera_env \<Rightarrow> pod list \<Rightarrow> (string \<times> wsrep_status) list" where
  "collect_wsrep e running = map (\<lambda>p. (p_name p, wsrep_of e (p_name p))) (filter p_ready running)"

definition scrape_position :: "galera_env \<Rightarrow> string \<Rightarrow> int \<times> string" where
  "scrape_position e p =
     (case ge_log e p of Inl _ \<Rightarrow> (-1, '''') | Inr log \<Rightarrow> if log = '''' then (-1, '''') else parse_recovered_log log)"

definition scrape_targets :: "pod list \<Rightarrow> (string \<times> wsrep_status) list \<Rightarrow> grastate list \<Rightarrow> string list" where
  "scrape_targets running wsrep gs =
     filter (\<lambda>p. (case map_of wsrep p of Some ws \<Rightarrow> ws_last_committed ws < 0 | None \<Rightarrow> True)
                 \<and> grastate_seqno_for gs p < 0) (map p_name (filter p_ready running))"

definition collect_scrapes :: "galera_env \<Rightarrow> string list \<Rightarrow> (string \<times> int \<times> string) list" where
  "collect_scrapes e targets =
     filter (\<lambda>(_, s, _). s \<ge> 0) (map (\<lambda>p. (p, scrape_position e p)) targets)"

definition galera_crash_reasons :: "galera_env \<Rightarrow> pod list \<Rightarrow> (string \<times> string) list" where
  "galera_crash_reasons e crashloop =
     concat (map (\<lambda>p. case ge_log e (p_name p) of
        Inl _ \<Rightarrow> []
      | Inr log \<Rightarrow> if str_contains log ''No space left on device'' \<or> str_contains log ''Disk is full''
                      \<or> str_contains log ''disk full'' then [(p_name p, ''disk_full'')] else []) crashloop)"

section \<open>Fenced deep recovery\<close>

text \<open>What the escalation does to the cluster, in order.\<close>

datatype galera_action =
    AcquireLock | SuspendCR | DeleteRecoveryPods | ScaleDown | ScaleUp int | WaitTerminated
  | WsrepRecover string | ResumeCR | ClearLock

definition galera_alive :: "pod list \<Rightarrow> (string \<times> wsrep_status) list \<Rightarrow> string list \<Rightarrow> bool" where
  "galera_alive running wsrep members =
     (if members \<noteq> [] then True
      else if list_ex p_ready running then True
      else list_ex (\<lambda>(_, ws). ws_cluster_status ws = ''Primary'' \<or> ws_local_state ws \<ge> 1) wsrep)"

definition galera_serving :: "galera_env \<Rightarrow> pod list \<Rightarrow> bool" where
  "galera_serving e running =
     (if ge_root_password e = '''' then True
      else list_ex (\<lambda>p. case ge_select1 e (p_name p) of Inl _ \<Rightarrow> False | Inr out \<Rightarrow> trim_space out = ''1'') running)"

definition recover_nodes :: "galera_env \<Rightarrow> string list \<Rightarrow> (string \<times> wsrep_recover_result) list" where
  "recover_nodes e nodes =
     concat (map (\<lambda>n. case ge_recover e n of
        Inl _ \<Rightarrow> []
      | Inr out \<Rightarrow> (case parse_wsrep_recover out of Inl _ \<Rightarrow> [] | Inr r \<Rightarrow> [(n, r)])) nodes)"

text \<open>The deferred calls run in reverse order of their registration on every return after it, and their errors are
  logged or ignored.  A step that was refused and a step whose answer was lost look the same.\<close>

definition deep_recover :: "galera_env \<Rightarrow> string list \<Rightarrow> (string \<times> wsrep_recover_result) list \<times> galera_action list" where
  "deep_recover e nodes =
     (case ge_lock e of
        Inl _ \<Rightarrow> ([], [AcquireLock])
      | Inr False \<Rightarrow> ([], [AcquireLock])
      | Inr True \<Rightarrow>
          if ge_suspend e \<noteq> Applied then ([], [AcquireLock, SuspendCR, ClearLock])
          else if ge_scale_down e \<noteq> Applied
          then ([], [AcquireLock, SuspendCR, DeleteRecoveryPods, ScaleDown, ResumeCR, ClearLock])
          else if \<not> ge_terminated e
          then ([], [AcquireLock, SuspendCR, DeleteRecoveryPods, ScaleDown, WaitTerminated,
                     ScaleUp (ge_replicas e), ResumeCR, ClearLock])
          else (recover_nodes e nodes,
                [AcquireLock, SuspendCR, DeleteRecoveryPods, ScaleDown, WaitTerminated]
                @ map WsrepRecover nodes
                @ [DeleteRecoveryPods, ScaleUp (ge_replicas e), ResumeCR, ClearLock]))"

definition galera_maybe_deep_recover ::
  "galera_env \<Rightarrow> pod list \<Rightarrow> (string \<times> wsrep_status) list \<Rightarrow> grastate list
     \<Rightarrow> (string \<times> wsrep_recover_result) list \<times> galera_action list" where
  "galera_maybe_deep_recover e running wsrep gs =
     (if galera_alive running wsrep [] then ([], [])
      else if gs = [] then ([], [])
      else if galera_serving e running then ([], [])
      else deep_recover e (map gs_pod gs))"

section \<open>Effective positions\<close>

definition effective_of ::
  "galera_env \<Rightarrow> (string \<times> wsrep_status) list \<Rightarrow> (string \<times> int) list \<Rightarrow> (string \<times> wsrep_recover_result) list
     \<Rightarrow> grastate \<Rightarrow> effective_seqno" where
  "effective_of e wsrep logs recs g =
     derive_effective_seqno
       (case map_of wsrep (gs_pod g) of None \<Rightarrow> -1 | Some ws \<Rightarrow> ws_last_committed ws)
       (recovery_seqno_of (ge_recovered e) (gs_pod g))
       (recovery_seqno_of (ge_state e) (gs_pod g))
       (parse_int_or (gs_seqno g) (-1))
       (map_get (-1) logs (gs_pod g))
       (case map_of recs (gs_pod g) of Some r \<Rightarrow> if wr_valid r then wr_seqno r else -1 | None \<Rightarrow> -1)"

definition best_known :: "(string \<times> effective_seqno) list \<Rightarrow> string \<times> int" where
  "best_known es = fold (\<lambda>(p, s) (n, v). if es_known s \<and> es_value s > v then (p, es_value s) else (n, v)) es ('''', -2)"

section \<open>The whole collection\<close>

datatype collect_error = ListPods string | UnknownStorage "string list" | MissingStorage "string list"

definition galera_collect :: "galera_env \<Rightarrow> (collect_error, galera_data) result" where
  "galera_collect e =
     (case ge_pods e of
        Inl err \<Rightarrow> Err (ListPods err)
      | Inr pods \<Rightarrow>
          (let expected = galera_expected e;
               running = filter (\<lambda>p. p_phase p = ''Running'') pods;
               unk = filter (\<lambda>n. storage_state e n = ''UNKNOWN'') expected;
               mis = filter (\<lambda>n. storage_state e n = ''MISSING'') expected in
           if unk \<noteq> [] then Err (UnknownStorage unk)
           else if mis \<noteq> [] then Err (MissingStorage mis)
           else
             (let crash = galera_crashloop running;
                  gs = collect_grastate e expected running;
                  wsrep = collect_wsrep e running;
                  scrapes = collect_scrapes e (scrape_targets running wsrep gs);
                  logs = map (\<lambda>(p, s, _). (p, s)) scrapes;
                  uuids = concat (map (\<lambda>(p, _, u). if u \<noteq> '''' then [(p, u)] else []) scrapes);
                  (recs, acts) = galera_maybe_deep_recover e running wsrep gs;
                  es = map (\<lambda>g. (gs_pod g, effective_of e wsrep logs recs g)) gs;
                  (best, bval) = best_known es
              in Ok \<lparr> gd_expected = expected, gd_running = running,
                      gd_nonrunning = filter (\<lambda>p. p_phase p \<noteq> ''Running'') pods,
                      gd_missing = filter (\<lambda>n. n \<notin> set (map p_name pods)) expected,
                      gd_crashloop = crash, gd_grastate = gs, gd_wsrep = wsrep,
                      gd_log_recovered = logs, gd_log_uuid = uuids, gd_wsrep_recovered = recs,
                      gd_effective = es,
                      gd_disk = concat (map (\<lambda>p. case ge_df e (p_name p) of
                                   Inl _ \<Rightarrow> [] | Inr out \<Rightarrow> [(p_name p, parse_disk_percent out)]) running),
                      gd_crash_reasons = galera_crash_reasons e crash,
                      gd_all_down = (running = []), gd_any_ready = (list_ex p_ready running),
                      gd_primary_members = map fst (filter (\<lambda>(_, ws). ws_cluster_status ws = ''Primary'') wsrep),
                      gd_recovery_uuids = recovery_uuids_of (ge_recovered e) @ recovery_uuids_of (ge_state e),
                      gd_best_node = best, gd_best_value = bval \<rparr>)))"

end
