(* ===== verification/Galera_Triage.thy ===== *)
theory Galera_Triage
  imports Galera_Collect
begin

text \<open>
  Galera analysis (\<open>src/engine/triage/galera.go\<close>): the cross-instance comparison by
  lineage and sequence number, the per-node assessment, the recovery-deadlock diagnosis
  and the triage result.
\<close>

section \<open>Comparison\<close>

definition real_uuid :: "string \<Rightarrow> bool" where
  "real_uuid u \<longleftrightarrow> u \<noteq> '''' \<and> u \<noteq> unknown \<and> u \<noteq> zero_uuid"

definition node_canonical_uuid :: "galera_data \<Rightarrow> string \<Rightarrow> string" where
  "node_canonical_uuid d p =
     (case map_of (gd_wsrep_recovered d) p of
        Some r \<Rightarrow> if wr_valid r then wr_uuid r
                  else (case map_of (gd_wsrep d) p of
                          Some ws \<Rightarrow> if ws_cluster_uuid ws \<noteq> '''' then ws_cluster_uuid ws
                                     else grastate_uuid_for (gd_grastate d) p
                        | None \<Rightarrow> grastate_uuid_for (gd_grastate d) p)
      | None \<Rightarrow> (case map_of (gd_wsrep d) p of
                   Some ws \<Rightarrow> if ws_cluster_uuid ws \<noteq> '''' then ws_cluster_uuid ws
                              else grastate_uuid_for (gd_grastate d) p
                 | None \<Rightarrow> grastate_uuid_for (gd_grastate d) p))"

definition comparison_nodes :: "galera_data \<Rightarrow> string list" where
  "comparison_nodes d = remdups (map gs_pod (gd_grastate d) @ map fst (gd_wsrep d) @ map fst (gd_wsrep_recovered d))"

definition authoritative_uuids :: "galera_data \<Rightarrow> string list" where
  "authoritative_uuids d = remdups (filter real_uuid (map (node_canonical_uuid d) (comparison_nodes d)))"

definition lineage_uuids :: "galera_data \<Rightarrow> string list" where
  "lineage_uuids d =
     (let auth = authoritative_uuids d in
      if auth = [] then remdups (filter real_uuid (map snd (gd_log_uuid d) @ gd_recovery_uuids d)) else auth)"

definition best_primary :: "galera_data \<Rightarrow> int \<times> string" where
  "best_primary d =
     fold (\<lambda>pm (v, p). case map_of (gd_effective d) pm of
                         Some es \<Rightarrow> if es_value es > v then (es_value es, pm) else (v, p)
                       | None \<Rightarrow> (v, p)) (gd_primary_members d) (-2, '''')"

definition ahead_of_primary :: "galera_data \<Rightarrow> string list" where
  "ahead_of_primary d =
     (if gd_primary_members d = [] then []
      else (case best_primary d of
              (v, p) \<Rightarrow>
                map (\<lambda>(n, es). n @ '' has seqno '' @ dec_str (es_value es) @ '' > primary best '' @ dec_str v
                                 @ '' ('' @ p @ '')'')
                  (filter (\<lambda>(n, es). n \<notin> set (gd_primary_members d) \<and> es_known es \<and> es_value es > v \<and> es_value es > 0)
                     (gd_effective d))))"

definition non_primary_components :: "galera_data \<Rightarrow> string list" where
  "non_primary_components d =
     map (\<lambda>(n, ws). n @ '' cluster_status='' @ ws_cluster_status ws)
       (filter (\<lambda>(n, ws). ws_cluster_status ws \<noteq> '''' \<and> ws_cluster_status ws \<noteq> ''Primary'') (gd_wsrep d))"

definition divergence_evidence :: "galera_data \<Rightarrow> string list" where
  "divergence_evidence d =
     (if length (lineage_uuids d) > 1
      then [''Multiple cluster UUIDs detected: '' @ join_with '', '' (lineage_uuids d)] else [])
     @ non_primary_components d @ ahead_of_primary d"

definition quorum_uuid :: "galera_data \<Rightarrow> string" where
  "quorum_uuid d =
     (case find_first (\<lambda>p. real_uuid (node_canonical_uuid d p)) (gd_primary_members d) of
        Some p \<Rightarrow> node_canonical_uuid d p | None \<Rightarrow> '''')"

definition clean_quorum :: "galera_data \<Rightarrow> bool" where
  "clean_quorum d \<longleftrightarrow> divergence_evidence d = [] \<and> quorum_uuid d \<noteq> ''''"

definition unread_nodes :: "galera_data \<Rightarrow> string list" where
  "unread_nodes d =
     map gs_pod (filter (\<lambda>g. \<not> (case map_of (gd_effective d) (gs_pod g) of Some es \<Rightarrow> es_known es | None \<Rightarrow> False))
       (gd_grastate d))"

definition recoverable_nodes :: "galera_data \<Rightarrow> string list" where
  "recoverable_nodes d =
     filter (\<lambda>p. clean_quorum d \<and> node_canonical_uuid d p = quorum_uuid d) (unread_nodes d)"

definition blocking_nodes :: "galera_data \<Rightarrow> string list" where
  "blocking_nodes d =
     filter (\<lambda>p. \<not> (clean_quorum d \<and> node_canonical_uuid d p = quorum_uuid d)) (unread_nodes d)"

definition galera_outcome :: "galera_data \<Rightarrow> authority_outcome" where
  "galera_outcome d =
     (if blocking_nodes d \<noteq> [] then AuthorityUndeterminable
      else if divergence_evidence d \<noteq> [] then AuthorityDiverged
      else AuthorityProvable)"

definition galera_comparison :: "galera_data \<Rightarrow> data_comparison" where
  "galera_comparison d =
     (let reasons = divergence_evidence d
            @ (if blocking_nodes d \<noteq> []
               then [''UNREAD SEQNO '' @ em_dash @ '' authority undeterminable for: '' @ join_with '', '' (blocking_nodes d)
                     @ '' (fence + --wsrep-recover required before ANY bootstrap)''] else []);
          ok_msg = (if gd_primary_members d = []
            then ''WARNING: No nodes in Primary component. Most advanced: '' @ gd_best_node d
                 @ '' (seqno: '' @ dec_str (gd_best_value d) @ '')''
            else ''OK: Primary component ('' @ join_with '', '' (gd_primary_members d)
                 @ '') has the most recent data (best seqno: '' @ dec_str (fst (best_primary d)) @ '')'');
          cmp = (new_authority_comparison (galera_outcome d) (gd_best_node d) (gd_best_value d) reasons ok_msg)
                  \<lparr> dc_primary_members := gd_primary_members d, dc_best_primary_seqno := fst (best_primary d) \<rparr>
      in if recoverable_nodes d \<noteq> []
         then cmp\<lparr> dc_warnings := dc_warnings cmp
                @ [join_with '', '' (recoverable_nodes d) @ '' behind the Primary quorum on the same lineage (uuid ''
                   @ quorum_uuid d @ '') '' @ em_dash @ '' recoverable by SST, not an authority blocker''] \<rparr>
         else cmp)"

section \<open>Assessing one node\<close>

record node_view =
  nv_pod :: string
  nv_missing :: bool
  nv_crashloop :: bool
  nv_running :: bool
  nv_in_primary :: bool
  nv_has_data :: bool
  nv_ws :: "wsrep_status option"
  nv_state :: int
  nv_comment :: string
  nv_connected :: string
  nv_ready :: string
  nv_status :: string
  nv_seqno :: int
  nv_source :: string
  nv_lag :: int
  nv_disk_pct :: int
  nv_disk_full :: bool
  nv_current :: bool
  nv_best :: int

definition node_view_of :: "galera_data \<Rightarrow> data_comparison \<Rightarrow> grastate \<Rightarrow> node_view" where
  "node_view_of d cmp g =
     (let p = gs_pod g;
          crash = p \<in> set (map p_name (gd_crashloop d));
          ws = map_of (gd_wsrep d) p;
          es = map_of (gd_effective d) p;
          q = (case es of Some s \<Rightarrow> es_value s | None \<Rightarrow> -1);
          best = dc_best_primary_seqno cmp;
          lag = (if best > 0 \<and> q > 0 then best - q else -1)
      in \<lparr> nv_pod = p, nv_missing = (p \<in> set (gd_missing d)), nv_crashloop = crash,
           nv_running = (p \<in> set (map p_name (gd_running d)) \<and> \<not> crash),
           nv_in_primary = (p \<in> set (gd_primary_members d)), nv_has_data = (gs_source g \<noteq> ''none''),
           nv_ws = ws,
           nv_state = (case ws of Some w \<Rightarrow> ws_local_state w | None \<Rightarrow> 0),
           nv_comment = (case ws of Some w \<Rightarrow> ws_state_comment w | None \<Rightarrow> ''unknown''),
           nv_connected = (case ws of Some w \<Rightarrow> ws_connected w | None \<Rightarrow> ''OFF''),
           nv_ready = (case ws of Some w \<Rightarrow> ws_ready w | None \<Rightarrow> ''OFF''),
           nv_status = (case ws of Some w \<Rightarrow> ws_cluster_status w | None \<Rightarrow> ''unknown''),
           nv_seqno = q, nv_source = (case es of Some s \<Rightarrow> es_source s | None \<Rightarrow> ''none''),
           nv_lag = lag, nv_disk_pct = map_get 0 (gd_disk d) p,
           nv_disk_full = (map_get '''' (gd_crash_reasons d) p = ''disk_full''),
           nv_current = (q > 0 \<and> best > 0 \<and> lag \<le> 0), nv_best = best \<rparr>)"

type_synonym triage_conf_galera = "string \<times> string"

definition galera_heal_cmd :: "triage_conf_galera \<Rightarrow> string \<Rightarrow> string" where
  "galera_heal_cmd c p = ''hasteward repair -e galera -c '' @ fst c @ '' -n '' @ snd c
     @ '' --instance '' @ last (split_char (CHR ''-'') p) @ '' --backups-path /backups''"

record node_advice =
  na_notes :: "string list"
  na_rec :: string
  na_heal :: bool

definition node_advise :: "bool \<Rightarrow> string list \<Rightarrow> string \<Rightarrow> node_advice" where
  "node_advise heal ns r = \<lparr> na_notes = ns, na_rec = r, na_heal = heal \<rparr>"

definition gap :: string where "gap = [NL, NL] @ ''  ''"

definition seqno_note :: "node_view \<Rightarrow> string list" where
  "seqno_note v = (if nv_seqno v > 0 then [''last known seqno: '' @ dec_str (nv_seqno v)] else [])"

definition node_unsafe :: "triage_conf_galera \<Rightarrow> authority_outcome \<Rightarrow> node_view \<Rightarrow> node_advice" where
  "node_unsafe c out v =
     (if \<not> nv_in_primary v \<and> nv_seqno v > nv_best v \<and> nv_seqno v > 0 then
        node_advise False [''AHEAD OF PRIMARY COMPONENT (seqno '' @ dec_str (nv_seqno v) @ '' > '' @ dec_str (nv_best v) @ '')'']
          (''MANUAL REVIEW REQUIRED. This node has data ahead of the primary component. ''
           @ ''Do NOT heal without understanding the data state.'')
      else if \<not> nv_has_data v then
        node_advise False [''NO DATA - cannot assess while authority is unresolved'']
          ''MANUAL REVIEW REQUIRED. Cannot determine this node state. Resolve the authority first.''
      else if out = AuthorityUndeterminable then
        node_advise False [''authority undeterminable '' @ em_dash @ '' a node'' @ quote @ ''s position is unread'']
          (''MANUAL REVIEW REQUIRED. A node'' @ quote @ ''s position could not be read, so authority is ''
           @ ''undeterminable. Bring every node up for inspection (fence + --wsrep-recover) before healing.''
           @ gap @ galera_heal_cmd c (nv_pod v) @ '' --force'')
      else
        node_advise False [''split-brain detected in cluster'']
          (''MANUAL REVIEW REQUIRED. Split-brain detected. Resolve before healing.'' @ gap
           @ galera_heal_cmd c (nv_pod v) @ '' --force''))"

definition node_synced :: "node_view \<Rightarrow> node_advice" where
  "node_synced v =
     (if nv_disk_full v \<or> nv_disk_pct v \<ge> 90 then
        node_advise False [''healthy but disk low ('' @ dec_str (nv_disk_pct v) @ ''%)'']
          ''Synced and healthy but disk usage is high. Consider expanding PVC storage.''
      else
        node_advise False (''healthy (Synced, connected, ready)''
            # (if nv_lag v > 0 then [''seqno lag: '' @ dec_str (nv_lag v) @ '' behind best''] else []))
          ''No action needed.'')"

definition node_transitional :: "triage_conf_galera \<Rightarrow> node_view \<Rightarrow> node_advice" where
  "node_transitional c v =
     node_advise False ((''transitional ('' @ nv_comment v @ '') - catching up'')
         # (if nv_lag v > 0 then [''seqno lag: '' @ dec_str (nv_lag v)] else []))
       (''Node is in transitional state ('' @ nv_comment v @ ''). Wait for Synced (state 4). If stuck, may need heal.''
        @ gap @ galera_heal_cmd c (nv_pod v))"

definition node_disconnected :: "triage_conf_galera \<Rightarrow> node_view \<Rightarrow> node_advice" where
  "node_disconnected c v =
     node_advise True ([''disconnected (connected='' @ nv_connected v @ '', ready='' @ nv_ready v @ '')'']
         @ (if nv_disk_full v then [''disk full (possible cause of disconnect)''] else []) @ seqno_note v)
       (''Node is disconnected from cluster. Needs heal (grastate wipe + SST rejoin).'' @ gap @ galera_heal_cmd c (nv_pod v))"

definition node_unread_wsrep :: "triage_conf_galera \<Rightarrow> node_view \<Rightarrow> node_advice" where
  "node_unread_wsrep c v =
     node_advise False [''wsrep status UNREAD (query failed after retries) '' @ em_dash @ '' cannot classify'']
       (''Could not read wsrep status after retries '' @ em_dash
        @ '' the node may be wedged or the exec transport is failing. ''
        @ ''Investigate the pod before healing; if it is genuinely wedged, heal.'' @ gap @ galera_heal_cmd c (nv_pod v))"

definition node_non_primary :: "triage_conf_galera \<Rightarrow> node_view \<Rightarrow> node_advice" where
  "node_non_primary c v =
     node_advise True [''non-primary component ('' @ nv_status v @ '')'']
       (''Node is in non-primary component. Needs heal.'' @ gap @ galera_heal_cmd c (nv_pod v))"

definition node_no_wsrep :: "triage_conf_galera \<Rightarrow> node_view \<Rightarrow> node_advice" where
  "node_no_wsrep c v =
     node_advise True (''running but wsrep query failed'' # seqno_note v)
       (''Could not query wsrep status. MariaDB may not be accepting connections. Needs heal.'' @ gap
        @ galera_heal_cmd c (nv_pod v))"

definition node_crashloop :: "triage_conf_galera \<Rightarrow> node_view \<Rightarrow> node_advice" where
  "node_crashloop c v =
     (if nv_disk_full v then
        node_advise True [''crash-looping'', ''disk full (cause of crash)'']
          (''Crash-looping due to disk full. Needs heal or PVC expansion.'' @ gap @ galera_heal_cmd c (nv_pod v))
      else if nv_current v then
        node_advise False [''crash-looping'', ''data current (seqno: '' @ dec_str (nv_seqno v) @ '')'']
          (''Data is current but pod is crash-looping. Check pod logs for root cause. May recover on restart. ''
           @ ''Otherwise needs heal.'' @ gap @ galera_heal_cmd c (nv_pod v))
      else
        node_advise True (''crash-looping'' # seqno_note v)
          (''Pod is crash-looping with stale data. Needs heal.'' @ gap @ galera_heal_cmd c (nv_pod v)))"

definition node_missing_pod :: "triage_conf_galera \<Rightarrow> node_view \<Rightarrow> node_advice" where
  "node_missing_pod c v =
     (if nv_current v then
        node_advise False [''no pod running'', ''data current (seqno: '' @ dec_str (nv_seqno v) @ '')'']
          ''Data is current. MariaDB operator should recreate the pod. If stuck, check MariaDB CR status.''
      else
        node_advise True (''no pod running'' # seqno_note v)
          (''Pod missing with stale data. MariaDB operator should recreate. If stuck, needs heal.'' @ gap
           @ galera_heal_cmd c (nv_pod v)))"

definition node_unread :: "node_view \<Rightarrow> bool" where
  "node_unread v = (case nv_ws v of Some w \<Rightarrow> ws_unread w | None \<Rightarrow> False)"

definition advise_node :: "triage_conf_galera \<Rightarrow> bool \<Rightarrow> authority_outcome \<Rightarrow> node_view \<Rightarrow> node_advice" where
  "advise_node c safe out v =
     (if \<not> safe then node_unsafe c out v
      else if nv_running v \<and> nv_state v = 4 \<and> nv_connected v = ''ON'' \<and> nv_ready v = ''ON'' \<and> nv_status v = ''Primary''
      then node_synced v
      else if nv_running v \<and> nv_state v \<ge> 1 \<and> nv_state v \<le> 3 \<and> nv_connected v = ''ON'' then node_transitional c v
      else if nv_running v \<and> (nv_connected v = ''OFF'' \<or> nv_ready v = ''OFF'') then node_disconnected c v
      else if nv_running v \<and> node_unread v then node_unread_wsrep c v
      else if nv_running v \<and> nv_status v \<noteq> ''Primary'' \<and> nv_status v \<noteq> ''unknown'' then node_non_primary c v
      else if nv_running v \<and> nv_ws v = None then node_no_wsrep c v
      else if nv_crashloop v then node_crashloop c v
      else if nv_missing v \<and> nv_has_data v then node_missing_pod c v
      else if nv_missing v then
        node_advise False [''NO DATA - no pod, could not probe PVC''] ''Could not determine state. Check if PVC can be mounted.''
      else node_advise False [''unknown state''] ''Could not determine state. Check node manually.'')"

definition assess_node :: "triage_conf_galera \<Rightarrow> galera_data \<Rightarrow> data_comparison \<Rightarrow> grastate \<Rightarrow> instance_assessment" where
  "assess_node c d cmp g =
     (let v = node_view_of d cmp g;
          a = advise_node c (dc_safe_to_heal cmp) (dc_authority cmp) v
      in zero_assessment\<lparr> ia_pod := gs_pod g, ia_instance := pod_instance_number (gs_pod g),
           ia_running := nv_running v, ia_ready := nv_running v \<and> nv_state v = 4, ia_needs_heal := na_heal a,
           ia_notes := na_notes a, ia_recommendation := na_rec a, ia_in_primary := nv_in_primary v,
           ia_seqno := parse_int_or (gs_seqno g) (-1), ia_eff_seqno := nv_seqno v, ia_seqno_source := nv_source v,
           ia_seqno_lag := nv_lag v, ia_uuid := gs_uuid g, ia_safe_to_bootstrap := gs_safe g,
           ia_wsrep_state := nv_state v, ia_wsrep_comment := nv_comment v, ia_wsrep_connected := nv_connected v,
           ia_wsrep_ready := nv_ready v, ia_wsrep_cluster_status := nv_status v,
           ia_crash_reason := map_get '''' (gd_crash_reasons d) (gs_pod g), ia_disk_pct := nv_disk_pct v \<rparr>)"

definition galera_assessments :: "triage_conf_galera \<Rightarrow> galera_data \<Rightarrow> data_comparison \<Rightarrow> instance_assessment list" where
  "galera_assessments c d cmp = map (assess_node c d cmp) (gd_grastate d)"

section \<open>Diagnosis and result\<close>

text \<open>A node entry of the recovery snapshot with a resolved sequence number.\<close>

definition entry_resolved :: "string \<times> recovery_entry \<Rightarrow> bool" where
  "entry_resolved p = (case snd p of RecoveryEntry _ (Some (JInt n)) \<Rightarrow> n \<ge> 0 | _ \<Rightarrow> False)"

definition entry_object :: "string \<times> recovery_entry \<Rightarrow> bool" where
  "entry_object p = (case snd p of NotAnObject \<Rightarrow> False | RecoveryEntry _ _ \<Rightarrow> True)"

definition diagnose_recovery_deadlock ::
  "galera_env \<Rightarrow> galera_data \<Rightarrow> data_comparison \<Rightarrow> instance_assessment list \<Rightarrow> diagnosis list" where
  "diagnose_recovery_deadlock e d cmp as =
     (if gd_all_down d \<or> \<not> dc_safe_to_heal cmp \<or> list_ex ia_needs_heal as then []
      else if ge_galera_condition e \<noteq> ''False'' then []
      else if ge_state e = [] \<or> list_ex entry_resolved (ge_state e) then []
      else
        (let nodes = sort (map fst (filter entry_object (ge_state e))) in
         if nodes = [] then []
         else [\<lparr> dg_id = ''galera-operator-recovery-deadlock'',
                 dg_summary = ''mariadb-operator stuck in Galera recovery (no node resolved a seqno) while the data is healthy'',
                 dg_detail = ''The mariadb-operator holds a recovery snapshot for '' @ join_with '', '' nodes
                   @ '' in which no node resolved a sequence number, so it cannot choose a bootstrap source and re-runs recovery ''
                   @ ''indefinitely. The data plane is healthy (a Primary is formed and no node needs ''
                   @ ''healing). This persists across restarts (status.galeraRecovery), which is why the cluster flaps.''
                   @ (if ge_suspended e then '' The cluster is currently SUSPENDED '' @ em_dash
                        @ '' the condition is latent and resumes on unsuspend.'' else ''''),
                 dg_remedy = ''hasteward bootstrap -e galera -c '' @ ge_cluster e @ '' -n '' @ ge_namespace e @ '' --dry-run'',
                 dg_target = gd_best_node d \<rparr>]))"

definition galera_analyze :: "galera_env \<Rightarrow> galera_data \<Rightarrow> triage_result" where
  "galera_analyze e d =
     (let c = (ge_cluster e, ge_namespace e);
          cmp = galera_comparison d;
          as = galera_assessments c d cmp
      in zero_triage\<lparr> tr_engine := ''galera'',
           tr_cluster := \<lparr> or_namespace = ge_namespace e, or_name = ge_cluster e \<rparr>,
           tr_assessments := as, tr_comparison := cmp,
           tr_ready := int (length (gd_primary_members d)), tr_total := ge_replicas e,
           tr_all_down := gd_all_down d,
           tr_best_seqno_node := find_first (\<lambda>a. ia_pod a = gd_best_node d) as,
           tr_authority_status := derive_authority_status (dc_safe_to_heal cmp),
           tr_donor := (if dc_safe_to_heal cmp
             then (case find_first (\<lambda>a. ia_wsrep_ready a = ''ON'' \<and> ia_wsrep_connected a = ''ON''
                                        \<and> ia_wsrep_comment a = ''Synced'') as of
                     Some a \<Rightarrow> dec_str (ia_instance a) | None \<Rightarrow> ''none'')
             else ''none''),
           tr_diagnoses := diagnose_recovery_deadlock e d cmp as \<rparr>)"

definition galera_triage :: "galera_env \<Rightarrow> (collect_error, triage_result) result" where
  "galera_triage e = (case galera_collect e of Inl err \<Rightarrow> Err err | Inr d \<Rightarrow> Ok (galera_analyze e d))"

end
