(* ===== verification/Go_Time.thy ===== *)
theory Go_Time
  imports Go_Strings
begin

text \<open>
  What the repository uses of Go's \<open>time\<close> package: the proleptic Gregorian calendar,
  \<open>time.Parse(time.RFC3339, s)\<close> with the leniencies of its general parser (a one-digit
  hour, a fraction after the seconds, offsets up to 24:60), and the \<open>RFC3339\<close> rendering
  of a UTC time.  An instant is its number of nanoseconds since 1970-01-01T00:00:00Z.
\<close>

section \<open>Calendar\<close>

definition leap_year :: "int \<Rightarrow> bool" where
  "leap_year y \<longleftrightarrow> y mod 4 = 0 \<and> (y mod 100 \<noteq> 0 \<or> y mod 400 = 0)"

definition month_days :: "int \<Rightarrow> int \<Rightarrow> int" where
  "month_days y m = (if m = 2 then (if leap_year y then 29 else 28)
     else if m \<in> {4, 6, 9, 11} then 30 else 31)"

text \<open>Days from 1970-01-01, counting years from March.\<close>

definition days_from_civil :: "int \<Rightarrow> int \<Rightarrow> int \<Rightarrow> int" where
  "days_from_civil y m d =
     (let y' = (if m \<le> 2 then y - 1 else y);
          mp = (if m > 2 then m - 3 else m + 9)
      in 365 * y' + y' div 4 - y' div 100 + y' div 400 + (153 * mp + 2) div 5 + d - 1 - 719468)"

text \<open>Split off cycles of 400, 100, 4 and 1 years; a fifth century or a fifth year
  of a cycle belongs to the fourth.\<close>

definition year_split :: "int \<Rightarrow> int \<times> int" where
  "year_split z' =
     (let e = z' div 146097; d0 = z' mod 146097;
          c = d0 div 36524 - d0 div 36524 div 4; d1 = d0 - 36524 * c;
          q = d1 div 1461; d2 = d1 - 1461 * q;
          y = d2 div 365 - d2 div 365 div 4
      in (400 * e + 100 * c + 4 * q + y, d2 - 365 * y))"

definition civil_from_days :: "int \<Rightarrow> int \<times> int \<times> int" where
  "civil_from_days z =
     (case year_split (z + 719468) of (y, doy) \<Rightarrow>
        (let mp = (5 * doy + 2) div 153;
             m = (if mp < 10 then mp + 3 else mp - 9)
         in (y + (if m \<le> 2 then 1 else 0), m, doy - (153 * mp + 2) div 5 + 1)))"

section \<open>Rendering\<close>

definition pad2 :: "int \<Rightarrow> string" where "pad2 n = pad_zero 2 (dec_str n)"

definition nanos :: int where "nanos = 1000000000"

definition hour_ns :: int where "hour_ns = 3600000000000"

text \<open>\<open>t.UTC().Format(time.RFC3339)\<close>.\<close>

definition format_rfc3339 :: "int \<Rightarrow> string" where
  "format_rfc3339 t =
     (let secs = t div nanos; sod = secs mod 86400 in
      (case civil_from_days (secs div 86400) of
         (y, m, d) \<Rightarrow> pad_zero 4 (dec_str y) @ ''-'' @ pad2 m @ ''-'' @ pad2 d @ ''T''
           @ pad2 (sod div 3600) @ '':'' @ pad2 (sod mod 3600 div 60) @ '':'' @ pad2 (sod mod 60) @ ''Z''))"

section \<open>Parsing\<close>

definition is_num :: "char \<Rightarrow> bool" where
  "is_num c \<longleftrightarrow> 48 \<le> byte_of c \<and> byte_of c \<le> 57"

definition num_of :: "string \<Rightarrow> int" where
  "num_of s = foldl (\<lambda>n c. 10 * n + (byte_of c - 48)) 0 s"

text \<open>Exactly so many digits at the start.\<close>

definition take_num :: "nat \<Rightarrow> string \<Rightarrow> (int \<times> string) option" where
  "take_num k s = (if length (take k s) = k \<and> list_all is_num (take k s) then Some (num_of (take k s), drop k s) else None)"

definition take_hour :: "string \<Rightarrow> (int \<times> string) option" where
  "take_hour s = (case take_num 2 s of Some r \<Rightarrow> Some r | None \<Rightarrow> take_num 1 s)"

fun take_char :: "char \<Rightarrow> string \<Rightarrow> string option" where
  "take_char c [] = None"
| "take_char c (x # xs) = (if x = c then Some xs else None)"

text \<open>The fraction: a comma or a period and digits, of which nine count.\<close>

definition take_fraction :: "string \<Rightarrow> int \<times> string" where
  "take_fraction s =
     (case s of
        p # c # _ \<Rightarrow>
          (if (p = CHR ''.'' \<or> p = CHR '','') \<and> is_num c
           then (let ds = takeWhile is_num (tl s) in
                 (num_of (take 9 (ds @ replicate 9 (CHR ''0''))), dropWhile is_num (tl s)))
           else (0, s))
      | _ \<Rightarrow> (0, s))"

text \<open>The zone, as seconds east of UTC, at the end of the text.\<close>

definition take_zone :: "string \<Rightarrow> int option" where
  "take_zone s =
     (if s = ''Z'' then Some 0
      else (case s of
              sg # r \<Rightarrow>
                (case take_num 2 r of
                   Some (h, c # r') \<Rightarrow>
                     (if c = CHR '':'' then
                        (case take_num 2 r' of
                           Some (m, []) \<Rightarrow>
                             if h \<le> 24 \<and> m \<le> 60 then
                               (if sg = CHR ''+'' then Some (3600 * h + 60 * m)
                                else if sg = CHR ''-'' then Some (- (3600 * h + 60 * m)) else None)
                             else None
                         | _ \<Rightarrow> None)
                      else None)
                 | _ \<Rightarrow> None)
            | [] \<Rightarrow> None))"

fun obind :: "'a option \<Rightarrow> ('a \<Rightarrow> 'b option) \<Rightarrow> 'b option" where
  "obind None f = None"
| "obind (Some x) f = f x"

definition parse_rfc3339 :: "string \<Rightarrow> int option" where
  "parse_rfc3339 s =
     obind (take_num 4 s) (\<lambda>(y, s1). obind (take_char (CHR ''-'') s1) (\<lambda>s2.
     obind (take_num 2 s2) (\<lambda>(mo, s3). obind (take_char (CHR ''-'') s3) (\<lambda>s4.
     obind (take_num 2 s4) (\<lambda>(d, s5). obind (take_char (CHR ''T'') s5) (\<lambda>s6.
     obind (take_hour s6) (\<lambda>(h, s7). obind (take_char (CHR '':'') s7) (\<lambda>s8.
     obind (take_num 2 s8) (\<lambda>(mi, s9). obind (take_char (CHR '':'') s9) (\<lambda>s10.
     obind (take_num 2 s10) (\<lambda>(sec, s11).
       (case take_fraction s11 of (frac, s12) \<Rightarrow>
         obind (take_zone s12) (\<lambda>off.
           if 1 \<le> mo \<and> mo \<le> 12 \<and> 1 \<le> d \<and> d \<le> month_days y mo \<and> h < 24 \<and> mi < 60 \<and> sec < 60
           then Some (nanos * (86400 * days_from_civil y mo d + 3600 * h + 60 * mi + sec - off) + frac)
           else None)))))))))))))"

section \<open>The calendar is a bijection\<close>

definition year_start :: "int \<Rightarrow> int" where
  "year_start y = 365 * y + y div 4 - y div 100 + y div 400"

lemma year_start_split:
  assumes "0 \<le> c" "c \<le> 3" "0 \<le> q" "q \<le> 24" "0 \<le> y" "y \<le> 3"
  shows "year_start (400 * e + 100 * c + 4 * q + y) = 146097 * e + 36524 * c + 1461 * q + 365 * y"
proof -
  let ?y = "400 * e + 100 * c + 4 * q + y"
  have "?y div 4 = 100 * e + 25 * c + q" using assms by linarith
  moreover have "?y div 100 = 4 * e + c" using assms by linarith
  moreover have "?y div 400 = e" using assms by linarith
  ultimately show ?thesis by (simp add: year_start_def)
qed

lemma year_split_spec:
  assumes "year_split z = (y, doy)"
  shows "year_start y + doy = z" "0 \<le> doy" "doy \<le> 365" "doy = 365 \<Longrightarrow> leap_year (y + 1)"
proof -
  define e where "e = z div 146097"
  define d0 where "d0 = z mod 146097"
  define c0 where "c0 = d0 div 36524"
  define c where "c = c0 - c0 div 4"
  define d1 where "d1 = d0 - 36524 * c"
  define q where "q = d1 div 1461"
  define d2 where "d2 = d1 - 1461 * q"
  define y0 where "y0 = d2 div 365"
  define k where "k = y0 - y0 div 4"
  have z: "z = 146097 * e + d0" by (simp add: e_def d0_def)
  have d0: "0 \<le> d0" "d0 < 146097" by (simp_all add: d0_def)
  have c0: "0 \<le> c0" "c0 \<le> 4" "36524 * c0 \<le> d0" "d0 < 36524 * c0 + 36524" using d0 unfolding c0_def by linarith+
  have c: "0 \<le> c" "c \<le> 3" using c0 unfolding c_def by linarith+
  have d1: "0 \<le> d1" "d1 \<le> 36524" "d1 = 36524 \<Longrightarrow> c = 3"
  proof -
    consider "c0 \<le> 3" | "c0 = 4" using c0 by linarith
    then have *: "0 \<le> d1 \<and> d1 \<le> 36524 \<and> (d1 = 36524 \<longrightarrow> c = 3)"
    proof cases
      case 1
      then have "c = c0" using c0 unfolding c_def by linarith
      then show ?thesis using c0 unfolding d1_def by linarith
    next
      case 2
      then have "c = 3" unfolding c_def by simp
      then show ?thesis using c0 2 d0 unfolding d1_def by linarith
    qed
    then show "0 \<le> d1" "d1 \<le> 36524" "d1 = 36524 \<Longrightarrow> c = 3" by auto
  qed
  have q: "0 \<le> q" "q \<le> 24" "1461 * q \<le> d1" "d1 < 1461 * q + 1461" using d1 unfolding q_def by linarith+
  have d2: "0 \<le> d2" "d2 \<le> 1460" using q unfolding d2_def by linarith+
  have y0: "0 \<le> y0" "y0 \<le> 4" "365 * y0 \<le> d2" "d2 < 365 * y0 + 365" using d2 unfolding y0_def by linarith+
  have k: "0 \<le> k" "k \<le> 3" using y0 unfolding k_def by linarith+
  have res: "y = 400 * e + 100 * c + 4 * q + k" "doy = d2 - 365 * k"
  proof -
    have "year_split z = (400 * e + 100 * c + 4 * q + k, d2 - 365 * k)"
      by (simp only: year_split_def Let_def k_def y0_def d2_def q_def d1_def c_def c0_def d0_def e_def)
    then show "y = 400 * e + 100 * c + 4 * q + k" "doy = d2 - 365 * k" using assms by simp_all
  qed
  show "year_start y + doy = z"
    using year_start_split[OF c q(1,2) k, of e] z res by (simp add: d1_def d2_def)
  have kk: "(y0 \<le> 3 \<and> k = y0) \<or> (y0 = 4 \<and> k = 3)" using y0 unfolding k_def by linarith
  then show "0 \<le> doy" "doy \<le> 365" using y0 d2 res by auto
  assume last: "doy = 365"
  then have "k = 3" "d2 = 1460" using kk y0 d2 res by auto
  then have full: "d1 = 1461 * q + 1460" unfolding d2_def by simp
  have y1: "y + 1 = 4 * (100 * e + 25 * c + q + 1)" using res \<open>k = 3\<close> by simp
  have y2: "y + 1 = 4 * (q + 1) + (4 * e + c) * 100" using res \<open>k = 3\<close> by simp
  have y3: "q = 24 \<Longrightarrow> y + 1 = 400 * (e + 1)" using res \<open>k = 3\<close> full d1 by simp
  show "leap_year (y + 1)"
  proof (cases "q = 24")
    case True
    then have "(y + 1) mod 400 = 0" "(y + 1) mod 4 = 0" using y3 y1 by simp_all
    then show ?thesis by (simp add: leap_year_def)
  next
    case False
    then have "(y + 1) mod 100 = 4 * (q + 1)" unfolding y2 mod_mult_self1 using q by simp
    moreover have "4 * (q + 1) \<noteq> 0" using q by simp
    moreover have "(y + 1) mod 4 = 0" unfolding y1 by simp
    ultimately have "(y + 1) mod 100 \<noteq> 0" "(y + 1) mod 4 = 0" by (simp_all only: not_False_eq_True)
    then show ?thesis by (simp add: leap_year_def)
  qed
qed

text \<open>The month and day of each day of a year that starts in March.\<close>

definition doy_ok :: "int \<Rightarrow> bool" where
  "doy_ok doy =
     (let mp = (5 * doy + 2) div 153; m = (if mp < 10 then mp + 3 else mp - 9);
          d = doy - (153 * mp + 2) div 5 + 1
      in 1 \<le> m \<and> m \<le> 12 \<and> 1 \<le> d \<and> (if m > 2 then m - 3 else m + 9) = mp \<and>
         (if doy = 365 then m = 2 \<and> d = 29 else d \<le> month_days 1 m))"

lemma doy_table: "list_all doy_ok [0..365]"
  by code_simp

lemma civil_from_days_spec:
  assumes "civil_from_days z = (y, m, d)"
  shows "days_from_civil y m d = z" "1 \<le> m" "m \<le> 12" "1 \<le> d" "d \<le> month_days y m"
proof -
  obtain y' doy where ys: "year_split (z + 719468) = (y', doy)" by fastforce
  note sp = year_split_spec[OF ys]
  have "doy_ok doy" using doy_table sp(2,3) by (auto simp: list_all_iff)
  then have ok: "1 \<le> m \<and> m \<le> 12 \<and> 1 \<le> d \<and> (if m > 2 then m - 3 else m + 9) = (5 * doy + 2) div 153 \<and>
      (if doy = 365 then m = 2 \<and> d = 29 else d \<le> month_days 1 m)"
    using assms unfolding doy_ok_def civil_from_days_def ys Let_def prod.case by blast
  have y: "y = y' + (if m \<le> 2 then 1 else 0)" and dd: "d = doy - (153 * ((5 * doy + 2) div 153) + 2) div 5 + 1"
    using assms unfolding civil_from_days_def ys Let_def prod.case by auto
  have "(if m \<le> 2 then y - 1 else y) = y'" using y by simp
  then show "days_from_civil y m d = z"
    using sp(1) ok dd unfolding days_from_civil_def Let_def year_start_def by simp
  show "1 \<le> m" "m \<le> 12" "1 \<le> d" using ok by auto
  show "d \<le> month_days y m"
  proof (cases "doy = 365")
    case True
    then show ?thesis using ok y sp(4) by (simp add: month_days_def)
  next
    case False
    have "month_days 1 m \<le> month_days y m" by (simp add: month_days_def leap_year_def)
    then show ?thesis using ok False by simp
  qed
qed

section \<open>Round trip\<close>

lemma pad2_table: "list_all (\<lambda>n. length (pad2 n) = 2 \<and> list_all is_num (pad2 n) \<and> num_of (pad2 n) = n) [0..99]"
  by code_simp

lemma take_pad2 [simp]:
  assumes "0 \<le> n" "n \<le> 99"
  shows "take_num 2 (pad2 n @ s) = Some (n, s)"
proof -
  have "length (pad2 n) = 2 \<and> list_all is_num (pad2 n) \<and> num_of (pad2 n) = n"
    using pad2_table assms by (auto simp: list_all_iff)
  then show ?thesis by (simp add: take_num_def)
qed

lemma digit_num_table: "list_all (\<lambda>n. is_num (digit_char n) \<and> byte_of (digit_char n) = n + 48) [0..9]"
  by code_simp

lemma digit_num: "0 \<le> n \<Longrightarrow> n \<le> 9 \<Longrightarrow> is_num (digit_char n) \<and> byte_of (digit_char n) = n + 48"
  using digit_num_table by (auto simp: list_all_iff)

lemma digit_zero: "digit_char 0 = CHR ''0''"
  by code_simp

lemma pad4_digits:
  assumes "0 \<le> n" "n \<le> 9999"
  shows "pad_zero 4 (dec_str n) = [digit_char (n div 1000), digit_char (n div 100 mod 10), digit_char (n div 10 mod 10), digit_char (n mod 10)]"
proof -
  have base: "num_str 10 k = [digit_char k]" if "k < 10" for k using that by (simp add: num_str.simps[of 10 k])
  have step: "num_str 10 k = num_str 10 (k div 10) @ [digit_char (k mod 10)]" if "\<not> k < 10" for k
    using that by (simp add: num_str.simps[of 10 k])
  have dd: "n div 10 div 10 = n div 100" "n div 100 div 10 = n div 1000"
    by (simp_all add: zdiv_zmult2_eq[symmetric])
  consider "n < 10" | "10 \<le> n" "n < 100" | "100 \<le> n" "n < 1000" | "1000 \<le> n" by linarith
  then show ?thesis
  proof cases
    case 1
    then show ?thesis using assms by (simp add: dec_str_def base pad_zero_def digit_zero numeral_3_eq_3)
  next
    case 2
    then have "n div 10 < 10" by simp
    then show ?thesis using 2 assms
      by (simp add: dec_str_def base step[of n] pad_zero_def digit_zero numeral_2_eq_2)
  next
    case 3
    then have "n div 100 < 10" "\<not> n div 10 < 10" by simp_all
    then show ?thesis using 3 assms
      by (simp add: dec_str_def base step[of n] step[of "n div 10"] dd pad_zero_def digit_zero)
  next
    case 4
    then have "n div 1000 < 10" "\<not> n div 10 < 10" "\<not> n div 100 < 10" using assms by simp_all
    then show ?thesis using 4 assms
      by (simp add: dec_str_def base step[of n] step[of "n div 10"] step[of "n div 100"] dd pad_zero_def)
  qed
qed

lemma take_digits4:
  assumes "0 \<le> a" "a \<le> 9" "0 \<le> b" "b \<le> 9" "0 \<le> c" "c \<le> 9" "0 \<le> d" "d \<le> 9"
  shows "take_num 4 ([digit_char a, digit_char b, digit_char c, digit_char d] @ s) = Some (1000 * a + 100 * b + 10 * c + d, s)"
  using assms by (simp add: take_num_def num_of_def digit_num)

lemma take_pad4 [simp]:
  assumes "0 \<le> n" "n \<le> 9999"
  shows "take_num 4 (pad_zero 4 (dec_str n) @ s) = Some (n, s)"
proof -
  have "n div 1000 \<le> 9" "0 \<le> n div 1000" using assms by simp_all
  moreover have "1000 * (n div 1000) + 100 * (n div 100 mod 10) + 10 * (n div 10 mod 10) + n mod 10 = n"
  proof -
    have dd: "n div 10 div 10 = n div 100" "n div 100 div 10 = n div 1000" by (simp_all add: zdiv_zmult2_eq[symmetric])
    have sum: "n = 10 * a + w \<Longrightarrow> a = 10 * b + x \<Longrightarrow> b = 10 * c + y \<Longrightarrow> 1000 * c + 100 * y + 10 * x + w = n"
      for a b c w x y :: int by linarith
    have eqs: "n = 10 * (n div 10) + n mod 10" "n div 10 = 10 * (n div 100) + n div 10 mod 10"
      "n div 100 = 10 * (n div 1000) + n div 100 mod 10"
      unfolding dd[symmetric] by (rule mult_div_mod_eq[symmetric])+
    show ?thesis by (rule sum[OF eqs])
  qed
  moreover have "0 \<le> n div 100 mod 10" "n div 100 mod 10 \<le> 9" "0 \<le> n div 10 mod 10" "n div 10 mod 10 \<le> 9"
    "0 \<le> n mod 10" "n mod 10 \<le> 9" by simp_all
  ultimately show ?thesis
    by (simp only: pad4_digits[OF assms] take_digits4)
qed

lemma take_fraction_Z [simp]: "take_fraction ''Z'' = (0, ''Z'')"
  by (simp add: take_fraction_def)

lemma parse_fields:
  assumes "0 \<le> y" "y \<le> 9999" "1 \<le> m" "m \<le> 12" "1 \<le> d" "d \<le> month_days y m" "0 \<le> h" "h < 24"
    "0 \<le> mi" "mi < 60" "0 \<le> se" "se < 60"
  shows "parse_rfc3339 (pad_zero 4 (dec_str y) @ ''-'' @ pad2 m @ ''-'' @ pad2 d @ ''T'' @ pad2 h @ '':'' @ pad2 mi
     @ '':'' @ pad2 se @ ''Z'') = Some (nanos * (86400 * days_from_civil y m d + 3600 * h + 60 * mi + se))"
proof -
  have md: "month_days y m \<le> 31" by (simp add: month_days_def)
  have hour: "take_hour (pad2 h @ s) = Some (h, s)" for s using assms by (simp add: take_hour_def)
  have zone: "take_zone ''Z'' = Some 0" by (simp add: take_zone_def)
  show ?thesis unfolding parse_rfc3339_def append_Cons append_Nil
    using assms md by (simp add: hour zone del: mult_cancel_left)
qed

lemma clock_sum:
  fixes z :: int
  shows "86400 * (z div 86400) + 3600 * (z mod 86400 div 3600) + 60 * (z mod 86400 mod 3600 div 60) + z mod 86400 mod 60 = z"
proof -
  have sum: "z = 86400 * a + w \<Longrightarrow> w = 3600 * b + x \<Longrightarrow> x = 60 * c + y \<Longrightarrow> 86400 * a + 3600 * b + 60 * c + y = z"
    for a b c w x y :: int by linarith
  have "z mod 86400 mod 60 = z mod 86400 mod 3600 mod 60" by (rule mod_mod_cancel[symmetric]) simp
  then show ?thesis
    by (simp only:) (rule sum; rule mult_div_mod_eq[symmetric])
qed

text \<open>Reading back a rendered time gives the instant truncated to its second.\<close>

lemma rfc3339_roundtrip:
  assumes "0 \<le> fst (civil_from_days (t div nanos div 86400))" "fst (civil_from_days (t div nanos div 86400)) \<le> 9999"
  shows "parse_rfc3339 (format_rfc3339 t) = Some (t - t mod nanos)"
proof -
  define secs where "secs = t div nanos"
  obtain y m d where c: "civil_from_days (secs div 86400) = (y, m, d)" by (metis prod_cases3)
  note sp = civil_from_days_spec[OF c]
  have y: "0 \<le> y" "y \<le> 9999" using assms c by (simp_all add: secs_def)
  have "0 \<le> secs mod 86400" "secs mod 86400 < 86400" by simp_all
  then have "0 \<le> secs mod 86400 div 3600" "secs mod 86400 div 3600 < 24" by linarith+
  moreover have "0 \<le> secs mod 86400 mod 3600 div 60" "secs mod 86400 mod 3600 div 60 < 60"
  proof -
    have "0 \<le> w \<Longrightarrow> w < 3600 \<Longrightarrow> 0 \<le> w div 60 \<and> w div 60 < 60" for w :: int by linarith
    then show "0 \<le> secs mod 86400 mod 3600 div 60" "secs mod 86400 mod 3600 div 60 < 60" by simp_all
  qed
  moreover have "0 \<le> secs mod 86400 mod 60" "secs mod 86400 mod 60 < 60" by simp_all
  ultimately have "parse_rfc3339 (format_rfc3339 t) = Some (nanos * secs)"
    unfolding format_rfc3339_def Let_def secs_def[symmetric] c prod.case
    by (subst parse_fields[OF y sp(2-5)]) (simp_all only: sp(1) clock_sum)
  then show ?thesis by (simp add: secs_def minus_mod_eq_mult_div)
qed

end
