(* ===== verification/Galera_Provider.thy ===== *)
theory Galera_Provider
  imports Galera_Data Go_Time
begin

text \<open>
  The cluster operations that triage and bootstrap share (\<open>src/engine/provider/galera_ops.go\<close>)
  as functions on the fields of the MariaDB resource and the StatefulSet that they change.
  A call to the API server either takes effect, is refused, or takes effect although the
  caller sees an error (a lost response).  The fence lock is a compare-and-swap on the
  resource version, so its read and its write are separate steps.
\<close>

section \<open>The cluster\<close>

text \<open>\<open>gc_pods\<close>: database pods exist and may hold their data directories; \<open>gc_safe\<close>: the nodes
  whose state file says \<open>safe_to_bootstrap: 1\<close>; \<open>gc_no_cache\<close>: nodes whose cache was removed.\<close>

record galera_cluster =
  gc_version :: int
  gc_suspend :: bool
  gc_lock :: string
  gc_force :: "string option"
  gc_recovery :: bool
  gc_replicas :: int
  gc_pods :: bool
  gc_safe :: "string list"
  gc_no_cache :: "string list"

section \<open>Operations\<close>

text \<open>Every write to the resource gives it a new version.\<close>

definition bump :: "galera_cluster \<Rightarrow> galera_cluster" where
  "bump s = s\<lparr> gc_version := gc_version s + 1 \<rparr>"

definition suspend_cr :: "galera_cluster \<Rightarrow> galera_cluster" where
  "suspend_cr s = bump (s\<lparr> gc_suspend := True \<rparr>)"

definition resume_cr :: "galera_cluster \<Rightarrow> galera_cluster" where
  "resume_cr s = bump (s\<lparr> gc_suspend := False \<rparr>)"

definition force_bootstrap_live :: "string \<Rightarrow> galera_cluster \<Rightarrow> galera_cluster" where
  "force_bootstrap_live p s = bump (s\<lparr> gc_suspend := False, gc_force := Some p \<rparr>)"

definition set_force_bootstrap :: "string \<Rightarrow> galera_cluster \<Rightarrow> galera_cluster" where
  "set_force_bootstrap p s = bump (s\<lparr> gc_force := Some p \<rparr>)"

definition clear_force_bootstrap :: "galera_cluster \<Rightarrow> galera_cluster" where
  "clear_force_bootstrap s = bump (s\<lparr> gc_force := None \<rparr>)"

definition set_fence_lock :: "string \<Rightarrow> galera_cluster \<Rightarrow> galera_cluster" where
  "set_fence_lock v s = bump (s\<lparr> gc_lock := v \<rparr>)"

definition clear_fence_lock :: "galera_cluster \<Rightarrow> galera_cluster" where
  "clear_fence_lock s = bump (s\<lparr> gc_lock := '''' \<rparr>)"

definition clear_recovery_status :: "galera_cluster \<Rightarrow> galera_cluster" where
  "clear_recovery_status s = bump (s\<lparr> gc_recovery := False \<rparr>)"

text \<open>Scaling to zero asks for the pods' deletion; they are gone only once observed so.\<close>

definition scale_stateful_set :: "int \<Rightarrow> galera_cluster \<Rightarrow> galera_cluster" where
  "scale_stateful_set n s = s\<lparr> gc_replicas := n, gc_pods := gc_pods s \<or> n > 0 \<rparr>"

text \<open>\<open>WaitPodsTerminated\<close> answers without error only when a poll saw no pod.\<close>

definition pods_terminated :: "galera_cluster \<Rightarrow> galera_cluster" where
  "pods_terminated s = s\<lparr> gc_pods := False \<rparr>"

fun wait_pods_terminated :: "(nat \<Rightarrow> (string, nat) result) \<Rightarrow> nat \<Rightarrow> nat \<Rightarrow> bool" where
  "wait_pods_terminated poll i 0 = False"
| "wait_pods_terminated poll i (Suc k) =
     (case poll i of Inr n \<Rightarrow> (if n = 0 then True else wait_pods_terminated poll (Suc i) k)
      | Inl _ \<Rightarrow> wait_pods_terminated poll (Suc i) k)"

definition default_delete_timeout :: int where "default_delete_timeout = 300"

definition wait_polls :: "int \<Rightarrow> nat" where
  "wait_polls t = nat ((if t \<le> 0 then default_delete_timeout else t) div 5)"

section \<open>The fence lock\<close>

text \<open>Whether a lock value is held by an operation started less than an hour ago.\<close>

definition lock_fresh :: "int \<Rightarrow> string \<Rightarrow> bool" where
  "lock_fresh now v =
     (if v = '''' then False
      else (case split_n2 (CHR ''@'') v of
              [_, st] \<Rightarrow> (case parse_rfc3339 st of Some ts \<Rightarrow> now - ts < hour_ns | None \<Rightarrow> False)
            | _ \<Rightarrow> False))"

definition fence_value :: "string \<Rightarrow> int \<Rightarrow> string" where
  "fence_value holder now = holder @ ''@'' @ format_rfc3339 now"

text \<open>\<open>AcquireFenceLock\<close>: the decision on the object read, and the write that carries its
  version; \<open>server\<close> is an error of the write other than a conflict.\<close>

definition fence_lock_free :: "int \<Rightarrow> galera_cluster \<Rightarrow> bool" where
  "fence_lock_free now seen \<longleftrightarrow> \<not> gc_suspend seen \<and> \<not> lock_fresh now (gc_lock seen)"

definition cas_fence_lock :: "string \<Rightarrow> int \<Rightarrow> galera_cluster \<Rightarrow> bool \<times> galera_cluster" where
  "cas_fence_lock holder seen_version s =
     (if gc_version s = seen_version then (True, set_fence_lock holder s) else (False, s))"

definition acquire_fence_lock ::
  "string \<Rightarrow> int \<Rightarrow> (string, galera_cluster) result \<Rightarrow> (string, unit) result \<Rightarrow> galera_cluster
     \<Rightarrow> (string, bool) result \<times> galera_cluster" where
  "acquire_fence_lock holder now seen server s =
     (case seen of
        Inl err \<Rightarrow> (Err err, s)
      | Inr obj \<Rightarrow>
          if \<not> fence_lock_free now obj then (Ok False, s)
          else (case server of
                  Inl err \<Rightarrow> (Err err, s)
                | Inr _ \<Rightarrow> (case cas_fence_lock (fence_value holder now) (gc_version obj) s of
                    (won, s') \<Rightarrow> (Ok won, s'))))"

section \<open>Facts\<close>

lemmas cluster_ops = bump_def suspend_cr_def resume_cr_def force_bootstrap_live_def set_force_bootstrap_def
  clear_force_bootstrap_def set_fence_lock_def clear_fence_lock_def clear_recovery_status_def
  scale_stateful_set_def pods_terminated_def

lemma wait_pods_terminated_seen:
  "wait_pods_terminated poll i k \<Longrightarrow> \<exists>j. i \<le> j \<and> j < i + k \<and> poll j = Inr 0"
proof (induction poll i k rule: wait_pods_terminated.induct)
  case (2 poll i k)
  show ?case
  proof (cases "poll i = Inr 0")
    case True
    then show ?thesis by (intro exI[of _ i]) simp
  next
    case False
    then have "wait_pods_terminated poll (Suc i) k"
      using 2(3) by (auto split: sum.splits if_splits)
    then obtain j where "Suc i \<le> j" "j < Suc i + k" "poll j = Inr 0"
      using 2(1,2) False by (cases "poll i") (fastforce split: if_splits)+
    then show ?thesis by (intro exI[of _ j]) simp
  qed
qed simp

lemma acquired_means:
  assumes "acquire_fence_lock h now (Ok obj) server s = (Ok True, s')"
  shows "fence_lock_free now obj" "gc_version s = gc_version obj" "s' = set_fence_lock (fence_value h now) s"
  using assms by (auto simp: acquire_fence_lock_def cas_fence_lock_def split: if_splits sum.splits prod.splits)

end
