(* ===== verification/Galera_Correct.thy ===== *)
theory Galera_Correct
  imports Galera_Triage Galera_Provider
begin

text \<open>
  Correctness of Galera triage: which positions count as known, what a provable authority
  guarantees when nothing is serving, that the fenced deep recovery restores the cluster
  on every path and reads a data directory only while nothing can hold it, and that a
  failed read never marks a node for a heal.
\<close>

section \<open>Effective positions\<close>

lemma best_candidate_spec:
  "(\<forall>(v, s)\<in>set cs. v > 0 \<longrightarrow> v \<le> fst (best_candidate cs (b, s0))) \<and> b \<le> fst (best_candidate cs (b, s0)) \<and>
   (best_candidate cs (b, s0) = (b, s0) \<or> (best_candidate cs (b, s0) \<in> set cs \<and> fst (best_candidate cs (b, s0)) > 0))"
proof (induction cs arbitrary: b s0)
  case (Cons c cs)
  obtain v s where c: "c = (v, s)" by fastforce
  have "best_candidate (c # cs) (b, s0) =
      (if v > 0 \<and> v > b then best_candidate cs (v, s) else best_candidate cs (b, s0))"
    by (simp add: c best_candidate_def)
  then show ?case using Cons.IH[of v s] Cons.IH[of b s0] c by auto
qed (simp add: best_candidate_def)

lemma derive_known:
  "es_known (derive_effective_seqno wc cr cs g ls rs) \<longleftrightarrow> rs > 0 \<or> wc > 0 \<or> g > 0"
  by (auto simp: derive_effective_seqno_def Let_def split: prod.splits)

lemma derive_known_value:
  assumes "rs > 0 \<or> wc > 0 \<or> g > 0"
  shows "(es_value (derive_effective_seqno wc cr cs g ls rs), es_source (derive_effective_seqno wc cr cs g ls rs)) =
     best_candidate [(rs, ''wsrep_recover''), (wc, ''wsrep_last_committed''), (g, ''grastate'')] (-1, ''none'')"
  using assms by (auto simp: derive_effective_seqno_def Let_def split: prod.splits)

section \<open>The best known node\<close>

lemma best_known_step:
  "best_known ((p, s) # es) = fold (\<lambda>(p, s) (n, v). if es_known s \<and> es_value s > v then (p, es_value s) else (n, v)) es
     (if es_known s \<and> es_value s > -2 then (p, es_value s) else ('''', -2))"
  by (simp add: best_known_def)

lemma best_fold_spec:
  defines "f \<equiv> (\<lambda>(p, s) (n, v). if es_known s \<and> es_value s > v then (p, es_value s) else (n, v))"
  shows "(\<forall>(p, s)\<in>set es. es_known s \<longrightarrow> es_value s \<le> snd (fold f es (n, v))) \<and> v \<le> snd (fold f es (n, v)) \<and>
    (fold f es (n, v) = (n, v) \<or>
      (\<exists>s. (fst (fold f es (n, v)), s) \<in> set es \<and> es_known s \<and> es_value s = snd (fold f es (n, v))))"
proof (induction es arbitrary: n v)
  case (Cons c es)
  obtain p s where c: "c = (p, s)" by fastforce
  have st: "fold f (c # es) (n, v) = fold f es (if es_known s \<and> es_value s > v then (p, es_value s) else (n, v))"
    by (simp add: c f_def)
  show ?case
  proof (cases "es_known s \<and> es_value s > v")
    case True
    then show ?thesis using Cons.IH[of p "es_value s"] st c by fastforce
  next
    case False
    then show ?thesis using Cons.IH[of n v] st c by fastforce
  qed
qed simp

lemma best_known_max:
  "\<forall>(p, s)\<in>set es. es_known s \<longrightarrow> es_value s \<le> snd (best_known es)"
  "best_known es = ('''', -2) \<or> (\<exists>s. (fst (best_known es), s) \<in> set es \<and> es_known s \<and> es_value s = snd (best_known es))"
  using best_fold_spec[of es "''''" "-2"] unfolding best_known_def by blast+

section \<open>Coverage\<close>

lemma grastate_line_pod [simp]: "gs_pod (grastate_line l g) = gs_pod g"
  by (simp add: grastate_line_def Let_def)

lemma parse_grastate_pod [simp]: "gs_pod (parse_grastate p s raw) = p"
proof -
  have "gs_pod (fold grastate_line ls g) = gs_pod g" for ls g
    by (induction ls arbitrary: g) simp_all
  then show ?thesis by (simp add: parse_grastate_def blank_grastate_def)
qed

lemma blank_grastate_pod [simp]: "gs_pod (blank_grastate n s) = n"
  by (simp add: blank_grastate_def)

lemma collect_grastate_covers:
  "n \<in> set expected \<Longrightarrow> n \<in> set (map gs_pod (collect_grastate e expected running))"
proof -
  assume n: "n \<in> set expected"
  define execd where "execd = live_grastate e running @ crashloop_grastate e running"
  define known where "known = execd @ probe_grastate e
      (filter (\<lambda>n. n \<notin> set (map gs_pod execd) \<and> storage_state e n = ''Bound'') expected)"
  have "collect_grastate e expected running =
      known @ map (\<lambda>n. blank_grastate n ''none'') (filter (\<lambda>n. n \<notin> set (map gs_pod known)) expected)"
    by (simp only: collect_grastate_def known_def execd_def Let_def)
  then show ?thesis using n by (auto simp: image_iff)
qed

lemma galera_collect_parts:
  assumes "galera_collect e = Ok d"
  shows "gd_expected d = galera_expected e"
    "gd_grastate d = collect_grastate e (galera_expected e) (gd_running d)"
    "gd_effective d = map (\<lambda>g. (gs_pod g, effective_of e (gd_wsrep d) (gd_log_recovered d) (gd_wsrep_recovered d) g)) (gd_grastate d)"
    "(gd_best_node d, gd_best_value d) = best_known (gd_effective d)"
    "\<forall>n\<in>set (galera_expected e). storage_state e n \<noteq> ''UNKNOWN'' \<and> storage_state e n \<noteq> ''MISSING''"
  using assms by (auto simp: galera_collect_def Let_def filter_empty_conv split: sum.splits prod.splits if_splits)

section \<open>Verdict\<close>

lemma galera_comparison_fields:
  "dc_authority (galera_comparison d) = galera_outcome d"
  "dc_safe_to_heal (galera_comparison d) \<longleftrightarrow> galera_outcome d = AuthorityProvable"
  "dc_most_advanced (galera_comparison d) = gd_best_node d"
  "dc_most_advanced_value (galera_comparison d) = gd_best_value d"
  by (simp_all add: galera_comparison_def Let_def)

lemma provable_parts:
  "galera_outcome d = AuthorityProvable \<longleftrightarrow> blocking_nodes d = [] \<and> divergence_evidence d = []"
  by (auto simp: galera_outcome_def)

lemma single_lineage:
  assumes "divergence_evidence d = []" "p \<in> set (comparison_nodes d)" "q \<in> set (comparison_nodes d)"
    "real_uuid (node_canonical_uuid d p)" "real_uuid (node_canonical_uuid d q)"
  shows "node_canonical_uuid d p = node_canonical_uuid d q"
proof -
  have len: "length (lineage_uuids d) \<le> 1"
    using assms(1) by (simp add: divergence_evidence_def split: if_splits)
  have in_: "node_canonical_uuid d p \<in> set (authoritative_uuids d)" "node_canonical_uuid d q \<in> set (authoritative_uuids d)"
    using assms(2-5) by (auto simp: authoritative_uuids_def)
  then have "authoritative_uuids d \<noteq> []" by auto
  then have "length (authoritative_uuids d) \<le> 1" using len by (simp add: lineage_uuids_def Let_def)
  then show ?thesis using in_ by (cases "authoritative_uuids d") auto
qed

lemma no_member_blocks:
  "gd_primary_members d = [] \<Longrightarrow> blocking_nodes d = unread_nodes d"
  by (simp add: blocking_nodes_def clean_quorum_def quorum_uuid_def)

lemma known_when_read:
  assumes "unread_nodes d = []" "g \<in> set (gd_grastate d)"
  shows "\<exists>es. map_of (gd_effective d) (gs_pod g) = Some es \<and> es_known es"
  using assms by (auto simp: unread_nodes_def filter_empty_conv split: option.splits)

section \<open>Properties\<close>

lemma known_value_low:
  assumes "es_known (derive_effective_seqno wc cr cs g ls rs)"
  shows "-2 < es_value (derive_effective_seqno wc cr cs g ls rs)"
proof -
  let ?cs = "[(rs, ''wsrep_recover''), (wc, ''wsrep_last_committed''), (g, ''grastate'')]"
  have "rs > 0 \<or> wc > 0 \<or> g > 0" using assms derive_known by simp
  from derive_known_value[OF this, of cr cs ls]
  have "es_value (derive_effective_seqno wc cr cs g ls rs) = fst (best_candidate ?cs (-1, ''none''))" by (metis fst_conv)
  then show ?thesis using best_candidate_spec[of ?cs "-1" "''none''"] by linarith
qed

text \<open>The named node carries the highest of the known positions, as soon as one is known.\<close>

lemma named_is_best:
  assumes "galera_collect e = Ok d" "(n, es) \<in> set (gd_effective d)" "es_known es"
  shows "\<exists>es. (dc_most_advanced (galera_comparison d), es) \<in> set (gd_effective d) \<and> es_known es \<and>
     es_value es = dc_most_advanced_value (galera_comparison d)"
proof -
  let ?b = "best_known (gd_effective d)"
  have b: "dc_most_advanced (galera_comparison d) = fst ?b" "dc_most_advanced_value (galera_comparison d) = snd ?b"
    using galera_collect_parts(4)[OF assms(1)] by (simp_all add: galera_comparison_fields flip: galera_collect_parts(4)[OF assms(1)])
  have "es_value es \<le> snd ?b" using best_known_max(1)[of "gd_effective d"] assms(2,3) by auto
  moreover have "-2 < es_value es"
    using assms(2,3) known_value_low unfolding galera_collect_parts(3)[OF assms(1)] by (auto simp: effective_of_def)
  ultimately have "?b \<noteq> ('''', -2)" by auto
  then show ?thesis using best_known_max(2)[of "gd_effective d"] b by metis
qed

text \<open>C6: With no Primary component alive, a provable Galera authority is complete: every
  expected node has a known position, at most the reported one; the node that is named as most advanced is
  one that was read and has exactly the reported position, as soon as a node is expected; and all nodes with a
  cluster identity share one lineage.  Missing one node's position can therefore never elect another.\<close>

theorem belly_up_authority_is_complete:
  assumes "galera_collect e = Ok d" "gd_primary_members d = []" "dc_safe_to_heal (galera_comparison d)"
  shows "(\<forall>n\<in>set (galera_expected e). \<exists>es. map_of (gd_effective d) n = Some es \<and> es_known es \<and>
            es_value es \<le> dc_most_advanced_value (galera_comparison d)) \<and>
     (galera_expected e = [] \<or>
        (\<exists>es. (dc_most_advanced (galera_comparison d), es) \<in> set (gd_effective d) \<and> es_known es \<and>
           es_value es = dc_most_advanced_value (galera_comparison d))) \<and>
     (\<forall>p\<in>set (comparison_nodes d). \<forall>q\<in>set (comparison_nodes d).
        real_uuid (node_canonical_uuid d p) \<longrightarrow> real_uuid (node_canonical_uuid d q) \<longrightarrow>
        node_canonical_uuid d p = node_canonical_uuid d q)"
proof (intro conjI)
  note parts = galera_collect_parts[OF assms(1)]
  have ev: "divergence_evidence d = []" and un: "unread_nodes d = []"
    using assms(2,3) by (simp_all add: galera_comparison_fields provable_parts no_member_blocks)
  have all: "\<forall>n\<in>set (galera_expected e). \<exists>es. map_of (gd_effective d) n = Some es \<and> es_known es \<and>
      es_value es \<le> dc_most_advanced_value (galera_comparison d)"
  proof
    fix n assume "n \<in> set (galera_expected e)"
    then have "n \<in> set (map gs_pod (gd_grastate d))" unfolding parts(2) by (rule collect_grastate_covers)
    then obtain g where g: "g \<in> set (gd_grastate d)" "gs_pod g = n" by auto
    then obtain es where es: "map_of (gd_effective d) n = Some es" "es_known es"
      using known_when_read[OF un] by blast
    have "es_value es \<le> snd (best_known (gd_effective d))"
      using best_known_max(1)[of "gd_effective d"] map_of_SomeD[OF es(1)] es(2) by auto
    then show "\<exists>es. map_of (gd_effective d) n = Some es \<and> es_known es \<and> es_value es \<le> dc_most_advanced_value (galera_comparison d)"
      using es by (simp add: galera_comparison_fields flip: parts(4))
  qed
  then show "\<forall>n\<in>set (galera_expected e). \<exists>es. map_of (gd_effective d) n = Some es \<and> es_known es \<and>
      es_value es \<le> dc_most_advanced_value (galera_comparison d)" .
  show "galera_expected e = [] \<or> (\<exists>es. (dc_most_advanced (galera_comparison d), es) \<in> set (gd_effective d) \<and> es_known es \<and>
      es_value es = dc_most_advanced_value (galera_comparison d))"
  proof (cases "galera_expected e")
    case (Cons n ns)
    then obtain es where "map_of (gd_effective d) n = Some es" "es_known es" using all by auto
    then show ?thesis using named_is_best[OF assms(1)] map_of_SomeD by metis
  qed simp
  show "\<forall>p\<in>set (comparison_nodes d). \<forall>q\<in>set (comparison_nodes d).
        real_uuid (node_canonical_uuid d p) \<longrightarrow> real_uuid (node_canonical_uuid d q) \<longrightarrow>
        node_canonical_uuid d p = node_canonical_uuid d q"
    using single_lineage[OF ev] by blast
qed

text \<open>A position is known exactly when a fresh recover, the live status or a clean state
  file gave a positive one; the value is then the largest of these and carries its source,
  and the operator's snapshot and the log estimate never make a position known.\<close>

theorem known_only_from_authoritative:
  "let es = derive_effective_seqno wc cr cs g ls rs in
   (es_known es \<longleftrightarrow> rs > 0 \<or> wc > 0 \<or> g > 0) \<and>
   (if es_known es
    then es_value es = Max {rs, wc, g} \<and>
         (es_value es, es_source es) \<in> {(rs, ''wsrep_recover''), (wc, ''wsrep_last_committed''), (g, ''grastate'')}
    else es_value es = -1 \<or> (es_value es, es_source es) \<in>
           {(ls, ''log_gcache_estimate''), (cr, ''cr_recovered''), (cs, ''cr_state'')})"
proof (cases "rs > 0 \<or> wc > 0 \<or> g > 0")
  case True
  let ?c = "best_candidate [(rs, ''wsrep_recover''), (wc, ''wsrep_last_committed''), (g, ''grastate'')] (-1, ''none'')"
  have *: "(es_value (derive_effective_seqno wc cr cs g ls rs), es_source (derive_effective_seqno wc cr cs g ls rs)) = ?c"
    by (rule derive_known_value[OF True])
  have "fst ?c = Max {rs, wc, g}" "?c \<in> {(rs, ''wsrep_recover''), (wc, ''wsrep_last_committed''), (g, ''grastate'')}"
    using best_candidate_spec[of "[(rs, ''wsrep_recover''), (wc, ''wsrep_last_committed''), (g, ''grastate'')]" "-1" "''none''"] True
    by (auto simp: best_candidate_def max_def)
  then show ?thesis using * True by (simp add: Let_def derive_known) (metis fst_conv)
next
  case False
  then show ?thesis
    by (auto simp: Let_def derive_known derive_effective_seqno_def best_candidate_def)
qed

section \<open>The fenced recovery\<close>

text \<open>The effect of each action on the cluster.  A call takes effect, is refused, or takes effect although its answer
  is lost; for the lock's write the last is \<open>ge_lock_written\<close> beside an error.\<close>

definition lock_written :: "galera_env \<Rightarrow> bool" where
  "lock_written e = (case ge_lock e of Inr won \<Rightarrow> won | Inl _ \<Rightarrow> ge_lock_written e)"

definition triage_lock :: "galera_env \<Rightarrow> string" where
  "triage_lock e = fence_value ''triage-recover'' (ge_lock_time e)"

fun fence_effect :: "galera_env \<Rightarrow> galera_action \<Rightarrow> galera_cluster \<Rightarrow> galera_cluster" where
  "fence_effect e AcquireLock s = (if lock_written e then set_fence_lock (triage_lock e) s else s)"
| "fence_effect e SuspendCR s = snd (call (ge_suspend e) suspend_cr s)"
| "fence_effect e ScaleDown s = snd (call (ge_scale_down e) (scale_stateful_set 0) s)"
| "fence_effect e (ScaleUp n) s = snd (call (ge_scale_up e) (scale_stateful_set n) s)"
| "fence_effect e WaitTerminated s = (if ge_terminated e then pods_terminated s else s)"
| "fence_effect e ResumeCR s = snd (call (ge_resume e) resume_cr s)"
| "fence_effect e ClearLock s = snd (call (ge_clear e) clear_fence_lock s)"
| "fence_effect e DeleteRecoveryPods s = s"
| "fence_effect e (WsrepRecover p) s = s"

definition fence_after :: "galera_env \<Rightarrow> galera_action list \<Rightarrow> galera_cluster \<Rightarrow> galera_cluster" where
  "fence_after e as s = fold (fence_effect e) as s"

text \<open>A data directory may be opened only while nothing else can open it.\<close>

definition exclusive_access :: "galera_cluster \<Rightarrow> bool" where
  "exclusive_access s \<longleftrightarrow> gc_lock s \<noteq> '''' \<and> gc_suspend s \<and> gc_replicas s = 0 \<and> \<not> gc_pods s"

fun reads_exclusive :: "galera_env \<Rightarrow> galera_action list \<Rightarrow> galera_cluster \<Rightarrow> bool" where
  "reads_exclusive e [] s = True"
| "reads_exclusive e (a # as) s =
     ((case a of WsrepRecover _ \<Rightarrow> exclusive_access s | _ \<Rightarrow> True) \<and> reads_exclusive e as (fence_effect e a s))"

lemma fence_after_simps [simp]:
  "fence_after e [] s = s" "fence_after e (a # as) s = fence_after e as (fence_effect e a s)"
  "fence_after e (as @ bs) s = fence_after e bs (fence_after e as s)"
  by (simp_all add: fence_after_def)

lemma reads_exclusive_append [simp]:
  "reads_exclusive e (as @ bs) s \<longleftrightarrow> reads_exclusive e as s \<and> reads_exclusive e bs (fence_after e as s)"
  by (induction as arbitrary: s) auto

lemma recover_reads [simp]:
  "fence_after e (map WsrepRecover ns) s = s"
  "reads_exclusive e (map WsrepRecover ns) s \<longleftrightarrow> ns = [] \<or> exclusive_access s"
  by (induction ns) auto

text \<open>The ways the recovery leaves something behind: a call that took effect behind a lost answer, before its undoing
  was deferred, and an undoing that was refused.\<close>

definition stays_suspended :: "galera_env \<Rightarrow> bool" where
  "stays_suspended e \<longleftrightarrow> ge_lock e = Ok True \<and>
     (ge_suspend e = AppliedLost \<or> ge_suspend e = Applied \<and> ge_resume e = Refused)"

definition stays_down :: "galera_env \<Rightarrow> bool" where
  "stays_down e \<longleftrightarrow> ge_lock e = Ok True \<and> ge_suspend e = Applied \<and>
     (ge_scale_down e = AppliedLost \<or> ge_scale_down e = Applied \<and> ge_scale_up e = Refused)"

definition stays_locked :: "galera_env \<Rightarrow> bool" where
  "stays_locked e \<longleftrightarrow> (if ge_lock e = Ok True then ge_clear e = Refused else lock_written e)"

lemma triage_lock_held: "triage_lock e \<noteq> ''''"
  by (simp add: triage_lock_def fence_value_def)

text \<open>C7: On every path the fenced recovery of triage opens a data directory only under its lock, with the resource
  suspended, zero replicas and no pod left.  It ends with the resource running, the StatefulSet at its replicas and
  its lock gone, except for exactly this: the resource stays suspended when the suspension took effect behind a lost
  answer or the resumption was refused, the StatefulSet stays at zero likewise, and the lock stays when its removal
  was refused or its write took effect behind an error.  Nothing else of the cluster changes.\<close>

theorem deep_recover_is_fenced_and_restores:
  "let s = \<lparr> gc_version = v, gc_suspend = False, gc_lock = l, gc_force = f, gc_recovery = r,
             gc_replicas = ge_replicas e, gc_pods = p, gc_safe = fl, gc_no_cache = nc \<rparr>;
       acts = snd (deep_recover e nodes); s' = fence_after e acts s
   in reads_exclusive e acts s \<and>
      gc_suspend s' = stays_suspended e \<and>
      gc_replicas s' = (if stays_down e then 0 else ge_replicas e) \<and>
      gc_lock s' = (if stays_locked e then triage_lock e else if ge_lock e = Ok True then '''' else l) \<and>
      gc_force s' = f \<and> gc_recovery s' = r \<and> gc_safe s' = fl \<and> gc_no_cache s' = nc"
proof (cases "ge_lock e = Ok True")
  case False
  then show ?thesis
    by (auto simp: deep_recover_def Let_def cluster_ops stays_suspended_def stays_down_def stays_locked_def lock_written_def
        split: sum.splits bool.splits)
next
  case True
  then show ?thesis
    by (cases "ge_suspend e"; cases "ge_resume e"; cases "ge_clear e"; cases "ge_scale_down e"; cases "ge_scale_up e")
      (simp_all add: deep_recover_def Let_def exclusive_access_def cluster_ops triage_lock_held stays_suspended_def stays_down_def
        stays_locked_def lock_written_def)
qed

text \<open>The resumption is deferred only after the suspension was answered: a suspension whose answer was lost stays.\<close>

lemma lost_suspension_stays:
  assumes "ge_lock e = Ok True" "ge_suspend e = AppliedLost"
  shows "gc_suspend (fence_after e (snd (deep_recover e nodes)) s)"
  using assms by (cases "ge_clear e") (simp_all add: deep_recover_def cluster_ops)

section \<open>Healing\<close>

lemma safe_advice_heal:
  "na_heal (advise_node c safe out v) \<Longrightarrow> safe"
  by (auto simp: advise_node_def node_unsafe_def node_advise_def split: if_splits)

text \<open>A running node whose status query failed is never marked for a heal, and no node is
  while the comparison is unsafe, so a failed read never costs a node its data.\<close>

theorem failed_read_never_heals:
  "\<not> (ia_needs_heal (assess_node c d cmp g) \<and> \<not> dc_safe_to_heal cmp) \<and>
   (if gs_pod g \<in> set (map p_name (gd_running d)) \<and> gs_pod g \<notin> set (map p_name (gd_crashloop d)) \<and>
       map_of (gd_wsrep d) (gs_pod g) = Some unread_wsrep
    then \<not> ia_needs_heal (assess_node c d cmp g) else True)"
proof -
  define v where "v = node_view_of d cmp g"
  have heal: "ia_needs_heal (assess_node c d cmp g) = na_heal (advise_node c (dc_safe_to_heal cmp) (dc_authority cmp) v)"
    by (simp add: assess_node_def Let_def v_def)
  have "\<not> na_heal (advise_node c (dc_safe_to_heal cmp) (dc_authority cmp) v)"
    if "nv_running v" "nv_ws v = Some unread_wsrep" "nv_state v = 0" "nv_connected v = ''''" "nv_ready v = ''''"
    using that by (simp add: advise_node_def node_unread_def unread_wsrep_def node_unread_wsrep_def node_unsafe_def node_advise_def)
  moreover have "nv_running v \<and> nv_ws v = Some unread_wsrep \<and> nv_state v = 0 \<and> nv_connected v = '''' \<and> nv_ready v = ''''"
    if "gs_pod g \<in> set (map p_name (gd_running d))" "gs_pod g \<notin> set (map p_name (gd_crashloop d))"
      "map_of (gd_wsrep d) (gs_pod g) = Some unread_wsrep"
    using that by (simp add: v_def node_view_of_def Let_def unread_wsrep_def)
  ultimately show ?thesis unfolding heal using safe_advice_heal by (simp split: if_split) blast
qed

section \<open>Live clusters\<close>

text \<open>Authority is provable exactly when nothing shows divergence and every unread node is on the
  lineage of a Primary member with a cluster identity.  The Primary component is not counted: one
  member vouches for any number of unread nodes.\<close>

theorem provable_needs_lineage_not_majority:
  "galera_outcome d = AuthorityProvable \<longleftrightarrow>
     divergence_evidence d = [] \<and>
     list_all (\<lambda>p. quorum_uuid d \<noteq> '''' \<and> node_canonical_uuid d p = quorum_uuid d) (unread_nodes d)"
  by (auto simp: provable_parts blocking_nodes_def clean_quorum_def filter_empty_conv list_all_iff)

section \<open>Witnesses\<close>

text \<open>Two nodes, both down, whose positions come from the fenced recovery.\<close>

definition demo_uuid :: string where "demo_uuid = ''1f2e3d4c-0000-1111-2222-333344445555''"

definition demo_galera :: galera_env where
  "demo_galera = \<lparr> ge_cluster = ''db'', ge_namespace = ''ns'', ge_replicas = 2, ge_suspended = False,
     ge_galera_condition = '''', ge_pods = Ok [], ge_storage = (\<lambda>_ _. GetFound), ge_grastate = (\<lambda>_. Err ''down''),
     ge_probe = (\<lambda>_. Err ''pending''), ge_wsrep = (\<lambda>_ _. Err ''down''), ge_log = (\<lambda>_. Err ''down''),
     ge_root_password = ''pw'', ge_select1 = (\<lambda>_. Err ''down''), ge_lock = Ok True, ge_lock_written = True, ge_lock_time = 0,
     ge_suspend = Applied, ge_scale_down = Applied, ge_terminated = True, ge_scale_up = Applied, ge_resume = Applied,
     ge_clear = Applied,
     ge_recover = (\<lambda>n. Ok (''Recovered position: '' @ demo_uuid @ '':'' @ (if n = ''db-0'' then ''41'' else ''42''))),
     ge_recovered = [], ge_state = [], ge_df = (\<lambda>_. Err ''down'') \<rparr>"

definition demo_galera_data :: galera_data where
  "demo_galera_data = (case galera_collect demo_galera of Inr d \<Rightarrow> d | Inl _ \<Rightarrow> undefined)"

lemma demo_galera_collect: "galera_collect demo_galera = Ok demo_galera_data"
proof -
  have "is_ok (galera_collect demo_galera)" by code_simp
  then show ?thesis by (auto simp: demo_galera_data_def elim!: is_ok_E)
qed

lemma belly_up_authority_is_complete_witness:
  "\<exists>es. (dc_most_advanced (galera_comparison demo_galera_data), es) \<in> set (gd_effective demo_galera_data) \<and> es_known es \<and>
     es_value es = dc_most_advanced_value (galera_comparison demo_galera_data)"
proof -
  have "gd_primary_members demo_galera_data = [] \<and> dc_safe_to_heal (galera_comparison demo_galera_data)"
    unfolding demo_galera_data_def by code_simp
  moreover have "galera_expected demo_galera \<noteq> []" by code_simp
  ultimately show ?thesis using belly_up_authority_is_complete[OF demo_galera_collect] by blast
qed

end
