(* ===== verification/Fence_Lock.thy ===== *)
theory Fence_Lock
  imports Galera_Provider
begin

text \<open>
  The fence lock as a concurrent protocol.  \<open>AcquireFenceLock\<close> reads the resource, checks
  it, stamps its own value and writes with the version it read; bootstrap only looks for a
  fresh lock before its triage and later suspends the resource and patches its own value in
  without a version.  Contenders, the clock and other writers interleave freely.  The
  safety of the acquirers is an invariant of the reachable worlds; bootstrap's entry breaks
  it, and so does a holder that outlives the lock's hour.
\<close>

section \<open>Worlds and events\<close>

datatype phase = Idle | Seen galera_cluster | Cleared galera_cluster | Stamped galera_cluster int | Holding int
  | BootChecked | BootSuspended

record world =
  w_now :: int
  w_cluster :: galera_cluster
  w_phase :: "(nat \<times> phase) list"

datatype event =
    Tick int | OtherWrite
  | Get nat | Check nat | Stamp nat | Write nat
  | Suspend nat | Resume nat | Scale nat int | Release nat | Crash nat
  | BootCheck nat | BootSuspend nat | BootLock nat

definition clock_ok :: "int \<Rightarrow> bool" where
  "clock_ok t \<longleftrightarrow> (case civil_from_days (t div nanos div 86400) of (y, _, _) \<Rightarrow> 0 \<le> y \<and> y \<le> 9999)"

definition triage_holder :: string where "triage_holder = ''triage-recover''"

definition phase_of :: "world \<Rightarrow> nat \<Rightarrow> phase" where "phase_of w i = map_get Idle (w_phase w) i"

definition enter :: "nat \<Rightarrow> phase \<Rightarrow> world \<Rightarrow> world" where
  "enter i p w = w\<lparr> w_phase := map_set i p (w_phase w) \<rparr>"

definition on_fence_cluster :: "(galera_cluster \<Rightarrow> galera_cluster) \<Rightarrow> world \<Rightarrow> world" where
  "on_fence_cluster f w = w\<lparr> w_cluster := f (w_cluster w) \<rparr>"

definition holding :: "world \<Rightarrow> nat \<Rightarrow> bool" where
  "holding w i = (case phase_of w i of Holding _ \<Rightarrow> True | _ \<Rightarrow> False)"

definition guarded :: "bool \<Rightarrow> 'a \<Rightarrow> 'a option" where "guarded b x = (if b then Some x else None)"

fun do_check :: "nat \<Rightarrow> phase \<Rightarrow> world \<Rightarrow> world option" where
  "do_check i (Seen obj) w = Some (enter i (if fence_lock_free (w_now w) obj then Cleared obj else Idle) w)"
| "do_check i _ w = None"

fun do_stamp :: "nat \<Rightarrow> phase \<Rightarrow> world \<Rightarrow> world option" where
  "do_stamp i (Cleared obj) w = Some (enter i (Stamped obj (w_now w)) w)"
| "do_stamp i _ w = None"

fun do_write :: "nat \<Rightarrow> phase \<Rightarrow> world \<Rightarrow> world option" where
  "do_write i (Stamped obj t) w =
     (case cas_fence_lock (fence_value triage_holder t) (gc_version obj) (w_cluster w) of
        (won, s) \<Rightarrow> Some (enter i (if won then Holding t else Idle) (w\<lparr> w_cluster := s \<rparr>)))"
| "do_write i _ w = None"

fun step_event :: "event \<Rightarrow> world \<Rightarrow> world option" where
  "step_event (Tick t) w = guarded (w_now w \<le> t \<and> clock_ok t) (w\<lparr> w_now := t \<rparr>)"
| "step_event OtherWrite w = Some (on_fence_cluster bump w)"
| "step_event (Get i) w = guarded (phase_of w i = Idle) (enter i (Seen (w_cluster w)) w)"
| "step_event (Check i) w = do_check i (phase_of w i) w"
| "step_event (Stamp i) w = do_stamp i (phase_of w i) w"
| "step_event (Write i) w = do_write i (phase_of w i) w"
| "step_event (Suspend i) w = guarded (holding w i) (on_fence_cluster suspend_cr w)"
| "step_event (Resume i) w = guarded (holding w i) (on_fence_cluster resume_cr w)"
| "step_event (Scale i n) w = guarded (holding w i) (on_fence_cluster (scale_stateful_set n) w)"
| "step_event (Release i) w = guarded (holding w i) (enter i Idle (on_fence_cluster clear_fence_lock w))"
| "step_event (Crash i) w = Some (enter i Idle w)"
| "step_event (BootCheck i) w =
     guarded (phase_of w i = Idle \<and> \<not> lock_fresh (w_now w) (gc_lock (w_cluster w))) (enter i BootChecked w)"
| "step_event (BootSuspend i) w =
     guarded (phase_of w i = BootChecked) (enter i BootSuspended (on_fence_cluster suspend_cr w))"
| "step_event (BootLock i) w =
     guarded (phase_of w i = BootSuspended)
       (enter i (Holding (w_now w)) (on_fence_cluster (set_fence_lock (fence_value ''pod'' (w_now w))) w))"

fun run_events :: "event list \<Rightarrow> world \<Rightarrow> world option" where
  "run_events [] w = Some w"
| "run_events (e # es) w = (case step_event e w of None \<Rightarrow> None | Some w' \<Rightarrow> run_events es w')"

fun acquirer_event :: "event \<Rightarrow> bool" where
  "acquirer_event (BootCheck _) = False"
| "acquirer_event (BootSuspend _) = False"
| "acquirer_event (BootLock _) = False"
| "acquirer_event _ = True"

lemma phase_of_simps [simp]:
  "phase_of (enter i p w) j = (if j = i then p else phase_of w j)" "phase_of (on_fence_cluster f w) j = phase_of w j"
  "phase_of (w\<lparr> w_now := t \<rparr>) j = phase_of w j" "phase_of (w\<lparr> w_cluster := s \<rparr>) j = phase_of w j"
  "w_now (enter i p w) = w_now w" "w_cluster (enter i p w) = w_cluster w"
  "w_now (on_fence_cluster f w) = w_now w" "w_cluster (on_fence_cluster f w) = f (w_cluster w)"
  by (simp_all add: phase_of_def enter_def on_fence_cluster_def)

section \<open>Reachable worlds\<close>

text \<open>A stamp is timely while its value still counts as fresh.\<close>

fun stamp_timely :: "int \<Rightarrow> phase \<Rightarrow> bool" where
  "stamp_timely now (Stamped _ t) \<longleftrightarrow> now - t < hour_ns - nanos"
| "stamp_timely now (Holding t) \<longleftrightarrow> now - t < hour_ns - nanos"
| "stamp_timely now _ \<longleftrightarrow> True"

definition timely :: "world \<Rightarrow> bool" where
  "timely w \<longleftrightarrow> (\<forall>i. stamp_timely (w_now w) (phase_of w i))"

definition initial :: "world \<Rightarrow> bool" where
  "initial w \<longleftrightarrow> clock_ok (w_now w) \<and> gc_lock (w_cluster w) = '''' \<and> (\<forall>i. phase_of w i = Idle)"

inductive timely_reach :: "world \<Rightarrow> bool" where
  init: "initial w \<Longrightarrow> timely_reach w"
| step: "timely_reach w \<Longrightarrow> acquirer_event e \<Longrightarrow> step_event e w = Some w' \<Longrightarrow> timely w' \<Longrightarrow> timely_reach w'"

section \<open>Freshness of a stamp\<close>

lemma split_n2_append: "c \<notin> set a \<Longrightarrow> split_n2 c (a @ [c] @ b) = [a, b]"
  by (induction a) (auto simp: split_n2_def)

lemma fence_value_fresh:
  assumes "clock_ok t" "CHR ''@'' \<notin> set h" "c - t < hour_ns - nanos"
  shows "lock_fresh c (fence_value h t)"
proof -
  have rt: "parse_rfc3339 (format_rfc3339 t) = Some (t - t mod nanos)"
    using assms(1) by (intro rfc3339_roundtrip) (auto simp: clock_ok_def split: prod.splits)
  have "t mod nanos < nanos" by (simp add: nanos_def)
  then have "c - (t - t mod nanos) < hour_ns" using assms(3) by linarith
  then show ?thesis
    using split_n2_append[OF assms(2), of "format_rfc3339 t"] rt by (simp add: lock_fresh_def fence_value_def)
qed

lemma triage_value_fresh: "clock_ok t \<Longrightarrow> c - t < hour_ns - nanos \<Longrightarrow> lock_fresh c (fence_value triage_holder t)"
  by (rule fence_value_fresh) (simp_all add: triage_holder_def)

section \<open>The invariant of the acquirers\<close>

fun phase_obj :: "phase \<Rightarrow> galera_cluster option" where
  "phase_obj (Seen s) = Some s" | "phase_obj (Cleared s) = Some s" | "phase_obj (Stamped s _) = Some s" | "phase_obj _ = None"

fun phase_cleared :: "phase \<Rightarrow> galera_cluster option" where
  "phase_cleared (Cleared s) = Some s" | "phase_cleared (Stamped s _) = Some s" | "phase_cleared _ = None"

fun phase_stamp :: "phase \<Rightarrow> int option" where
  "phase_stamp (Stamped _ t) = Some t" | "phase_stamp (Holding t) = Some t" | "phase_stamp _ = None"

fun phase_boot :: "phase \<Rightarrow> bool" where
  "phase_boot BootChecked = True" | "phase_boot BootSuspended = True" | "phase_boot _ = False"

definition lock_inv :: "world \<Rightarrow> bool" where
  "lock_inv w \<longleftrightarrow> clock_ok (w_now w) \<and>
     (\<forall>i t. phase_stamp (phase_of w i) = Some t \<longrightarrow> clock_ok t \<and> t \<le> w_now w) \<and>
     (\<forall>i s. phase_obj (phase_of w i) = Some s \<longrightarrow> gc_version s \<le> gc_version (w_cluster w) \<and>
        (gc_version s = gc_version (w_cluster w) \<longrightarrow> gc_lock s = gc_lock (w_cluster w))) \<and>
     (\<forall>i s. phase_cleared (phase_of w i) = Some s \<longrightarrow> (\<exists>c \<le> w_now w. \<not> lock_fresh c (gc_lock s))) \<and>
     (\<forall>i t. phase_of w i = Holding t \<longrightarrow> gc_lock (w_cluster w) = fence_value triage_holder t) \<and>
     (\<forall>i j. holding w i \<longrightarrow> holding w j \<longrightarrow> i = j)"

lemma holding_iff: "holding w i \<longleftrightarrow> (\<exists>t. phase_of w i = Holding t)"
  by (auto simp: holding_def split: phase.splits)

lemma initial_inv: "initial w \<Longrightarrow> lock_inv w"
  by (simp add: initial_def lock_inv_def holding_def)

lemma guarded_Some [simp]: "guarded b x = Some y \<longleftrightarrow> b \<and> x = y"
  by (simp add: guarded_def)

lemma inv_idle: "lock_inv w \<Longrightarrow> lock_inv (enter i Idle w)"
  unfolding lock_inv_def holding_iff by (auto split: if_splits)

lemma inv_cluster:
  assumes "lock_inv w" "gc_lock (f (w_cluster w)) = gc_lock (w_cluster w)" "gc_version (w_cluster w) \<le> gc_version (f (w_cluster w))"
  shows "lock_inv (on_fence_cluster f w)"
proof -
  have "gc_version s \<le> gc_version (f (w_cluster w)) \<and>
      (gc_version s = gc_version (f (w_cluster w)) \<longrightarrow> gc_lock s = gc_lock (f (w_cluster w)))"
    if "phase_obj (phase_of w i) = Some s" for i s
  proof -
    have "gc_version s \<le> gc_version (w_cluster w) \<and> (gc_version s = gc_version (w_cluster w) \<longrightarrow> gc_lock s = gc_lock (w_cluster w))"
      using assms(1) that unfolding lock_inv_def by blast
    then show ?thesis using assms(2,3) by auto
  qed
  then show ?thesis using assms(1) unfolding lock_inv_def holding_iff phase_of_simps assms(2) by blast
qed

lemma inv_tick: "lock_inv w \<Longrightarrow> w_now w \<le> t \<Longrightarrow> clock_ok t \<Longrightarrow> lock_inv (w\<lparr> w_now := t \<rparr>)"
  unfolding lock_inv_def holding_iff phase_of_simps by simp (meson order_trans)

lemma inv_get: "lock_inv w \<Longrightarrow> lock_inv (enter i (Seen (w_cluster w)) w)"
  unfolding lock_inv_def holding_iff by (auto split: if_splits)

lemma inv_release:
  assumes "lock_inv w" "holding w i"
  shows "lock_inv (enter i Idle (on_fence_cluster clear_fence_lock w))"
proof -
  have "phase_of w j \<noteq> Holding t" if "j \<noteq> i" for j t
    using assms that unfolding lock_inv_def holding_iff by blast
  then show ?thesis using assms(1) unfolding lock_inv_def holding_iff clear_fence_lock_def bump_def
    by (fastforce split: if_splits)
qed

text \<open>While a timely holder exists, no cleared contender can still win.\<close>

lemma holder_excludes:
  assumes "lock_inv w" "timely w" "phase_of w j = Holding t" "phase_of w i = Stamped obj t'"
  shows "gc_version (w_cluster w) \<noteq> gc_version obj"
proof
  assume "gc_version (w_cluster w) = gc_version obj"
  then have "gc_lock obj = fence_value triage_holder t"
    using assms(1,3,4) unfolding lock_inv_def by (metis phase_obj.simps(3))
  moreover obtain c where "c \<le> w_now w" "\<not> lock_fresh c (gc_lock obj)"
    using assms(1,4) unfolding lock_inv_def by (metis phase_cleared.simps(2))
  moreover have "clock_ok t" using assms(1,3) unfolding lock_inv_def by (metis phase_stamp.simps(2))
  moreover have "w_now w - t < hour_ns - nanos" using assms(2,3) unfolding timely_def by (metis stamp_timely.simps(2))
  ultimately show False using triage_value_fresh[of t c] by simp
qed

lemma write_inv:
  assumes "lock_inv w" "timely w" "step_event (Write i) w = Some w'"
  shows "lock_inv w'"
proof -
  obtain obj t where p: "phase_of w i = Stamped obj t" using assms(3) by (cases "phase_of w i") auto
  show ?thesis
  proof (cases "gc_version (w_cluster w) = gc_version obj")
    case False
    then have "w' = enter i Idle w" using assms(3) p by (simp add: cas_fence_lock_def)
    then show ?thesis using assms(1) unfolding lock_inv_def holding_iff
      by (auto split: if_splits)
  next
    case True
    then have w': "w' = enter i (Holding t) (on_fence_cluster (set_fence_lock (fence_value triage_holder t)) w)"
      using assms(3) p by (simp add: cas_fence_lock_def on_fence_cluster_def)
    have none: "phase_of w j \<noteq> Holding t'" for j t'
      using holder_excludes[OF assms(1,2)] p True by blast
    have "clock_ok t \<and> t \<le> w_now w" using assms(1) p unfolding lock_inv_def by (metis phase_stamp.simps(1))
    then show ?thesis
      using assms(1) none unfolding w' lock_inv_def holding_iff set_fence_lock_def bump_def
      by (fastforce split: if_splits)
  qed
qed

lemma step_inv:
  assumes "lock_inv w" "timely w" "acquirer_event e" "step_event e w = Some w'"
  shows "lock_inv w'"
proof (cases e)
  case (Write i)
  then show ?thesis using write_inv assms by blast
next
  case (Check i)
  obtain obj where p: "phase_of w i = Seen obj" using assms(4) Check by (cases "phase_of w i") auto
  then have "w' = enter i (if fence_lock_free (w_now w) obj then Cleared obj else Idle) w" using assms(4) Check by simp
  moreover have "gc_version obj \<le> gc_version (w_cluster w) \<and>
      (gc_version obj = gc_version (w_cluster w) \<longrightarrow> gc_lock obj = gc_lock (w_cluster w))"
    using assms(1) p unfolding lock_inv_def by (metis phase_obj.simps(1))
  ultimately show ?thesis using assms(1) unfolding lock_inv_def holding_iff fence_lock_free_def
    by (fastforce split: if_splits)
next
  case (Stamp i)
  obtain obj where p: "phase_of w i = Cleared obj" using assms(4) Stamp by (cases "phase_of w i") auto
  then have w': "w' = enter i (Stamped obj (w_now w)) w" using assms(4) Stamp by simp
  have "gc_version obj \<le> gc_version (w_cluster w) \<and>
      (gc_version obj = gc_version (w_cluster w) \<longrightarrow> gc_lock obj = gc_lock (w_cluster w))"
    "\<exists>c \<le> w_now w. \<not> lock_fresh c (gc_lock obj)"
    using assms(1) p unfolding lock_inv_def by (metis phase_obj.simps(2) phase_cleared.simps(1))+
  then show ?thesis using assms(1) unfolding w' lock_inv_def holding_iff by (fastforce split: if_splits)
next
  case (Release i)
  then show ?thesis using assms inv_release by auto
qed (use assms in \<open>auto intro!: inv_idle inv_cluster inv_tick inv_get inv_release simp: cluster_ops\<close>)

text \<open>C8: Acquirers of the fence lock exclude each other: whatever the interleaving of their
  reads, checks, stamps and writes with the clock, other writers and crashes, at most one holds
  the lock in every world reached with holds shorter than the lock's hour.\<close>

theorem acquirers_exclude_each_other:
  assumes "timely_reach w" "phase_of w i = Holding t" "phase_of w j = Holding t'"
  shows "i = j"
proof -
  have "lock_inv w \<and> timely w" using assms(1)
  proof (induction)
    case (init w)
    then show ?case by (simp add: initial_inv timely_def initial_def)
  next
    case (step w e w')
    then show ?case using step_inv by blast
  qed
  then show ?thesis using assms(2,3) unfolding lock_inv_def holding_iff by blast
qed

section \<open>Where exclusion ends\<close>

text \<open>An unlocked, unsuspended cluster of three at 2024-02-29T00:00:00Z.\<close>

definition day0 :: int where "day0 = nanos * 1709164800"

definition demo_cluster :: galera_cluster where
  "demo_cluster = \<lparr> gc_version = 1, gc_suspend = False, gc_lock = '''', gc_force = None, gc_recovery = False,
     gc_replicas = 3, gc_pods = True, gc_safe = [], gc_no_cache = [] \<rparr>"

definition demo_world :: world where
  "demo_world = \<lparr> w_now = day0, w_cluster = demo_cluster, w_phase = [] \<rparr>"

definition acquire_events :: "nat \<Rightarrow> event list" where
  "acquire_events i = [Get i, Check i, Stamp i, Write i]"

text \<open>Bootstrap looked before the triage of contender 0 took the lock, and patches its value in;
  then the triage, which reads the positions, restores what it found.\<close>

definition boot_race :: "event list" where
  "boot_race = [BootCheck 1] @ acquire_events 0 @ [Suspend 0, BootSuspend 1, BootLock 1, Scale 0 0, Scale 1 0]"

definition triage_cleanup :: "event list" where
  "triage_cleanup = [Tick (day0 + nanos), Scale 0 3, Resume 0, Release 0]"

definition late_release :: "event list" where
  "late_release = acquire_events 0 @ [Tick (day0 + hour_ns)] @ acquire_events 1 @ [Release 0] @ acquire_events 2"

definition in_world :: "(world \<Rightarrow> bool) \<Rightarrow> world option \<Rightarrow> bool" where
  "in_world P r = (case r of None \<Rightarrow> False | Some w \<Rightarrow> P w)"


text \<open>Bootstrap does not exclude a fenced triage: its check precedes its own triage and its lock
  is patched in unconditionally, so both are inside the fence at the same instant, and one second
  later the triage's cleanup has unlocked, resumed and scaled up the cluster that bootstrap
  still holds fenced.\<close>

theorem bootstrap_entry_breaks_exclusion:
  "in_world (\<lambda>w. phase_of w 0 = Holding day0 \<and> phase_of w 1 = Holding day0) (run_events boot_race demo_world) \<and>
   in_world (\<lambda>w. phase_of w 1 = Holding day0 \<and> w_now w = day0 + nanos \<and> \<not> gc_suspend (w_cluster w) \<and>
        gc_lock (w_cluster w) = '''' \<and> gc_replicas (w_cluster w) = 3 \<and> gc_pods (w_cluster w))
     (run_events (boot_race @ triage_cleanup) demo_world)"
  by code_simp

text \<open>A release does not check whose lock it removes: a holder that outlived the hour removes
  its successor's lock, and a third contender is admitted beside the second at the same instant.\<close>

theorem late_release_unlocks_successor:
  "in_world (\<lambda>w. phase_of w 1 = Holding (day0 + hour_ns) \<and> phase_of w 2 = Holding (day0 + hour_ns))
     (run_events late_release demo_world)"
  by code_simp

section \<open>Witness\<close>

definition world_after :: "event list \<Rightarrow> world" where
  "world_after es = (case run_events es demo_world of Some w \<Rightarrow> w | None \<Rightarrow> demo_world)"

definition held_world :: world where
  "held_world = demo_world\<lparr> w_cluster := set_fence_lock (fence_value triage_holder day0) demo_cluster,
     w_phase := [(0, Holding day0)] \<rparr>"

lemma held_world_reached: "timely_reach held_world"
proof -
  have i: "timely_reach demo_world"
  proof (rule timely_reach.init)
    have "clock_ok day0" by code_simp
    then show "initial demo_world" by (simp add: initial_def demo_world_def demo_cluster_def phase_of_def map_get_def)
  qed
  have free: "fence_lock_free day0 demo_cluster" by code_simp
  have s1: "step_event (Get 0) demo_world = Some (demo_world\<lparr> w_phase := [(0, Seen demo_cluster)] \<rparr>)"
    by (simp add: demo_world_def guarded_def enter_def phase_of_def map_get_def)
  have s2: "step_event (Check 0) (demo_world\<lparr> w_phase := [(0, Seen demo_cluster)] \<rparr>)
      = Some (demo_world\<lparr> w_phase := [(0, Cleared demo_cluster)] \<rparr>)"
    using free by (simp add: demo_world_def enter_def phase_of_def map_get_def)
  have s3: "step_event (Stamp 0) (demo_world\<lparr> w_phase := [(0, Cleared demo_cluster)] \<rparr>)
      = Some (demo_world\<lparr> w_phase := [(0, Stamped demo_cluster day0)] \<rparr>)"
    by (simp add: demo_world_def enter_def phase_of_def map_get_def)
  have s4: "step_event (Write 0) (demo_world\<lparr> w_phase := [(0, Stamped demo_cluster day0)] \<rparr>) = Some held_world"
    by (simp add: demo_world_def enter_def held_world_def cas_fence_lock_def phase_of_def map_get_def)
  have t: "timely (demo_world\<lparr> w_phase := [(0, p)] \<rparr>)" if "stamp_timely day0 p" for p
    using that by (simp add: timely_def demo_world_def phase_of_def map_get_def)
  have l: "stamp_timely day0 (Stamped demo_cluster day0)" "timely held_world"
    by (simp_all add: timely_def held_world_def demo_world_def hour_ns_def nanos_def phase_of_def map_get_def)
  show ?thesis
    by (rule timely_reach.step[OF timely_reach.step[OF timely_reach.step[OF timely_reach.step[OF i _ s1] _ s2] _ s3] _ s4])
       (simp_all add: t l hour_ns_def nanos_def)
qed

lemma acquirers_exclude_each_other_witness: "(0::nat) = 0 \<and> holding held_world 0"
proof -
  have h: "phase_of held_world 0 = Holding day0" by (simp add: held_world_def phase_of_def map_get_def)
  show ?thesis using acquirers_exclude_each_other[OF held_world_reached h h] h by (simp add: holding_def)
qed

end
