(* ===== verification/Boot_Select.thy ===== *)
theory Boot_Select
  imports Galera_Triage
begin

text \<open>
  The choice of the bootstrap source (\<open>src/engine/bootstrap/galera.go\<close>): which recovered
  positions may drive authority, their partition into lineages, and \<open>selectCandidate\<close>.
  The map of recovered positions is an association list in its iteration order.
\<close>

section \<open>Lineages\<close>

type_synonym recovered = "(string \<times> wsrep_recover_result) list"

definition is_authoritative_recover :: "wsrep_recover_result \<Rightarrow> bool" where
  "is_authoritative_recover r \<longleftrightarrow> wr_valid r \<and> wr_uuid r \<noteq> zero_uuid \<and> wr_uuid r \<noteq> '''' \<and> wr_uuid r \<noteq> unknown \<and>
     wr_seqno r \<ge> 0 \<and> wr_seqno r \<le> max_phantom_seqno"

definition zero_recover :: wsrep_recover_result where
  "zero_recover = \<lparr> wr_uuid = '''', wr_seqno = 0, wr_last_committed = 0, wr_valid = False \<rparr>"

definition candidate_override_discards_data :: "bool \<Rightarrow> int \<Rightarrow> int \<Rightarrow> bool" where
  "candidate_override_discards_data leader_recovered leader_known best \<longleftrightarrow> \<not> leader_recovered \<and> leader_known > best"

definition new_group :: "string \<Rightarrow> lineage_group" where
  "new_group u = \<lparr> lg_uuid = u, lg_members = [], lg_max_seqno = 0, lg_max_committed = 0, lg_best_node = '''' \<rparr>"

definition join_group :: "string \<Rightarrow> wsrep_recover_result \<Rightarrow> lineage_group \<Rightarrow> lineage_group" where
  "join_group p r g =
     (let g' = g\<lparr> lg_members := lg_members g @ [p] \<rparr> in
      if wr_seqno r > lg_max_seqno g \<or> (wr_seqno r = lg_max_seqno g \<and> wr_last_committed r > lg_max_committed g)
      then g'\<lparr> lg_max_seqno := wr_seqno r, lg_max_committed := wr_last_committed r, lg_best_node := p \<rparr>
      else g')"

definition add_recover :: "string \<times> wsrep_recover_result \<Rightarrow> (string \<times> lineage_group) list \<Rightarrow> (string \<times> lineage_group) list" where
  "add_recover e m =
     (case e of (p, r) \<Rightarrow>
        if is_authoritative_recover r
        then map_set (wr_uuid r) (join_group p r (map_get (new_group (wr_uuid r)) m (wr_uuid r))) m
        else m)"

definition group_before :: "lineage_group \<Rightarrow> lineage_group \<Rightarrow> bool" where
  "group_before a b =
     (if length (lg_members a) \<noteq> length (lg_members b) then length (lg_members a) > length (lg_members b)
      else lg_max_seqno a > lg_max_seqno b)"

definition build_lineage_groups :: "recovered \<Rightarrow> lineage_group list" where
  "build_lineage_groups rec =
     sort_by group_before (map (\<lambda>(_, g). g\<lparr> lg_members := sort (lg_members g) \<rparr>) (fold add_recover rec []))"

section \<open>Selection\<close>

record pick =
  pk_pod :: string
  pk_seqno :: int
  pk_committed :: int
  pk_uuid :: string

definition no_pick :: pick where
  "no_pick = \<lparr> pk_pod = '''', pk_seqno = -1, pk_committed = -1, pk_uuid = '''' \<rparr>"

definition consider_pick :: "(wsrep_recover_result \<Rightarrow> bool) \<Rightarrow> string \<times> wsrep_recover_result \<Rightarrow> pick \<Rightarrow> pick" where
  "consider_pick ok e k =
     (case e of (p, r) \<Rightarrow>
        if \<not> is_authoritative_recover r then k
        else if \<not> ok r then k
        else if pk_pod k = '''' \<or> wr_seqno r > pk_seqno k \<or> (wr_seqno r = pk_seqno k \<and> wr_last_committed r > pk_committed k)
        then \<lparr> pk_pod = p, pk_seqno = wr_seqno r, pk_committed = wr_last_committed r, pk_uuid = wr_uuid r \<rparr>
        else k)"

definition best_pick :: "(wsrep_recover_result \<Rightarrow> bool) \<Rightarrow> recovered \<Rightarrow> pick" where
  "best_pick ok rec = fold (consider_pick ok) rec no_pick"

definition known_seqno :: "instance_assessment list \<Rightarrow> string \<Rightarrow> int" where
  "known_seqno as p = (case find_first (\<lambda>a. ia_pod a = p) as of Some a \<Rightarrow> ia_eff_seqno a | None \<Rightarrow> 0)"

datatype select_error = LeaderUnread string int string int

text \<open>The restriction of the final choice to the majority lineage.\<close>

definition in_selection :: "bool \<Rightarrow> lineage_group list \<Rightarrow> wsrep_recover_result \<Rightarrow> bool" where
  "in_selection force groups r \<longleftrightarrow> \<not> (\<not> force \<and> length groups > 1 \<and> wr_uuid r \<noteq> lg_uuid (hd groups))"

definition switched_candidate :: "bool \<Rightarrow> string \<Rightarrow> recovered \<Rightarrow> lineage_group list \<Rightarrow> string" where
  "switched_candidate force orig rec groups =
     (let maj = hd groups in
      if length groups > 1 \<and> orig \<notin> set (lg_members maj) \<and> wr_uuid (map_get zero_recover rec orig) \<noteq> lg_uuid maj \<and> \<not> force
      then lg_best_node maj else orig)"

definition select_candidate ::
  "bool \<Rightarrow> string \<Rightarrow> instance_assessment list \<Rightarrow> recovered \<Rightarrow> bootstrap_decision
     \<Rightarrow> (select_error, string) result \<times> bootstrap_decision" where
  "select_candidate force orig as rec d0 =
     (let groups = build_lineage_groups rec; d = d0\<lparr> bd_groups := groups \<rparr> in
      if groups = [] then (Ok orig, d)
      else
        (let cand = switched_candidate force orig rec groups;
             best = best_pick (in_selection force groups) rec in
         if pk_pod best = '''' then (Ok cand, d)
         else if pk_pod best \<noteq> orig then
           (let known = known_seqno as orig in
            if candidate_override_discards_data (is_authoritative_recover (map_get zero_recover rec orig)) known (pk_seqno best) \<and> \<not> force
            then (Err (LeaderUnread orig known (pk_pod best) (pk_seqno best)), d)
            else (Ok (pk_pod best), d\<lparr> bd_wsrep_applied := True, bd_original := orig, bd_candidate_pod := pk_pod best,
                    bd_candidate_seqno := pk_seqno best, bd_candidate_uuid := pk_uuid best \<rparr>))
         else (Ok cand, d)))"

lemma select_groups: "bd_groups (snd (select_candidate force orig as rec d)) = build_lineage_groups rec"
  by (simp add: select_candidate_def Let_def split: if_split)

section \<open>Facts about the lineages\<close>

definition authoritative :: "recovered \<Rightarrow> recovered" where
  "authoritative rec = filter (\<lambda>(_, r). is_authoritative_recover r) rec"

definition lineage_of :: "recovered \<Rightarrow> string \<Rightarrow> recovered" where
  "lineage_of rec u = filter (\<lambda>(_, r). is_authoritative_recover r \<and> wr_uuid r = u) rec"

lemma join_group_simps [simp]:
  "lg_uuid (join_group p r g) = lg_uuid g" "lg_members (join_group p r g) = lg_members g @ [p]"
  by (simp_all add: join_group_def Let_def)

text \<open>The accumulated groups: one per lineage seen, holding exactly its members in order.\<close>

definition groups_ok :: "recovered \<Rightarrow> (string \<times> lineage_group) list \<Rightarrow> bool" where
  "groups_ok rec m \<longleftrightarrow> distinct (map fst m) \<and>
     (\<forall>u. map_of m u = None \<longleftrightarrow> lineage_of rec u = []) \<and>
     (\<forall>u g. map_of m u = Some g \<longrightarrow> lg_uuid g = u \<and> lg_members g = map fst (lineage_of rec u) \<and>
        (\<forall>e\<in>set (lineage_of rec u). wr_seqno (snd e) \<le> lg_max_seqno g) \<and>
        (lg_max_seqno g = 0 \<or> (\<exists>e\<in>set (lineage_of rec u). wr_seqno (snd e) = lg_max_seqno g)))"

lemma lineage_append: "lineage_of (rec @ [(p, r)]) u =
   lineage_of rec u @ (if is_authoritative_recover r \<and> wr_uuid r = u then [(p, r)] else [])"
  by (simp add: lineage_of_def)

lemma join_max:
  "lg_max_seqno (join_group p r g) = max (lg_max_seqno g) (wr_seqno r)"
  by (auto simp: join_group_def Let_def)

lemma groups_step:
  assumes "groups_ok rec m"
  shows "groups_ok (rec @ [(p, r)]) (add_recover (p, r) m)"
proof (cases "is_authoritative_recover r")
  case False
  then show ?thesis using assms by (simp add: groups_ok_def add_recover_def lineage_append)
next
  case True
  then have r0: "0 \<le> wr_seqno r" by (simp add: is_authoritative_recover_def)
  define u where "u = wr_uuid r"
  define g where "g = map_get (new_group u) m u"
  have m': "add_recover (p, r) m = map_set u (join_group p r g) m"
    using True by (simp add: add_recover_def u_def g_def)
  have g: "lg_uuid g = u \<and> lg_members g = map fst (lineage_of rec u) \<and>
      (\<forall>e\<in>set (lineage_of rec u). wr_seqno (snd e) \<le> lg_max_seqno g) \<and>
      (lg_max_seqno g = 0 \<or> (\<exists>e\<in>set (lineage_of rec u). wr_seqno (snd e) = lg_max_seqno g))"
  proof (cases "map_of m u")
    case None
    then have "lineage_of rec u = []" using assms by (simp add: groups_ok_def)
    then show ?thesis using None by (simp add: g_def map_get_def new_group_def)
  next
    case (Some h)
    then show ?thesis using assms by (simp add: g_def map_get_def groups_ok_def)
  qed
  have lin: "lineage_of (rec @ [(p, r)]) v = (if v = u then lineage_of rec u @ [(p, r)] else lineage_of rec v)" for v
    using True by (auto simp: lineage_append u_def)
  have new: "lg_uuid (join_group p r g) = u \<and> lg_members (join_group p r g) = map fst (lineage_of rec u @ [(p, r)]) \<and>
      (\<forall>e\<in>set (lineage_of rec u @ [(p, r)]). wr_seqno (snd e) \<le> lg_max_seqno (join_group p r g)) \<and>
      (lg_max_seqno (join_group p r g) = 0 \<or>
        (\<exists>e\<in>set (lineage_of rec u @ [(p, r)]). wr_seqno (snd e) = lg_max_seqno (join_group p r g)))"
  proof (intro conjI)
    show "\<forall>e\<in>set (lineage_of rec u @ [(p, r)]). wr_seqno (snd e) \<le> lg_max_seqno (join_group p r g)"
      using g by (auto simp: join_max intro: order_trans)
    show "lg_max_seqno (join_group p r g) = 0 \<or>
        (\<exists>e\<in>set (lineage_of rec u @ [(p, r)]). wr_seqno (snd e) = lg_max_seqno (join_group p r g))"
    proof (cases "wr_seqno r \<le> lg_max_seqno g")
      case True
      then have "lg_max_seqno (join_group p r g) = lg_max_seqno g" by (simp add: join_max)
      then show ?thesis using g by auto
    next
      case False
      then have "lg_max_seqno (join_group p r g) = wr_seqno r" by (simp add: join_max)
      then show ?thesis by auto
    qed
  qed (use g in simp_all)
  show ?thesis
    using assms new unfolding groups_ok_def m' lin map_of_map_set
    by (auto simp: distinct_map_set)
qed

lemma groups_fold: "groups_ok rec (fold add_recover rec [])"
proof (induction rec rule: rev_induct)
  case Nil
  then show ?case by (simp add: groups_ok_def lineage_of_def)
next
  case (snoc e rec)
  then show ?case using groups_step[of rec _ "fst e" "snd e"] by simp
qed

lemma map_of_values:
  "distinct (map fst m) \<Longrightarrow> (k, v) \<in> set m \<longleftrightarrow> map_of m k = Some v"
  by (metis map_of_SomeD map_of_is_SomeI)

lemma groups_okD:
  assumes "groups_ok rec m"
  shows "distinct (map fst m)" "map_of m u = None \<longleftrightarrow> lineage_of rec u = []"
    "map_of m u = Some g \<Longrightarrow> lg_uuid g = u" "map_of m u = Some g \<Longrightarrow> lg_members g = map fst (lineage_of rec u)"
    "map_of m u = Some g \<Longrightarrow> lineage_of rec u \<noteq> []"
proof -
  show n: "map_of m u = None \<longleftrightarrow> lineage_of rec u = []" using assms unfolding groups_ok_def by blast
  show "map_of m u = Some g \<Longrightarrow> lineage_of rec u \<noteq> []" using n by simp
qed (use assms in \<open>simp_all add: groups_ok_def\<close>)

lemma group_props:
  assumes "g \<in> set (build_lineage_groups rec)"
  shows "lineage_of rec (lg_uuid g) \<noteq> []" "set (lg_members g) = fst ` set (lineage_of rec (lg_uuid g))"
    "length (lg_members g) = length (lineage_of rec (lg_uuid g))"
proof -
  obtain u h where h: "(u, h) \<in> set (fold add_recover rec [])" "g = h\<lparr> lg_members := sort (lg_members h) \<rparr>"
    using assms by (auto simp: build_lineage_groups_def)
  then have "map_of (fold add_recover rec []) u = Some h"
    using map_of_values[OF groups_okD(1)[OF groups_fold[of rec]]] by blast
  then have "lg_uuid h = u" "lg_members h = map fst (lineage_of rec u)" "lineage_of rec u \<noteq> []"
    using groups_okD(3-5)[OF groups_fold[of rec]] by blast+
  then show "lineage_of rec (lg_uuid g) \<noteq> []" "set (lg_members g) = fst ` set (lineage_of rec (lg_uuid g))"
    "length (lg_members g) = length (lineage_of rec (lg_uuid g))" using h(2) by simp_all
qed

lemma group_exists:
  assumes "lineage_of rec u \<noteq> []"
  shows "\<exists>g\<in>set (build_lineage_groups rec). lg_uuid g = u"
proof -
  obtain h where h: "map_of (fold add_recover rec []) u = Some h"
    using assms groups_okD(2)[OF groups_fold[of rec]] by blast
  then have "lg_uuid h = u" using groups_okD(3)[OF groups_fold[of rec]] by blast
  moreover have "h\<lparr> lg_members := sort (lg_members h) \<rparr> \<in> set (build_lineage_groups rec)"
    using map_of_SomeD[OF h] by (force simp: build_lineage_groups_def)
  ultimately show ?thesis by (intro bexI[of _ "h\<lparr> lg_members := sort (lg_members h) \<rparr>"]) simp_all
qed

lemma groups_empty: "build_lineage_groups rec = [] \<longleftrightarrow> authoritative rec = []"
proof
  assume e: "build_lineage_groups rec = []"
  have "lineage_of rec (wr_uuid r) \<noteq> []" if "(p, r) \<in> set (authoritative rec)" for p r
    using that by (fastforce simp: authoritative_def lineage_of_def filter_empty_conv)
  then have "(p, r) \<notin> set (authoritative rec)" for p r
    using e group_exists[of rec "wr_uuid r"] by fastforce
  then show "authoritative rec = []" by (metis hd_Cons_tl list.set_intros(1) surj_pair)
next
  assume a: "authoritative rec = []"
  show "build_lineage_groups rec = []"
  proof (rule ccontr)
    assume "build_lineage_groups rec \<noteq> []"
    then obtain g where "g \<in> set (build_lineage_groups rec)" by (cases "build_lineage_groups rec") auto
    then show False using group_props(1) a by (fastforce simp: authoritative_def lineage_of_def filter_empty_conv)
  qed
qed

lemma group_before_weak: "strict_weak group_before"
  by (auto simp: strict_weak_def group_before_def split: if_splits)

text \<open>The first group is a largest one, and among the largest has a highest sequence number.\<close>

lemma majority_first:
  assumes "g \<in> set (build_lineage_groups rec)"
  shows "\<not> group_before g (hd (build_lineage_groups rec))"
  using assms hd_sort_by_least[OF group_before_weak] unfolding build_lineage_groups_def set_sort_by by blast

section \<open>Facts about the pick\<close>

lemma best_pick_snoc: "best_pick ok (rec @ [e]) = consider_pick ok e (best_pick ok rec)"
  by (simp add: best_pick_def)

definition pick_le :: "wsrep_recover_result \<Rightarrow> pick \<Rightarrow> bool" where
  "pick_le r k \<longleftrightarrow> wr_seqno r < pk_seqno k \<or> (wr_seqno r = pk_seqno k \<and> wr_last_committed r \<le> pk_committed k)"

definition pick_of :: "string \<times> wsrep_recover_result \<Rightarrow> pick" where
  "pick_of e = \<lparr> pk_pod = fst e, pk_seqno = wr_seqno (snd e), pk_committed = wr_last_committed (snd e), pk_uuid = wr_uuid (snd e) \<rparr>"

definition eligible :: "(wsrep_recover_result \<Rightarrow> bool) \<Rightarrow> recovered \<Rightarrow> recovered" where
  "eligible ok rec = filter (\<lambda>(_, r). is_authoritative_recover r \<and> ok r) rec"

lemma best_pick_spec:
  assumes "'''' \<notin> fst ` set rec"
  shows "(eligible ok rec = [] \<and> best_pick ok rec = no_pick) \<or>
     ((\<exists>e\<in>set (eligible ok rec). best_pick ok rec = pick_of e) \<and>
      (\<forall>e\<in>set (eligible ok rec). pick_le (snd e) (best_pick ok rec)))"
  using assms
proof (induction rec rule: rev_induct)
  case Nil
  then show ?case by (simp add: eligible_def best_pick_def)
next
  case (snoc e rec)
  obtain p r where e: "e = (p, r)" by fastforce
  have p: "p \<noteq> ''''" using snoc.prems e by auto
  have ih: "(eligible ok rec = [] \<and> best_pick ok rec = no_pick) \<or>
     ((\<exists>e\<in>set (eligible ok rec). best_pick ok rec = pick_of e) \<and>
      (\<forall>e\<in>set (eligible ok rec). pick_le (snd e) (best_pick ok rec)))"
    using snoc by auto
  show ?case
  proof (cases "is_authoritative_recover r \<and> ok r")
    case False
    then have "eligible ok (rec @ [e]) = eligible ok rec" "best_pick ok (rec @ [e]) = best_pick ok rec"
      by (auto simp: eligible_def e best_pick_snoc consider_pick_def)
    then show ?thesis using ih by simp
  next
    case True
    then have el: "eligible ok (rec @ [e]) = eligible ok rec @ [e]" by (simp add: eligible_def e)
    show ?thesis using ih
    proof (elim disjE conjE)
      assume "eligible ok rec = []" "best_pick ok rec = no_pick"
      then show ?thesis using True el
        by (auto simp: best_pick_snoc e consider_pick_def no_pick_def pick_of_def pick_le_def)
    next
      assume i: "\<exists>e\<in>set (eligible ok rec). best_pick ok rec = pick_of e" "\<forall>e\<in>set (eligible ok rec). pick_le (snd e) (best_pick ok rec)"
      then obtain d where d: "d \<in> set (eligible ok rec)" "best_pick ok rec = pick_of d" by blast
      have "fst d \<noteq> ''''" using d(1) snoc.prems by (auto simp: eligible_def image_iff)
      then have ne: "pk_pod (best_pick ok rec) \<noteq> ''''" using d(2) by (simp add: pick_of_def)
      let ?k = "best_pick ok rec"
      have step: "best_pick ok (rec @ [e]) =
          (if wr_seqno r > pk_seqno ?k \<or> (wr_seqno r = pk_seqno ?k \<and> wr_last_committed r > pk_committed ?k) then pick_of e else ?k)"
        using True ne by (simp add: best_pick_snoc e consider_pick_def pick_of_def)
      show ?thesis
      proof (cases "wr_seqno r > pk_seqno ?k \<or> (wr_seqno r = pk_seqno ?k \<and> wr_last_committed r > pk_committed ?k)")
        case True
        then have "best_pick ok (rec @ [e]) = pick_of e" using step by simp
        moreover have "pick_le s (pick_of e)" if "pick_le s ?k" for s
          using that True by (auto simp: pick_le_def pick_of_def e)
        ultimately show ?thesis using i el by (auto simp: pick_le_def pick_of_def e)
      next
        case False
        have "best_pick ok (rec @ [e]) = ?k" unfolding step using False by (rule if_not_P)
        then show ?thesis using i el d False by (auto simp: pick_le_def e)
      qed
    qed
  qed
qed

section \<open>The selection\<close>

lemma eligible_majority:
  assumes "authoritative rec \<noteq> []"
  shows "eligible (in_selection force (build_lineage_groups rec)) rec \<noteq> []"
proof -
  let ?g = "hd (build_lineage_groups rec)"
  have "build_lineage_groups rec \<noteq> []" using assms groups_empty by blast
  then have "?g \<in> set (build_lineage_groups rec)" by simp
  then obtain e where e: "e \<in> set (lineage_of rec (lg_uuid ?g))" using group_props(1) by (cases "lineage_of rec (lg_uuid ?g)") auto
  then have "e \<in> set (eligible (in_selection force (build_lineage_groups rec)) rec)"
    by (auto simp: lineage_of_def eligible_def in_selection_def)
  then show ?thesis by auto
qed

lemma select_candidate_best:
  assumes "authoritative rec \<noteq> []" "'''' \<notin> fst ` set rec" "fst (select_candidate force orig as rec d) = Ok c"
  shows "\<exists>r. (c, r) \<in> set rec \<and> is_authoritative_recover r \<and> in_selection force (build_lineage_groups rec) r \<and>
     (\<forall>(q, s)\<in>set rec. is_authoritative_recover s \<and> in_selection force (build_lineage_groups rec) s \<longrightarrow> wr_seqno s \<le> wr_seqno r) \<and>
     (force \<or> c = orig \<or> is_authoritative_recover (map_get zero_recover rec orig) \<or> known_seqno as orig \<le> wr_seqno r)"
proof -
  let ?G = "build_lineage_groups rec"
  let ?ok = "in_selection force ?G"
  let ?k = "best_pick ?ok rec"
  have G: "?G \<noteq> []" using assms(1) groups_empty by blast
  obtain e where e: "e \<in> set (eligible ?ok rec)" "?k = pick_of e" "\<forall>d\<in>set (eligible ?ok rec). pick_le (snd d) ?k"
    using best_pick_spec[OF assms(2), of ?ok] eligible_majority[OF assms(1)] by blast
  have er: "(fst e, snd e) \<in> set rec" "is_authoritative_recover (snd e)" "?ok (snd e)"
    using e(1) by (auto simp: eligible_def)
  then have ne: "pk_pod ?k \<noteq> ''''" using e(2) assms(2) by (force simp: pick_of_def)
  have mx: "wr_seqno s \<le> wr_seqno (snd e)" if "(q, s) \<in> set rec" "is_authoritative_recover s" "?ok s" for q s
  proof -
    have "(q, s) \<in> set (eligible ?ok rec)" using that by (simp add: eligible_def)
    then show ?thesis using e(2,3) by (force simp: pick_le_def pick_of_def)
  qed
  have c: "c = fst e \<and> (force \<or> c = orig \<or> is_authoritative_recover (map_get zero_recover rec orig) \<or> known_seqno as orig \<le> wr_seqno (snd e))"
  proof (cases "pk_pod ?k = orig")
    case False
    then show ?thesis
      using assms(3) G ne e(2) by (auto simp: select_candidate_def Let_def pick_of_def candidate_override_discards_data_def split: if_splits)
  next
    case True
    then have o': "fst e = orig" using e(2) by (simp add: pick_of_def)
    have "switched_candidate force orig rec ?G = orig"
    proof (cases "\<not> force \<and> length ?G > 1")
      case False
      then show ?thesis by (auto simp: switched_candidate_def Let_def)
    next
      case split: True
      then have u: "wr_uuid (snd e) = lg_uuid (hd ?G)" using er(3) by (simp add: in_selection_def)
      have "e \<in> set (lineage_of rec (lg_uuid (hd ?G)))" using er u by (auto simp: lineage_of_def)
      then have "orig \<in> set (lg_members (hd ?G))" using group_props(2)[of "hd ?G" rec] G o' by force
      then show ?thesis by (simp add: switched_candidate_def Let_def)
    qed
    then show ?thesis using assms(3) G ne True o' by (simp add: select_candidate_def Let_def)
  qed
  then show ?thesis using er mx by (intro exI[of _ "snd e"]) auto
qed

lemma most_advanced_source:
  assumes "authoritative rec \<noteq> []" "'''' \<notin> fst ` set rec" "fst (select_candidate False orig as rec d) = Ok c"
  shows "\<exists>r. (c, r) \<in> set rec \<and> is_authoritative_recover r \<and>
     (\<forall>(q, s)\<in>set (lineage_of rec (wr_uuid r)). wr_seqno s \<le> wr_seqno r) \<and>
     (\<forall>u. length (lineage_of rec u) \<le> length (lineage_of rec (wr_uuid r))) \<and>
     (c = orig \<or> is_authoritative_recover (map_get zero_recover rec orig) \<or> known_seqno as orig \<le> wr_seqno r)"
proof -
  let ?G = "build_lineage_groups rec"
  have G: "hd ?G \<in> set ?G" using assms(1) groups_empty by (metis hd_in_set)
  obtain r where r: "(c, r) \<in> set rec" "is_authoritative_recover r" "in_selection False ?G r"
    "\<forall>(q, s)\<in>set rec. is_authoritative_recover s \<and> in_selection False ?G s \<longrightarrow> wr_seqno s \<le> wr_seqno r"
    "c = orig \<or> is_authoritative_recover (map_get zero_recover rec orig) \<or> known_seqno as orig \<le> wr_seqno r"
    using select_candidate_best[OF assms] by auto
  have "lineage_of rec (wr_uuid r) \<noteq> []" using r(1,2) by (auto simp: lineage_of_def filter_empty_conv)
  then obtain g where g: "g \<in> set ?G" "lg_uuid g = wr_uuid r" using group_exists by blast
  have maj: "wr_uuid r = lg_uuid (hd ?G)"
  proof (cases "length ?G > 1")
    case True
    then show ?thesis using r(3) by (simp add: in_selection_def)
  next
    case False
    then show ?thesis using g by (cases ?G) auto
  qed
  have "length (lineage_of rec u) \<le> length (lineage_of rec (wr_uuid r))" for u
  proof (cases "lineage_of rec u = []")
    case False
    then obtain h where h: "h \<in> set ?G" "lg_uuid h = u" using group_exists by blast
    then have "length (lg_members h) \<le> length (lg_members (hd ?G))"
      using majority_first[OF h(1)] by (auto simp: group_before_def split: if_splits)
    then show ?thesis using group_props(3)[OF h(1)] group_props(3)[OF G] h(2) maj by simp
  qed simp
  moreover have "in_selection False ?G s" if "(q, s) \<in> set (lineage_of rec (wr_uuid r))" for q s
    using that maj by (auto simp: lineage_of_def in_selection_def)
  ultimately show ?thesis using r by (intro exI[of _ r]) (auto simp: lineage_of_def)
qed

text \<open>Without force the bootstrap source is a node whose fenced recovery produced an authoritative
  position, in the lineage with the most members, and none of that lineage recovered a higher
  sequence number; if triage's candidate did not recover itself, its known position is not behind.\<close>

theorem bootstrap_source_is_most_advanced:
  assumes "authoritative rec \<noteq> []" "'''' \<notin> fst ` set rec" "fst (select_candidate False orig as rec d) = Ok c"
  shows "\<exists>r. (c, r) \<in> set rec \<and> is_authoritative_recover r \<and>
     (\<forall>(q, s)\<in>set (lineage_of rec (wr_uuid r)). wr_seqno s \<le> wr_seqno r) \<and>
     (\<forall>u. length (lineage_of rec u) \<le> length (lineage_of rec (wr_uuid r))) \<and>
     (c = orig \<or> is_authoritative_recover (map_get zero_recover rec orig) \<or> known_seqno as orig \<le> wr_seqno r)"
  using most_advanced_source[OF assms] .

text \<open>The recovered positions of a split brain: two nodes on one lineage, one further on another.\<close>

definition split_uuid_a :: string where "split_uuid_a = ''aaaaaaaa-0000-0000-0000-000000000001''"
definition split_uuid_b :: string where "split_uuid_b = ''bbbbbbbb-0000-0000-0000-000000000002''"

definition recover_at :: "string \<Rightarrow> int \<Rightarrow> wsrep_recover_result" where
  "recover_at u n = \<lparr> wr_uuid = u, wr_seqno = n, wr_last_committed = n, wr_valid = True \<rparr>"

definition split_brain_recovered :: recovered where
  "split_brain_recovered = [(''db-0'', recover_at split_uuid_a 10), (''db-1'', recover_at split_uuid_a 11),
     (''db-2'', recover_at split_uuid_b 50)]"

definition no_decision :: bootstrap_decision where
  "no_decision = \<lparr> bd_eligible = True, bd_reason = '''', bd_candidate_pod = '''', bd_candidate_seqno = 0, bd_candidate_uuid = '''',
     bd_ambiguity = False, bd_force_required = False, bd_safe = True, bd_competitors = [], bd_wsrep_applied = False,
     bd_original = '''', bd_groups = [] \<rparr>"

text \<open>Force does not pick the majority lineage: with two nodes on one lineage and one node further
  ahead on another, the unforced choice is the majority's best node and the forced one the minority's.\<close>

theorem force_leaves_majority_lineage:
  "fst (select_candidate False '''' [] split_brain_recovered no_decision) = Ok ''db-1'' \<and>
   fst (select_candidate True '''' [] split_brain_recovered no_decision) = Ok ''db-2'' \<and>
   map lg_uuid (build_lineage_groups split_brain_recovered) = [split_uuid_a, split_uuid_b]"
  by code_simp

lemma bootstrap_source_is_most_advanced_witness:
  "\<exists>r. (''db-1'', r) \<in> set split_brain_recovered \<and> is_authoritative_recover r"
proof -
  have "authoritative split_brain_recovered \<noteq> []" by code_simp
  moreover have "'''' \<notin> fst ` set split_brain_recovered" by code_simp
  moreover have "fst (select_candidate False '''' [] split_brain_recovered no_decision) = Ok ''db-1''" by code_simp
  ultimately show ?thesis using bootstrap_source_is_most_advanced by blast
qed

end
