(* ===== verification/Boot_Run.thy ===== *)
theory Boot_Run
  imports Boot_Select Galera_Provider
begin

text \<open>
  The bootstrap of a Galera cluster (\<open>src/engine/bootstrap/galera.go\<close>): the stale-lock
  check, the safety gates, the online remedy, and the offline execution with its rollback.
  Every call's outcome is a field of the environment, so each early return is a branch.
\<close>

section \<open>Environment and errors\<close>

datatype helper_job = ClearCache string | ClearSafe string | MarkSafe string | RevertSafe string

datatype clear_answer = ClearDone | ClearUnverified | ClearGone | ClearError

record boot_env =
  be_force :: bool
  be_now :: int
  be_lock_seen :: "(string, string) result"
  be_triage :: "(string, triage_result) result"
  be_replicas :: int
  be_discover :: "(string, unit) result"
  be_gate :: "(string, unit) result"
  be_suspend :: outcome
  be_lock_set :: outcome
  be_scale_down :: outcome
  be_terminated :: bool
  be_recover :: "string \<Rightarrow> (string, wsrep_recover_result) result"
  be_order :: "recovered \<Rightarrow> recovered"
  be_helper :: "helper_job \<Rightarrow> outcome"
  be_force_patch :: outcome
  be_scale_up :: outcome
  be_undo_force :: bool
  be_undo_lock :: bool
  be_undo_scale :: bool
  be_undo_resume :: bool
  be_clear_force :: "nat \<Rightarrow> clear_answer"
  be_clear_status :: "nat \<Rightarrow> bool"
  be_final_lock :: bool
  be_resume :: bool
  be_online_force :: outcome
  be_ready :: "nat \<Rightarrow> (string, string) result"

datatype boot_error =
    StaleLock string | TriageFailed string | NoSource string
  | HealthyNodes int | NoNodes | AmbiguousCandidate int string | SplitBrain
  | DiscoverRefused string | GateRefused string
  | SuspendFailed | LockFailed | ScaleDownFailed | PodsRemain
  | Select select_error | RecoveredSplitBrain int string | StaleCandidate string
  | MarkFailed | PatchFailed | ScaleUpFailed
  | OnlineForceFailed string | OnlineTimeout

definition zero_boot_decision :: bootstrap_decision where
  "zero_boot_decision = \<lparr> bd_eligible = False, bd_reason = '''', bd_candidate_pod = '''', bd_candidate_seqno = 0,
     bd_candidate_uuid = '''', bd_ambiguity = False, bd_force_required = False, bd_safe = False, bd_competitors = [],
     bd_wsrep_applied = False, bd_original = '''', bd_groups = [] \<rparr>"

section \<open>Gates\<close>

definition stale_lock :: "boot_env \<Rightarrow> string option" where
  "stale_lock e =
     (case be_lock_seen e of
        Inl _ \<Rightarrow> None
      | Inr v \<Rightarrow> if lock_fresh (be_now e) v \<and> \<not> be_force e then Some (hd (split_n2 (CHR ''@'') v)) else None)"

definition find_diagnosis :: "triage_result \<Rightarrow> string \<Rightarrow> diagnosis option" where
  "find_diagnosis t i = find_first (\<lambda>d. dg_id d = i) (tr_diagnoses t)"

definition healthy_count :: "triage_result \<Rightarrow> int" where
  "healthy_count t = int (length (filter (\<lambda>a. ia_running a \<and> ia_ready a) (tr_assessments t)))"

definition competitors :: "triage_result \<Rightarrow> instance_assessment \<Rightarrow> string list" where
  "competitors t c = map ia_pod (filter (\<lambda>a. ia_pod a \<noteq> ia_pod c \<and> ia_eff_seqno a = ia_eff_seqno c \<and> ia_eff_seqno c > 0)
     (tr_assessments t))"

definition candidate_decision :: "bool \<Rightarrow> triage_result \<Rightarrow> instance_assessment \<Rightarrow> bootstrap_decision" where
  "candidate_decision force t c =
     (let amb = competitors t c \<noteq> []; need = amb \<or> \<not> dc_safe_to_heal (tr_comparison t) in
      zero_boot_decision\<lparr> bd_eligible := True, bd_reason := ''all nodes down, bootstrap candidate identified'',
        bd_candidate_pod := ia_pod c, bd_candidate_seqno := ia_eff_seqno c, bd_candidate_uuid := ia_uuid c,
        bd_ambiguity := amb, bd_force_required := need, bd_safe := \<not> need \<or> force, bd_competitors := competitors t c \<rparr>)"

definition belly_up_decision :: bootstrap_decision where
  "belly_up_decision = zero_boot_decision\<lparr> bd_eligible := True,
     bd_reason := ''belly-up '' @ em_dash @ '' authority to be established by fenced wsrep_recover'', bd_safe := True \<rparr>"

text \<open>The gates before any change: the pre-fence candidate, or the belly-up case.\<close>

definition boot_gates :: "bool \<Rightarrow> triage_result \<Rightarrow> (boot_error, string \<times> bool) result \<times> bootstrap_decision" where
  "boot_gates force t =
     (if \<not> tr_all_down t \<and> healthy_count t > 0
      then (Err (HealthyNodes (healthy_count t)), zero_boot_decision\<lparr> bd_reason := ''cluster has '' @ dec_str (healthy_count t)
              @ '' healthy node(s) '' @ em_dash @ '' bootstrap is only for full cluster down'' \<rparr>)
      else (case tr_best_seqno_node t of
         None \<Rightarrow> if tr_assessments t = [] then (Err NoNodes, zero_boot_decision\<lparr> bd_reason := ''no nodes found to recover'' \<rparr>)
                 else (Ok ('''', True), belly_up_decision)
       | Some c \<Rightarrow>
           (let d = candidate_decision force t c in
            if competitors t c \<noteq> [] \<and> \<not> force
            then (Err (AmbiguousCandidate (ia_eff_seqno c) (ia_pod c)),
                  d\<lparr> bd_reason := ''ambiguous: '' @ ia_pod c @ '' and ['' @ join_with '' '' (competitors t c) @ ''] all at seqno ''
                       @ dec_str (ia_eff_seqno c) @ '' '' @ em_dash @ '' use --force to pick '' @ ia_pod c \<rparr>)
            else if \<not> dc_safe_to_heal (tr_comparison t) \<and> \<not> force
            then (Err SplitBrain, d\<lparr> bd_reason := ''split-brain detected '' @ em_dash @ '' use --force to override'' \<rparr>)
            else (Ok (ia_pod c, False), d))))"

section \<open>The online remedy\<close>

fun wait_galera_ready :: "(nat \<Rightarrow> (string, string) result) \<Rightarrow> nat \<Rightarrow> nat \<Rightarrow> bool" where
  "wait_galera_ready poll i 0 = False"
| "wait_galera_ready poll i (Suc k) =
     (case poll i of Inr st \<Rightarrow> if st = ''True'' then True else wait_galera_ready poll (Suc i) k
      | Inl _ \<Rightarrow> wait_galera_ready poll (Suc i) k)"

definition bootstrap_online :: "boot_env \<Rightarrow> diagnosis \<Rightarrow> galera_cluster \<Rightarrow> boot_error option \<times> galera_cluster" where
  "bootstrap_online e d s =
     (if dg_target d = '''' then (Some (NoSource (dg_id d)), s)
      else (case call (be_online_force e) (force_bootstrap_live (dg_target d)) s of
              (ok, s1) \<Rightarrow>
                if \<not> ok then (Some (OnlineForceFailed (dg_target d)), s1)
                else if \<not> wait_galera_ready (be_ready e) 0 60 then (Some OnlineTimeout, s1)
                else (None, clear_force_bootstrap s1)))"

section \<open>Rollback\<close>

record rescue_flags =
  rf_suspended :: bool
  rf_locked :: bool
  rf_scaled :: bool
  rf_marked :: bool
  rf_forced :: bool

definition no_flags :: rescue_flags where
  "no_flags = \<lparr> rf_suspended = False, rf_locked = False, rf_scaled = False, rf_marked = False, rf_forced = False \<rparr>"

definition mark_safe :: "string \<Rightarrow> galera_cluster \<Rightarrow> galera_cluster" where
  "mark_safe p s = s\<lparr> gc_safe := List.insert p (gc_safe s), gc_no_cache := List.insert p (gc_no_cache s) \<rparr>"

definition unmark_safe :: "string \<Rightarrow> galera_cluster \<Rightarrow> galera_cluster" where
  "unmark_safe p s = s\<lparr> gc_safe := removeAll p (gc_safe s) \<rparr>"

definition drop_cache :: "string \<Rightarrow> galera_cluster \<Rightarrow> galera_cluster" where
  "drop_cache p s = s\<lparr> gc_no_cache := List.insert p (gc_no_cache s) \<rparr>"

definition if_done :: "bool \<Rightarrow> (galera_cluster \<Rightarrow> galera_cluster) \<Rightarrow> galera_cluster \<Rightarrow> galera_cluster" where
  "if_done b f s = (if b then f s else s)"

text \<open>The undo calls in their order; an undo whose call fails is only logged.\<close>

definition rescue :: "boot_env \<Rightarrow> rescue_flags \<Rightarrow> string \<Rightarrow> galera_cluster \<Rightarrow> galera_cluster" where
  "rescue e fl cand s =
     if_done (rf_suspended fl \<and> be_undo_resume e) resume_cr
       (if_done (rf_scaled fl \<and> be_undo_scale e) (scale_stateful_set (be_replicas e))
         (if_done (rf_locked fl \<and> be_undo_lock e) clear_fence_lock
           (if_done (rf_marked fl \<and> be_helper e (RevertSafe cand) \<noteq> Refused) (unmark_safe cand)
             (if_done (rf_forced fl \<and> be_undo_force e) clear_force_bootstrap s))))"

section \<open>Execution\<close>

text \<open>Steps 1 to 3: suspend, lock, scale to zero and wait until no pod is left.\<close>

definition boot_fence :: "boot_env \<Rightarrow> string \<Rightarrow> galera_cluster \<Rightarrow> boot_error option \<times> rescue_flags \<times> galera_cluster" where
  "boot_fence e cand s =
     (case call (be_suspend e) suspend_cr s of (ok1, s1) \<Rightarrow>
        if \<not> ok1 then (Some SuspendFailed, no_flags, s1)
        else (case call (be_lock_set e) (set_fence_lock (fence_value cand (be_now e))) s1 of (ok2, s2) \<Rightarrow>
          if \<not> ok2 then (Some LockFailed, no_flags\<lparr> rf_suspended := True \<rparr>, s2)
          else (case call (be_scale_down e) (scale_stateful_set 0) s2 of (ok3, s3) \<Rightarrow>
            if \<not> ok3 then (Some ScaleDownFailed, no_flags\<lparr> rf_suspended := True, rf_locked := True \<rparr>, s3)
            else if \<not> be_terminated e
            then (Some PodsRemain, no_flags\<lparr> rf_suspended := True, rf_locked := True, rf_scaled := True \<rparr>, s3)
            else (None, no_flags\<lparr> rf_suspended := True, rf_locked := True, rf_scaled := True \<rparr>, pods_terminated s3))))"

text \<open>Step 4: a node whose recovery failed is left out.\<close>

fun boot_recover :: "boot_env \<Rightarrow> string list \<Rightarrow> recovered" where
  "boot_recover e [] = []"
| "boot_recover e (p # ps) = (case be_recover e p of Inl _ \<Rightarrow> boot_recover e ps | Inr r \<Rightarrow> (p, r) # boot_recover e ps)"

definition boot_choose ::
  "boot_env \<Rightarrow> string \<Rightarrow> bool \<Rightarrow> instance_assessment list \<Rightarrow> recovered \<Rightarrow> bootstrap_decision
     \<Rightarrow> (boot_error, string) result \<times> bootstrap_decision" where
  "boot_choose e cand belly as rec d =
     (case select_candidate (be_force e) cand as rec d of (r, d') \<Rightarrow>
        (case r of
           Inl err \<Rightarrow> (Err (Select err), d')
         | Inr c \<Rightarrow>
             if belly \<and> \<not> be_force e \<and> length (bd_groups d') > 1
             then (Err (RecoveredSplitBrain (int (length (bd_groups d'))) c), d')
             else if c \<notin> set (map ia_pod as) then (Err (StaleCandidate c), d')
             else (Ok c, d')))"

definition gcache_threshold :: int where "gcache_threshold = 10000"

definition max_recovered :: "recovered \<Rightarrow> int" where
  "max_recovered rec = fold (\<lambda>(_, r) m. if wr_seqno r > m then wr_seqno r else m) rec 0"

text \<open>Steps 4b and 5: nodes too far behind lose their cache, stale flags are cleared; failures are logged.\<close>

definition boot_prepare :: "boot_env \<Rightarrow> string \<Rightarrow> instance_assessment list \<Rightarrow> recovered \<Rightarrow> galera_cluster \<Rightarrow> galera_cluster" where
  "boot_prepare e cand as rec s =
     fold (\<lambda>a. if_done (ia_pod a \<noteq> cand \<and> ia_safe_to_bootstrap a = ''1'' \<and> be_helper e (ClearSafe (ia_pod a)) \<noteq> Refused) (unmark_safe (ia_pod a))) as
       (fold (\<lambda>(p, r). if_done (p \<noteq> cand \<and> max_recovered rec - wr_seqno r > gcache_threshold \<and> wr_seqno r \<ge> 0
                              \<and> be_helper e (ClearCache p) \<noteq> Refused) (drop_cache p)) rec s)"

text \<open>Steps 6 to 8: mark the source, direct the operator to it, scale up.\<close>

definition boot_apply :: "boot_env \<Rightarrow> string \<Rightarrow> rescue_flags \<Rightarrow> galera_cluster \<Rightarrow> boot_error option \<times> rescue_flags \<times> galera_cluster" where
  "boot_apply e cand fl s =
     (case call (be_helper e (MarkSafe cand)) (mark_safe cand) s of (ok1, s1) \<Rightarrow>
        if \<not> ok1 then (Some MarkFailed, fl, s1)
        else (case call (be_force_patch e) (set_force_bootstrap cand) s1 of (ok2, s2) \<Rightarrow>
          if \<not> ok2 then (Some PatchFailed, fl\<lparr> rf_marked := True \<rparr>, s2)
          else (case call (be_scale_up e) (scale_stateful_set (be_replicas e)) s2 of (ok3, s3) \<Rightarrow>
            if \<not> ok3 then (Some ScaleUpFailed, fl\<lparr> rf_marked := True, rf_forced := True \<rparr>, s3)
            else (None, fl\<lparr> rf_marked := True, rf_forced := True, rf_scaled := False \<rparr>, s3))))"

text \<open>Step 10: five attempts to drop the directive, five to drop the recovery status.\<close>

fun clear_force_loop :: "(nat \<Rightarrow> clear_answer) \<Rightarrow> nat \<Rightarrow> nat \<Rightarrow> galera_cluster \<Rightarrow> galera_cluster" where
  "clear_force_loop ans i 0 s = s"
| "clear_force_loop ans i (Suc k) s =
     (case ans i of
        ClearDone \<Rightarrow> clear_force_bootstrap s
      | ClearGone \<Rightarrow> s\<lparr> gc_force := None \<rparr>
      | ClearUnverified \<Rightarrow> clear_force_loop ans (Suc i) k (clear_force_bootstrap s)
      | ClearError \<Rightarrow> clear_force_loop ans (Suc i) k s)"

fun clear_status_loop :: "(nat \<Rightarrow> bool) \<Rightarrow> nat \<Rightarrow> nat \<Rightarrow> galera_cluster \<Rightarrow> galera_cluster" where
  "clear_status_loop ans i 0 s = s"
| "clear_status_loop ans i (Suc k) s = (if ans i then clear_recovery_status s else clear_status_loop ans (Suc i) k s)"

definition boot_cleanup :: "boot_env \<Rightarrow> galera_cluster \<Rightarrow> galera_cluster" where
  "boot_cleanup e s =
     if_done (be_resume e) resume_cr
       (if_done (be_final_lock e) clear_fence_lock
         (clear_status_loop (be_clear_status e) 1 5 (clear_force_loop (be_clear_force e) 1 5 s)))"

definition execute_bootstrap ::
  "boot_env \<Rightarrow> string \<Rightarrow> bool \<Rightarrow> instance_assessment list \<Rightarrow> bootstrap_decision \<Rightarrow> galera_cluster
     \<Rightarrow> boot_error option \<times> bootstrap_decision \<times> galera_cluster" where
  "execute_bootstrap e cand belly as d s =
     (case be_discover e of
        Inl err \<Rightarrow> (Some (DiscoverRefused err), d, s)
      | Inr _ \<Rightarrow>
        (case be_gate e of
           Inl err \<Rightarrow> (Some (GateRefused err), d, s)
         | Inr _ \<Rightarrow>
           (case boot_fence e cand s of (err1, fl, s1) \<Rightarrow>
              if err1 \<noteq> None then (err1, d, rescue e fl cand s1)
              else (let rec = be_order e (boot_recover e (map ia_pod as)) in
                (case boot_choose e cand belly as rec d of (choice, d') \<Rightarrow>
                  (case choice of
                     Inl err \<Rightarrow> (Some err, d', rescue e fl cand s1)
                   | Inr c \<Rightarrow>
                     (case boot_apply e c fl (boot_prepare e c as rec s1) of (err2, fl2, s2) \<Rightarrow>
                        if err2 \<noteq> None then (err2, d', rescue e fl2 c s2)
                        else (None, d', boot_cleanup e s2))))))))"

text \<open>The whole operation.\<close>

definition deadlock_id :: string where "deadlock_id = ''galera-operator-recovery-deadlock''"

definition bootstrap ::
  "boot_env \<Rightarrow> bool \<Rightarrow> galera_cluster \<Rightarrow> boot_error option \<times> bootstrap_decision \<times> galera_cluster" where
  "bootstrap e dry s =
     (case stale_lock e of
        Some h \<Rightarrow> (Some (StaleLock h), zero_boot_decision, s)
      | None \<Rightarrow>
        (case be_triage e of
           Inl err \<Rightarrow> (Some (TriageFailed err), zero_boot_decision, s)
         | Inr t \<Rightarrow>
           (case find_diagnosis t deadlock_id of
              Some dg \<Rightarrow>
                (let d = zero_boot_decision\<lparr> bd_eligible := True, bd_candidate_pod := dg_target dg, bd_safe := True \<rparr> in
                 if dg_target dg \<noteq> '''' \<and> dry then (None, d, s)
                 else (case bootstrap_online e dg s of (err, s') \<Rightarrow>
                         (err, if dg_target dg = '''' then zero_boot_decision else d, s')))
            | None \<Rightarrow>
                (case boot_gates (be_force e) t of (g, d) \<Rightarrow>
                   (case g of
                      Inl err \<Rightarrow> (Some err, d, s)
                    | Inr (cand, belly) \<Rightarrow>
                        if dry then (None, d, s) else execute_bootstrap e cand belly (tr_assessments t) d s)))))"

end
