(* ===== verification/Boot_Correct.thy ===== *)
theory Boot_Correct
  imports Boot_Run Galera_Correct Fence_Lock
begin

text \<open>
  Correctness of bootstrap: nothing changes before the escrow gate has passed, data
  directories are opened only inside a complete fence, every failure before the scale-up is
  rolled rests, a committed source is a most advanced recovered node; and where these end: a
  patch whose response is lost, an online remedy that times out, a node that could not be
  recovered in a belly-up cluster.
\<close>

section \<open>Frames\<close>

lemma if_done_simps [simp]: "if_done True f s = f s" "if_done False f s = s"
  by (simp_all add: if_done_def)

lemma rescue_fields:
  assumes "be_undo_force e" "be_undo_lock e" "be_undo_scale e" "be_undo_resume e" "be_helper e (RevertSafe c) \<noteq> Refused"
  shows "gc_suspend (rescue e fl c s) \<longleftrightarrow> \<not> rf_suspended fl \<and> gc_suspend s"
    "gc_lock (rescue e fl c s) = (if rf_locked fl then '''' else gc_lock s)"
    "gc_force (rescue e fl c s) = (if rf_forced fl then None else gc_force s)"
    "gc_replicas (rescue e fl c s) = (if rf_scaled fl then be_replicas e else gc_replicas s)"
    "gc_safe (rescue e fl c s) = (if rf_marked fl then removeAll c (gc_safe s) else gc_safe s)"
  using assms by (simp_all add: rescue_def if_done_def cluster_ops unmark_safe_def)

lemma fold_frame:
  assumes "\<And>x s. x \<in> set xs \<Longrightarrow> P s (f x s)" "\<And>s. P s s" "\<And>a b c. P a b \<Longrightarrow> P b c \<Longrightarrow> P a c"
  shows "P s (fold f xs s)"
  using assms(1)
proof (induction xs arbitrary: s)
  case Nil
  then show ?case using assms(2) by simp
next
  case (Cons x xs)
  then have "P s (f x s)" "P (f x s) (fold f xs (f x s))" by simp_all
  then show ?case using assms(3) by simp
qed

text \<open>What the preparation of the other nodes may change.\<close>

definition prepared_from :: "galera_cluster \<Rightarrow> galera_cluster \<Rightarrow> bool" where
  "prepared_from s s' \<longleftrightarrow> gc_suspend s' = gc_suspend s \<and> gc_lock s' = gc_lock s \<and> gc_force s' = gc_force s \<and>
     gc_replicas s' = gc_replicas s \<and> gc_pods s' = gc_pods s \<and> set (gc_safe s') \<subseteq> set (gc_safe s)"

lemma prepare_frame: "prepared_from s (boot_prepare e c as rec s)"
proof -
  have tr: "prepared_from a b \<Longrightarrow> prepared_from b d \<Longrightarrow> prepared_from a d" for a b d
    by (auto simp: prepared_from_def)
  have "prepared_from s (fold (\<lambda>(p, r). if_done (p \<noteq> c \<and> max_recovered rec - wr_seqno r > gcache_threshold \<and> wr_seqno r \<ge> 0
                              \<and> be_helper e (ClearCache p) \<noteq> Refused) (drop_cache p)) rec s)" for s
    by (rule fold_frame[where P = prepared_from])
       (auto simp: prepared_from_def if_done_def drop_cache_def split: if_splits)
  moreover have "prepared_from s (fold (\<lambda>a. if_done (ia_pod a \<noteq> c \<and> ia_safe_to_bootstrap a = ''1'' \<and>
      be_helper e (ClearSafe (ia_pod a)) \<noteq> Refused) (unmark_safe (ia_pod a))) as s)" for s
    by (rule fold_frame[where P = prepared_from])
       (auto simp: prepared_from_def if_done_def unmark_safe_def split: if_splits)
  ultimately show ?thesis unfolding boot_prepare_def using tr by blast
qed

section \<open>The fence\<close>

lemma fence_value_ne: "fence_value h t \<noteq> ''''"
  by (simp add: fence_value_def)

text \<open>Bootstrap opens a data directory for recovery only inside a complete fence: when the fence
  phase succeeds the lock is set, the resource suspended, the replicas zero and every pod gone.\<close>

theorem bootstrap_recovers_fenced:
  "case boot_fence e cand s of (err, fl, s1) \<Rightarrow> if err = None then be_terminated e \<and> exclusive_access s1 else True"
  by (auto simp: boot_fence_def call_def exclusive_access_def cluster_ops fence_value_ne split: outcome.splits)

section \<open>Before the gate\<close>

text \<open>No refusal changes anything: a dry run, a stale lock, a failed triage, a closed safety gate, an
  unproven claim set or a refused escrow leave the cluster as it was; the online remedy, which
  has no gate, is the one exception.\<close>

theorem nothing_changes_before_escrow:
  "snd (snd (bootstrap e True s)) = s \<and>
   (if (case be_triage e of Inr t \<Rightarrow> find_diagnosis t deadlock_id = None | Inl _ \<Rightarrow> True) \<and>
       \<not> (stale_lock e = None \<and> is_ok (be_discover e) \<and> is_ok (be_gate e))
    then snd (snd (bootstrap e dry s)) = s \<and> (if dry then True else fst (bootstrap e dry s) \<noteq> None) else True)"
proof (intro conjI)
  show "snd (snd (bootstrap e True s)) = s"
    by (auto simp: bootstrap_def Let_def bootstrap_online_def split: option.splits sum.splits prod.splits)
next
  have ex: "\<exists>err. execute_bootstrap e cand b as d s = (Some err, d, s)"
    if "\<not> is_ok (be_discover e) \<or> \<not> is_ok (be_gate e)" for cand b as d
    using that by (auto simp: execute_bootstrap_def split: sum.splits)
  show "if (case be_triage e of Inr t \<Rightarrow> find_diagnosis t deadlock_id = None | Inl _ \<Rightarrow> True) \<and>
       \<not> (stale_lock e = None \<and> is_ok (be_discover e) \<and> is_ok (be_gate e))
    then snd (snd (bootstrap e dry s)) = s \<and> (if dry then True else fst (bootstrap e dry s) \<noteq> None) else True"
  proof (cases "stale_lock e")
    case (Some h)
    then show ?thesis by (simp add: bootstrap_def)
  next
    case None
    show ?thesis
    proof (cases "be_triage e")
      case (Inl err)
      then show ?thesis using None by (simp add: bootstrap_def)
    next
      case (Inr t)
      obtain g d where g: "boot_gates (be_force e) t = (g, d)" by fastforce
      show ?thesis
      proof (cases g)
        case (Inl err)
        then show ?thesis using None Inr g by (simp add: bootstrap_def split: option.splits)
      next
        case ok: (Inr cb)
        obtain cand belly where cb: "cb = (cand, belly)" by fastforce
        show ?thesis using None Inr g ok cb ex[of cand belly "tr_assessments t" d] by (auto simp: bootstrap_def)
      qed
    qed
  qed
qed

section \<open>Rollback\<close>

text \<open>No call took effect behind an error, and every undo call takes effect.\<close>

definition definite :: "boot_env \<Rightarrow> bool" where
  "definite e \<longleftrightarrow> AppliedLost \<notin> {be_suspend e, be_lock_set e, be_scale_down e, be_force_patch e, be_scale_up e} \<and>
     (\<forall>c. be_helper e (MarkSafe c) \<noteq> AppliedLost)"

definition undo_works :: "boot_env \<Rightarrow> bool" where
  "undo_works e \<longleftrightarrow> be_undo_force e \<and> be_undo_lock e \<and> be_undo_scale e \<and> be_undo_resume e \<and>
     (\<forall>c. be_helper e (RevertSafe c) \<noteq> Refused)"

text \<open>The state an operation finds and leaves: running, unlocked, undirected, at its size.\<close>

definition at_rest :: "int \<Rightarrow> galera_cluster \<Rightarrow> bool" where
  "at_rest n s \<longleftrightarrow> \<not> gc_suspend s \<and> gc_lock s = '''' \<and> gc_force s = None \<and> gc_replicas s = n"

definition fence_flags :: "boot_env \<Rightarrow> rescue_flags \<Rightarrow> galera_cluster \<Rightarrow> bool" where
  "fence_flags e fl s \<longleftrightarrow> (gc_suspend s \<longrightarrow> rf_suspended fl) \<and> (gc_lock s \<noteq> '''' \<longrightarrow> rf_locked fl) \<and>
     (gc_force s \<noteq> None \<longrightarrow> rf_forced fl) \<and> (gc_replicas s \<noteq> be_replicas e \<longrightarrow> rf_scaled fl)"

lemma rescue_rests:
  assumes "undo_works e" "fence_flags e fl s"
  shows "at_rest (be_replicas e) (rescue e fl c s)" "gc_safe (rescue e fl c s) = (if rf_marked fl then removeAll c (gc_safe s) else gc_safe s)"
proof -
  have u: "be_undo_force e" "be_undo_lock e" "be_undo_scale e" "be_undo_resume e" "be_helper e (RevertSafe c) \<noteq> Refused"
    using assms(1) by (simp_all add: undo_works_def)
  note f = rescue_fields[OF u, of fl s]
  show "at_rest (be_replicas e) (rescue e fl c s)"
    using assms(2) unfolding fence_flags_def at_rest_def f by auto
  show "gc_safe (rescue e fl c s) = (if rf_marked fl then removeAll c (gc_safe s) else gc_safe s)" by (rule f(5))
qed

lemma fence_sets_flags:
  assumes "boot_fence e cand s = (err, fl, s1)" "definite e" "at_rest (be_replicas e) s"
  shows "fence_flags e fl s1" "gc_safe s1 = gc_safe s" "\<not> rf_marked fl"
    "err = None \<Longrightarrow> rf_suspended fl \<and> rf_locked fl \<and> rf_scaled fl \<and> gc_force s1 = None"
  using assms unfolding definite_def at_rest_def
  by (auto simp: boot_fence_def call_def fence_flags_def no_flags_def cluster_ops split: outcome.splits if_splits)

lemma apply_sets_flags:
  assumes "boot_apply e c fl s = (Some err, fl', s')" "definite e" "rf_suspended fl" "rf_locked fl" "rf_scaled fl"
    "gc_force s = None" "\<not> rf_marked fl"
  shows "fence_flags e fl' s'" "set (gc_safe s') - (if rf_marked fl' then {c} else {}) \<subseteq> set (gc_safe s)"
  using assms unfolding definite_def
  by (auto simp: boot_apply_def call_def fence_flags_def cluster_ops mark_safe_def split: outcome.splits if_splits)

text \<open>C9: a bootstrap that fails after the escrow gate leaves a cluster that it found at rest at rest
  again, with no node newly marked as safe to bootstrap, provided the undo calls work and no
  failed call had taken effect behind its error.\<close>

theorem failed_bootstrap_rolls_back:
  assumes "definite e" "undo_works e" "at_rest (be_replicas e) s" "execute_bootstrap e cand belly as d s = (Some err, d', s')"
  shows "at_rest (be_replicas e) s' \<and> set (gc_safe s') \<subseteq> set (gc_safe s)"
proof (cases "is_ok (be_discover e) \<and> is_ok (be_gate e)")
  case False
  then have "s' = s" using assms(4) by (auto simp: execute_bootstrap_def split: sum.splits)
  then show ?thesis using assms(3) by simp
next
  case True
  then obtain u v where ok: "be_discover e = Ok u" "be_gate e = Ok v" by (auto elim!: is_ok_E)
  obtain err1 fl s1 where f: "boot_fence e cand s = (err1, fl, s1)" by (metis prod_cases3)
  note ff = fence_sets_flags[OF f assms(1,3)]
  note rests = rescue_rests[OF assms(2)]
  let ?rec = "be_order e (boot_recover e (map ia_pod as))"
  obtain choice d2 where c: "boot_choose e cand belly as ?rec d = (choice, d2)" by fastforce
  show ?thesis
  proof (cases "err1 = None")
    case False
    then have "s' = rescue e fl cand s1" using assms(4) ok f by (simp add: execute_bootstrap_def)
    then show ?thesis using rests[OF ff(1)] ff(2,3) by simp
  next
    case none: True
    show ?thesis
    proof (cases choice)
      case (Inl x)
      then have "s' = rescue e fl cand s1" using assms(4) ok f none c by (simp add: execute_bootstrap_def Let_def)
      then show ?thesis using rests[OF ff(1)] ff(2,3) by simp
    next
      case (Inr n)
      define s2 where "s2 = boot_prepare e n as ?rec s1"
      obtain err2 fl2 s3 where a: "boot_apply e n fl s2 = (err2, fl2, s3)" by (metis prod_cases3)
      have p: "prepared_from s1 s2" unfolding s2_def by (rule prepare_frame)
      have "err2 \<noteq> None" "s' = rescue e fl2 n s3"
        using assms(4) ok f none c Inr a by (auto simp: execute_bootstrap_def Let_def s2_def split: if_splits)
      then obtain x where x: "err2 = Some x" by blast
      have g: "gc_force s2 = None" using ff(4)[OF none] p by (simp add: prepared_from_def)
      note af = apply_sets_flags[OF a[unfolded x] assms(1) _ _ _ g ff(3)]
      have "rf_suspended fl" "rf_locked fl" "rf_scaled fl" using ff(4)[OF none] by simp_all
      then have "fence_flags e fl2 s3" "set (gc_safe s3) - (if rf_marked fl2 then {n} else {}) \<subseteq> set (gc_safe s2)"
        using af by blast+
      then show ?thesis using rests[of fl2 s3 n] \<open>s' = rescue e fl2 n s3\<close> p ff(2)
        by (auto simp: prepared_from_def split: if_splits)
    qed
  qed
qed

section \<open>Commit\<close>

lemma boot_recover_in: "(p, r) \<in> set (boot_recover e ps) \<longleftrightarrow> p \<in> set ps \<and> be_recover e p = Ok r"
  by (induction ps) (auto split: sum.splits)

lemma clear_loops [simp]:
  "gc_suspend (clear_force_loop ans i k s) = gc_suspend s" "gc_lock (clear_force_loop ans i k s) = gc_lock s"
  "gc_replicas (clear_force_loop ans i k s) = gc_replicas s" "gc_safe (clear_force_loop ans i k s) = gc_safe s"
  by (induction ans i k s rule: clear_force_loop.induct) (auto simp: cluster_ops split: clear_answer.splits)

lemma status_loops [simp]:
  "gc_suspend (clear_status_loop st i k s) = gc_suspend s" "gc_lock (clear_status_loop st i k s) = gc_lock s"
  "gc_replicas (clear_status_loop st i k s) = gc_replicas s" "gc_safe (clear_status_loop st i k s) = gc_safe s"
  "gc_force (clear_status_loop st i k s) = gc_force s"
  by (induction st i k s rule: clear_status_loop.induct) (auto simp: cluster_ops)

lemma cleanup_fields:
  "be_resume e \<Longrightarrow> \<not> gc_suspend (boot_cleanup e s)" "be_final_lock e \<Longrightarrow> gc_lock (boot_cleanup e s) = ''''"
  "gc_replicas (boot_cleanup e s) = gc_replicas s" "gc_safe (boot_cleanup e s) = gc_safe s"
  by (auto simp: boot_cleanup_def if_done_def cluster_ops)

lemma apply_commits:
  assumes "boot_apply e c fl s = (None, fl', s')"
  shows "c \<in> set (gc_safe s')" "gc_replicas s' = be_replicas e"
  using assms by (auto simp: boot_apply_def call_def cluster_ops mark_safe_def split: outcome.splits if_splits)

lemma choose_ok:
  assumes "boot_choose e cand belly as rec d = (Ok c, d')"
  shows "fst (select_candidate (be_force e) cand as rec d) = Ok c" "c \<in> set (map ia_pod as)"
    "belly \<Longrightarrow> \<not> be_force e \<Longrightarrow> length (build_lineage_groups rec) \<le> 1"
proof -
  obtain r d2 where s: "select_candidate (be_force e) cand as rec d = (r, d2)" by fastforce
  have "bd_groups d2 = build_lineage_groups rec"
    using select_groups[of "be_force e" cand as rec d] s by simp
  then show "fst (select_candidate (be_force e) cand as rec d) = Ok c" "c \<in> set (map ia_pod as)"
    "belly \<Longrightarrow> \<not> be_force e \<Longrightarrow> length (build_lineage_groups rec) \<le> 1"
    using assms s by (auto simp: boot_choose_def split: sum.splits if_splits)
qed

text \<open>With at most one group, all authoritative recoveries share its lineage.\<close>

lemma one_group:
  assumes "length (build_lineage_groups rec) \<le> 1" "(p, r) \<in> set rec" "is_authoritative_recover r"
    "(q, s) \<in> set rec" "is_authoritative_recover s"
  shows "wr_uuid r = wr_uuid s"
proof -
  have "lineage_of rec (wr_uuid r) \<noteq> []" "lineage_of rec (wr_uuid s) \<noteq> []"
    using assms by (auto simp: lineage_of_def filter_empty_conv)
  then obtain g h where "g \<in> set (build_lineage_groups rec)" "lg_uuid g = wr_uuid r" "h \<in> set (build_lineage_groups rec)" "lg_uuid h = wr_uuid s"
    using group_exists by metis
  then show ?thesis using assms(1) by (cases "build_lineage_groups rec") auto
qed

lemma execute_commits:
  assumes "execute_bootstrap e cand belly as d s = (None, d', s')"
  obtains c where "boot_choose e cand belly as (be_order e (boot_recover e (map ia_pod as))) d = (Ok c, d')"
    "c \<in> set (gc_safe s')" "gc_replicas s' = be_replicas e" "be_resume e \<Longrightarrow> \<not> gc_suspend s'" "be_final_lock e \<Longrightarrow> gc_lock s' = ''''"
proof -
  let ?rec = "be_order e (boot_recover e (map ia_pod as))"
  obtain err1 fl s1 where f: "boot_fence e cand s = (err1, fl, s1)" by (metis prod_cases3)
  obtain choice d2 where ch: "boot_choose e cand belly as ?rec d = (choice, d2)" by fastforce
  have ok: "is_ok (be_discover e)" "is_ok (be_gate e)"
    using assms by (auto simp: execute_bootstrap_def split: sum.splits)
  then obtain u v where uv: "be_discover e = Ok u" "be_gate e = Ok v" by (auto elim!: is_ok_E)
  have e1: "err1 = None" using assms uv f by (auto simp: execute_bootstrap_def split: if_splits)
  then obtain c where c: "choice = Ok c" using assms uv f ch by (auto simp: execute_bootstrap_def Let_def split: sum.splits)
  obtain err2 fl2 s2 where a: "boot_apply e c fl (boot_prepare e c as ?rec s1) = (err2, fl2, s2)" by (metis prod_cases3)
  have r: "err2 = None" "s' = boot_cleanup e s2" "d' = d2"
    using assms uv f ch c e1 a by (auto simp: execute_bootstrap_def Let_def split: if_splits)
  show ?thesis
    using that[of c] ch c r apply_commits[OF a[unfolded r(1)]] cleanup_fields[of e s2] by simp
qed

lemma choose_unrecovered:
  assumes "authoritative rec = []" "boot_choose e cand belly as rec d = (Ok c, d')"
  shows "c = cand"
  using choose_ok(1)[OF assms(2)] groups_empty[of rec] assms(1) by (simp add: select_candidate_def Let_def)

text \<open>C10: a bootstrap that commits without force, of named nodes and whatever the order in which the recoveries
  are visited, has marked one of them.  When some recovery was authoritative that node's was, unsurpassed in its
  lineage, not behind the known position of triage's candidate when that one has no recovery of its own, and from a
  belly-up cluster all authoritative recoveries share its lineage.  When none was, it is triage's candidate, on
  triage's word alone.  The cluster is at its size again.\<close>

theorem committed_source_is_proven:
  assumes "execute_bootstrap e cand belly as d s = (None, d', s')" "\<not> be_force e"
    "set (be_order e (boot_recover e (map ia_pod as))) = set (boot_recover e (map ia_pod as))"
    "'''' \<notin> ia_pod ` set as"
  shows "\<exists>c. c \<in> set (gc_safe s') \<and> c \<in> set (map ia_pod as) \<and> gc_replicas s' = be_replicas e \<and>
     (if authoritative (boot_recover e (map ia_pod as)) = [] then c = cand
      else (\<exists>r. be_recover e c = Ok r \<and> is_authoritative_recover r \<and>
        (\<forall>p\<in>set (map ia_pod as). \<forall>q. be_recover e p = Ok q \<and> is_authoritative_recover q \<longrightarrow>
           (wr_uuid q = wr_uuid r \<longrightarrow> wr_seqno q \<le> wr_seqno r) \<and> (belly \<longrightarrow> wr_uuid q = wr_uuid r)) \<and>
        (c = cand \<or> (\<exists>q. be_recover e cand = Ok q \<and> is_authoritative_recover q) \<or> known_seqno as cand \<le> wr_seqno r)))"
proof -
  let ?rec = "be_order e (boot_recover e (map ia_pod as))"
  obtain c where c: "boot_choose e cand belly as ?rec d = (Ok c, d')" "c \<in> set (gc_safe s')" "gc_replicas s' = be_replicas e"
    by (rule execute_commits[OF assms(1)])
  note ch = choose_ok[OF c(1)]
  have mem: "(p, r) \<in> set ?rec \<longleftrightarrow> p \<in> set (map ia_pod as) \<and> be_recover e p = Ok r" for p r
    using assms(3) boot_recover_in by simp
  have au: "authoritative ?rec = [] \<longleftrightarrow> authoritative (boot_recover e (map ia_pod as)) = []"
    using assms(3) by (auto simp: authoritative_def filter_empty_conv)
  show ?thesis
  proof (cases "authoritative ?rec = []")
    case True
    then show ?thesis using choose_unrecovered[OF True c(1)] c(2,3) ch(2) au by auto
  next
    case False
    have "'''' \<notin> fst ` set ?rec" using mem assms(4) by (force simp: image_iff)
    moreover have "fst (select_candidate False cand as ?rec d) = Ok c" using ch(1) assms(2) by simp
    ultimately obtain r where r: "(c, r) \<in> set ?rec" "is_authoritative_recover r"
        "\<forall>(q, s)\<in>set (lineage_of ?rec (wr_uuid r)). wr_seqno s \<le> wr_seqno r"
        "c = cand \<or> is_authoritative_recover (map_get zero_recover ?rec cand) \<or> known_seqno as cand \<le> wr_seqno r"
      using most_advanced_source[OF False] by blast
    have top: "(wr_uuid q = wr_uuid r \<longrightarrow> wr_seqno q \<le> wr_seqno r) \<and> (belly \<longrightarrow> wr_uuid q = wr_uuid r)"
      if "p \<in> set (map ia_pod as)" "be_recover e p = Ok q" "is_authoritative_recover q" for p q
    proof (intro conjI impI)
      have pq: "(p, q) \<in> set ?rec" using mem that by blast
      show "wr_seqno q \<le> wr_seqno r" if "wr_uuid q = wr_uuid r"
        using r(3) pq that \<open>is_authoritative_recover q\<close> by (force simp: lineage_of_def)
      show "wr_uuid q = wr_uuid r" if belly
        using one_group[OF ch(3)[OF that assms(2)] pq \<open>is_authoritative_recover q\<close> r(1,2)] .
    qed
    have "\<exists>q. be_recover e cand = Ok q \<and> is_authoritative_recover q" if "is_authoritative_recover (map_get zero_recover ?rec cand)"
      using that mem map_of_SomeD[of ?rec cand]
      by (cases "map_of ?rec cand") (auto simp: map_get_def zero_recover_def is_authoritative_recover_def)
    then have cand: "c = cand \<or> (\<exists>q. be_recover e cand = Ok q \<and> is_authoritative_recover q) \<or> known_seqno as cand \<le> wr_seqno r"
      using r(4) by blast
    have "be_recover e c = Ok r" using r(1) mem by blast
    then have "\<exists>r. be_recover e c = Ok r \<and> is_authoritative_recover r \<and>
        (\<forall>p\<in>set (map ia_pod as). \<forall>q. be_recover e p = Ok q \<and> is_authoritative_recover q \<longrightarrow>
           (wr_uuid q = wr_uuid r \<longrightarrow> wr_seqno q \<le> wr_seqno r) \<and> (belly \<longrightarrow> wr_uuid q = wr_uuid r)) \<and>
        (c = cand \<or> (\<exists>q. be_recover e cand = Ok q \<and> is_authoritative_recover q) \<or> known_seqno as cand \<le> wr_seqno r)"
      using r(2) top cand by blast
    then show ?thesis using c(2,3) ch(2) unfolding if_not_P[OF False[unfolded au]] by blast
  qed
qed

section \<open>Where the guarantees end\<close>

text \<open>Three nodes down, none with a known position; the recovery of \<open>db-2\<close> fails.\<close>

definition down_node :: "string \<Rightarrow> instance_assessment" where
  "down_node p = zero_assessment\<lparr> ia_pod := p, ia_eff_seqno := -1, ia_safe_to_bootstrap := ''0'' \<rparr>"

definition blind_triage :: triage_result where
  "blind_triage = zero_triage\<lparr> tr_assessments := [down_node ''db-0'', down_node ''db-1'', down_node ''db-2''],
     tr_comparison := zero_comparison\<lparr> dc_authority := AuthorityUndeterminable \<rparr>, tr_all_down := True \<rparr>"

definition blind_boot :: boot_env where
  "blind_boot = \<lparr> be_force = False, be_now = day0, be_lock_seen = Ok '''', be_triage = Ok blind_triage, be_replicas = 3,
     be_discover = Ok (), be_gate = Ok (), be_suspend = Applied, be_lock_set = Applied, be_scale_down = Applied,
     be_terminated = True,
     be_recover = (\<lambda>p. if p = ''db-0'' then Ok (recover_at split_uuid_a 10)
                       else if p = ''db-1'' then Ok (recover_at split_uuid_a 11) else Err ''pod pending''),
     be_order = id, be_helper = (\<lambda>_. Applied), be_force_patch = Applied, be_scale_up = Applied,
     be_undo_force = True, be_undo_lock = True, be_undo_scale = True, be_undo_resume = True,
     be_clear_force = (\<lambda>_. ClearDone), be_clear_status = (\<lambda>_. True), be_final_lock = True, be_resume = True,
     be_online_force = Applied, be_ready = (\<lambda>_. Ok ''True'') \<rparr>"

text \<open>A belly-up bootstrap does not wait for every position: with the recovery of one of three nodes
  failing and triage's authority undeterminable, it commits without force to the better of the
  other two, whatever the third one holds.\<close>

theorem belly_up_bootstrap_ignores_unread_node:
  "\<not> dc_safe_to_heal (tr_comparison blind_triage) \<and> \<not> is_ok (be_recover blind_boot ''db-2'') \<and>
   fst (bootstrap blind_boot False demo_cluster) = None \<and>
   bd_candidate_pod (fst (snd (bootstrap blind_boot False demo_cluster))) = ''db-1'' \<and>
   gc_safe (snd (snd (bootstrap blind_boot False demo_cluster))) = [''db-1'']"
  by code_simp

definition lost_patch_boot :: boot_env where
  "lost_patch_boot = blind_boot\<lparr> be_force_patch := AppliedLost \<rparr>"

text \<open>The rollback knows a step only by its success: when the response to the patch that directs the
  operator is lost after it took effect, the failed bootstrap unmarks the node and resumes the
  operator, whose resource still orders a forced bootstrap from that node.\<close>

theorem lost_patch_resumes_with_directive:
  "fst (bootstrap lost_patch_boot False demo_cluster) = Some PatchFailed \<and>
   gc_force (snd (snd (bootstrap lost_patch_boot False demo_cluster))) = Some ''db-1'' \<and>
   \<not> gc_suspend (snd (snd (bootstrap lost_patch_boot False demo_cluster))) \<and>
   gc_replicas (snd (snd (bootstrap lost_patch_boot False demo_cluster))) = 3 \<and>
   gc_safe (snd (snd (bootstrap lost_patch_boot False demo_cluster))) = []"
  by code_simp

text \<open>The online remedy clears its directive only after the cluster became ready: on a timeout the
  resource keeps ordering a forced bootstrap from the source.\<close>

theorem online_timeout_keeps_directive:
  "if be_online_force e = Applied \<and> dg_target d \<noteq> '''' \<and> \<not> wait_galera_ready (be_ready e) 0 60
   then fst (bootstrap_online e d s) = Some OnlineTimeout \<and> gc_force (snd (bootstrap_online e d s)) = Some (dg_target d)
   else True"
  by (simp add: bootstrap_online_def cluster_ops)

section \<open>Witnesses\<close>

definition blind_nodes :: "instance_assessment list" where
  "blind_nodes = [down_node ''db-0'', down_node ''db-1'', down_node ''db-2'']"

definition blind_run :: "boot_error option \<times> bootstrap_decision \<times> galera_cluster" where
  "blind_run = execute_bootstrap blind_boot '''' True blind_nodes belly_up_decision demo_cluster"

lemma committed_source_is_proven_witness:
  "\<exists>c r. c \<in> set (gc_safe (snd (snd blind_run))) \<and> be_recover blind_boot c = Ok r \<and> is_authoritative_recover r"
proof -
  have r: "execute_bootstrap blind_boot '''' True blind_nodes belly_up_decision demo_cluster = (None, fst (snd blind_run), snd (snd blind_run))"
  proof -
    have "fst blind_run = None" by code_simp
    then show ?thesis unfolding blind_run_def by (metis prod.collapse)
  qed
  have h: "\<not> be_force blind_boot"
    "set (be_order blind_boot (boot_recover blind_boot (map ia_pod blind_nodes))) = set (boot_recover blind_boot (map ia_pod blind_nodes))"
    by (simp_all add: blind_boot_def)
  have a: "authoritative (boot_recover blind_boot (map ia_pod blind_nodes)) \<noteq> []" by code_simp
  have n: "'''' \<notin> ia_pod ` set blind_nodes" by code_simp
  then show ?thesis using committed_source_is_proven[OF r h n] unfolding if_not_P[OF a] by blast
qed

definition refused_patch_boot :: boot_env where
  "refused_patch_boot = blind_boot\<lparr> be_force_patch := Refused \<rparr>"

lemma failed_bootstrap_rolls_back_witness:
  "at_rest 3 (snd (snd (execute_bootstrap refused_patch_boot '''' True blind_nodes belly_up_decision demo_cluster)))"
proof -
  let ?r = "execute_bootstrap refused_patch_boot '''' True blind_nodes belly_up_decision demo_cluster"
  have "fst ?r = Some PatchFailed" by code_simp
  then have r: "?r = (Some PatchFailed, fst (snd ?r), snd (snd ?r))" by (metis prod.collapse)
  have "definite refused_patch_boot" "undo_works refused_patch_boot"
    by (simp_all add: definite_def undo_works_def refused_patch_boot_def blind_boot_def)
  moreover have "be_replicas refused_patch_boot = 3" by (simp add: refused_patch_boot_def blind_boot_def)
  moreover have "at_rest 3 demo_cluster" by (simp add: at_rest_def demo_cluster_def)
  ultimately show ?thesis using failed_bootstrap_rolls_back[OF _ _ _ r] by simp
qed

end
