(* ===== verification/Escrow.thy ===== *)
theory Escrow
  imports Results_Model
begin

text \<open>
  The escrow that every destructive operation takes first (\<open>src/engine/escrow\<close>): the
  choice of a provider, the two providers with their capture and their proof of
  restorability, the space and count bounds, the gate, and the discovery of the claims
  that belong to an instance.  Answers of the API server, of restic and of the file system
  are fields of the environment; a poll takes the attempt number.
\<close>

section \<open>Data\<close>

record escrow_ref =
  er_provider :: string
  er_id :: string
  er_pvc :: string
  er_cluster :: string
  er_instance :: string
  er_run :: string
  er_created :: int
  er_verified :: bool

record escrow_conf =
  ec_namespace :: string
  ec_cluster :: string
  ec_backups_path :: string
  ec_restic_password :: string
  ec_snapshot_class :: string
  ec_no_escrow :: bool

text \<open>A pod as the escrow sees it: the claims it mounts and its containers' readiness.\<close>

record mounting_pod =
  mp_claims :: "string list"
  mp_ready :: "bool list"

datatype helper_phase = HelperPending | HelperRunning | HelperEnded string

datatype tar_event = TarEntry int | TarError string

record escrow_env =
  xe_pods :: "(string, mounting_pod list) result"
  xe_pvc_class :: "string \<Rightarrow> (string, string option) result"
  xe_provisioner :: "string \<Rightarrow> (string, string) result"
  xe_classes :: "(string, (string \<times> string) list) result"
  xe_count :: "(string, int) result"
  xe_statfs :: "(string, int \<times> int) result"
  xe_create :: "string \<Rightarrow> (string, unit) result"
  xe_snapshot :: "string \<Rightarrow> nat \<Rightarrow> (string, string \<times> bool) result"
  xe_init :: "(string, unit) result"
  xe_helper :: "string \<Rightarrow> (string, unit) result"
  xe_phase :: "string \<Rightarrow> nat \<Rightarrow> (string, helper_phase) result"
  xe_backup :: "string \<Rightarrow> (string, string) result"
  xe_tar :: "string \<Rightarrow> (string, unit) result"
  xe_dump :: "string \<Rightarrow> string \<Rightarrow> tar_event list \<times> string option"
  xe_now :: int
  xe_run :: string

datatype escrow_error =
    EmptySet | SelectRefused | CountFailed string | CapReached int | SpaceUnknown string | NoSpace int int
  | CaptureFailed string | VerifyFailed string

section \<open>Choosing a provider\<close>

datatype provider = ResticPvc | SnapshotClass string

definition any_live_writer :: "escrow_env \<Rightarrow> string list \<Rightarrow> bool" where
  "any_live_writer e pvcs =
     (case xe_pods e of
        Inl _ \<Rightarrow> True
      | Inr pods \<Rightarrow> list_ex (\<lambda>p. list_ex (\<lambda>c. c \<in> set pvcs) (mp_claims p) \<and> list_ex id (mp_ready p)) pods)"

definition match_snapshot_class :: "escrow_env \<Rightarrow> string \<Rightarrow> (string, string) result" where
  "match_snapshot_class e pvc =
     (case xe_pvc_class e pvc of
        Inl err \<Rightarrow> Err err
      | Inr None \<Rightarrow> Err ''no storage class''
      | Inr (Some sc) \<Rightarrow>
          if sc = '''' then Err ''no storage class''
          else (case xe_provisioner e sc of
                  Inl err \<Rightarrow> Err err
                | Inr prov \<Rightarrow>
                    (case xe_classes e of
                       Inl err \<Rightarrow> Err err
                     | Inr cs \<Rightarrow> (case find_first (\<lambda>(_, d). d = prov) cs of
                                    Some (n, _) \<Rightarrow> Ok n | None \<Rightarrow> Err ''no class''))))"

definition restic_ok :: "escrow_conf \<Rightarrow> bool" where
  "restic_ok c \<longleftrightarrow> ec_backups_path c \<noteq> '''' \<and> ec_restic_password c \<noteq> ''''"

definition select_provider :: "escrow_env \<Rightarrow> escrow_conf \<Rightarrow> string list \<Rightarrow> provider option" where
  "select_provider e c pvcs =
     (if pvcs = [] then None
      else if restic_ok c \<and> \<not> any_live_writer e pvcs then Some ResticPvc
      else if ec_snapshot_class c \<noteq> '''' then Some (SnapshotClass (ec_snapshot_class c))
      else (case match_snapshot_class e (hd pvcs) of
              Inr n \<Rightarrow> if n \<noteq> '''' then Some (SnapshotClass n) else if restic_ok c then Some ResticPvc else None
            | Inl _ \<Rightarrow> if restic_ok c then Some ResticPvc else None))"

section \<open>The snapshot provider\<close>

definition escrow_name :: "string \<Rightarrow> string \<Rightarrow> string" where
  "escrow_name pvc run = ''hasteward-escrow-'' @ pvc @ ''-'' @ (if length run > 8 then take 8 run else run)"

definition new_ref :: "escrow_env \<Rightarrow> escrow_conf \<Rightarrow> string \<Rightarrow> string \<Rightarrow> string \<Rightarrow> escrow_ref" where
  "new_ref e c prov i pvc = \<lparr> er_provider = prov, er_id = i, er_pvc = pvc, er_cluster = ec_cluster c, er_instance = pvc, er_run = xe_run e,
     er_created = xe_now e, er_verified = False \<rparr>"

fun snapshot_capture :: "escrow_env \<Rightarrow> escrow_conf \<Rightarrow> string list \<Rightarrow> (string, escrow_ref list) result" where
  "snapshot_capture e c [] = Ok []"
| "snapshot_capture e c (p # ps) =
     (case xe_create e (escrow_name p (xe_run e)) of
        Inl err \<Rightarrow> Err err
      | Inr _ \<Rightarrow> (case snapshot_capture e c ps of
                    Inl err \<Rightarrow> Err err
                  | Inr refs \<Rightarrow> Ok (new_ref e c ''volumesnapshot'' (escrow_name p (xe_run e)) p # refs)))"

text \<open>Sixty polls, five seconds apart; a read error or a reported snapshot error is terminal.\<close>

fun snapshot_ready :: "(nat \<Rightarrow> (string, string \<times> bool) result) \<Rightarrow> nat \<Rightarrow> nat \<Rightarrow> (string, unit) result" where
  "snapshot_ready poll i 0 = Err ''never became readyToUse within 5m0s''"
| "snapshot_ready poll i (Suc k) =
     (case poll i of
        Inl err \<Rightarrow> Err (''cannot read VolumeSnapshot: '' @ err)
      | Inr (msg, ready) \<Rightarrow>
          if msg \<noteq> '''' then Err (''VolumeSnapshot error: '' @ msg)
          else if ready then Ok () else snapshot_ready poll (Suc i) k)"

fun snapshot_verify :: "escrow_env \<Rightarrow> escrow_ref list \<Rightarrow> (string, escrow_ref list) result" where
  "snapshot_verify e [] = Ok []"
| "snapshot_verify e (r # rs) =
     (case snapshot_ready (xe_snapshot e (er_id r)) 0 60 of
        Inl err \<Rightarrow> Err (''escrow '' @ er_id r @ '' '' @ err)
      | Inr _ \<Rightarrow> (case snapshot_verify e rs of Inl err \<Rightarrow> Err err | Inr rs' \<Rightarrow> Ok (r\<lparr> er_verified := True \<rparr> # rs')))"

section \<open>The restic provider\<close>

definition escrow_tar_path :: "string \<Rightarrow> string \<Rightarrow> string \<Rightarrow> string" where
  "escrow_tar_path ns cluster pvc = ns @ ''/'' @ cluster @ ''/escrow-'' @ pvc @ ''.tar''"

fun wait_running :: "(nat \<Rightarrow> (string, helper_phase) result) \<Rightarrow> nat \<Rightarrow> nat \<Rightarrow> (string, unit) result" where
  "wait_running poll i 0 = Err ''not running within 120s''"
| "wait_running poll i (Suc k) =
     (case poll i of
        Inr HelperRunning \<Rightarrow> Ok ()
      | Inr (HelperEnded ph) \<Rightarrow> Err (''reached phase '' @ ph)
      | _ \<Rightarrow> wait_running poll (Suc i) k)"

definition capture_one :: "escrow_env \<Rightarrow> escrow_conf \<Rightarrow> string \<Rightarrow> (string, escrow_ref) result" where
  "capture_one e c pvc =
     bind_ok (xe_helper e pvc) (\<lambda>_.
     bind_ok (wait_running (xe_phase e pvc) 0 60) (\<lambda>_.
     bind_ok (xe_backup e pvc) (\<lambda>i.
     bind_ok (xe_tar e pvc) (\<lambda>_. Ok (new_ref e c ''resticpvc'' i pvc)))))"

fun restic_capture_all :: "escrow_env \<Rightarrow> escrow_conf \<Rightarrow> string list \<Rightarrow> (string, escrow_ref list) result" where
  "restic_capture_all e c [] = Ok []"
| "restic_capture_all e c (p # ps) =
     bind_ok (capture_one e c p) (\<lambda>r. bind_ok (restic_capture_all e c ps) (\<lambda>rs. Ok (r # rs)))"

definition restic_capture :: "escrow_env \<Rightarrow> escrow_conf \<Rightarrow> string list \<Rightarrow> (string, escrow_ref list) result" where
  "restic_capture e c pvcs = bind_ok (xe_init e) (\<lambda>_. restic_capture_all e c pvcs)"

text \<open>Reading the dumped archive: entries and their bytes until the end or an error.\<close>

fun read_archive :: "tar_event list \<Rightarrow> int \<Rightarrow> int \<Rightarrow> (string, int \<times> int) result" where
  "read_archive [] n b = Ok (n, b)"
| "read_archive (TarError err # es) n b = Err err"
| "read_archive (TarEntry k # es) n b = read_archive es (n + 1) (b + k)"

definition prove_restorable :: "escrow_env \<Rightarrow> string \<Rightarrow> string \<Rightarrow> (string, unit) result" where
  "prove_restorable e i path =
     (case xe_dump e i path of (es, dump_err) \<Rightarrow>
        (case read_archive es 0 0 of
           Inl err \<Rightarrow> Err (case dump_err of Some d \<Rightarrow> ''restic dump failed (bytes not recoverable): '' @ d
                                         | None \<Rightarrow> ''restored archive is not a readable tar (corrupt): '' @ err)
         | Inr (n, b) \<Rightarrow>
             (case dump_err of
                Some d \<Rightarrow> Err (''restic dump failed (bytes not recoverable): '' @ d)
              | None \<Rightarrow> if n = 0 \<or> b = 0 then Err ''restored archive was empty'' else Ok ())))"

fun restic_verify :: "escrow_env \<Rightarrow> escrow_conf \<Rightarrow> escrow_ref list \<Rightarrow> (string, escrow_ref list) result" where
  "restic_verify e c [] = Ok []"
| "restic_verify e c (r # rs) =
     (case prove_restorable e (er_id r) (escrow_tar_path (ec_namespace c) (er_cluster r) (er_pvc r)) of
        Inl err \<Rightarrow> Err err
      | Inr _ \<Rightarrow> (case restic_verify e c rs of Inl err \<Rightarrow> Err err | Inr rs' \<Rightarrow> Ok (r\<lparr> er_verified := True \<rparr> # rs')))"

section \<open>The gate\<close>

definition reserve_bytes :: int where "reserve_bytes = 1073741824"
definition max_outstanding :: int where "max_outstanding = 12"

definition provider_capture :: "escrow_env \<Rightarrow> escrow_conf \<Rightarrow> provider \<Rightarrow> string list \<Rightarrow> (string, escrow_ref list) result" where
  "provider_capture e c p = (case p of ResticPvc \<Rightarrow> restic_capture e c | SnapshotClass _ \<Rightarrow> snapshot_capture e c)"

definition provider_verify :: "escrow_env \<Rightarrow> escrow_conf \<Rightarrow> provider \<Rightarrow> escrow_ref list \<Rightarrow> (string, escrow_ref list) result" where
  "provider_verify e c p = (case p of ResticPvc \<Rightarrow> restic_verify e c | SnapshotClass _ \<Rightarrow> snapshot_verify e)"

definition estimate_bytes :: "provider \<Rightarrow> string list \<Rightarrow> (string \<times> int) list \<Rightarrow> int" where
  "estimate_bytes p pvcs used =
     (case p of ResticPvc \<Rightarrow> fold (\<lambda>v t. wrap64 (t + map_get 0 used v)) pvcs 0 | SnapshotClass _ \<Rightarrow> 0)"

definition available_bytes :: "escrow_env \<Rightarrow> provider \<Rightarrow> (string, int) result" where
  "available_bytes e p =
     (case p of
        ResticPvc \<Rightarrow> (case xe_statfs e of Inl err \<Rightarrow> Err err | Inr (bavail, bsize) \<Rightarrow> Ok (wrap64 (bavail * bsize)))
      | SnapshotClass _ \<Rightarrow> Ok int64_max)"

definition prepare :: "escrow_env \<Rightarrow> escrow_conf \<Rightarrow> string list \<Rightarrow> (string \<times> int) list \<Rightarrow> (escrow_error, provider) result" where
  "prepare e c pvcs used =
     (if pvcs = [] then Err EmptySet
      else (case select_provider e c pvcs of
              None \<Rightarrow> Err SelectRefused
            | Some p \<Rightarrow>
                (case xe_count e of
                   Inl err \<Rightarrow> Err (CountFailed err)
                 | Inr n \<Rightarrow>
                     if n \<ge> max_outstanding then Err (CapReached n)
                     else (case available_bytes e p of
                             Inl err \<Rightarrow> Err (SpaceUnknown err)
                           | Inr av \<Rightarrow>
                               if wrap64 (estimate_bytes p pvcs used + reserve_bytes) > av
                               then Err (NoSpace (estimate_bytes p pvcs used) av)
                               else Ok p))))"

definition capture_set ::
  "(string list \<Rightarrow> (string, escrow_ref list) result) \<Rightarrow> (escrow_ref list \<Rightarrow> (string, escrow_ref list) result)
     \<Rightarrow> string list \<Rightarrow> (escrow_error, escrow_ref list) result" where
  "capture_set capture verify pvcs =
     (case capture pvcs of
        Inl err \<Rightarrow> Err (CaptureFailed err)
      | Inr refs \<Rightarrow> (case verify refs of Inl err \<Rightarrow> Err (VerifyFailed err) | Inr refs' \<Rightarrow> Ok refs'))"

definition gate :: "escrow_env \<Rightarrow> escrow_conf \<Rightarrow> string list \<Rightarrow> (string \<times> int) list \<Rightarrow> (escrow_error, escrow_ref list) result" where
  "gate e c pvcs used =
     (if ec_no_escrow c then Ok []
      else bind_ok (prepare e c pvcs used) (\<lambda>p. capture_set (provider_capture e c p) (provider_verify e c p) pvcs))"

section \<open>Claims and sizes\<close>

definition used_bytes_by_pvc :: "instance_assessment list \<Rightarrow> string list \<Rightarrow> (string \<times> int) list" where
  "used_bytes_by_pvc as pods =
     fold (\<lambda>a m. case ia_disk a of
              Some ds \<Rightarrow> if ia_pod a \<in> set pods then map_set (ia_pod a) (ds_used ds) m else m
            | None \<Rightarrow> m) as []"

datatype pod_read = PodClaims "string list" | PodGone | PodError string

definition add_pvc :: "string \<Rightarrow> string list \<Rightarrow> string list" where
  "add_pvc pvc out = (if pvc \<noteq> '''' \<and> pvc \<notin> set out then out @ [pvc] else out)"

fun discover_pvcs :: "(string \<Rightarrow> string) \<Rightarrow> (string \<Rightarrow> pod_read) \<Rightarrow> string list \<Rightarrow> string list \<Rightarrow> (string, string list) result" where
  "discover_pvcs naming pod_of [] out = Ok out"
| "discover_pvcs naming pod_of (p # ps) out =
     (let out1 = add_pvc (naming p) out in
      case pod_of p of
        PodGone \<Rightarrow> discover_pvcs naming pod_of ps out1
      | PodError err \<Rightarrow> Err err
      | PodClaims cs \<Rightarrow> discover_pvcs naming pod_of ps (fold add_pvc cs out1))"

section \<open>The contract of a provider\<close>

text \<open>What the gate relies on: a capture yields one reference per claim, in order and under the provider's
  name, and a successful proof marks every reference and established its restorability.\<close>

locale escrow_provider =
  fixes name :: string
    and capture :: "string list \<Rightarrow> (string, escrow_ref list) result"
    and verify :: "escrow_ref list \<Rightarrow> (string, escrow_ref list) result"
    and restorable :: "escrow_ref \<Rightarrow> bool"
  assumes capture_covers: "capture pvcs = Ok refs \<Longrightarrow> map er_pvc refs = pvcs"
    and capture_names: "capture pvcs = Ok refs \<Longrightarrow> r \<in> set refs \<Longrightarrow> er_provider r = name"
    and verify_keeps: "verify refs = Ok refs' \<Longrightarrow> map er_pvc refs' = map er_pvc refs"
    and verify_names: "verify refs = Ok refs' \<Longrightarrow> map er_provider refs' = map er_provider refs"
    and verify_proves: "verify refs = Ok refs' \<Longrightarrow> r \<in> set refs' \<Longrightarrow> er_verified r \<and> restorable r"
begin

lemma captured_is_proven:
  assumes "capture_set capture verify pvcs = Ok refs"
  shows "map er_pvc refs = pvcs" "r \<in> set refs \<Longrightarrow> er_verified r \<and> restorable r" "r \<in> set refs \<Longrightarrow> er_provider r = name"
proof -
  obtain refs0 where c: "capture pvcs = Ok refs0" "verify refs0 = Ok refs"
    using assms by (auto simp: capture_set_def split: sum.splits)
  show "map er_pvc refs = pvcs" using capture_covers[OF c(1)] verify_keeps[OF c(2)] by simp
  show "r \<in> set refs \<Longrightarrow> er_verified r \<and> restorable r" by (rule verify_proves[OF c(2)])
  have "set (map er_provider refs) \<subseteq> {name}" unfolding verify_names[OF c(2)] using capture_names[OF c(1)] by auto
  then show "r \<in> set refs \<Longrightarrow> er_provider r = name" by auto
qed

end

definition snapshot_proven :: "escrow_env \<Rightarrow> escrow_ref \<Rightarrow> bool" where
  "snapshot_proven e r \<longleftrightarrow> list_ex (\<lambda>i. xe_snapshot e (er_id r) i = Ok ('''', True)) [0..<60]"

definition archive_readable :: "tar_event list \<Rightarrow> bool" where
  "archive_readable es \<longleftrightarrow> list_all (\<lambda>ev. case ev of TarEntry _ \<Rightarrow> True | TarError _ \<Rightarrow> False) es \<and>
     list_ex (\<lambda>ev. case ev of TarEntry k \<Rightarrow> k \<noteq> 0 | TarError _ \<Rightarrow> False) es"

definition archive_proven :: "escrow_env \<Rightarrow> escrow_conf \<Rightarrow> escrow_ref \<Rightarrow> bool" where
  "archive_proven e c r \<longleftrightarrow>
     (case xe_dump e (er_id r) (escrow_tar_path (ec_namespace c) (er_cluster r) (er_pvc r)) of
        (es, err) \<Rightarrow> err = None \<and> archive_readable es)"

lemma snapshot_ready_seen:
  "snapshot_ready poll i k = Ok u \<Longrightarrow> \<exists>j\<ge>i. j < i + k \<and> poll j = Ok ('''', True)"
proof (induction poll i k rule: snapshot_ready.induct)
  case (2 poll i k)
  obtain msg ready where p: "poll i = Ok (msg, ready)" "msg = ''''"
    using 2(2) by (auto split: sum.splits prod.splits if_splits)
  show ?case
  proof (cases ready)
    case True
    then show ?thesis using p by (intro exI[of _ i]) simp
  next
    case False
    then have "snapshot_ready poll (Suc i) k = Ok u" using 2(2) p by simp
    then obtain j where "j \<ge> Suc i" "j < Suc i + k" "poll j = Ok ('''', True)"
      using 2(1)[OF p(1) refl] p(2) False by blast
    then show ?thesis by (intro exI[of _ j]) simp
  qed
qed simp

lemma snapshot_ready_proven:
  assumes "snapshot_ready (xe_snapshot e (er_id r)) 0 60 = Ok u"
  shows "snapshot_proven e (r\<lparr> er_verified := b \<rparr>)"
proof -
  obtain j where j: "j < 60" "xe_snapshot e (er_id r) j = Ok ([], True)" using snapshot_ready_seen[OF assms] by auto
  have "er_id (r\<lparr> er_verified := b \<rparr>) = er_id r" by simp
  then show ?thesis unfolding snapshot_proven_def list_ex_iff using j by (intro bexI[of _ j]) simp_all
qed

lemma read_archive_readable:
  "read_archive es n b = Ok (n', b') \<Longrightarrow>
     list_all (\<lambda>ev. case ev of TarEntry _ \<Rightarrow> True | TarError _ \<Rightarrow> False) es \<and>
     (b' \<noteq> b \<longrightarrow> list_ex (\<lambda>ev. case ev of TarEntry k \<Rightarrow> k \<noteq> 0 | TarError _ \<Rightarrow> False) es)"
  by (induction es n b rule: read_archive.induct) fastforce+

lemma prove_restorable_reads:
  "prove_restorable e i path = Ok u \<Longrightarrow> case xe_dump e i path of (es, err) \<Rightarrow> err = None \<and> archive_readable es"
  by (auto simp: prove_restorable_def archive_readable_def split: prod.splits sum.splits option.splits if_splits
      dest: read_archive_readable)

interpretation snap: escrow_provider "''volumesnapshot''" "snapshot_capture e c" "snapshot_verify e" "snapshot_proven e"
proof
  show "snapshot_capture e c pvcs = Ok refs \<Longrightarrow> map er_pvc refs = pvcs" for pvcs refs
    by (induction pvcs arbitrary: refs) (auto simp: new_ref_def split: sum.splits)
  show "snapshot_capture e c pvcs = Ok refs \<Longrightarrow> r \<in> set refs \<Longrightarrow> er_provider r = ''volumesnapshot''" for pvcs refs r
    by (induction pvcs arbitrary: refs) (auto simp: new_ref_def split: sum.splits)
  show "snapshot_verify e refs = Ok refs' \<Longrightarrow> map er_provider refs' = map er_provider refs" for refs refs'
    by (induction refs arbitrary: refs') (auto split: sum.splits if_splits)
  show "snapshot_verify e refs = Ok refs' \<Longrightarrow> map er_pvc refs' = map er_pvc refs" for refs refs'
    by (induction refs arbitrary: refs') (auto split: sum.splits if_splits)
  show "snapshot_verify e refs = Ok refs' \<Longrightarrow> r \<in> set refs' \<Longrightarrow> er_verified r \<and> snapshot_proven e r" for refs refs' r
    by (induction refs arbitrary: refs')
      (auto dest: snapshot_ready_proven split: sum.splits if_splits)
qed

interpretation restic: escrow_provider "''resticpvc''" "restic_capture e c" "restic_verify e c" "archive_proven e c"
proof
  have all: "restic_capture_all e c pvcs = Ok refs \<Longrightarrow> map er_pvc refs = pvcs" for pvcs refs
    by (induction pvcs arbitrary: refs) (auto simp: bind_ok_Ok capture_one_def new_ref_def)
  then show "restic_capture e c pvcs = Ok refs \<Longrightarrow> map er_pvc refs = pvcs" for pvcs refs
    by (auto simp: restic_capture_def bind_ok_Ok)
  have named: "restic_capture_all e c pvcs = Ok refs \<Longrightarrow> r \<in> set refs \<Longrightarrow> er_provider r = ''resticpvc''" for pvcs refs r
    by (induction pvcs arbitrary: refs) (auto simp: bind_ok_Ok capture_one_def new_ref_def)
  then show "restic_capture e c pvcs = Ok refs \<Longrightarrow> r \<in> set refs \<Longrightarrow> er_provider r = ''resticpvc''" for pvcs refs r
    by (auto simp: restic_capture_def bind_ok_Ok)
  show "restic_verify e c refs = Ok refs' \<Longrightarrow> map er_provider refs' = map er_provider refs" for refs refs'
    by (induction refs arbitrary: refs') (auto split: sum.splits)
  show "restic_verify e c refs = Ok refs' \<Longrightarrow> map er_pvc refs' = map er_pvc refs" for refs refs'
    by (induction refs arbitrary: refs') (auto split: sum.splits)
  show "restic_verify e c refs = Ok refs' \<Longrightarrow> r \<in> set refs' \<Longrightarrow> er_verified r \<and> archive_proven e c r" for refs refs' r
    by (induction refs arbitrary: refs')
      (auto simp: archive_proven_def dest!: prove_restorable_reads split: sum.splits)
qed

section \<open>Properties\<close>

text \<open>A reference is proven when it is marked and the provider that took it could restore it: a snapshot was seen
  ready without an error, an archive was read back without an error and holds bytes.\<close>

definition proven :: "escrow_env \<Rightarrow> escrow_conf \<Rightarrow> escrow_ref \<Rightarrow> bool" where
  "proven e c r \<longleftrightarrow> er_verified r \<and>
     (if er_provider r = ''volumesnapshot'' then snapshot_proven e r
      else er_provider r = ''resticpvc'' \<and> archive_proven e c r)"

lemma capture_proves:
  assumes "capture_set (provider_capture e c p) (provider_verify e c p) pvcs = Ok refs"
  shows "map er_pvc refs = pvcs \<and> list_all (proven e c) refs"
proof (cases p)
  case ResticPvc
  then have "capture_set (restic_capture e c) (restic_verify e c) pvcs = Ok refs"
    using assms by (simp add: provider_capture_def provider_verify_def)
  from restic.captured_is_proven[OF this] show ?thesis by (simp add: list_all_iff proven_def)
next
  case (SnapshotClass cl)
  then have "capture_set (snapshot_capture e c) (snapshot_verify e) pvcs = Ok refs"
    using assms by (simp add: provider_capture_def provider_verify_def)
  from snap.captured_is_proven[OF this] show ?thesis by (simp add: list_all_iff proven_def)
qed

lemma gate_proves:
  assumes "gate e c pvcs used = Ok refs" "\<not> ec_no_escrow c"
  shows "map er_pvc refs = pvcs \<and> pvcs \<noteq> [] \<and> list_all (proven e c) refs"
proof -
  obtain p where p: "prepare e c pvcs used = Ok p"
    "capture_set (provider_capture e c p) (provider_verify e c p) pvcs = Ok refs"
    using assms by (auto simp: gate_def bind_ok_Ok)
  have "pvcs \<noteq> []" using p(1) by (auto simp: prepare_def split: if_splits)
  then show ?thesis using capture_proves[OF p(2)] by simp
qed

text \<open>C12: the gate passes in exactly two ways: the operator waived it, or every claim of a nonempty
  recovery set has its own reference, in order, marked verified, whose bytes were proven
  restorable by the storage layer or by reading the archive back.\<close>

theorem gate_means_reversible:
  "case gate e c pvcs used of
     Inl _ \<Rightarrow> \<not> ec_no_escrow c
   | Inr refs \<Rightarrow> if ec_no_escrow c then refs = [] else map er_pvc refs = pvcs \<and> pvcs \<noteq> [] \<and> list_all (proven e c) refs"
proof (cases "gate e c pvcs used")
  case (Inl err)
  then show ?thesis by (auto simp: gate_def split: if_splits)
next
  case (Inr refs)
  then show ?thesis using gate_proves[OF Inr] by (auto simp: gate_def split: if_splits)
qed

text \<open>A recovery set that may have a live writer, an unreadable pod list included, is copied file by
  file only when no snapshot class is configured and none matches its provisioner.\<close>

theorem live_data_is_snapshotted:
  "if any_live_writer e pvcs \<and> select_provider e c pvcs = Some ResticPvc
   then ec_snapshot_class c = '''' \<and> (\<exists>r. match_snapshot_class e (hd pvcs) = r \<and> (case r of Inl _ \<Rightarrow> True | Inr n \<Rightarrow> n = '''')) \<and>
        restic_ok c
   else True"
  by (auto simp: select_provider_def split: sum.splits if_splits)

section \<open>Discovered claims\<close>

lemma set_add_pvc: "set (add_pvc v out) = set out \<union> ({v} - {''''})"
  by (auto simp: add_pvc_def)

lemma distinct_add_pvc: "distinct out \<Longrightarrow> distinct (add_pvc v out)"
  by (simp add: add_pvc_def)

lemma fold_add_pvc:
  "set (fold add_pvc cs out) = set out \<union> (set cs - {''''})" "distinct out \<Longrightarrow> distinct (fold add_pvc cs out)"
  by (induction cs arbitrary: out) (auto simp: set_add_pvc distinct_add_pvc)

definition claims_of :: "(string \<Rightarrow> pod_read) \<Rightarrow> string \<Rightarrow> string list" where
  "claims_of pod_of p = (case pod_of p of PodClaims cs \<Rightarrow> cs | _ \<Rightarrow> [])"

fun read_failed :: "pod_read \<Rightarrow> bool" where
  "read_failed (PodError _) = True" | "read_failed _ = False"

lemma discover_spec:
  assumes "discover_pvcs naming pod_of ps out = Ok res" "distinct out"
  shows "distinct res \<and> set res = set out \<union> (\<Union>p\<in>set ps. ({naming p} \<union> set (claims_of pod_of p)) - {''''}) \<and>
     list_all (\<lambda>p. \<not> read_failed (pod_of p)) ps"
  using assms
proof (induction naming pod_of ps out rule: discover_pvcs.induct)
  case (2 naming pod_of p ps out)
  have d: "distinct (add_pvc (naming p) out)" using 2(4) by (rule distinct_add_pvc)
  show ?case
  proof (cases "pod_of p")
    case (PodClaims cs)
    have r: "discover_pvcs naming pod_of ps (fold add_pvc cs (add_pvc (naming p) out)) = Ok res"
      using 2(3) PodClaims by (simp add: Let_def)
    note ih = 2(1)[OF refl PodClaims r fold_add_pvc(2)[OF d]]
    have "set res = set out \<union> (\<Union>q\<in>set (p # ps). ({naming q} \<union> set (claims_of pod_of q)) - {''''})"
      using ih by (simp add: PodClaims claims_of_def fold_add_pvc(1) set_add_pvc) blast
    then show ?thesis using ih PodClaims by simp
  next
    case PodGone
    have r: "discover_pvcs naming pod_of ps (add_pvc (naming p) out) = Ok res"
      using 2(3) PodGone by (simp add: Let_def)
    note ih = 2(2)[OF refl PodGone r d]
    have "set res = set out \<union> (\<Union>q\<in>set (p # ps). ({naming q} \<union> set (claims_of pod_of q)) - {''''})"
      using ih by (simp add: PodGone claims_of_def set_add_pvc) blast
    then show ?thesis using ih PodGone by simp
  next
    case (PodError err)
    then show ?thesis using 2(3) by (simp add: Let_def)
  qed
qed simp

text \<open>The discovered recovery set is exactly the union of the naming rule and every readable pod's own
  claims, without repetition, and discovery fails as soon as one pod cannot be read.\<close>

theorem discovery_is_complete:
  "case discover_pvcs naming pod_of ps [] of
     Inr res \<Rightarrow> distinct res \<and> set res = (\<Union>p\<in>set ps. ({naming p} \<union> set (claims_of pod_of p)) - {''''}) \<and>
        list_all (\<lambda>p. \<not> read_failed (pod_of p)) ps
   | Inl _ \<Rightarrow> list_ex (\<lambda>p. read_failed (pod_of p)) ps"
proof (cases "discover_pvcs naming pod_of ps []")
  case (Inr res)
  then show ?thesis using discover_spec[OF Inr] by simp
next
  case (Inl err)
  have "discover_pvcs naming pod_of ps out = Err err \<Longrightarrow>
      list_ex (\<lambda>p. read_failed (pod_of p)) ps" for out
    by (induction ps arbitrary: out) (auto simp: Let_def split: pod_read.splits)
  then show ?thesis using Inl by simp
qed

section \<open>The space estimate\<close>

lemma used_keys: "set (map fst (used_bytes_by_pvc as pods)) \<subseteq> set pods"
proof -
  have "set (map fst (fold (\<lambda>a m. case ia_disk a of
              Some ds \<Rightarrow> if ia_pod a \<in> set pods then map_set (ia_pod a) (ds_used ds) m else m
            | None \<Rightarrow> m) as m)) \<subseteq> set pods" if "set (map fst m) \<subseteq> set pods" for m
    using that
  proof (induction as arbitrary: m)
    case (Cons a as)
    have "set (map fst (case ia_disk a of
              Some ds \<Rightarrow> if ia_pod a \<in> set pods then map_set (ia_pod a) (ds_used ds) m else m
            | None \<Rightarrow> m)) \<subseteq> set pods"
      using Cons.prems by (auto simp: keys_map_set simp del: set_map split: option.splits)
    from Cons.IH[OF this] show ?case by simp
  qed simp
  from this[of "[]"] show ?thesis by (simp add: used_bytes_by_pvc_def)
qed

text \<open>The used bytes are recorded under pod names but looked up under claim names, so for claims that
  are not named after their pods, as Galera's, the estimate of a file copy is zero and the
  space guard only reserves its gibibyte.\<close>

theorem foreign_claim_names_estimate_zero:
  "if set pvcs \<inter> set pods = {} then estimate_bytes p pvcs (used_bytes_by_pvc as pods) = 0 else True"
proof -
  have "estimate_bytes p pvcs (used_bytes_by_pvc as pods) = 0" if d: "set pvcs \<inter> set pods = {}"
  proof -
    have "map_of (used_bytes_by_pvc as pods) v = None" if "v \<in> set pvcs" for v
      using used_keys[of as pods] d that by (auto simp: map_of_eq_None_iff)
    then have z: "map_get 0 (used_bytes_by_pvc as pods) v = 0" if "v \<in> set pvcs" for v
      using that by (simp add: map_get_def)
    have "fold (\<lambda>v t. wrap64 (t + map_get 0 (used_bytes_by_pvc as pods) v)) vs 0 = 0" if "set vs \<subseteq> set pvcs" for vs
      using that z by (induction vs) (simp_all add: wrap64_def)
    then show ?thesis by (cases p) (simp_all add: estimate_bytes_def)
  qed
  then show ?thesis by simp
qed

end
