(* ===== verification/Repair_Plan.thy ===== *)
theory Repair_Plan
  imports Results_Model "HOL-Library.List_Lexorder" "HOL-Library.Char_ord"
begin

text \<open>
  What a repair decides before it touches anything (\<open>src/engine/repair\<close>: \<open>plan.go\<close>, the planning
  parts of \<open>cnpg.go\<close> and \<open>galera.go\<close>, \<open>cnpg_promote.go\<close>, \<open>recovery_proof.go\<close>): the targets of an
  untargeted and of a targeted heal, the promotion of a chosen authority, and the recovery
  proof that authorizes the clearing of a data directory.
\<close>

section \<open>Targets\<close>

record heal_target =
  ht_pod :: string
  ht_instance :: int
  ht_reason :: string
  ht_remediation :: string

datatype plan_error =
    PlanSplitBrain string | TargetIsPrimary string | TargetIsAuthority string authority_outcome | TargetUnknown string
  | TargetClaimMissing string string

definition join_notes :: "string \<Rightarrow> string list \<Rightarrow> string" where
  "join_notes fallback notes = (if notes = [] then fallback else join_with '', '' notes)"

definition restart_reason :: string where "restart_reason = ''restart (data intact, WAL retained)''"

definition untargeted_target :: "instance_assessment \<Rightarrow> heal_target option" where
  "untargeted_target a =
     (if ia_remediation a = ''restart'' then
        Some \<lparr> ht_pod = ia_pod a, ht_instance = ia_instance a, ht_reason = join_notes restart_reason (ia_notes a),
               ht_remediation = ''restart'' \<rparr>
      else if ia_needs_heal a then
        Some \<lparr> ht_pod = ia_pod a, ht_instance = ia_instance a, ht_reason = join_notes ''needs heal'' (ia_notes a),
               ht_remediation = ''reseed'' \<rparr>
      else None)"

definition build_untargeted_plan :: "triage_result \<Rightarrow> string \<Rightarrow> (plan_error, heal_target list) result" where
  "build_untargeted_plan r noun =
     (if \<not> dc_safe_to_heal (tr_comparison r) then Err (PlanSplitBrain noun)
      else Ok (List.map_filter untargeted_target (tr_assessments r)))"

definition instance_pod :: "string \<Rightarrow> int \<Rightarrow> string" where
  "instance_pod cluster n = cluster @ ''-'' @ dec_str n"

definition find_assessment :: "string \<Rightarrow> triage_result \<Rightarrow> instance_assessment option" where
  "find_assessment p r = find_first (\<lambda>a. ia_pod a = p) (tr_assessments r)"

text \<open>The targeted CNPG plan: \<open>claim\<close> is the lookup of the target's claim.\<close>

definition cnpg_plan_targeted ::
  "string \<Rightarrow> int \<Rightarrow> bool \<Rightarrow> string \<Rightarrow> (string, unit) result \<Rightarrow> triage_result \<Rightarrow> (plan_error, heal_target list) result" where
  "cnpg_plan_targeted cluster n force primary claim r =
     (let target = instance_pod cluster n; dc = tr_comparison r in
      if target = primary then Err (TargetIsPrimary target)
      else if \<not> dc_safe_to_heal dc \<and> dc_most_advanced dc \<noteq> '''' \<and> target = dc_most_advanced dc
      then Err (TargetIsAuthority target (dc_authority dc))
      else (case find_assessment target r of
              None \<Rightarrow> Err (TargetUnknown target)
            | Some a \<Rightarrow>
                if ia_remediation a = ''restart'' \<and> \<not> force then
                  Ok [\<lparr> ht_pod = target, ht_instance = n, ht_reason = join_notes restart_reason (ia_notes a),
                        ht_remediation = ''restart'' \<rparr>]
                else if \<not> dc_safe_to_heal dc \<and> \<not> force then Err (PlanSplitBrain target)
                else if \<not> ia_needs_heal a \<and> \<not> force then Ok []
                else (case claim of
                        Inl err \<Rightarrow> Err (TargetClaimMissing target err)
                      | Inr _ \<Rightarrow>
                          Ok [\<lparr> ht_pod = target, ht_instance = n, ht_reason = join_notes ''needs heal'' (ia_notes a),
                                ht_remediation = ''reseed'' \<rparr>])))"

definition galera_plan_targeted ::
  "string \<Rightarrow> int \<Rightarrow> bool \<Rightarrow> (string, unit) result \<Rightarrow> triage_result \<Rightarrow> (plan_error, heal_target list) result" where
  "galera_plan_targeted cluster n force claim r =
     (let target = instance_pod cluster n in
      case find_assessment target r of
        None \<Rightarrow> Err (TargetUnknown target)
      | Some a \<Rightarrow>
          if \<not> dc_safe_to_heal (tr_comparison r) \<and> \<not> force then Err (PlanSplitBrain target)
          else if \<not> ia_needs_heal a \<and> \<not> force then Ok []
          else (case claim of
                  Inl err \<Rightarrow> Err (TargetClaimMissing (''storage-'' @ target) err)
                | Inr _ \<Rightarrow>
                    Ok [\<lparr> ht_pod = target, ht_instance = n, ht_reason = join_notes ''needs heal'' (ia_notes a),
                          ht_remediation = '''' \<rparr>]))"

text \<open>\<open>PlanTargets\<close> of either engine: with an instance number the targeted plan.\<close>

definition cnpg_plan ::
  "string \<Rightarrow> int option \<Rightarrow> bool \<Rightarrow> string \<Rightarrow> (string, unit) result \<Rightarrow> triage_result \<Rightarrow> (plan_error, heal_target list) result" where
  "cnpg_plan cluster inst force primary claim r =
     (case inst of Some n \<Rightarrow> cnpg_plan_targeted cluster n force primary claim r
      | None \<Rightarrow> build_untargeted_plan r ''replicas'')"

definition galera_plan ::
  "string \<Rightarrow> int option \<Rightarrow> bool \<Rightarrow> (string, unit) result \<Rightarrow> triage_result \<Rightarrow> (plan_error, heal_target list) result" where
  "galera_plan cluster inst force claim r =
     (case inst of Some n \<Rightarrow> galera_plan_targeted cluster n force claim r
      | None \<Rightarrow> build_untargeted_plan r ''nodes'')"

section \<open>Promotion\<close>

record promotion_plan =
  pp_authority :: string
  pp_rebuild :: "string list"
  pp_set :: "string list"
  pp_diverged :: bool

datatype promotion_error =
    NotAnInstance string | NotTheAuthority string string | DivergedNeedsForce string | AlreadyPrimary string
  | PrimaryHoldsData string string | AuthorityUnknown string

definition new_promotion_plan :: "string \<Rightarrow> string list \<Rightarrow> bool \<Rightarrow> promotion_plan" where
  "new_promotion_plan authority others diverged =
     \<lparr> pp_authority = authority, pp_rebuild = others, pp_set = authority # others, pp_diverged = diverged \<rparr>"

definition other_pods :: "string \<Rightarrow> triage_result \<Rightarrow> string list" where
  "other_pods target t = filter (\<lambda>p. p \<noteq> target) (map ia_pod (tr_assessments t))"

definition plan_promotion :: "triage_result \<Rightarrow> int \<Rightarrow> bool \<Rightarrow> (promotion_error, promotion_plan) result" where
  "plan_promotion t n force =
     (let target = instance_pod (or_name (tr_cluster t)) n; dc = tr_comparison t; others = other_pods target t in
      if \<not> list_ex (\<lambda>a. ia_pod a = target) (tr_assessments t) then Err (NotAnInstance target)
      else (case dc_authority dc of
              AuthorityLeaderNotPrimary \<Rightarrow>
                if target \<noteq> dc_most_advanced dc then Err (NotTheAuthority target (dc_most_advanced dc))
                else Ok (new_promotion_plan target others False)
            | AuthorityDiverged \<Rightarrow>
                if \<not> force then Err (DivergedNeedsForce target) else Ok (new_promotion_plan target others True)
            | AuthorityProvable \<Rightarrow>
                if target = dc_most_advanced dc then Err (AlreadyPrimary target)
                else Err (PrimaryHoldsData target (dc_most_advanced dc))
            | _ \<Rightarrow> Err (AuthorityUnknown target)))"

text \<open>\<open>ordinalOf\<close>: after the last dash, or the whole name.\<close>

definition ordinal_of :: "string \<Rightarrow> string" where
  "ordinal_of p = last (split_char (CHR ''-'') p)"

section \<open>The recovery proof\<close>

record recovery_proof =
  rp_hash :: string
  rp_authority :: string
  rp_disposable :: "string list"
  rp_escrow_verified :: bool

definition bool_str :: "bool \<Rightarrow> string" where "bool_str b = (if b then ''true'' else ''false'')"

fun classification_str :: "classification \<Rightarrow> string" where
  "classification_str ClassUnset = ''''"
| "classification_str ClassAuthoritative = ''authoritative''"
| "classification_str ClassRecoverable = ''recoverable''"
| "classification_str ClassDisposable = ''disposable''"
| "classification_str ClassUnknown = ''unknown''"

definition sorted_lines :: "string \<Rightarrow> string list \<Rightarrow> string" where
  "sorted_lines label vals = concat (map (\<lambda>v. label @ ''|'' @ v @ [NL]) (sort_by (<) vals))"

definition instance_line :: "instance_assessment \<Rightarrow> string" where
  "instance_line a = ''inst|'' @ ia_pod a @ ''|class='' @ classification_str (ia_classification a)
     @ ''|tl='' @ dec_str (ia_timeline a) @ ''|lsn='' @ ia_lsn a @ ''|primary='' @ bool_str (ia_is_primary a) @ [NL]"

text \<open>The text that \<open>hashAssessment\<close> digests; \<open>digest\<close> is the hexadecimal SHA-256 of the standard library.\<close>

definition assessment_text :: "triage_result \<Rightarrow> string" where
  "assessment_text t =
     (case tr_recovery t of
        Some r \<Rightarrow> ''recovery|blocked='' @ bool_str (rec_blocked r) @ ''|reason='' @ rec_reason r
                    @ ''|authority='' @ rec_authority r @ [NL]
                    @ sorted_lines ''disposable'' (rec_disposable r) @ sorted_lines ''recoverySet'' (rec_set r)
      | None \<Rightarrow> ''recovery|none'' @ [NL])
     @ ''authorityStatus='' @ tr_authority_status t @ [NL]
     @ concat (map instance_line (sort_by (\<lambda>a b. ia_pod a < ia_pod b) (tr_assessments t)))"

definition hash_assessment :: "(string \<Rightarrow> string) \<Rightarrow> triage_result option \<Rightarrow> string" where
  "hash_assessment digest t = (case t of None \<Rightarrow> '''' | Some t \<Rightarrow> digest (assessment_text t))"

definition proof_valid :: "(string \<Rightarrow> string) \<Rightarrow> recovery_proof \<Rightarrow> triage_result option \<Rightarrow> bool" where
  "proof_valid digest p current \<longleftrightarrow>
     rp_hash p \<noteq> '''' \<and> rp_hash p = hash_assessment digest current \<and> rp_authority p \<noteq> '''' \<and>
     rp_disposable p \<noteq> [] \<and> rp_escrow_verified p"

definition authorizes_clear :: "recovery_proof \<Rightarrow> string \<Rightarrow> bool" where
  "authorizes_clear p inst =
     (if inst = '''' \<or> inst = rp_authority p then False else inst \<in> set (rp_disposable p))"

section \<open>What the plans guarantee\<close>

lemma plan_spares_authority:
  assumes "cnpg_plan cluster inst force primary claim r = Ok ts" "t \<in> set ts" "ht_remediation t \<noteq> ''restart''" "ht_pod t \<noteq> ''''"
  shows "dc_safe_to_heal (tr_comparison r) \<or> ht_pod t \<noteq> dc_most_advanced (tr_comparison r)"
  using assms
  by (auto simp: cnpg_plan_def cnpg_plan_targeted_def build_untargeted_plan_def Let_def split: option.splits sum.splits if_splits)

text \<open>C16: No plan, forced or not, reseeds the instance that triage names the data authority of an unsafe
  comparison, a targeted plan never names the primary, and without force every reseeded target
  was marked for a heal under a safe comparison.\<close>

theorem plans_spare_the_authority:
  "case cnpg_plan cluster inst force primary claim r of
     Inl _ \<Rightarrow> True
   | Inr ts \<Rightarrow> list_all (\<lambda>t.
       \<not> (ht_remediation t = ''reseed'' \<and> \<not> dc_safe_to_heal (tr_comparison r) \<and>
          ht_pod t = dc_most_advanced (tr_comparison r) \<and> ht_pod t \<noteq> '''') \<and>
       \<not> (inst \<noteq> None \<and> ht_pod t = primary) \<and>
       (if ht_remediation t = ''reseed'' \<and> \<not> force
        then dc_safe_to_heal (tr_comparison r) \<and>
             list_ex (\<lambda>a. ia_pod a = ht_pod t \<and> ia_needs_heal a) (tr_assessments r)
        else True)) ts"
proof (cases inst)
  case None
  have "list_all (\<lambda>t. list_ex (\<lambda>a. ia_pod a = ht_pod t \<and> (ht_remediation t = ''reseed'' \<longrightarrow> ia_needs_heal a)) as)
      (List.map_filter untargeted_target as)" for as
    by (induction as) (auto simp: untargeted_target_def map_filter_simps list_all_iff list_ex_iff split: option.splits if_splits)
  from this[of "tr_assessments r"] show ?thesis
    using None by (auto simp: cnpg_plan_def build_untargeted_plan_def list_all_iff list_ex_iff)
next
  case (Some n)
  show ?thesis
    using Some
    by (auto simp: cnpg_plan_def cnpg_plan_targeted_def Let_def find_assessment_def list_ex_iff
        split: option.splits sum.splits dest!: find_first_Some)
qed

text \<open>A promotion is planned only for an instance of the cluster that triage proved to be the
  authority away from the primary, or, with force, for one of a diverged cluster; the chosen
  instance is never rebuilt, and the recovery set is every instance.\<close>

theorem promotion_needs_authority:
  "case plan_promotion t n force of
     Inl _ \<Rightarrow> True
   | Inr p \<Rightarrow>
       pp_authority p \<in> set (map ia_pod (tr_assessments t)) \<and>
       (dc_authority (tr_comparison t) = AuthorityLeaderNotPrimary \<and> pp_authority p = dc_most_advanced (tr_comparison t) \<and> \<not> pp_diverged p
        \<or> dc_authority (tr_comparison t) = AuthorityDiverged \<and> force \<and> pp_diverged p) \<and>
       pp_authority p \<notin> set (pp_rebuild p) \<and>
       set (pp_set p) = set (map ia_pod (tr_assessments t)) \<and>
       pp_set p = pp_authority p # pp_rebuild p"
proof -
  have others: "insert x (set (other_pods x t)) = set (map ia_pod (tr_assessments t))"
    if "list_ex (\<lambda>a. ia_pod a = x) (tr_assessments t)" for x
    using that by (auto simp: other_pods_def list_ex_iff)
  show ?thesis
  proof (cases "plan_promotion t n force")
    case (Inr p)
    let ?x = "instance_pod (or_name (tr_cluster t)) n"
    have x: "list_ex (\<lambda>a. ia_pod a = ?x) (tr_assessments t)" using Inr by (simp add: plan_promotion_def Let_def split: if_splits)
    have "p = new_promotion_plan ?x (other_pods ?x t) (dc_authority (tr_comparison t) = AuthorityDiverged) \<and>
        (dc_authority (tr_comparison t) = AuthorityLeaderNotPrimary \<and> ?x = dc_most_advanced (tr_comparison t)
         \<or> dc_authority (tr_comparison t) = AuthorityDiverged \<and> force)"
      using Inr x by (simp add: plan_promotion_def Let_def split: authority_outcome.splits if_splits)
    moreover have "?x \<in> set (map ia_pod (tr_assessments t))" using x unfolding list_ex_iff set_map by (metis imageI)
    moreover have "?x \<notin> set (other_pods ?x t)" by (simp add: other_pods_def)
    ultimately show ?thesis using Inr others[OF x] by (auto simp: new_promotion_plan_def)
  qed simp
qed

lemma authorized_not_authority:
  "authorizes_clear p i \<Longrightarrow> i \<noteq> rp_authority p \<and> i \<in> set (rp_disposable p) \<and> i \<noteq> ''''"
  by (simp add: authorizes_clear_def split: if_splits)

text \<open>A proof that was built from the snapshot it is checked against passes whatever that snapshot says.\<close>

lemma own_snapshot_always_valid:
  "rp_hash p = hash_assessment digest (Some t) \<Longrightarrow> digest (assessment_text t) \<noteq> '''' \<Longrightarrow>
     proof_valid digest p (Some t) \<longleftrightarrow> rp_authority p \<noteq> '''' \<and> rp_disposable p \<noteq> [] \<and> rp_escrow_verified p"
  by (auto simp: proof_valid_def hash_assessment_def)

end
