(* ===== verification/Repair_Run.thy ===== *)
theory Repair_Run
  imports Repair_Plan Go_Time
begin

text \<open>
  The repair lifecycle every engine goes through (\<open>src/engine/repair/service.go\<close>, \<open>contract.go\<close>, and
  the wait of \<open>verify.go\<close>): lock, pre-assessment, assessment, safety gate, escrow, plan, heal of
  each target, stabilization, reassessment and verification, with the cleanup and the release
  of the lock on every way out.  An engine is a record of functions on its own state.
\<close>

section \<open>The engine's hooks\<close>

text \<open>The answer of \<open>PreAssess\<close>: go on, stop cleanly (a preview, or a prepared promotion), or fail.\<close>

datatype 'e pre_result = PreGoOn | PreCleanStop | PreError 'e

record ('s, 'e) repairer =
  hk_name :: string
  hk_dry_run :: bool
  hk_lock :: "'s \<Rightarrow> 'e option \<times> 's"
  hk_release :: "'s \<Rightarrow> 's"
  hk_cleanup :: "'s \<Rightarrow> 's"
  hk_pre :: "'s \<Rightarrow> 'e pre_result \<times> 's"
  hk_assess :: "'s \<Rightarrow> ('e, triage_result) result \<times> 's"
  hk_gate :: "triage_result \<Rightarrow> 's \<Rightarrow> 'e option \<times> 's"
  hk_escrow :: "triage_result \<Rightarrow> 's \<Rightarrow> 'e option \<times> 's"
  hk_plan :: "triage_result \<Rightarrow> 's \<Rightarrow> ('e, heal_target list) result"
  hk_heal :: "heal_target \<Rightarrow> 's \<Rightarrow> 'e option \<times> 's"
  hk_stabilize :: "'s \<Rightarrow> 's"
  hk_reassess :: "'s \<Rightarrow> triage_result option \<times> 's"
  hk_verify :: "string list \<Rightarrow> 's \<Rightarrow> 'e option \<times> 's"

datatype 'e repair_error =
    RepairLocked 'e | RepairPre 'e | RepairAssess 'e | RepairGate 'e | RepairEscrow 'e | RepairPlanned 'e
  | RepairHeal string 'e | RepairVerify 'e

section \<open>Loops with an early return\<close>

fun run_each :: "('a \<Rightarrow> 's \<Rightarrow> 'e option \<times> 's) \<Rightarrow> 'a list \<Rightarrow> 's \<Rightarrow> 'e option \<times> 's" where
  "run_each f [] s = (None, s)"
| "run_each f (x # xs) s = (case f x s of (Some err, s') \<Rightarrow> (Some err, s') | (None, s') \<Rightarrow> run_each f xs s')"

section \<open>The lifecycle\<close>

definition empty_result :: "string \<Rightarrow> repair_result" where
  "empty_result n = \<lparr> rr_engine = n, rr_cluster = \<lparr> or_namespace = '''', or_name = '''' \<rparr>, rr_healed = [], rr_skipped = [],
     rr_post_triage = None \<rparr>"

text \<open>What a run returns: a result, an error, or, for a failed verification, both.\<close>

type_synonym 'e run_answer = "repair_result option \<times> 'e repair_error option"

definition heal_each :: "('s, 'e) repairer \<Rightarrow> heal_target list \<Rightarrow> 's \<Rightarrow> 'e repair_error option \<times> 's" where
  "heal_each r ts s = run_each (\<lambda>t s. case hk_heal r t s of (err, s') \<Rightarrow> (map_option (RepairHeal (ht_pod t)) err, s')) ts s"

definition finish_repair :: "('s, 'e) repairer \<Rightarrow> repair_result \<Rightarrow> 's \<Rightarrow> 'e run_answer \<times> 's" where
  "finish_repair r res s =
     (case hk_reassess r (hk_stabilize r s) of (post, s1) \<Rightarrow>
        (let res1 = res\<lparr> rr_post_triage := post \<rparr> in
         if rr_healed res1 = [] then ((Some res1, None), s1)
         else (case hk_verify r (rr_healed res1) s1 of
                 (Some err, s2) \<Rightarrow> ((Some res1, Some (RepairVerify err)), s2)
               | (None, s2) \<Rightarrow> ((Some res1, None), s2))))"

definition mutate_phases :: "('s, 'e) repairer \<Rightarrow> repair_result \<Rightarrow> triage_result \<Rightarrow> 's \<Rightarrow> 'e run_answer \<times> 's" where
  "mutate_phases r res t s =
     (case hk_gate r t s of
        (Some err, s1) \<Rightarrow> ((None, Some (RepairGate err)), s1)
      | (None, s1) \<Rightarrow>
          (case hk_escrow r t s1 of
             (Some err, s2) \<Rightarrow> ((None, Some (RepairEscrow err)), s2)
           | (None, s2) \<Rightarrow>
               (case hk_plan r t s2 of
                  Inl err \<Rightarrow> ((None, Some (RepairPlanned err)), s2)
                | Inr ts \<Rightarrow>
                    if ts = [] then ((Some res, None), s2)
                    else (case heal_each r ts s2 of
                            (Some err, s3) \<Rightarrow> ((None, Some err), s3)
                          | (None, s3) \<Rightarrow> finish_repair r (res\<lparr> rr_healed := map ht_pod ts \<rparr>) s3))))"

definition guarded_phases :: "('s, 'e) repairer \<Rightarrow> 's \<Rightarrow> 'e run_answer \<times> 's" where
  "guarded_phases r s =
     (let res = empty_result (hk_name r) in
      case hk_pre r s of
        (PreCleanStop, s1) \<Rightarrow> ((Some res, None), s1)
      | (PreError err, s1) \<Rightarrow> ((None, Some (RepairPre err)), s1)
      | (PreGoOn, s1) \<Rightarrow>
          (case hk_assess r s1 of
             (Inl err, s2) \<Rightarrow> ((None, Some (RepairAssess err)), s2)
           | (Inr t, s2) \<Rightarrow>
               (let res1 = res\<lparr> rr_cluster := tr_cluster t \<rparr> in
                if hk_dry_run r then ((Some res1, None), s2) else mutate_phases r res1 t s2)))"

definition repair_run :: "('s, 'e) repairer \<Rightarrow> 's \<Rightarrow> 'e run_answer \<times> 's" where
  "repair_run r s =
     (case hk_lock r s of
        (Some err, s1) \<Rightarrow> ((None, Some (RepairLocked err)), s1)
      | (None, s1) \<Rightarrow> (case guarded_phases r s1 of (a, s2) \<Rightarrow> (a, hk_release r (hk_cleanup r s2))))"

section \<open>Waits\<close>

text \<open>A poll at most \<open>k\<close> times.\<close>

fun poll_until :: "(nat \<Rightarrow> bool) \<Rightarrow> nat \<Rightarrow> nat \<Rightarrow> bool" where
  "poll_until p i 0 = False"
| "poll_until p i (Suc k) = (if p i then True else poll_until p (Suc i) k)"

definition verify_interval :: int where "verify_interval = 5 * nanos"


text \<open>\<open>awaitRecovery\<close>: \<open>probe\<close> and \<open>clock\<close> by attempt, in nanoseconds; \<open>cancelled\<close> is the context's error.
  The loop has no bound of its own, so its value is None when it never ends.\<close>

partial_function (option) await_recovery ::
  "(nat \<Rightarrow> (string, string list) result) \<Rightarrow> (nat \<Rightarrow> int) \<Rightarrow> (nat \<Rightarrow> string option) \<Rightarrow> int \<Rightarrow> int \<Rightarrow> nat
     \<Rightarrow> string list \<Rightarrow> string option \<Rightarrow> (string list \<times> string option) option" where
  "await_recovery probe clock cancelled deadline interval i pending last_err =
     (case probe i of
        Inr [] \<Rightarrow> Some ([], None)
      | Inr (p # ps) \<Rightarrow>
          if \<not> clock i + interval < deadline then Some (p # ps, None)
          else (case cancelled i of
                  Some err \<Rightarrow> Some (p # ps, Some err)
                | None \<Rightarrow> await_recovery probe clock cancelled deadline interval (Suc i) (p # ps) None)
      | Inl err \<Rightarrow>
          if \<not> clock i + interval < deadline then Some (pending, Some err)
          else (case cancelled i of
                  Some _ \<Rightarrow> Some (pending, Some err)
                | None \<Rightarrow> await_recovery probe clock cancelled deadline interval (Suc i) pending (Some err)))"

lemma poll_until_seen: "poll_until p i k \<Longrightarrow> \<exists>j. i \<le> j \<and> j < i + k \<and> p j"
proof (induction p i k rule: poll_until.induct)
  case (2 p i k)
  show ?case
  proof (cases "p i")
    case False
    then obtain j where "Suc i \<le> j" "j < Suc i + k" "p j" using 2 by auto
    then show ?thesis by (intro exI[of _ j]) simp
  qed (auto intro!: exI[of _ i])
qed simp

text \<open>A probe that always reads the cluster answers an error only with something pending.\<close>

lemma await_no_error:
  "await_recovery probe clock cancelled deadline interval i pending last_err = Some ans \<Longrightarrow>
     (\<forall>j err. probe j \<noteq> Err err) \<longrightarrow> fst ans = [] \<longrightarrow> snd ans = None"
  by (erule await_recovery.raw_induct[rotated, where P = "\<lambda>probe _ _ _ _ _ _ _ ans. (\<forall>j err. probe j \<noteq> Err err) \<longrightarrow> fst ans = [] \<longrightarrow> snd ans = None"])
    (auto split: sum.splits list.splits if_splits option.splits)

lemma await_nothing_pending:
  "await_recovery probe clock cancelled deadline interval i pending last_err = Some ans \<Longrightarrow>
     ans = ([], None) \<longrightarrow> (\<exists>j. probe j = Ok [])"
  by (erule await_recovery.raw_induct[rotated, where P = "\<lambda>probe _ _ _ _ _ _ _ ans. ans = ([], None) \<longrightarrow> (\<exists>j. probe j = Ok [])"])
    (auto split: sum.splits list.splits if_splits option.splits)

text \<open>C19: The wait ends: when every sleep advances the clock by the interval at least, it answers, at
  the latest once the deadline is reached, and it answers that nothing is pending without an error
  only if a probe said so.\<close>

theorem await_recovery_ends:
  assumes "0 < interval" "\<And>i. clock i + interval \<le> clock (Suc i)"
  shows "\<exists>ans. await_recovery probe clock cancelled deadline interval i pending last_err = Some ans \<and>
    (if ans = ([], None) then \<exists>j. probe j = Ok [] else True)"
proof -
  let ?P = "\<lambda>i p l. \<exists>ans. await_recovery probe clock cancelled deadline interval i p l = Some ans"
  have "?P i p l" if "nat (deadline - clock i) = n" for n i p l
    using that
  proof (induction n arbitrary: i p l rule: less_induct)
    case (less n)
    have step: "?P (Suc i) p l" if "clock i + interval < deadline" for p l
    proof (rule less.IH)
      show "nat (deadline - clock (Suc i)) < n" using assms(2)[of i] assms(1) that less.prems by linarith
    qed simp
    show ?case
    proof (cases "clock i + interval < deadline")
      case True
      then show ?thesis using step[OF True] by (subst await_recovery.simps) (auto split: sum.split list.split option.split)
    next
      case False
      then show ?thesis by (subst await_recovery.simps) (auto split: sum.split list.split)
    qed
  qed
  then obtain ans where "await_recovery probe clock cancelled deadline interval i pending last_err = Some ans" by blast
  then show ?thesis using await_nothing_pending by fastforce
qed

section \<open>What the lifecycle guarantees\<close>

lemma run_each_keeps:
  "(\<And>x s. x \<in> set xs \<Longrightarrow> g (snd (f x s)) = g s) \<Longrightarrow> g (snd (run_each f xs s)) = g s"
proof (induction xs arbitrary: s)
  case (Cons x xs)
  obtain err s1 where f: "f x s = (err, s1)" by fastforce
  have "g s1 = g s" using Cons.prems[of x s] f by simp
  moreover have "g (snd (run_each f xs s1)) = g s1" by (rule Cons.IH) (simp add: Cons.prems)
  ultimately show ?case using f by (simp split: option.split)
qed simp

lemma run_each_done: "run_each f xs s = (None, s') \<Longrightarrow> x \<in> set xs \<Longrightarrow> \<exists>s1. fst (f x s1) = None"
proof (induction xs arbitrary: s)
  case (Cons y xs)
  obtain err s1 where f: "f y s = (err, s1)" by fastforce
  then have e: "err = None" "run_each f xs s1 = (None, s')" using Cons.prems(1) by (auto split: option.splits)
  show ?case
  proof (cases "x = y")
    case True
    then show ?thesis using f e by (metis fst_conv)
  next
    case False
    then show ?thesis using Cons.IH[OF e(2)] Cons.prems(2) by simp
  qed
qed simp

text \<open>The contract of an engine's hooks: what holds the data directories (\<open>data\<close>, by claim) changes only
  in the heal of a target, and there only the target's own claims, or in a pre-assessment that is
  not a preview.\<close>

locale repair_hooks =
  fixes r :: "('s, 'e) repairer"
    and data :: "'s \<Rightarrow> string \<Rightarrow> 'd"
    and claims :: "heal_target \<Rightarrow> string set"
  assumes lock_data: "data (snd (hk_lock r s)) = data s"
    and release_data: "data (hk_release r s) = data s"
    and cleanup_data: "data (hk_cleanup r s) = data s"
    and preview_data: "hk_dry_run r \<Longrightarrow> data (snd (hk_pre r s)) = data s"
    and assess_data: "data (snd (hk_assess r s)) = data s"
    and gate_data: "data (snd (hk_gate r t s)) = data s"
    and escrow_data: "data (snd (hk_escrow r t s)) = data s"
    and heal_data: "v \<notin> claims tg \<Longrightarrow> data (snd (hk_heal r tg s)) v = data s v"
    and stabilize_data: "data (hk_stabilize r s) = data s"
    and reassess_data: "data (snd (hk_reassess r s)) = data s"
    and verify_data: "data (snd (hk_verify r hs s)) = data s"
begin

lemma finish_data: "data (snd (finish_repair r res s)) = data s"
proof -
  obtain post s1 where p: "hk_reassess r (hk_stabilize r s) = (post, s1)" by fastforce
  have 1: "data s1 = data s" using reassess_data[of "hk_stabilize r s"] stabilize_data[of s] p by simp
  obtain err s2 where v: "hk_verify r (rr_healed res) s1 = (err, s2)" by fastforce
  have 2: "data s2 = data s1" using verify_data[of "rr_healed res" s1] v by simp
  show ?thesis using 1 2 p v by (simp add: finish_repair_def Let_def split: option.split)
qed

lemma heal_each_data:
  "v \<notin> (\<Union>t\<in>set ts. claims t) \<Longrightarrow> data (snd (heal_each r ts s)) v = data s v"
proof (induction ts arbitrary: s)
  case (Cons t ts)
  obtain err s1 where h: "hk_heal r t s = (err, s1)" by fastforce
  have "data s1 v = data s v" using heal_data[of v t s] h Cons.prems by simp
  moreover have "data (snd (heal_each r ts s1)) v = data s1 v" using Cons.IH Cons.prems by simp
  ultimately show ?case by (simp add: heal_each_def h split: option.split)
qed (simp add: heal_each_def)

text \<open>Where a change of a data directory in the mutating phases comes from.\<close>

lemma mutate_data:
  assumes "data (snd (mutate_phases r res t s)) v \<noteq> data s v"
  shows "\<exists>s1 s2 ts. hk_gate r t s = (None, s1) \<and> hk_escrow r t s1 = (None, s2) \<and> hk_plan r t s2 = Ok ts \<and>
    v \<in> (\<Union>tg\<in>set ts. claims tg)"
proof -
  obtain ge s1 where g: "hk_gate r t s = (ge, s1)" by fastforce
  obtain ee s2 where e: "hk_escrow r t s1 = (ee, s2)" by fastforce
  have d: "data s1 = data s" "data s2 = data s1" using gate_data[of t s] escrow_data[of t s1] g e by simp_all
  have gn: "ge = None" using assms g d by (auto simp: mutate_phases_def split: option.splits)
  have en: "ee = None" using assms g e d gn by (auto simp: mutate_phases_def split: option.splits)
  show ?thesis
  proof (cases "hk_plan r t s2")
    case (Inl err)
    then show ?thesis using assms g e gn en d by (simp add: mutate_phases_def)
  next
    case (Inr ts)
    have "v \<in> (\<Union>tg\<in>set ts. claims tg)"
    proof (rule ccontr)
      assume n: "v \<notin> (\<Union>tg\<in>set ts. claims tg)"
      obtain he s3 where h: "heal_each r ts s2 = (he, s3)" by fastforce
      have "data s3 v = data s2 v" using heal_each_data[OF n, of s2] h by simp
      then have "data (snd (mutate_phases r res t s)) v = data s v"
        using g e gn en d Inr h finish_data by (simp add: mutate_phases_def split: option.split)
      then show False using assms by simp
    qed
    then show ?thesis using g e gn en Inr by blast
  qed
qed

lemma dry_run_keeps_data:
  assumes "hk_dry_run r"
  shows "data (snd (repair_run r s)) = data s"
proof -
  obtain le s1 where l: "hk_lock r s = (le, s1)" by fastforce
  obtain pa s2 where p: "hk_pre r s1 = (pa, s2)" by fastforce
  obtain ta s3 where a: "hk_assess r s2 = (ta, s3)" by fastforce
  have d: "data s1 = data s" "data s2 = data s1" "data s3 = data s2"
    using lock_data[of s] preview_data[OF assms, of s1] assess_data[of s2] l p a by simp_all
  show ?thesis
    using l p a d assms
    by (simp add: repair_run_def guarded_phases_def Let_def release_data cleanup_data split: option.split pre_result.split sum.split)
qed

text \<open>Where a change of a data directory in a whole run comes from: the pre-assessment, or the heal of a
  target that was planned after the gate and the escrow passed.\<close>

lemma run_data:
  assumes "data (snd (repair_run r s)) v \<noteq> data s v"
  obtains (pre) s1 where "hk_lock r s = (None, s1)" "data (snd (hk_pre r s1)) v \<noteq> data s1 v" "\<not> hk_dry_run r"
  | (heal) s1 s2 t s3 s4 s5 ts where "hk_lock r s = (None, s1)" "hk_pre r s1 = (PreGoOn, s2)" "hk_assess r s2 = (Ok t, s3)"
      "\<not> hk_dry_run r" "hk_gate r t s3 = (None, s4)" "hk_escrow r t s4 = (None, s5)" "hk_plan r t s5 = Ok ts"
      "v \<in> (\<Union>tg\<in>set ts. claims tg)"
proof -
  have nd: "\<not> hk_dry_run r" using assms dry_run_keeps_data by metis
  obtain le s1 where l: "hk_lock r s = (le, s1)" by fastforce
  have d1: "data s1 = data s" using lock_data[of s] l by simp
  have ln: "le = None" using assms l d1 by (auto simp: repair_run_def split: option.splits)
  obtain pa s2 where p: "hk_pre r s1 = (pa, s2)" by fastforce
  show ?thesis
  proof (cases "data s2 v = data s1 v")
    case False
    then show ?thesis using pre[of s1] l ln p nd by simp
  next
    case True
    obtain ta s3 where a: "hk_assess r s2 = (ta, s3)" by fastforce
    have d3: "data s3 = data s2" using assess_data[of s2] a by simp
    have pg: "pa = PreGoOn"
      using assms l ln p True d1 release_data cleanup_data
      by (cases pa) (auto simp: repair_run_def guarded_phases_def Let_def split: option.splits)
    show ?thesis
    proof (cases ta)
      case (Inl err)
      then show ?thesis
        using assms l ln p a pg True d1 d3 release_data cleanup_data
        by (simp add: repair_run_def guarded_phases_def Let_def)
    next
      case (Inr t)
      let ?m = "mutate_phases r ((empty_result (hk_name r))\<lparr> rr_cluster := tr_cluster t \<rparr>) t s3"
      have "data (snd (repair_run r s)) v = data (snd ?m) v"
        using l ln p a pg Inr nd release_data cleanup_data
        by (simp add: repair_run_def guarded_phases_def Let_def split: prod.split)
      then have "data (snd ?m) v \<noteq> data s3 v" using assms True d1 d3 by simp
      from mutate_data[OF this] obtain s4 s5 ts where
        "hk_gate r t s3 = (None, s4)" "hk_escrow r t s4 = (None, s5)" "hk_plan r t s5 = Ok ts" "v \<in> (\<Union>tg\<in>set ts. claims tg)"
        by blast
      then show ?thesis using heal l ln p pg a Inr nd by metis
    qed
  qed
qed

end

text \<open>When a run comes to its verification: every phase before it answered without an error, the plan was not
  empty, every planned target was healed, and \<open>sv\<close> is the state after the reassessment.\<close>

definition reaches_verify :: "('s, 'e) repairer \<Rightarrow> 's \<Rightarrow> repair_result \<Rightarrow> 's \<Rightarrow> bool" where
  "reaches_verify r s res sv \<longleftrightarrow>
     (\<exists>s1 s2 t s3 s4 s5 ts s6 post.
        hk_lock r s = (None, s1) \<and> hk_pre r s1 = (PreGoOn, s2) \<and> hk_assess r s2 = (Ok t, s3) \<and> \<not> hk_dry_run r \<and>
        hk_gate r t s3 = (None, s4) \<and> hk_escrow r t s4 = (None, s5) \<and> hk_plan r t s5 = Ok ts \<and> ts \<noteq> [] \<and>
        heal_each r ts s5 = (None, s6) \<and> hk_reassess r (hk_stabilize r s6) = (post, sv) \<and>
        res = (empty_result (hk_name r))\<lparr> rr_cluster := tr_cluster t, rr_healed := map ht_pod ts, rr_post_triage := post \<rparr>)"

lemma reaches_verify_run:
  assumes "reaches_verify r s res sv"
  shows "fst (repair_run r s) = (Some res, map_option RepairVerify (fst (hk_verify r (rr_healed res) sv)))" "rr_healed res \<noteq> []"
proof -
  obtain s1 s2 t s3 s4 s5 ts s6 post where h: "hk_lock r s = (None, s1)" "hk_pre r s1 = (PreGoOn, s2)"
      "hk_assess r s2 = (Ok t, s3)" "\<not> hk_dry_run r" "hk_gate r t s3 = (None, s4)" "hk_escrow r t s4 = (None, s5)"
      "hk_plan r t s5 = Ok ts" "ts \<noteq> []" "heal_each r ts s5 = (None, s6)" "hk_reassess r (hk_stabilize r s6) = (post, sv)"
    and res: "res = (empty_result (hk_name r))\<lparr> rr_cluster := tr_cluster t, rr_healed := map ht_pod ts, rr_post_triage := post \<rparr>"
    using assms unfolding reaches_verify_def by blast
  show "rr_healed res \<noteq> []" using h(8) res by simp
  obtain ve s7 where v: "hk_verify r (rr_healed res) sv = (ve, s7)" by fastforce
  then show "fst (repair_run r s) = (Some res, map_option RepairVerify (fst (hk_verify r (rr_healed res) sv)))"
    using h res by (simp add: repair_run_def guarded_phases_def mutate_phases_def finish_repair_def Let_def split: option.split)
qed

lemma healed_run_verifies:
  assumes run: "fst (repair_run r s) = (Some res, err)" and some: "rr_healed res \<noteq> [] \<or> err \<noteq> None"
  shows "\<exists>sv. reaches_verify r s res sv"
proof -
  obtain s1 where l: "hk_lock r s = (None, s1)" using run by (auto simp: repair_run_def split: prod.splits option.splits)
  then have g: "fst (guarded_phases r s1) = (Some res, err)" using run by (simp add: repair_run_def split: prod.splits)
  obtain s2 where p: "hk_pre r s1 = (PreGoOn, s2)"
    using g some by (auto simp: guarded_phases_def empty_result_def Let_def split: prod.splits pre_result.splits)
  obtain t s3 where a: "hk_assess r s2 = (Ok t, s3)" using g p by (auto simp: guarded_phases_def Let_def split: prod.splits sum.splits)
  let ?res1 = "(empty_result (hk_name r))\<lparr> rr_cluster := tr_cluster t \<rparr>"
  have d: "\<not> hk_dry_run r" using g p a some by (auto simp: guarded_phases_def empty_result_def Let_def split: if_splits)
  have m: "fst (mutate_phases r ?res1 t s3) = (Some res, err)" using g p a d by (simp add: guarded_phases_def Let_def)
  obtain s4 where gt: "hk_gate r t s3 = (None, s4)" using m by (auto simp: mutate_phases_def split: prod.splits option.splits)
  obtain s5 where e: "hk_escrow r t s4 = (None, s5)" using m gt by (auto simp: mutate_phases_def split: prod.splits option.splits)
  obtain ts where pl: "hk_plan r t s5 = Ok ts" using m gt e by (auto simp: mutate_phases_def split: sum.splits)
  have ne: "ts \<noteq> []" using m gt e pl some by (auto simp: mutate_phases_def empty_result_def split: if_splits)
  obtain s6 where h: "heal_each r ts s5 = (None, s6)" using m gt e pl ne by (auto simp: mutate_phases_def split: prod.splits option.splits)
  obtain post sv where ra: "hk_reassess r (hk_stabilize r s6) = (post, sv)" by fastforce
  have "res = ?res1\<lparr> rr_healed := map ht_pod ts, rr_post_triage := post \<rparr>"
    using m gt e pl ne h ra by (auto simp: mutate_phases_def finish_repair_def Let_def split: prod.splits option.splits)
  then have "reaches_verify r s res sv" unfolding reaches_verify_def using l p a d gt e pl ne h ra by (intro exI conjI) auto
  then show ?thesis ..
qed

lemma heal_error: "heal_each r ts s = (Some err, s') \<Longrightarrow> \<exists>p x. err = RepairHeal p x"
  unfolding heal_each_def by (induction ts arbitrary: s) (auto split: prod.splits option.splits)

text \<open>C20: A run returns a result that names healed instances, or a result with an error, exactly when it came to the
  verification, and then the result names the planned targets and comes with the verification's own answer in the
  state after the reassessment: no error when the engine verified them, its error beside the result when not.  Any
  other run succeeds with no instance healed, or fails without a result and not by a verification.\<close>

theorem no_false_green:
  "((fst (repair_run r s) = (Some res, err) \<and> \<not> (rr_healed res = [] \<and> err = None)) \<longleftrightarrow>
      (\<exists>sv. reaches_verify r s res sv \<and> err = map_option RepairVerify (fst (hk_verify r (rr_healed res) sv)))) \<and>
   (case fst (repair_run r s) of
      (None, None) \<Rightarrow> False | (None, Some (RepairVerify _)) \<Rightarrow> False | _ \<Rightarrow> True)"
proof
  show "(fst (repair_run r s) = (Some res, err) \<and> \<not> (rr_healed res = [] \<and> err = None)) \<longleftrightarrow>
      (\<exists>sv. reaches_verify r s res sv \<and> err = map_option RepairVerify (fst (hk_verify r (rr_healed res) sv)))"
    using healed_run_verifies reaches_verify_run by (metis prod.inject)
  show "case fst (repair_run r s) of (None, None) \<Rightarrow> False | (None, Some (RepairVerify _)) \<Rightarrow> False | _ \<Rightarrow> True"
    by (auto simp: repair_run_def guarded_phases_def mutate_phases_def finish_repair_def Let_def dest: heal_error
        split: prod.split option.split pre_result.split sum.split repair_error.split)
qed

lemma await_recovery_ends_witness:
  "\<exists>ans. await_recovery (\<lambda>i. if i < 3 then Err ''refused'' else Ok []) (\<lambda>i. int i * 5) (\<lambda>_. None) 120 5 0 [] None = Some ans \<and>
     (if ans = ([], None) then \<exists>j. (if j < (3::nat) then Err ''refused'' else Ok ([]::string list)) = Ok [] else True)"
  using await_recovery_ends[of 5 "\<lambda>i. int i * 5" "\<lambda>i. if i < 3 then Err ''refused'' else Ok []" "\<lambda>_. None" 120 0 "[]" None]
  by simp

section \<open>Invariants of a run\<close>

text \<open>What every hook but the cleanup keeps holds when the phases end, on every way out.\<close>

locale run_invariant =
  fixes r :: "('s, 'e) repairer"
    and inv :: "'s \<Rightarrow> bool"
  assumes lock_inv: "inv s \<Longrightarrow> inv (snd (hk_lock r s))"
    and pre_inv: "inv s \<Longrightarrow> inv (snd (hk_pre r s))"
    and assess_inv: "inv s \<Longrightarrow> inv (snd (hk_assess r s))"
    and gate_inv: "inv s \<Longrightarrow> inv (snd (hk_gate r t s))"
    and escrow_inv: "inv s \<Longrightarrow> inv (snd (hk_escrow r t s))"
    and heal_inv: "inv s \<Longrightarrow> inv (snd (hk_heal r tg s))"
    and stabilize_inv: "inv s \<Longrightarrow> inv (hk_stabilize r s)"
    and reassess_inv: "inv s \<Longrightarrow> inv (snd (hk_reassess r s))"
    and verify_inv: "inv s \<Longrightarrow> inv (snd (hk_verify r hs s))"
begin

lemma heal_each_inv: "inv s \<Longrightarrow> inv (snd (heal_each r ts s))"
proof (induction ts arbitrary: s)
  case (Cons t ts)
  obtain err s1 where h: "hk_heal r t s = (err, s1)" by fastforce
  have "inv s1" using heal_inv[OF Cons.prems, of t] h by simp
  then show ?case using Cons.IH[of s1] by (simp add: heal_each_def h split: option.split)
qed (simp add: heal_each_def)

lemma finish_inv: "inv s \<Longrightarrow> inv (snd (finish_repair r res s))"
proof -
  assume "inv s"
  obtain post s1 where p: "hk_reassess r (hk_stabilize r s) = (post, s1)" by fastforce
  have 1: "inv s1" using reassess_inv[OF stabilize_inv[OF \<open>inv s\<close>]] p by simp
  obtain err s2 where v: "hk_verify r (rr_healed res) s1 = (err, s2)" by fastforce
  have "inv s2" using verify_inv[OF 1, of "rr_healed res"] v by simp
  then show ?thesis using 1 p v by (simp add: finish_repair_def Let_def split: option.split)
qed

lemma mutate_inv:
  assumes "inv s"
  shows "inv (snd (mutate_phases r res t s))"
proof -
  obtain ge s1 where g: "hk_gate r t s = (ge, s1)" by fastforce
  obtain ee s2 where e: "hk_escrow r t s1 = (ee, s2)" by fastforce
  have i: "inv s1" "inv s2" using gate_inv[OF assms, of t] escrow_inv[of s1 t] g e by simp_all
  have h: "inv (snd (heal_each r ts s2))" for ts by (rule heal_each_inv[OF i(2)])
  show ?thesis
    using i h finish_inv
    by (auto simp: mutate_phases_def g e split: option.split sum.split prod.split) (metis snd_conv)+
qed

lemma guarded_inv:
  assumes "inv s"
  shows "inv (snd (guarded_phases r s))"
proof -
  obtain pa s1 where p: "hk_pre r s = (pa, s1)" by fastforce
  obtain ta s2 where a: "hk_assess r s1 = (ta, s2)" by fastforce
  have i: "inv s1" "inv s2" using pre_inv[OF assms] assess_inv[of s1] p a by simp_all
  show ?thesis
    using i mutate_inv
    by (simp add: guarded_phases_def Let_def p a split: pre_result.split sum.split)
qed

end

section \<open>Heals behind a standing condition\<close>

text \<open>An engine whose heal of a target touches nothing unless a condition on the state holds, which
  neither the escrow nor any heal establishes or destroys.\<close>

locale gated_hooks = repair_hooks r data claims
  for r :: "('s, 'e) repairer" and data :: "'s \<Rightarrow> string \<Rightarrow> 'd" and claims :: "heal_target \<Rightarrow> string set" +
  fixes cleared :: "'s \<Rightarrow> bool"
  assumes escrow_cleared: "cleared (snd (hk_escrow r t s)) = cleared s"
    and heal_cleared: "cleared (snd (hk_heal r tg s)) = cleared s"
    and closed_heal: "\<not> cleared s \<Longrightarrow> data (snd (hk_heal r tg s)) = data s"
begin

lemma heal_each_closed: "\<not> cleared s \<Longrightarrow> data (snd (heal_each r ts s)) = data s"
proof (induction ts arbitrary: s)
  case (Cons t ts)
  obtain err s1 where h: "hk_heal r t s = (err, s1)" by fastforce
  have "data s1 = data s" "\<not> cleared s1" using closed_heal[OF Cons.prems, of t] heal_cleared[of t s] Cons.prems h by simp_all
  then show ?case using Cons.IH[of s1] by (simp add: heal_each_def h split: option.split)
qed (simp add: heal_each_def)

lemma mutate_cleared:
  assumes "data (snd (mutate_phases r res t s)) v \<noteq> data s v"
  shows "cleared (snd (hk_gate r t s))"
proof (rule ccontr)
  obtain ge s1 where g: "hk_gate r t s = (ge, s1)" by fastforce
  obtain ee s2 where e: "hk_escrow r t s1 = (ee, s2)" by fastforce
  assume "\<not> cleared (snd (hk_gate r t s))"
  then have n: "\<not> cleared s2" using escrow_cleared[of t s1] g e by simp
  have d: "data s2 = data s" "data s1 = data s" using gate_data[of t s] escrow_data[of t s1] g e by simp_all
  have "data (snd (mutate_phases r res t s)) = data s"
    using d heal_each_closed[OF n] finish_data
    by (simp add: mutate_phases_def g e split: option.split sum.split prod.split) (metis snd_conv)
  then show False using assms by simp
qed

text \<open>Where a change of a data directory in a whole run comes from, when the pre-assessment makes none.\<close>

lemma run_data_gated:
  assumes "data (snd (repair_run r s)) v \<noteq> data s v" "\<And>s. data (snd (hk_pre r s)) = data s"
  obtains s1 s2 t s3 s4 s5 ts where "hk_lock r s = (None, s1)" "hk_pre r s1 = (PreGoOn, s2)" "hk_assess r s2 = (Ok t, s3)"
      "\<not> hk_dry_run r" "hk_gate r t s3 = (None, s4)" "cleared s4" "hk_escrow r t s4 = (None, s5)" "hk_plan r t s5 = Ok ts"
      "v \<in> (\<Union>tg\<in>set ts. claims tg)"
proof (rule run_data[OF assms(1)])
  fix s1 assume "data (snd (hk_pre r s1)) v \<noteq> data s1 v"
  then show ?thesis using assms(2) by simp
next
  fix s1 s2 t s3 s4 s5 ts
  assume h: "hk_lock r s = (None, s1)" "hk_pre r s1 = (PreGoOn, s2)" "hk_assess r s2 = (Ok t, s3)"
    "\<not> hk_dry_run r" "hk_gate r t s3 = (None, s4)" "hk_escrow r t s4 = (None, s5)" "hk_plan r t s5 = Ok ts"
    "v \<in> (\<Union>tg\<in>set ts. claims tg)"
  let ?m = "mutate_phases r ((empty_result (hk_name r))\<lparr> rr_cluster := tr_cluster t \<rparr>) t s3"
  have "data (snd (repair_run r s)) v = data (snd ?m) v"
    using h release_data cleanup_data by (simp add: repair_run_def guarded_phases_def Let_def split: prod.split)
  moreover have "data s3 = data s" using lock_data[of s] assms(2)[of s1] assess_data[of s2] h by simp
  ultimately have "cleared s4" using mutate_cleared[of _ t s3 v] assms(1) h(5) by fastforce
  then show ?thesis using that h by blast
qed

end

end
