(* ===== verification/Repair_Escrow.thy ===== *)
theory Repair_Escrow
  imports Escrow
begin

text \<open>
  The escrow a repair takes before it heals (\<open>src/engine/repair/escrow.go\<close>): a dump of the donor
  into a repository that must already exist, and on an unsafe comparison a copy of every
  instance, by a dump where the instance answers and at the block level where it does not.
\<close>

section \<open>The capture\<close>

record repair_escrow_env =
  re_conf :: escrow_conf
  re_repo :: "(string, bool) result"
  re_dump :: "string \<Rightarrow> string \<Rightarrow> (string, string) result"
  re_naming :: "string \<Rightarrow> string"
  re_pod_of :: "string \<Rightarrow> pod_read"
  re_escrow :: escrow_env

datatype repair_escrow_error =
    EscrowUnconfigured | RepoUnreadable string | RepoMissing | PreRepairDump string
  | UndumpableClaims string | UndumpableGate escrow_error

text \<open>\<open>dc_pods\<close>: the pods whose diverged dump worked, with the snapshots; \<open>dc_refs\<close>: the block-level copies.\<close>

record repair_copies =
  dc_donor :: "string option"
  dc_pods :: "(string \<times> string) list"
  dc_refs :: "escrow_ref list"

definition no_copies :: repair_copies where "no_copies = \<lparr> dc_donor = None, dc_pods = [], dc_refs = [] \<rparr>"

definition assert_escrow_repo :: "(string, bool) result \<Rightarrow> repair_escrow_error option" where
  "assert_escrow_repo r =
     (case r of Inl err \<Rightarrow> Some (RepoUnreadable err) | Inr present \<Rightarrow> if present then None else Some RepoMissing)"

definition pre_repair_dump :: "repair_escrow_env \<Rightarrow> string \<Rightarrow> (repair_escrow_error, string option) result" where
  "pre_repair_dump e donor =
     (if ec_no_escrow (re_conf e) then Ok None
      else if \<not> restic_ok (re_conf e) then Err EscrowUnconfigured
      else (case assert_escrow_repo (re_repo e) of
              Some err \<Rightarrow> Err err
            | None \<Rightarrow>
                if donor = '''' then Ok None
                else (case re_dump e ''backup'' donor of
                        Inl err \<Rightarrow> Err (PreRepairDump err)
                      | Inr i \<Rightarrow> Ok (Some i))))"

text \<open>The diverged dumps: what was dumped and what could not be.\<close>

fun diverged_dumps ::
  "(string \<Rightarrow> (string, string) result) \<Rightarrow> instance_assessment list \<Rightarrow> (string \<times> string) list \<times> string list" where
  "diverged_dumps dump [] = ([], [])"
| "diverged_dumps dump (a # as) =
     (case diverged_dumps dump as of (ok, bad) \<Rightarrow>
        if \<not> ia_running a \<or> \<not> ia_ready a then (ok, ia_pod a # bad)
        else (case dump (ia_pod a) of
                Inl _ \<Rightarrow> (ok, ia_pod a # bad)
              | Inr i \<Rightarrow> ((ia_pod a, i) # ok, bad)))"

definition escrow_undumpable ::
  "repair_escrow_env \<Rightarrow> triage_result \<Rightarrow> string list \<Rightarrow> (repair_escrow_error, escrow_ref list) result" where
  "escrow_undumpable e t pods =
     (if pods = [] then Ok []
      else (case discover_pvcs (re_naming e) (re_pod_of e) pods [] of
              Inl err \<Rightarrow> Err (UndumpableClaims err)
            | Inr pvcs \<Rightarrow>
                (case gate (re_escrow e) (re_conf e) pvcs (used_bytes_by_pvc (tr_assessments t) pods) of
                   Inl err \<Rightarrow> Err (UndumpableGate err)
                 | Inr refs \<Rightarrow> Ok refs)))"

definition run_escrow ::
  "repair_escrow_env \<Rightarrow> triage_result \<Rightarrow> string \<Rightarrow> (repair_escrow_error, repair_copies) result" where
  "run_escrow e t donor =
     (case pre_repair_dump e donor of
        Inl err \<Rightarrow> Err err
      | Inr d \<Rightarrow>
          if \<not> dc_safe_to_heal (tr_comparison t) \<and> \<not> ec_no_escrow (re_conf e) then
            (case diverged_dumps (re_dump e ''diverged'') (tr_assessments t) of (ok, bad) \<Rightarrow>
               (case escrow_undumpable e t bad of
                  Inl err \<Rightarrow> Err err
                | Inr refs \<Rightarrow> Ok \<lparr> dc_donor = d, dc_pods = ok, dc_refs = refs \<rparr>))
          else Ok (no_copies\<lparr> dc_donor := d \<rparr>))"

section \<open>Every lineage has a copy\<close>

lemma diverged_cover:
  "diverged_dumps dump as = (ok, bad) \<Longrightarrow> set (map ia_pod as) = set (map fst ok) \<union> set bad"
  by (induction as arbitrary: ok bad) (auto split: prod.splits if_splits sum.splits)

lemma diverged_dumped:
  "diverged_dumps dump as = (ok, bad) \<Longrightarrow> list_all (\<lambda>(p, i). dump p = Ok i) ok"
  by (induction as arbitrary: ok bad) (auto split: prod.splits if_splits sum.splits)

text \<open>C15: When the escrow of an unsafe comparison lets the repair go on and \<open>--no-escrow\<close> was not given, every
  instance has a copy: its dump succeeded, or each of its claims, by name and as mounted, has a copy that its
  provider proved restorable.  The repository existed before the run.  With \<open>--no-escrow\<close> the repair of an unsafe
  comparison goes on with no copy of its instances at all.\<close>

theorem every_lineage_has_a_copy:
  "case run_escrow e t donor of
     Inl _ \<Rightarrow> True
   | Inr c \<Rightarrow>
       if dc_safe_to_heal (tr_comparison t) then True
       else if ec_no_escrow (re_conf e) then dc_pods c = [] \<and> dc_refs c = []
       else re_repo e = Ok True \<and> list_all (\<lambda>(p, i). re_dump e ''diverged'' p = Ok i) (dc_pods c) \<and>
         list_all (proven (re_escrow e) (re_conf e)) (dc_refs c) \<and>
         list_all (\<lambda>a. ia_pod a \<in> set (map fst (dc_pods c)) \<or>
           ({re_naming e (ia_pod a)} \<union> set (claims_of (re_pod_of e) (ia_pod a))) - {''''} \<subseteq> set (map er_pvc (dc_refs c)))
          (tr_assessments t)"
proof -
  have waived: "dc_pods c = [] \<and> dc_refs c = []" if "run_escrow e t donor = Ok c" "ec_no_escrow (re_conf e)" for c
    using that by (auto simp: run_escrow_def no_copies_def split: sum.splits)
  have "re_repo e = Ok True \<and> list_all (\<lambda>(p, i). re_dump e ''diverged'' p = Ok i) (dc_pods c) \<and>
       list_all (proven (re_escrow e) (re_conf e)) (dc_refs c) \<and>
       list_all (\<lambda>a. ia_pod a \<in> set (map fst (dc_pods c)) \<or>
         ({re_naming e (ia_pod a)} \<union> set (claims_of (re_pod_of e) (ia_pod a))) - {''''} \<subseteq> set (map er_pvc (dc_refs c)))
        (tr_assessments t)"
    if u: "\<not> dc_safe_to_heal (tr_comparison t)" "\<not> ec_no_escrow (re_conf e)" and r: "run_escrow e t donor = Ok c" for c
  proof -
    obtain ok bad where d: "diverged_dumps (re_dump e ''diverged'') (tr_assessments t) = (ok, bad)" by fastforce
    obtain refs where g: "escrow_undumpable e t bad = Ok refs" and c: "dc_pods c = ok" "dc_refs c = refs"
      using r u d by (auto simp: run_escrow_def split: sum.splits)
    have repo: "re_repo e = Ok True"
      using r u by (auto simp: run_escrow_def pre_repair_dump_def assert_escrow_repo_def split: sum.splits if_splits option.splits)
    show ?thesis
    proof (cases "bad = []")
      case True
      then have "refs = []" using g by (simp add: escrow_undumpable_def)
      then show ?thesis using repo c diverged_cover[OF d] diverged_dumped[OF d] True by (auto simp: list_all_iff)
    next
      case False
      then obtain pvcs where p: "discover_pvcs (re_naming e) (re_pod_of e) bad [] = Ok pvcs"
          "gate (re_escrow e) (re_conf e) pvcs (used_bytes_by_pvc (tr_assessments t) bad) = Ok refs"
        using g by (auto simp: escrow_undumpable_def split: sum.splits)
      have s: "set pvcs = (\<Union>q\<in>set bad. ({re_naming e q} \<union> set (claims_of (re_pod_of e) q)) - {''''})"
        using discover_spec[OF p(1)] by simp
      note gp = gate_proves[OF p(2) u(2)]
      have "{re_naming e q} \<union> set (claims_of (re_pod_of e) q) - {''''} \<subseteq> set (map er_pvc refs)" if "q \<in> set bad" for q
        using that s gp by auto
      moreover have "ia_pod a \<in> set (map fst ok) \<or> ia_pod a \<in> set bad" if "a \<in> set (tr_assessments t)" for a
        using diverged_cover[OF d] that by auto
      ultimately show ?thesis using repo c gp diverged_dumped[OF d] by (auto simp: list_all_iff)
    qed
  qed
  then show ?thesis using waived by (cases "run_escrow e t donor") simp_all
qed

end
