(* ===== verification/Cnpg_Job.thy ===== *)
theory Cnpg_Job
  imports Go_Strings
begin

text \<open>
  The offline job every destructive CNPG operation runs through
  (\<open>src/engine/cnpgjob/offlinejob.go\<close>, \<open>src/engine/provider/cnpg.go\<close>): fence the instance, switch the
  operator's reconciliation off, let a helper pod take over the claim, do the work, and put
  everything back.  The fence list is a JSON array in an annotation of the cluster resource.
  Polls take the attempt number; the work is what the helper's script does to the data
  directory, once started and once complete.
\<close>

section \<open>The fence annotation\<close>

text \<open>\<open>parseJSONStringArray\<close>: whether inside quotes, the bytes since the quote, the rest.\<close>

fun parse_json_strings :: "bool \<Rightarrow> string \<Rightarrow> string \<Rightarrow> string list" where
  "parse_json_strings q cur [] = []"
| "parse_json_strings q cur (c # cs) =
     (if c = CHR 0x22 \<and> \<not> q then parse_json_strings True [] cs
      else if c = CHR 0x22 \<and> q then cur # parse_json_strings False cur cs
      else if q then parse_json_strings q (cur @ [c]) cs
      else parse_json_strings q cur cs)"

definition parse_fenced :: "string option \<Rightarrow> string list" where
  "parse_fenced a =
     (case a of None \<Rightarrow> [] | Some s \<Rightarrow> if s = '''' \<or> s = ''[]'' then [] else parse_json_strings False '''' s)"

text \<open>\<open>json.Marshal\<close> of a string, for bytes below 128, and of a non-empty slice of strings.\<close>

definition json_char :: "char \<Rightarrow> string" where
  "json_char c =
     (if c = CHR 0x22 \<or> c = CHR 0x5C then [CHR 0x5C, c]
      else if c = CHR 0x08 then [CHR 0x5C, CHR ''b''] else if c = CHR 0x0C then [CHR 0x5C, CHR ''f'']
      else if c = CHR 0x0A then [CHR 0x5C, CHR ''n''] else if c = CHR 0x0D then [CHR 0x5C, CHR ''r'']
      else if c = CHR 0x09 then [CHR 0x5C, CHR ''t'']
      else if byte_of c < 32 \<or> c = CHR ''<'' \<or> c = CHR ''>'' \<or> c = CHR 0x26 then CHR 0x5C # ''u00'' @ hex_pad 2 (byte_of c)
      else [c])"

definition json_string :: "string \<Rightarrow> string" where
  "json_string s = [CHR 0x22] @ concat (map json_char s) @ [CHR 0x22]"

definition json_array :: "string list \<Rightarrow> string" where
  "json_array xs = ''['' @ join_with '','' (map json_string xs) @ '']''"

section \<open>The cluster\<close>

text \<open>What a helper has done to a claim's data directory since the run began.\<close>

datatype pgdata = Kept | Cleared | CloneOf string

text \<open>\<open>cc_helpers\<close>: the claims that a helper pod holds or waits for.\<close>

record cnpg_cluster =
  cc_fenced :: "string option"
  cc_reconcile_off :: bool
  cc_pods :: "string list"
  cc_helpers :: "string list"
  cc_data :: "(string \<times> pgdata) list"

definition data_of :: "cnpg_cluster \<Rightarrow> string \<Rightarrow> pgdata" where
  "data_of s v = map_get Kept (cc_data s) v"

definition fenced_in :: "cnpg_cluster \<Rightarrow> string list" where
  "fenced_in s = parse_fenced (cc_fenced s)"

text \<open>A read that fails, then the patch.\<close>

definition fence :: "bool \<Rightarrow> outcome \<Rightarrow> string \<Rightarrow> cnpg_cluster \<Rightarrow> bool \<times> cnpg_cluster" where
  "fence readable o' pod s =
     (if \<not> readable then (False, s)
      else if pod \<in> set (fenced_in s) then (True, s)
      else call o' (\<lambda>s. s\<lparr> cc_fenced := Some (json_array (fenced_in s @ [pod])) \<rparr>) s)"

definition without_fence :: "string \<Rightarrow> string list \<Rightarrow> string option" where
  "without_fence pod current =
     (let remaining = filter (\<lambda>f. f \<noteq> pod) current in if remaining = [] then None else Some (json_array remaining))"

definition unfence :: "bool \<Rightarrow> outcome \<Rightarrow> string \<Rightarrow> cnpg_cluster \<Rightarrow> bool \<times> cnpg_cluster" where
  "unfence readable o' pod s =
     (if \<not> readable then (False, s)
      else call o' (\<lambda>s. s\<lparr> cc_fenced := without_fence pod (fenced_in s) \<rparr>) s)"

definition reconcile_off :: "cnpg_cluster \<Rightarrow> cnpg_cluster" where "reconcile_off s = s\<lparr> cc_reconcile_off := True \<rparr>"
definition reconcile_on :: "cnpg_cluster \<Rightarrow> cnpg_cluster" where "reconcile_on s = s\<lparr> cc_reconcile_off := False \<rparr>"

text \<open>\<open>restoreReconciliation\<close>: at most five attempts, stopping at the first that answers without error.\<close>

fun restore_reconciliation :: "(nat \<Rightarrow> outcome) \<Rightarrow> nat \<Rightarrow> nat \<Rightarrow> cnpg_cluster \<Rightarrow> cnpg_cluster" where
  "restore_reconciliation answer i 0 s = s"
| "restore_reconciliation answer i (Suc k) s =
     (case call (answer i) reconcile_on s of
        (True, s') \<Rightarrow> s'
      | (False, s') \<Rightarrow> restore_reconciliation answer (Suc i) k s')"

section \<open>The job\<close>

record offline_job =
  oj_target :: string
  oj_pvc :: string
  oj_start :: "pgdata \<Rightarrow> pgdata"
  oj_done :: "pgdata \<Rightarrow> pgdata"
  oj_driven :: bool
  oj_keep_fenced :: bool
  oj_delete_timeout :: int
  oj_complete_timeout :: int

text \<open>The helper pod as a poll sees it: unreadable, or its phase and whether the scheduler refused it.\<close>

datatype helper_view = HelperUnread | HelperPhase string bool

record job_env =
  je_fence_read :: bool
  je_fence_patch :: outcome
  je_disable :: outcome
  je_create :: outcome
  je_view :: "nat \<Rightarrow> helper_view"
  je_delete_target :: "nat \<Rightarrow> outcome"
  je_ran_early :: bool
  je_work :: "(string, unit) result"
  je_phase :: "nat \<Rightarrow> string option"
  je_delete_helper :: outcome
  je_enable :: outcome
  je_restore :: "nat \<Rightarrow> outcome"
  je_unfence_read :: bool
  je_unfence_patch :: outcome

datatype job_error =
    FenceFailed | DisableFailed | CreateFailed | HelperFailedEarly | HelperUnschedulable | AcquireTimeout
  | WorkFailed string | HelperFailed | CompleteTimeout | UnfenceFailed

definition delete_pod :: "string \<Rightarrow> cnpg_cluster \<Rightarrow> cnpg_cluster" where
  "delete_pod p s = s\<lparr> cc_pods := removeAll p (cc_pods s) \<rparr>"

definition add_helper :: "string \<Rightarrow> cnpg_cluster \<Rightarrow> cnpg_cluster" where
  "add_helper v s = s\<lparr> cc_helpers := v # cc_helpers s \<rparr>"

definition drop_helper :: "string \<Rightarrow> cnpg_cluster \<Rightarrow> cnpg_cluster" where
  "drop_helper v s = s\<lparr> cc_helpers := removeAll v (cc_helpers s) \<rparr>"

definition alter_data :: "string \<Rightarrow> (pgdata \<Rightarrow> pgdata) \<Rightarrow> cnpg_cluster \<Rightarrow> cnpg_cluster" where
  "alter_data v f s = s\<lparr> cc_data := map_set v (f (data_of s v)) (cc_data s) \<rparr>"

text \<open>STEP 4: a look at the helper once a second; the target is deleted after every look that
  decides nothing.\<close>

fun acquire_pvc ::
  "job_env \<Rightarrow> string \<Rightarrow> nat \<Rightarrow> nat \<Rightarrow> cnpg_cluster \<Rightarrow> job_error option \<times> cnpg_cluster" where
  "acquire_pvc e target i 0 s = (Some AcquireTimeout, s)"
| "acquire_pvc e target i (Suc k) s =
     (case je_view e i of
        HelperPhase ph unschedulable \<Rightarrow>
          if ph = ''Running'' \<or> ph = ''Succeeded'' then (None, s)
          else if ph = ''Failed'' then (Some HelperFailedEarly, s)
          else if unschedulable then (Some HelperUnschedulable, s)
          else acquire_pvc e target (Suc i) k (snd (call (je_delete_target e i) (delete_pod target) s))
      | HelperUnread \<Rightarrow> acquire_pvc e target (Suc i) k (snd (call (je_delete_target e i) (delete_pod target) s)))"

definition delete_polls :: "int \<Rightarrow> nat" where
  "delete_polls t = nat (if t \<le> 0 then 300 else t)"

fun await_completion :: "(nat \<Rightarrow> string option) \<Rightarrow> nat \<Rightarrow> nat \<Rightarrow> job_error option" where
  "await_completion phase i 0 = Some CompleteTimeout"
| "await_completion phase i (Suc k) =
     (if phase i = Some ''Succeeded'' then None
      else if phase i = Some ''Failed'' then Some HelperFailed
      else await_completion phase (Suc i) k)"

definition complete_polls :: "int \<Rightarrow> nat" where
  "complete_polls t = nat ((if t \<le> 0 then 600 else t) div 5)"

text \<open>STEP 5: either the caller's work, or the wait for the helper's own command.\<close>

definition job_work :: "job_env \<Rightarrow> offline_job \<Rightarrow> job_error option" where
  "job_work e j =
     (if oj_driven j then (case je_work e of Inl err \<Rightarrow> Some (WorkFailed err) | Inr _ \<Rightarrow> None)
      else await_completion (je_phase e) 0 (complete_polls (oj_complete_timeout j)))"

text \<open>STEPs 6 and 7: whether the deferred restore still has to run, and the cluster.\<close>

definition hand_back :: "job_env \<Rightarrow> offline_job \<Rightarrow> cnpg_cluster \<Rightarrow> job_error option \<times> bool \<times> cnpg_cluster" where
  "hand_back e j s =
     (case call (je_enable e) reconcile_on s of (on, s1) \<Rightarrow>
        if oj_keep_fenced j then (None, \<not> on, s1)
        else (case unfence (je_unfence_read e) (je_unfence_patch e) (oj_target j) s1 of
                (ok, s2) \<Rightarrow> (if ok then None else Some UnfenceFailed, \<not> on, s2)))"

text \<open>STEPs 3 to 7, with reconciliation off.  A helper that failed before a poll saw it running may
  have started its script.\<close>

definition job_body :: "job_env \<Rightarrow> offline_job \<Rightarrow> cnpg_cluster \<Rightarrow> job_error option \<times> bool \<times> cnpg_cluster" where
  "job_body e j s =
     (let gone = (\<lambda>s. snd (call (je_delete_helper e) (drop_helper (oj_pvc j)) s)) in
      case call (je_create e) (add_helper (oj_pvc j)) s of
        (False, s1) \<Rightarrow> (Some CreateFailed, True, s1)
      | (True, s1) \<Rightarrow>
          (case acquire_pvc e (oj_target j) 0 (delete_polls (oj_delete_timeout j)) s1 of
             (Some err, s2) \<Rightarrow>
               (Some err, True,
                gone (if err = HelperFailedEarly \<and> je_ran_early e then alter_data (oj_pvc j) (oj_start j) s2 else s2))
           | (None, s2) \<Rightarrow>
               (let s3 = alter_data (oj_pvc j) (oj_start j) s2 in
                case job_work e j of
                  Some err \<Rightarrow> (Some err, True, gone s3)
                | None \<Rightarrow> hand_back e j (gone (alter_data (oj_pvc j) (oj_done j) s3)))))"

definition run_job :: "job_env \<Rightarrow> offline_job \<Rightarrow> cnpg_cluster \<Rightarrow> job_error option \<times> cnpg_cluster" where
  "run_job e j s =
     (case fence (je_fence_read e) (je_fence_patch e) (oj_target j) s of
        (False, s1) \<Rightarrow> (Some FenceFailed, s1)
      | (True, s1) \<Rightarrow>
          (case call (je_disable e) reconcile_off s1 of
             (False, s2) \<Rightarrow> (Some DisableFailed, restore_reconciliation (je_restore e) 0 5 s2)
           | (True, s2) \<Rightarrow>
               (case job_body e j s2 of
                  (err, still, s3) \<Rightarrow> (err, if still then restore_reconciliation (je_restore e) 0 5 s3 else s3))))"

section \<open>The annotation's round trip\<close>

definition plain_name :: "string \<Rightarrow> bool" where
  "plain_name s \<longleftrightarrow> list_all (\<lambda>c. json_char c = [c] \<and> c \<noteq> CHR 0x22) s"

lemma parse_unquoted_cur: "parse_json_strings False cur s = parse_json_strings False '''' s"
  by (induction s arbitrary: cur) auto

lemma parse_quoted:
  "plain_name s \<Longrightarrow> parse_json_strings True cur (s @ CHR 0x22 # rest) = (cur @ s) # parse_json_strings False '''' rest"
proof (induction s arbitrary: cur)
  case Nil
  show ?case using parse_unquoted_cur[of cur rest] by simp
next
  case (Cons c s)
  then show ?case by (simp add: plain_name_def)
qed

lemma concat_plain: "plain_name s \<Longrightarrow> concat (map json_char s) = s"
  by (induction s) (auto simp: plain_name_def)

lemma parse_json_string:
  "plain_name s \<Longrightarrow> parse_json_strings False cur (json_string s @ rest) = s # parse_json_strings False '''' rest"
  by (simp add: json_string_def concat_plain parse_quoted)

lemma parse_joined:
  "list_all plain_name xs \<Longrightarrow> parse_json_strings False cur (join_with '','' (map json_string xs) @ '']'') = xs"
proof (induction xs arbitrary: cur rule: induct_list012)
  case (3 x y zs)
  have x: "plain_name x" and r: "list_all plain_name (y # zs)" using 3(3) by simp_all
  have "parse_json_strings False cur (join_with '','' (map json_string (x # y # zs)) @ '']'') =
      x # parse_json_strings False '''' ('','' @ join_with '','' (map json_string (y # zs)) @ '']'')"
    using parse_json_string[OF x, of cur "'','' @ join_with '','' (map json_string (y # zs)) @ '']''"] by simp
  also have "parse_json_strings False '''' ('','' @ join_with '','' (map json_string (y # zs)) @ '']'') = y # zs"
    using 3(2)[OF r, of "''''"] by simp
  finally show ?case .
qed (simp_all add: parse_json_string)

lemma parse_json_array: "list_all plain_name xs \<Longrightarrow> parse_fenced (Some (json_array xs)) = xs"
proof -
  assume p: "list_all plain_name xs"
  have "parse_json_strings False '''' (json_array xs) = xs"
    using parse_joined[OF p, of "''''"] by (simp add: json_array_def)
  then show ?thesis by (cases xs) (auto simp: parse_fenced_def json_array_def)
qed

section \<open>What each step leaves alone\<close>

lemmas cluster_edits = reconcile_off_def reconcile_on_def delete_pod_def add_helper_def drop_helper_def alter_data_def

lemma edits_fenced [simp]:
  "cc_fenced (reconcile_off s) = cc_fenced s" "cc_fenced (reconcile_on s) = cc_fenced s" "cc_fenced (delete_pod p s) = cc_fenced s"
  "cc_fenced (add_helper v s) = cc_fenced s" "cc_fenced (drop_helper v s) = cc_fenced s" "cc_fenced (alter_data v f s) = cc_fenced s"
  by (simp_all add: cluster_edits)

lemma edits_reconcile [simp]:
  "cc_reconcile_off (reconcile_off s)" "\<not> cc_reconcile_off (reconcile_on s)" "cc_reconcile_off (delete_pod p s) = cc_reconcile_off s"
  "cc_reconcile_off (add_helper v s) = cc_reconcile_off s" "cc_reconcile_off (drop_helper v s) = cc_reconcile_off s"
  "cc_reconcile_off (alter_data v f s) = cc_reconcile_off s"
  by (simp_all add: cluster_edits)

lemma edits_data [simp]:
  "data_of (reconcile_off s) = data_of s" "data_of (reconcile_on s) = data_of s" "data_of (delete_pod p s) = data_of s"
  "data_of (add_helper v s) = data_of s" "data_of (drop_helper v s) = data_of s"
  "data_of (alter_data v f s) = (data_of s)(v := f (data_of s v))"
  by (simp_all add: cluster_edits data_of_def fun_eq_iff)

lemma call_keeps: "(\<And>x. P (f x) = P x) \<Longrightarrow> P (snd (call o' f s)) = P s"
  by (cases o') auto

lemma acquire_frame:
  "cc_fenced (snd (acquire_pvc e t i k s)) = cc_fenced s"
  "cc_reconcile_off (snd (acquire_pvc e t i k s)) = cc_reconcile_off s"
  "data_of (snd (acquire_pvc e t i k s)) = data_of s"
  "cc_helpers (snd (acquire_pvc e t i k s)) = cc_helpers s"
proof (induction k arbitrary: i s)
  case (Suc k)
  {
    case 1 show ?case by (simp add: Suc.IH(1) call_keeps[where P = cc_fenced] split: helper_view.split)
  next
    case 2 show ?case by (simp add: Suc.IH(2) call_keeps[where P = cc_reconcile_off] split: helper_view.split)
  next
    case 3 show ?case by (simp add: Suc.IH(3) call_keeps[where P = data_of] split: helper_view.split)
  next
    case 4 show ?case
      by (simp add: Suc.IH(4) call_keeps[where P = cc_helpers] delete_pod_def split: helper_view.split)
  }
qed simp_all

lemma restore_frame:
  "cc_fenced (restore_reconciliation a i k s) = cc_fenced s"
  "data_of (restore_reconciliation a i k s) = data_of s"
proof (induction k arbitrary: i s)
  case (Suc k)
  {
    case 1 show ?case using Suc.IH(1) by (cases "a i") auto
  next
    case 2 show ?case using Suc.IH(2) by (cases "a i") auto
  }
qed simp_all

lemma restore_stays_on: "\<not> cc_reconcile_off s \<Longrightarrow> \<not> cc_reconcile_off (restore_reconciliation a i k s)"
  by (induction k arbitrary: i s) (auto split: prod.splits simp: call_def split: outcome.splits)

lemma restored: "\<exists>j. i \<le> j \<and> j < i + k \<and> a j \<noteq> Refused \<Longrightarrow> \<not> cc_reconcile_off (restore_reconciliation a i k s)"
proof (induction k arbitrary: i s)
  case (Suc k)
  show ?case
  proof (cases "a i")
    case Refused
    then obtain j where "Suc i \<le> j" "j < Suc i + k" "a j \<noteq> Refused"
      using Suc.prems by (metis add_Suc_right add_Suc le_neq_implies_less Suc_leI)
    then have "\<not> cc_reconcile_off (restore_reconciliation a (Suc i) k s)" by (intro Suc.IH) blast
    then show ?thesis by (simp add: Refused)
  qed (simp_all add: restore_stays_on)
qed auto

lemma set_fenced_frame [simp]: "data_of (s\<lparr> cc_fenced := x \<rparr>) = data_of s"
  by (simp add: data_of_def fun_eq_iff)

lemma fence_frame:
  "data_of (snd (fence b o' p s)) = data_of s" "cc_reconcile_off (snd (fence b o' p s)) = cc_reconcile_off s"
  "data_of (snd (unfence b o' p s)) = data_of s" "cc_reconcile_off (snd (unfence b o' p s)) = cc_reconcile_off s"
  by (simp_all add: fence_def unfence_def call_keeps[where P = data_of] call_keeps[where P = cc_reconcile_off])

lemma fenced_after:
  assumes "list_all plain_name (p # fenced_in s)" "fence b o' p s = (True, s')"
  shows "set (fenced_in s') = insert p (set (fenced_in s))" "list_all plain_name (fenced_in s')"
proof -
  have "fenced_in s' = fenced_in s \<and> p \<in> set (fenced_in s) \<or> fenced_in s' = fenced_in s @ [p]"
    using assms by (auto simp: fence_def call_ok fenced_in_def parse_json_array split: if_splits)
  then show "set (fenced_in s') = insert p (set (fenced_in s))" "list_all plain_name (fenced_in s')"
    using assms(1) by auto
qed

lemma fenced_without:
  assumes "list_all plain_name xs"
  shows "parse_fenced (without_fence p xs) = filter (\<lambda>f. f \<noteq> p) xs"
proof -
  have "list_all plain_name (filter (\<lambda>f. f \<noteq> p) xs)" using assms by (auto simp: list_all_iff)
  from parse_json_array[OF this] show ?thesis
    by (simp add: without_fence_def Let_def) (simp add: parse_fenced_def)
qed

section \<open>The job's contract\<close>

lemma hand_back_spec:
  assumes "hand_back e j s = (err, still, s')"
  shows "still \<or> \<not> cc_reconcile_off s'" "data_of s' = data_of s" "err = None \<or> err = Some UnfenceFailed"
    "err = None \<Longrightarrow> cc_fenced s' = (if oj_keep_fenced j then cc_fenced s else without_fence (oj_target j) (fenced_in s))"
    "err = Some UnfenceFailed \<Longrightarrow> je_unfence_patch e \<noteq> AppliedLost \<Longrightarrow> cc_fenced s' = cc_fenced s"
    "\<not> oj_keep_fenced j \<or> err = None"
    "cc_fenced s' = cc_fenced s \<or> cc_fenced s' = without_fence (oj_target j) (fenced_in s)"
  using assms
  by (cases "je_enable e"; cases "je_unfence_patch e"; auto simp: hand_back_def unfence_def fenced_in_def split: if_splits)+

definition body_error :: "job_error option \<Rightarrow> bool" where
  "body_error err \<longleftrightarrow> err \<noteq> None \<and> err \<noteq> Some UnfenceFailed"

definition untouched_error :: "job_error option \<Rightarrow> bool" where
  "untouched_error err \<longleftrightarrow>
     err \<in> {Some FenceFailed, Some DisableFailed, Some CreateFailed, Some HelperUnschedulable, Some AcquireTimeout}"

lemma acquire_error: "fst (acquire_pvc e t i k s) \<in> {None, Some AcquireTimeout, Some HelperFailedEarly, Some HelperUnschedulable}"
  by (induction k arbitrary: i s) (auto split: helper_view.split)

lemma await_error: "await_completion ph i k \<in> {None, Some HelperFailed, Some CompleteTimeout}"
  by (induction k arbitrary: i) auto

lemma work_error: "job_work e j = Some err \<Longrightarrow> err \<in> {HelperFailed, CompleteTimeout} \<or> (\<exists>m. err = WorkFailed m)"
  using await_error[of "je_phase e" 0 "complete_polls (oj_complete_timeout j)"]
  by (auto simp: job_work_def split: if_splits sum.splits)

lemma drop_after: "cc_fenced (snd (call o' (drop_helper v) s)) = cc_fenced s"
  "cc_reconcile_off (snd (call o' (drop_helper v) s)) = cc_reconcile_off s"
  "data_of (snd (call o' (drop_helper v) s)) = data_of s"
  by (simp_all add: call_keeps[where P = cc_fenced] call_keeps[where P = cc_reconcile_off] call_keeps[where P = data_of])

lemma create_after:
  assumes "call o' (add_helper v) s = (b, s')"
  shows "cc_fenced s' = cc_fenced s" "cc_reconcile_off s' = cc_reconcile_off s" "data_of s' = data_of s"
  using assms by (cases o'; auto)+

text \<open>The four ways through the body.\<close>

lemma job_body_cases:
  assumes "job_body e j s = (err, still, s')"
  obtains
    (early) "still" "cc_fenced s' = cc_fenced s" "data_of s' = data_of s"
      "err \<in> {Some CreateFailed, Some HelperUnschedulable, Some AcquireTimeout, Some HelperFailedEarly}"
  | (ran) "still" "cc_fenced s' = cc_fenced s" "data_of s' = (data_of s)(oj_pvc j := oj_start j (data_of s (oj_pvc j)))"
      "body_error err" "\<not> untouched_error err"
  | (complete) h where "hand_back e j h = (err, still, s')" "cc_fenced h = cc_fenced s"
      "data_of h = (data_of s)(oj_pvc j := oj_done j (oj_start j (data_of s (oj_pvc j))))"
proof (cases "call (je_create e) (add_helper (oj_pvc j)) s")
  case (Pair b s1)
  note c = create_after[OF Pair]
  show ?thesis
  proof (cases b)
    case False
    then show ?thesis using assms Pair c by (intro early) (auto simp: job_body_def)
  next
    case True
    obtain r s2 where a: "acquire_pvc e (oj_target j) 0 (delete_polls (oj_delete_timeout j)) s1 = (r, s2)" by fastforce
    note f = acquire_frame(1,3)[of e "oj_target j" 0 "delete_polls (oj_delete_timeout j)" s1, unfolded a snd_conv]
    have r: "r \<in> {None, Some AcquireTimeout, Some HelperFailedEarly, Some HelperUnschedulable}"
      using acquire_error[of e "oj_target j" 0 "delete_polls (oj_delete_timeout j)" s1] a by simp
    show ?thesis
    proof (cases r)
      case (Some x)
      show ?thesis
      proof (cases "x = HelperFailedEarly \<and> je_ran_early e")
        case True
        then show ?thesis using assms Pair \<open>b\<close> a Some f c
          by (intro ran) (auto simp: job_body_def drop_after untouched_error_def body_error_def)
      next
        case False
        then show ?thesis using assms Pair \<open>b\<close> a Some f c r
          by (intro early) (auto simp: job_body_def drop_after)
      qed
    next
      case None
      show ?thesis
      proof (cases "job_work e j")
        case (Some x)
        then have r: "err = Some x" "still"
            "s' = snd (call (je_delete_helper e) (drop_helper (oj_pvc j)) (alter_data (oj_pvc j) (oj_start j) s2))"
          using assms Pair \<open>b\<close> a None by (simp_all add: job_body_def Let_def)
        have "body_error (Some x)" "\<not> untouched_error (Some x)"
          using work_error[OF Some] by (auto simp: body_error_def untouched_error_def)
        then show ?thesis using r f c by (intro ran) (simp_all add: drop_after)
      next
        case none: None
        let ?h = "snd (call (je_delete_helper e) (drop_helper (oj_pvc j))
                    (alter_data (oj_pvc j) (oj_done j) (alter_data (oj_pvc j) (oj_start j) s2)))"
        have "hand_back e j ?h = (err, still, s')"
          using assms Pair \<open>b\<close> a None none by (simp add: job_body_def Let_def)
        then show ?thesis using f c by (intro complete[of ?h]) (simp_all add: drop_after)
      qed
    qed
  qed
qed

lemma job_body_spec:
  assumes b: "job_body e j s = (err, still, s')"
  shows "still \<or> \<not> cc_reconcile_off s'"
    "v \<noteq> oj_pvc j \<Longrightarrow> data_of s' v = data_of s v"
    "untouched_error err \<Longrightarrow> data_of s' = data_of s"
    "err = None \<or> err = Some UnfenceFailed \<Longrightarrow> data_of s' (oj_pvc j) = oj_done j (oj_start j (data_of s (oj_pvc j)))"
    "body_error err \<Longrightarrow> cc_fenced s' = cc_fenced s"
    "err \<noteq> Some FenceFailed"
proof -
  show "still \<or> \<not> cc_reconcile_off s'" using b by (cases rule: job_body_cases) (auto dest: hand_back_spec(1))
  show "v \<noteq> oj_pvc j \<Longrightarrow> data_of s' v = data_of s v"
    using b by (cases rule: job_body_cases) (auto dest: hand_back_spec(2))
  show "data_of s' = data_of s" if "untouched_error err"
    using b that by (cases rule: job_body_cases) (auto simp: untouched_error_def dest: hand_back_spec(3))
  show "data_of s' (oj_pvc j) = oj_done j (oj_start j (data_of s (oj_pvc j)))" if "err = None \<or> err = Some UnfenceFailed"
    using b that by (cases rule: job_body_cases) (auto simp: body_error_def dest: hand_back_spec(2))
  show "cc_fenced s' = cc_fenced s" if "body_error err"
    using b that by (cases rule: job_body_cases) (auto simp: body_error_def dest: hand_back_spec(3))
  show "err \<noteq> Some FenceFailed"
    using b by (cases rule: job_body_cases) (auto simp: untouched_error_def dest: hand_back_spec(3))
qed

lemma job_body_fence:
  assumes b: "job_body e j s = (err, still, s')"
  shows "err = None \<Longrightarrow> cc_fenced s' = (if oj_keep_fenced j then cc_fenced s else without_fence (oj_target j) (fenced_in s))"
    "err = Some UnfenceFailed \<Longrightarrow> je_unfence_patch e \<noteq> AppliedLost \<Longrightarrow> cc_fenced s' = cc_fenced s"
    "cc_fenced s' = cc_fenced s \<or> cc_fenced s' = without_fence (oj_target j) (fenced_in s)"
proof -
  show "cc_fenced s' = (if oj_keep_fenced j then cc_fenced s else without_fence (oj_target j) (fenced_in s))" if "err = None"
    using b
  proof (cases rule: job_body_cases)
    case (complete h)
    then show ?thesis using hand_back_spec(4)[OF complete(1) that] by (simp add: fenced_in_def)
  qed (use that in \<open>simp_all add: body_error_def\<close>)
  show "cc_fenced s' = cc_fenced s" if "err = Some UnfenceFailed" "je_unfence_patch e \<noteq> AppliedLost"
    using b
  proof (cases rule: job_body_cases)
    case (complete h)
    then show ?thesis using hand_back_spec(5)[OF complete(1) that] by simp
  qed simp_all
  show "cc_fenced s' = cc_fenced s \<or> cc_fenced s' = without_fence (oj_target j) (fenced_in s)"
    using b
  proof (cases rule: job_body_cases)
    case (complete h)
    then show ?thesis using hand_back_spec(7)[OF complete(1)] by (simp add: fenced_in_def)
  qed simp_all
qed

lemma run_job_cases:
  assumes "run_job e j s = (err, s')"
  obtains
    (no_fence) "fence (je_fence_read e) (je_fence_patch e) (oj_target j) s = (False, s')" "err = Some FenceFailed"
  | (no_disable) s1 s2 where "fence (je_fence_read e) (je_fence_patch e) (oj_target j) s = (True, s1)"
      "call (je_disable e) reconcile_off s1 = (False, s2)" "err = Some DisableFailed"
      "s' = restore_reconciliation (je_restore e) 0 5 s2"
  | (body) s1 still s3 where "fence (je_fence_read e) (je_fence_patch e) (oj_target j) s = (True, s1)"
      "job_body e j (reconcile_off s1) = (err, still, s3)"
      "s' = (if still then restore_reconciliation (je_restore e) 0 5 s3 else s3)"
proof -
  obtain b s1 where f: "fence (je_fence_read e) (je_fence_patch e) (oj_target j) s = (b, s1)" by fastforce
  obtain d s2 where d: "call (je_disable e) reconcile_off s1 = (d, s2)" by fastforce
  obtain err' still s3 where jb: "job_body e j s2 = (err', still, s3)" using prod_cases3 by blast
  show ?thesis
  proof (cases b)
    case False
    then show ?thesis using assms f by (intro no_fence) (simp_all add: run_job_def)
  next
    case b: True
    show ?thesis
    proof (cases d)
      case False
      then show ?thesis using assms f b d by (intro no_disable[of s1 s2]) (simp_all add: run_job_def)
    next
      case True
      then have "s2 = reconcile_off s1" using d by (simp add: call_ok)
      then show ?thesis using assms f b d True jb by (intro body[of s1 still s3]) (simp_all add: run_job_def)
    qed
  qed
qed

text \<open>The operator's reconciliation, which the job switches off, is on again whatever step fails, as
  long as one of the five deferred attempts takes effect; only a job that could not fence leaves
  it as it found it.\<close>

theorem job_restores_operator:
  "case run_job e j s of (err, s') \<Rightarrow>
     if list_ex (\<lambda>i. je_restore e i \<noteq> Refused) [0..<5]
     then cc_reconcile_off s' = (err = Some FenceFailed \<and> cc_reconcile_off s) else True"
proof -
  obtain err s' where r: "run_job e j s = (err, s')" by fastforce
  have "cc_reconcile_off s' = (err = Some FenceFailed \<and> cc_reconcile_off s)"
    if h: "list_ex (\<lambda>i. je_restore e i \<noteq> Refused) [0..<5]"
  proof -
    obtain i where "i < 5" "je_restore e i \<noteq> Refused"
      using h unfolding list_ex_iff by auto
    then have on: "\<not> cc_reconcile_off (restore_reconciliation (je_restore e) 0 5 x)" for x
      by (intro restored exI[of _ i]) simp
    show ?thesis using r
    proof (cases rule: run_job_cases)
      case no_fence
      then show ?thesis
        using fence_frame(2)[of "je_fence_read e" "je_fence_patch e" "oj_target j" s] by simp
    next
      case (no_disable s1 s2)
      then show ?thesis using on by simp
    next
      case (body s1 still s3)
      then show ?thesis using on job_body_spec(1,6)[OF body(2)] by auto
    qed
  qed
  then show ?thesis using r by simp
qed

text \<open>C17: A job that fails after the fence leaves the instance fenced, a job that succeeds leaves it
  fenced exactly if it was asked to, and no other instance's fence changes; a lost answer to the
  last patch is the exception.\<close>

theorem job_fence_contract:
  "if list_all plain_name (oj_target j # fenced_in s)
   then (case run_job e j s of (err, s') \<Rightarrow>
     set (fenced_in s') - {oj_target j} = set (fenced_in s) - {oj_target j} \<and>
     (case err of
        None \<Rightarrow> (oj_target j \<in> set (fenced_in s')) = oj_keep_fenced j
      | Some x \<Rightarrow> if x = FenceFailed \<or> x = UnfenceFailed \<and> je_unfence_patch e = AppliedLost then True
                 else oj_target j \<in> set (fenced_in s')))
   else True"
proof -
  obtain err s' where r: "run_job e j s = (err, s')" by fastforce
  let ?t = "oj_target j"
  have "set (fenced_in s') - {?t} = set (fenced_in s) - {?t} \<and>
     (case err of
        None \<Rightarrow> (?t \<in> set (fenced_in s')) = oj_keep_fenced j
      | Some x \<Rightarrow> if x = FenceFailed \<or> x = UnfenceFailed \<and> je_unfence_patch e = AppliedLost then True
                 else ?t \<in> set (fenced_in s'))"
    if p: "list_all plain_name (?t # fenced_in s)"
    using r
  proof (cases rule: run_job_cases)
    case no_fence
    then have "fenced_in s' = fenced_in s \<or> fenced_in s' = fenced_in s @ [?t]"
      using parse_json_array[of "fenced_in s @ [?t]"] p
      by (cases "je_fence_patch e") (auto simp: fence_def fenced_in_def split: if_splits)
    then show ?thesis using no_fence(2) by auto
  next
    case (no_disable s1 s2)
    have "cc_fenced s2 = cc_fenced s1" using no_disable(2) by (cases "je_disable e") auto
    then have "fenced_in s' = fenced_in s1" using no_disable(4) restore_frame(1) by (simp add: fenced_in_def)
    then show ?thesis using fenced_after[OF p no_disable(1)] no_disable(3) by auto
  next
    case (body s1 still s3)
    note a = fenced_after[OF p body(1)]
    have c: "fenced_in s' = fenced_in s3" using body(3) restore_frame(1) by (simp add: fenced_in_def)
    have same: "fenced_in (reconcile_off s1) = fenced_in s1" by (simp add: fenced_in_def)
    have f3: "fenced_in s3 = parse_fenced (cc_fenced s3)" by (simp add: fenced_in_def)
    have f1: "parse_fenced (cc_fenced (reconcile_off s1)) = fenced_in s1" by (simp add: fenced_in_def)
    have w: "parse_fenced (without_fence ?t (fenced_in (reconcile_off s1))) = filter (\<lambda>f. f \<noteq> ?t) (fenced_in s1)"
      unfolding same by (rule fenced_without[OF a(2)])
    have "fenced_in s3 = fenced_in s1 \<or> fenced_in s3 = filter (\<lambda>f. f \<noteq> ?t) (fenced_in s1)"
      using job_body_fence(3)[OF body(2)] f3 f1 w by metis
    then have "set (fenced_in s3) - {?t} = set (fenced_in s1) - {?t}"
    proof
      assume "fenced_in s3 = filter (\<lambda>f. f \<noteq> ?t) (fenced_in s1)"
      then have "set (fenced_in s3) = {f \<in> set (fenced_in s1). f \<noteq> ?t}" by simp
      then show ?thesis by blast
    qed simp
    then have 1: "set (fenced_in s3) - {?t} = set (fenced_in s) - {?t}" unfolding a(1) by simp
    have 2: "(?t \<in> set (fenced_in s3)) = oj_keep_fenced j" if "err = None"
      using job_body_fence(1)[OF body(2) that] f3 f1 w a(1) by (cases "oj_keep_fenced j") simp_all
    have 3: "?t \<in> set (fenced_in s3)" if "body_error err \<or> err = Some UnfenceFailed \<and> je_unfence_patch e \<noteq> AppliedLost"
    proof -
      have "cc_fenced s3 = cc_fenced (reconcile_off s1)"
        using that job_body_spec(5)[OF body(2)] job_body_fence(2)[OF body(2)] by blast
      then have "fenced_in s3 = fenced_in s1" using f3 f1 by metis
      then show ?thesis using a(1) by simp
    qed
    show ?thesis
    proof (cases err)
      case None
      then show ?thesis using 1 2 c by simp
    next
      case (Some x)
      then show ?thesis using 1 3 c by (simp add: body_error_def)
    qed
  qed
  then show ?thesis using r by simp
qed

lemma job_local:
  assumes "run_job e j s = (err, s')" "v \<noteq> oj_pvc j"
  shows "data_of s' v = data_of s v"
  using assms(1)
proof (cases rule: run_job_cases)
  case no_fence
  then show ?thesis using fence_frame(1)[of "je_fence_read e" "je_fence_patch e" "oj_target j" s] by simp
next
  case (no_disable s1 s2)
  have "data_of s2 = data_of s1" using no_disable(2) by (cases "je_disable e") auto
  then show ?thesis
    using no_disable(1,4) restore_frame(2) fence_frame(1)[of "je_fence_read e" "je_fence_patch e" "oj_target j" s] by simp
next
  case (body s1 still s3)
  then show ?thesis
    using job_body_spec(2)[OF body(2) assms(2)] restore_frame(2)
      fence_frame(1)[of "je_fence_read e" "je_fence_patch e" "oj_target j" s] by simp
qed

lemma job_done:
  assumes "run_job e j s = (err, s')"
  shows "err = None \<or> err = Some UnfenceFailed \<Longrightarrow> data_of s' (oj_pvc j) = oj_done j (oj_start j (data_of s (oj_pvc j)))"
    "untouched_error err \<Longrightarrow> data_of s' = data_of s"
proof -
  note f = fence_frame(1)[of "je_fence_read e" "je_fence_patch e" "oj_target j" s]
  show "data_of s' (oj_pvc j) = oj_done j (oj_start j (data_of s (oj_pvc j)))" if "err = None \<or> err = Some UnfenceFailed"
    using assms
  proof (cases rule: run_job_cases)
    case (body s1 still s3)
    then show ?thesis using job_body_spec(4)[OF body(2) that] restore_frame(2) f by simp
  qed (use that in auto)
  show "data_of s' = data_of s" if "untouched_error err"
    using assms
  proof (cases rule: run_job_cases)
    case (no_disable s1 s2)
    have "data_of s2 = data_of s1" using no_disable(2) by (cases "je_disable e") auto
    then show ?thesis using no_disable(1,4) restore_frame(2) f by simp
  next
    case (body s1 still s3)
    then show ?thesis using job_body_spec(3)[OF body(2) that] restore_frame(2) f by simp
  qed (use f in simp)
qed

text \<open>Fencing an instance and lifting the fence again leaves the annotation's list as it was, in the
  same order, through both passes of the JSON encoding and the parser.\<close>

theorem fence_unfence_roundtrip:
  "if list_all plain_name (p # fenced_in s) \<and> p \<notin> set (fenced_in s)
   then fst (fence True Applied p s) \<and> fenced_in (snd (fence True Applied p s)) = fenced_in s @ [p] \<and>
        fenced_in (snd (unfence True Applied p (snd (fence True Applied p s)))) = fenced_in s
   else True"
proof -
  have "fst (fence True Applied p s) \<and> fenced_in (snd (fence True Applied p s)) = fenced_in s @ [p] \<and>
        fenced_in (snd (unfence True Applied p (snd (fence True Applied p s)))) = fenced_in s"
    if pl: "list_all plain_name (p # fenced_in s)" and new: "p \<notin> set (fenced_in s)"
  proof -
    let ?s = "snd (fence True Applied p s)"
    have all: "list_all plain_name (fenced_in s @ [p])" using pl by simp
    have f: "fst (fence True Applied p s)" "fenced_in ?s = fenced_in s @ [p]"
      using new parse_json_array[OF all] by (simp_all add: fence_def) (simp add: fenced_in_def)
    have "fenced_in (snd (unfence True Applied p ?s)) = parse_fenced (without_fence p (fenced_in ?s))"
      by (simp add: unfence_def) (simp add: fenced_in_def)
    also have "\<dots> = filter (\<lambda>f. f \<noteq> p) (fenced_in s @ [p])" using fenced_without[OF all, of p] f(2) by simp
    also have "\<dots> = fenced_in s" using new by (auto simp: filter_id_conv)
    finally show ?thesis using f by simp
  qed
  then show ?thesis by simp
qed

section \<open>Exclusive ownership\<close>

text \<open>The volume is not waited for: when the first look already sees the helper running, as on the
  node that holds the volume, the instance's pod is never deleted, and the work is done beside it.\<close>

definition beside_env :: job_env where
  "beside_env = \<lparr> je_fence_read = True, je_fence_patch = Applied, je_disable = Applied, je_create = Applied,
     je_view = (\<lambda>_. HelperPhase ''Running'' False), je_delete_target = (\<lambda>_. Applied), je_ran_early = False,
     je_work = Ok (), je_phase = (\<lambda>_. Some ''Succeeded''), je_delete_helper = Applied, je_enable = Applied,
     je_restore = (\<lambda>_. Applied), je_unfence_read = True, je_unfence_patch = Applied \<rparr>"

lemma job_may_run_beside_instance:
  "if oj_driven j
   then case run_job beside_env j s of (err, s') \<Rightarrow>
     err = None \<and> cc_pods s' = cc_pods s \<and> data_of s' (oj_pvc j) = oj_done j (oj_start j (data_of s (oj_pvc j)))
   else True"
proof -
  obtain n where n: "delete_polls (oj_delete_timeout j) = Suc n"
    by (cases "delete_polls (oj_delete_timeout j)") (auto simp: delete_polls_def split: if_splits)
  show ?thesis
    by (simp add: run_job_def beside_env_def fence_def job_body_def n job_work_def hand_back_def unfence_def data_of_def
        cluster_edits Let_def)
qed

end
