(* ===== verification/Repair_Cnpg.thy ===== *)
theory Repair_Cnpg
  imports Repair_Run Repair_Escrow Cnpg_Job
begin

text \<open>
  The CNPG repair's actions (\<open>src/engine/repair\<close>: \<open>cnpg.go\<close>, \<open>cnpg_breaker.go\<close>, \<open>cnpg_preassess.go\<close>,
  \<open>cnpg_promote.go\<close>, \<open>verify.go\<close>): the live primary guard and the reseed of an instance, the restart,
  the deadlock breaker with its escrow, proof and clears, the preparation of a promotion, and
  the wait for the healed instances to stream.
\<close>

section \<open>Configuration and state\<close>

record repair_conf =
  rc_cluster :: string
  rc_instance :: "int option"
  rc_force :: bool
  rc_dry_run :: bool
  rc_promote :: bool
  rc_unwedge :: bool
  rc_delete_timeout :: int
  rc_heal_timeout :: int

record heal_config =
  hc_primary_ip :: string
  hc_uid :: string
  hc_gid :: string
  hc_image :: string
  hc_account :: string

text \<open>\<open>cw_proofs\<close>: the decision records persisted as ConfigMaps, \<open>cw_escrows\<close> the references captured,
  \<open>cw_restarts\<close> the pods deleted for a restart.\<close>

record cnpg_world =
  cw_cluster :: cnpg_cluster
  cw_proofs :: "recovery_proof list"
  cw_escrows :: "escrow_ref list"
  cw_dumps :: "string list"
  cw_restarts :: "string list"
  cw_hcfg :: "heal_config option"

definition pgdata_of :: "cnpg_world \<Rightarrow> string \<Rightarrow> pgdata" where
  "pgdata_of w v = data_of (cw_cluster w) v"

definition with_cluster :: "cnpg_world \<Rightarrow> cnpg_cluster \<Rightarrow> cnpg_world" where
  "with_cluster w s = w\<lparr> cw_cluster := s \<rparr>"

section \<open>Healing one instance\<close>

datatype heal_error =
    PrimaryUnverified string | TargetNowPrimary string | OfflineJob job_error | NeverReady string
  | DeleteFailed string | NoHealConfig

text \<open>The answers to one reseed: the live \<open>status.currentPrimary\<close>, that pod's address when the lookup
  worked and gave one, the job, and the thirty readiness polls.\<close>

record heal_env =
  he_primary :: "(string, string) result"
  he_primary_ip :: "string option"
  he_job :: job_env
  he_ready :: "nat \<Rightarrow> bool"

definition reseed_job :: "repair_conf \<Rightarrow> string \<Rightarrow> string \<Rightarrow> string \<Rightarrow> offline_job" where
  "reseed_job c pod pvc ip = \<lparr> oj_target = pod, oj_pvc = pvc, oj_start = (\<lambda>_. Cleared), oj_done = (\<lambda>_. CloneOf ip),
     oj_driven = False, oj_keep_fenced = False, oj_delete_timeout = rc_delete_timeout c,
     oj_complete_timeout = rc_heal_timeout c \<rparr>"

definition clone_source :: "heal_env \<Rightarrow> heal_config \<Rightarrow> string \<Rightarrow> string" where
  "clone_source e h primary =
     (if primary = '''' then hc_primary_ip h
      else (case he_primary_ip e of Some ip \<Rightarrow> if ip = '''' then hc_primary_ip h else ip | None \<Rightarrow> hc_primary_ip h))"

definition heal_instance ::
  "repair_conf \<Rightarrow> heal_env \<Rightarrow> heal_config \<Rightarrow> string \<Rightarrow> string \<Rightarrow> cnpg_cluster \<Rightarrow> heal_error option \<times> cnpg_cluster" where
  "heal_instance c e h pod pvc s =
     (case he_primary e of
        Inl err \<Rightarrow> (Some (PrimaryUnverified err), s)
      | Inr primary \<Rightarrow>
          if pod = primary then (Some (TargetNowPrimary pod), s)
          else (case run_job (he_job e) (reseed_job c pod pvc (clone_source e h primary)) s of
                  (Some err, s1) \<Rightarrow> (Some (OfflineJob err), s1)
                | (None, s1) \<Rightarrow> (if poll_until (he_ready e) 0 30 then None else Some (NeverReady pod), s1)))"

text \<open>The breaker's clear: the same job without the clone.\<close>

definition clear_job :: "repair_conf \<Rightarrow> string \<Rightarrow> string \<Rightarrow> offline_job" where
  "clear_job c pod pvc = \<lparr> oj_target = pod, oj_pvc = pvc, oj_start = (\<lambda>_. Cleared), oj_done = (\<lambda>_. Cleared),
     oj_driven = False, oj_keep_fenced = False, oj_delete_timeout = rc_delete_timeout c, oj_complete_timeout = 300 \<rparr>"

definition clear_datadir_offline ::
  "repair_conf \<Rightarrow> job_env \<Rightarrow> string \<Rightarrow> string \<Rightarrow> cnpg_cluster \<Rightarrow> job_error option \<times> cnpg_cluster" where
  "clear_datadir_offline c e pod pvc s = run_job e (clear_job c pod pvc) s"

text \<open>The restart: strip a stale connection setting, best effort, and delete the pod.\<close>

datatype delete_answer = PodDeleted | PodNotFound | PodDeleteError string

definition restart_instance :: "delete_answer \<Rightarrow> bool \<Rightarrow> string \<Rightarrow> cnpg_world \<Rightarrow> heal_error option \<times> cnpg_world" where
  "restart_instance d dry pod w =
     (if dry then (None, w)
      else (case d of
              PodDeleteError err \<Rightarrow> (Some (DeleteFailed err), w)
            | _ \<Rightarrow> (None, w\<lparr> cw_cluster := delete_pod pod (cw_cluster w), cw_restarts := pod # cw_restarts w \<rparr>)))"

definition heal_target_step ::
  "repair_conf \<Rightarrow> (string \<Rightarrow> heal_env) \<Rightarrow> (string \<Rightarrow> delete_answer) \<Rightarrow> heal_target \<Rightarrow> cnpg_world
     \<Rightarrow> heal_error option \<times> cnpg_world" where
  "heal_target_step c he del t w =
     (if ht_remediation t = ''restart'' then restart_instance (del (ht_pod t)) (rc_dry_run c) (ht_pod t) w
      else (case cw_hcfg w of
              None \<Rightarrow> (Some NoHealConfig, w)
            | Some h \<Rightarrow> (case heal_instance c (he (ht_pod t)) h (ht_pod t) (ht_pod t) (cw_cluster w) of
                (err, s) \<Rightarrow> (err, with_cluster w s))))"

section \<open>Heal prerequisites\<close>

text \<open>The live view \<open>discoverHealConfigLive\<close> takes; \<open>Assess\<close> additionally wants the pod ready.\<close>

record live_view =
  lv_primary :: "(string, string) result"
  lv_pod :: "(string, string \<times> string) result"
  lv_ready :: bool
  lv_uid :: "string option"
  lv_gid :: "string option"
  lv_image :: string

datatype config_error = NoClusterRead string | NoPrimary | NoPrimaryPod string | PrimaryNotReady

definition id_or_default :: "string option \<Rightarrow> string" where
  "id_or_default out = (case out of Some s \<Rightarrow> trim_space s | None \<Rightarrow> ''26'')"

definition heal_config_of :: "live_view \<Rightarrow> string \<times> string \<Rightarrow> heal_config" where
  "heal_config_of v pod = (case pod of (ip, sa) \<Rightarrow>
     \<lparr> hc_primary_ip = ip, hc_uid = id_or_default (lv_uid v), hc_gid = id_or_default (lv_gid v),
       hc_image = lv_image v, hc_account = sa \<rparr>)"

definition live_heal_config :: "live_view \<Rightarrow> (config_error, heal_config) result" where
  "live_heal_config v =
     (case lv_primary v of
        Inl err \<Rightarrow> Err (NoClusterRead err)
      | Inr p \<Rightarrow>
          if p = '''' then Err NoPrimary
          else (case lv_pod v of Inl err \<Rightarrow> Err (NoPrimaryPod err) | Inr pod \<Rightarrow> Ok (heal_config_of v pod)))"

definition assess_heal_config :: "string \<Rightarrow> live_view \<Rightarrow> (config_error, heal_config) result" where
  "assess_heal_config primary v =
     (if primary = '''' then Err NoPrimary
      else (case lv_pod v of
              Inl err \<Rightarrow> Err (NoPrimaryPod err)
            | Inr pod \<Rightarrow> if \<not> lv_ready v then Err PrimaryNotReady else Ok (heal_config_of v pod)))"

section \<open>The deadlock breaker\<close>

record unwedge_env =
  ue_triage :: "(string, triage_result) result"
  ue_pod_of :: "string \<Rightarrow> pod_read"
  ue_escrow :: escrow_env
  ue_conf :: escrow_conf
  ue_confirm :: "(string, triage_result) result"
  ue_digest :: "string \<Rightarrow> string"
  ue_persist :: outcome
  ue_image :: string
  ue_account :: "string \<Rightarrow> string option"
  ue_clear :: "string \<Rightarrow> job_env"
  ue_unfrozen :: "nat \<Rightarrow> string \<times> bool"
  ue_live :: live_view
  ue_heal :: "string \<Rightarrow> heal_env"

datatype pre_error =
    PreTriage string | PreAmbiguous | PreDiscover string | PreEscrow escrow_error | PreRetriage string | PreDrifted
  | PrePersist | PreNoImage | PreUnauthorized string | PreClear string job_error | PreFrozen
  | PreNoConfig config_error | PreReclone string heal_error | PreNoInstance | PrePromotion promotion_error

datatype pre_answer = PreInert | PreDeferred | PreDone | PreStop | PrePromoted | PreFailed pre_error

definition breakable :: "triage_result \<Rightarrow> recovery option" where
  "breakable t =
     (case tr_recovery t of
        Some r \<Rightarrow> if rec_blocked r \<and> rec_reason r = ''disk_full_disposable_replica'' then Some r else None
      | None \<Rightarrow> None)"

definition capture_escrow :: "escrow_env \<Rightarrow> escrow_conf \<Rightarrow> provider \<Rightarrow> string list \<Rightarrow> (escrow_error, escrow_ref list) result" where
  "capture_escrow e c p pvcs = capture_set (provider_capture e c p) (provider_verify e c p) pvcs"

text \<open>\<open>buildBreakerConfig\<close>: the first pod that names a service account.\<close>

fun breaker_account :: "(string \<Rightarrow> string option) \<Rightarrow> string list \<Rightarrow> string" where
  "breaker_account account [] = ''default''"
| "breaker_account account (p # ps) =
     (case account p of
        Some sa \<Rightarrow> if sa \<noteq> '''' then sa else breaker_account account ps
      | None \<Rightarrow> breaker_account account ps)"

definition breaker_config :: "unwedge_env \<Rightarrow> triage_result \<Rightarrow> (pre_error, heal_config) result" where
  "breaker_config e t =
     (if ue_image e = '''' then Err PreNoImage
      else Ok \<lparr> hc_primary_ip = '''', hc_uid = ''26'', hc_gid = ''26'', hc_image = ue_image e,
                hc_account = breaker_account (ue_account e) (map ia_pod (tr_assessments t)) \<rparr>)"

definition clear_step ::
  "repair_conf \<Rightarrow> unwedge_env \<Rightarrow> recovery_proof \<Rightarrow> string \<Rightarrow> cnpg_world \<Rightarrow> pre_error option \<times> cnpg_world" where
  "clear_step c e p i w =
     (if \<not> authorizes_clear p i then (Some (PreUnauthorized i), w)
      else (case clear_datadir_offline c (ue_clear e i) i i (cw_cluster w) of
              (err, s) \<Rightarrow> (map_option (PreClear i) err, with_cluster w s)))"

definition reclone_step ::
  "repair_conf \<Rightarrow> unwedge_env \<Rightarrow> heal_config \<Rightarrow> string \<Rightarrow> cnpg_world \<Rightarrow> pre_error option \<times> cnpg_world" where
  "reclone_step c e h i w =
     (case heal_instance c (ue_heal e i) h i i (cw_cluster w) of
        (err, s) \<Rightarrow> (map_option (PreReclone i) err, with_cluster w s))"

definition wait_unfrozen :: "(nat \<Rightarrow> string \<times> bool) \<Rightarrow> bool" where
  "wait_unfrozen view =
     poll_until (\<lambda>i. case view i of (phase, ready) \<Rightarrow> \<not> str_contains (to_lower phase) ''disk space'' \<and> ready) 0 60"

text \<open>Steps 6 to 8, behind a valid and persisted proof.\<close>

definition break_deadlock ::
  "repair_conf \<Rightarrow> unwedge_env \<Rightarrow> recovery_proof \<Rightarrow> triage_result \<Rightarrow> cnpg_world \<Rightarrow> pre_answer \<times> cnpg_world" where
  "break_deadlock c e p confirm w =
     (case breaker_config e confirm of
        Inl err \<Rightarrow> (PreFailed err, w)
      | Inr _ \<Rightarrow>
          (case run_each (clear_step c e p) (rp_disposable p) w of
             (Some err, w1) \<Rightarrow> (PreFailed err, w1)
           | (None, w1) \<Rightarrow>
               if \<not> wait_unfrozen (ue_unfrozen e) then (PreFailed PreFrozen, w1)
               else (case live_heal_config (ue_live e) of
                       Inl err \<Rightarrow> (PreFailed (PreNoConfig err), w1)
                     | Inr h \<Rightarrow> (case run_each (reclone_step c e h) (rp_disposable p) w1 of
                         (Some err, w2) \<Rightarrow> (PreFailed err, w2)
                       | (None, w2) \<Rightarrow> (PreDone, w2)))))"

definition unwedge_proof :: "unwedge_env \<Rightarrow> recovery \<Rightarrow> triage_result \<Rightarrow> recovery_proof" where
  "unwedge_proof e r confirm =
     \<lparr> rp_hash = hash_assessment (ue_digest e) (Some confirm), rp_authority = rec_authority r,
       rp_disposable = rec_disposable r, rp_escrow_verified = True \<rparr>"

definition persist_proof :: "recovery_proof \<Rightarrow> cnpg_world \<Rightarrow> cnpg_world" where
  "persist_proof p w = w\<lparr> cw_proofs := p # cw_proofs w \<rparr>"

text \<open>Steps 3 to 5: capture, re-triage, prove, persist.\<close>

definition prove_and_break ::
  "repair_conf \<Rightarrow> unwedge_env \<Rightarrow> recovery \<Rightarrow> provider \<Rightarrow> string list \<Rightarrow> cnpg_world \<Rightarrow> pre_answer \<times> cnpg_world" where
  "prove_and_break c e r p pvcs w =
     (case capture_escrow (ue_escrow e) (ue_conf e) p pvcs of
        Inl err \<Rightarrow> (PreFailed (PreEscrow err), w)
      | Inr refs \<Rightarrow>
          (let w1 = w\<lparr> cw_escrows := refs @ cw_escrows w \<rparr> in
           case ue_confirm e of
             Inl err \<Rightarrow> (PreFailed (PreRetriage err), w1)
           | Inr confirm \<Rightarrow>
               (let proof = unwedge_proof e r confirm in
                if \<not> proof_valid (ue_digest e) proof (Some confirm) then (PreFailed PreDrifted, w1)
                else (case call (ue_persist e) (persist_proof proof) w1 of
                        (False, w2) \<Rightarrow> (PreFailed PrePersist, w2)
                      | (True, w2) \<Rightarrow> break_deadlock c e proof confirm w2))))"

definition unwedge :: "repair_conf \<Rightarrow> unwedge_env \<Rightarrow> cnpg_world \<Rightarrow> pre_answer \<times> cnpg_world" where
  "unwedge c e w =
     (case ue_triage e of
        Inl err \<Rightarrow> (PreFailed (PreTriage err), w)
      | Inr t \<Rightarrow>
          (case breakable t of
             None \<Rightarrow> (PreDeferred, w)
           | Some r \<Rightarrow>
               if tr_authority_status t \<noteq> ''unambiguous'' \<or> rec_authority r = '''' \<or> rec_disposable r = []
               then (PreFailed PreAmbiguous, w)
               else (case discover_pvcs id (ue_pod_of e) (rec_set r) [] of
                       Inl err \<Rightarrow> (PreFailed (PreDiscover err), w)
                     | Inr pvcs \<Rightarrow>
                         (case prepare (ue_escrow e) (ue_conf e) pvcs
                                 (used_bytes_by_pvc (tr_assessments t) (rec_set r)) of
                            Inl err \<Rightarrow> (PreFailed (PreEscrow err), w)
                          | Inr p \<Rightarrow>
                              if rc_dry_run c then (PreStop, w) else prove_and_break c e r p pvcs w))))"

section \<open>Preparing a promotion\<close>

definition promotion_proof :: "unwedge_env \<Rightarrow> triage_result \<Rightarrow> promotion_plan \<Rightarrow> recovery_proof" where
  "promotion_proof e t plan =
     \<lparr> rp_hash = hash_assessment (ue_digest e) (Some t), rp_authority = pp_authority plan,
       rp_disposable = pp_rebuild plan, rp_escrow_verified = True \<rparr>"

definition promote_prepare :: "repair_conf \<Rightarrow> unwedge_env \<Rightarrow> cnpg_world \<Rightarrow> pre_answer \<times> cnpg_world" where
  "promote_prepare c e w =
     (case rc_instance c of
        None \<Rightarrow> (PreFailed PreNoInstance, w)
      | Some n \<Rightarrow>
          (case ue_triage e of
             Inl err \<Rightarrow> (PreFailed (PreTriage err), w)
           | Inr t \<Rightarrow>
               (case plan_promotion t n (rc_force c) of
                  Inl err \<Rightarrow> (PreFailed (PrePromotion err), w)
                | Inr plan \<Rightarrow>
                    (case discover_pvcs id (ue_pod_of e) (pp_set plan) [] of
                       Inl err \<Rightarrow> (PreFailed (PreDiscover err), w)
                     | Inr pvcs \<Rightarrow>
                         (case prepare (ue_escrow e) (ue_conf e) pvcs (used_bytes_by_pvc (tr_assessments t) (pp_set plan)) of
                            Inl err \<Rightarrow> (PreFailed (PreEscrow err), w)
                          | Inr p \<Rightarrow>
                              if rc_dry_run c then (PreStop, w)
                              else (case capture_escrow (ue_escrow e) (ue_conf e) p pvcs of
                                      Inl err \<Rightarrow> (PreFailed (PreEscrow err), w)
                                    | Inr refs \<Rightarrow>
                                        (case call (ue_persist e) (persist_proof (promotion_proof e t plan))
                                                (w\<lparr> cw_escrows := refs @ cw_escrows w \<rparr>) of
                                           (False, w1) \<Rightarrow> (PreFailed PrePersist, w1)
                                         | (True, w1) \<Rightarrow> (PrePromoted, w1))))))))"

definition pre_assess :: "repair_conf \<Rightarrow> unwedge_env \<Rightarrow> cnpg_world \<Rightarrow> pre_answer \<times> cnpg_world" where
  "pre_assess c e w =
     (if rc_promote c then promote_prepare c e w
      else if \<not> rc_unwedge c then (PreInert, w)
      else unwedge c e w)"

section \<open>What a step touches\<close>

lemma heal_local:
  "v \<noteq> pvc \<Longrightarrow> data_of (snd (heal_instance c e h pod pvc s)) v = data_of s v"
proof -
  assume v: "v \<noteq> pvc"
  have "data_of s' v = data_of s v" if "run_job je (reseed_job c pod pvc ip) s = (err, s')" for je ip err s'
    using job_local[OF that, of v] v by (simp add: reseed_job_def)
  then show ?thesis by (auto simp: heal_instance_def split: sum.split prod.split option.split)
qed

lemma clear_local: "v \<noteq> pvc \<Longrightarrow> data_of (snd (clear_datadir_offline c e pod pvc s)) v = data_of s v"
proof -
  assume v: "v \<noteq> pvc"
  obtain err s' where r: "run_job e (clear_job c pod pvc) s = (err, s')" by fastforce
  show ?thesis using job_local[OF r, of v] v r by (simp add: clear_datadir_offline_def clear_job_def)
qed

lemma world_frames [simp]:
  "cw_cluster (with_cluster w s) = s" "cw_proofs (with_cluster w s) = cw_proofs w" "cw_escrows (with_cluster w s) = cw_escrows w"
  "cw_cluster (persist_proof p w) = cw_cluster w" "cw_escrows (persist_proof p w) = cw_escrows w"
  by (simp_all add: with_cluster_def persist_proof_def)

lemma clear_step_frame:
  "cw_proofs (snd (clear_step c e p i w)) = cw_proofs w" "cw_escrows (snd (clear_step c e p i w)) = cw_escrows w"
  "v \<noteq> i \<or> \<not> authorizes_clear p i \<Longrightarrow> pgdata_of (snd (clear_step c e p i w)) v = pgdata_of w v"
  by (auto simp: clear_step_def pgdata_of_def clear_local split: prod.split)
    (metis clear_local snd_conv)+

lemma reclone_step_frame:
  "cw_proofs (snd (reclone_step c e h i w)) = cw_proofs w" "cw_escrows (snd (reclone_step c e h i w)) = cw_escrows w"
  "v \<noteq> i \<Longrightarrow> pgdata_of (snd (reclone_step c e h i w)) v = pgdata_of w v"
  by (auto simp: reclone_step_def pgdata_of_def split: prod.split) (metis heal_local snd_conv)

lemma clear_step_authorized: "fst (clear_step c e p i w) = None \<Longrightarrow> authorizes_clear p i"
  by (auto simp: clear_step_def split: if_splits)

lemma break_deadlock_frame:
  "cw_proofs (snd (break_deadlock c e p t w)) = cw_proofs w" "cw_escrows (snd (break_deadlock c e p t w)) = cw_escrows w"
  "v \<notin> set (rp_disposable p) \<or> v = rp_authority p \<Longrightarrow> pgdata_of (snd (break_deadlock c e p t w)) v = pgdata_of w v"
proof -
  obtain ce w1 where c: "run_each (clear_step c e p) (rp_disposable p) w = (ce, w1)" by fastforce
  have k: "cw_proofs w1 = cw_proofs w" "cw_escrows w1 = cw_escrows w"
    using run_each_keeps[where g = cw_proofs and f = "clear_step c e p" and xs = "rp_disposable p" and s = w]
      run_each_keeps[where g = cw_escrows and f = "clear_step c e p" and xs = "rp_disposable p" and s = w]
      clear_step_frame(1,2) c by simp_all
  have "cw_proofs (snd (run_each (reclone_step c e h) xs w1)) = cw_proofs w1"
    "cw_escrows (snd (run_each (reclone_step c e h) xs w1)) = cw_escrows w1" for h xs
    using run_each_keeps[where g = cw_proofs] run_each_keeps[where g = cw_escrows] reclone_step_frame(1,2) by metis+
  note r = this
  show "cw_proofs (snd (break_deadlock c e p t w)) = cw_proofs w" "cw_escrows (snd (break_deadlock c e p t w)) = cw_escrows w"
    using c k r by (auto simp: break_deadlock_def split: sum.split option.split prod.split) (metis snd_conv)+
  assume v: "v \<notin> set (rp_disposable p) \<or> v = rp_authority p"
  have step: "pgdata_of (snd (clear_step c e p i w)) v = pgdata_of w v" if "i \<in> set (rp_disposable p)" for i w
    using clear_step_frame(3)[of v i p c e w] that v authorized_not_authority[of p i] by blast
  have d1: "pgdata_of w1 v = pgdata_of w v"
    using run_each_keeps[where g = "\<lambda>w. pgdata_of w v" and f = "clear_step c e p", OF step, of "rp_disposable p" w] c by simp
  have d2: "pgdata_of (snd (run_each (reclone_step c e h) (rp_disposable p) w1)) v = pgdata_of w1 v" if "ce = None" for h
  proof (rule run_each_keeps[where g = "\<lambda>w. pgdata_of w v"])
    fix i w assume i: "i \<in> set (rp_disposable p)"
    have "authorizes_clear p i" using run_each_done[OF c[unfolded that] i] clear_step_authorized by blast
    then have "v \<noteq> i" using v i authorized_not_authority by blast
    then show "pgdata_of (snd (reclone_step c e h i w)) v = pgdata_of w v" by (rule reclone_step_frame(3))
  qed
  show "pgdata_of (snd (break_deadlock c e p t w)) v = pgdata_of w v"
    using c d1 d2 by (auto simp: break_deadlock_def split: sum.split option.split prod.split) (metis snd_conv)+
qed

section \<open>The breaker clears reversibly\<close>

text \<open>What has happened by the time the breaker may have touched a data directory: the claims in escrow are
  those named after an instance of the recovery set and those its pod mounts, every such pod having been read.\<close>

definition reversibly_cleared :: "unwedge_env \<Rightarrow> cnpg_world \<Rightarrow> string \<Rightarrow> cnpg_world \<Rightarrow> bool" where
  "reversibly_cleared e w v w' \<longleftrightarrow>
     (\<exists>t r refs p. ue_triage e = Ok t \<and> breakable t = Some r \<and> tr_authority_status t = ''unambiguous'' \<and>
        v \<in> set (rec_disposable r) \<and> v \<noteq> rec_authority r \<and>
        cw_escrows w' = refs @ cw_escrows w \<and> list_all (proven (ue_escrow e) (ue_conf e)) refs \<and>
        list_all (\<lambda>i. \<not> read_failed (ue_pod_of e i)) (rec_set r) \<and>
        set (map er_pvc refs) = (\<Union>i\<in>set (rec_set r). insert i (set (claims_of (ue_pod_of e) i))) - {''''} \<and>
        cw_proofs w' = p # cw_proofs w \<and> rp_authority p = rec_authority r \<and> rp_disposable p = rec_disposable r)"

lemma prove_and_break_changes:
  assumes "pgdata_of (snd (prove_and_break c e r p pvcs w)) v \<noteq> pgdata_of w v"
  obtains refs q where "capture_escrow (ue_escrow e) (ue_conf e) p pvcs = Ok refs"
    "cw_escrows (snd (prove_and_break c e r p pvcs w)) = refs @ cw_escrows w"
    "cw_proofs (snd (prove_and_break c e r p pvcs w)) = q # cw_proofs w"
    "rp_authority q = rec_authority r" "rp_disposable q = rec_disposable r"
    "v \<in> set (rec_disposable r)" "v \<noteq> rec_authority r"
proof -
  obtain refs where c: "capture_escrow (ue_escrow e) (ue_conf e) p pvcs = Ok refs"
    using assms by (auto simp: prove_and_break_def split: sum.splits)
  let ?w1 = "w\<lparr> cw_escrows := refs @ cw_escrows w \<rparr>"
  obtain t where t: "ue_confirm e = Ok t"
    using assms c by (auto simp: prove_and_break_def pgdata_of_def Let_def split: sum.splits)
  let ?q = "unwedge_proof e r t"
  obtain b w2 where s: "call (ue_persist e) (persist_proof ?q) ?w1 = (b, w2)" by fastforce
  have d: "pgdata_of w2 v = pgdata_of w v" using s by (cases "ue_persist e") (auto simp: pgdata_of_def)
  have pv: "proof_valid (ue_digest e) ?q (Some t)"
    using assms c t by (auto simp: prove_and_break_def pgdata_of_def Let_def split: if_splits)
  have b: "b"
  proof (rule ccontr)
    assume "\<not> b"
    then show False using assms c t s d pv by (simp add: prove_and_break_def Let_def)
  qed
  then have w2: "w2 = persist_proof ?q ?w1" using s by (simp add: call_ok)
  have eq: "snd (prove_and_break c e r p pvcs w) = snd (break_deadlock c e ?q t w2)"
    using c t s b pv by (simp add: prove_and_break_def Let_def)
  have "v \<in> set (rp_disposable ?q) \<and> v \<noteq> rp_authority ?q"
    using assms eq d break_deadlock_frame(3)[of v ?q c e t w2] by metis
  then show ?thesis
    using that[OF c, of ?q] eq break_deadlock_frame(1,2)[of c e ?q t w2] w2
    by (simp add: unwedge_proof_def persist_proof_def)
qed

lemma pre_assess_changes:
  assumes ch: "pgdata_of (snd (pre_assess c e w)) v \<noteq> pgdata_of w v"
  shows "rc_unwedge c \<and> \<not> rc_promote c \<and> \<not> rc_dry_run c \<and> reversibly_cleared e w v (snd (pre_assess c e w))"
proof -
  have promote: "pgdata_of (snd (promote_prepare c e w)) v = pgdata_of w v"
    by (cases "ue_persist e")
      (auto simp: promote_prepare_def pgdata_of_def persist_proof_def split: option.split sum.split)
  have f: "rc_unwedge c" "\<not> rc_promote c" "pre_assess c e w = unwedge c e w"
    using ch promote by (auto simp: pre_assess_def split: if_splits)
  obtain t where t: "ue_triage e = Ok t" using ch f by (auto simp: unwedge_def split: sum.splits)
  obtain r where r: "breakable t = Some r" using ch f t by (auto simp: unwedge_def split: option.splits)
  have st: "tr_authority_status t = ''unambiguous''" using ch f t r by (auto simp: unwedge_def split: if_splits)
  obtain pvcs where d: "discover_pvcs id (ue_pod_of e) (rec_set r) [] = Ok pvcs"
    using ch f t r by (auto simp: unwedge_def split: if_splits sum.splits)
  obtain p where p: "prepare (ue_escrow e) (ue_conf e) pvcs (used_bytes_by_pvc (tr_assessments t) (rec_set r)) = Ok p"
    using ch f t r d by (auto simp: unwedge_def split: if_splits sum.splits)
  have nd: "\<not> rc_dry_run c" using ch f t r d p by (auto simp: unwedge_def split: if_splits)
  have eq: "pre_assess c e w = prove_and_break c e r p pvcs w"
    using ch f t r d p nd by (auto simp: unwedge_def split: if_splits)
  show ?thesis
  proof (rule prove_and_break_changes[OF ch[unfolded eq]])
    fix refs q
    assume a: "capture_escrow (ue_escrow e) (ue_conf e) p pvcs = Ok refs"
      "cw_escrows (snd (prove_and_break c e r p pvcs w)) = refs @ cw_escrows w"
      "cw_proofs (snd (prove_and_break c e r p pvcs w)) = q # cw_proofs w"
      "rp_authority q = rec_authority r" "rp_disposable q = rec_disposable r"
      "v \<in> set (rec_disposable r)" "v \<noteq> rec_authority r"
    have "map er_pvc refs = pvcs \<and> list_all (proven (ue_escrow e) (ue_conf e)) refs"
      using capture_proves a(1) by (simp add: capture_escrow_def)
    moreover have "set pvcs = (\<Union>i\<in>set (rec_set r). insert i (set (claims_of (ue_pod_of e) i))) - {''''}"
      "list_all (\<lambda>i. \<not> read_failed (ue_pod_of e i)) (rec_set r)"
      using discover_spec[OF d] by auto
    ultimately have "reversibly_cleared e w v (snd (prove_and_break c e r p pvcs w))"
      unfolding reversibly_cleared_def
      by (intro exI[of _ t] exI[of _ r] exI[of _ refs] exI[of _ q]) (use t r st a in simp)
    then show ?thesis using f nd eq by simp
  qed
qed

text \<open>C14: The pre-assessment changes a data directory only of an instance that triage found disposable
  in a breakable deadlock with an unambiguous authority other than it, never in a preview or
  without the flag, and by then the claims of the recovery set, those named after its instances
  and those their pods mount, each have a proven escrow and the decision is on record.\<close>

theorem breaker_clears_reversibly:
  "if pgdata_of (snd (pre_assess c e w)) v \<noteq> pgdata_of w v
   then rc_unwedge c \<and> \<not> rc_promote c \<and> \<not> rc_dry_run c \<and> reversibly_cleared e w v (snd (pre_assess c e w))
   else True"
  using pre_assess_changes by simp

definition same_cluster :: "cnpg_world \<Rightarrow> cnpg_world \<Rightarrow> bool" where
  "same_cluster a b \<longleftrightarrow> cw_cluster a = cw_cluster b"

lemma run_each_sim:
  assumes "\<And>x s s'. R s s' \<Longrightarrow> fst (f x s) = fst (g x s') \<and> R (snd (f x s)) (snd (g x s'))" "R s s'"
  shows "fst (run_each f xs s) = fst (run_each g xs s') \<and> R (snd (run_each f xs s)) (snd (run_each g xs s'))"
  using assms(2)
proof (induction xs arbitrary: s s')
  case (Cons x xs)
  obtain a s1 where f: "f x s = (a, s1)" by fastforce
  obtain b s2 where g: "g x s' = (b, s2)" by fastforce
  have e: "a = b" "R s1 s2" using assms(1)[OF Cons.prems, of x] f g by simp_all
  show ?case using f g e Cons.IH[OF e(2)] by (cases b) simp_all
qed simp

lemma clear_step_sim:
  assumes "same_cluster a b" "ue_clear e = ue_clear e'" "rp_authority p = rp_authority p'" "rp_disposable p = rp_disposable p'"
  shows "fst (clear_step c e p i a) = fst (clear_step c e' p' i b) \<and> same_cluster (snd (clear_step c e p i a)) (snd (clear_step c e' p' i b))"
  using assms by (auto simp: clear_step_def same_cluster_def authorizes_clear_def split: prod.split)

lemma reclone_step_sim:
  assumes "same_cluster a b" "ue_heal e = ue_heal e'"
  shows "fst (reclone_step c e h i a) = fst (reclone_step c e' h i b) \<and> same_cluster (snd (reclone_step c e h i a)) (snd (reclone_step c e' h i b))"
  using assms by (auto simp: reclone_step_def same_cluster_def split: prod.split)

lemma break_deadlock_sim:
  assumes s: "same_cluster a b" and p: "rp_authority p = rp_authority p'" "rp_disposable p = rp_disposable p'"
  shows "fst (break_deadlock c e p t a) = fst (break_deadlock c (e\<lparr> ue_confirm := z \<rparr>) p' t' b) \<and>
    same_cluster (snd (break_deadlock c e p t a)) (snd (break_deadlock c (e\<lparr> ue_confirm := z \<rparr>) p' t' b))"
proof -
  let ?e = "e\<lparr> ue_confirm := z \<rparr>"
  obtain x a1 where 1: "run_each (clear_step c e p) (rp_disposable p) a = (x, a1)" by fastforce
  obtain y b1 where 2: "run_each (clear_step c ?e p') (rp_disposable p') b = (y, b1)" by fastforce
  have xy: "x = y" "same_cluster a1 b1"
    using run_each_sim[where R = same_cluster and f = "clear_step c e p" and g = "clear_step c ?e p'", OF _ s, of "rp_disposable p"]
      clear_step_sim[where e = e and e' = ?e and p = p and p' = p'] p 1 2 by auto
  have r: "fst (run_each (reclone_step c e h) xs a1) = fst (run_each (reclone_step c ?e h) xs b1) \<and>
      same_cluster (snd (run_each (reclone_step c e h) xs a1)) (snd (run_each (reclone_step c ?e h) xs b1))" for h xs
    by (rule run_each_sim[where R = same_cluster, OF _ xy(2)]) (rule reclone_step_sim, simp_all)
  show ?thesis
  proof (cases "ue_image e = ''''")
    case True
    then show ?thesis using s by (simp add: break_deadlock_def breaker_config_def)
  next
    case False
    show ?thesis
    proof (cases x)
      case (Some err)
      then show ?thesis using False 1 2 xy by (simp add: break_deadlock_def breaker_config_def)
    next
      case None
      show ?thesis
      proof (cases "live_heal_config (ue_live e)")
        case (Inl err)
        then show ?thesis using False 1 2 xy None by (simp add: break_deadlock_def breaker_config_def)
      next
        case (Inr h)
        obtain u a2 where 3: "run_each (reclone_step c e h) (rp_disposable p) a1 = (u, a2)" by fastforce
        obtain v b2 where 4: "run_each (reclone_step c ?e h) (rp_disposable p') b1 = (v, b2)" by fastforce
        have "u = v" "same_cluster a2 b2" using r[of h "rp_disposable p"] 3 4 p by simp_all
        then show ?thesis using False 1 2 xy None Inr 3 4
          by (simp add: break_deadlock_def breaker_config_def split: option.split)
      qed
    qed
  qed
qed

text \<open>The triage repeated after the escrow decides nothing: two runs that differ only in what it
  answers, even in which instance it finds the authority, end alike and clear the same data
  directories.\<close>

theorem retriage_is_ignored:
  "if ue_digest e (assessment_text t1) \<noteq> '''' \<and> ue_digest e (assessment_text t2) \<noteq> ''''
   then fst (pre_assess c (e\<lparr> ue_confirm := Ok t1 \<rparr>) w) = fst (pre_assess c (e\<lparr> ue_confirm := Ok t2 \<rparr>) w) \<and>
        cw_cluster (snd (pre_assess c (e\<lparr> ue_confirm := Ok t1 \<rparr>) w)) =
        cw_cluster (snd (pre_assess c (e\<lparr> ue_confirm := Ok t2 \<rparr>) w))
   else True"
proof -
  let ?a = "e\<lparr> ue_confirm := Ok t1 \<rparr>" and ?b = "e\<lparr> ue_confirm := Ok t2 \<rparr>"
  have sim: "fst (prove_and_break c ?a r p pvcs w) = fst (prove_and_break c ?b r p pvcs w) \<and>
      cw_cluster (snd (prove_and_break c ?a r p pvcs w)) = cw_cluster (snd (prove_and_break c ?b r p pvcs w))"
    if d: "ue_digest e (assessment_text t1) \<noteq> ''''" "ue_digest e (assessment_text t2) \<noteq> ''''" for r p pvcs
  proof (cases "capture_escrow (ue_escrow e) (ue_conf e) p pvcs")
    case (Inl err)
    then show ?thesis by (simp add: prove_and_break_def)
  next
    case (Inr refs)
    let ?w = "w\<lparr> cw_escrows := refs @ cw_escrows w \<rparr>"
    have v: "proof_valid (ue_digest e) (unwedge_proof ?a r t1) (Some t1) = proof_valid (ue_digest e) (unwedge_proof ?b r t2) (Some t2)"
      using d by (simp add: own_snapshot_always_valid unwedge_proof_def)
    have "fst (break_deadlock c ?a (unwedge_proof ?a r t1) t1 (persist_proof (unwedge_proof ?a r t1) ?w)) =
        fst (break_deadlock c ?b (unwedge_proof ?b r t2) t2 (persist_proof (unwedge_proof ?b r t2) ?w)) \<and>
      same_cluster (snd (break_deadlock c ?a (unwedge_proof ?a r t1) t1 (persist_proof (unwedge_proof ?a r t1) ?w)))
        (snd (break_deadlock c ?b (unwedge_proof ?b r t2) t2 (persist_proof (unwedge_proof ?b r t2) ?w)))"
      using break_deadlock_sim[of "persist_proof (unwedge_proof ?a r t1) ?w" "persist_proof (unwedge_proof ?b r t2) ?w"
          "unwedge_proof ?a r t1" "unwedge_proof ?b r t2" c ?a t1 "Ok t2" t2]
      by (simp add: same_cluster_def unwedge_proof_def persist_proof_def)
    then show ?thesis
      using Inr v by (cases "ue_persist e") (simp_all add: prove_and_break_def Let_def same_cluster_def)
  qed
  show ?thesis using sim by (auto simp: pre_assess_def unwedge_def promote_prepare_def promotion_proof_def split: option.split sum.split)
qed

section \<open>Verification of the healed instances\<close>

text \<open>The rows of \<open>pg_stat_replication\<close> that stream, and one attempt of \<open>VerifyRecovery\<close>: the current
  primary, then the query on it.\<close>

definition streaming_standbys :: "string \<Rightarrow> string list" where
  "streaming_standbys out = filter (\<lambda>n. n \<noteq> '''') (map trim_space (split_lines (trim_space out)))"

definition stream_probe ::
  "string list \<Rightarrow> (string, string \<times> (string, string) result) result \<Rightarrow> (string, string list) result" where
  "stream_probe healed view =
     (case view of
        Inl err \<Rightarrow> Err (''cannot resolve the current primary: '' @ err)
      | Inr (p, q) \<Rightarrow>
          if p = '''' then Err ''cluster reports no currentPrimary''
          else (case q of
                  Inl err \<Rightarrow> Err (''querying pg_stat_replication on primary '' @ p @ '': '' @ err)
                | Inr out \<Rightarrow> Ok (filter (\<lambda>pod. pod \<noteq> p \<and> pod \<notin> set (streaming_standbys out)) healed)))"

definition verify_cnpg_timeout :: int where "verify_cnpg_timeout = 120 * nanos"

datatype verify_failure = VerifyUnreadable string | NotStreaming "string list" | VerifyForever

record verify_env =
  ve_start :: int
  ve_clock :: "nat \<Rightarrow> int"
  ve_cancelled :: "nat \<Rightarrow> string option"
  ve_view :: "nat \<Rightarrow> (string, string \<times> (string, string) result) result"

definition verify_recovery :: "verify_env \<Rightarrow> string list \<Rightarrow> verify_failure option" where
  "verify_recovery e healed =
     (if healed = [] then None
      else (case await_recovery (\<lambda>i. stream_probe healed (ve_view e i)) (ve_clock e) (ve_cancelled e)
                    (ve_start e + verify_cnpg_timeout) verify_interval 0 [] None of
              None \<Rightarrow> Some VerifyForever
            | Some ([], Some err) \<Rightarrow> Some (VerifyUnreadable err)
            | Some ([], None) \<Rightarrow> None
            | Some (p # ps, _) \<Rightarrow> Some (NotStreaming (p # ps))))"

section \<open>The CNPG engine\<close>

record cnpg_repair_env =
  ce_conf :: repair_conf
  ce_lock :: "string option"
  ce_pre :: unwedge_env
  ce_triage :: "(string, triage_result) result"
  ce_primary :: string
  ce_view :: live_view
  ce_escrow :: repair_escrow_env
  ce_claim :: "(string, unit) result"
  ce_heal :: "string \<Rightarrow> heal_env"
  ce_delete :: "string \<Rightarrow> delete_answer"
  ce_post :: "triage_result option"
  ce_verify :: verify_env

datatype cnpg_error =
    CnpgLock string | CnpgPre pre_error | CnpgTriage string | CnpgConfig config_error | CnpgEscrow repair_escrow_error
  | CnpgPlan plan_error | CnpgHeal heal_error | CnpgVerify verify_failure

fun pre_result_of :: "pre_answer \<Rightarrow> cnpg_error pre_result" where
  "pre_result_of PreInert = PreGoOn"
| "pre_result_of PreDeferred = PreGoOn"
| "pre_result_of PreDone = PreGoOn"
| "pre_result_of PreStop = PreCleanStop"
| "pre_result_of PrePromoted = PreCleanStop"
| "pre_result_of (PreFailed err) = PreError (CnpgPre err)"

definition cnpg_assess :: "cnpg_repair_env \<Rightarrow> cnpg_world \<Rightarrow> (cnpg_error, triage_result) result \<times> cnpg_world" where
  "cnpg_assess e w =
     (case ce_triage e of
        Inl err \<Rightarrow> (Err (CnpgTriage err), w)
      | Inr t \<Rightarrow> (case assess_heal_config (ce_primary e) (ce_view e) of
          Inl err \<Rightarrow> (Err (CnpgConfig err), w)
        | Inr h \<Rightarrow> (Ok t, w\<lparr> cw_hcfg := Some h \<rparr>)))"

definition cnpg_escrow :: "cnpg_repair_env \<Rightarrow> triage_result \<Rightarrow> cnpg_world \<Rightarrow> cnpg_error option \<times> cnpg_world" where
  "cnpg_escrow e t w =
     (case run_escrow (ce_escrow e) t (ce_primary e) of
        Inl err \<Rightarrow> (Some (CnpgEscrow err), w)
      | Inr c \<Rightarrow> (None, w\<lparr> cw_escrows := dc_refs c @ cw_escrows w, cw_dumps := map snd (dc_pods c) @ cw_dumps w \<rparr>))"

definition cnpg_plan_hook :: "cnpg_repair_env \<Rightarrow> triage_result \<Rightarrow> (cnpg_error, heal_target list) result" where
  "cnpg_plan_hook e t =
     (case cnpg_plan (rc_cluster (ce_conf e)) (rc_instance (ce_conf e)) (rc_force (ce_conf e)) (ce_primary e) (ce_claim e) t of
        Inl err \<Rightarrow> Err (CnpgPlan err) | Inr ts \<Rightarrow> Ok ts)"

definition cnpg_repairer :: "cnpg_repair_env \<Rightarrow> (cnpg_world, cnpg_error) repairer" where
  "cnpg_repairer e = \<lparr> hk_name = ''cnpg'', hk_dry_run = rc_dry_run (ce_conf e),
     hk_lock = (\<lambda>w. (map_option CnpgLock (ce_lock e), w)), hk_release = (\<lambda>w. w), hk_cleanup = (\<lambda>w. w),
     hk_pre = (\<lambda>w. case pre_assess (ce_conf e) (ce_pre e) w of (a, w') \<Rightarrow> (pre_result_of a, w')),
     hk_assess = cnpg_assess e, hk_gate = (\<lambda>t w. (None, w)), hk_escrow = cnpg_escrow e,
     hk_plan = (\<lambda>t w. cnpg_plan_hook e t),
     hk_heal = (\<lambda>t w. case heal_target_step (ce_conf e) (ce_heal e) (ce_delete e) t w of (err, w') \<Rightarrow> (map_option CnpgHeal err, w')),
     hk_stabilize = (\<lambda>w. w), hk_reassess = (\<lambda>w. (ce_post e, w)),
     hk_verify = (\<lambda>hs w. (map_option CnpgVerify (verify_recovery (ce_verify e) hs), w)) \<rparr>"

text \<open>The claims a target's heal may change: its own, when the remedy is a reseed and the live primary
  was read and is another instance.\<close>

definition reseeded_claims :: "cnpg_repair_env \<Rightarrow> heal_target \<Rightarrow> string set" where
  "reseeded_claims e t =
     (if ht_remediation t = ''restart'' then {}
      else (case he_primary (ce_heal e (ht_pod t)) of
              Inl _ \<Rightarrow> {} | Inr p \<Rightarrow> if ht_pod t = p then {} else {ht_pod t}))"

lemma reseeded_iff:
  "v \<in> reseeded_claims e t \<longleftrightarrow>
     ht_pod t = v \<and> ht_remediation t \<noteq> ''restart'' \<and> (\<exists>q. he_primary (ce_heal e v) = Ok q \<and> q \<noteq> v)"
  by (cases "he_primary (ce_heal e (ht_pod t))") (auto simp: reseeded_claims_def)

lemma restart_data: "pgdata_of (snd (restart_instance d dry p w)) = pgdata_of w"
  by (auto simp: restart_instance_def pgdata_of_def fun_eq_iff split: delete_answer.split)

lemma heal_step_data:
  assumes "v \<notin> reseeded_claims e t"
  shows "pgdata_of (snd (heal_target_step (ce_conf e) (ce_heal e) d t w)) v = pgdata_of w v"
proof (cases "ht_remediation t = ''restart''")
  case True
  then show ?thesis using restart_data by (simp add: heal_target_step_def)
next
  case False
  show ?thesis
  proof (cases "v = ht_pod t")
    case True
    then show ?thesis using assms False
      by (auto simp: heal_target_step_def reseeded_claims_def heal_instance_def pgdata_of_def split: option.split sum.splits if_splits)
  next
    case v: False
    have "data_of (snd (heal_instance c he h (ht_pod t) (ht_pod t) s)) v = data_of s v" for c he h s
      using v by (rule heal_local)
    then show ?thesis using False
      by (auto simp: heal_target_step_def pgdata_of_def split: option.split prod.split) (metis snd_conv)
  qed
qed

interpretation cnpg: repair_hooks "cnpg_repairer e" pgdata_of "reseeded_claims e"
proof
  show "hk_dry_run (cnpg_repairer e) \<Longrightarrow> pgdata_of (snd (hk_pre (cnpg_repairer e) s)) = pgdata_of s" for s
    using pre_assess_changes[of "ce_conf e" "ce_pre e" s]
    by (auto simp: cnpg_repairer_def fun_eq_iff split: prod.split) (metis snd_conv)
  show "v \<notin> reseeded_claims e tg \<Longrightarrow> pgdata_of (snd (hk_heal (cnpg_repairer e) tg s)) v = pgdata_of s v" for v tg s
    using heal_step_data[of v e tg "ce_delete e" s]
    by (cases "heal_target_step (ce_conf e) (ce_heal e) (ce_delete e) tg s") (simp add: cnpg_repairer_def)
qed (auto simp: cnpg_repairer_def cnpg_assess_def cnpg_escrow_def pgdata_of_def split: sum.split)

text \<open>C13: A whole CNPG repair changes a data directory in two ways only: the breaker's reversible clear,
  or the reseed of a planned target, behind the lock, the assessment and the escrow, when the
  live primary was read and is another instance, and never of the authority of an unsafe
  comparison.  A dry run changes none.\<close>

theorem cnpg_repair_touches_only:
  "if pgdata_of (snd (repair_run (cnpg_repairer e) w)) v \<noteq> pgdata_of w v \<and> v \<noteq> ''''
   then \<not> rc_dry_run (ce_conf e) \<and> ce_lock e = None \<and>
     (reversibly_cleared (ce_pre e) w v (snd (pre_assess (ce_conf e) (ce_pre e) w)) \<or>
      (\<exists>t c ts p. ce_triage e = Ok t \<and> run_escrow (ce_escrow e) t (ce_primary e) = Ok c \<and>
         cnpg_plan (rc_cluster (ce_conf e)) (rc_instance (ce_conf e)) (rc_force (ce_conf e)) (ce_primary e) (ce_claim e) t = Ok ts \<and>
         list_ex (\<lambda>tg. ht_pod tg = v \<and> ht_remediation tg \<noteq> ''restart'') ts \<and>
         he_primary (ce_heal e v) = Ok p \<and> p \<noteq> v \<and>
         \<not> (\<not> dc_safe_to_heal (tr_comparison t) \<and> v = dc_most_advanced (tr_comparison t))))
   else True"
proof -
  let ?r = "cnpg_repairer e" and ?c = "ce_conf e"
  have "\<not> rc_dry_run ?c \<and> ce_lock e = None \<and>
     (reversibly_cleared (ce_pre e) w v (snd (pre_assess ?c (ce_pre e) w)) \<or>
      (\<exists>t c ts p. ce_triage e = Ok t \<and> run_escrow (ce_escrow e) t (ce_primary e) = Ok c \<and>
         cnpg_plan (rc_cluster ?c) (rc_instance ?c) (rc_force ?c) (ce_primary e) (ce_claim e) t = Ok ts \<and>
         list_ex (\<lambda>tg. ht_pod tg = v \<and> ht_remediation tg \<noteq> ''restart'') ts \<and>
         he_primary (ce_heal e v) = Ok p \<and> p \<noteq> v \<and>
         (dc_safe_to_heal (tr_comparison t) \<or> v \<noteq> dc_most_advanced (tr_comparison t))))"
    if ch: "pgdata_of (snd (repair_run ?r w)) v \<noteq> pgdata_of w v" and v: "v \<noteq> ''''"
  proof (rule cnpg.run_data[OF ch])
    fix s1
    assume a: "hk_lock ?r w = (None, s1)" "pgdata_of (snd (hk_pre ?r s1)) v \<noteq> pgdata_of s1 v" "\<not> hk_dry_run ?r"
    then have "s1 = w" "ce_lock e = None" by (simp_all add: cnpg_repairer_def)
    moreover have "snd (hk_pre ?r w) = snd (pre_assess ?c (ce_pre e) w)" by (simp add: cnpg_repairer_def split: prod.split)
    ultimately show ?thesis using a pre_assess_changes[of ?c "ce_pre e" w v] by simp
  next
    fix s1 s2 t s3 s4 s5 ts
    assume a: "hk_lock ?r w = (None, s1)" "hk_assess ?r s2 = (Ok t, s3)" "\<not> hk_dry_run ?r" "hk_escrow ?r t s4 = (None, s5)"
      "hk_plan ?r t s5 = Ok ts" "v \<in> (\<Union>tg\<in>set ts. reseeded_claims e tg)"
    have t: "ce_triage e = Ok t" using a(2) by (auto simp: cnpg_repairer_def cnpg_assess_def split: sum.splits)
    obtain c where c: "run_escrow (ce_escrow e) t (ce_primary e) = Ok c"
      using a(4) by (auto simp: cnpg_repairer_def cnpg_escrow_def split: sum.splits)
    have p: "cnpg_plan (rc_cluster ?c) (rc_instance ?c) (rc_force ?c) (ce_primary e) (ce_claim e) t = Ok ts"
      using a(5) by (auto simp: cnpg_repairer_def cnpg_plan_hook_def split: sum.splits)
    obtain tg q where g: "tg \<in> set ts" "ht_pod tg = v" "ht_remediation tg \<noteq> ''restart''" "he_primary (ce_heal e v) = Ok q" "q \<noteq> v"
      using a(6) by (auto simp: reseeded_iff)
    have "dc_safe_to_heal (tr_comparison t) \<or> v \<noteq> dc_most_advanced (tr_comparison t)"
      using plan_spares_authority[OF p g(1,3)] g(2) v by simp
    moreover have "list_ex (\<lambda>tg. ht_pod tg = v \<and> ht_remediation tg \<noteq> ''restart'') ts" using g by (auto simp: list_ex_iff)
    moreover have "\<not> rc_dry_run ?c" "ce_lock e = None" using a(1,3) by (simp_all add: cnpg_repairer_def)
    ultimately show ?thesis using t c p g(4,5) by blast
  qed
  then show ?thesis by simp
qed

text \<open>The live guard asks only whether the target is the current primary: with no current primary it lets
  the reseed go on from the address captured before.\<close>

lemma empty_primary_passes_guard:
  "pod \<noteq> '''' \<Longrightarrow> he_primary e = Ok '''' \<Longrightarrow>
     heal_instance c e h pod pvc s =
       (case run_job (he_job e) (reseed_job c pod pvc (hc_primary_ip h)) s of
          (Some err, s1) \<Rightarrow> (Some (OfflineJob err), s1)
        | (None, s1) \<Rightarrow> (if poll_until (he_ready e) 0 30 then None else Some (NeverReady pod), s1))"
  by (simp add: heal_instance_def clone_source_def)

text \<open>A verification that passes has seen, on one reading of a named primary, every healed instance
  streaming from it or being it.\<close>

theorem verified_means_streaming:
  "if verify_recovery e healed = None \<and> healed \<noteq> []
   then \<exists>i p out. ve_view e i = Ok (p, Ok out) \<and> p \<noteq> '''' \<and>
     list_all (\<lambda>pod. pod = p \<or> pod \<in> set (streaming_standbys out)) healed
   else True"
proof -
  have "\<exists>i p out. ve_view e i = Ok (p, Ok out) \<and> p \<noteq> '''' \<and>
     list_all (\<lambda>pod. pod = p \<or> pod \<in> set (streaming_standbys out)) healed"
    if "verify_recovery e healed = None" "healed \<noteq> []"
  proof -
    have "await_recovery (\<lambda>i. stream_probe healed (ve_view e i)) (ve_clock e) (ve_cancelled e)
            (ve_start e + verify_cnpg_timeout) verify_interval 0 [] None = Some ([], None)"
      using that by (auto simp: verify_recovery_def split: option.splits list.splits)
    from await_nothing_pending[OF this] obtain j where "stream_probe healed (ve_view e j) = Ok []" by blast
    then obtain p out where "ve_view e j = Ok (p, Ok out)" "p \<noteq> ''''"
        "filter (\<lambda>pod. pod \<noteq> p \<and> pod \<notin> set (streaming_standbys out)) healed = []"
      by (auto simp: stream_probe_def split: sum.splits if_splits)
    then show ?thesis by (intro exI[of _ j] exI[of _ p] exI[of _ out]) (auto simp: filter_empty_conv list_all_iff)
  qed
  then show ?thesis by simp
qed

end
