(* ===== verification/Cnpg_Lease.thy ===== *)
theory Cnpg_Lease
  imports Go_Time
begin

text \<open>
  The exclusive operation lock of CNPG clusters (\<open>src/engine/cnpgjob/lock.go\<close>): a Lease that a
  holder creates or takes over with the version it read, renews every twenty seconds and
  deletes when it is done.  Each step of \<open>AcquireClusterLock\<close>, \<open>renewLease\<close> and the release
  function is a step of the world; contenders and the clock interleave freely.
\<close>

section \<open>The lease\<close>

record lease =
  le_holder :: "string option"
  le_renew :: "int option"
  le_seconds :: "int option"
  le_version :: nat

definition lease_seconds :: int where "lease_seconds = 60"

definition lease_expired :: "int \<Rightarrow> lease \<Rightarrow> bool" where
  "lease_expired now l =
     (case (le_renew l, le_seconds l) of (Some r, Some d) \<Rightarrow> now > r + d * nanos | _ \<Rightarrow> False)"

definition lease_held_by_other :: "int \<Rightarrow> string \<Rightarrow> lease \<Rightarrow> string" where
  "lease_held_by_other now me l =
     (case le_holder l of
        None \<Rightarrow> ''''
      | Some h \<Rightarrow> if h = '''' \<or> h = me then '''' else if lease_expired now l then '''' else h)"

definition new_lease :: "string \<Rightarrow> int \<Rightarrow> nat \<Rightarrow> lease" where
  "new_lease me now v = \<lparr> le_holder = Some me, le_renew = Some now, le_seconds = Some lease_seconds, le_version = v \<rparr>"

definition renewed :: "int \<Rightarrow> nat \<Rightarrow> lease \<Rightarrow> lease" where
  "renewed now v l = l\<lparr> le_renew := Some now, le_version := v \<rparr>"

section \<open>The world\<close>

text \<open>A contender's place in \<open>AcquireClusterLock\<close>: it took the time, read the lease, found it free,
  or holds it.\<close>

datatype stage = Outside | Started int | Read int "lease option" | Free int "lease option" | Holds

record lease_world =
  lw_now :: int
  lw_lease :: "lease option"
  lw_next :: nat
  lw_stage :: "string \<Rightarrow> stage"

definition move :: "string \<Rightarrow> stage \<Rightarrow> lease_world \<Rightarrow> lease_world" where
  "move i g w = w\<lparr> lw_stage := (lw_stage w)(i := g) \<rparr>"

text \<open>A write gives the lease a version that no earlier write had.\<close>

definition put_lease :: "(nat \<Rightarrow> lease option) \<Rightarrow> lease_world \<Rightarrow> lease_world" where
  "put_lease f w = w\<lparr> lw_lease := f (lw_next w), lw_next := Suc (lw_next w) \<rparr>"

definition same_version :: "lease option \<Rightarrow> lease option \<Rightarrow> bool" where
  "same_version seen cur =
     (case (seen, cur) of (None, None) \<Rightarrow> True | (Some l, Some l') \<Rightarrow> le_version l = le_version l' | _ \<Rightarrow> False)"

definition seen_free :: "int \<Rightarrow> string \<Rightarrow> lease option \<Rightarrow> bool" where
  "seen_free now i seen = (case seen of None \<Rightarrow> True | Some l \<Rightarrow> lease_held_by_other now i l = '''')"

definition take_lease :: "string \<Rightarrow> int \<Rightarrow> lease_world \<Rightarrow> lease_world" where
  "take_lease i t w = put_lease (\<lambda>v. Some (new_lease i t v)) w"

inductive lease_step :: "lease_world \<Rightarrow> lease_world \<Rightarrow> bool" where
  tick: "lw_now w \<le> t \<Longrightarrow> lease_step w (w\<lparr> lw_now := t \<rparr>)"
| start: "lw_stage w i = Outside \<Longrightarrow> i \<noteq> '''' \<Longrightarrow> lease_step w (move i (Started (lw_now w)) w)"
| read: "lw_stage w i = Started t \<Longrightarrow> lease_step w (move i (Read t (lw_lease w)) w)"
| read_error: "lw_stage w i = Started t \<Longrightarrow> lease_step w (move i Outside w)"
| check: "lw_stage w i = Read t seen \<Longrightarrow>
    lease_step w (move i (if seen_free (lw_now w) i seen then Free t seen else Outside) w)"
| take: "lw_stage w i = Free t seen \<Longrightarrow> same_version seen (lw_lease w) \<Longrightarrow>
    lease_step w (move i Holds (take_lease i t w))"
| take_lost: "lw_stage w i = Free t seen \<Longrightarrow> same_version seen (lw_lease w) \<Longrightarrow>
    lease_step w (move i Outside (take_lease i t w))"
| take_conflict: "lw_stage w i = Free t seen \<Longrightarrow> lease_step w (move i Outside w)"
| renew: "lw_stage w i = Holds \<Longrightarrow> lw_lease w = Some l \<Longrightarrow> le_holder l = Some i \<Longrightarrow>
    lease_step w (put_lease (\<lambda>v. Some (renewed (lw_now w) v l)) w)"
| release: "lw_stage w i = Holds \<Longrightarrow> lease_step w (move i Outside (w\<lparr> lw_lease := None \<rparr>))"
| release_failed: "lw_stage w i = Holds \<Longrightarrow> lease_step w (move i Outside w)"

inductive_cases lease_stepE: "lease_step w w'"

text \<open>A world is timely while the lease of a running holder has not expired, which the renewals every
  twenty seconds are for.\<close>

definition lease_timely :: "lease_world \<Rightarrow> bool" where
  "lease_timely w =
     (case lw_lease w of
        None \<Rightarrow> True
      | Some l \<Rightarrow> (case le_holder l of None \<Rightarrow> True
                   | Some h \<Rightarrow> \<not> (lw_stage w h = Holds \<and> lease_expired (lw_now w) l)))"

definition lease_initial :: "lease_world \<Rightarrow> bool" where
  "lease_initial w \<longleftrightarrow> lw_stage w = (\<lambda>_. Outside) \<and> (case lw_lease w of None \<Rightarrow> True | Some l \<Rightarrow> le_version l < lw_next w)"

inductive lease_reach :: "lease_world \<Rightarrow> bool" where
  init: "lease_initial w \<Longrightarrow> lease_reach w"
| step: "lease_reach w \<Longrightarrow> lease_step w w' \<Longrightarrow> lease_timely w' \<Longrightarrow> lease_reach w'"

section \<open>The invariant\<close>

definition held_by_holder :: "lease_world \<Rightarrow> bool" where
  "held_by_holder w \<longleftrightarrow> (\<forall>i. lw_stage w i = Holds \<longrightarrow> i \<noteq> '''' \<and> (\<exists>l. lw_lease w = Some l \<and> le_holder l = Some i))"

definition seen_by :: "stage \<Rightarrow> lease option" where
  "seen_by g = (case g of Read _ seen \<Rightarrow> seen | Free _ seen \<Rightarrow> seen | _ \<Rightarrow> None)"

definition versions_ok :: "lease_world \<Rightarrow> bool" where
  "versions_ok w \<longleftrightarrow>
     (\<forall>l. lw_lease w = Some l \<longrightarrow> le_version l < lw_next w) \<and>
     (\<forall>i l. seen_by (lw_stage w i) = Some l \<longrightarrow> le_version l < lw_next w \<and>
        (\<forall>l'. lw_lease w = Some l' \<longrightarrow> le_version l' = le_version l \<longrightarrow> l' = l))"

definition free_is_free :: "lease_world \<Rightarrow> bool" where
  "free_is_free w \<longleftrightarrow> (\<forall>i t l h. lw_stage w i = Free t (Some l) \<longrightarrow> lw_lease w = Some l \<longrightarrow> le_holder l = Some h \<longrightarrow>
     lw_stage w h \<noteq> Holds)"

definition lease_inv :: "lease_world \<Rightarrow> bool" where
  "lease_inv w \<longleftrightarrow> held_by_holder w \<and> versions_ok w \<and> free_is_free w \<and> (\<forall>i. lw_stage w i \<noteq> Outside \<longrightarrow> i \<noteq> '''')"

lemma move_simps [simp]:
  "lw_stage (move i g w) = (lw_stage w)(i := g)" "lw_lease (move i g w) = lw_lease w"
  "lw_next (move i g w) = lw_next w" "lw_now (move i g w) = lw_now w"
  by (simp_all add: move_def)

lemma put_simps [simp]:
  "lw_stage (put_lease f w) = lw_stage w" "lw_lease (put_lease f w) = f (lw_next w)"
  "lw_next (put_lease f w) = Suc (lw_next w)" "lw_now (put_lease f w) = lw_now w"
  "lw_stage (take_lease i t w) = lw_stage w" "lw_lease (take_lease i t w) = Some (new_lease i t (lw_next w))"
  "lw_next (take_lease i t w) = Suc (lw_next w)" "lw_now (take_lease i t w) = lw_now w"
  by (simp_all add: put_lease_def take_lease_def)

lemma versionsD:
  assumes "versions_ok w"
  shows "lw_lease w = Some l \<Longrightarrow> le_version l < lw_next w"
    "seen_by (lw_stage w i) = Some l \<Longrightarrow> le_version l < lw_next w"
    "seen_by (lw_stage w i) = Some l \<Longrightarrow> lw_lease w = Some l' \<Longrightarrow> le_version l' = le_version l \<Longrightarrow> l' = l"
  using assms unfolding versions_ok_def by blast+

lemma same_version_eq:
  assumes "versions_ok w" "seen_by (lw_stage w i) = seen" "same_version seen (lw_lease w)"
  shows "lw_lease w = seen"
  using assms(3) versionsD(3)[OF assms(1), of i] assms(2)
  by (cases seen; cases "lw_lease w") (auto simp: same_version_def)

text \<open>A lease read as free is not one that somebody holds, as long as the world is timely.\<close>

lemma free_not_held:
  assumes "lease_held_by_other now i l = ''''" "le_holder l = Some h" "lw_now w = now" "lease_timely w" "lw_lease w = Some l"
    "lw_stage w i \<noteq> Holds" "h \<noteq> ''''"
  shows "lw_stage w h \<noteq> Holds"
  using assms by (auto simp: lease_held_by_other_def lease_timely_def split: if_splits)

lemma seen_by_simps [simp]:
  "seen_by Outside = None" "seen_by (Started t) = None" "seen_by (Read t s) = s" "seen_by (Free t s) = s" "seen_by Holds = None"
  by (simp_all add: seen_by_def)

lemma new_lease_simps [simp]:
  "le_holder (new_lease i t v) = Some i" "le_version (new_lease i t v) = v"
  "le_holder (renewed t v l) = le_holder l" "le_version (renewed t v l) = v"
  by (simp_all add: new_lease_def renewed_def)

lemma held_unique: "held_by_holder w \<Longrightarrow> lw_stage w i = Holds \<Longrightarrow> lw_stage w j = Holds \<Longrightarrow> i = j"
proof -
  assume h: "held_by_holder w" "lw_stage w i = Holds" "lw_stage w j = Holds"
  obtain l where "lw_lease w = Some l" "le_holder l = Some i" using h unfolding held_by_holder_def by blast
  moreover obtain m where "lw_lease w = Some m" "le_holder m = Some j" using h unfolding held_by_holder_def by blast
  ultimately show "i = j" by simp
qed

lemma heldI: "(\<And>i. lw_stage w i = Holds \<Longrightarrow> i \<noteq> '''' \<and> (\<exists>l. lw_lease w = Some l \<and> le_holder l = Some i)) \<Longrightarrow> held_by_holder w"
  unfolding held_by_holder_def by blast

lemma heldD: "held_by_holder w \<Longrightarrow> lw_stage w i = Holds \<Longrightarrow> i \<noteq> '''' \<and> (\<exists>l. lw_lease w = Some l \<and> le_holder l = Some i)"
  unfolding held_by_holder_def by blast

lemma nobody_holds:
  assumes "lease_inv w" "lw_stage w i = Free t seen" "same_version seen (lw_lease w)"
  shows "lw_stage w j \<noteq> Holds"
proof
  assume h: "lw_stage w j = Holds"
  have inv: "held_by_holder w" "versions_ok w" "free_is_free w" using assms(1) by (simp_all add: lease_inv_def)
  obtain l where l: "lw_lease w = Some l" "le_holder l = Some j" using inv(1) h unfolding held_by_holder_def by blast
  have "seen = Some l" using same_version_eq[OF inv(2) _ assms(3), of i] assms(2) l by simp
  then show False using inv(3) assms(2) l h unfolding free_is_free_def by blast
qed

text \<open>Steps that move one contender, without making it a holder, and leave the lease alone.\<close>

lemma held_move: "held_by_holder w \<Longrightarrow> g \<noteq> Holds \<Longrightarrow> held_by_holder (move i g w)"
  by (rule heldI) (auto dest: heldD split: if_splits)

lemma held_step:
  assumes inv: "lease_inv w" and s: "lease_step w w'"
  shows "held_by_holder w'"
proof -
  have h: "held_by_holder w" and ne: "\<And>i. lw_stage w i \<noteq> Outside \<Longrightarrow> i \<noteq> ''''"
    using inv by (simp_all add: lease_inv_def)
  show ?thesis using s
  proof (cases rule: lease_step.cases)
    case (tick t)
    then show ?thesis by (intro heldI) (simp add: heldD[OF h])
  next
    case (take i t seen)
    have "i \<noteq> ''''" using ne[of i] take(2) by simp
    then show ?thesis using nobody_holds[OF inv take(2,3)] take(1) by (intro heldI) (simp split: if_splits)
  next
    case (take_lost i t seen)
    then show ?thesis using nobody_holds[OF inv take_lost(2,3)] by (intro heldI) (simp split: if_splits)
  next
    case (renew i l)
    have "j = i" if "lw_stage w j = Holds" for j by (rule held_unique[OF h that renew(2)])
    moreover have "i \<noteq> ''''" using ne[of i] renew(2) by simp
    ultimately show ?thesis using renew(1,4) by (intro heldI) simp
  next
    case (release i)
    have "j = i" if "lw_stage w j = Holds" for j by (rule held_unique[OF h that release(2)])
    then show ?thesis using release(1) by (intro heldI) (auto split: if_splits)
  qed (simp_all add: held_move[OF h])
qed

lemma versionsI:
  assumes "\<And>l. lw_lease w = Some l \<Longrightarrow> le_version l < lw_next w"
    "\<And>i l. seen_by (lw_stage w i) = Some l \<Longrightarrow> le_version l < lw_next w"
    "\<And>i l l'. seen_by (lw_stage w i) = Some l \<Longrightarrow> lw_lease w = Some l' \<Longrightarrow> le_version l' = le_version l \<Longrightarrow> l' = l"
  shows "versions_ok w"
  using assms unfolding versions_ok_def by blast

lemma versions_move:
  assumes "versions_ok w" "seen_by g = None \<or> seen_by g = lw_lease w \<or> seen_by g = seen_by (lw_stage w i)"
  shows "versions_ok (move i g w)"
  using assms(2) versionsD[OF assms(1)] by (intro versionsI) (auto split: if_splits)

lemma versions_put:
  assumes "versions_ok w" "\<And>v l. f v = Some l \<Longrightarrow> le_version l = v"
  shows "versions_ok (put_lease f w)"
  using assms(2) versionsD(2)[OF assms(1)] by (intro versionsI) (fastforce simp: less_Suc_eq)+

lemma versions_take: "versions_ok w \<Longrightarrow> versions_ok (take_lease i t w)"
  unfolding take_lease_def by (rule versions_put) auto

lemma versions_step:
  assumes v: "versions_ok w" and s: "lease_step w w'"
  shows "versions_ok w'"
  using s
proof (cases rule: lease_step.cases)
  case (tick t)
  then show ?thesis using versionsD[OF v] by (intro versionsI) auto
next
  case (check i t seen)
  then show ?thesis using versions_move[OF v] by simp
next
  case (take i t seen)
  then show ?thesis using versions_move[OF versions_take[OF v]] by simp
next
  case (take_lost i t seen)
  then show ?thesis using versions_move[OF versions_take[OF v]] by simp
next
  case (renew i l)
  show ?thesis unfolding renew(1) by (rule versions_put[OF v]) auto
next
  case (release i)
  have "versions_ok (w\<lparr> lw_lease := None \<rparr>)" using versionsD(2)[OF v] by (intro versionsI) auto
  from versions_move[OF this] show ?thesis using release(1) by simp
qed (use versions_move[OF v] in simp_all)

lemma freeI: "(\<And>i t l h. lw_stage w i = Free t (Some l) \<Longrightarrow> lw_lease w = Some l \<Longrightarrow> le_holder l = Some h \<Longrightarrow> lw_stage w h \<noteq> Holds)
    \<Longrightarrow> free_is_free w"
  unfolding free_is_free_def by blast

lemma freeD: "free_is_free w \<Longrightarrow> lw_stage w i = Free t (Some l) \<Longrightarrow> lw_lease w = Some l \<Longrightarrow> le_holder l = Some h \<Longrightarrow> lw_stage w h \<noteq> Holds"
  unfolding free_is_free_def by blast

lemma free_move: "free_is_free w \<Longrightarrow> g \<noteq> Holds \<Longrightarrow> (\<And>t l. g \<noteq> Free t (Some l)) \<Longrightarrow> free_is_free (move i g w)"
  by (rule freeI) (auto dest: freeD split: if_splits)

text \<open>After a write nobody's read is of the current lease.\<close>

lemma free_written:
  assumes "versions_ok w" "lw_lease w' = Some l'" "le_version l' = lw_next w" "\<And>j. j \<noteq> i \<Longrightarrow> lw_stage w' j = lw_stage w j"
    "\<And>t l. lw_stage w' i \<noteq> Free t (Some l)"
  shows "free_is_free w'"
proof (rule freeI)
  fix j t l h
  assume a: "lw_stage w' j = Free t (Some l)" "lw_lease w' = Some l"
  then have "j \<noteq> i" using assms(5) by auto
  then have "seen_by (lw_stage w j) = Some l" using a(1) assms(4) by (metis seen_by_simps(4))
  then have "le_version l < lw_next w" by (rule versionsD(2)[OF assms(1)])
  then show "lw_stage w' h \<noteq> Holds" using a(2) assms(2,3) by simp
qed

lemma free_step:
  assumes inv: "lease_inv w" and s: "lease_step w w'" and tm: "lease_timely w'"
  shows "free_is_free w'"
proof -
  have h: "held_by_holder w" and v: "versions_ok w" and f: "free_is_free w"
    using inv by (simp_all add: lease_inv_def)
  show ?thesis using s
  proof (cases rule: lease_step.cases)
    case (tick t)
    then show ?thesis by (intro freeI) (simp add: freeD[OF f])
  next
    case (check i t seen)
    show ?thesis
    proof (rule freeI)
      fix j t' l k
      assume a: "lw_stage w' j = Free t' (Some l)" "lw_lease w' = Some l" "le_holder l = Some k"
      show "lw_stage w' k \<noteq> Holds"
      proof (cases "j = i")
        case False
        then have "lw_stage w j = Free t' (Some l)" "lw_lease w = Some l" using a check(1) by simp_all
        from freeD[OF f this a(3)] show ?thesis using check(1) by (simp split: if_splits)
      next
        case True
        then have free: "lease_held_by_other (lw_now w) i l = ''''" using a(1) check(1) by (auto simp: seen_free_def split: if_splits)
        show ?thesis
        proof
          assume hk: "lw_stage w' k = Holds"
          have st: "lw_stage w' i \<noteq> Holds" using check(1) by simp
          have wk: "lw_stage w k = Holds" using hk check(1) by (simp split: if_splits)
          have "k \<noteq> ''''" using heldD[OF h wk] by simp
          moreover have "lw_now w' = lw_now w" using check(1) by simp
          ultimately show False using free_not_held[OF free a(3) _ tm a(2) st] hk by simp
        qed
      qed
    qed
  next
    case (take i t seen)
    then show ?thesis by (intro free_written[OF v, of w' "new_lease i t (lw_next w)" i]) simp_all
  next
    case (take_lost i t seen)
    then show ?thesis by (intro free_written[OF v, of w' "new_lease i t (lw_next w)" i]) simp_all
  next
    case (renew i l)
    then show ?thesis by (intro free_written[OF v, of w' "renewed (lw_now w) (lw_next w) l" i]) simp_all
  next
    case (release i)
    then show ?thesis by (intro freeI) simp
  qed (simp_all add: free_move[OF f])
qed

lemma inv_step:
  assumes inv: "lease_inv w" and s: "lease_step w w'" and tm: "lease_timely w'"
  shows "lease_inv w'"
proof -
  have ne: "lw_stage w i \<noteq> Outside \<Longrightarrow> i \<noteq> ''''" for i using inv by (simp add: lease_inv_def)
  have "lw_stage w' i \<noteq> Outside \<Longrightarrow> i \<noteq> ''''" for i
    using s by (cases rule: lease_step.cases) (use ne[of i] in \<open>auto split: if_splits\<close>)
  then show ?thesis
    using held_step[OF inv s] versions_step[OF _ s] free_step[OF inv s tm] inv by (simp add: lease_inv_def)
qed

lemma reach_inv: "lease_reach w \<Longrightarrow> lease_inv w"
proof (induction rule: lease_reach.induct)
  case (init w)
  then show ?case
    by (auto simp: lease_initial_def lease_inv_def intro!: heldI versionsI freeI split: option.splits)
qed (blast intro: inv_step)

text \<open>C18: In every interleaving of contenders whose renewals keep their leases from expiring while they
  run, at most one holds the cluster's operation lock.\<close>

theorem lease_excludes:
  assumes "lease_reach w" "lw_stage w i = Holds" "lw_stage w j = Holds"
  shows "i = j"
  using reach_inv[OF assms(1)] held_unique assms(2,3) by (auto simp: lease_inv_def)

section \<open>Late releases\<close>

text \<open>A contender that starts, reads, finds the lease free and takes it, undisturbed.\<close>

lemma undisturbed_take:
  assumes "lw_stage w j = Outside" "j \<noteq> ''''" "seen_free (lw_now w) j (lw_lease w)"
  shows "lease_step\<^sup>*\<^sup>* w (move j Holds (take_lease j (lw_now w) w))"
proof -
  let ?a = "move j (Started (lw_now w)) w"
  let ?b = "move j (Read (lw_now w) (lw_lease w)) ?a"
  let ?c = "move j (Free (lw_now w) (lw_lease w)) ?b"
  have 1: "lease_step w ?a" by (rule lease_step.start[OF assms(1,2)])
  have 2: "lease_step ?a ?b" using lease_step.read[of ?a j "lw_now w"] by simp
  have 3: "lease_step ?b ?c" using lease_step.check[of ?b j "lw_now w" "lw_lease w"] assms(3) by simp
  have 4: "lease_step ?c (move j Holds (take_lease j (lw_now w) ?c))"
    by (rule lease_step.take[where seen = "lw_lease w"]) (simp_all add: same_version_def split: option.split)
  have "move j Holds (take_lease j (lw_now w) ?c) = move j Holds (take_lease j (lw_now w) w)"
    by (simp add: move_def take_lease_def put_lease_def)
  then show ?thesis using 1 2 3 4 by (metis (no_types, lifting) rtranclp.simps)
qed

text \<open>The release deletes the Lease by name: a holder that outlived its lease removes its successor's, and
  a third contender gets in beside the second.\<close>

lemma late_release_breaks_exclusion:
  assumes w: "lw_stage w i = Holds" "lw_lease w = Some l" "le_holder l = Some i" "lease_expired (lw_now w) l"
    and j: "lw_stage w j = Outside" "j \<noteq> ''''" and k: "lw_stage w k = Outside" "k \<noteq> ''''" "k \<noteq> j"
  shows "\<exists>w'. lease_step\<^sup>*\<^sup>* w w' \<and> lw_stage w' j = Holds \<and> lw_stage w' k = Holds"
proof -
  let ?a = "move j Holds (take_lease j (lw_now w) w)"
  let ?b = "move i Outside (?a\<lparr> lw_lease := None \<rparr>)"
  let ?c = "move k Holds (take_lease k (lw_now ?b) ?b)"
  have ij: "i \<noteq> j" "i \<noteq> k" using w(1) j(1) k(1) by auto
  have 1: "lease_step\<^sup>*\<^sup>* w ?a"
    by (rule undisturbed_take[OF j]) (simp add: w seen_free_def lease_held_by_other_def)
  have 2: "lease_step ?a ?b" using lease_step.release[of ?a i] w(1) ij by simp
  have 3: "lease_step\<^sup>*\<^sup>* ?b ?c" by (rule undisturbed_take) (use k ij in \<open>simp_all add: seen_free_def\<close>)
  have "lease_step\<^sup>*\<^sup>* w ?c" using 1 2 3 by (meson rtranclp.rtrancl_into_rtrancl rtranclp_trans)
  moreover have "lw_stage ?c j = Holds" "lw_stage ?c k = Holds" using ij k(3) by simp_all
  ultimately show ?thesis by blast
qed

definition free_world :: lease_world where
  "free_world = \<lparr> lw_now = 0, lw_lease = None, lw_next = 0, lw_stage = (\<lambda>_. Outside) \<rparr>"

definition held_lease :: lease_world where
  "held_lease = move ''repair'' Holds (take_lease ''repair'' 0 free_world)"

lemma held_world_reach: "lease_reach held_lease"
proof -
  let ?a = "move ''repair'' (Started 0) free_world"
  let ?b = "move ''repair'' (Read 0 None) ?a"
  let ?c = "move ''repair'' (Free 0 None) ?b"
  have 0: "lease_reach free_world" by (rule lease_reach.init) (simp add: lease_initial_def free_world_def)
  have 1: "lease_reach ?a"
    using lease_step.start[of free_world "''repair''"] by (intro lease_reach.step[OF 0]) (simp_all add: free_world_def lease_timely_def)
  have 2: "lease_reach ?b"
    using lease_step.read[of ?a "''repair''" 0] by (intro lease_reach.step[OF 1]) (simp_all add: free_world_def lease_timely_def)
  have 3: "lease_reach ?c"
    using lease_step.check[of ?b "''repair''" 0 None]
    by (intro lease_reach.step[OF 2]) (simp_all add: free_world_def lease_timely_def seen_free_def)
  have 4: "lease_step ?c (move ''repair'' Holds (take_lease ''repair'' 0 ?c))"
    by (rule lease_step.take[where seen = None]) (simp_all add: same_version_def free_world_def)
  have 5: "move ''repair'' Holds (take_lease ''repair'' 0 ?c) = held_lease"
    by (simp add: held_lease_def move_def take_lease_def put_lease_def)
  have "lease_timely held_lease"
    by (simp add: held_lease_def lease_timely_def new_lease_def free_world_def lease_expired_def lease_seconds_def nanos_def)
  from lease_reach.step[OF 3 4[unfolded 5] this] show ?thesis .
qed

theorem lease_excludes_witness: "{j. lw_stage held_lease j = Holds} = {''repair''}"
proof -
  have h: "lw_stage held_lease ''repair'' = Holds" by (simp add: held_lease_def)
  have "j = ''repair''" if "lw_stage held_lease j = Holds" for j
    by (rule lease_excludes[OF held_world_reach that h])
  then show ?thesis using h by blast
qed

end
