(* ===== verification/Repair_Galera.thy ===== *)
theory Repair_Galera
  imports Repair_Run Repair_Escrow Galera_Collect Galera_Provider
begin

text \<open>
  The Galera repair engine (\<open>src/engine/repair/galera.go\<close>, \<open>galera_donor.go\<close>): the donor and its wsrep
  probe, the safety gate that suspends the operator, the heal of one node (scale down, wipe,
  scale up, resume, with its rescue), the verification, and the engine as hooks of the lifecycle.
  Calls to the API server are outcomes of the environment; helper scripts are lists of steps on
  the node's claims, and a helper that failed may have run any prefix of its script.
\<close>

section \<open>Configuration and state\<close>

record galera_repair_conf =
  gr_cluster :: string
  gr_instance :: "int option"
  gr_donor :: "int option"
  gr_force :: bool
  gr_dry_run :: bool
  gr_wipe :: bool
  gr_replicas :: int
  gr_delete_timeout :: int
  gr_heal_timeout :: int

text \<open>What a node's claims hold: the database, the state file and the copy a heal keeps of it, the
  write-set cache and its copy, the bootstrap configuration, the saved view and the redo logs.\<close>

record node_disk =
  nd_data :: "string option"
  nd_state :: "string option"
  nd_state_kept :: "string option"
  nd_cache :: "string option"
  nd_cache_kept :: "string option"
  nd_bootstrap :: bool
  nd_view :: bool
  nd_redo :: bool

record donor_probe =
  dp_exists :: bool
  dp_running :: bool
  dp_exec_ok :: bool
  dp_ready :: "bool option"
  dp_connected :: "bool option"
  dp_state :: string
  dp_size :: int
  dp_warnings :: "string list"

record donor_selection =
  dn_pod :: string
  dn_ordinal :: int
  dn_mode :: string
  dn_probe :: donor_probe

text \<open>\<open>gw_held\<close>: the repair believes it holds the resource suspended; \<open>gw_donor\<close>: the donor the gate
  resolved; \<open>gw_copies\<close>: the dumps and references of the escrow.\<close>

record galera_world =
  gw_cluster :: galera_cluster
  gw_held :: bool
  gw_donor :: "donor_selection option"
  gw_disk :: "string \<Rightarrow> node_disk"
  gw_copies :: "repair_copies list"

definition on_cluster :: "(galera_cluster \<Rightarrow> galera_cluster) \<Rightarrow> galera_world \<Rightarrow> galera_world" where
  "on_cluster f w = w\<lparr> gw_cluster := f (gw_cluster w) \<rparr>"

definition on_disk :: "string \<Rightarrow> (node_disk \<Rightarrow> node_disk) \<Rightarrow> galera_world \<Rightarrow> galera_world" where
  "on_disk p f w = w\<lparr> gw_disk := (gw_disk w)(p := f (gw_disk w p)) \<rparr>"

section \<open>The donor\<close>

text \<open>One probe: the pod's phase, and the answers of at most three status queries.\<close>

record probe_view =
  pv_phase :: "(string, string) result"
  pv_query :: "nat \<Rightarrow> (string, string) result"

fun probe_query :: "(nat \<Rightarrow> (string, string) result) \<Rightarrow> nat \<Rightarrow> (string, (string \<times> string) list) result \<Rightarrow> nat
     \<Rightarrow> (string, (string \<times> string) list) result" where
  "probe_query ans attempt prev 0 = prev"
| "probe_query ans attempt prev (Suc left) =
     (case query_wsrep (ans attempt) of
        Inr m \<Rightarrow> if m \<noteq> [] then Ok m else probe_query ans (Suc attempt) (Ok m) left
      | Inl err \<Rightarrow> probe_query ans (Suc attempt) (Err err) left)"

definition no_probe :: donor_probe where
  "no_probe = \<lparr> dp_exists = True, dp_running = True, dp_exec_ok = False, dp_ready = None, dp_connected = None,
     dp_state = '''', dp_size = 0, dp_warnings = [] \<rparr>"

definition state_warnings :: "string \<Rightarrow> bool option \<Rightarrow> bool option \<Rightarrow> string \<Rightarrow> string list" where
  "state_warnings pod rdy conn st =
     (if st = '''' then [''wsrep probe on '' @ pod @ '': output present but no state parsed '' @ em_dash @ '' parser may not match output format''] else [])
     @ (if rdy = Some False then [pod @ '': wsrep_ready=OFF''] else [])
     @ (if conn = Some False then [pod @ '': wsrep_connected=OFF''] else [])
     @ (if st \<noteq> '''' \<and> st \<noteq> ''Synced'' then [pod @ '': state='' @ st @ '' (not Synced)''] else [])"

definition probe_of_status :: "string \<Rightarrow> (string \<times> string) list \<Rightarrow> donor_probe" where
  "probe_of_status pod m =
     (let rdy = map_option (\<lambda>v. v = ''ON'') (map_of m ''wsrep_ready'');
          conn = map_option (\<lambda>v. v = ''ON'') (map_of m ''wsrep_connected'');
          st = map_get '''' m ''wsrep_local_state_comment''
      in \<lparr> dp_exists = True, dp_running = True, dp_exec_ok = (st \<noteq> ''''), dp_ready = rdy, dp_connected = conn, dp_state = st,
           dp_size = (case map_of m ''wsrep_cluster_size'' of None \<Rightarrow> 0 | Some v \<Rightarrow> atoi_lossy v),
           dp_warnings = state_warnings pod rdy conn st \<rparr>)"

definition probe_wsrep :: "string \<Rightarrow> probe_view \<Rightarrow> donor_probe" where
  "probe_wsrep pod v =
     (case pv_phase v of
        Inl err \<Rightarrow> no_probe\<lparr> dp_exists := False, dp_warnings := [''pod '' @ pod @ '' not found: '' @ err] \<rparr>
      | Inr ph \<Rightarrow>
          if ph \<noteq> ''Running''
          then no_probe\<lparr> dp_running := False, dp_warnings := [''pod '' @ pod @ '' phase is '' @ ph @ '', not Running''] \<rparr>
          else (case probe_query (pv_query v) 1 (Ok []) 3 of
                  Inl err \<Rightarrow> no_probe\<lparr> dp_warnings := [''wsrep exec failed on '' @ pod @ '' after retries: '' @ err] \<rparr>
                | Inr m \<Rightarrow>
                    if m = [] then no_probe\<lparr> dp_warnings := [''wsrep query on '' @ pod @ '' returned no data after retries''] \<rparr>
                    else probe_of_status pod m))"

text \<open>The test every use of a probe makes: it answered, and the node is ready, connected and synced.\<close>

definition suitable :: "donor_probe \<Rightarrow> bool" where
  "suitable p \<longleftrightarrow> dp_exec_ok p \<and> dp_ready p = Some True \<and> dp_connected p = Some True \<and> dp_state p = ''Synced''"

datatype donor_error =
    DonorOutOfRange int int | DonorMissing string string | DonorNotRunning string string
  | DonorUnprobed string | DonorUnsuitable string
  | NoDonorAmbiguous | NoDonor | AmbiguousForced | AmbiguousAuthority

definition resolve_explicit ::
  "galera_repair_conf \<Rightarrow> int \<Rightarrow> (string, string) result \<Rightarrow> (string \<Rightarrow> probe_view) \<Rightarrow> (donor_error, donor_selection) result" where
  "resolve_explicit c n phase probe =
     (let pod = instance_pod (gr_cluster c) n in
      if gr_replicas c \<le> n then Err (DonorOutOfRange n (gr_replicas c - 1))
      else (case phase of
              Inl err \<Rightarrow> Err (DonorMissing pod err)
            | Inr ph \<Rightarrow>
                if ph \<noteq> ''Running'' then Err (DonorNotRunning pod ph)
                else (let p = probe_wsrep pod (probe pod) in
                      if \<not> dp_exec_ok p then Err (DonorUnprobed pod)
                      else if \<not> suitable p then Err (DonorUnsuitable pod)
                      else Ok \<lparr> dn_pod = pod, dn_ordinal = n, dn_mode = ''explicit'', dn_probe = p \<rparr>)))"

definition donor_candidates :: "triage_result \<Rightarrow> instance_assessment list" where
  "donor_candidates t =
     filter (\<lambda>a. ia_running a \<and> ia_wsrep_ready a = ''ON'' \<and> ia_wsrep_connected a = ''ON'' \<and> ia_wsrep_comment a = ''Synced'')
       (tr_assessments t)"

definition resolve_auto ::
  "galera_repair_conf \<Rightarrow> triage_result \<Rightarrow> (string \<Rightarrow> probe_view) \<Rightarrow> (donor_error, donor_selection) result" where
  "resolve_auto c t probe =
     (let ambiguous = (\<not> dc_safe_to_heal (tr_comparison t)) in
      case donor_candidates t of
        [] \<Rightarrow> Err (if ambiguous then NoDonorAmbiguous else NoDonor)
      | a # _ \<Rightarrow>
          if ambiguous then Err (if gr_force c then AmbiguousForced else AmbiguousAuthority)
          else Ok \<lparr> dn_pod = ia_pod a, dn_ordinal = ia_instance a, dn_mode = ''auto'',
                    dn_probe = probe_wsrep (ia_pod a) (probe (ia_pod a)) \<rparr>)"

definition resolve_donor ::
  "galera_repair_conf \<Rightarrow> triage_result \<Rightarrow> (string, string) result \<Rightarrow> (string \<Rightarrow> probe_view) \<Rightarrow> (donor_error, donor_selection) result" where
  "resolve_donor c t phase probe =
     (case gr_donor c of Some n \<Rightarrow> resolve_explicit c n phase probe | None \<Rightarrow> resolve_auto c t probe)"

section \<open>The safety gate and the cleanup\<close>

datatype galera_gate_error = NoJoinTarget | GateSuspendFailed | GateDonor donor_error

text \<open>What the calls of the gate and of the cleanup answer: the suspension, the declared donor's pod,
  the probes, the resumption after a failed resolution, and the cleanup's resumption.\<close>

record galera_gate_env =
  gg_suspend :: outcome
  gg_phase :: "(string, string) result"
  gg_probe :: "string \<Rightarrow> probe_view"
  gg_resume :: outcome
  gg_cleanup :: outcome

definition galera_gate ::
  "galera_repair_conf \<Rightarrow> galera_gate_env \<Rightarrow> triage_result \<Rightarrow> galera_world \<Rightarrow> galera_gate_error option \<times> galera_world" where
  "galera_gate c e t w =
     (if tr_all_down t \<or> dc_primary_members (tr_comparison t) = [] then (Some NoJoinTarget, w)
      else (case call (gg_suspend e) (on_cluster suspend_cr) w of
              (False, w1) \<Rightarrow> (Some GateSuspendFailed, w1)
            | (True, w1) \<Rightarrow>
                let w2 = w1\<lparr> gw_held := True \<rparr> in
                (case resolve_donor c t (gg_phase e) (gg_probe e) of
                   Inl err \<Rightarrow> (Some (GateDonor err), (snd (call (gg_resume e) (on_cluster resume_cr) w2))\<lparr> gw_held := False \<rparr>)
                 | Inr d \<Rightarrow> (None, w2\<lparr> gw_donor := Some d \<rparr>))))"

definition galera_cleanup :: "galera_gate_env \<Rightarrow> galera_world \<Rightarrow> galera_world" where
  "galera_cleanup e w =
     (if \<not> gw_held w then w
      else (case call (gg_cleanup e) (on_cluster resume_cr) w of
              (False, w1) \<Rightarrow> w1 | (True, w1) \<Rightarrow> w1\<lparr> gw_held := False \<rparr>))"

section \<open>Helper scripts\<close>

text \<open>The scripts as lists of steps on the node's claims.  Without the wipe flag the state file is copied
  beside itself and overwritten, and the cache moved away; with it the data directory is emptied.\<close>

definition blank_state_file :: string where
  "blank_state_file =
     ''# GALERA saved state'' @ [NL] @ ''version: 2.1'' @ [NL]
     @ ''uuid:    00000000-0000-0000-0000-000000000000'' @ [NL] @ ''seqno:   -1'' @ [NL]
     @ ''safe_to_bootstrap: 0'' @ [NL]"

definition keep_state :: "node_disk \<Rightarrow> node_disk" where
  "keep_state d = (if nd_state d = None then d else d\<lparr> nd_state_kept := nd_state d \<rparr>)"

definition blank_state :: "node_disk \<Rightarrow> node_disk" where
  "blank_state d = d\<lparr> nd_state := Some blank_state_file \<rparr>"

definition move_cache :: "node_disk \<Rightarrow> node_disk" where
  "move_cache d = (if nd_cache d = None then d else d\<lparr> nd_cache := None, nd_cache_kept := nd_cache d \<rparr>)"

definition empty_datadir :: "node_disk \<Rightarrow> node_disk" where
  "empty_datadir d = d\<lparr> nd_data := None, nd_state := None, nd_state_kept := None, nd_cache := None, nd_cache_kept := None,
     nd_view := False, nd_redo := False \<rparr>"

definition drop_bootstrap :: "node_disk \<Rightarrow> node_disk" where
  "drop_bootstrap d = d\<lparr> nd_bootstrap := False \<rparr>"

definition storage_script :: "bool \<Rightarrow> (node_disk \<Rightarrow> node_disk) list" where
  "storage_script wipe = (if wipe then [empty_datadir] else [keep_state, blank_state, move_cache])"

definition galera_script :: "(node_disk \<Rightarrow> node_disk) list" where
  "galera_script = [drop_bootstrap]"

definition run_script :: "(node_disk \<Rightarrow> node_disk) list \<Rightarrow> node_disk \<Rightarrow> node_disk" where
  "run_script steps d = fold (\<lambda>f. f) steps d"

text \<open>\<open>RunHelperPod\<close>: the script ran to its end, or an error with the number of steps that ran.\<close>

datatype helper_answer = HelperOk | HelperErr string nat

definition is_mount_error :: "string \<Rightarrow> bool" where
  "is_mount_error msg \<longleftrightarrow>
     list_ex (str_contains msg) [''Multi-Attach'', ''already attached'', ''device busy'', ''FailedAttachVolume'', ''FailedMount'', ''timed out'']"

datatype galera_heal_error =
    LowerOrdinal int int | DonorUnprobedNow string | DonorUnsuitableNow string
  | StatefulSetUnread string | PodsUnlisted string | NoClusterPods | NoOtherRunning
  | HealSuspendFailed | ScaleDownFailed | PodNotGone string
  | HelperFailed string | HelperGaveUp string | HelperStays
  | ScaleUpFailed | HealResumeFailed | NodeNeverReady string

fun run_helper_with_retry ::
  "(nat \<Rightarrow> helper_answer) \<Rightarrow> string \<Rightarrow> (node_disk \<Rightarrow> node_disk) list \<Rightarrow> string \<Rightarrow> nat \<Rightarrow> nat \<Rightarrow> galera_world
     \<Rightarrow> galera_heal_error option \<times> galera_world" where
  "run_helper_with_retry ans p steps prev attempt 0 w = (Some (HelperGaveUp prev), w)"
| "run_helper_with_retry ans p steps prev attempt (Suc left) w =
     (case ans attempt of
        HelperOk \<Rightarrow> (None, on_disk p (run_script steps) w)
      | HelperErr msg k \<Rightarrow>
          let w1 = on_disk p (run_script (take k steps)) w in
          if \<not> is_mount_error msg then (Some (HelperFailed msg), w1)
          else run_helper_with_retry ans p steps msg (Suc attempt) left w1)"


section \<open>The heal of one node\<close>

text \<open>The answers of a heal: whether the node has a configuration claim, the StatefulSet and its pods
  (name and phase) for the coarse check, and one outcome, poll or helper answer per call.\<close>

record galera_heal_env =
  gh_boot_claim :: bool
  gh_sts :: "(string, unit) result"
  gh_pods :: "(string, (string \<times> string) list) result"
  gh_suspend :: outcome
  gh_scale_down :: outcome
  gh_gone :: "nat \<Rightarrow> bool"
  gh_wipe :: "nat \<Rightarrow> helper_answer"
  gh_unboot :: "nat \<Rightarrow> helper_answer"
  gh_wiper_gone :: "nat \<Rightarrow> bool"
  gh_unbooter_gone :: "nat \<Rightarrow> bool"
  gh_scale_up :: outcome
  gh_resume :: outcome
  gh_ready :: "nat \<Rightarrow> bool"
  gh_rescue_scale :: outcome
  gh_rescue_resume :: outcome

definition others_running :: "galera_heal_env \<Rightarrow> string \<Rightarrow> galera_heal_error option" where
  "others_running e pod =
     (case gh_sts e of
        Inl err \<Rightarrow> Some (StatefulSetUnread err)
      | Inr _ \<Rightarrow>
          (case gh_pods e of
             Inl err \<Rightarrow> Some (PodsUnlisted err)
           | Inr ps \<Rightarrow>
               if ps = [] then Some NoClusterPods
               else if list_ex (\<lambda>(n, ph). n \<noteq> pod \<and> ph = ''Running'') ps then None else Some NoOtherRunning))"

definition join_guard :: "galera_heal_env \<Rightarrow> string \<Rightarrow> galera_world \<Rightarrow> galera_heal_error option" where
  "join_guard e pod w =
     (case gw_donor w of
        Some d \<Rightarrow> if \<not> dp_exec_ok (dn_probe d) then Some (DonorUnprobedNow (dn_pod d))
                  else if \<not> suitable (dn_probe d) then Some (DonorUnsuitableNow (dn_pod d)) else None
      | None \<Rightarrow> others_running e pod)"

text \<open>The rescue: the scale when the node was scaled away, the operator when it was suspended; the
  answers of both calls are not looked at.\<close>

definition heal_rescue :: "galera_heal_env \<Rightarrow> int \<Rightarrow> bool \<Rightarrow> bool \<Rightarrow> galera_world \<Rightarrow> galera_world" where
  "heal_rescue e replicas scaled suspended w =
     (let w1 = (if scaled then snd (call (gh_rescue_scale e) (on_cluster (scale_stateful_set replicas)) w) else w) in
      if suspended then (snd (call (gh_rescue_resume e) (on_cluster resume_cr) w1))\<lparr> gw_held := False \<rparr> else w1)"

definition timeout_or :: "int \<Rightarrow> int \<Rightarrow> int" where "timeout_or t d = (if t \<le> 0 then d else t)"
definition default_heal_timeout :: int where "default_heal_timeout = 600"

text \<open>STEP 5: scale up, resume, and the wait for readiness.\<close>

definition heal_return :: "galera_repair_conf \<Rightarrow> galera_heal_env \<Rightarrow> string \<Rightarrow> galera_world \<Rightarrow> galera_heal_error option \<times> galera_world" where
  "heal_return c e pod w =
     (case call (gh_scale_up e) (on_cluster (scale_stateful_set (gr_replicas c))) w of
        (False, w1) \<Rightarrow> (Some ScaleUpFailed, heal_rescue e (gr_replicas c) True True w1)
      | (True, w1) \<Rightarrow>
          (case call (gh_resume e) (on_cluster resume_cr) w1 of
             (False, w2) \<Rightarrow> (Some HealResumeFailed, heal_rescue e (gr_replicas c) False True w2)
           | (True, w2) \<Rightarrow>
               (if poll_until (gh_ready e) 0 (nat (timeout_or (gr_heal_timeout c) default_heal_timeout div 10)) then None
                else Some (NodeNeverReady pod), w2\<lparr> gw_held := False \<rparr>)))"

text \<open>STEPs 3 and 4: the wipe, the bootstrap configuration, and the wait for both helpers.\<close>

definition unboot_step ::
  "galera_heal_env \<Rightarrow> string \<Rightarrow> galera_world \<Rightarrow> galera_heal_error option \<times> galera_world" where
  "unboot_step e pod w =
     (if gh_boot_claim e then run_helper_with_retry (gh_unboot e) pod galera_script '''' 1 3 w else (None, w))"

definition helpers_gone :: "galera_heal_env \<Rightarrow> bool" where
  "helpers_gone e \<longleftrightarrow>
     poll_until (gh_wiper_gone e) 0 30 \<and> (gh_boot_claim e \<longrightarrow> poll_until (gh_unbooter_gone e) 0 30)"

definition heal_wipe :: "galera_repair_conf \<Rightarrow> galera_heal_env \<Rightarrow> string \<Rightarrow> galera_world \<Rightarrow> galera_heal_error option \<times> galera_world" where
  "heal_wipe c e pod w =
     (case run_helper_with_retry (gh_wipe e) pod (storage_script (gr_wipe c)) '''' 1 3 w of
        (Some err, w1) \<Rightarrow> (Some err, w1)
      | (None, w1) \<Rightarrow>
          (case unboot_step e pod w1 of
             (Some err, w2) \<Rightarrow> (Some err, w2)
           | (None, w2) \<Rightarrow> (if helpers_gone e then None else Some HelperStays, w2)))"

text \<open>STEP 2 and what follows it, with the operator suspended.\<close>

definition heal_offline ::
  "galera_repair_conf \<Rightarrow> galera_heal_env \<Rightarrow> string \<Rightarrow> int \<Rightarrow> galera_world \<Rightarrow> galera_heal_error option \<times> galera_world" where
  "heal_offline c e pod n w =
     (case call (gh_scale_down e) (on_cluster (scale_stateful_set n)) w of
        (False, w1) \<Rightarrow> (Some ScaleDownFailed, heal_rescue e (gr_replicas c) False True w1)
      | (True, w1) \<Rightarrow>
          if \<not> poll_until (gh_gone e) 0 (nat (timeout_or (gr_delete_timeout c) default_delete_timeout div 5))
          then (Some (PodNotGone pod), heal_rescue e (gr_replicas c) True True w1)
          else (case heal_wipe c e pod w1 of
                  (Some err, w2) \<Rightarrow> (Some err, heal_rescue e (gr_replicas c) True True w2)
                | (None, w2) \<Rightarrow> heal_return c e pod w2))"

definition heal_node ::
  "galera_repair_conf \<Rightarrow> galera_heal_env \<Rightarrow> string \<Rightarrow> int \<Rightarrow> galera_world \<Rightarrow> galera_heal_error option \<times> galera_world" where
  "heal_node c e pod n w =
     (if n < gr_replicas c - 1 then (Some (LowerOrdinal n (gr_replicas c)), w)
      else (case join_guard e pod w of
              Some err \<Rightarrow> (Some err, w)
            | None \<Rightarrow>
                if gw_held w then heal_offline c e pod n w
                else (case call (gh_suspend e) (on_cluster suspend_cr) w of
                        (False, w1) \<Rightarrow> (Some HealSuspendFailed, w1)
                      | (True, w1) \<Rightarrow> heal_offline c e pod n (w1\<lparr> gw_held := True \<rparr>))))"

section \<open>Verification\<close>

definition verify_galera_timeout :: int where "verify_galera_timeout = 300 * nanos"

record galera_verify_env =
  gv_start :: int
  gv_clock :: "nat \<Rightarrow> int"
  gv_cancelled :: "nat \<Rightarrow> string option"
  gv_probe :: "nat \<Rightarrow> string \<Rightarrow> probe_view"

datatype galera_verify_failure = NotSynced "string list" | SyncedForever

definition synced_probe :: "string list \<Rightarrow> (string \<Rightarrow> probe_view) \<Rightarrow> (string, string list) result" where
  "synced_probe healed view = Ok (filter (\<lambda>p. \<not> suitable (probe_wsrep p (view p))) healed)"

definition galera_verify :: "galera_verify_env \<Rightarrow> string list \<Rightarrow> galera_verify_failure option" where
  "galera_verify e healed =
     (case await_recovery (\<lambda>i. synced_probe healed (gv_probe e i)) (gv_clock e) (gv_cancelled e)
             (gv_start e + verify_galera_timeout) verify_interval 0 [] None of
        None \<Rightarrow> Some SyncedForever
      | Some (ps, _) \<Rightarrow> if ps = [] then None else Some (NotSynced ps))"

section \<open>The engine\<close>

record galera_repair_env =
  gre_conf :: galera_repair_conf
  gre_triage :: "(string, triage_result) result"
  gre_gate :: galera_gate_env
  gre_escrow :: repair_escrow_env
  gre_claim :: "(string, unit) result"
  gre_heal :: "string \<Rightarrow> galera_heal_env"
  gre_post :: "triage_result option"
  gre_verify :: galera_verify_env

datatype galera_error =
    GaleraTriage string | GaleraGate galera_gate_error | GaleraEscrow repair_escrow_error | GaleraPlan plan_error
  | GaleraHeal galera_heal_error | GaleraVerify galera_verify_failure

definition galera_escrow :: "galera_repair_env \<Rightarrow> triage_result \<Rightarrow> galera_world \<Rightarrow> galera_error option \<times> galera_world" where
  "galera_escrow e t w =
     (case run_escrow (gre_escrow e) t (case gw_donor w of None \<Rightarrow> '''' | Some d \<Rightarrow> dn_pod d) of
        Inl err \<Rightarrow> (Some (GaleraEscrow err), w)
      | Inr c \<Rightarrow> (None, w\<lparr> gw_copies := c # gw_copies w \<rparr>))"

definition galera_plan_hook :: "galera_repair_env \<Rightarrow> triage_result \<Rightarrow> (galera_error, heal_target list) result" where
  "galera_plan_hook e t =
     (let c = gre_conf e in
      case galera_plan (gr_cluster c) (gr_instance c) (gr_force c) (gre_claim e) t of
        Inl err \<Rightarrow> Err (GaleraPlan err) | Inr ts \<Rightarrow> Ok ts)"

definition galera_heal_hook :: "galera_repair_env \<Rightarrow> heal_target \<Rightarrow> galera_world \<Rightarrow> galera_error option \<times> galera_world" where
  "galera_heal_hook e t w =
     (case heal_node (gre_conf e) (gre_heal e (ht_pod t)) (ht_pod t) (ht_instance t) w of
        (err, w') \<Rightarrow> (map_option GaleraHeal err, w'))"

definition galera_repairer :: "galera_repair_env \<Rightarrow> (galera_world, galera_error) repairer" where
  "galera_repairer e = \<lparr> hk_name = ''galera'', hk_dry_run = gr_dry_run (gre_conf e),
     hk_lock = (\<lambda>w. (None, w)), hk_release = (\<lambda>w. w), hk_cleanup = galera_cleanup (gre_gate e),
     hk_pre = (\<lambda>w. (PreGoOn, w)),
     hk_assess = (\<lambda>w. (case gre_triage e of Inl err \<Rightarrow> Err (GaleraTriage err) | Inr t \<Rightarrow> Ok t, w)),
     hk_gate = (\<lambda>t w. case galera_gate (gre_conf e) (gre_gate e) t w of (err, w') \<Rightarrow> (map_option GaleraGate err, w')),
     hk_escrow = galera_escrow e, hk_plan = (\<lambda>t w. galera_plan_hook e t), hk_heal = galera_heal_hook e,
     hk_stabilize = (\<lambda>w. w), hk_reassess = (\<lambda>w. (gre_post e, w)),
     hk_verify = (\<lambda>hs w. (map_option GaleraVerify (galera_verify (gre_verify e) hs), w)) \<rparr>"

section \<open>What a heal changes\<close>

lemma on_cluster_fields [simp]:
  "gw_cluster (on_cluster f w) = f (gw_cluster w)" "gw_held (on_cluster f w) = gw_held w"
  "gw_donor (on_cluster f w) = gw_donor w" "gw_disk (on_cluster f w) = gw_disk w" "gw_copies (on_cluster f w) = gw_copies w"
  by (simp_all add: on_cluster_def)

lemma on_disk_fields [simp]:
  "gw_cluster (on_disk p f w) = gw_cluster w" "gw_held (on_disk p f w) = gw_held w"
  "gw_donor (on_disk p f w) = gw_donor w" "gw_disk (on_disk p f w) v = (if v = p then f (gw_disk w p) else gw_disk w v)"
  by (simp_all add: on_disk_def)

lemma call_world [simp]:
  "gw_held (snd (call a (on_cluster f) w)) = gw_held w" "gw_donor (snd (call a (on_cluster f) w)) = gw_donor w"
  "gw_disk (snd (call a (on_cluster f) w)) = gw_disk w"
  by (cases a; simp)+

lemma rescue_frame [simp]:
  "gw_disk (heal_rescue e n sc su w) = gw_disk w" "gw_donor (heal_rescue e n sc su w) = gw_donor w"
  by (simp_all add: heal_rescue_def Let_def)

lemma helper_frame:
  "gw_cluster (snd (run_helper_with_retry ans p steps prev i k w)) = gw_cluster w"
  "gw_held (snd (run_helper_with_retry ans p steps prev i k w)) = gw_held w"
  "gw_donor (snd (run_helper_with_retry ans p steps prev i k w)) = gw_donor w"
  "v \<noteq> p \<Longrightarrow> gw_disk (snd (run_helper_with_retry ans p steps prev i k w)) v = gw_disk w v"
  by (induction ans p steps prev i k w rule: run_helper_with_retry.induct)
    (simp_all add: Let_def split: helper_answer.split)

lemma unboot_frame:
  "gw_cluster (snd (unboot_step e p w)) = gw_cluster w" "gw_held (snd (unboot_step e p w)) = gw_held w"
  "gw_donor (snd (unboot_step e p w)) = gw_donor w" "v \<noteq> p \<Longrightarrow> gw_disk (snd (unboot_step e p w)) v = gw_disk w v"
  by (simp_all add: unboot_step_def helper_frame)

lemma wipe_frame:
  "gw_cluster (snd (heal_wipe c e p w)) = gw_cluster w" "gw_held (snd (heal_wipe c e p w)) = gw_held w"
  "gw_donor (snd (heal_wipe c e p w)) = gw_donor w" "v \<noteq> p \<Longrightarrow> gw_disk (snd (heal_wipe c e p w)) v = gw_disk w v"
  using helper_frame[where ans = "gh_wipe e" and p = p and steps = "storage_script (gr_wipe c)" and prev = "[]" and i = 1 and k = 3 and w = w]
    unboot_frame[where e = e and p = p and w = "snd (run_helper_with_retry (gh_wipe e) p (storage_script (gr_wipe c)) [] 1 3 w)"]
  by (auto simp: heal_wipe_def split: prod.split option.split)

lemma return_frame [simp]:
  "gw_disk (snd (heal_return c e p w)) = gw_disk w" "gw_donor (snd (heal_return c e p w)) = gw_donor w"
  by (cases "gh_scale_up e"; cases "gh_resume e"; simp add: heal_return_def)+

section \<open>The operator and the scale come back\<close>

text \<open>A refused rescue, or a suspension or scale-down that took effect although its answer was lost, leaves
  the cluster changed; the environment is calm when none of that happens.\<close>

definition calm_heal :: "galera_heal_env \<Rightarrow> bool" where
  "calm_heal e \<longleftrightarrow> gh_suspend e \<noteq> AppliedLost \<and> gh_scale_down e \<noteq> AppliedLost \<and>
     gh_rescue_scale e \<noteq> Refused \<and> gh_rescue_resume e \<noteq> Refused"

definition calm :: "galera_repair_env \<Rightarrow> bool" where
  "calm e \<longleftrightarrow> gg_suspend (gre_gate e) \<noteq> AppliedLost \<and> gg_resume (gre_gate e) \<noteq> Refused \<and>
     gg_cleanup (gre_gate e) \<noteq> Refused \<and> (\<forall>p. calm_heal (gre_heal e p))"

text \<open>At every step boundary the operator is suspended only if the repair knows it, and the
  StatefulSet has its replicas.\<close>

definition accounted :: "int \<Rightarrow> galera_world \<Rightarrow> bool" where
  "accounted n w \<longleftrightarrow> (gc_suspend (gw_cluster w) \<longrightarrow> gw_held w) \<and> gc_replicas (gw_cluster w) = n"

lemma suspend_fields [simp]:
  "gc_suspend (suspend_cr s)" "\<not> gc_suspend (resume_cr s)" "gc_suspend (scale_stateful_set n s) = gc_suspend s"
  "gc_replicas (suspend_cr s) = gc_replicas s" "gc_replicas (resume_cr s) = gc_replicas s"
  "gc_replicas (scale_stateful_set n s) = n"
  by (simp_all add: cluster_ops)

lemma rescue_accounts:
  assumes "calm_heal e" "sc \<or> gc_replicas (gw_cluster w) = n"
  shows "accounted n (heal_rescue e n sc True w)"
  using assms
  by (cases "gh_rescue_scale e"; cases "gh_rescue_resume e"; cases sc)
    (auto simp: heal_rescue_def calm_heal_def accounted_def Let_def)

lemma return_accounts:
  assumes "calm_heal e"
  shows "accounted (gr_replicas c) (snd (heal_return c e p w))"
proof (cases "gh_scale_up e = Applied")
  case True
  show ?thesis
  proof (cases "gh_resume e = Applied")
    case True
    then show ?thesis using \<open>gh_scale_up e = Applied\<close> by (simp add: heal_return_def accounted_def)
  next
    case False
    obtain w2 where "call (gh_resume e) (on_cluster resume_cr) (on_cluster (scale_stateful_set (gr_replicas c)) w) = (False, w2)"
      "gc_replicas (gw_cluster w2) = gr_replicas c"
      using False by (cases "gh_resume e") simp_all
    then show ?thesis using True rescue_accounts[OF assms] by (simp add: heal_return_def)
  qed
next
  case False
  obtain w1 where "call (gh_scale_up e) (on_cluster (scale_stateful_set (gr_replicas c))) w = (False, w1)"
    using False by (cases "gh_scale_up e") simp_all
  then show ?thesis using rescue_accounts[OF assms] by (simp add: heal_return_def)
qed

lemma offline_accounts:
  assumes "calm_heal e" "gc_replicas (gw_cluster w) = gr_replicas c"
  shows "accounted (gr_replicas c) (snd (heal_offline c e p n w))"
proof (cases "gh_scale_down e")
  case Applied
  then show ?thesis using return_accounts[OF assms(1)] rescue_accounts[OF assms(1)]
    by (simp add: heal_offline_def split: prod.split option.split)
next
  case Refused
  then show ?thesis using rescue_accounts[OF assms(1)] assms(2) by (simp add: heal_offline_def)
next
  case AppliedLost
  then show ?thesis using assms(1) by (simp add: calm_heal_def)
qed

lemma heal_node_accounts:
  assumes "calm_heal e" "accounted (gr_replicas c) w"
  shows "accounted (gr_replicas c) (snd (heal_node c e p n w))"
proof -
  have r: "gc_replicas (gw_cluster w) = gr_replicas c" using assms(2) by (simp add: accounted_def)
  have h: "accounted (gr_replicas c) (snd (heal_offline c e p n w))" using offline_accounts[OF assms(1) r] .
  show ?thesis
  proof (cases "gh_suspend e")
    case Applied
    let ?w = "(on_cluster suspend_cr w)\<lparr>gw_held := True\<rparr>"
    have "accounted (gr_replicas c) (snd (heal_offline c e p n ?w))"
      by (rule offline_accounts[OF assms(1)]) (simp add: r)
    then show ?thesis using h assms(2) Applied by (simp add: heal_node_def split: option.split)
  qed (use h assms in \<open>simp_all add: heal_node_def calm_heal_def split: option.split\<close>)
qed

lemma gate_accounts:
  assumes "gg_suspend e \<noteq> AppliedLost" "gg_resume e \<noteq> Refused" "accounted n w"
  shows "accounted n (snd (galera_gate c e t w))"
  using assms
  by (cases "gg_suspend e"; cases "gg_resume e")
    (simp_all add: galera_gate_def accounted_def Let_def split: sum.split)

interpretation galera_inv: run_invariant "galera_repairer e" "\<lambda>w. calm e \<longrightarrow> accounted (gr_replicas (gre_conf e)) w"
proof
  fix t s assume i: "calm e \<longrightarrow> accounted (gr_replicas (gre_conf e)) s"
  show "calm e \<longrightarrow> accounted (gr_replicas (gre_conf e)) (snd (hk_gate (galera_repairer e) t s))"
  proof
    assume c: "calm e"
    have "accounted (gr_replicas (gre_conf e)) (snd (galera_gate (gre_conf e) (gre_gate e) t s))"
      by (rule gate_accounts) (use c i in \<open>simp_all add: calm_def\<close>)
    then show "accounted (gr_replicas (gre_conf e)) (snd (hk_gate (galera_repairer e) t s))"
      by (simp add: galera_repairer_def split_beta)
  qed
next
  fix tg s assume i: "calm e \<longrightarrow> accounted (gr_replicas (gre_conf e)) s"
  show "calm e \<longrightarrow> accounted (gr_replicas (gre_conf e)) (snd (hk_heal (galera_repairer e) tg s))"
  proof
    assume c: "calm e"
    have "accounted (gr_replicas (gre_conf e)) (snd (heal_node (gre_conf e) (gre_heal e (ht_pod tg)) (ht_pod tg) (ht_instance tg) s))"
      by (rule heal_node_accounts) (use c i in \<open>simp_all add: calm_def\<close>)
    then show "accounted (gr_replicas (gre_conf e)) (snd (hk_heal (galera_repairer e) tg s))"
      by (simp add: galera_repairer_def galera_heal_hook_def split_beta)
  qed
qed (auto simp: galera_repairer_def galera_escrow_def accounted_def split: sum.split)

text \<open>C22: A Galera repair leaves the operator running and the StatefulSet at its replicas whatever step
  fails, a repair that heals several nodes included, when its undo calls are not refused and no
  suspension or scale-down took effect behind a lost answer.\<close>

theorem galera_repair_restores_cluster:
  "if calm e \<and> accounted (gr_replicas (gre_conf e)) w \<and> \<not> gc_suspend (gw_cluster w)
   then \<not> gc_suspend (gw_cluster (snd (repair_run (galera_repairer e) w))) \<and>
        gc_replicas (gw_cluster (snd (repair_run (galera_repairer e) w))) = gr_replicas (gre_conf e)
   else True"
proof -
  let ?r = "galera_repairer e" and ?n = "gr_replicas (gre_conf e)"
  have "\<not> gc_suspend (gw_cluster (snd (repair_run ?r w))) \<and> gc_replicas (gw_cluster (snd (repair_run ?r w))) = ?n"
    if c: "calm e" and a: "accounted ?n w"
  proof -
    have run: "snd (repair_run ?r w) = galera_cleanup (gre_gate e) (snd (guarded_phases ?r w))"
      by (simp add: repair_run_def galera_repairer_def split_beta)
    have "accounted ?n (snd (guarded_phases ?r w))" using galera_inv.guarded_inv[of e w] c a by blast
    moreover have "gg_cleanup (gre_gate e) \<noteq> Refused" using c by (simp add: calm_def)
    ultimately show ?thesis
      unfolding run by (cases "gg_cleanup (gre_gate e)") (auto simp: galera_cleanup_def accounted_def)
  qed
  then show ?thesis by simp
qed

section \<open>What a run may change\<close>

lemma heal_node_frame:
  "v \<noteq> p \<Longrightarrow> gw_disk (snd (heal_node c e p n w)) v = gw_disk w v"
  "gw_donor (snd (heal_node c e p n w)) = gw_donor w"
proof -
  have o: "v \<noteq> p \<Longrightarrow> gw_disk (snd (heal_offline c e p n w)) v = gw_disk w v"
    "gw_donor (snd (heal_offline c e p n w)) = gw_donor w" for w
  proof -
    let ?w = "snd (call (gh_scale_down e) (on_cluster (scale_stateful_set n)) w)"
    obtain err w2 where h: "heal_wipe c e p ?w = (err, w2)" by fastforce
    have "gw_donor w2 = gw_donor w" "v \<noteq> p \<Longrightarrow> gw_disk w2 v = gw_disk w v"
      using wipe_frame(3)[of c e p ?w] wipe_frame(4)[of v p c e ?w] h by simp_all
    then show "v \<noteq> p \<Longrightarrow> gw_disk (snd (heal_offline c e p n w)) v = gw_disk w v"
      "gw_donor (snd (heal_offline c e p n w)) = gw_donor w"
      using h by (cases "gh_scale_down e"; simp add: heal_offline_def split: option.split)+
  qed
  show "v \<noteq> p \<Longrightarrow> gw_disk (snd (heal_node c e p n w)) v = gw_disk w v"
    "gw_donor (snd (heal_node c e p n w)) = gw_donor w"
    by (cases "gh_suspend e"; simp add: heal_node_def o split: option.split)+
qed

lemma heal_node_refuses:
  "n < gr_replicas c - 1 \<Longrightarrow> heal_node c e p n w = (Some (LowerOrdinal n (gr_replicas c)), w)"
  "join_guard e p w \<noteq> None \<Longrightarrow> gw_disk (snd (heal_node c e p n w)) = gw_disk w"
  by (auto simp: heal_node_def)

lemma heal_refused_disk:
  "gw_donor w = Some d \<Longrightarrow> \<not> suitable (dn_probe d) \<Longrightarrow> gw_disk (snd (heal_node c e p n w)) = gw_disk w"
  by (rule heal_node_refuses(2)) (simp add: join_guard_def)

text \<open>The claims a target's heal may change: its own, when it is the highest ordinal.\<close>

definition wiped_claims :: "galera_repair_env \<Rightarrow> heal_target \<Rightarrow> string set" where
  "wiped_claims e t = (if ht_instance t < gr_replicas (gre_conf e) - 1 then {} else {ht_pod t})"

definition donor_allows :: "galera_world \<Rightarrow> bool" where
  "donor_allows w \<longleftrightarrow> (case gw_donor w of None \<Rightarrow> True | Some d \<Rightarrow> suitable (dn_probe d))"

lemma cleanup_frame [simp]: "gw_disk (galera_cleanup e w) = gw_disk w"
  by (cases "gg_cleanup e"; simp add: galera_cleanup_def)

lemma gate_frame: "gw_disk (snd (galera_gate c e t w)) = gw_disk w"
  by (cases "gg_suspend e"; simp add: galera_gate_def Let_def split: sum.split)

lemma gate_passed:
  "galera_gate c e t w = (None, w') \<Longrightarrow> \<not> tr_all_down t \<and> dc_primary_members (tr_comparison t) \<noteq> [] \<and>
     (\<exists>d. resolve_donor c t (gg_phase e) (gg_probe e) = Ok d \<and> gw_donor w' = Some d)"
  by (cases "gg_suspend e") (auto simp: galera_gate_def Let_def split: sum.splits if_splits)

interpretation galera: gated_hooks "galera_repairer e" gw_disk "wiped_claims e" donor_allows
proof
  show "v \<notin> wiped_claims e tg \<Longrightarrow> gw_disk (snd (hk_heal (galera_repairer e) tg s)) v = gw_disk s v" for v tg s
    using heal_node_frame(1)[of v "ht_pod tg" "gre_conf e" "gre_heal e (ht_pod tg)" "ht_instance tg" s]
      heal_node_refuses(1)[of "ht_instance tg" "gre_conf e" "gre_heal e (ht_pod tg)" "ht_pod tg" s]
    by (auto simp: galera_repairer_def galera_heal_hook_def wiped_claims_def split_beta split: if_splits)
  show "gw_disk (snd (hk_gate (galera_repairer e) t s)) = gw_disk s" for t s
    by (simp add: galera_repairer_def split_beta gate_frame)
  show "donor_allows (snd (hk_heal (galera_repairer e) tg s)) = donor_allows s" for tg s
    by (simp add: galera_repairer_def galera_heal_hook_def split_beta donor_allows_def heal_node_frame)
  show "\<not> donor_allows s \<Longrightarrow> gw_disk (snd (hk_heal (galera_repairer e) tg s)) = gw_disk s" for tg s
    by (auto simp: galera_repairer_def galera_heal_hook_def split_beta donor_allows_def heal_refused_disk split: option.splits)
qed (auto simp: galera_repairer_def galera_escrow_def donor_allows_def split: sum.split)

text \<open>C21: A whole Galera repair changes a node's claims only of a planned target of the highest ordinal,
  never in a preview, only when triage saw a member of the primary component, when a donor was
  resolved whose own probe answered ready, connected and synced, after the escrow, and on an
  unsafe comparison only under force.\<close>

theorem galera_repair_touches_only:
  "if gw_disk (snd (repair_run (galera_repairer e) w)) v \<noteq> gw_disk w v
   then \<not> gr_dry_run (gre_conf e) \<and>
     (\<exists>t d c ts. gre_triage e = Ok t \<and> \<not> tr_all_down t \<and> dc_primary_members (tr_comparison t) \<noteq> [] \<and>
        resolve_donor (gre_conf e) t (gg_phase (gre_gate e)) (gg_probe (gre_gate e)) = Ok d \<and> suitable (dn_probe d) \<and>
        run_escrow (gre_escrow e) t (dn_pod d) = Ok c \<and> galera_plan_hook e t = Ok ts \<and>
        list_ex (\<lambda>tg. ht_pod tg = v \<and> gr_replicas (gre_conf e) - 1 \<le> ht_instance tg) ts \<and>
        \<not> (\<not> dc_safe_to_heal (tr_comparison t) \<and> \<not> gr_force (gre_conf e)))
   else True"
proof -
  let ?r = "galera_repairer e" and ?c = "gre_conf e"
  have "\<not> gr_dry_run ?c \<and>
     (\<exists>t d c ts. gre_triage e = Ok t \<and> \<not> tr_all_down t \<and> dc_primary_members (tr_comparison t) \<noteq> [] \<and>
        resolve_donor ?c t (gg_phase (gre_gate e)) (gg_probe (gre_gate e)) = Ok d \<and> suitable (dn_probe d) \<and>
        run_escrow (gre_escrow e) t (dn_pod d) = Ok c \<and> galera_plan_hook e t = Ok ts \<and>
        list_ex (\<lambda>tg. ht_pod tg = v \<and> gr_replicas ?c - 1 \<le> ht_instance tg) ts \<and>
        \<not> (\<not> dc_safe_to_heal (tr_comparison t) \<and> \<not> gr_force ?c))"
    if ch: "gw_disk (snd (repair_run ?r w)) v \<noteq> gw_disk w v"
  proof (rule galera.run_data_gated[OF ch])
    show "gw_disk (snd (hk_pre ?r s)) = gw_disk s" for s by (simp add: galera_repairer_def)
    fix s1 s2 t s3 s4 s5 ts
    assume h: "hk_assess ?r s2 = (Ok t, s3)" "\<not> hk_dry_run ?r" "hk_gate ?r t s3 = (None, s4)" "donor_allows s4"
      "hk_escrow ?r t s4 = (None, s5)" "hk_plan ?r t s5 = Ok ts" "v \<in> (\<Union>tg\<in>set ts. wiped_claims e tg)"
    have t: "gre_triage e = Ok t" using h(1) by (auto simp: galera_repairer_def split: sum.splits)
    have "galera_gate ?c (gre_gate e) t s3 = (None, s4)" using h(3) by (auto simp: galera_repairer_def split: prod.splits)
    from gate_passed[OF this] obtain d where g: "\<not> tr_all_down t" "dc_primary_members (tr_comparison t) \<noteq> []"
      "resolve_donor ?c t (gg_phase (gre_gate e)) (gg_probe (gre_gate e)) = Ok d" "gw_donor s4 = Some d" by blast
    have s: "suitable (dn_probe d)" using h(4) g(4) by (simp add: donor_allows_def)
    obtain c where c: "run_escrow (gre_escrow e) t (dn_pod d) = Ok c"
      using h(5) g(4) by (auto simp: galera_repairer_def galera_escrow_def split: sum.splits)
    have p: "galera_plan_hook e t = Ok ts" using h(6) by (simp add: galera_repairer_def)
    have tg: "list_ex (\<lambda>tg. ht_pod tg = v \<and> gr_replicas ?c - 1 \<le> ht_instance tg) ts"
      using h(7) by (auto simp: list_ex_iff wiped_claims_def split: if_splits)
    then have "ts \<noteq> []" by auto
    then have "\<not> (\<not> dc_safe_to_heal (tr_comparison t) \<and> \<not> gr_force ?c)"
      using p by (auto simp: galera_plan_hook_def galera_plan_def galera_plan_targeted_def build_untargeted_plan_def Let_def
          split: option.splits sum.splits if_splits)
    then show ?thesis using t g c p s tg h(2) by (auto simp: galera_repairer_def)
  qed
  then show ?thesis by simp
qed

section \<open>What a finished heal leaves behind\<close>

lemma on_disk_on_disk [simp]: "on_disk p f (on_disk p g w) = on_disk p (\<lambda>d. f (g d)) w"
  by (simp add: on_disk_def)

lemma run_script_simps [simp]:
  "run_script [] d = d" "run_script (f # fs) d = run_script fs (f d)"
  by (simp_all add: run_script_def)

text \<open>What holds of the node's claims after some prefix of the script, run or retried, holds after the heal.\<close>

lemma helper_done:
  assumes "run_helper_with_retry ans p steps prev i k w = (None, w')"
  shows "\<exists>d. gw_disk w' p = run_script steps d"
  using assms
proof (induction ans p steps prev i k w rule: run_helper_with_retry.induct)
  case (2 ans p steps prev i k w)
  show ?case
  proof (cases "ans i")
    case HelperOk
    then show ?thesis using 2(2) by auto
  next
    case (HelperErr msg n)
    then show ?thesis using 2 by (auto simp: Let_def split: if_splits)
  qed
qed simp

lemma boot_helper_done:
  "run_helper_with_retry ans p galera_script prev i k w = (None, w') \<Longrightarrow>
     gw_disk w' p = drop_bootstrap (gw_disk w p)"
proof (induction ans p "galera_script" prev i k w rule: run_helper_with_retry.induct)
  case (2 ans p prev i k w)
  show ?case
  proof (cases "ans i")
    case HelperOk
    then show ?thesis using 2(2) by (auto simp: galera_script_def)
  next
    case (HelperErr msg n)
    then show ?thesis using 2
      by (cases n) (auto simp: Let_def galera_script_def drop_bootstrap_def split: if_splits)
  qed
qed simp

lemma heal_done:
  assumes "heal_node c e p n w = (None, w')"
  shows "gr_replicas c - 1 \<le> n" "join_guard e p w = None" "\<not> gw_held w'" "\<not> gc_suspend (gw_cluster w')"
    "gc_replicas (gw_cluster w') = gr_replicas c"
    "\<exists>w1 w2. gw_disk w1 = gw_disk w \<and> heal_wipe c e p w1 = (None, w2) \<and> gw_disk w' = gw_disk w2"
proof -
  have off: "\<not> gw_held w' \<and> \<not> gc_suspend (gw_cluster w') \<and> gc_replicas (gw_cluster w') = gr_replicas c \<and>
      (\<exists>w1 w2. gw_disk w1 = gw_disk w0 \<and> heal_wipe c e p w1 = (None, w2) \<and> gw_disk w' = gw_disk w2)"
    if ok: "heal_offline c e p n w0 = (None, w')" for w0
  proof -
    let ?w1 = "on_cluster (scale_stateful_set n) w0"
    obtain w2 where w: "heal_wipe c e p ?w1 = (None, w2)" "heal_return c e p w2 = (None, w')"
      using ok by (cases "gh_scale_down e") (auto simp: heal_offline_def split: if_splits prod.splits option.splits)
    have "w' = (on_cluster resume_cr (on_cluster (scale_stateful_set (gr_replicas c)) w2))\<lparr> gw_held := False \<rparr>"
      using w(2) by (cases "gh_scale_up e"; cases "gh_resume e") (auto simp: heal_return_def split: if_splits)
    then show ?thesis using w(1) by (intro conjI exI[of _ ?w1] exI[of _ w2]) simp_all
  qed
  have g: "gr_replicas c - 1 \<le> n \<and> join_guard e p w = None"
    using assms by (auto simp: heal_node_def split: if_splits option.splits)
  then obtain w0 where "gw_disk w0 = gw_disk w" "heal_offline c e p n w0 = (None, w')"
  proof (cases "gw_held w")
    case False
    then show ?thesis using assms g that[of "(on_cluster suspend_cr w)\<lparr> gw_held := True \<rparr>"]
      by (cases "gh_suspend e") (simp_all add: heal_node_def)
  qed (use assms that[of w] in \<open>simp_all add: heal_node_def\<close>)
  then show "gr_replicas c - 1 \<le> n" "join_guard e p w = None" "\<not> gw_held w'" "\<not> gc_suspend (gw_cluster w')"
    "gc_replicas (gw_cluster w') = gr_replicas c"
    "\<exists>w1 w2. gw_disk w1 = gw_disk w \<and> heal_wipe c e p w1 = (None, w2) \<and> gw_disk w' = gw_disk w2"
    using off[of w0] g by auto
qed

lemma unboot_keeps:
  assumes "unboot_step e p w = (None, w')"
  shows "gw_disk w' p = (gw_disk w p)\<lparr> nd_bootstrap := nd_bootstrap (gw_disk w p) \<and> \<not> gh_boot_claim e \<rparr>"
  using assms boot_helper_done[of "gh_unboot e" p "[]" 1 3 w w']
  by (auto simp: unboot_step_def drop_bootstrap_def split: if_splits)

lemma wipe_done:
  assumes "heal_wipe c e p w = (None, w')"
  shows "\<exists>d. gw_disk w' p = (run_script (storage_script (gr_wipe c)) d)\<lparr> nd_bootstrap := nd_bootstrap (gw_disk w' p) \<rparr>"
    "gh_boot_claim e \<Longrightarrow> \<not> nd_bootstrap (gw_disk w' p)"
proof -
  obtain w1 where h: "run_helper_with_retry (gh_wipe e) p (storage_script (gr_wipe c)) [] 1 3 w = (None, w1)"
      "unboot_step e p w1 = (None, w')"
    using assms by (auto simp: heal_wipe_def split: prod.splits option.splits if_splits)
  obtain d where "gw_disk w1 p = run_script (storage_script (gr_wipe c)) d" using helper_done[OF h(1)] by blast
  then show "\<exists>d. gw_disk w' p = (run_script (storage_script (gr_wipe c)) d)\<lparr> nd_bootstrap := nd_bootstrap (gw_disk w' p) \<rparr>"
    using unboot_keeps[OF h(2)] by (intro exI[of _ d]) simp
  show "gh_boot_claim e \<Longrightarrow> \<not> nd_bootstrap (gw_disk w' p)" using unboot_keeps[OF h(2)] by simp
qed

text \<open>The state file a heal writes, as the triage reads it: no lineage, no position, not safe to bootstrap.\<close>

lemma blank_state_parsed:
  "parse_grastate p src blank_state_file = \<lparr> gs_pod = p, gs_source = src, gs_reachable = False, gs_uuid = zero_uuid,
     gs_seqno = ''-1'', gs_safe = ''0'' \<rparr>"
  by (simp add: parse_grastate_def blank_state_file_def split_lines_def split_n2_def grastate_line_def after_colon_def
      trim_space_def trim_left_def is_space_def has_prefix_def blank_grastate_def zero_uuid_def)

lemma script_result:
  "nd_data (run_script (storage_script True) d) = None" "nd_state (run_script (storage_script True) d) = None"
  "nd_state (run_script (storage_script False) d) = Some blank_state_file"
  by (simp_all add: storage_script_def empty_datadir_def keep_state_def blank_state_def move_cache_def)

lemma same_but_bootstrap: "d = d'\<lparr> nd_bootstrap := b \<rparr> \<Longrightarrow> nd_data d = nd_data d' \<and> nd_state d = nd_state d'"
  by (cases d') simp

text \<open>A heal that succeeds leaves the operator running, the StatefulSet at its replicas, no bootstrap
  configuration, and either an empty data directory or a state file that triage reads as a node
  without lineage or position that must not bootstrap.\<close>

theorem healed_node_rejoins_blank:
  "case heal_node c e p n w of
     (Some _, _) \<Rightarrow> True
   | (None, w') \<Rightarrow>
       \<not> gc_suspend (gw_cluster w') \<and> gc_replicas (gw_cluster w') = gr_replicas c \<and>
       (if gh_boot_claim e then \<not> nd_bootstrap (gw_disk w' p) else True) \<and>
       (if gr_wipe c then nd_data (gw_disk w' p) = None \<and> nd_state (gw_disk w' p) = None
        else (case nd_state (gw_disk w' p) of
                None \<Rightarrow> False
              | Some raw \<Rightarrow> parse_grastate p src raw = \<lparr> gs_pod = p, gs_source = src, gs_reachable = False,
                              gs_uuid = zero_uuid, gs_seqno = ''-1'', gs_safe = ''0'' \<rparr>))"
proof (cases "heal_node c e p n w")
  case (Pair err w')
  show ?thesis
  proof (cases err)
    case None
    then have h: "heal_node c e p n w = (None, w')" using Pair by simp
    obtain w1 w2 where w: "heal_wipe c e p w1 = (None, w2)" "gw_disk w' = gw_disk w2" using heal_done(6)[OF h] by blast
    obtain d where "gw_disk w' p = (run_script (storage_script (gr_wipe c)) d)\<lparr> nd_bootstrap := nd_bootstrap (gw_disk w' p) \<rparr>"
      using wipe_done(1)[OF w(1)] w(2) by auto
    then have "if gr_wipe c then nd_data (gw_disk w' p) = None \<and> nd_state (gw_disk w' p) = None
        else nd_state (gw_disk w' p) = Some blank_state_file"
      using script_result[of d] by (cases "gr_wipe c") (auto dest!: same_but_bootstrap)
    then show ?thesis using h heal_done[OF h] wipe_done(2)[OF w(1)] w(2) blank_state_parsed by (auto split: if_splits)
  qed (use Pair in simp)
qed

section \<open>Where a heal works\<close>

text \<open>A heal writes to the node's claims only with the operator suspended, the node scaled away and its
  pod observed gone.\<close>

theorem heal_works_offline:
  "if gw_disk (snd (heal_node c e p n w)) \<noteq> gw_disk w
   then (if gw_held w then True else gh_suspend e = Applied) \<and> gh_scale_down e = Applied \<and>
        (\<exists>i. i < nat (timeout_or (gr_delete_timeout c) default_delete_timeout div 5) \<and> gh_gone e i)
   else True"
proof -
  have off: "gh_scale_down e = Applied \<and> poll_until (gh_gone e) 0 (nat (timeout_or (gr_delete_timeout c) default_delete_timeout div 5))"
    if "gw_disk (snd (heal_offline c e p n w0)) \<noteq> gw_disk w0" for w0
    using that by (cases "gh_scale_down e") (auto simp: heal_offline_def split: if_splits)
  have "(if gw_held w then True else gh_suspend e = Applied) \<and> gh_scale_down e = Applied \<and>
        (\<exists>i. i < nat (timeout_or (gr_delete_timeout c) default_delete_timeout div 5) \<and> gh_gone e i)"
    if ch: "gw_disk (snd (heal_node c e p n w)) \<noteq> gw_disk w"
  proof (cases "gw_held w")
    case True
    then have "gw_disk (snd (heal_offline c e p n w)) \<noteq> gw_disk w"
      using ch by (auto simp: heal_node_def split: if_splits option.splits)
    from off[OF this] poll_until_seen[of "gh_gone e" 0] show ?thesis using True by force
  next
    case False
    have s: "gh_suspend e = Applied" "gw_disk (snd (heal_offline c e p n ((on_cluster suspend_cr w)\<lparr> gw_held := True \<rparr>))) \<noteq> gw_disk w"
      using ch False by (cases "gh_suspend e"; auto simp: heal_node_def split: if_splits option.splits)+
    from off[of "(on_cluster suspend_cr w)\<lparr> gw_held := True \<rparr>"] s poll_until_seen[of "gh_gone e" 0] show ?thesis using False by force
  qed
  then show ?thesis by simp
qed

section \<open>The copy of the state file\<close>

text \<open>The wipe keeps a copy of the state file; a retry after a lost answer overwrites that copy with the
  blank file, so the node's last recorded position is gone.\<close>

theorem retried_wipe_loses_position:
  "nd_state_kept (gw_disk (snd (run_helper_with_retry (\<lambda>i. HelperOk) p (storage_script False) '''' 1 3 w)) p)
     = (case nd_state (gw_disk w p) of None \<Rightarrow> nd_state_kept (gw_disk w p) | Some s \<Rightarrow> Some s) \<and>
   nd_state_kept (gw_disk (snd (run_helper_with_retry
       (\<lambda>i. if i = 1 then HelperErr (''helper pod '' @ h @ '' timed out'') 3 else HelperOk) p (storage_script False) '''' 1 3 w)) p)
     = Some blank_state_file"
proof -
  have "is_mount_error (''helper pod '' @ h @ '' timed out'')"
    unfolding is_mount_error_def list_ex_iff
  proof (intro bexI[of _ "''timed out''"])
    show "str_contains (''helper pod '' @ h @ '' timed out'') ''timed out''"
      unfolding str_contains_iff by (intro exI[of _ "''helper pod '' @ h @ '' ''"] exI[of _ "''''"]) simp
  qed simp
  then show ?thesis
    by (simp add: numeral_3_eq_3 storage_script_def keep_state_def blank_state_def move_cache_def split: option.split)
qed

section \<open>What no guard refuses\<close>

text \<open>The declared donor may be the node that is healed: the plan, the gate and the guard before the wipe
  do not compare the two.\<close>

lemma donor_may_be_target:
  assumes "resolve_explicit c n phase probe = Ok d"
  shows "dn_pod d = instance_pod (gr_cluster c) n"
    "join_guard e (instance_pod (gr_cluster c) n) (w\<lparr> gw_donor := Some d \<rparr>) = None"
  using assms by (auto simp: resolve_explicit_def Let_def join_guard_def suitable_def split: sum.splits if_splits)

text \<open>A resumption that is refused when no donor is found is forgotten: the cleanup does not try again.\<close>

lemma forgotten_suspension:
  assumes "gre_triage e = Ok t" "\<not> gr_dry_run (gre_conf e)" "\<not> tr_all_down t" "dc_primary_members (tr_comparison t) \<noteq> []"
    "gg_suspend (gre_gate e) = Applied" "gg_resume (gre_gate e) = Refused"
    "resolve_donor (gre_conf e) t (gg_phase (gre_gate e)) (gg_probe (gre_gate e)) = Err err"
  shows "gc_suspend (gw_cluster (snd (repair_run (galera_repairer e) w)))"
  using assms
  by (simp add: repair_run_def guarded_phases_def mutate_phases_def galera_repairer_def galera_gate_def Let_def galera_cleanup_def)

section \<open>Verification of the healed nodes\<close>

text \<open>A verification that passes has seen every healed node ready, connected and synced in one round of probes.\<close>

theorem verified_means_synced:
  "if galera_verify e healed = None
   then \<exists>i. list_all (\<lambda>p. suitable (probe_wsrep p (gv_probe e i p))) healed
   else True"
proof -
  have "\<exists>i. list_all (\<lambda>p. suitable (probe_wsrep p (gv_probe e i p))) healed" if h: "galera_verify e healed = None"
  proof -
    obtain err where a: "await_recovery (\<lambda>i. synced_probe healed (gv_probe e i)) (gv_clock e) (gv_cancelled e)
        (gv_start e + verify_galera_timeout) verify_interval 0 [] None = Some ([], err)"
      using h by (auto simp: galera_verify_def split: option.splits if_splits)
    have "err = None" using await_no_error[OF a] by (simp add: synced_probe_def)
    from await_nothing_pending[OF a[unfolded this]] obtain i where "synced_probe healed (gv_probe e i) = Ok []" by blast
    then show ?thesis by (intro exI[of _ i]) (auto simp: synced_probe_def filter_empty_conv list_all_iff)
  qed
  then show ?thesis by simp
qed

end
