(* ===== verification/Galera_Reconfig.thy ===== *)
theory Galera_Reconfig
  imports Repair_Galera
begin

text \<open>
  The authority reset of a Galera cluster (\<open>src/engine/reconfigure/galera.go\<close>, \<open>src/cmd/reconfigure.go\<close>): the
  command's preconditions, the validation, the escrow, and the cluster-wide stop, in which the
  target's state is neutralized, with the rescue; then the poll for convergence.  The state and the
  helper scripts are those of the Galera repair.
\<close>

section \<open>Preconditions\<close>

record reconf_conf =
  rx_cluster :: string
  rx_instance :: "int option"
  rx_force :: bool
  rx_fix :: bool
  rx_dry_run :: bool
  rx_replicas :: int
  rx_escrow :: escrow_conf

datatype reconf_error =
    ForceRequired | ActionRequired | InstanceRequired | InstanceNegative int | ReconfTriage string
  | OutOfBounds int int | StorageClaimMissing string | GaleraClaimMissing string | NoSstDonor string
  | ReconfClaims string | ReconfEscrow escrow_error
  | ReconfSuspend | ReconfScaleDown | PodRemains string | ReconfHelper galera_heal_error
  | StorageHelperStays | GaleraHelperStays | ReconfScaleUp | ReconfResume | NotConverged

definition other_donor :: "string \<Rightarrow> instance_assessment \<Rightarrow> bool" where
  "other_donor target a \<longleftrightarrow>
     ia_pod a \<noteq> target \<and> ia_wsrep_ready a = ''ON'' \<and> ia_wsrep_connected a = ''ON'' \<and> ia_wsrep_comment a = ''Synced''"

definition reconf_validate ::
  "reconf_conf \<Rightarrow> int \<Rightarrow> (string, unit) result \<Rightarrow> (string, unit) result \<Rightarrow> triage_result \<Rightarrow> reconf_error option" where
  "reconf_validate c n storage galera t =
     (let target = instance_pod (rx_cluster c) n in
      if rx_replicas c \<le> n then Some (OutOfBounds n (rx_replicas c - 1))
      else if \<not> rx_fix c then None
      else (case storage of
              Inl err \<Rightarrow> Some (StorageClaimMissing err)
            | Inr _ \<Rightarrow>
                (case galera of
                   Inl err \<Rightarrow> Some (GaleraClaimMissing err)
                 | Inr _ \<Rightarrow> if list_ex (other_donor target) (tr_assessments t) then None else Some (NoSstDonor target))))"

section \<open>The stop and the mutation\<close>

text \<open>The storage script: the state file overwritten, the view, the cache and the redo logs removed.\<close>

definition drop_view_cache :: "node_disk \<Rightarrow> node_disk" where
  "drop_view_cache d = d\<lparr> nd_view := False, nd_cache := None \<rparr>"

definition drop_redo :: "node_disk \<Rightarrow> node_disk" where
  "drop_redo d = d\<lparr> nd_redo := False \<rparr>"

definition neutralize_script :: "(node_disk \<Rightarrow> node_disk) list" where
  "neutralize_script = [blank_state, drop_view_cache, drop_redo]"

record reconf_env =
  xr_triage :: "(string, triage_result) result"
  xr_storage :: "(string, unit) result"
  xr_galera :: "(string, unit) result"
  xr_naming :: "string \<Rightarrow> string"
  xr_pod_of :: "string \<Rightarrow> pod_read"
  xr_escrow :: escrow_env
  xr_suspend :: outcome
  xr_scale_down :: outcome
  xr_pod_gone :: "string \<Rightarrow> nat \<Rightarrow> bool"
  xr_wipe :: "nat \<Rightarrow> helper_answer"
  xr_unboot :: "nat \<Rightarrow> helper_answer"
  xr_wiper_gone :: "nat \<Rightarrow> bool"
  xr_unbooter_gone :: "nat \<Rightarrow> bool"
  xr_scale_up :: outcome
  xr_resume :: outcome
  xr_rescue_scale :: outcome
  xr_rescue_resume :: outcome
  xr_probe :: "nat \<Rightarrow> string \<Rightarrow> (string, string) result"

definition reconf_rescue :: "reconf_env \<Rightarrow> int \<Rightarrow> bool \<Rightarrow> galera_world \<Rightarrow> galera_world" where
  "reconf_rescue e replicas scaled w =
     (let w1 = (if scaled then snd (call (xr_rescue_scale e) (on_cluster (scale_stateful_set replicas)) w) else w)
      in snd (call (xr_rescue_resume e) (on_cluster resume_cr) w1))"

definition cluster_pods :: "reconf_conf \<Rightarrow> string list" where
  "cluster_pods c = map (\<lambda>i. instance_pod (rx_cluster c) (int i)) [0..<nat (rx_replicas c)]"

text \<open>STEP 3: the pods one after the other, each for at most sixty polls.\<close>

definition first_remaining :: "reconf_env \<Rightarrow> string list \<Rightarrow> string option" where
  "first_remaining e ps = find_first (\<lambda>p. \<not> poll_until (xr_pod_gone e p) 0 60) ps"

text \<open>STEP 4, only with the action flag.\<close>

definition neutralize :: "reconf_conf \<Rightarrow> reconf_env \<Rightarrow> string \<Rightarrow> galera_world \<Rightarrow> reconf_error option \<times> galera_world" where
  "neutralize c e target w =
     (if \<not> rx_fix c then (None, w)
      else (case run_helper_with_retry (xr_wipe e) target neutralize_script '''' 1 3 w of
              (Some err, w1) \<Rightarrow> (Some (ReconfHelper err), w1)
            | (None, w1) \<Rightarrow>
                (case run_helper_with_retry (xr_unboot e) target galera_script '''' 1 3 w1 of
                   (Some err, w2) \<Rightarrow> (Some (ReconfHelper err), w2)
                 | (None, w2) \<Rightarrow> (None, w2))))"

definition reconf_return :: "reconf_conf \<Rightarrow> reconf_env \<Rightarrow> galera_world \<Rightarrow> reconf_error option \<times> galera_world" where
  "reconf_return c e w =
     (if \<not> poll_until (xr_wiper_gone e) 0 60 then (Some StorageHelperStays, reconf_rescue e (rx_replicas c) True w)
      else if \<not> poll_until (xr_unbooter_gone e) 0 60 then (Some GaleraHelperStays, reconf_rescue e (rx_replicas c) True w)
      else (case call (xr_scale_up e) (on_cluster (scale_stateful_set (rx_replicas c))) w of
              (False, w1) \<Rightarrow> (Some ReconfScaleUp, reconf_rescue e (rx_replicas c) True w1)
            | (True, w1) \<Rightarrow>
                (case call (xr_resume e) (on_cluster resume_cr) w1 of
                   (False, w2) \<Rightarrow> (Some ReconfResume, reconf_rescue e (rx_replicas c) False w2)
                 | (True, w2) \<Rightarrow> (None, w2))))"

definition reconf_stopped :: "reconf_conf \<Rightarrow> reconf_env \<Rightarrow> string \<Rightarrow> galera_world \<Rightarrow> reconf_error option \<times> galera_world" where
  "reconf_stopped c e target w =
     (case call (xr_scale_down e) (on_cluster (scale_stateful_set 0)) w of
        (False, w1) \<Rightarrow> (Some ReconfScaleDown, reconf_rescue e (rx_replicas c) False w1)
      | (True, w1) \<Rightarrow>
          (case first_remaining e (cluster_pods c) of
             Some p \<Rightarrow> (Some (PodRemains p), reconf_rescue e (rx_replicas c) True w1)
           | None \<Rightarrow>
               (case neutralize c e target w1 of
                  (Some err, w2) \<Rightarrow> (Some err, reconf_rescue e (rx_replicas c) True w2)
                | (None, w2) \<Rightarrow> reconf_return c e w2)))"

section \<open>Convergence\<close>

text \<open>One round of probes over the pods: whether the target is synced, whether another pod is, and the
  largest cluster size that any pod reports (the server prints it as a plain decimal number).\<close>

record converge =
  cv_target :: bool
  cv_other :: bool
  cv_size :: int

definition round_step :: "string \<Rightarrow> (string \<Rightarrow> (string, string) result) \<Rightarrow> string \<Rightarrow> converge \<Rightarrow> converge" where
  "round_step target ask p v =
     (case query_wsrep (ask p) of
        Inl _ \<Rightarrow> v
      | Inr m \<Rightarrow>
          let synced = map_of m ''wsrep_ready'' = Some ''ON'' \<and> map_of m ''wsrep_connected'' = Some ''ON'' \<and>
                       map_get '''' m ''wsrep_local_state_comment'' = ''Synced'';
              size = (case map_of m ''wsrep_cluster_size'' of None \<Rightarrow> 0 | Some s \<Rightarrow> atoi_lossy s)
          in \<lparr> cv_target = cv_target v \<or> p = target \<and> synced, cv_other = cv_other v \<or> p \<noteq> target \<and> synced,
               cv_size = max (cv_size v) size \<rparr>)"

definition converged :: "string \<Rightarrow> string list \<Rightarrow> (string \<Rightarrow> (string, string) result) \<Rightarrow> bool" where
  "converged target ps ask =
     (let v = fold (round_step target ask) ps \<lparr> cv_target = False, cv_other = False, cv_size = 0 \<rparr>
      in cv_target v \<and> cv_other v \<and> cv_size v = int (length ps))"

definition verify_cluster :: "reconf_conf \<Rightarrow> reconf_env \<Rightarrow> string \<Rightarrow> bool" where
  "verify_cluster c e target = poll_until (\<lambda>i. converged target (cluster_pods c) (xr_probe e i)) 0 24"

section \<open>The whole operation\<close>

definition reconf_execute ::
  "reconf_conf \<Rightarrow> reconf_env \<Rightarrow> string \<Rightarrow> triage_result \<Rightarrow> galera_world \<Rightarrow> reconf_error option \<times> galera_world" where
  "reconf_execute c e target t w =
     (case discover_pvcs (xr_naming e) (xr_pod_of e) [target] [] of
        Inl err \<Rightarrow> (Some (ReconfClaims err), w)
      | Inr pvcs \<Rightarrow>
          (case gate (xr_escrow e) (rx_escrow c) pvcs (used_bytes_by_pvc (tr_assessments t) [target]) of
             Inl err \<Rightarrow> (Some (ReconfEscrow err), w)
           | Inr _ \<Rightarrow>
               (case call (xr_suspend e) (on_cluster suspend_cr) w of
                  (False, w1) \<Rightarrow> (Some ReconfSuspend, w1)
                | (True, w1) \<Rightarrow>
                    (case reconf_stopped c e target w1 of
                       (Some err, w2) \<Rightarrow> (Some err, w2)
                     | (None, w2) \<Rightarrow> (if verify_cluster c e target then None else Some NotConverged, w2)))))"

definition reset_authority :: "reconf_conf \<Rightarrow> reconf_env \<Rightarrow> galera_world \<Rightarrow> reconf_error option \<times> galera_world" where
  "reset_authority c e w =
     (if \<not> rx_force c then (Some ForceRequired, w)
      else if \<not> rx_fix c then (Some ActionRequired, w)
      else (case rx_instance c of
              None \<Rightarrow> (Some InstanceRequired, w)
            | Some n \<Rightarrow>
                if n < 0 then (Some (InstanceNegative n), w)
                else (case xr_triage e of
                        Inl err \<Rightarrow> (Some (ReconfTriage err), w)
                      | Inr t \<Rightarrow>
                          (case reconf_validate c n (xr_storage e) (xr_galera e) t of
                             Some err \<Rightarrow> (Some err, w)
                           | None \<Rightarrow>
                               if rx_dry_run c then (None, w)
                               else reconf_execute c e (instance_pod (rx_cluster c) n) t w))))"

section \<open>The cluster comes back\<close>

definition calm_reset :: "reconf_env \<Rightarrow> bool" where
  "calm_reset e \<longleftrightarrow> xr_suspend e \<noteq> AppliedLost \<and> xr_scale_down e \<noteq> AppliedLost \<and>
     xr_rescue_scale e \<noteq> Refused \<and> xr_rescue_resume e \<noteq> Refused"

definition reset_at_rest :: "int \<Rightarrow> galera_world \<Rightarrow> bool" where
  "reset_at_rest n w \<longleftrightarrow> \<not> gc_suspend (gw_cluster w) \<and> gc_replicas (gw_cluster w) = n"

lemma reconf_rescue_rests:
  assumes "calm_reset e" "sc \<or> gc_replicas (gw_cluster w) = n"
  shows "reset_at_rest n (reconf_rescue e n sc w)"
  using assms
  by (cases "xr_rescue_scale e"; cases "xr_rescue_resume e"; cases sc)
    (auto simp: reconf_rescue_def calm_reset_def reset_at_rest_def Let_def)

lemma reconf_rescue_disk [simp]: "gw_disk (reconf_rescue e n sc w) = gw_disk w"
  by (simp add: reconf_rescue_def Let_def)

lemma neutralize_frame:
  "gw_cluster (snd (neutralize c e p w)) = gw_cluster w"
  "v \<noteq> p \<Longrightarrow> gw_disk (snd (neutralize c e p w)) v = gw_disk w v"
  using helper_frame[where ans = "xr_wipe e" and p = p and steps = neutralize_script and prev = "[]" and i = 1 and k = 3 and w = w]
    helper_frame[where ans = "xr_unboot e" and p = p and steps = galera_script and prev = "[]" and i = 1 and k = 3
      and w = "snd (run_helper_with_retry (xr_wipe e) p neutralize_script [] 1 3 w)"]
  by (auto simp: neutralize_def split: prod.split option.split)

lemma reconf_return_disk [simp]: "gw_disk (snd (reconf_return c e w)) = gw_disk w"
  by (cases "xr_scale_up e"; cases "xr_resume e"; simp add: reconf_return_def)

lemma reconf_return_rests:
  assumes "calm_reset e"
  shows "reset_at_rest (rx_replicas c) (snd (reconf_return c e w))"
proof (cases "xr_scale_up e = Applied \<and> xr_resume e = Applied")
  case True
  then show ?thesis using reconf_rescue_rests[OF assms] by (simp add: reconf_return_def reset_at_rest_def)
next
  case False
  have s: "gc_replicas (gw_cluster (snd (call (xr_resume e) (on_cluster resume_cr) (on_cluster (scale_stateful_set (rx_replicas c)) w)))) = rx_replicas c"
    by (cases "xr_resume e") simp_all
  show ?thesis using False s reconf_rescue_rests[OF assms]
    by (cases "xr_scale_up e"; cases "xr_resume e") (simp_all add: reconf_return_def)
qed

lemma reconf_stopped_rests:
  assumes "calm_reset e" "gc_replicas (gw_cluster w) = rx_replicas c"
  shows "reset_at_rest (rx_replicas c) (snd (reconf_stopped c e p w))"
proof (cases "xr_scale_down e")
  case Applied
  then show ?thesis using reconf_return_rests[OF assms(1)] reconf_rescue_rests[OF assms(1)]
    by (simp add: reconf_stopped_def split: prod.split option.split)
next
  case Refused
  then show ?thesis using reconf_rescue_rests[OF assms(1)] assms(2) by (simp add: reconf_stopped_def)
next
  case AppliedLost
  then show ?thesis using assms(1) by (simp add: calm_reset_def)
qed

text \<open>An authority reset leaves the operator running and the StatefulSet at its replicas, whatever step
  fails, when its rescue is not refused and no suspension or scale-down took effect behind a lost answer.\<close>

theorem reset_restores_cluster:
  "if calm_reset e \<and> reset_at_rest (rx_replicas c) w then reset_at_rest (rx_replicas c) (snd (reset_authority c e w)) else True"
proof -
  have "reset_at_rest (rx_replicas c) (snd (reset_authority c e w))" if h: "calm_reset e" "reset_at_rest (rx_replicas c) w"
  proof -
    have ex: "reset_at_rest (rx_replicas c) (snd (reconf_execute c e p t w))" for p t
    proof (cases "xr_suspend e")
      case Applied
      have "reset_at_rest (rx_replicas c) (snd (reconf_stopped c e p (on_cluster suspend_cr w)))"
        by (rule reconf_stopped_rests[OF h(1)]) (use h(2) in \<open>simp add: reset_at_rest_def\<close>)
      moreover obtain err w2 where "reconf_stopped c e p (on_cluster suspend_cr w) = (err, w2)" by fastforce
      ultimately show ?thesis using h(2) Applied
        by (simp add: reconf_execute_def del: discover_pvcs.simps split: sum.split option.split)
    qed (use h in \<open>simp_all add: reconf_execute_def calm_reset_def del: discover_pvcs.simps split: sum.split\<close>)
    show ?thesis using ex h(2) by (simp add: reset_authority_def split: option.split sum.split)
  qed
  then show ?thesis by simp
qed

section \<open>What a reset may change\<close>

lemma first_remaining_none:
  "first_remaining e ps = None \<Longrightarrow> p \<in> set ps \<Longrightarrow> \<exists>i < 60. xr_pod_gone e p i"
  using poll_until_seen[of "xr_pod_gone e p" 0 60] by (auto simp: first_remaining_def)

lemma stopped_changes:
  assumes "gw_disk (snd (reconf_stopped c e p w)) v \<noteq> gw_disk w v"
  shows "v = p" "rx_fix c" "xr_scale_down e = Applied" "first_remaining e (cluster_pods c) = None"
proof -
  show s: "xr_scale_down e = Applied" using assms by (cases "xr_scale_down e") (simp_all add: reconf_stopped_def)
  show f: "first_remaining e (cluster_pods c) = None"
    using assms s by (cases "first_remaining e (cluster_pods c)") (simp_all add: reconf_stopped_def)
  obtain err w2 where n: "neutralize c e p (on_cluster (scale_stateful_set 0) w) = (err, w2)" by fastforce
  have d: "gw_disk (snd (reconf_stopped c e p w)) = gw_disk w2"
    using s f n by (simp add: reconf_stopped_def split: option.split)
  show "v = p" using assms d n neutralize_frame(2)[of v p c e "on_cluster (scale_stateful_set 0) w"] by auto
  show "rx_fix c" using assms d n by (auto simp: neutralize_def split: if_splits)
qed

text \<open>C27: A reset changes the claims of its target only, on a forced run that is not a preview, with another
  node synced in triage, after the escrow of the target's claims, with the operator suspended and every
  pod of the cluster observed gone.\<close>

theorem reset_touches_only_target:
  "if gw_disk (snd (reset_authority c e w)) v \<noteq> gw_disk w v
   then rx_force c \<and> rx_fix c \<and> \<not> rx_dry_run c \<and> xr_suspend e = Applied \<and> xr_scale_down e = Applied \<and>
     list_all (\<lambda>p. \<exists>i < 60. xr_pod_gone e p i) (cluster_pods c) \<and>
     (\<exists>n t pvcs refs. rx_instance c = Some n \<and> 0 \<le> n \<and> n < rx_replicas c \<and> v = instance_pod (rx_cluster c) n \<and>
        xr_triage e = Ok t \<and> list_ex (other_donor v) (tr_assessments t) \<and>
        discover_pvcs (xr_naming e) (xr_pod_of e) [v] [] = Ok pvcs \<and>
        gate (xr_escrow e) (rx_escrow c) pvcs (used_bytes_by_pvc (tr_assessments t) [v]) = Ok refs)
   else True"
proof (cases "gw_disk (snd (reset_authority c e w)) v = gw_disk w v")
  case False
  have fl: "rx_force c" "rx_fix c" "\<not> rx_dry_run c"
    using False by (auto simp: reset_authority_def split: if_splits option.splits sum.splits)
  obtain n where n: "rx_instance c = Some n" "0 \<le> n"
    using False fl by (cases "rx_instance c") (auto simp: reset_authority_def split: if_splits)
  obtain t where t: "xr_triage e = Ok t" using False fl n by (cases "xr_triage e") (auto simp: reset_authority_def)
  let ?p = "instance_pod (rx_cluster c) n"
  have val: "reconf_validate c n (xr_storage e) (xr_galera e) t = None"
    using False fl n t by (cases "reconf_validate c n (xr_storage e) (xr_galera e) t") (auto simp: reset_authority_def)
  then have v1: "n < rx_replicas c" "list_ex (other_donor ?p) (tr_assessments t)"
    using fl by (auto simp: reconf_validate_def Let_def split: if_splits sum.splits)
  have "gw_disk (snd (reconf_execute c e ?p t w)) v \<noteq> gw_disk w v"
    using False fl n t val by (simp add: reset_authority_def)
  note ch = this
  obtain pvcs where p: "discover_pvcs (xr_naming e) (xr_pod_of e) [?p] [] = Ok pvcs"
    using ch by (cases "discover_pvcs (xr_naming e) (xr_pod_of e) [?p] []") (simp_all add: reconf_execute_def)
  obtain refs where g: "gate (xr_escrow e) (rx_escrow c) pvcs (used_bytes_by_pvc (tr_assessments t) [?p]) = Ok refs"
    using ch p by (cases "gate (xr_escrow e) (rx_escrow c) pvcs (used_bytes_by_pvc (tr_assessments t) [?p])") (simp_all add: reconf_execute_def)
  have s: "xr_suspend e = Applied" using ch p g by (cases "xr_suspend e") (simp_all add: reconf_execute_def)
  then have "gw_disk (snd (reconf_stopped c e ?p (on_cluster suspend_cr w))) v \<noteq> gw_disk (on_cluster suspend_cr w) v"
    using ch p g by (simp add: reconf_execute_def split: prod.splits option.splits)
  note st = stopped_changes[OF this]
  have gone: "list_all (\<lambda>p. \<exists>i < 60. xr_pod_gone e p i) (cluster_pods c)"
    using first_remaining_none[OF st(4)] by (simp add: list_all_iff)
  show ?thesis using fl n t v1 p g s st(1,3) gone by auto
qed simp

text \<open>A round that counts as converged has seen the target synced, another pod synced, and a reported size
  equal to the number of pods; the remaining pods are not required to be synced.\<close>

definition synced_status :: "(string, string) result \<Rightarrow> bool" where
  "synced_status ans \<longleftrightarrow> (case query_wsrep ans of Inl _ \<Rightarrow> False
     | Inr m \<Rightarrow> map_of m ''wsrep_ready'' = Some ''ON'' \<and> map_of m ''wsrep_connected'' = Some ''ON'' \<and>
                map_get '''' m ''wsrep_local_state_comment'' = ''Synced'')"

lemma round_fold:
  "cv_target (fold (round_step target ask) ps v) \<longleftrightarrow> cv_target v \<or> target \<in> set ps \<and> synced_status (ask target)"
  "cv_other (fold (round_step target ask) ps v) \<longleftrightarrow> cv_other v \<or> (\<exists>p\<in>set ps. p \<noteq> target \<and> synced_status (ask p))"
  by (induction ps arbitrary: v) (auto simp: round_step_def synced_status_def Let_def split: sum.split)

theorem verified_reset_has_synced_pair:
  "if verify_cluster c e target
   then \<exists>i < 24. target \<in> set (cluster_pods c) \<and> synced_status (xr_probe e i target) \<and>
     list_ex (\<lambda>p. p \<noteq> target \<and> synced_status (xr_probe e i p)) (cluster_pods c)
   else True"
  using poll_until_seen[of "\<lambda>i. converged target (cluster_pods c) (xr_probe e i)" 0 24]
  by (auto simp: verify_cluster_def converged_def Let_def round_fold list_ex_iff)

text \<open>The target after a finished mutation: no lineage, no position, no saved view, cache or redo log, and no
  bootstrap configuration.\<close>

lemma neutralized_node:
  assumes "neutralize c e p w = (None, w')" "rx_fix c"
  shows "nd_state (gw_disk w' p) = Some blank_state_file" "nd_cache (gw_disk w' p) = None"
    "\<not> nd_view (gw_disk w' p)" "\<not> nd_redo (gw_disk w' p)" "\<not> nd_bootstrap (gw_disk w' p)"
proof -
  obtain w1 where h: "run_helper_with_retry (xr_wipe e) p neutralize_script '''' 1 3 w = (None, w1)"
      "run_helper_with_retry (xr_unboot e) p galera_script '''' 1 3 w1 = (None, w')"
    using assms by (auto simp: neutralize_def split: prod.splits option.splits)
  obtain d where "gw_disk w1 p = run_script neutralize_script d" using helper_done[OF h(1)] by blast
  then have "gw_disk w' p = drop_bootstrap (run_script neutralize_script d)" using boot_helper_done[OF h(2)] by simp
  then show "nd_state (gw_disk w' p) = Some blank_state_file" "nd_cache (gw_disk w' p) = None"
    "\<not> nd_view (gw_disk w' p)" "\<not> nd_redo (gw_disk w' p)" "\<not> nd_bootstrap (gw_disk w' p)"
    by (simp_all add: neutralize_script_def blank_state_def drop_view_cache_def drop_redo_def drop_bootstrap_def)
qed

end
