(* ===== verification/Prune_Wal.thy ===== *)
theory Prune_Wal
  imports Cnpg_Job Pg_Lsn Escrow Repair_Plan
begin

text \<open>
  WAL relief for a disk-full CNPG instance (\<open>src/engine/prunewal/cnpg.go\<close>): the safety checks, the
  checkpoint boundary, the replicas' positions, and the deletion of the segments before the
  boundary, run in the helper pod of an offline job.  Positions are unsigned 64-bit words, as in
  the source; commands in the helper are their effect on the files of \<open>pg_wal\<close>.
\<close>

section \<open>Work inside an offline job\<close>

text \<open>An offline job whose work is done by the caller on a state of its own: the work runs exactly when
  the job reaches it.\<close>

definition reaches_work :: "job_env \<Rightarrow> offline_job \<Rightarrow> cnpg_cluster \<Rightarrow> bool" where
  "reaches_work e j s =
     (case fst (run_job (e\<lparr> je_work := Err '''' \<rparr>) j s) of Some (WorkFailed _) \<Rightarrow> True | _ \<Rightarrow> False)"

definition run_driven ::
  "job_env \<Rightarrow> offline_job \<Rightarrow> ('d \<Rightarrow> 'e option \<times> 'd) \<Rightarrow> cnpg_cluster \<Rightarrow> 'd
     \<Rightarrow> job_error option \<times> 'e option \<times> cnpg_cluster \<times> 'd" where
  "run_driven e j work s d =
     (case work d of (err, d') \<Rightarrow>
        (case run_job (e\<lparr> je_work := (if err = None then Ok () else Err '''') \<rparr>) j s of (je, s') \<Rightarrow>
           if reaches_work e j s then (je, err, s', d') else (je, None, s', d)))"

section \<open>Positions\<close>

definition last_field :: "string \<Rightarrow> string" where
  "last_field l = (let fs = str_fields l in if fs = [] then '''' else last fs)"

definition parse_lsn :: "string \<Rightarrow> (string, 64 word) result" where
  "parse_lsn txt =
     (let s = trim_space txt in
      case split_n2 (CHR ''/'') s of
        [hi, lo] \<Rightarrow>
          (case parse_uint64 16 hi of
             Inl _ \<Rightarrow> Err s
           | Inr h \<Rightarrow> (case parse_uint64 16 lo of
                         Inl _ \<Rightarrow> Err s
                       | Inr l \<Rightarrow> Ok (or (push_bit 32 (word_of_int h)) (word_of_int l))))
      | _ \<Rightarrow> Err s)"

section \<open>Who may be relieved\<close>

record prune_conf =
  pr_cluster :: string
  pr_instance :: "int option"
  pr_force :: bool
  pr_dry_run :: bool
  pr_deadlock :: bool
  pr_delete_timeout :: int
  pr_escrow :: escrow_conf

datatype prune_error =
    NoInstance | PruneLocked string | PruneTriage string | NotInTriage string | TargetIsReady string
  | NoReadyReplicas | DivergedNotForced string | NotAuthority string | PostgresInfo
  | PruneJob job_error

definition relief_eligible :: "bool \<Rightarrow> string \<Rightarrow> instance_assessment \<Rightarrow> triage_result \<Rightarrow> prune_error option" where
  "relief_eligible force target a t =
     (let dc = tr_comparison t in
      if dc_most_advanced dc = target \<or> ia_classification a = ClassAuthoritative then None
      else if dc_authority dc = AuthorityDiverged then (if force then None else Some (DivergedNotForced target))
      else Some (NotAuthority target))"

definition ready_replicas :: "string \<Rightarrow> triage_result \<Rightarrow> string list" where
  "ready_replicas target t = map ia_pod (filter (\<lambda>a. ia_pod a \<noteq> target \<and> ia_ready a) (tr_assessments t))"

text \<open>The checks of both verbs: the replicas to verify against, none unless the target is a primary that
  is to be pruned.\<close>

definition prune_target ::
  "prune_conf \<Rightarrow> string \<Rightarrow> string \<Rightarrow> triage_result \<Rightarrow> (prune_error, bool \<times> string list) result" where
  "prune_target c target primary t =
     (case find_assessment target t of
        None \<Rightarrow> Err (NotInTriage target)
      | Some a \<Rightarrow>
          if ia_ready a then Err (TargetIsReady target)
          else if primary = target \<and> \<not> pr_deadlock c
          then (if tr_ready t = 0 \<and> \<not> pr_force c then Err NoReadyReplicas
                else Ok (True, ready_replicas target t))
          else (case relief_eligible (pr_force c) target a t of Some err \<Rightarrow> Err err | None \<Rightarrow> Ok (False, [])))"

section \<open>The boundary and the replicas\<close>

datatype prune_work_error =
    ControldataFailed string | NoRedoFile | NoRedoLocation
  | NothingToVerify | RedoUnparsed string | ReplicaUnread string string | ReplicaEmpty string
  | ReplicaUnparsed string string | Lagging "string list"
  | ListFailed string | DeleteFailed nat string

fun boundary_lines :: "string list \<Rightarrow> string \<times> string \<Rightarrow> string \<times> string" where
  "boundary_lines [] acc = acc"
| "boundary_lines (l # ls) (wal, lsn) =
     boundary_lines ls
       (if str_contains l ''REDO WAL file'' then (last_field l, lsn)
        else if str_contains l ''REDO location'' then (wal, last_field l) else (wal, lsn))"

definition read_checkpoint_boundary :: "(string, string) result \<Rightarrow> (prune_work_error, string \<times> string) result" where
  "read_checkpoint_boundary out =
     (case out of
        Inl err \<Rightarrow> Err (ControldataFailed err)
      | Inr txt \<Rightarrow>
          (case boundary_lines (split_lines txt) ('''', '''') of (wal, lsn) \<Rightarrow>
             if wal = '''' then Err NoRedoFile else if lsn = '''' then Err NoRedoLocation else Ok (wal, lsn)))"

text \<open>The replicas in order; the first that cannot be read ends the check.\<close>

fun lagging_replicas ::
  "(string \<Rightarrow> (string, string) result) \<Rightarrow> 64 word \<Rightarrow> string \<Rightarrow> string list \<Rightarrow> (prune_work_error, string list) result" where
  "lagging_replicas ask redo redo_txt [] = Ok []"
| "lagging_replicas ask redo redo_txt (r # rs) =
     (case ask r of
        Inl err \<Rightarrow> Err (ReplicaUnread r err)
      | Inr out \<Rightarrow>
          let txt = trim_space out in
          if txt = '''' then Err (ReplicaEmpty r)
          else (case parse_lsn txt of
                  Inl err \<Rightarrow> Err (ReplicaUnparsed r err)
                | Inr pos \<Rightarrow>
                    (case lagging_replicas ask redo redo_txt rs of
                       Inl err \<Rightarrow> Err err
                     | Inr ls \<Rightarrow>
                         Ok (if pos < redo then (r @ '' (replay '' @ txt @ '' < checkpoint '' @ redo_txt @ '')'') # ls else ls))))"

definition replicas_caught_up ::
  "bool \<Rightarrow> (string \<Rightarrow> (string, string) result) \<Rightarrow> string list \<Rightarrow> string \<Rightarrow> prune_work_error option" where
  "replicas_caught_up force ask rs redo_txt =
     (if rs = [] then (if force then None else Some NothingToVerify)
      else (case parse_lsn redo_txt of
              Inl err \<Rightarrow> Some (RedoUnparsed err)
            | Inr redo \<Rightarrow>
                (case lagging_replicas ask redo redo_txt rs of
                   Inl err \<Rightarrow> Some err
                 | Inr ls \<Rightarrow> if ls \<noteq> [] \<and> \<not> force then Some (Lagging ls) else None)))"

section \<open>The files of the log directory\<close>

text \<open>The directory, or the link that a relocation left in its place, and the helper's scratch volume,
  which lives as long as the helper; \<open>wd_applied\<close>: the data files hold every committed record.\<close>

datatype wal_dir = WalFiles "string list" | WalLink

record wal_disk =
  wd_dir :: wal_dir
  wd_scratch :: "string list option"
  wd_applied :: bool

definition pg_wal_dir :: string where "pg_wal_dir = ''/var/lib/postgresql/data/pgdata/pg_wal''"

definition is_hex_upper :: "char \<Rightarrow> bool" where
  "is_hex_upper c \<longleftrightarrow> (let b = byte_of c in 48 \<le> b \<and> b \<le> 57 \<or> 65 \<le> b \<and> b \<le> 70)"

definition is_segment :: "string \<Rightarrow> bool" where
  "is_segment f \<longleftrightarrow> length f = 24 \<and> list_all is_hex_upper f"

definition wal_path :: "string \<Rightarrow> string" where "wal_path f = pg_wal_dir @ ''/'' @ f"

definition find_segments :: "wal_dir \<Rightarrow> string" where
  "find_segments w = (case w of WalLink \<Rightarrow> '''' | WalFiles fs \<Rightarrow> concat (map (\<lambda>f. wal_path f @ [NL]) (filter is_segment fs)))"

definition base_name :: "string \<Rightarrow> string" where
  "base_name p = rev (takeWhile (\<lambda>c. c \<noteq> CHR ''/'') (rev p))"

definition segment_paths :: "string \<Rightarrow> string list" where
  "segment_paths out = filter (\<lambda>p. p \<noteq> '''') (map trim_space (split_lines (trim_space out)))"

definition older_paths :: "string \<Rightarrow> string \<Rightarrow> string list" where
  "older_paths redo out = filter (\<lambda>p. base_name p < redo) (segment_paths out)"

definition rm_files :: "string list \<Rightarrow> wal_dir \<Rightarrow> wal_dir" where
  "rm_files ps w = (case w of WalLink \<Rightarrow> WalLink | WalFiles fs \<Rightarrow> WalFiles (filter (\<lambda>f. wal_path f \<notin> set ps) fs))"

definition drop_bookkeeping :: "wal_dir \<Rightarrow> wal_dir" where
  "drop_bookkeeping w =
     (case w of WalLink \<Rightarrow> WalLink
      | WalFiles fs \<Rightarrow> WalFiles (filter (\<lambda>f. \<not> (has_suffix f ''.partial'' \<or> has_suffix f ''.backup'')) fs))"

definition on_dir :: "(wal_dir \<Rightarrow> wal_dir) \<Rightarrow> wal_disk \<Rightarrow> wal_disk" where
  "on_dir f d = d\<lparr> wd_dir := f (wd_dir d) \<rparr>"

text \<open>The answers of the commands in the helper: \<open>pg_controldata\<close>, the listing, the deletion (with the number
  of paths gone when it failed), and whether the last command worked.\<close>

record prune_work =
  pk_control :: "(string, string) result"
  pk_replica :: "string \<Rightarrow> (string, string) result"
  pk_list :: "string option"
  pk_rm :: "(string \<times> nat) option"
  pk_tidy :: bool

definition delete_wal_older_than :: "prune_work \<Rightarrow> string \<Rightarrow> wal_disk \<Rightarrow> prune_work_error option \<times> wal_disk" where
  "delete_wal_older_than k redo d =
     (case pk_list k of
        Some err \<Rightarrow> (Some (ListFailed err), d)
      | None \<Rightarrow>
          let ps = older_paths redo (find_segments (wd_dir d));
              tidy = (\<lambda>d. if pk_tidy k then on_dir drop_bookkeeping d else d) in
          if ps = [] then (None, tidy d)
          else (case pk_rm k of
                  Some (err, n) \<Rightarrow> (Some (DeleteFailed (length ps) err), on_dir (rm_files (take n ps)) d)
                | None \<Rightarrow> (None, tidy (on_dir (rm_files ps) d))))"

definition prune_on_pvc ::
  "bool \<Rightarrow> prune_work \<Rightarrow> string list \<Rightarrow> bool \<Rightarrow> wal_disk \<Rightarrow> prune_work_error option \<times> wal_disk" where
  "prune_on_pvc force k rs verify d =
     (case read_checkpoint_boundary (pk_control k) of
        Inl err \<Rightarrow> (Some err, d)
      | Inr (wal, lsn) \<Rightarrow>
          (case (if verify then replicas_caught_up force (pk_replica k) rs lsn else None) of
             Some err \<Rightarrow> (Some err, d)
           | None \<Rightarrow> delete_wal_older_than k wal d))"

section \<open>The verb\<close>

text \<open>\<open>resolvePVC\<close>: the claim mounted as \<open>pgdata\<close>, or the pod's name.\<close>

definition resolve_pvc :: "string \<Rightarrow> (string, (string \<times> string option) list) result \<Rightarrow> string" where
  "resolve_pvc pod volumes =
     (case volumes of
        Inl _ \<Rightarrow> pod
      | Inr vs \<Rightarrow> (case find_first (\<lambda>(n, cl). n = ''pgdata'' \<and> cl \<noteq> None) vs of Some (_, Some cl) \<Rightarrow> cl | _ \<Rightarrow> pod))"

record prune_env =
  pe_lock :: "string option"
  pe_triage :: "(string, triage_result) result"
  pe_primary :: string
  pe_volumes :: "(string, (string \<times> string option) list) result"
  pe_image :: bool
  pe_job :: job_env
  pe_work :: prune_work

definition prune_job :: "prune_conf \<Rightarrow> string \<Rightarrow> string \<Rightarrow> bool \<Rightarrow> offline_job" where
  "prune_job c target pvc keep = \<lparr> oj_target = target, oj_pvc = pvc, oj_start = (\<lambda>x. x), oj_done = (\<lambda>x. x), oj_driven = True,
     oj_keep_fenced = keep, oj_delete_timeout = pr_delete_timeout c, oj_complete_timeout = 0 \<rparr>"

text \<open>The state: the cluster resource and the target's log directory.\<close>

type_synonym prune_state = "cnpg_cluster \<times> wal_disk"

definition delete_only ::
  "prune_conf \<Rightarrow> prune_env \<Rightarrow> string \<Rightarrow> bool \<times> string list \<Rightarrow> prune_state \<Rightarrow> prune_error option \<times> prune_state" where
  "delete_only c e target who w =
     (if pr_dry_run c then (None, w)
      else if \<not> pe_image e then (Some PostgresInfo, w)
      else (case run_driven (pe_job e) (prune_job c target (resolve_pvc target (pe_volumes e)) (pe_primary e \<noteq> target))
                   (prune_on_pvc (pr_force c) (pe_work e) (snd who) (fst who)) (fst w) (snd w) of
              (je, _, s, d) \<Rightarrow> (map_option PruneJob je, s, d)))"

section \<open>Driven jobs\<close>

lemma acquire_ignores_work [simp]: "acquire_pvc (e\<lparr> je_work := x \<rparr>) t i k s = acquire_pvc e t i k s"
  by (induction k arbitrary: i s) (simp_all split: helper_view.split)

lemma driven_success:
  assumes d: "oj_driven j" and r: "fst (run_job (e\<lparr> je_work := x \<rparr>) j s) = None"
  shows "reaches_work e j s \<and> x = Ok ()"
proof -
  obtain b s1 where f: "fence (je_fence_read e) (je_fence_patch e) (oj_target j) s = (b, s1)" by fastforce
  obtain o2 s2 where di: "call (je_disable e) reconcile_off s1 = (o2, s2)" by fastforce
  obtain o3 s3 where cr: "call (je_create e) (add_helper (oj_pvc j)) s2 = (o3, s3)" by fastforce
  obtain ae s4 where aq: "acquire_pvc e (oj_target j) 0 (delete_polls (oj_delete_timeout j)) s3 = (ae, s4)" by fastforce
  note steps = f di cr aq
  have b: "b" "o2" "o3" using r steps by (cases b; cases o2; cases o3; simp add: run_job_def job_body_def Let_def split_beta)+
  have a: "ae = None" using r steps b by (cases ae) (simp_all add: run_job_def job_body_def Let_def split_beta)
  have "x = Ok ()" using r steps a b d by (cases x) (simp_all add: run_job_def job_body_def job_work_def Let_def split_beta)
  moreover have "reaches_work e j s"
    using steps a b d by (simp add: reaches_work_def run_job_def job_body_def job_work_def Let_def split_beta)
  ultimately show ?thesis by simp
qed

text \<open>The work's state changes only by the work itself, and a job that reports success has done all of it.\<close>

lemma run_driven_spec:
  assumes "run_driven e j work s d = (je, we, s', d')" "oj_driven j"
  shows "d' \<noteq> d \<Longrightarrow> work d = (we, d')" "je = None \<Longrightarrow> we = None \<and> work d = (None, d')"
    "\<exists>x. run_job (e\<lparr> je_work := x \<rparr>) j s = (je, s')"
proof -
  obtain err dd where w: "work d = (err, dd)" by fastforce
  let ?x = "if err = None then Ok () else Err ''''"
  show "d' \<noteq> d \<Longrightarrow> work d = (we, d')" using assms(1) w by (auto simp: run_driven_def split: prod.splits if_splits)
  show j: "\<exists>x. run_job (e\<lparr> je_work := x \<rparr>) j s = (je, s')"
    using assms(1) w by (intro exI[of _ ?x]) (auto simp: run_driven_def split: prod.splits if_splits)
  show "we = None \<and> work d = (None, d')" if "je = None"
  proof -
    have "fst (run_job (e\<lparr> je_work := ?x \<rparr>) j s) = None"
      using assms(1) w that by (auto simp: run_driven_def split: prod.splits if_splits)
    from driven_success[OF assms(2) this] have "reaches_work e j s" "err = None" by (simp_all split: if_splits)
    then show ?thesis using assms(1) w by (auto simp: run_driven_def split: prod.splits)
  qed
qed

lemma kept_fence:
  assumes "run_job e j s = (None, s')" "oj_keep_fenced j" "list_all plain_name (oj_target j # fenced_in s)"
  shows "oj_target j \<in> set (fenced_in s')"
  using assms(1)
proof (cases rule: run_job_cases)
  case (body s1 still s3)
  have f: "oj_target j \<in> set (fenced_in s1)"
  proof (cases "oj_target j \<in> set (fenced_in s)")
    case True
    then show ?thesis using body(1) by (auto simp: fence_def split: if_splits)
  next
    case False
    then have "cc_fenced s1 = Some (json_array (fenced_in s @ [oj_target j]))"
      using body(1) by (auto simp: fence_def call_ok split: if_splits)
    moreover have "list_all plain_name (fenced_in s @ [oj_target j])" using assms(3) by simp
    ultimately show ?thesis using parse_json_array[of "fenced_in s @ [oj_target j]"] by (simp add: fenced_in_def)
  qed
  have "cc_fenced s3 = cc_fenced s1" using job_body_fence(1)[OF body(2)] assms(2) by simp
  then have "cc_fenced s' = cc_fenced s1" using body(3) restore_frame(1) by simp
  then show ?thesis using f by (simp add: fenced_in_def)
qed simp_all

section \<open>Two parsers, one position\<close>

lemma hex_no_space: "0 \<le> v \<Longrightarrow> list_all (\<lambda>c. \<not> is_space c) (hex_str v)"
  unfolding hex_str_def by (simp add: num_str_all digit_char_chars)

lemma trim_nonspace_id: "list_all (\<lambda>c. \<not> is_space c) s \<Longrightarrow> trim_space s = s"
proof -
  assume a: "list_all (\<lambda>c. \<not> is_space c) s"
  have d: "dropWhile is_space t = t" if "list_all (\<lambda>c. \<not> is_space c) t" for t
    using that by (cases t) auto
  show ?thesis using d[OF a] d[of "rev s"] a by (simp add: trim_space_def trim_left_def)
qed

lemma parse_uint64_hex: "0 \<le> v \<Longrightarrow> v < 18446744073709551616 \<Longrightarrow> parse_uint64 16 (hex_str v) = Ok v"
  by (simp add: parse_uint64_def hex_str_def parse_num_str)

lemma split_n2_slash: "CHR ''/'' \<notin> set a \<Longrightarrow> split_n2 (CHR ''/'') (a @ CHR ''/'' # b) = [a, b]"
  by (simp add: split_n2_def takeWhile_append dropWhile_append)

text \<open>C26: For every position of the 63-bit range, the triage's signed parser and the prune's unsigned one read
  the printed form as the same number, so the checkpoint and the replicas are compared as triage
  ranks them.\<close>

theorem lsn_parsers_agree:
  "if 0 \<le> v \<and> v < 9223372036854775808
   then parse_lsn (format_lsn v) = Ok (word_of_int v) \<and> uint (word_of_int v :: 64 word) = parse_lsn_value (format_lsn v)
   else True"
proof -
  have "parse_lsn (format_lsn v) = Ok (word_of_int v) \<and> uint (word_of_int v :: 64 word) = parse_lsn_value (format_lsn v)"
    if v: "0 \<le> v" "v < 9223372036854775808"
  proof -
    define h l where "h = v div 4294967296" and "l = v mod 4294967296"
    have hl: "0 \<le> h" "h < 18446744073709551616" "0 \<le> l" "l < 18446744073709551616" "l < 4294967296"
      and vh: "v = h * 4294967296 + l" using v by (auto simp: h_def l_def)
    have f: "format_lsn v = hex_str h @ CHR ''/'' # hex_str l"
    proof (cases "v = 0")
      case True
      then have "format_lsn v = ''0/0'' \<and> hex_str h = ''0'' \<and> hex_str l = ''0''"
        by (simp add: format_lsn_def h_def l_def) code_simp
      then show ?thesis by simp
    qed (simp add: format_lsn_def h_def l_def)
    have "list_all (\<lambda>c. \<not> is_space c) (format_lsn v)"
      using hex_no_space hl by (simp add: f is_space_def)
    then have t: "trim_space (format_lsn v) = format_lsn v" by (rule trim_nonspace_id)
    have w: "or (push_bit 32 (word_of_int h)) (word_of_int l) = (word_of_int v :: 64 word)"
    proof -
      have t: "take_bit 32 l = l" using hl by (simp add: take_bit_int_eq_self)
      have "or (push_bit 32 h) l = push_bit 32 h + l"
      proof (rule disjunctive_add[symmetric])
        fix n
        have "bit l n \<Longrightarrow> n < 32" using t by (metis bit_take_bit_iff)
        then show "\<not> bit (push_bit 32 h) n \<or> \<not> bit l n" by (auto simp: bit_push_bit_iff)
      qed
      then have "or (push_bit 32 h) l = v" by (simp add: push_bit_eq_mult vh)
      then have "(word_of_int v :: 64 word) = word_of_int (or (push_bit 32 h) l)" by simp
      also have "\<dots> = or (push_bit 32 (word_of_int h)) (word_of_int l)" by (simp add: of_int_or_eq of_int_push_bit)
      finally show ?thesis by simp
    qed
    have "parse_lsn (format_lsn v) = Ok (word_of_int v)"
      using hl by (simp add: parse_lsn_def Let_def t) (simp add: f split_n2_slash hex_no_slash parse_uint64_hex w)
    moreover have "uint (word_of_int v :: 64 word) = v" using v by (simp add: uint_word_of_int)
    ultimately show ?thesis using lsn_roundtrip[OF v] by simp
  qed
  then show ?thesis by simp
qed

section \<open>The order of segment names\<close>

definition hex_value :: "string \<Rightarrow> int" where
  "hex_value s = (case parse_digits 16 0 s of Some n \<Rightarrow> n | None \<Rightarrow> 0)"

lemma upper_digit: "is_hex_upper c \<Longrightarrow> 0 \<le> digit_val c \<and> digit_val c < 16"
  by (auto simp: is_hex_upper_def digit_val_def Let_def)

lemma byte_order: "c < d \<longleftrightarrow> byte_of c < byte_of d"
proof -
  have "byte_of x = int (of_char x)" for x by (simp add: byte_of_def of_nat_of_char)
  then show ?thesis by (simp add: less_char_def)
qed

lemma upper_order: "is_hex_upper c \<Longrightarrow> is_hex_upper d \<Longrightarrow> c < d \<longleftrightarrow> digit_val c < digit_val d"
  unfolding byte_order by (auto simp: is_hex_upper_def digit_val_def Let_def)

lemma upper_inj: "is_hex_upper c \<Longrightarrow> is_hex_upper d \<Longrightarrow> digit_val c = digit_val d \<Longrightarrow> c = d"
  using upper_order[of c d] upper_order[of d c] by (metis linorder_neqE order_less_irrefl)

lemma parse_upper:
  "list_all is_hex_upper s \<Longrightarrow> parse_digits 16 acc s = Some (acc * 16 ^ length s + hex_value s) \<and>
     0 \<le> hex_value s \<and> hex_value s < 16 ^ length s"
proof (induction s arbitrary: acc)
  case (Cons c s)
  have c: "0 \<le> digit_val c" "digit_val c < 16" using Cons.prems upper_digit[of c] by simp_all
  have s: "parse_digits 16 a s = Some (a * 16 ^ length s + hex_value s)" "0 \<le> hex_value s" "hex_value s < 16 ^ length s" for a
    using Cons.IH[of a] Cons.prems by simp_all
  have h: "hex_value (c # s) = digit_val c * 16 ^ length s + hex_value s"
    using c s(1)[of "digit_val c"] by (simp add: hex_value_def)
  have "digit_val c * 16 ^ length s \<le> 15 * 16 ^ length s" using c(2) by (intro mult_right_mono) simp_all
  then have "digit_val c * 16 ^ length s + hex_value s < 16 * 16 ^ length s" using s(3) by linarith
  then have "hex_value (c # s) < 16 ^ length (c # s)" by (simp add: h)
  then show ?case using c s(1,2) by (simp add: h algebra_simps)
qed (simp add: hex_value_def)

lemma hex_value_Cons: "list_all is_hex_upper (c # s) \<Longrightarrow> hex_value (c # s) = digit_val c * 16 ^ length s + hex_value s"
  using parse_upper[of s "digit_val c"] upper_digit[of c] by (simp add: hex_value_def)

lemma hex_value_append:
  "list_all is_hex_upper (s @ t) \<Longrightarrow> hex_value (s @ t) = hex_value s * 16 ^ length t + hex_value t"
proof -
  assume a: "list_all is_hex_upper (s @ t)"
  then have "parse_digits 16 0 (s @ t) = Some (hex_value s * 16 ^ length t + hex_value t)"
    using parse_upper[of s 0] parse_upper[of t "hex_value s"] by (simp add: parse_digits_append)
  then show ?thesis by (simp add: hex_value_def[of "s @ t"])
qed

lemma hex_order:
  "length s = length t \<Longrightarrow> list_all is_hex_upper s \<Longrightarrow> list_all is_hex_upper t \<Longrightarrow> s < t \<longleftrightarrow> hex_value s < hex_value t"
proof (induction s t rule: list_induct2)
  case (Cons c s d t)
  let ?p = "(16::int) ^ length s"
  have r: "0 \<le> hex_value s" "hex_value s < ?p" "0 \<le> hex_value t" "hex_value t < ?p"
    using parse_upper[of s 0] parse_upper[of t 0] Cons.prems Cons.hyps by simp_all
  have step: "digit_val x * ?p + hex_value u < digit_val y * ?p + hex_value v"
    if "digit_val x < digit_val y" "hex_value u < ?p" "0 \<le> hex_value v" for x y u v
  proof -
    have "(digit_val x + 1) * ?p \<le> digit_val y * ?p" using that(1) by (intro mult_right_mono) simp_all
    then show ?thesis using that by (simp add: algebra_simps)
  qed
  have v: "hex_value (c # s) = digit_val c * ?p + hex_value s" "hex_value (d # t) = digit_val d * ?p + hex_value t"
    using hex_value_Cons[of c s] hex_value_Cons[of d t] Cons by simp_all
  consider "c = d" | "c < d" | "d < c" by fastforce
  then show ?case
  proof cases
    case 1
    then show ?thesis using Cons v by simp
  next
    case 2
    then have "digit_val c < digit_val d" using upper_order Cons.prems by simp
    then show ?thesis using 2 step[of c d s t] r v by simp
  next
    case 3
    then have "digit_val d < digit_val c" using upper_order Cons.prems by simp
    then show ?thesis using 3 step[of d c t s] r v by (auto dest: order_less_asym)
  qed
qed simp

text \<open>A segment's timeline and its position on it, as its name gives them.\<close>

definition segment_timeline :: "string \<Rightarrow> int" where "segment_timeline f = hex_value (take 8 f)"
definition segment_position :: "string \<Rightarrow> int" where "segment_position f = hex_value (drop 8 f)"

text \<open>Comparing names as texts orders segments by timeline first and by position on the same timeline.\<close>

theorem segment_order:
  "if is_segment a \<and> is_segment b
   then (a < b) = (segment_timeline a < segment_timeline b \<or>
                   segment_timeline a = segment_timeline b \<and> segment_position a < segment_position b)
   else True"
proof -
  have "a < b \<longleftrightarrow> segment_timeline a < segment_timeline b \<or>
                   segment_timeline a = segment_timeline b \<and> segment_position a < segment_position b"
    if s: "is_segment a" "is_segment b"
  proof -
    have split: "hex_value f = segment_timeline f * 16 ^ 16 + segment_position f \<and> 0 \<le> segment_position f \<and> segment_position f < 16 ^ 16"
      if "is_segment f" for f
      using that hex_value_append[of "take 8 f" "drop 8 f"] parse_upper[of "drop 8 f" 0]
      by (auto simp: is_segment_def segment_timeline_def segment_position_def list_all_iff dest: in_set_dropD in_set_takeD)
    have "a < b \<longleftrightarrow> hex_value a < hex_value b" using s hex_order[of a b] by (simp add: is_segment_def)
    then show ?thesis using split[OF s(1)] split[OF s(2)] by auto
  qed
  then show ?thesis by simp
qed

section \<open>What a prune deletes\<close>

lemma upper_plain: "is_hex_upper c \<Longrightarrow> \<not> is_space c \<and> c \<noteq> CHR ''/'' \<and> c \<noteq> NL"
  by (auto simp: is_hex_upper_def is_space_def byte_of_def Let_def)

lemma segment_chars: "is_segment f \<Longrightarrow> list_all (\<lambda>c. \<not> is_space c) f \<and> CHR ''/'' \<notin> set f \<and> NL \<notin> set f \<and> f \<noteq> ''''"
  using upper_plain by (auto simp: is_segment_def list_all_iff)

lemma dir_chars: "list_all (\<lambda>c. \<not> is_space c \<and> c \<noteq> NL) (pg_wal_dir @ ''/'')"
  by (simp add: pg_wal_dir_def is_space_def)

lemma path_chars: "is_segment f \<Longrightarrow> list_all (\<lambda>c. \<not> is_space c) (wal_path f) \<and> NL \<notin> set (wal_path f)"
  using segment_chars[of f] dir_chars by (auto simp: wal_path_def list_all_iff)

lemma wal_path_ne [simp]: "wal_path f \<noteq> ''''"
  by (simp add: wal_path_def)

lemma wal_path_inj [simp]: "wal_path f = wal_path g \<longleftrightarrow> f = g"
  by (simp add: wal_path_def)

lemma base_wal_path: "CHR ''/'' \<notin> set f \<Longrightarrow> base_name (wal_path f) = f"
proof -
  assume "CHR ''/'' \<notin> set f"
  then have "takeWhile (\<lambda>c. c \<noteq> CHR ''/'') (rev f @ CHR ''/'' # rev pg_wal_dir) = rev f"
    by (subst takeWhile_append2) auto
  then show ?thesis by (simp add: base_name_def wal_path_def)
qed

lemma trim_last_newline:
  assumes "a \<noteq> ''''" "\<not> is_space (hd a)" "\<not> is_space (last a)"
  shows "trim_space (a @ [NL]) = a"
proof -
  have l: "dropWhile is_space (a @ [NL]) = a @ [NL]" using assms(1,2) by (cases a) auto
  have "dropWhile is_space (rev a) = rev a" using assms(1,3) by (cases a rule: rev_cases) auto
  then show ?thesis using l by (simp add: trim_space_def trim_left_def is_space_def)
qed

lemma join_newlines: "ps \<noteq> [] \<Longrightarrow> concat (map (\<lambda>p. p @ [NL]) ps) = join_with [NL] ps @ [NL]"
  by (induction "[NL]" ps rule: join_with.induct) auto

lemma join_last: "ps \<noteq> [] \<Longrightarrow> last ps \<noteq> [] \<Longrightarrow> join_with sep ps \<noteq> [] \<and> last (join_with sep ps) = last (last ps)"
  by (induction sep ps rule: join_with.induct) auto

lemma join_hd: "ps \<noteq> [] \<Longrightarrow> hd ps \<noteq> [] \<Longrightarrow> join_with sep ps \<noteq> [] \<and> hd (join_with sep ps) = hd (hd ps)"
  by (induction sep ps rule: join_with.induct) auto

lemma listed_segments: "segment_paths (find_segments (WalFiles fs)) = map wal_path (filter is_segment fs)"
proof (cases "filter is_segment fs = []")
  case True
  then show ?thesis by (simp add: segment_paths_def find_segments_def split_lines_def)
next
  case False
  let ?ps = "map wal_path (filter is_segment fs)"
  have ne: "?ps \<noteq> []" using False by simp
  have good: "list_all (\<lambda>c. \<not> is_space c) p \<and> NL \<notin> set p \<and> p \<noteq> []" if "p \<in> set ?ps" for p
    using that path_chars by auto
  have l: "last ?ps \<in> set ?ps" and h: "hd ?ps \<in> set ?ps" using ne by (metis last_in_set, metis hd_in_set)
  have "trim_space (join_with [NL] ?ps @ [NL]) = join_with [NL] ?ps"
  proof (rule trim_last_newline)
    show "join_with [NL] ?ps \<noteq> []" using join_hd[OF ne] good[OF h] by blast
    show "\<not> is_space (hd (join_with [NL] ?ps))"
      using join_hd[OF ne] good[OF h] by (metis hd_in_set list_all_iff)
    show "\<not> is_space (last (join_with [NL] ?ps))"
      using join_last[OF ne] good[OF l] by (metis last_in_set list_all_iff)
  qed
  then have "split_lines (trim_space (find_segments (WalFiles fs))) = ?ps"
    using split_join_char[OF ne, of NL] good join_newlines[OF ne] by (simp add: find_segments_def split_lines_def comp_def)
  moreover have "map trim_space ?ps = ?ps" using good trim_nonspace_id by (intro map_idI) blast
  moreover have "filter (\<lambda>p. p \<noteq> '''') ?ps = ?ps" by (simp add: filter_id_conv)
  ultimately show ?thesis by (simp only: segment_paths_def)
qed

lemma older_segments: "older_paths redo (find_segments (WalFiles fs)) = map wal_path (filter (\<lambda>f. is_segment f \<and> f < redo) fs)"
  unfolding older_paths_def listed_segments filter_map comp_def
  by (induction fs) (auto simp: base_wal_path segment_chars)

text \<open>C25: A deletion that succeeds leaves exactly the files that are not segments before the boundary; the
  \<open>.partial\<close> and \<open>.backup\<close> files go too when the last command worked, every history file stays.\<close>

theorem prune_deletes_exactly:
  "if pk_list k = None \<and> pk_rm k = None \<and> wd_dir d = WalFiles fs
   then delete_wal_older_than k redo d =
     (None, d\<lparr> wd_dir := WalFiles (filter (\<lambda>f. \<not> (is_segment f \<and> f < redo) \<and>
        (if pk_tidy k then \<not> has_suffix f ''.partial'' \<and> \<not> has_suffix f ''.backup'' else True)) fs) \<rparr>)
   else True"
proof -
  have "delete_wal_older_than k redo d =
     (None, d\<lparr> wd_dir := WalFiles (filter (\<lambda>f. \<not> (is_segment f \<and> f < redo) \<and>
        (if pk_tidy k then \<not> has_suffix f ''.partial'' \<and> \<not> has_suffix f ''.backup'' else True)) fs) \<rparr>)"
    if h: "pk_list k = None" "pk_rm k = None" "wd_dir d = WalFiles fs"
  proof -
    let ?ps = "older_paths redo (find_segments (WalFiles fs))"
    have rm: "rm_files ?ps (WalFiles fs) = WalFiles (filter (\<lambda>f. \<not> (is_segment f \<and> f < redo)) fs)"
      unfolding older_segments rm_files_def by (auto intro!: filter_cong)
    have same: "d\<lparr> wd_dir := WalFiles fs \<rparr> = d" using h(3) by simp
    show ?thesis
    proof (cases "?ps = []")
      case True
      then have "\<forall>f\<in>set fs. \<not> (is_segment f \<and> f < redo)" unfolding older_segments by (simp add: filter_empty_conv)
      then have f: "filter (\<lambda>f. \<not> (is_segment f \<and> f < redo) \<and> Q f) fs = filter Q fs" for Q
        by (intro filter_cong) auto
      have e: "find_segments (wd_dir d) = find_segments (WalFiles fs)" using h(3) by simp
      show ?thesis
        using f[of "\<lambda>_. True"] f[of "\<lambda>f. \<not> has_suffix f ''.partial'' \<and> \<not> has_suffix f ''.backup''"] h True same
        by (cases "pk_tidy k") (simp_all add: delete_wal_older_than_def e on_dir_def drop_bookkeeping_def)
    next
      case False
      then show ?thesis using h
        by (cases "pk_tidy k") (simp_all add: delete_wal_older_than_def on_dir_def drop_bookkeeping_def rm conj_commute)
    qed
  qed
  then show ?thesis by simp
qed

section \<open>When a prune may delete\<close>

lemma lagging_none:
  "lagging_replicas ask redo txt rs = Ok [] \<Longrightarrow> r \<in> set rs \<Longrightarrow> \<exists>out pos. ask r = Ok out \<and> parse_lsn (trim_space out) = Ok pos \<and> redo \<le> pos"
  by (induction rs) (auto simp: Let_def not_less split: sum.splits if_splits)

lemma prune_behind:
  assumes ch: "snd (prune_on_pvc False k rs True d) \<noteq> d"
  shows "\<exists>wal lsn redo. read_checkpoint_boundary (pk_control k) = Ok (wal, lsn) \<and> parse_lsn lsn = Ok redo \<and> rs \<noteq> [] \<and>
     list_all (\<lambda>r. \<exists>out pos. pk_replica k r = Ok out \<and> parse_lsn (trim_space out) = Ok pos \<and> redo \<le> pos) rs"
proof -
  obtain wal lsn where b: "read_checkpoint_boundary (pk_control k) = Ok (wal, lsn)"
    using ch by (cases "read_checkpoint_boundary (pk_control k)") (auto simp: prune_on_pvc_def)
  have c: "replicas_caught_up False (pk_replica k) rs lsn = None"
    using ch b by (cases "replicas_caught_up False (pk_replica k) rs lsn") (simp_all add: prune_on_pvc_def)
  obtain redo where "parse_lsn lsn = Ok redo" "rs \<noteq> []" "lagging_replicas (pk_replica k) redo lsn rs = Ok []"
    using c by (auto simp: replicas_caught_up_def split: sum.splits if_splits)
  then show ?thesis using b lagging_none by (auto simp: list_all_iff)
qed

text \<open>Verified and without force, a prune changes the directory only when there are replicas to verify
  against and every one of them answered a position at or past the checkpoint.\<close>

theorem prune_needs_every_replica:
  "if snd (prune_on_pvc False k rs True d) \<noteq> d
   then \<exists>wal lsn redo. read_checkpoint_boundary (pk_control k) = Ok (wal, lsn) \<and> parse_lsn lsn = Ok redo \<and> rs \<noteq> [] \<and>
     list_all (\<lambda>r. \<exists>out pos. pk_replica k r = Ok out \<and> parse_lsn (trim_space out) = Ok pos \<and> redo \<le> pos) rs
   else True"
  using prune_behind by simp

end
