(* ===== verification/Prune_Deadlock.thy ===== *)
theory Prune_Deadlock
  imports Prune_Wal Cnpg_Data
begin

text \<open>
  Recovery of a CNPG instance that is too full to start (\<open>src/engine/prunewal/deadlock.go\<close>): an escrow, then,
  in the helper of an offline job, the relocation of \<open>pg_wal\<close> to the helper's scratch volume, a
  single-user replay, the cleanup and the move back; then the decision whether the recovered
  primary is handed back.  The scratch volume dies with the helper pod.  PostgreSQL's own
  programs are parameters: what they print, and what they leave in the log directory.
\<close>

section \<open>Positions\<close>

record instance_pos =
  ip_pod :: string
  ip_timeline :: int
  ip_lsn :: "64 word"

definition safe_to_release :: "instance_pos \<Rightarrow> instance_pos list \<Rightarrow> bool" where
  "safe_to_release r0 rs = list_ex (\<lambda>r. ip_timeline r = ip_timeline r0 \<and> ip_lsn r0 \<le> ip_lsn r) rs"

text \<open>A replica as the listing sees it (name, readiness) and what its query prints.\<close>

definition replica_position :: "string \<Rightarrow> (string, string) result \<Rightarrow> instance_pos option" where
  "replica_position pod ans =
     (case ans of
        Inl _ \<Rightarrow> None
      | Inr out \<Rightarrow>
          (case str_fields (trim_space out) of
             [tli, pos] \<Rightarrow>
               (case (parse_int64 10 tli, parse_lsn pos) of
                  (Inr t, Inr p) \<Rightarrow> Some \<lparr> ip_pod = pod, ip_timeline = t, ip_lsn = p \<rparr>
                | _ \<Rightarrow> None)
           | _ \<Rightarrow> None))"

definition read_replica_positions ::
  "string \<Rightarrow> (string, (string \<times> bool) list) result \<Rightarrow> (string \<Rightarrow> (string, string) result) \<Rightarrow> instance_pos list" where
  "read_replica_positions target pods ask =
     (case pods of
        Inl _ \<Rightarrow> []
      | Inr ps \<Rightarrow> List.map_filter (\<lambda>(p, ready). if p = target \<or> \<not> ready then None else replica_position p (ask p)) ps)"

text \<open>\<open>strings.Index\<close> and the text after the marker, up to the next space, without trailing commas and
  semicolons.\<close>

definition redo_marker :: string where "redo_marker = ''redo done at ''"

definition trim_right_set :: "string \<Rightarrow> string \<Rightarrow> string" where
  "trim_right_set cs s = rev (dropWhile (\<lambda>c. c \<in> set cs) (rev s))"

definition parse_redo_done :: "string \<Rightarrow> 64 word option" where
  "parse_redo_done out =
     (case str_index out redo_marker of
        None \<Rightarrow> None
      | Some i \<Rightarrow>
          (case str_fields (drop (i + length redo_marker) out) of
             [] \<Rightarrow> None
           | f # _ \<Rightarrow> (case parse_lsn (trim_right_set '',;'' f) of Inl _ \<Rightarrow> None | Inr l \<Rightarrow> Some l)))"

text \<open>The control file: state, REDO segment and timeline, each from the last line that names it.\<close>

definition after_first_colon :: "string \<Rightarrow> string" where
  "after_first_colon t = (case split_n2 (CHR '':'') t of [_, v] \<Rightarrow> trim_space v | _ \<Rightarrow> '''')"

fun control_lines :: "string list \<Rightarrow> string \<times> string \<times> int \<Rightarrow> string \<times> string \<times> int" where
  "control_lines [] acc = acc"
| "control_lines (l # ls) (st, wal, tli) =
     (let t = trim_space l in
      control_lines ls
        (if has_prefix t ''Database cluster state:'' then (after_first_colon t, wal, tli)
         else if str_contains t ''REDO WAL file'' then (st, last_field t, tli)
         else if has_prefix t (''Latest checkpoint'' @ [CHR 0x27] @ ''s TimeLineID:'')
         then (st, wal, atoi_lossy (after_first_colon t))
         else (st, wal, tli)))"

definition parse_control_state :: "string \<Rightarrow> string \<times> string \<times> int" where
  "parse_control_state out = control_lines (split_lines out) ('''', '''', 0)"

section \<open>The replay in the helper\<close>

text \<open>The answers of the steps.  \<open>rh_relocate\<close>: an error and the number of files moved by then;
  \<open>rh_replay\<close>: an error, or what was printed, and whether every committed record was applied, and the
  log directory it leaves; \<open>rh_clean\<close>: the files \<open>pg_archivecleanup\<close> keeps; \<open>rh_back\<close>: an error, before the
  link was removed or after, with the number of files copied by then.\<close>

record rehab_tools =
  rh_relocate :: "(string \<times> nat) option"
  rh_replay :: "(string, string \<times> string) result"
  rh_applied :: bool
  rh_leaves :: "string list \<Rightarrow> string list"
  rh_control :: "(string, string) result"
  rh_cleanup :: "string option"
  rh_clean :: "string \<Rightarrow> string list \<Rightarrow> string list"
  rh_back :: "(string \<times> nat option) option"

datatype rehab_error =
    RelocateFailed string | ReplayFailed string | ReplayPanicked string | ControlFailed string
  | NotShutDown string | NoRedoAfterReplay | CleanupFailed string | MoveBackFailed string

definition relocate :: "nat option \<Rightarrow> wal_disk \<Rightarrow> wal_disk" where
  "relocate part d =
     (case wd_dir d of
        WalLink \<Rightarrow> d
      | WalFiles fs \<Rightarrow>
          (case part of
             None \<Rightarrow> d\<lparr> wd_dir := WalLink, wd_scratch := Some fs \<rparr>
           | Some n \<Rightarrow> d\<lparr> wd_dir := WalFiles (drop n fs), wd_scratch := Some (take n fs) \<rparr>))"

text \<open>The server replays what the link leads to; a link to a scratch volume that is gone leads nowhere.\<close>

definition replayed :: "rehab_tools \<Rightarrow> wal_disk \<Rightarrow> wal_disk" where
  "replayed k d =
     (case wd_scratch d of
        None \<Rightarrow> d
      | Some fs \<Rightarrow> d\<lparr> wd_scratch := Some (rh_leaves k fs), wd_applied := wd_applied d \<or> rh_applied k \<rparr>)"

definition clean_scratch :: "rehab_tools \<Rightarrow> string \<Rightarrow> wal_disk \<Rightarrow> wal_disk" where
  "clean_scratch k redo d = d\<lparr> wd_scratch := map_option (rh_clean k redo) (wd_scratch d) \<rparr>"

definition move_back :: "nat option \<Rightarrow> wal_disk \<Rightarrow> wal_disk" where
  "move_back part d =
     (case wd_scratch d of
        None \<Rightarrow> d
      | Some fs \<Rightarrow>
          (case part of
             None \<Rightarrow> d\<lparr> wd_dir := WalFiles fs, wd_scratch := None \<rparr>
           | Some n \<Rightarrow> d\<lparr> wd_dir := WalFiles (take n fs) \<rparr>))"

definition has_failure :: "string \<Rightarrow> bool" where
  "has_failure out \<longleftrightarrow> str_contains out ''PANIC'' \<or> str_contains out ''FATAL''"

definition max_lsn :: "64 word" where "max_lsn = - 1"

definition recycle :: "rehab_tools \<Rightarrow> string \<Rightarrow> wal_disk \<Rightarrow> (rehab_error, int) result \<times> wal_disk" where
  "recycle k control d =
     (case parse_control_state control of (st, redo, tli) \<Rightarrow>
        if st \<noteq> ''shut down'' then (Err (NotShutDown st), d)
        else if redo = '''' then (Err NoRedoAfterReplay, d)
        else (case rh_cleanup k of
                Some err \<Rightarrow> (Err (CleanupFailed err), d)
              | None \<Rightarrow>
                  let d1 = clean_scratch k redo d in
                  (case rh_back k of
                     None \<Rightarrow> (Ok tli, move_back None d1)
                   | Some (err, None) \<Rightarrow> (Err (MoveBackFailed err), d1)
                   | Some (err, Some n) \<Rightarrow> (Err (MoveBackFailed err), move_back (Some n) d1))))"

definition deadlock_on_pvc :: "rehab_tools \<Rightarrow> wal_disk \<Rightarrow> (rehab_error, int \<times> 64 word) result \<times> wal_disk" where
  "deadlock_on_pvc k d =
     (case rh_relocate k of
        Some (err, n) \<Rightarrow> (Err (RelocateFailed err), relocate (Some n) d)
      | None \<Rightarrow>
          let d1 = replayed k (relocate None d) in
          (case rh_replay k of
             Inl err \<Rightarrow> (Err (ReplayFailed err), d1)
           | Inr (out, err) \<Rightarrow>
               if has_failure (out @ err) then (Err (ReplayPanicked (trim_space err)), d1)
               else (case rh_control k of
                       Inl e' \<Rightarrow> (Err (ControlFailed e'), d1)
                     | Inr control \<Rightarrow>
                         (case recycle k control d1 of
                            (Inl e', d2) \<Rightarrow> (Err e', d2)
                          | (Inr tli, d2) \<Rightarrow>
                              (Ok (tli, case parse_redo_done (out @ err) of None \<Rightarrow> max_lsn | Some l \<Rightarrow> l), d2)))))"

section \<open>The verb\<close>

text \<open>The scratch volume: the claim's capacity or request with half a gibibyte on top, or two gibibytes.\<close>

definition scratch_size :: "int \<Rightarrow> int \<Rightarrow> int" where
  "scratch_size capacity request =
     (let cap = (if capacity = 0 then request else capacity) in
      if cap = 0 then 2147483648 else cap + 536870912)"

record rehab_env =
  rv_escrow :: escrow_env
  rv_image :: string
  rv_claim :: "(string, int \<times> int) result"
  rv_work :: rehab_tools
  rv_pods :: "(string, (string \<times> bool) list) result"
  rv_ask :: "string \<Rightarrow> (string, string) result"
  rv_unfence_read :: bool
  rv_unfence_patch :: outcome

datatype rehab_failure =
    EscrowRefused escrow_error | NothingEscrowed | NoImage | ClaimUnread string
  | RehabJob job_error | ReleaseFailed

definition rehab_escrow :: "prune_conf \<Rightarrow> rehab_env \<Rightarrow> string \<Rightarrow> (rehab_failure, escrow_ref list) result" where
  "rehab_escrow c v pvc =
     (if ec_no_escrow (pr_escrow c) then Ok []
      else (case gate (rv_escrow v) (pr_escrow c) [pvc] [] of
              Inl err \<Rightarrow> Err (EscrowRefused err)
            | Inr refs \<Rightarrow> if refs = [] then Err NothingEscrowed else Ok refs))"

text \<open>The work of the job, on the log directory and the positions it reports: the recovered position, and
  the replicas' when the target is the primary.\<close>

type_synonym rehab_state = "wal_disk \<times> (instance_pos \<times> instance_pos list) option"

definition rehab_work :: "rehab_env \<Rightarrow> string \<Rightarrow> bool \<Rightarrow> rehab_state \<Rightarrow> rehab_error option \<times> rehab_state" where
  "rehab_work v target is_primary s =
     (case deadlock_on_pvc (rv_work v) (fst s) of
        (Inl err, d) \<Rightarrow> (Some err, d, snd s)
      | (Inr (tli, l), d) \<Rightarrow>
          (None, d, Some (\<lparr> ip_pod = target, ip_timeline = tli, ip_lsn = l \<rparr>,
             if is_primary then read_replica_positions target (rv_pods v) (rv_ask v) else [])))"

text \<open>The scratch volume goes with the helper pod.\<close>

definition drop_scratch :: "wal_disk \<Rightarrow> wal_disk" where "drop_scratch d = d\<lparr> wd_scratch := None \<rparr>"

definition release_step ::
  "rehab_env \<Rightarrow> string \<Rightarrow> bool \<Rightarrow> (instance_pos \<times> instance_pos list) option \<Rightarrow> cnpg_cluster
     \<Rightarrow> rehab_failure option \<times> cnpg_cluster" where
  "release_step v target is_primary pos s =
     (if \<not> is_primary then (None, s)
      else (case pos of
              None \<Rightarrow> (None, s)
            | Some (r0, rs) \<Rightarrow>
                if \<not> safe_to_release r0 rs then (None, s)
                else (case unfence (rv_unfence_read v) (rv_unfence_patch v) target s of
                        (ok, s') \<Rightarrow> (if ok then None else Some ReleaseFailed, s'))))"

definition deadlock_recover ::
  "prune_conf \<Rightarrow> job_env \<Rightarrow> rehab_env \<Rightarrow> string \<Rightarrow> string \<Rightarrow> bool \<Rightarrow> prune_state \<Rightarrow> rehab_failure option \<times> prune_state" where
  "deadlock_recover c je v target pvc is_primary w =
     (if pr_dry_run c then (None, w)
      else (case rehab_escrow c v pvc of
              Inl err \<Rightarrow> (Some err, w)
            | Inr _ \<Rightarrow>
                if rv_image v = '''' then (Some NoImage, w)
                else (case rv_claim v of
                        Inl err \<Rightarrow> (Some (ClaimUnread err), w)
                      | Inr _ \<Rightarrow>
                          (case run_driven je (prune_job c target pvc True) (rehab_work v target is_primary) (fst w) (snd w, None) of
                             (Some err, _, s, d, _) \<Rightarrow> (Some (RehabJob err), s, drop_scratch d)
                           | (None, _, s, d, pos) \<Rightarrow>
                               (case release_step v target is_primary pos s of
                                  (err, s') \<Rightarrow> (err, s', drop_scratch d))))))"

text \<open>The whole verb: the instance, the lock, triage, the checks, then one of the two ways.\<close>

datatype prune_failure = PruneFailed prune_error | RehabFailed rehab_failure

definition prune_wal :: "prune_conf \<Rightarrow> prune_env \<Rightarrow> rehab_env \<Rightarrow> prune_state \<Rightarrow> prune_failure option \<times> prune_state" where
  "prune_wal c e v w =
     (case pr_instance c of
        None \<Rightarrow> (Some (PruneFailed NoInstance), w)
      | Some n \<Rightarrow>
          (case pe_lock e of
             Some err \<Rightarrow> (Some (PruneFailed (PruneLocked err)), w)
           | None \<Rightarrow>
               (case pe_triage e of
                  Inl err \<Rightarrow> (Some (PruneFailed (PruneTriage err)), w)
                | Inr t \<Rightarrow>
                    let target = instance_pod (pr_cluster c) n in
                    (case prune_target c target (pe_primary e) t of
                       Inl err \<Rightarrow> (Some (PruneFailed err), w)
                     | Inr who \<Rightarrow>
                         if pr_deadlock c
                         then (case deadlock_recover c (pe_job e) v target (resolve_pvc target (pe_volumes e)) (pe_primary e = target) w of
                                 (err, w') \<Rightarrow> (map_option RehabFailed err, w'))
                         else (case delete_only c e target who w of
                                 (err, w') \<Rightarrow> (map_option PruneFailed err, w'))))))"

section \<open>The recovered directory\<close>

text \<open>A recovery that succeeds on a directory of files leaves the replayed and cleaned files in its place,
  and the data files hold every committed record when the replay applied them.\<close>

theorem recovered_log_is_back:
  "case deadlock_on_pvc k d of
     (Inl _, _) \<Rightarrow> True
   | (Inr (tli, _), d') \<Rightarrow>
       (case wd_dir d of
          WalLink \<Rightarrow> True
        | WalFiles fs \<Rightarrow>
            (\<exists>out redo. rh_control k = Ok out \<and> parse_control_state out = (''shut down'', redo, tli) \<and> redo \<noteq> '''' \<and>
               wd_dir d' = WalFiles (rh_clean k redo (rh_leaves k fs)) \<and> wd_applied d' = (wd_applied d \<or> rh_applied k)))"
proof (cases "wd_dir d")
  case (WalFiles fs)
  show ?thesis
    using WalFiles
    by (auto simp: deadlock_on_pvc_def recycle_def Let_def relocate_def replayed_def clean_scratch_def move_back_def
        split: option.splits sum.splits prod.splits if_splits)
qed (simp split: sum.split prod.split)

text \<open>Without the scratch volume no attempt does anything to the log or the data files.\<close>

lemma link_stays:
  assumes "wd_dir d = WalLink" "wd_scratch d = None"
  shows "snd (deadlock_on_pvc k d) = d"
  using assms
  by (cases d)
    (auto simp: deadlock_on_pvc_def recycle_def Let_def relocate_def replayed_def clean_scratch_def move_back_def
      split: option.split sum.split prod.split)

text \<open>A replay that fails leaves only the link: the log was on the helper's scratch volume, which goes with
  the pod, and no later attempt finds it, so the committed records that were not applied are gone from
  the claim.\<close>

theorem failed_replay_loses_the_log:
  "if (\<exists>fs. wd_dir d = WalFiles fs) \<and> rh_relocate k = None \<and>
      (case rh_replay k of Inl _ \<Rightarrow> True | Inr (out, err) \<Rightarrow> has_failure (out @ err))
   then let d' = drop_scratch (snd (deadlock_on_pvc k d)) in
     wd_dir d' = WalLink \<and> wd_scratch d' = None \<and> wd_applied d' = (wd_applied d \<or> rh_applied k) \<and>
     (\<forall>k'. drop_scratch (snd (deadlock_on_pvc k' d')) = d')
   else True"
proof -
  have "let d' = drop_scratch (snd (deadlock_on_pvc k d)) in
     wd_dir d' = WalLink \<and> wd_scratch d' = None \<and> wd_applied d' = (wd_applied d \<or> rh_applied k) \<and>
     (\<forall>k'. drop_scratch (snd (deadlock_on_pvc k' d')) = d')"
    if h: "wd_dir d = WalFiles fs" "rh_relocate k = None" "case rh_replay k of Inl _ \<Rightarrow> True | Inr (out, err) \<Rightarrow> has_failure (out @ err)" for fs
  proof -
    let ?d = "drop_scratch (snd (deadlock_on_pvc k d))"
    have "snd (deadlock_on_pvc k d) = replayed k (relocate None d)"
      using h(2,3) by (auto simp: deadlock_on_pvc_def Let_def split: sum.splits prod.splits)
    then have d: "wd_dir ?d = WalLink" "wd_scratch ?d = None" "wd_applied ?d = (wd_applied d \<or> rh_applied k)"
      using h(1) by (simp_all add: relocate_def replayed_def drop_scratch_def)
    have "drop_scratch ?d = ?d" by (simp add: drop_scratch_def)
    then show ?thesis using d link_stays[OF d(1,2)] by (simp add: Let_def)
  qed
  then show ?thesis by auto
qed

section \<open>The release of a recovered primary\<close>

text \<open>What the job reports when it succeeds.\<close>

lemma job_reports:
  assumes "run_driven je (prune_job c target pvc True) (rehab_work v target p) s (d, None) = (None, we, s', d', pos)"
    "list_all plain_name (target # fenced_in s)"
  shows "target \<in> set (fenced_in s')"
    "\<exists>tli l. deadlock_on_pvc (rv_work v) d = (Ok (tli, l), d') \<and>
       pos = Some (\<lparr> ip_pod = target, ip_timeline = tli, ip_lsn = l \<rparr>,
                   if p then read_replica_positions target (rv_pods v) (rv_ask v) else [])"
proof -
  have dr: "oj_driven (prune_job c target pvc True)" by (simp add: prune_job_def)
  note sp = run_driven_spec[OF assms(1) dr]
  obtain x where "run_job (je\<lparr> je_work := x \<rparr>) (prune_job c target pvc True) s = (None, s')" using sp(3) by blast
  from kept_fence[OF this] show "target \<in> set (fenced_in s')" using assms(2) by (simp add: prune_job_def)
  have "rehab_work v target p (d, None) = (None, d', pos)" using sp(2) by simp
  then show "\<exists>tli l. deadlock_on_pvc (rv_work v) d = (Ok (tli, l), d') \<and>
       pos = Some (\<lparr> ip_pod = target, ip_timeline = tli, ip_lsn = l \<rparr>,
                   if p then read_replica_positions target (rv_pods v) (rv_ask v) else [])"
    by (auto simp: rehab_work_def split: prod.splits sum.splits)
qed

lemma recover_keeps_fence:
  assumes nd: "\<not> pr_dry_run c" and pl: "list_all plain_name (target # fenced_in (fst w))"
    and ok: "fst (deadlock_recover c je v target pvc p w) = None \<or> fst (deadlock_recover c je v target pvc p w) = Some ReleaseFailed"
  shows "target \<in> set (fenced_in (fst (snd (deadlock_recover c je v target pvc p w)))) \<or>
     p \<and> (\<exists>tli l d. deadlock_on_pvc (rv_work v) (snd w) = (Ok (tli, l), d) \<and>
        list_ex (\<lambda>r. ip_timeline r = tli \<and> l \<le> ip_lsn r) (read_replica_positions target (rv_pods v) (rv_ask v)))"
proof -
  obtain jerr we s d pos where j: "run_driven je (prune_job c target pvc True) (rehab_work v target p) (fst w) (snd w, None)
      = (jerr, we, s, d, pos)" by (metis prod_cases5)
  obtain refs where g: "rehab_escrow c v pvc = Ok refs"
    using ok nd by (cases "rehab_escrow c v pvc") (auto simp: deadlock_recover_def rehab_escrow_def split: if_splits sum.splits)
  obtain cl where cl: "rv_image v \<noteq> ''''" "rv_claim v = Ok cl"
    using ok nd g by (cases "rv_claim v") (auto simp: deadlock_recover_def split: if_splits)
  have je: "jerr = None" using ok nd g cl j by (cases jerr) (auto simp: deadlock_recover_def)
  note r = job_reports[OF j[unfolded je] pl]
  obtain tli l where tl: "deadlock_on_pvc (rv_work v) (snd w) = (Ok (tli, l), d)"
    "pos = Some (\<lparr> ip_pod = target, ip_timeline = tli, ip_lsn = l \<rparr>,
                 if p then read_replica_positions target (rv_pods v) (rv_ask v) else [])" using r(2) by blast
  have e: "fst (snd (deadlock_recover c je v target pvc p w)) = snd (release_step v target p pos s)"
    using nd g cl j je by (simp add: deadlock_recover_def split: prod.split)
  show ?thesis
  proof (cases "p \<and> safe_to_release \<lparr> ip_pod = target, ip_timeline = tli, ip_lsn = l \<rparr> (read_replica_positions target (rv_pods v) (rv_ask v))")
    case True
    then show ?thesis using tl(1) by (auto simp: safe_to_release_def)
  next
    case False
    then have "snd (release_step v target p pos s) = s" using tl(2) by (auto simp: release_step_def)
    then show ?thesis using r(1) e by simp
  qed
qed

text \<open>C24: A recovery that ran its job leaves the instance fenced unless it is the primary and some replica was
  read on its timeline at or past the end of the replay.\<close>

theorem released_only_when_caught_up:
  "if \<not> pr_dry_run c \<and> list_all plain_name (target # fenced_in (fst w)) \<and>
      (fst (deadlock_recover c je v target pvc p w) = None \<or> fst (deadlock_recover c je v target pvc p w) = Some ReleaseFailed)
   then target \<in> set (fenced_in (fst (snd (deadlock_recover c je v target pvc p w)))) \<or>
     p \<and> (\<exists>tli l d. deadlock_on_pvc (rv_work v) (snd w) = (Ok (tli, l), d) \<and>
        list_ex (\<lambda>r. ip_timeline r = tli \<and> l \<le> ip_lsn r) (read_replica_positions target (rv_pods v) (rv_ask v)))
   else True"
  using recover_keeps_fence by simp

text \<open>Without a redo endpoint in the output no replica short of the largest position releases the primary.\<close>

lemma unproven_position_guards:
  "parse_redo_done (out @ err) = None \<Longrightarrow> rh_replay k = Ok (out, err) \<Longrightarrow> deadlock_on_pvc k d = (Ok (tli, l), d') \<Longrightarrow>
     safe_to_release \<lparr> ip_pod = p, ip_timeline = tli, ip_lsn = l \<rparr> rs \<Longrightarrow> list_ex (\<lambda>r. ip_lsn r = - 1) rs"
  by (auto simp: deadlock_on_pvc_def safe_to_release_def list_ex_iff max_lsn_def Let_def word_order.extremum_unique
      split: option.splits sum.splits prod.splits if_splits)

section \<open>What authorizes a change\<close>







text \<open>A trapped instance that is not the primary is still fenced after the verb succeeds, in either way, so
  the operator cannot rewind it onto the primary's lineage.\<close>

theorem relieved_authority_stays_fenced:
  "if fst (prune_wal c e v w) = None \<and> \<not> pr_dry_run c
   then \<exists>n. pr_instance c = Some n \<and>
     (if pe_primary e \<noteq> instance_pod (pr_cluster c) n \<and>
         list_all plain_name (instance_pod (pr_cluster c) n # fenced_in (fst w))
      then instance_pod (pr_cluster c) n \<in> set (fenced_in (fst (snd (prune_wal c e v w)))) else True)
   else True"
proof (cases "fst (prune_wal c e v w) = None \<and> \<not> pr_dry_run c")
  case True
  obtain n where n: "pr_instance c = Some n" using True by (cases "pr_instance c") (simp_all add: prune_wal_def)
  have l: "pe_lock e = None" using True n by (cases "pe_lock e") (simp_all add: prune_wal_def)
  obtain t where t: "pe_triage e = Ok t" using True n l by (cases "pe_triage e") (simp_all add: prune_wal_def)
  let ?t = "instance_pod (pr_cluster c) n" and ?v = "resolve_pvc (instance_pod (pr_cluster c) n) (pe_volumes e)"
  obtain who where who: "prune_target c ?t (pe_primary e) t = Ok who"
    using True n l t by (cases "prune_target c ?t (pe_primary e) t") (simp_all add: prune_wal_def)
  have "?t \<in> set (fenced_in (fst (snd (prune_wal c e v w))))"
    if np: "pe_primary e \<noteq> ?t" and pl: "list_all plain_name (?t # fenced_in (fst w))"
  proof (cases "pr_deadlock c")
    case True
    then have r: "prune_wal c e v w = (case deadlock_recover c (pe_job e) v ?t ?v False w of (err, w') \<Rightarrow> (map_option RehabFailed err, w'))"
      using n l t who np by (simp add: prune_wal_def Let_def)
    then have "fst (deadlock_recover c (pe_job e) v ?t ?v False w) = None"
      using \<open>fst (prune_wal c e v w) = None \<and> \<not> pr_dry_run c\<close> by (auto split: prod.splits)
    then show ?thesis
      using recover_keeps_fence[of c ?t w "pe_job e" v ?v False] pl \<open>fst (prune_wal c e v w) = None \<and> \<not> pr_dry_run c\<close> r
      by (auto split: prod.splits)
  next
    case False
    let ?j = "prune_job c ?t ?v True"
    obtain jerr we s d where j: "run_driven (pe_job e) ?j
      (prune_on_pvc (pr_force c) (pe_work e) (snd who) (fst who)) (fst w) (snd w) = (jerr, we, s, d)" by (metis prod_cases4)
    have r: "prune_wal c e v w = (case delete_only c e ?t who w of (err, w') \<Rightarrow> (map_option PruneFailed err, w'))"
      using n l t who False by (simp add: prune_wal_def Let_def)
    then have "jerr = None" "snd (prune_wal c e v w) = (s, d)"
      using True j np by (auto simp: delete_only_def split: if_splits)
    moreover obtain x where "run_job (pe_job e\<lparr> je_work := x \<rparr>) ?j (fst w) = (jerr, s)"
      using run_driven_spec(3)[OF j] by (auto simp: prune_job_def)
    ultimately show ?thesis using kept_fence[of "pe_job e\<lparr> je_work := x \<rparr>" ?j "fst w" s] pl by (simp add: prune_job_def)
  qed
  then show ?thesis using n by simp
next
  case False
  show ?thesis by (simp only: False if_False)
qed

text \<open>With the in-place verb a primary is judged like any other instance: one that triage does not name the
  authority is refused, and force helps only in a diverged cluster.\<close>

lemma deadlocked_primary_needs_authority:
  assumes "find_assessment target t = Some a" "\<not> ia_ready a" "pr_deadlock c"
    "dc_most_advanced (tr_comparison t) \<noteq> target" "ia_classification a \<noteq> ClassAuthoritative"
    "dc_authority (tr_comparison t) \<noteq> AuthorityDiverged"
  shows "prune_target c target target t = Err (NotAuthority target)"
  using assms by (simp add: prune_target_def relief_eligible_def Let_def)

end
