(* ===== verification/Retention.thy ===== *)
theory Retention
  imports Go_Time
begin

text \<open>
  Backup retention (\<open>src/restic/forget.go\<close>, \<open>src/restic/snapshots.go\<close>): snapshots of one repair job
  form a group, and a group is kept or forgotten as a whole, by the last jobs and by the last job of
  the most recent days, ISO weeks and months.  The restic program is a parameter: its answers to each
  command.  A Go map is an association list in the order of first insertion.
\<close>

section \<open>Snapshots and jobs\<close>

record snapshot =
  sn_id :: string
  sn_short :: string
  sn_time :: int
  sn_tags :: "string list"

definition tag_entry :: "string \<Rightarrow> (string \<times> string) list \<Rightarrow> (string \<times> string) list" where
  "tag_entry t m =
     (case str_index t ''='' of
        None \<Rightarrow> m
      | Some i \<Rightarrow> if i > 0 then map_set (take i t) (drop (i + 1) t) m else m)"

definition tag_map :: "snapshot \<Rightarrow> (string \<times> string) list" where
  "tag_map s = fold tag_entry (sn_tags s) []"

record job_group =
  jg_job :: string
  jg_time :: int
  jg_snaps :: "snapshot list"

text \<open>A snapshot without a job tag is a group of its own.\<close>

definition job_of :: "snapshot \<Rightarrow> string" where
  "job_of s = (let j = map_get [] (tag_map s) ''job'' in if j = [] then ''ungrouped-'' @ sn_short s else j)"

fun add_to_job :: "snapshot \<Rightarrow> job_group list \<Rightarrow> job_group list" where
  "add_to_job s [] = [\<lparr> jg_job = job_of s, jg_time = sn_time s, jg_snaps = [s] \<rparr>]"
| "add_to_job s (g # gs) =
     (if jg_job g = job_of s then g\<lparr> jg_snaps := jg_snaps g @ [s] \<rparr> # gs else g # add_to_job s gs)"

definition newer :: "job_group \<Rightarrow> job_group \<Rightarrow> bool" where
  "newer a b \<longleftrightarrow> jg_time b < jg_time a"

definition group_by_job :: "snapshot list \<Rightarrow> job_group list" where
  "group_by_job ss = sort_by newer (fold add_to_job ss [])"

section \<open>The policy\<close>

record retention_policy =
  rp_last :: int
  rp_daily :: int
  rp_weekly :: int
  rp_monthly :: int

definition day_number :: "int \<Rightarrow> int" where "day_number t = t div nanos div 86400"

definition month_key :: "int \<Rightarrow> string" where
  "month_key t = (case civil_from_days (day_number t) of (y, m, _) \<Rightarrow> pad_zero 4 (dec_str y) @ ''-'' @ pad2 m)"

definition day_key :: "int \<Rightarrow> string" where
  "day_key t =
     (case civil_from_days (day_number t) of (y, m, d) \<Rightarrow> pad_zero 4 (dec_str y) @ ''-'' @ pad2 m @ ''-'' @ pad2 d)"

text \<open>\<open>ISOWeek\<close>: the week belongs to the year of its Thursday.  1970-01-01 was a Thursday.\<close>

definition thursday :: "int \<Rightarrow> int" where "thursday d = d - (d + 3) mod 7 + 3"

definition iso_week :: "int \<Rightarrow> int \<times> int" where
  "iso_week d = (let y = fst (civil_from_days (thursday d)) in (y, (thursday d - days_from_civil y 1 1) div 7 + 1))"

definition week_key :: "int \<Rightarrow> string" where
  "week_key t = (case iso_week (day_number t) of (y, w) \<Rightarrow> dec_str y @ ''-'' @ pad2 w)"

text \<open>One job for each of the first windows: the loop with its counter and the window seen last.\<close>

fun window_jobs :: "(int \<Rightarrow> string) \<Rightarrow> int \<Rightarrow> int \<Rightarrow> string \<Rightarrow> job_group list \<Rightarrow> string list" where
  "window_jobs key n seen prev [] = []"
| "window_jobs key n seen prev (g # gs) =
     (let k = key (jg_time g) in
      if k \<noteq> prev then (if seen + 1 > n then [] else jg_job g # window_jobs key n (seen + 1) k gs)
      else window_jobs key n seen prev gs)"

definition kept_jobs :: "retention_policy \<Rightarrow> job_group list \<Rightarrow> string list" where
  "kept_jobs p gs =
     (if rp_last p > 0 then map jg_job (take (nat (rp_last p)) gs) else []) @
     (if rp_daily p > 0 then window_jobs day_key (rp_daily p) 0 [] gs else []) @
     (if rp_weekly p > 0 then window_jobs week_key (rp_weekly p) 0 [] gs else []) @
     (if rp_monthly p > 0 then window_jobs month_key (rp_monthly p) 0 [] gs else [])"

definition no_policy :: "retention_policy \<Rightarrow> bool" where
  "no_policy p \<longleftrightarrow> rp_last p = 0 \<and> rp_daily p = 0 \<and> rp_weekly p = 0 \<and> rp_monthly p = 0"

definition apply_group_retention :: "job_group list \<Rightarrow> retention_policy \<Rightarrow> job_group list \<times> job_group list" where
  "apply_group_retention gs p =
     (if no_policy p then (gs, [])
      else (filter (\<lambda>g. jg_job g \<in> set (kept_jobs p gs)) gs, filter (\<lambda>g. jg_job g \<notin> set (kept_jobs p gs)) gs))"

section \<open>Forgetting\<close>

text \<open>The repository as the commands see it: the snapshots it lists, and whether data of forgotten
  snapshots is still stored.\<close>

record repo =
  ro_snaps :: "snapshot list"
  ro_garbage :: bool

definition forget_snapshot :: "string \<Rightarrow> repo \<Rightarrow> repo" where
  "forget_snapshot i r =
     r\<lparr> ro_snaps := filter (\<lambda>s. sn_id s \<noteq> i) (ro_snaps r),
        ro_garbage := ro_garbage r \<or> list_ex (\<lambda>s. sn_id s = i) (ro_snaps r) \<rparr>"

definition prune_repo :: "repo \<Rightarrow> repo" where "prune_repo r = r\<lparr> ro_garbage := False \<rparr>"

text \<open>A snapshot matches a filter when it carries every one of its tags.\<close>

definition matches_tags :: "(string \<times> string) list \<Rightarrow> snapshot \<Rightarrow> bool" where
  "matches_tags f s \<longleftrightarrow> list_all (\<lambda>(k, v). k @ ''='' @ v \<in> set (sn_tags s)) f"

definition tag_filter :: "(string \<times> string) list \<Rightarrow> string list" where
  "tag_filter tags = (if tags = [] then [] else [''--tag'', join_with '','' (map (\<lambda>(k, v). k @ ''='' @ v) tags)])"

record restic_answers =
  ra_list :: bool
  ra_forget :: "string \<Rightarrow> outcome"
  ra_prune :: outcome

datatype forget_error = ListFailed | ForgetFailed string | PruneFailed

fun forget_all :: "restic_answers \<Rightarrow> snapshot list \<Rightarrow> nat \<Rightarrow> repo \<Rightarrow> (forget_error option \<times> nat) \<times> repo" where
  "forget_all a [] n r = ((None, n), r)"
| "forget_all a (s # ss) n r =
     (case call (ra_forget a (sn_id s)) (forget_snapshot (sn_id s)) r of
        (False, r1) \<Rightarrow> ((Some (ForgetFailed (sn_short s)), n), r1)
      | (True, r1) \<Rightarrow> forget_all a ss (n + 1) r1)"

record forget_outcome =
  fo_error :: "forget_error option"
  fo_kept :: nat
  fo_removed :: nat

definition forget_grouped ::
  "restic_answers \<Rightarrow> (string \<times> string) list \<Rightarrow> retention_policy \<Rightarrow> bool \<Rightarrow> repo \<Rightarrow> forget_outcome \<times> repo" where
  "forget_grouped a f p prune r =
     (if \<not> ra_list a then (\<lparr> fo_error = Some ListFailed, fo_kept = 0, fo_removed = 0 \<rparr>, r)
      else (case apply_group_retention (group_by_job (filter (matches_tags f) (ro_snaps r))) p of
              (keep, remove) \<Rightarrow>
                let kept = sum_list (map (\<lambda>g. length (jg_snaps g)) keep) in
                (case forget_all a (concat (map jg_snaps remove)) 0 r of
                   ((Some err, n), r1) \<Rightarrow> (\<lparr> fo_error = Some err, fo_kept = kept, fo_removed = n \<rparr>, r1)
                 | ((None, n), r1) \<Rightarrow>
                     if prune \<and> n > 0 then
                       (case call (ra_prune a) prune_repo r1 of
                          (False, r2) \<Rightarrow> (\<lparr> fo_error = Some PruneFailed, fo_kept = kept, fo_removed = n \<rparr>, r2)
                        | (True, r2) \<Rightarrow> (\<lparr> fo_error = None, fo_kept = kept, fo_removed = n \<rparr>, r2))
                     else (\<lparr> fo_error = None, fo_kept = kept, fo_removed = n \<rparr>, r1))))"

section \<open>Grouping\<close>

lemma add_to_job_jobs:
  "set (map jg_job (add_to_job s gs)) = insert (job_of s) (set (map jg_job gs))"
  by (induction gs) auto

lemma add_to_job_distinct: "distinct (map jg_job gs) \<Longrightarrow> distinct (map jg_job (add_to_job s gs))"
  using add_to_job_jobs by (induction gs) fastforce+

lemma add_to_job_snaps: "mset (concat (map jg_snaps (add_to_job s gs))) = add_mset s (mset (concat (map jg_snaps gs)))"
  by (induction gs) auto

definition sound_groups :: "job_group list \<Rightarrow> bool" where
  "sound_groups gs \<longleftrightarrow> distinct (map jg_job gs) \<and> (\<forall>g\<in>set gs. \<forall>s\<in>set (jg_snaps g). job_of s = jg_job g)"

lemma add_to_job_members:
  "\<forall>g\<in>set gs. \<forall>s\<in>set (jg_snaps g). job_of s = jg_job g \<Longrightarrow>
   \<forall>g\<in>set (add_to_job x gs). \<forall>s\<in>set (jg_snaps g). job_of s = jg_job g"
  by (induction gs) auto

lemma add_to_job_sound: "sound_groups gs \<Longrightarrow> sound_groups (add_to_job s gs)"
  using add_to_job_distinct add_to_job_members unfolding sound_groups_def by blast

lemma fold_add_sound: "sound_groups gs \<Longrightarrow> sound_groups (fold add_to_job ss gs)"
  by (induction ss arbitrary: gs) (simp_all add: add_to_job_sound)

lemma fold_add_snaps:
  "mset (concat (map jg_snaps (fold add_to_job ss gs))) = mset ss + mset (concat (map jg_snaps gs))"
proof (induction ss arbitrary: gs)
  case (Cons s ss)
  show ?case using Cons[of "add_to_job s gs"] by (simp only: fold_Cons comp_apply add_to_job_snaps) simp
qed simp

lemma group_by_job_sound: "sound_groups (group_by_job ss)"
proof -
  let ?gs = "fold add_to_job ss []"
  have s: "sound_groups ?gs" by (rule fold_add_sound) (simp add: sound_groups_def)
  have m: "mset (map jg_job (group_by_job ss)) = mset (map jg_job ?gs)" by (simp add: group_by_job_def)
  then have "distinct (map jg_job (group_by_job ss))" using s mset_eq_imp_distinct_iff[OF m] by (simp add: sound_groups_def)
  then show ?thesis using s by (simp add: sound_groups_def group_by_job_def)
qed

lemma group_by_job_snaps: "mset (concat (map jg_snaps (group_by_job ss))) = mset ss"
proof -
  have "mset (concat (map jg_snaps gs)) = sum_mset (image_mset (\<lambda>g. mset (jg_snaps g)) (mset gs))" for gs :: "job_group list"
    by (induction gs) simp_all
  then show ?thesis using fold_add_snaps[of ss "[]"] by (simp add: group_by_job_def)
qed

lemma newer_order: "strict_weak newer"
  by (auto simp: strict_weak_def newer_def)

lemma group_by_job_sorted: "sorted_wrt (\<lambda>a b. jg_time b \<le> jg_time a) (group_by_job ss)"
  using sorted_sort_by[OF newer_order, of "fold add_to_job ss []"]
  by (simp add: group_by_job_def newer_def not_less)

section \<open>Calendar windows\<close>

lemma pad2_inj:
  assumes "pad2 m = pad2 n" "0 \<le> m" "m \<le> 99" "0 \<le> n" "n \<le> 99"
  shows "m = n"
proof -
  have "num_of (pad2 k) = k" if "0 \<le> k" "k \<le> 99" for k
    using pad2_table that by (auto simp: list_all_iff)
  then show ?thesis using assms by metis
qed

definition in_calendar :: "int \<Rightarrow> bool" where
  "in_calendar t \<longleftrightarrow> 0 \<le> fst (civil_from_days (day_number t)) \<and> fst (civil_from_days (day_number t)) \<le> 9999 \<and>
     0 \<le> fst (iso_week (day_number t)) \<and> fst (iso_week (day_number t)) \<le> 9999"

lemma day_key_inj:
  assumes "in_calendar t" "in_calendar u"
  shows "day_key t = day_key u \<longleftrightarrow> day_number t = day_number u"
proof
  assume k: "day_key t = day_key u"
  obtain y m d y' m' d' where c: "civil_from_days (day_number t) = (y, m, d)" "civil_from_days (day_number u) = (y', m', d')"
    by (metis prod_cases3)
  note sp = civil_from_days_spec[OF c(1)] civil_from_days_spec[OF c(2)]
  have md: "month_days a b \<le> 31" for a b by (simp add: month_days_def)
  have yy: "0 \<le> y" "y \<le> 9999" "0 \<le> y'" "y' \<le> 9999" using assms c by (simp_all add: in_calendar_def)
  have e: "pad_zero 4 (dec_str y) @ ''-'' @ pad2 m @ ''-'' @ pad2 d = pad_zero 4 (dec_str y') @ ''-'' @ pad2 m' @ ''-'' @ pad2 d'"
    using k c by (simp add: day_key_def)
  then have "take_num 4 (pad_zero 4 (dec_str y) @ ''-'' @ pad2 m @ ''-'' @ pad2 d) =
      take_num 4 (pad_zero 4 (dec_str y') @ ''-'' @ pad2 m' @ ''-'' @ pad2 d')" by simp
  then have 1: "y = y'" "''-'' @ pad2 m @ ''-'' @ pad2 d = ''-'' @ pad2 m' @ ''-'' @ pad2 d'"
    unfolding take_pad4[OF yy(1,2)] take_pad4[OF yy(3,4)] by simp_all
  then have "take_num 2 (pad2 m @ ''-'' @ pad2 d) = take_num 2 (pad2 m' @ ''-'' @ pad2 d')" by simp
  then have 2: "m = m'" "''-'' @ pad2 d = ''-'' @ pad2 d'" using sp by (simp_all del: append_Cons append_Nil)
  then have "take_num 2 (pad2 d @ []) = take_num 2 (pad2 d' @ [])" by simp
  then have "d = d'" using take_pad2[of d "[]"] take_pad2[of d' "[]"] sp md[of y m] md[of y' m'] by simp
  then show "day_number t = day_number u" using 1 2 sp by simp
qed (simp add: day_key_def)

text \<open>Months follow one another without a gap, so the month of a day grows with the day.\<close>

definition month_start :: "int \<Rightarrow> int" where
  "month_start k = days_from_civil (k div 12) (k mod 12 + 1) 1"

lemma div_mod_by: "n = c * q + r \<Longrightarrow> 0 \<le> r \<Longrightarrow> r < c \<Longrightarrow> n div c = q \<and> n mod c = (r::int)"
  by (metis int_div_pos_eq int_mod_pos_eq)

lemma mod_range: "(0::int) < c \<Longrightarrow> 0 \<le> x mod c \<and> x mod c < c"
  by simp

lemma div_pred:
  assumes "(0::int) < c"
  shows "y div c - (y - 1) div c = (if y mod c = 0 then 1 else 0)"
proof -
  have y: "y = c * (y div c) + y mod c" "0 \<le> y mod c" "y mod c < c" using assms by simp_all
  show ?thesis
  proof (cases "y mod c = 0")
    case True
    have "(y - 1) div c = y div c - 1"
      using div_mod_by[of "y - 1" c "y div c - 1" "c - 1"] y True assms by (simp add: right_diff_distrib)
    then show ?thesis using True by simp
  next
    case False
    have "(y - 1) div c = y div c" using div_mod_by[of "y - 1" c "y div c" "y mod c - 1"] y False by linarith
    then show ?thesis using False by simp
  qed
qed

lemma year_start_step: "year_start y - year_start (y - 1) = (if leap_year y then 366 else 365)"
proof -
  have 4: "y div 4 - (y - 1) div 4 = (if y mod 4 = 0 then 1 else 0)" by (rule div_pred) simp
  have 100: "y div 100 - (y - 1) div 100 = (if y mod 100 = 0 then 1 else 0)" by (rule div_pred) simp
  have 400: "y div 400 - (y - 1) div 400 = (if y mod 400 = 0 then 1 else 0)" by (rule div_pred) simp
  have "100 dvd (400::int)" "4 dvd (100::int)" by simp_all
  then have "y mod 400 = 0 \<Longrightarrow> y mod 100 = 0" "y mod 100 = 0 \<Longrightarrow> y mod 4 = 0"
    unfolding mod_eq_0_iff_dvd by (blast intro: dvd_trans)+
  note imp = this
  have "year_start y - year_start (y - 1) =
      365 + (y div 4 - (y - 1) div 4) - (y div 100 - (y - 1) div 100) + (y div 400 - (y - 1) div 400)"
    by (simp add: year_start_def)
  then show ?thesis unfolding 4 100 400 leap_year_def using imp
    by (cases "y mod 400 = 0"; cases "y mod 100 = 0"; cases "y mod 4 = 0") simp_all
qed

lemma month_days_pos: "28 \<le> month_days y m" "month_days y m \<le> 31"
  by (simp_all add: month_days_def)

lemma days_by_month:
  "days_from_civil y m d =
     year_start (if m \<le> 2 then y - 1 else y) + (153 * (if m > 2 then m - 3 else m + 9) + 2) div 5 + d - 719469"
  by (simp add: days_from_civil_def year_start_def Let_def)

lemma month_step:
  assumes "1 \<le> m" "m \<le> 12"
  shows "days_from_civil y m 1 + month_days y m = (if m = 12 then days_from_civil (y + 1) 1 1 else days_from_civil y (m + 1) 1)"
proof -
  have "m \<in> {1, 2, 3, 4, 5, 6, 7, 8, 9, 10, 11, 12}" 
  proof -
    have "[1..12] = [1, 2, 3, 4, 5, 6, 7, 8, 9, 10, 11, 12 :: int]" by code_simp
    moreover have "m \<in> set [1..12]" using assms by simp
    ultimately show ?thesis by (simp del: set_upto)
  qed
  then show ?thesis using year_start_step[of y]
    by (elim insertE) (simp_all add: days_by_month month_days_def split: if_splits)
qed

lemma month_start_step: "month_start k + month_days (k div 12) (k mod 12 + 1) = month_start (k + 1)"
proof -
  have "k mod 12 + 1 \<le> 12" "1 \<le> k mod 12 + 1" by simp_all
  note st = month_step[OF this(2,1), of "k div 12"]
  show ?thesis
  proof (cases "k mod 12 = 11")
    case True
    have "(k + 1) div 12 = k div 12 + 1 \<and> (k + 1) mod 12 = 0"
      by (rule div_mod_by) (use True mult_div_mod_eq[of 12 k] in simp_all)
    note this = conjunct1[OF this] conjunct2[OF this]
    then show ?thesis using st True by (simp add: month_start_def)
  next
    case False
    have "k mod 12 < 11" using False mod_range[of 12 k] by simp
    then have "(k + 1) div 12 = k div 12 \<and> (k + 1) mod 12 = k mod 12 + 1"
      by (intro div_mod_by) (use mult_div_mod_eq[of 12 k] in simp_all)
    note this = conjunct1[OF this] conjunct2[OF this]
    then show ?thesis using st False by (simp add: month_start_def)
  qed
qed

lemma month_start_after: "month_start k + month_days (k div 12) (k mod 12 + 1) \<le> month_start (k + 1 + int n)"
proof (induction n)
  case (Suc n)
  then show ?case using month_start_step[of "k + 1 + int n"] month_days_pos(1)[of "(k + 1 + int n) div 12" "(k + 1 + int n) mod 12 + 1"]
    by (simp add: algebra_simps)
qed (simp add: month_start_step)

lemma month_start_mono: "k < l \<Longrightarrow> month_start k + month_days (k div 12) (k mod 12 + 1) \<le> month_start l"
  using month_start_after[of k "nat (l - k - 1)"] by simp

definition month_index :: "int \<Rightarrow> int" where
  "month_index z = (case civil_from_days z of (y, m, _) \<Rightarrow> 12 * y + (m - 1))"

lemma month_index_bounds:
  "month_start (month_index z) \<le> z" "z < month_start (month_index z + 1)" "month_index z div 12 = fst (civil_from_days z)"
proof -
  obtain y m d where c: "civil_from_days z = (y, m, d)" by (metis prod_cases3)
  note sp = civil_from_days_spec[OF c]
  have i: "month_index z div 12 = y" "month_index z mod 12 + 1 = m" using c sp(2,3) by (simp_all add: month_index_def)
  have "z = month_start (month_index z) + d - 1" using sp(1) i by (simp add: month_start_def days_by_month)
  then show "month_start (month_index z) \<le> z" "z < month_start (month_index z + 1)"
    using sp(4,5) i month_start_step[of "month_index z"] by simp_all
  show "month_index z div 12 = fst (civil_from_days z)" using i c by simp
qed

lemma month_index_mono: "z \<le> z' \<Longrightarrow> month_index z \<le> month_index z'"
proof (rule ccontr)
  assume a: "z \<le> z'" "\<not> month_index z \<le> month_index z'"
  then have "month_start (month_index z' + 1) \<le> month_start (month_index z)"
    using month_start_mono[of "month_index z' + 1" "month_index z"]
      month_days_pos(1)[of "(month_index z' + 1) div 12" "(month_index z' + 1) mod 12 + 1"]
    by (cases "month_index z' + 1 = month_index z") simp_all
  then show False using month_index_bounds(1)[of z] month_index_bounds(2)[of z'] a(1) by simp
qed

lemma month_key_inj:
  assumes "in_calendar t" "in_calendar u"
  shows "month_key t = month_key u \<longleftrightarrow> month_index (day_number t) = month_index (day_number u)"
proof -
  obtain y m d y' m' d' where c: "civil_from_days (day_number t) = (y, m, d)" "civil_from_days (day_number u) = (y', m', d')"
    by (metis prod_cases3)
  note sp = civil_from_days_spec[OF c(1)] civil_from_days_spec[OF c(2)]
  have yy: "0 \<le> y" "y \<le> 9999" "0 \<le> y'" "y' \<le> 9999" using assms c by (simp_all add: in_calendar_def)
  have "month_key t = month_key u \<longleftrightarrow> y = y' \<and> m = m'"
  proof
    assume "month_key t = month_key u"
    then have "take_num 4 (pad_zero 4 (dec_str y) @ ''-'' @ pad2 m) = take_num 4 (pad_zero 4 (dec_str y') @ ''-'' @ pad2 m')"
      using c by (simp add: month_key_def)
    then have 1: "y = y'" "pad2 m = pad2 m'"
      unfolding take_pad4[OF yy(1,2)] take_pad4[OF yy(3,4)] by simp_all
    then show "y = y' \<and> m = m'" using take_pad2[of m "[]"] take_pad2[of m' "[]"] sp by simp
  qed (simp add: month_key_def c)
  moreover have "12 * y + (m - 1) = 12 * y' + (m' - 1) \<longleftrightarrow> y = y' \<and> m = m'"
  proof
    assume e: "12 * y + (m - 1) = 12 * y' + (m' - 1)"
    have "(12 * y + (m - 1)) div 12 = y \<and> (12 * y + (m - 1)) mod 12 = m - 1" by (rule div_mod_by) (use sp in simp_all)
    moreover have "(12 * y' + (m' - 1)) div 12 = y' \<and> (12 * y' + (m' - 1)) mod 12 = m' - 1" by (rule div_mod_by) (use sp in simp_all)
    ultimately show "y = y' \<and> m = m'" using e by simp
  qed simp
  ultimately show ?thesis using c by (simp add: month_index_def)
qed

lemma week_of_year:
  "days_from_civil (fst (civil_from_days z)) 1 1 \<le> z" "z < days_from_civil (fst (civil_from_days z)) 1 1 + 366"
proof -
  let ?k = "month_index z" let ?y = "fst (civil_from_days z)"
  have y: "?k div 12 = ?y" by (rule month_index_bounds)
  have jan: "month_start (12 * ?y) = days_from_civil ?y 1 1" "month_start (12 * ?y + 12) = days_from_civil (?y + 1) 1 1"
    by (simp_all add: month_start_def)
  have step: "days_from_civil (?y + 1) 1 1 \<le> days_from_civil ?y 1 1 + 366"
    using year_start_step[of ?y] by (simp add: days_by_month split: if_splits)
  have mono: "a \<le> b \<Longrightarrow> month_start a \<le> month_start b" for a b
    using month_start_mono[of a b] month_days_pos(1)[of "a div 12" "a mod 12 + 1"] by (cases "a = b") simp_all
  have "12 * ?y \<le> ?k" "?k + 1 \<le> 12 * ?y + 12"
    using y mult_div_mod_eq[of 12 ?k] mod_range[of 12 ?k] by auto
  then show "days_from_civil ?y 1 1 \<le> z" "z < days_from_civil ?y 1 1 + 366"
    using month_index_bounds(1,2)[of z] mono[of "12 * ?y" ?k] mono[of "?k + 1" "12 * ?y + 12"] jan step by linarith+
qed

lemma thursday_week: "\<exists>a. thursday d = 7 * a"
proof -
  have "thursday d = 7 * ((d + 3) div 7)" using mult_div_mod_eq[of 7 "d + 3"] unfolding thursday_def by linarith
  then show ?thesis by blast
qed

lemma same_week: "(7 * a - j) div 7 = (7 * b - j) div 7 \<Longrightarrow> a = (b::int)"
proof -
  have "(7 * c - j) div 7 = c + (- j) div 7" for c :: int
    using div_mult_self1[of 7 "- j" c] by (simp add: algebra_simps)
  then show "(7 * a - j) div 7 = (7 * b - j) div 7 \<Longrightarrow> a = b" by simp
qed

lemma iso_week_thursday:
  "iso_week d = iso_week e \<longleftrightarrow> thursday d = thursday e"
proof
  assume w: "iso_week d = iso_week e"
  let ?j = "days_from_civil (fst (civil_from_days (thursday d))) 1 1"
  have j: "?j = days_from_civil (fst (civil_from_days (thursday e))) 1 1" using w by (simp add: iso_week_def Let_def)
  have "(thursday d - ?j) div 7 = (thursday e - ?j) div 7" using w j by (simp add: iso_week_def Let_def)
  moreover obtain a b where "thursday d = 7 * a" "thursday e = 7 * b"
    using thursday_week by meson
  ultimately show "thursday d = thursday e" using same_week by metis
qed (simp add: iso_week_def)

lemma iso_week_range: "1 \<le> snd (iso_week d)" "snd (iso_week d) \<le> 53"
  using week_of_year[of "thursday d"] by (simp_all add: iso_week_def Let_def)

lemma week_key_inj:
  assumes "in_calendar t" "in_calendar u"
  shows "week_key t = week_key u \<longleftrightarrow> thursday (day_number t) = thursday (day_number u)"
proof -
  obtain y w y' w' where c: "iso_week (day_number t) = (y, w)" "iso_week (day_number u) = (y', w')" by fastforce
  have r: "1 \<le> w" "w \<le> 53" "1 \<le> w'" "w' \<le> 53" using iso_week_range[of "day_number t"] iso_week_range[of "day_number u"] c by simp_all
  have yy: "0 \<le> y" "y \<le> 9999" "0 \<le> y'" "y' \<le> 9999" using assms c by (simp_all add: in_calendar_def)
  have dec: "dec_str n = num_str 10 n" "CHR ''-'' \<notin> set (num_str 10 n)" if "0 \<le> n" for n
  proof -
    have "list_all (\<lambda>c. c \<noteq> CHR ''-'') (num_str 10 n)" using digit_char_chars that by (intro num_str_all) simp_all
    then show "dec_str n = num_str 10 n" "CHR ''-'' \<notin> set (num_str 10 n)" using that by (auto simp: dec_str_def list_all_iff)
  qed
  have tw: "takeWhile (\<lambda>c. c \<noteq> CHR ''-'') (num_str 10 n @ ''-'' @ s) = num_str 10 n" if "0 \<le> n" for n s
  proof -
    have "\<And>c. c \<in> set (num_str 10 n) \<Longrightarrow> c \<noteq> CHR ''-''" using dec(2)[OF that] by metis
    then show ?thesis by (subst takeWhile_append2) simp_all
  qed
  have "week_key t = week_key u \<longleftrightarrow> y = y' \<and> w = w'"
  proof
    assume "week_key t = week_key u"
    then have e: "num_str 10 y @ ''-'' @ pad2 w = num_str 10 y' @ ''-'' @ pad2 w'" using c dec yy by (simp add: week_key_def)
    have "num_str 10 y = num_str 10 y'"
      by (rule arg_cong[OF e, of "takeWhile (\<lambda>c. c \<noteq> CHR ''-'')", unfolded tw[OF yy(1)] tw[OF yy(3)]])
    moreover have "parse_int64 10 (num_str 10 y) = Ok y" by (rule parse_int64_num_str) (use yy in simp_all)
    moreover have "parse_int64 10 (num_str 10 y') = Ok y'" by (rule parse_int64_num_str) (use yy in simp_all)
    ultimately have y: "y = y'" by (metis sum.inject(2))
    have "pad2 w = pad2 w'" using e unfolding y same_append_eq append_Cons append_Nil list.inject by blast
    then have "w = w'" by (rule pad2_inj) (use r in simp_all)
    then show "y = y' \<and> w = w'" using y by simp
  qed (simp add: week_key_def c)
  then show ?thesis using c iso_week_thursday[of "day_number t" "day_number u"] by simp
qed

section \<open>One job per window\<close>

text \<open>The rule the loop is meant to follow: of the jobs, newest first, the first of every window.\<close>

fun newest_per :: "(int \<Rightarrow> string) \<Rightarrow> job_group list \<Rightarrow> job_group list" where
  "newest_per key [] = []"
| "newest_per key (g # gs) = g # newest_per key (filter (\<lambda>h. key (jg_time h) \<noteq> key (jg_time g)) gs)"

lemma window_jobs_newest:
  assumes "sorted_wrt (\<lambda>a b. rk (jg_time b) \<le> rk (jg_time a)) gs"
    and "\<forall>g\<in>set gs. rk (jg_time g) \<le> r \<and> (key (jg_time g) = prev \<longleftrightarrow> rk (jg_time g) = (r::int))"
    and "\<forall>g\<in>set gs. \<forall>h\<in>set gs. key (jg_time g) = key (jg_time h) \<longleftrightarrow> rk (jg_time g) = rk (jg_time h)"
  shows "window_jobs key n seen prev gs =
    map jg_job (take (nat (n - seen)) (newest_per key (filter (\<lambda>h. key (jg_time h) \<noteq> prev) gs)))"
  using assms
proof (induction gs arbitrary: seen prev r)
  case (Cons g gs)
  show ?case
  proof (cases "key (jg_time g) = prev")
    case True
    then show ?thesis using Cons.IH[of r prev seen] Cons.prems by simp
  next
    case False
    then have lt: "rk (jg_time g) < r" using Cons.prems(2) by force
    have all: "filter (\<lambda>h. key (jg_time h) \<noteq> prev) gs = gs"
    proof (rule filter_True, rule ballI)
      fix h assume h: "h \<in> set gs"
      then have "rk (jg_time h) \<le> rk (jg_time g)" using Cons.prems(1) by simp
      then show "key (jg_time h) \<noteq> prev" using lt Cons.prems(2) h by force
    qed
    have ih: "window_jobs key n (seen + 1) (key (jg_time g)) gs =
      map jg_job (take (nat (n - (seen + 1))) (newest_per key (filter (\<lambda>h. key (jg_time h) \<noteq> key (jg_time g)) gs)))"
      by (rule Cons.IH[of "rk (jg_time g)"]) (use Cons.prems in \<open>auto simp: \<close>)
    show ?thesis
    proof (cases "seen + 1 > n")
      case True
      then have "nat (n - seen) = 0" by simp
      then show ?thesis using False True by (simp add: Let_def)
    next
      case g: False
      then have "nat (n - seen) = Suc (nat (n - (seen + 1)))" by simp
      then show ?thesis using False g ih all by (simp add: Let_def)
    qed
  qed
qed simp

lemma key_nonempty: "day_key t \<noteq> []" "week_key t \<noteq> []" "month_key t \<noteq> []"
  by (simp_all add: day_key_def week_key_def month_key_def split: prod.split)

lemma day_number_mono: "t \<le> u \<Longrightarrow> day_number t \<le> day_number u"
  by (simp add: day_number_def zdiv_mono1 nanos_def)

lemma thursday_mono: "d \<le> e \<Longrightarrow> thursday d \<le> thursday e"
proof -
  assume "d \<le> e"
  then have "(d + 3) div 7 \<le> (e + 3) div 7" by (simp add: zdiv_mono1)
  then show ?thesis unfolding thursday_def using mult_div_mod_eq[of 7 "d + 3"] mult_div_mod_eq[of 7 "e + 3"] by linarith
qed

lemma windows_of_calendar:
  fixes rk :: "int \<Rightarrow> int"
  assumes "\<And>t u. t \<le> u \<Longrightarrow> rk t \<le> rk u"
    and "\<And>t u. in_calendar t \<Longrightarrow> in_calendar u \<Longrightarrow> key t = key u \<longleftrightarrow> rk t = rk u" and "\<And>t. key t \<noteq> []"
    and "list_all (\<lambda>g. in_calendar (jg_time g)) gs" "sorted_wrt (\<lambda>a b. jg_time b \<le> jg_time a) gs"
  shows "window_jobs key n 0 [] gs = map jg_job (take (nat n) (newest_per key gs))"
proof (cases gs)
  case (Cons g gs')
  have s: "sorted_wrt (\<lambda>a b. rk (jg_time b) \<le> rk (jg_time a)) gs"
    by (rule sorted_wrt_mono_rel[OF _ assms(5)]) (use assms(1) in simp)
  have r: "rk (jg_time h) \<le> rk (jg_time g) + 1" "rk (jg_time h) \<noteq> rk (jg_time g) + 1" if "h \<in> set gs" for h
    using s Cons that by force+
  have "window_jobs key n 0 [] gs = map jg_job (take (nat (n - 0)) (newest_per key (filter (\<lambda>h. key (jg_time h) \<noteq> []) gs)))"
    by (rule window_jobs_newest[OF s, of "rk (jg_time g) + 1"]) (use assms r in \<open>auto simp: list_all_iff\<close>)
  then show ?thesis using assms(3) by simp
qed simp

text \<open>C28: On job groups sorted newest first with times in the calendar the window loops keep exactly the
  newest job of each of the most recent days, ISO weeks and months that have one.\<close>

theorem retention_is_newest_per_window:
  "if list_all (\<lambda>g. in_calendar (jg_time g)) (group_by_job ss)
   then window_jobs day_key n 0 [] (group_by_job ss) = map jg_job (take (nat n) (newest_per day_key (group_by_job ss))) \<and>
     window_jobs week_key n 0 [] (group_by_job ss) = map jg_job (take (nat n) (newest_per week_key (group_by_job ss))) \<and>
     window_jobs month_key n 0 [] (group_by_job ss) = map jg_job (take (nat n) (newest_per month_key (group_by_job ss)))
   else True"
proof -
  note w = windows_of_calendar[OF _ _ _ _ group_by_job_sorted]
  have "window_jobs day_key n 0 [] (group_by_job ss) = map jg_job (take (nat n) (newest_per day_key (group_by_job ss)))"
    if "list_all (\<lambda>g. in_calendar (jg_time g)) (group_by_job ss)"
    by (rule w[of day_number]) (use that in \<open>simp_all add: day_number_mono day_key_inj key_nonempty\<close>)
  moreover have "window_jobs week_key n 0 [] (group_by_job ss) = map jg_job (take (nat n) (newest_per week_key (group_by_job ss)))"
    if "list_all (\<lambda>g. in_calendar (jg_time g)) (group_by_job ss)"
    by (rule w[of "\<lambda>t. thursday (day_number t)"]) (use that in \<open>simp_all add: day_number_mono thursday_mono week_key_inj key_nonempty\<close>)
  moreover have "window_jobs month_key n 0 [] (group_by_job ss) = map jg_job (take (nat n) (newest_per month_key (group_by_job ss)))"
    if "list_all (\<lambda>g. in_calendar (jg_time g)) (group_by_job ss)"
    by (rule w[of "\<lambda>t. month_index (day_number t)"]) (use that in \<open>simp_all add: day_number_mono month_index_mono month_key_inj key_nonempty\<close>)
  ultimately show ?thesis by simp
qed

section \<open>How much is kept\<close>

lemma window_jobs_length: "length (window_jobs key n seen prev gs) \<le> nat (n - seen)"
proof (induction gs arbitrary: seen prev)
  case (Cons g gs)
  have "seen + 1 \<le> n \<Longrightarrow> Suc (nat (n - (seen + 1))) = nat (n - seen)" by simp
  then show ?case using Cons[of "seen + 1" "key (jg_time g)"] Cons[of seen prev] by (auto simp: Let_def)
qed simp

lemma kept_jobs_length:
  "length (kept_jobs p gs) \<le> nat (rp_last p) + nat (rp_daily p) + nat (rp_weekly p) + nat (rp_monthly p)"
proof -
  have w: "length (window_jobs key n 0 [] gs) \<le> nat n" for key n using window_jobs_length[of key n 0 "[]" gs] by simp
  show ?thesis unfolding kept_jobs_def length_append add.assoc by (intro add_mono) (simp_all add: w)
qed

lemma kept_groups_length:
  "distinct (map jg_job gs) \<Longrightarrow> length (filter (\<lambda>g. jg_job g \<in> set ks) gs) \<le> length ks"
proof -
  assume d: "distinct (map jg_job gs)"
  let ?js = "map jg_job (filter (\<lambda>g. jg_job g \<in> set ks) gs)"
  have "distinct ?js" using d by (metis distinct_map_filter)
  moreover have "set ?js \<subseteq> set ks" by auto
  ultimately have "length ?js \<le> card (set ks)" by (metis card_mono distinct_card List.finite_set)
  then show ?thesis using card_length[of ks] by simp
qed

lemma newest_job_kept:
  assumes "0 < rp_last p \<or> 0 < rp_daily p \<or> 0 < rp_weekly p \<or> 0 < rp_monthly p"
  shows "jg_job g \<in> set (kept_jobs p (g # gs))"
  using assms key_nonempty by (auto simp: kept_jobs_def Let_def neq_Nil_conv gr0_conv_Suc zero_less_nat_eq take_Cons' )

text \<open>With a policy set, at most the sum of its counts of jobs are kept, and the newest job is one of
  them when any count is positive.\<close>

theorem kept_jobs_bounded:
  "if no_policy p then apply_group_retention (group_by_job ss) p = (group_by_job ss, [])
   else length (fst (apply_group_retention (group_by_job ss) p)) \<le>
          nat (rp_last p) + nat (rp_daily p) + nat (rp_weekly p) + nat (rp_monthly p) \<and>
        (case group_by_job ss of
           [] \<Rightarrow> True
         | g # gs \<Rightarrow>
             if 0 < rp_last p \<or> 0 < rp_daily p \<or> 0 < rp_weekly p \<or> 0 < rp_monthly p
             then g \<in> set (fst (apply_group_retention (group_by_job ss) p))
             else apply_group_retention (group_by_job ss) p = ([], group_by_job ss))"
proof (cases "no_policy p")
  case False
  have "length (fst (apply_group_retention (group_by_job ss) p)) \<le>
          nat (rp_last p) + nat (rp_daily p) + nat (rp_weekly p) + nat (rp_monthly p)"
    using False kept_groups_length[of "group_by_job ss" "kept_jobs p (group_by_job ss)"] kept_jobs_length[of p "group_by_job ss"]
      group_by_job_sound[of ss] by (simp add: apply_group_retention_def sound_groups_def)
  moreover have "g \<in> set (fst (apply_group_retention (g # gs) p))"
    if "0 < rp_last p \<or> 0 < rp_daily p \<or> 0 < rp_weekly p \<or> 0 < rp_monthly p" for g gs
    using False newest_job_kept[OF that, of g gs] by (simp add: apply_group_retention_def)
  moreover have "apply_group_retention gs p = ([], gs)"
    if "\<not> (0 < rp_last p \<or> 0 < rp_daily p \<or> 0 < rp_weekly p \<or> 0 < rp_monthly p)" for gs
    using False that by (simp add: apply_group_retention_def kept_jobs_def)
  ultimately show ?thesis using False by (auto split: list.split)
qed (simp add: apply_group_retention_def)

section \<open>Jobs are forgotten as a whole\<close>

definition spared :: "(string \<times> string) list \<Rightarrow> retention_policy \<Rightarrow> snapshot list \<Rightarrow> snapshot \<Rightarrow> bool" where
  "spared f p all s =
     (if matches_tags f s then no_policy p \<or> job_of s \<in> set (kept_jobs p (group_by_job (filter (matches_tags f) all))) else True)"

lemma forget_all_frame:
  "\<forall>s\<in>set ss. \<forall>t\<in>set (ro_snaps r). sn_id t = sn_id s \<longrightarrow> \<not> Q t \<Longrightarrow>
   filter Q (ro_snaps (snd (forget_all a ss n r))) = filter Q (ro_snaps r)"
proof (induction ss arbitrary: n r)
  case (Cons s ss)
  have f: "filter Q (ro_snaps (forget_snapshot (sn_id s) r)) = filter Q (ro_snaps r)"
    using Cons.prems by (auto simp: forget_snapshot_def intro: filter_cong)
  have "filter Q (ro_snaps (snd (forget_all a ss m (forget_snapshot (sn_id s) r)))) = filter Q (ro_snaps (forget_snapshot (sn_id s) r))" for m
    by (rule Cons.IH) (use Cons.prems in \<open>auto simp: forget_snapshot_def\<close>)
  then show ?case using f by (cases "ra_forget a (sn_id s)") simp_all
qed simp

lemma forget_all_done:
  "forget_all a ss n r = ((None, m), r') \<Longrightarrow>
   m = n + length ss \<and> ro_snaps r' = filter (\<lambda>t. sn_id t \<notin> sn_id ` set ss) (ro_snaps r)"
proof (induction ss arbitrary: n r)
  case (Cons s ss)
  then have "forget_all a ss (n + 1) (forget_snapshot (sn_id s) r) = ((None, m), r')"
    by (cases "ra_forget a (sn_id s)") simp_all
  from Cons.IH[OF this] show ?case by (auto simp: forget_snapshot_def intro: filter_cong)
qed simp

lemma removed_snaps:
  assumes "apply_group_retention (group_by_job (filter (matches_tags f) all)) p = (keep, remove)"
  shows "s \<in> set (concat (map jg_snaps remove)) \<longleftrightarrow> s \<in> set all \<and> \<not> spared f p all s"
proof -
  let ?gs = "group_by_job (filter (matches_tags f) all)"
  have set: "set (concat (map jg_snaps ?gs)) = {s \<in> set all. matches_tags f s}"
    using arg_cong[OF group_by_job_snaps[of "filter (matches_tags f) all"], of set_mset] by simp
  have job: "g \<in> set ?gs \<Longrightarrow> x \<in> set (jg_snaps g) \<Longrightarrow> job_of x = jg_job g" for g x
    using group_by_job_sound by (simp add: sound_groups_def)
  show ?thesis
  proof (cases "no_policy p")
    case True
    then show ?thesis using assms by (auto simp: apply_group_retention_def spared_def)
  next
    case False
    then have r: "remove = filter (\<lambda>g. jg_job g \<notin> set (kept_jobs p ?gs)) ?gs"
      using assms by (simp add: apply_group_retention_def)
    have "s \<in> set (concat (map jg_snaps remove)) \<longleftrightarrow>
        (\<exists>g\<in>set ?gs. s \<in> set (jg_snaps g) \<and> job_of s \<notin> set (kept_jobs p ?gs))"
      unfolding r using job by auto
    also have "\<dots> \<longleftrightarrow> s \<in> set (concat (map jg_snaps ?gs)) \<and> job_of s \<notin> set (kept_jobs p ?gs)" by auto
    also have "\<dots> \<longleftrightarrow> s \<in> set all \<and> \<not> spared f p all s" unfolding set using False by (auto simp: spared_def)
    finally show ?thesis .
  qed
qed

lemma forget_grouped_snaps:
  assumes d: "distinct (map sn_id (ro_snaps r))"
  shows "filter (spared f p (ro_snaps r)) (ro_snaps (snd (forget_grouped a f p prune r))) = filter (spared f p (ro_snaps r)) (ro_snaps r)"
    "ra_list a \<Longrightarrow> fo_error (fst (forget_grouped a f p prune r)) = None \<Longrightarrow>
     ro_snaps (snd (forget_grouped a f p prune r)) = filter (spared f p (ro_snaps r)) (ro_snaps r)"
proof -
  obtain keep remove where k: "apply_group_retention (group_by_job (filter (matches_tags f) (ro_snaps r))) p = (keep, remove)"
    by fastforce
  let ?ss = "concat (map jg_snaps remove)"
  have un: "t \<in> set (ro_snaps r) \<Longrightarrow> s \<in> set (ro_snaps r) \<Longrightarrow> sn_id t = sn_id s \<Longrightarrow> t = s" for s t
    using d by (simp add: distinct_map inj_on_def)
  obtain eo n r1 where fa: "forget_all a ?ss 0 r = ((eo, n), r1)" by (metis prod_cases3 surj_pair)
  have frame: "filter (spared f p (ro_snaps r)) (ro_snaps r1) = filter (spared f p (ro_snaps r)) (ro_snaps r)"
  proof -
    have "filter (spared f p (ro_snaps r)) (ro_snaps (snd (forget_all a ?ss 0 r))) = filter (spared f p (ro_snaps r)) (ro_snaps r)"
      by (rule forget_all_frame) (use un removed_snaps[OF k] in blast)
    then show ?thesis using fa by simp
  qed
  have out: "ro_snaps (snd (forget_grouped a f p prune r)) = (if ra_list a then ro_snaps r1 else ro_snaps r)"
    using k fa by (cases "ra_prune a") (simp_all add: forget_grouped_def Let_def prune_repo_def split: option.split)
  show "filter (spared f p (ro_snaps r)) (ro_snaps (snd (forget_grouped a f p prune r))) = filter (spared f p (ro_snaps r)) (ro_snaps r)"
    using out frame by simp
  assume l: "ra_list a" and e: "fo_error (fst (forget_grouped a f p prune r)) = None"
  have "eo = None" using k fa l e by (cases eo) (simp_all add: forget_grouped_def Let_def)
  then have "ro_snaps r1 = filter (\<lambda>t. sn_id t \<notin> sn_id ` set ?ss) (ro_snaps r)" using forget_all_done fa by simp
  also have "\<dots> = filter (spared f p (ro_snaps r)) (ro_snaps r)"
  proof (rule filter_cong[OF refl])
    fix t assume t: "t \<in> set (ro_snaps r)"
    show "sn_id t \<notin> sn_id ` set ?ss \<longleftrightarrow> spared f p (ro_snaps r) t"
      using removed_snaps[OF k] un t by blast
  qed
  finally show "ro_snaps (snd (forget_grouped a f p prune r)) = filter (spared f p (ro_snaps r)) (ro_snaps r)" using out l by simp
qed

text \<open>C29: Whatever the commands answer, a grouped forget removes no snapshot that lacks one of the tags or
  whose job is kept; when it succeeds it removes every snapshot of every other job.\<close>

theorem jobs_forgotten_as_units:
  "if distinct (map sn_id (ro_snaps r))
   then filter (spared f p (ro_snaps r)) (ro_snaps (snd (forget_grouped a f p prune r))) = filter (spared f p (ro_snaps r)) (ro_snaps r) \<and>
     (if fo_error (fst (forget_grouped a f p prune r)) = None
      then ro_snaps (snd (forget_grouped a f p prune r)) = filter (spared f p (ro_snaps r)) (ro_snaps r) else True)
   else True"
proof (cases "ra_list a")
  case True
  then show ?thesis using forget_grouped_snaps[where r = r and f = f and p = p and a = a and prune = prune] by simp
next
  case False
  then show ?thesis by (simp add: forget_grouped_def)
qed

end
