(* ===== verification/Retention_Escrow.thy ===== *)
theory Retention_Escrow
  imports Retention "HOL-Library.Char_ord" "HOL-Library.List_Lexorder"
begin

text \<open>
  Releasing escrows and the retention verb (\<open>src/engine/retention/escrow.go\<close>, \<open>prune.go\<close>,
  \<open>src/engine/escrow/labels.go\<close>, \<open>src/cmd/prune_backups.go\<close>).  The state of an escrow release is the
  list of the namespace's VolumeSnapshots; the list call serves the objects its label selector
  matches.  The restic program is a parameter.
\<close>

section \<open>Labels\<close>

definition label_prefix :: string where "label_prefix = ''hasteward.prplanit.com/''"
definition label_managed_by :: string where "label_managed_by = ''app.kubernetes.io/managed-by''"
definition label_escrow :: string where "label_escrow = label_prefix @ ''escrow''"
definition label_cluster :: string where "label_cluster = label_prefix @ ''cluster''"
definition label_instance :: string where "label_instance = label_prefix @ ''instance''"
definition label_run_id :: string where "label_run_id = label_prefix @ ''run-id''"
definition label_kind :: string where "label_kind = label_prefix @ ''kind''"
definition ann_captured_at :: string where "ann_captured_at = label_prefix @ ''captured-at''"

record volume_snapshot =
  vs_name :: string
  vs_labels :: "(string \<times> string) list"
  vs_annotations :: "(string \<times> string) list"
  vs_created :: int

definition escrow_labels :: "string \<Rightarrow> string \<Rightarrow> string \<Rightarrow> string \<Rightarrow> (string \<times> string) list" where
  "escrow_labels cluster inst run kind =
     [(label_managed_by, ''hasteward''), (label_escrow, ''true''), (label_cluster, cluster),
      (label_instance, inst), (label_run_id, run), (label_kind, kind)]"

definition captured_at_annotation :: "int \<Rightarrow> (string \<times> string) list" where
  "captured_at_annotation t = [(ann_captured_at, format_rfc3339 t)]"

definition cluster_selector :: "string \<Rightarrow> string" where
  "cluster_selector cluster = label_escrow @ ''=true,'' @ label_cluster @ ''='' @ cluster"

text \<open>What the API server answers to the selector: both labels are present with these values.\<close>

definition selected :: "string \<Rightarrow> volume_snapshot \<Rightarrow> bool" where
  "selected cluster o' \<longleftrightarrow>
     map_of (vs_labels o') label_escrow = Some ''true'' \<and> map_of (vs_labels o') label_cluster = Some cluster"

section \<open>Runs\<close>

definition captured_at :: "volume_snapshot \<Rightarrow> int" where
  "captured_at o' =
     (let v = map_get [] (vs_annotations o') ann_captured_at in
      if v \<noteq> [] then (case parse_rfc3339 v of Some t \<Rightarrow> t | None \<Rightarrow> vs_created o') else vs_created o')"

record escrow_group =
  eg_run :: string
  eg_kind :: string
  eg_captured :: int
  eg_snaps :: "string list"

definition run_of :: "volume_snapshot \<Rightarrow> string" where
  "run_of o' = (let r = map_get [] (vs_labels o') label_run_id in if r = [] then ''unruled-'' @ vs_name o' else r)"

definition kind_of :: "volume_snapshot \<Rightarrow> string" where
  "kind_of o' = (let k = map_get [] (vs_labels o') label_kind in if k = [] then ''unknown'' else k)"

fun add_to_run :: "volume_snapshot \<Rightarrow> escrow_group list \<Rightarrow> escrow_group list" where
  "add_to_run o' [] = [\<lparr> eg_run = run_of o', eg_kind = kind_of o', eg_captured = captured_at o', eg_snaps = [vs_name o'] \<rparr>]"
| "add_to_run o' (g # gs) =
     (if eg_run g = run_of o'
      then g\<lparr> eg_snaps := eg_snaps g @ [vs_name o'], eg_captured := max (eg_captured g) (captured_at o') \<rparr> # gs
      else g # add_to_run o' gs)"

definition group_escrows :: "volume_snapshot list \<Rightarrow> escrow_group list" where
  "group_escrows os = map (\<lambda>g. g\<lparr> eg_snaps := sort_by (<) (eg_snaps g) \<rparr>) (fold add_to_run os [])"

definition younger :: "escrow_group \<Rightarrow> escrow_group \<Rightarrow> bool" where
  "younger a b \<longleftrightarrow> eg_captured b < eg_captured a"

text \<open>The loop of \<open>selectForRelease\<close>: the snapshots held, the groups held by age only, the groups released.\<close>

fun select_loop ::
  "int \<Rightarrow> int \<Rightarrow> int \<Rightarrow> escrow_group list \<Rightarrow> nat \<times> escrow_group list \<times> escrow_group list" where
  "select_loop i keep cutoff [] = (0, [], [])"
| "select_loop i keep cutoff (g # gs) =
     (case select_loop (i + 1) keep cutoff gs of
        (n, aged, release) \<Rightarrow>
          if i < keep then (length (eg_snaps g) + n, aged, release)
          else if cutoff < eg_captured g then (length (eg_snaps g) + n, g # aged, release)
          else (n, aged, g # release))"

definition select_for_release ::
  "escrow_group list \<Rightarrow> int \<Rightarrow> int \<Rightarrow> int \<Rightarrow> nat \<times> escrow_group list \<times> escrow_group list" where
  "select_for_release gs keep min_age now = select_loop 0 keep (now - min_age) gs"

section \<open>Releasing\<close>

datatype release_answer = Deleted | DeleteLost | DeleteRefused | DeleteNotFound

record release_env =
  re_list :: bool
  re_delete :: "string \<Rightarrow> release_answer"
  re_now :: int
  re_dry_run :: bool

definition drop_snapshot :: "string \<Rightarrow> volume_snapshot list \<Rightarrow> volume_snapshot list" where
  "drop_snapshot n os = filter (\<lambda>o'. vs_name o' \<noteq> n) os"

fun release_all :: "release_env \<Rightarrow> string list \<Rightarrow> nat \<Rightarrow> volume_snapshot list \<Rightarrow> nat \<times> volume_snapshot list" where
  "release_all e [] n os = (n, os)"
| "release_all e (s # ss) n os =
     (if re_dry_run e then release_all e ss (n + 1) os
      else (case re_delete e s of
              Deleted \<Rightarrow> release_all e ss (n + 1) (drop_snapshot s os)
            | DeleteNotFound \<Rightarrow> release_all e ss (n + 1) os
            | DeleteRefused \<Rightarrow> release_all e ss n os
            | DeleteLost \<Rightarrow> release_all e ss n (drop_snapshot s os)))"

definition escrow_runs :: "string \<Rightarrow> volume_snapshot list \<Rightarrow> escrow_group list" where
  "escrow_runs cluster os = sort_by younger (group_escrows (filter (selected cluster) os))"

definition prune_escrow ::
  "release_env \<Rightarrow> string \<Rightarrow> int \<Rightarrow> int \<Rightarrow> volume_snapshot list \<Rightarrow> (nat \<times> nat) option \<times> volume_snapshot list" where
  "prune_escrow e cluster keep min_age os =
     (if \<not> re_list e then (None, os)
      else if group_escrows (filter (selected cluster) os) = [] then (Some (0, 0), os)
      else (case select_for_release (escrow_runs cluster os) keep min_age (re_now e) of
              (held, _, release) \<Rightarrow>
                (case release_all e (concat (map eg_snaps release)) 0 os of
                   (n, os') \<Rightarrow> (Some (held, n), os'))))"

text \<open>The snapshots \<open>reportUnmanaged\<close> names; it only warns.\<close>

definition unmanaged :: "string \<Rightarrow> volume_snapshot list \<Rightarrow> string list" where
  "unmanaged cluster os =
     sort_by (<) (map vs_name (filter (\<lambda>o'.
        (str_contains (vs_name o') ''escrow'' \<or> str_contains (vs_name o') ''preprune'') \<and>
        map_get [] (vs_labels o') label_escrow \<noteq> ''true'' \<and>
        (cluster = [] \<or> str_contains (vs_name o') cluster)) os))"

section \<open>The verb\<close>

record prune_options =
  po_type :: string
  po_policy :: retention_policy
  po_min_age :: int

datatype prune_check = NeedsPath | NeedsPassword | AgeNotPositive | UnknownType string

definition check_prune :: "string \<Rightarrow> string \<Rightarrow> prune_options \<Rightarrow> prune_check option" where
  "check_prune path password o' =
     (if po_type o' \<in> {''backup'', ''diverged'', ''all''} then
        (if path = [] then Some NeedsPath else if password = [] then Some NeedsPassword else None)
      else if po_type o' = ''escrow'' then (if po_min_age o' \<le> 0 then Some AgeNotPositive else None)
      else Some (UnknownType (po_type o')))"

definition keep_flag :: "string \<Rightarrow> int \<Rightarrow> string list" where
  "keep_flag flag n = (if n > 0 then [flag, dec_str n] else [])"

definition forget_args :: "(string \<times> string) list \<Rightarrow> retention_policy \<Rightarrow> bool \<Rightarrow> string list" where
  "forget_args tags p prune =
     [''forget'', ''--json''] @ keep_flag ''--keep-last'' (rp_last p) @ keep_flag ''--keep-daily'' (rp_daily p) @
     keep_flag ''--keep-weekly'' (rp_weekly p) @ keep_flag ''--keep-monthly'' (rp_monthly p) @ tag_filter tags @
     (if prune then [''--prune''] else [])"

text \<open>The forget command of restic: its effect on the repository, and the counts it prints or None.\<close>

record verb_env =
  qe_release :: release_env
  qe_forget :: "string list \<Rightarrow> repo \<Rightarrow> (nat \<times> nat) list option \<times> repo"
  qe_restic :: restic_answers
  qe_engine :: string
  qe_cluster :: string
  qe_namespace :: string

record prune_world =
  wo_repo :: repo
  wo_escrows :: "volume_snapshot list"

datatype verb_error = EscrowListFailed | BackupForgetFailed | DivergedForgetFailed forget_error

definition base_tags :: "verb_env \<Rightarrow> (string \<times> string) list" where
  "base_tags e = [(''engine'', qe_engine e), (''cluster'', qe_cluster e), (''namespace'', qe_namespace e)]"

definition prune_backup_set :: "verb_env \<Rightarrow> prune_options \<Rightarrow> repo \<Rightarrow> (nat \<times> nat) option \<times> repo" where
  "prune_backup_set e o' r =
     (if po_type o' = ''backup'' \<or> po_type o' = ''all'' then
        (case qe_forget e (forget_args (map_set ''type'' ''backup'' (base_tags e)) (po_policy o') (po_type o' = ''backup'')) r of
           (None, r1) \<Rightarrow> (None, r1)
         | (Some rs, r1) \<Rightarrow> (Some (sum_list (map fst rs), sum_list (map snd rs)), r1))
      else (Some (0, 0), r))"

definition run_prune :: "verb_env \<Rightarrow> prune_options \<Rightarrow> prune_world \<Rightarrow> (verb_error, nat \<times> nat) result \<times> prune_world" where
  "run_prune e o' w =
     (if po_type o' = ''escrow'' then
        (case prune_escrow (qe_release e) (qe_cluster e) (rp_last (po_policy o')) (po_min_age o') (wo_escrows w) of
           (None, os) \<Rightarrow> (Err EscrowListFailed, w\<lparr> wo_escrows := os \<rparr>)
         | (Some c, os) \<Rightarrow> (Ok c, w\<lparr> wo_escrows := os \<rparr>))
      else if re_dry_run (qe_release e) then (Ok (0, 0), w)
      else (case prune_backup_set e o' (wo_repo w) of
              (None, r1) \<Rightarrow> (Err BackupForgetFailed, w\<lparr> wo_repo := r1 \<rparr>)
            | (Some (kept, removed), r1) \<Rightarrow>
                if po_type o' = ''diverged'' \<or> po_type o' = ''all'' then
                  (case forget_grouped (qe_restic e) (map_set ''type'' ''diverged'' (base_tags e)) (po_policy o') True r1 of
                     (fo, r2) \<Rightarrow>
                       (case fo_error fo of
                          Some err \<Rightarrow> (Err (DivergedForgetFailed err), w\<lparr> wo_repo := r2 \<rparr>)
                        | None \<Rightarrow> (Ok (kept + fo_kept fo, removed + fo_removed fo), w\<lparr> wo_repo := r2 \<rparr>)))
                else (Ok (kept, removed), w\<lparr> wo_repo := r1 \<rparr>)))"

section \<open>A run holds its snapshots\<close>

definition run_groups :: "volume_snapshot set \<Rightarrow> escrow_group list \<Rightarrow> bool" where
  "run_groups V gs \<longleftrightarrow> (\<forall>o'\<in>V. run_of o' \<in> eg_run ` set gs) \<and>
     (\<forall>g\<in>set gs. (\<forall>n. n \<in> set (eg_snaps g) \<longleftrightarrow> (\<exists>o'\<in>V. vs_name o' = n \<and> run_of o' = eg_run g)) \<and>
        (\<forall>o'\<in>V. run_of o' = eg_run g \<longrightarrow> captured_at o' \<le> eg_captured g))"

lemma add_to_run_runs: "eg_run ` set (add_to_run x gs) = insert (run_of x) (eg_run ` set gs)"
  by (induction gs) auto

lemma add_to_run_groups:
  assumes "run_groups V gs" "distinct (map eg_run gs)"
  shows "run_groups (insert x V) (add_to_run x gs)" "distinct (map eg_run (add_to_run x gs))"
proof -
  show "distinct (map eg_run (add_to_run x gs))"
    using assms(2)
  proof (induction gs)
    case (Cons g gs)
    then show ?case using add_to_run_runs[of x gs] by auto
  qed simp
  have mem: "g \<in> set (add_to_run x gs) \<Longrightarrow>
      (eg_run g = run_of x \<and> (\<exists>h\<in>set gs. eg_run h = run_of x \<and> eg_snaps g = eg_snaps h @ [vs_name x] \<and> eg_captured g = max (eg_captured h) (captured_at x))) \<or>
      (run_of x \<notin> eg_run ` set gs \<and> eg_run g = run_of x \<and> eg_snaps g = [vs_name x] \<and> eg_captured g = captured_at x) \<or>
      g \<in> set gs \<and> eg_run g \<noteq> run_of x" for g
    using assms(2) by (induction gs) (force split: if_splits)+
  show "run_groups (insert x V) (add_to_run x gs)"
    unfolding run_groups_def
  proof (intro conjI ballI)
    fix o' assume "o' \<in> insert x V"
    then show "run_of o' \<in> eg_run ` set (add_to_run x gs)" using assms(1) by (auto simp: add_to_run_runs run_groups_def)
  next
    fix g assume "g \<in> set (add_to_run x gs)"
    from mem[OF this] consider
        (old) h where "h \<in> set gs" "eg_run g = run_of x" "eg_run h = run_of x" "eg_snaps g = eg_snaps h @ [vs_name x]"
          "eg_captured g = max (eg_captured h) (captured_at x)"
      | (new) "run_of x \<notin> eg_run ` set gs" "eg_run g = run_of x" "eg_snaps g = [vs_name x]" "eg_captured g = captured_at x"
      | (other) "g \<in> set gs" "eg_run g \<noteq> run_of x" by blast
    then show "\<forall>n. n \<in> set (eg_snaps g) \<longleftrightarrow> (\<exists>o'\<in>insert x V. vs_name o' = n \<and> run_of o' = eg_run g)"
    proof cases
      case old
      then have "n \<in> set (eg_snaps h) \<longleftrightarrow> (\<exists>o'\<in>V. vs_name o' = n \<and> run_of o' = run_of x)" for n
        using assms(1) by (simp add: run_groups_def)
      then show ?thesis using old by auto
    next
      case new
      have "\<forall>o'\<in>V. run_of o' \<noteq> run_of x" using assms(1) new(1) unfolding run_groups_def by metis
      then show ?thesis using new by auto
    next
      case other
      then show ?thesis using assms(1) by (auto simp: run_groups_def)
    qed
    from mem[OF \<open>g \<in> set (add_to_run x gs)\<close>] consider
        (old) h where "h \<in> set gs" "eg_run g = run_of x" "eg_run h = run_of x" "eg_captured g = max (eg_captured h) (captured_at x)"
      | (new) "run_of x \<notin> eg_run ` set gs" "eg_run g = run_of x" "eg_captured g = captured_at x"
      | (other) "g \<in> set gs" "eg_run g \<noteq> run_of x" by blast
    then show "run_of o' = eg_run g \<longrightarrow> captured_at o' \<le> eg_captured g" if "o' \<in> insert x V" for o'
    proof cases
      case old
      then have "\<forall>o'\<in>V. run_of o' = run_of x \<longrightarrow> captured_at o' \<le> eg_captured h" using assms(1) by (simp add: run_groups_def)
      then show ?thesis using old that by auto
    next
      case new
      have "\<forall>o'\<in>V. run_of o' \<noteq> run_of x" using assms(1) new(1) unfolding run_groups_def by metis
      then show ?thesis using new that by auto
    next
      case other
      then show ?thesis using assms(1) that by (auto simp: run_groups_def)
    qed
  qed
qed

lemma fold_add_to_run:
  "run_groups V gs \<Longrightarrow> distinct (map eg_run gs) \<Longrightarrow>
   run_groups (V \<union> set os) (fold add_to_run os gs) \<and> distinct (map eg_run (fold add_to_run os gs))"
proof (induction os arbitrary: V gs)
  case (Cons x os)
  have "insert x V \<union> set os = V \<union> set (x # os)" by auto
  then show ?case using Cons.IH[OF add_to_run_groups[OF Cons.prems, of x]] by (simp only: fold_Cons comp_apply)
qed simp

lemma escrow_runs_groups: "run_groups {o' \<in> set os. selected c o'} (escrow_runs c os)"
proof -
  have "run_groups {} []" by (simp add: run_groups_def)
  from fold_add_to_run[OF this, of "filter (selected c) os"]
  have "run_groups {o' \<in> set os. selected c o'} (fold add_to_run (filter (selected c) os) [])" by simp
  then show ?thesis by (simp add: run_groups_def escrow_runs_def group_escrows_def image_image)
qed

section \<open>What may be released\<close>

lemma select_loop_release:
  "g \<in> set (snd (snd (select_loop i keep cutoff gs))) \<Longrightarrow>
   \<exists>pre post. gs = pre @ g # post \<and> keep \<le> i + int (length pre) \<and> eg_captured g \<le> cutoff"
proof (induction i keep cutoff gs rule: select_loop.induct)
  case (2 i keep cutoff h gs)
  obtain n aged release where s: "select_loop (i + 1) keep cutoff gs = (n, aged, release)" by (metis prod_cases3)
  show ?case
  proof (cases "g \<in> set release")
    case True
    then obtain pre post where p: "gs = pre @ g # post" "keep \<le> i + 1 + int (length pre)" "eg_captured g \<le> cutoff"
      using 2(1) s by auto
    show ?thesis by (rule exI[of _ "h # pre"]) (use p in auto)
  next
    case False
    then have "g = h" "\<not> i < keep" "\<not> cutoff < eg_captured h" using 2(2) s by (auto split: if_splits)
    then show ?thesis by (intro exI[of _ "[]"] exI[of _ gs]) auto
  qed
qed simp

lemma release_all_keeps:
  "set (snd (release_all e ss n os)) \<subseteq> set os"
  "o' \<in> set os \<Longrightarrow> o' \<notin> set (snd (release_all e ss n os)) \<Longrightarrow> \<not> re_dry_run e \<and> vs_name o' \<in> set ss"
proof (induction ss arbitrary: n os)
  case (Cons s ss)
  {
    case 1
    have "set (snd (release_all e ss m (drop_snapshot s os))) \<subseteq> set os" for m
      using Cons.IH(1)[of m "drop_snapshot s os"] by (auto simp: drop_snapshot_def)
    then show ?case using Cons.IH(1) by (auto split: release_answer.split)
  next
    case 2
    have ih: "o' \<in> set (drop_snapshot s os) \<Longrightarrow> o' \<notin> set (snd (release_all e ss m (drop_snapshot s os))) \<Longrightarrow> ?case" for m
      using Cons.IH(2)[of "drop_snapshot s os" m] by auto
    have ih2: "o' \<notin> set (snd (release_all e ss m os)) \<Longrightarrow> ?case" for m
      using Cons.IH(2)[of os m] 2(1) by auto
    show ?case
    proof (cases "re_dry_run e")
      case True
      then show ?thesis using 2(2) ih2 by simp
    next
      case False
      show ?thesis
      proof (cases "vs_name o' = s")
        case True
        then show ?thesis using False by simp
      next
        case ne: False
        then have "o' \<in> set (drop_snapshot s os)" using 2(1) by (simp add: drop_snapshot_def)
        then show ?thesis using False 2(2) ih ih2 by (cases "re_delete e s") simp_all
      qed
    qed
  }
qed simp_all

lemma released_runs:
  assumes "o' \<in> set os" "o' \<notin> set (snd (prune_escrow e c keep age os))" "distinct (map vs_name os)"
  shows "re_list e" "\<not> re_dry_run e" "selected c o'" "captured_at o' \<le> re_now e - age"
    "\<exists>newer g rest. escrow_runs c os = newer @ g # rest \<and> eg_run g = run_of o' \<and> keep \<le> int (length newer) \<and>
       eg_captured g \<le> re_now e - age"
proof -
  show l: "re_list e" using assms by (simp add: prune_escrow_def split: if_splits)
  obtain n aged release where s: "select_for_release (escrow_runs c os) keep age (re_now e) = (n, aged, release)" by (metis prod_cases3)
  have ne: "group_escrows (filter (selected c) os) \<noteq> []" using assms l by (auto simp: prune_escrow_def)
  obtain m os' where r: "release_all e (concat (map eg_snaps release)) 0 os = (m, os')" by fastforce
  have out: "snd (prune_escrow e c keep age os) = os'" using l ne s r by (simp add: prune_escrow_def)
  have k: "\<not> re_dry_run e \<and> vs_name o' \<in> set (concat (map eg_snaps release))"
    using release_all_keeps(2)[of o' os e "concat (map eg_snaps release)" 0] assms out r by simp
  then show "\<not> re_dry_run e" by simp
  obtain g where g: "g \<in> set release" "vs_name o' \<in> set (eg_snaps g)" using k by auto
  have "g \<in> set (snd (snd (select_loop 0 keep (re_now e - age) (escrow_runs c os))))"
    using s g(1) by (simp add: select_for_release_def)
  from select_loop_release[OF this] obtain pre post where
    p: "escrow_runs c os = pre @ g # post" "keep \<le> int (length pre)" "eg_captured g \<le> re_now e - age" by auto
  then have gm: "g \<in> set (escrow_runs c os)" by simp
  note rg = escrow_runs_groups[of os c, unfolded run_groups_def]
  obtain o2 where o2: "o2 \<in> set os" "selected c o2" "vs_name o2 = vs_name o'" "run_of o2 = eg_run g"
    using rg gm g(2) by auto
  have "o2 = o'" using assms(1,3) o2 by (auto simp: distinct_map inj_on_def)
  then show "selected c o'" using o2 by simp
  then show "captured_at o' \<le> re_now e - age" using rg gm o2 p(3) assms(1) \<open>o2 = o'\<close> by force
  show "\<exists>newer g rest. escrow_runs c os = newer @ g # rest \<and> eg_run g = run_of o' \<and> keep \<le> int (length newer) \<and>
       eg_captured g \<le> re_now e - age"
    using p o2 \<open>o2 = o'\<close> by auto
qed

text \<open>C30: A release deletes a snapshot only outside a preview, only when it carries this cluster's escrow
  labels, never before it reached the minimum age, and only when at least the kept number of runs
  are listed before its own.\<close>

theorem released_escrow_is_spent:
  "if distinct (map vs_name os) \<and> o' \<in> set os \<and> o' \<notin> set (snd (prune_escrow e c keep age os))
   then \<not> re_dry_run e \<and> selected c o' \<and> captured_at o' \<le> re_now e - age \<and>
     (\<exists>newer g rest. escrow_runs c os = newer @ g # rest \<and> eg_run g = run_of o' \<and> keep \<le> int (length newer) \<and>
        eg_captured g \<le> re_now e - age)
   else True"
proof -
  note r = released_runs[where o' = o' and os = os and e = e and c = c and keep = keep and age = age]
  show ?thesis using r(2-5) by auto
qed

text \<open>An escrow stamped at its capture is read with that time, truncated to the second, so no release
  before the minimum age has passed since then can take it, whatever the count says.\<close>

lemma stamp_read_back:
  assumes "in_calendar t" "vs_annotations o' = captured_at_annotation t"
  shows "captured_at o' = t - t mod nanos"
proof -
  have "parse_rfc3339 (format_rfc3339 t) = Some (t - t mod nanos)"
    by (rule rfc3339_roundtrip) (use assms(1) in \<open>simp_all add: in_calendar_def day_number_def\<close>)
  moreover from this have "format_rfc3339 t \<noteq> []" by (auto simp: parse_rfc3339_def take_num_def)
  ultimately show ?thesis using assms(2) by (simp add: captured_at_def captured_at_annotation_def map_get_def Let_def)
qed

theorem fresh_escrow_survives:
  "if in_calendar t \<and> vs_annotations o' = captured_at_annotation t \<and> distinct (map vs_name os) \<and> o' \<in> set os \<and>
      re_now e - age < t - t mod nanos
   then captured_at o' = t - t mod nanos \<and> o' \<in> set (snd (prune_escrow e c keep age os))
   else True"
proof -
  have "o' \<in> set (snd (prune_escrow e c keep age os))"
    if h: "in_calendar t" "vs_annotations o' = captured_at_annotation t" "distinct (map vs_name os)" "o' \<in> set os"
      "re_now e - age < t - t mod nanos"
  proof (rule ccontr)
    assume "o' \<notin> set (snd (prune_escrow e c keep age os))"
    from released_runs(4)[OF h(4) this h(3)] show False using stamp_read_back[OF h(1,2)] h(5) by simp
  qed
  then show ?thesis using stamp_read_back by simp
qed

text \<open>Escrows are no part of the other retention types, the repository is no part of theirs, and a
  preview changes neither.\<close>

lemma release_dry: "re_dry_run e \<Longrightarrow> snd (release_all e ss n os) = os"
  by (induction ss arbitrary: n) simp_all

theorem escrows_are_opt_in:
  "(if po_type o' = ''escrow'' then wo_repo (snd (run_prune e o' w)) = wo_repo w
    else wo_escrows (snd (run_prune e o' w)) = wo_escrows w) \<and>
   (if re_dry_run (qe_release e) then snd (run_prune e o' w) = w else True)"
proof (cases "po_type o' = ''escrow''")
  case True
  have d: "snd (prune_escrow (qe_release e) c k a os) = os" if "re_dry_run (qe_release e)" for c k a os
    using release_dry[OF that] by (simp add: prune_escrow_def split_beta)
  obtain x os where p: "prune_escrow (qe_release e) (qe_cluster e) (rp_last (po_policy o')) (po_min_age o') (wo_escrows w) = (x, os)"
    by fastforce
  have "snd (run_prune e o' w) = w\<lparr> wo_escrows := os \<rparr>" using True p by (cases x) (simp_all add: run_prune_def)
  moreover have "os = wo_escrows w" if "re_dry_run (qe_release e)" using d[OF that] p by (metis snd_conv)
  ultimately show ?thesis using True by simp
next
  case False
  then show ?thesis by (simp add: run_prune_def split: prod.split option.split)
qed

text \<open>With type \<open>all\<close> the backup set is forgotten without pruning, and the repository is pruned only when a
  diverged snapshot went: otherwise the data of the forgotten backups stays.\<close>

lemma all_leaves_garbage:
  assumes "po_type o' = ''all''" "\<not> re_dry_run (qe_release e)"
    and "prune_backup_set e o' (wo_repo w) = (Some n, r1)" "ro_garbage r1"
    and "forget_grouped (qe_restic e) (map_set ''type'' ''diverged'' (base_tags e)) (po_policy o') True r1 = (fo, r2)"
    and "fo_removed fo = 0" "fo_error fo = None" "ra_list (qe_restic e)"
  shows "ro_garbage (wo_repo (snd (run_prune e o' w)))"
proof -
  have mono: "ro_garbage r \<Longrightarrow> ro_garbage (snd (forget_all a ss m r))" for a ss m r
  proof (induction ss arbitrary: m r)
    case (Cons s ss)
    then show ?case by (cases "ra_forget a (sn_id s)") (simp_all add: forget_snapshot_def)
  qed simp
  obtain keep remove where k: "apply_group_retention (group_by_job (filter (matches_tags (map_set ''type'' ''diverged'' (base_tags e))) (ro_snaps r1))) (po_policy o') = (keep, remove)"
    by fastforce
  obtain eo n' r' where fa: "forget_all (qe_restic e) (concat (map jg_snaps remove)) 0 r1 = ((eo, n'), r')" by (metis prod_cases3 surj_pair)
  have "(fo, r2) = (case eo of
      Some err \<Rightarrow> (\<lparr> fo_error = Some err, fo_kept = sum_list (map (\<lambda>g. length (jg_snaps g)) keep), fo_removed = n' \<rparr>, r')
    | None \<Rightarrow> if n' > 0 then (fo, r2)
        else (\<lparr> fo_error = None, fo_kept = sum_list (map (\<lambda>g. length (jg_snaps g)) keep), fo_removed = n' \<rparr>, r'))"
    unfolding assms(5)[symmetric] unfolding forget_grouped_def k using fa assms(8) by (simp split: option.split)
  moreover have "n' = 0" if "eo = None"
  proof (rule ccontr)
    assume "n' \<noteq> 0"
    then have "fo_removed fo = n'" using assms(5,8) k fa that
      unfolding forget_grouped_def k by (cases "ra_prune (qe_restic e)") auto
    then show False using \<open>n' \<noteq> 0\<close> assms(6) by simp
  qed
  ultimately have "r2 = r'" by (cases eo) (simp_all add: prod_eq_iff)
  then have "ro_garbage r2" using mono[OF assms(4), of "qe_restic e" "concat (map jg_snaps remove)" 0] fa by simp
  then show ?thesis using assms(1,2,3,5,7) by (cases n) (simp add: run_prune_def)
qed

end
