(* ===== verification/Dump_Flow.thy ===== *)
theory Dump_Flow
  imports Retention Cnpg_Job Escrow
begin

text \<open>
  Logical dumps (\<open>src/engine/backup/\<close>, \<open>src/engine/restore/\<close>, \<open>src/restic/backup.go\<close>, \<open>restore.go\<close>,
  \<open>src/cmd/export.go\<close>): a dump is streamed out of a pod into a snapshot, and a snapshot's file is
  streamed into a pod.  The state is the repository, the cluster resource of the CNPG operator, and
  what was streamed into each pod's server.  The dump programs and restic are parameters: the bytes
  that come out before the stream ends, whether restic saved what it read, and what a restic dump
  writes for its arguments.  Restic saves a snapshot when its input ends, also when the input ended early.
\<close>

section \<open>The repository\<close>

record stored = snapshot +
  st_files :: "(string \<times> string) list"

record dump_world =
  dw_repo :: "stored list"
  dw_cluster :: cnpg_cluster
  dw_streamed :: "(string \<times> string) list"
  dw_files :: "(string \<times> string) list"

definition stored_matches :: "(string \<times> string) list \<Rightarrow> stored \<Rightarrow> bool" where
  "stored_matches f s \<longleftrightarrow> matches_tags f (snapshot.truncate s)"

definition tag_args :: "(string \<times> string) list \<Rightarrow> string list" where
  "tag_args tags = concat (map (\<lambda>(k, v). [''--tag'', k @ ''='' @ v]) tags)"

definition stored_tags :: "(string \<times> string) list \<Rightarrow> string list" where
  "stored_tags tags = map (\<lambda>(k, v). k @ ''='' @ v) tags"

section \<open>Backup\<close>

record dump_stream =
  ds_bytes :: string
  ds_failed :: bool

record restic_save =
  rs_init :: bool
  rs_saved :: bool
  rs_exit :: bool
  rs_summary :: bool
  rs_id :: string
  rs_short :: string
  rs_time :: int

datatype backup_error =
    DonorNotFound | DonorNotReady | NoHealthyPod | InitFailed | ResticFailed | NoSummary | DumpExecFailed
  | NoObjectStore | CreateFailed | NativeFailed | NativeTimedOut

definition backup_stdin ::
  "dump_stream \<Rightarrow> restic_save \<Rightarrow> string \<Rightarrow> (string \<times> string) list \<Rightarrow> stored list \<Rightarrow> (backup_error, string) result \<times> stored list" where
  "backup_stdin d r file tags repo =
     (let repo' = (if rs_saved r
                   then repo @ [\<lparr> sn_id = rs_id r, sn_short = rs_short r, sn_time = rs_time r, sn_tags = stored_tags tags,
                                  st_files = [(file, ds_bytes d)] \<rparr>]
                   else repo)
      in (if ds_failed d \<or> \<not> rs_exit r then Err ResticFailed
          else if \<not> rs_summary r then Err NoSummary
          else Ok (rs_id r), repo'))"

record dump_conf =
  dc_engine :: string
  dc_cluster :: string
  dc_namespace :: string
  dc_dry_run :: bool
  dc_native :: bool
  dc_force :: bool
  dc_snapshot :: string
  dc_instance :: "int option"
  dc_escrow :: escrow_conf

record backup_env =
  be_donor_found :: bool
  be_donor_ready :: bool
  be_healthy :: "string option"
  be_stream :: "string \<Rightarrow> dump_stream"
  be_restic :: restic_save
  be_exec_failed :: bool

definition dump_tags :: "dump_conf \<Rightarrow> string \<Rightarrow> (string \<times> string) list \<Rightarrow> (string \<times> string) list" where
  "dump_tags c typ extra =
     fold (\<lambda>(k, v) m. map_set k v m) extra
       [(''engine'', dc_engine c), (''cluster'', dc_cluster c), (''namespace'', dc_namespace c), (''type'', typ)]"

definition dump_file :: "string \<Rightarrow> string" where
  "dump_file engine = (if engine = ''cnpg'' then ''pgdumpall.sql'' else ''mysqldump.sql'')"

text \<open>The paths the backups write and the one a restore or an export reads.\<close>

definition backup_path :: "dump_conf \<Rightarrow> string" where
  "backup_path c = dc_namespace c @ ''/'' @ dc_cluster c @ ''/'' @ dump_file (dc_engine c)"

definition diverged_path :: "dump_conf \<Rightarrow> int \<Rightarrow> string" where
  "diverged_path c n = dc_namespace c @ ''/'' @ dc_cluster c @ ''/'' @ dec_str n @ ''-'' @ dump_file (dc_engine c)"

definition restore_path :: "dump_conf \<Rightarrow> string" where
  "restore_path c =
     (let file = dump_file (dc_engine c);
          file' = (case dc_instance c of None \<Rightarrow> file | Some n \<Rightarrow> dec_str n @ ''-'' @ file)
      in dc_namespace c @ ''/'' @ dc_cluster c @ ''/'' @ file')"

text \<open>\<open>BackupDump\<close> of both engines: the donor must exist and be ready, for Galera it must be running; the
  program's own failure is looked at after restic's answer.\<close>

definition backup_dump ::
  "dump_conf \<Rightarrow> backup_env \<Rightarrow> string \<Rightarrow> string \<Rightarrow> string \<Rightarrow> (string \<times> string) list \<Rightarrow> stored list \<Rightarrow>
     (backup_error, string) result \<times> stored list" where
  "backup_dump c e typ donor file extra repo =
     (if \<not> be_donor_found e then (Err DonorNotFound, repo)
      else if \<not> be_donor_ready e then (Err DonorNotReady, repo)
      else if dc_dry_run c then (Ok [], repo)
      else if \<not> rs_init (be_restic e) then (Err InitFailed, repo)
      else (case backup_stdin (be_stream e donor) (be_restic e) file (dump_tags c typ extra) repo of
              (Inl err, repo') \<Rightarrow> (Err err, repo')
            | (Inr i, repo') \<Rightarrow> if be_exec_failed e then (Err DumpExecFailed, repo') else (Ok i, repo')))"

definition galera_backup_dump ::
  "dump_conf \<Rightarrow> backup_env \<Rightarrow> string \<Rightarrow> string \<Rightarrow> string \<Rightarrow> (string \<times> string) list \<Rightarrow> stored list \<Rightarrow>
     (backup_error, string) result \<times> stored list" where
  "galera_backup_dump c e typ donor file extra repo =
     (if donor = [] then
        (case be_healthy e of None \<Rightarrow> (Err NoHealthyPod, repo) | Some p \<Rightarrow> backup_dump c e typ p file extra repo)
      else backup_dump c e typ donor file extra repo)"

subsection \<open>Native backups\<close>

record plugin_entry =
  pl_name :: string
  pl_enabled :: "bool option"

definition barman_plugin :: "plugin_entry list \<Rightarrow> string" where
  "barman_plugin ps =
     (case find_first (\<lambda>p. pl_name p = ''barman-cloud.cloudnative-pg.io'' \<and> pl_enabled p \<noteq> Some False) ps of
        None \<Rightarrow> [] | Some _ \<Rightarrow> ''barman-cloud.cloudnative-pg.io'')"

record native_env =
  ne_plugins :: "plugin_entry list"
  ne_legacy :: bool
  ne_create :: bool
  ne_phase :: "nat \<Rightarrow> string option"

text \<open>At most 120 polls of the Backup resource's phase.\<close>

fun await_native :: "native_env \<Rightarrow> nat \<Rightarrow> nat \<Rightarrow> backup_error option" where
  "await_native e i 0 = Some NativeTimedOut"
| "await_native e i (Suc k) =
     (case ne_phase e i of
        None \<Rightarrow> await_native e (i + 1) k
      | Some ph \<Rightarrow> if ph = ''completed'' then None else if ph = ''failed'' then Some NativeFailed else await_native e (i + 1) k)"

definition native_method :: "native_env \<Rightarrow> string option" where
  "native_method e =
     (if barman_plugin (ne_plugins e) \<noteq> [] then Some ''plugin'' else if ne_legacy e then Some ''barmanObjectStore'' else None)"

definition backup_native :: "dump_conf \<Rightarrow> native_env \<Rightarrow> backup_error option" where
  "backup_native c e =
     (case native_method e of
        None \<Rightarrow> Some NoObjectStore
      | Some _ \<Rightarrow> if dc_dry_run c then None else if \<not> ne_create e then Some CreateFailed else await_native e 0 120)"

definition cnpg_backup ::
  "dump_conf \<Rightarrow> backup_env \<Rightarrow> native_env \<Rightarrow> string \<Rightarrow> stored list \<Rightarrow> backup_error option \<times> stored list" where
  "cnpg_backup c e n primary repo =
     (if dc_native c then (backup_native c n, repo)
      else (case backup_dump c e ''backup'' primary (backup_path c) [] repo of
              (Inl err, repo') \<Rightarrow> (Some err, repo') | (Inr _, repo') \<Rightarrow> (None, repo')))"

section \<open>Dumping a snapshot\<close>

text \<open>What \<open>restic dump\<close> writes, and whether it fails, for its arguments on a repository: a parameter.\<close>

type_synonym restic_reader = "string list \<Rightarrow> stored list \<Rightarrow> dump_stream"

definition dump_to :: "restic_reader \<Rightarrow> string \<Rightarrow> string \<Rightarrow> (string \<times> string) list \<Rightarrow> stored list \<Rightarrow> dump_stream" where
  "dump_to x i path tags repo = x (''dump'' # tag_filter tags @ [i, path]) repo"

text \<open>What restic documents of it: the identity names the snapshots that begin with it, or as \<open>latest\<close> a newest one of
  those with all the tags of the comma-separated option; a dump that ends without an error wrote the file of a
  snapshot so named.  Which one of several is not documented, and neither is when a dump fails.\<close>

fun option_matches :: "string list \<Rightarrow> stored \<Rightarrow> bool" where
  "option_matches [opt, ts] s = list_all (\<lambda>t. t \<in> set (sn_tags s)) (split_char (CHR '','') ts)"
| "option_matches _ s = True"

definition named_by :: "string list \<Rightarrow> string \<Rightarrow> stored list \<Rightarrow> stored \<Rightarrow> bool" where
  "named_by opts i repo s \<longleftrightarrow> s \<in> set repo \<and>
     (if i = ''latest'' then option_matches opts s \<and> list_all (\<lambda>t. if option_matches opts t then sn_time t \<le> sn_time s else True) repo
      else has_prefix (sn_id s) i)"

definition reads_as_documented :: "restic_reader \<Rightarrow> bool" where
  "reads_as_documented x \<longleftrightarrow>
     (\<forall>opts i path repo.
        ds_failed (x (''dump'' # opts @ [i, path]) repo) \<or>
        (\<exists>s. named_by opts i repo s \<and> map_of (st_files s) path = Some (ds_bytes (x (''dump'' # opts @ [i, path]) repo))))"

definition snapshot_choice :: "dump_conf \<Rightarrow> string" where
  "snapshot_choice c = (if dc_snapshot c = [] then ''latest'' else dc_snapshot c)"

definition filter_tags :: "dump_conf \<Rightarrow> (string \<times> string) list" where
  "filter_tags c = [(''engine'', dc_engine c), (''cluster'', dc_cluster c), (''namespace'', dc_namespace c)]"

section \<open>Restore\<close>

datatype restore_error =
    NativeRestore | PrimaryNotFound | PrimaryNotReady | GuardTriage string | LeaderElsewhere string | ClusterDiverged
  | RewindNeedsForce | RestoreClaims string | RestoreEscrow escrow_error | FenceFailed | StreamFailed | DumpFailed

definition restore_regression :: "triage_result \<Rightarrow> bool \<Rightarrow> restore_error option" where
  "restore_regression t force =
     (case dc_authority (tr_comparison t) of
        AuthorityLeaderNotPrimary \<Rightarrow> Some (LeaderElsewhere (dc_most_advanced (tr_comparison t)))
      | AuthorityDiverged \<Rightarrow> if force then None else Some ClusterDiverged
      | _ \<Rightarrow> if force then None else Some RewindNeedsForce)"

definition restore_names :: "string list \<Rightarrow> string \<Rightarrow> string list" where
  "restore_names names except = filter (\<lambda>n. n \<noteq> except) names"

record restore_env =
  ve_primary :: string
  ve_instances :: "string list"
  ve_found :: bool
  ve_ready :: bool
  ve_triage :: "(string, triage_result) result"
  ve_naming :: "string \<Rightarrow> string"
  ve_pod_of :: "string \<Rightarrow> pod_read"
  ve_escrow :: escrow_env
  ve_captured :: "stored list"
  ve_fence :: outcome
  ve_unfence :: outcome
  ve_restic :: restic_reader
  ve_stream_ok :: bool

definition fence_replicas :: "string list \<Rightarrow> cnpg_cluster \<Rightarrow> cnpg_cluster" where
  "fence_replicas rs s = s\<lparr> cc_fenced := Some (json_array rs) \<rparr>"

definition unfence_all :: "outcome \<Rightarrow> cnpg_cluster \<Rightarrow> cnpg_cluster" where
  "unfence_all o' s = snd (call o' (\<lambda>s. s\<lparr> cc_fenced := Some ''[]'' \<rparr>) s)"

definition delete_pods :: "string list \<Rightarrow> cnpg_cluster \<Rightarrow> cnpg_cluster" where
  "delete_pods ps s = s\<lparr> cc_pods := filter (\<lambda>p. p \<notin> set ps) (cc_pods s) \<rparr>"

text \<open>From the first byte on.  What the stream delivers reaches the server whether or not it ends well.\<close>

definition restore_stream :: "dump_conf \<Rightarrow> restore_env \<Rightarrow> dump_world \<Rightarrow> restore_error option \<times> dump_world" where
  "restore_stream c e w =
     (let d = dump_to (ve_restic e) (snapshot_choice c) (restore_path c) (filter_tags c) (dw_repo w);
          replicas = restore_names (ve_instances e) (ve_primary e);
          w1 = w\<lparr> dw_streamed := dw_streamed w @ [(ve_primary e, ds_bytes d)] \<rparr>
      in if \<not> ve_stream_ok e then (Some StreamFailed, w1\<lparr> dw_cluster := unfence_all (ve_unfence e) (dw_cluster w1) \<rparr>)
         else if ds_failed d then (Some DumpFailed, w1\<lparr> dw_cluster := unfence_all (ve_unfence e) (dw_cluster w1) \<rparr>)
         else if replicas \<noteq> []
           then (None, w1\<lparr> dw_cluster := delete_pods replicas (unfence_all (ve_unfence e) (dw_cluster w1)) \<rparr>)
         else (None, w1))"

definition restore_dump :: "dump_conf \<Rightarrow> restore_env \<Rightarrow> dump_world \<Rightarrow> restore_error option \<times> dump_world" where
  "restore_dump c e w =
     (if \<not> ve_found e then (Some PrimaryNotFound, w)
      else if \<not> ve_ready e then (Some PrimaryNotReady, w)
      else (case ve_triage e of
              Inl err \<Rightarrow> (Some (GuardTriage err), w)
            | Inr t \<Rightarrow>
                (case restore_regression t (dc_force c) of
                   Some err \<Rightarrow> (Some err, w)
                 | None \<Rightarrow>
                     if dc_dry_run c then (None, w)
                     else (case discover_pvcs (ve_naming e) (ve_pod_of e) (ve_instances e) [] of
                             Inl err \<Rightarrow> (Some (RestoreClaims err), w)
                           | Inr pvcs \<Rightarrow>
                               (case gate (ve_escrow e) (dc_escrow c) pvcs (used_bytes_by_pvc (tr_assessments t) (ve_instances e)) of
                                  Inl err \<Rightarrow> (Some (RestoreEscrow err), w\<lparr> dw_repo := dw_repo w @ ve_captured e \<rparr>)
                                | Inr _ \<Rightarrow>
                                    let w1 = w\<lparr> dw_repo := dw_repo w @ ve_captured e \<rparr>;
                                        replicas = restore_names (ve_instances e) (ve_primary e)
                                    in if replicas = [] then restore_stream c e w1
                                       else (case call (ve_fence e) (fence_replicas replicas) (dw_cluster w1) of
                                               (False, s) \<Rightarrow> (Some FenceFailed, w1\<lparr> dw_cluster := s \<rparr>)
                                             | (True, s) \<Rightarrow> restore_stream c e (w1\<lparr> dw_cluster := s \<rparr>)))))))"

definition cnpg_restore :: "dump_conf \<Rightarrow> restore_env \<Rightarrow> dump_world \<Rightarrow> restore_error option \<times> dump_world" where
  "cnpg_restore c e w = (if dc_native c then (Some NativeRestore, w) else restore_dump c e w)"

text \<open>The Galera restore: the first ready pod, and no guard.\<close>

record galera_restore_env =
  ge_ready :: "string option"
  ge_restic :: restic_reader
  ge_stream_ok :: bool

definition galera_restore :: "dump_conf \<Rightarrow> galera_restore_env \<Rightarrow> dump_world \<Rightarrow> restore_error option \<times> dump_world" where
  "galera_restore c e w =
     (case ge_ready e of
        None \<Rightarrow> (Some PrimaryNotFound, w)
      | Some p \<Rightarrow>
          if dc_dry_run c then (None, w)
          else (let d = dump_to (ge_restic e) (snapshot_choice c) (restore_path c) (filter_tags c) (dw_repo w);
                    w1 = w\<lparr> dw_streamed := dw_streamed w @ [(p, ds_bytes d)] \<rparr>
                in if \<not> ge_stream_ok e then (Some StreamFailed, w1)
                   else if ds_failed d then (Some DumpFailed, w1) else (None, w1)))"

section \<open>Export\<close>

datatype export_error = ExportMissing string | UnknownEngine string | CreateFileFailed | ExportFailed

definition export_check :: "string \<Rightarrow> string \<Rightarrow> string \<Rightarrow> dump_conf \<Rightarrow> export_error option" where
  "export_check path password file c =
     (if path = [] then Some (ExportMissing ''--backups-path'')
      else if password = [] then Some (ExportMissing ''RESTIC_PASSWORD env var'')
      else if file = [] then Some (ExportMissing ''--file/-o'')
      else if dc_engine c = [] then Some (ExportMissing ''--engine/-e'')
      else if dc_cluster c = [] then Some (ExportMissing ''--cluster/-c'')
      else if dc_namespace c = [] then Some (ExportMissing ''--namespace/-n'')
      else if dc_engine c = ''cnpg'' \<or> dc_engine c = ''galera'' then None
      else Some (UnknownEngine (dc_engine c)))"

text \<open>The file is created, and truncated, before restic is asked; a failure removes it.  The compression
  is a parameter.\<close>

definition export_dump ::
  "(string \<Rightarrow> string) \<Rightarrow> bool \<Rightarrow> restic_reader \<Rightarrow> string \<Rightarrow> dump_conf \<Rightarrow> dump_world \<Rightarrow> export_error option \<times> dump_world" where
  "export_dump gz creatable x file c w =
     (if dc_dry_run c then (None, w)
      else if \<not> creatable then (Some CreateFileFailed, w)
      else (let d = dump_to x (snapshot_choice c) (restore_path c) (filter_tags c) (dw_repo w)
            in if ds_failed d then (Some ExportFailed, w\<lparr> dw_files := filter (\<lambda>(n, _). n \<noteq> file) (dw_files w) \<rparr>)
               else (None, w\<lparr> dw_files := map_set file (gz (ds_bytes d)) (dw_files w) \<rparr>)))"

section \<open>A backup can be read back\<close>

lemma dump_named:
  assumes "reads_as_documented x" "\<not> ds_failed (dump_to x i path tags repo)"
  obtains s where "named_by (tag_filter tags) i repo s" "map_of (st_files s) path = Some (ds_bytes (dump_to x i path tags repo))"
  using assms unfolding reads_as_documented_def dump_to_def by metis

text \<open>Names that go through the tag option unharmed: it has no way to quote a comma.\<close>

definition plain_names :: "dump_conf \<Rightarrow> bool" where
  "plain_names c \<longleftrightarrow> CHR '','' \<notin> set (dc_engine c @ dc_cluster c @ dc_namespace c)"

lemma option_is_filter: "option_matches (tag_filter (filter_tags c)) s \<longleftrightarrow> stored_matches (filter_tags c) s" if "plain_names c"
proof -
  let ?ts = "map (\<lambda>(k, v). k @ ''='' @ v) (filter_tags c)"
  have "split_char (CHR '','') (join_with [CHR '',''] ?ts) = ?ts"
    using that by (intro split_join_char) (auto simp: filter_tags_def plain_names_def)
  moreover have "tag_filter (filter_tags c) = [''--tag'', join_with [CHR '',''] ?ts]" by (simp add: tag_filter_def filter_tags_def)
  ultimately show ?thesis
    by (simp add: stored_matches_def matches_tags_def snapshot.truncate_def list_all_iff case_prod_beta)
qed

lemma own_tags_match:
  assumes "sn_tags s = stored_tags (dump_tags c typ extra)" "fst ` set extra \<inter> {''engine'', ''cluster'', ''namespace''} = {}"
  shows "stored_matches (filter_tags c) s"
proof -
  have keep: "map_of (fold (\<lambda>(k, v) m. map_set k v m) ex m) k = map_of m k" if "k \<notin> fst ` set ex" for ex m and k :: string
    using that by (induction ex arbitrary: m) (auto simp: map_of_map_set)
  have "map_of (dump_tags c typ extra) k = Some v" if "(k, v) \<in> set (filter_tags c)" for k v
    using that assms(2) keep[of k extra] unfolding dump_tags_def filter_tags_def by auto
  then have "k @ ''='' @ v \<in> set (sn_tags s)" if "(k, v) \<in> set (filter_tags c)" for k v
    using that map_of_SomeD unfolding assms(1) stored_tags_def by fastforce
  then show ?thesis by (auto simp: stored_matches_def matches_tags_def snapshot.truncate_def list_all_iff)
qed

text \<open>What the latest snapshot, or one identity, stands for when one snapshot is the only one it can be.\<close>

lemma latest_is:
  assumes "plain_names c" "named_by (tag_filter (filter_tags c)) ''latest'' repo t" "s \<in> set repo" "stored_matches (filter_tags c) s"
    "\<And>u. u \<in> set repo \<Longrightarrow> u \<noteq> s \<Longrightarrow> stored_matches (filter_tags c) u \<Longrightarrow> sn_time u < sn_time s"
  shows "t = s"
  using assms(2-5) by (force simp: named_by_def option_is_filter[OF assms(1)] list_all_iff)

lemma identity_is:
  assumes "i \<noteq> ''latest''" "named_by opts i repo t" "\<And>u. u \<in> set repo \<Longrightarrow> u \<noteq> s \<Longrightarrow> \<not> has_prefix (sn_id u) i"
  shows "t = s"
  using assms by (auto simp: named_by_def)

definition saved_path :: "dump_conf \<Rightarrow> int option \<Rightarrow> string" where
  "saved_path c n = (case n of None \<Rightarrow> backup_path c | Some k \<Rightarrow> diverged_path c k)"

definition same_database :: "dump_conf \<Rightarrow> dump_conf \<Rightarrow> bool" where
  "same_database c c' \<longleftrightarrow> dc_engine c' = dc_engine c \<and> dc_cluster c' = dc_cluster c \<and> dc_namespace c' = dc_namespace c"

lemma same_paths:
  "same_database c c' \<Longrightarrow> restore_path c' = saved_path c (dc_instance c')"
  "same_database c c' \<Longrightarrow> filter_tags c' = filter_tags c"
  by (simp_all add: same_database_def restore_path_def saved_path_def backup_path_def diverged_path_def filter_tags_def Let_def
      split: option.split)

definition saved_snapshot :: "dump_conf \<Rightarrow> backup_env \<Rightarrow> string \<Rightarrow> string \<Rightarrow> string \<Rightarrow> (string \<times> string) list \<Rightarrow> stored" where
  "saved_snapshot c e typ donor file extra =
     \<lparr> sn_id = rs_id (be_restic e), sn_short = rs_short (be_restic e), sn_time = rs_time (be_restic e),
        sn_tags = stored_tags (dump_tags c typ extra), st_files = [(file, ds_bytes (be_stream e donor))] \<rparr>"

lemma backup_saves:
  assumes "be_donor_found e" "be_donor_ready e" "\<not> dc_dry_run c" "rs_init (be_restic e)" "rs_saved (be_restic e)"
  shows "snd (backup_dump c e typ donor file extra repo) = repo @ [saved_snapshot c e typ donor file extra]"
  using assms by (simp add: backup_dump_def backup_stdin_def Let_def saved_snapshot_def)

lemma backup_ok:
  assumes "backup_dump c e typ donor file extra repo = (Ok i, repo')" "\<not> dc_dry_run c" "rs_saved (be_restic e)"
  shows "repo' = repo @ [saved_snapshot c e typ donor file extra]" "i = rs_id (be_restic e)"
  using assms by (auto simp: backup_dump_def backup_stdin_def Let_def saved_snapshot_def split: if_splits)

text \<open>Whom a restore asks for: the latest snapshot, the others of the database being older, or the backup's own
  identity, which no other snapshot begins with.\<close>

definition asks_for :: "dump_conf \<Rightarrow> restic_save \<Rightarrow> stored list \<Rightarrow> bool" where
  "asks_for c r others \<longleftrightarrow>
     (if snapshot_choice c = ''latest''
      then list_all (\<lambda>t. if stored_matches (filter_tags c) t then sn_time t < rs_time r else True) others
      else snapshot_choice c = rs_id r \<and> list_all (\<lambda>t. \<not> has_prefix (sn_id t) (rs_id r)) others)"

lemma dump_reads_saved:
  assumes "reads_as_documented x" "plain_names c" "same_database c c'" "dc_instance c' = n"
    "fst ` set extra \<inter> {''engine'', ''cluster'', ''namespace''} = {}" "asks_for c' (be_restic e) (repo @ rest)" and s_def: "s = saved_snapshot c e typ donor (saved_path c n) extra"
    and "\<not> ds_failed (dump_to x (snapshot_choice c') (restore_path c') (filter_tags c') (repo @ [s] @ rest))"
  shows "ds_bytes (dump_to x (snapshot_choice c') (restore_path c') (filter_tags c') (repo @ [s] @ rest)) = ds_bytes (be_stream e donor)"
proof -
  let ?all = "repo @ [s] @ rest"
  obtain t where t: "named_by (tag_filter (filter_tags c')) (snapshot_choice c') ?all t"
    "map_of (st_files t) (restore_path c') = Some (ds_bytes (dump_to x (snapshot_choice c') (restore_path c') (filter_tags c') ?all))"
    by (rule dump_named[OF assms(1,8)])
  note sp = same_paths[OF assms(3)]
  have "t = s"
  proof (cases "snapshot_choice c' = ''latest''")
    case True
    have m: "stored_matches (filter_tags c) s" by (rule own_tags_match[OF _ assms(5)]) (simp add: s_def saved_snapshot_def)
    have o: "sn_time u < sn_time s" if "u \<in> set ?all" "u \<noteq> s" "stored_matches (filter_tags c) u" for u
      using that assms(6) True sp(2) by (auto simp: asks_for_def list_all_iff s_def saved_snapshot_def)
    have n: "named_by (tag_filter (filter_tags c)) ''latest'' ?all t" using t(1) True sp(2) by simp
    show ?thesis by (rule latest_is[OF assms(2) n _ m o]) simp
  next
    case False
    then show ?thesis using identity_is[OF False t(1)] assms(6) by (force simp: asks_for_def list_all_iff)
  qed
  then show ?thesis using t(2) sp(1) assms(4) by (simp add: s_def saved_snapshot_def)
qed

lemma stream_ok:
  assumes "restore_stream c v w = (None, w')"
  shows "\<not> ds_failed (dump_to (ve_restic v) (snapshot_choice c) (restore_path c) (filter_tags c) (dw_repo w))"
    "dw_streamed w' = dw_streamed w @ [(ve_primary v, ds_bytes (dump_to (ve_restic v) (snapshot_choice c) (restore_path c) (filter_tags c) (dw_repo w)))]"
  using assms by (auto simp: restore_stream_def Let_def split: if_splits)

lemma restore_ok:
  assumes "cnpg_restore c v w = (None, w')" "\<not> dc_dry_run c"
  shows "\<exists>w1. dw_repo w1 = dw_repo w @ ve_captured v \<and> dw_streamed w1 = dw_streamed w \<and> restore_stream c v w1 = (None, w')"
proof -
  let ?w1 = "w\<lparr> dw_repo := dw_repo w @ ve_captured v \<rparr>"
  let ?rs = "restore_names (ve_instances v) (ve_primary v)"
  have "restore_stream c v ?w1 = (None, w') \<or> restore_stream c v (?w1\<lparr> dw_cluster := fence_replicas ?rs (dw_cluster w) \<rparr>) = (None, w')"
    using assms by (cases "ve_fence v") (auto simp: cnpg_restore_def restore_dump_def Let_def split: if_splits sum.splits option.splits)
  then show ?thesis
  proof
    assume "restore_stream c v ?w1 = (None, w')"
    then show ?thesis by (intro exI[of _ ?w1]) simp
  next
    assume "restore_stream c v (?w1\<lparr> dw_cluster := fence_replicas ?rs (dw_cluster w) \<rparr>) = (None, w')"
    then show ?thesis by (intro exI[of _ "?w1\<lparr> dw_cluster := fence_replicas ?rs (dw_cluster w) \<rparr>"]) simp
  qed
qed

text \<open>C31: A dump of a database whose names have no comma succeeded and restic saved it, under the path of a backup or
  of a diverged instance, with extra tags other than the three of the filter.  When restic's dump does what is
  documented of it, a later restore of the same database and instance, into either engine, or an export, that
  asks for this snapshot and succeeds delivered exactly the bytes of the dump; as \<open>latest\<close>, every other snapshot of
  the database has to be older, those of the restore's own escrow included, and by identity no other may begin with it.\<close>

theorem backup_restore_roundtrip:
  assumes "backup_dump c e typ donor (saved_path c n) extra repo = (Ok i, repo')" "\<not> dc_dry_run c" "rs_saved (be_restic e)"
    "plain_names c" "fst ` set extra \<inter> {''engine'', ''cluster'', ''namespace''} = {}"
    and "same_database c c'" "dc_instance c' = n" "\<not> dc_dry_run c'" "dw_repo w = repo'"
      "asks_for c' (be_restic e) (repo @ ve_captured v)"
    and "reads_as_documented (ve_restic v)" "reads_as_documented (ge_restic g)" "reads_as_documented x"
  shows "(case cnpg_restore c' v w of
            (None, w') \<Rightarrow> dw_streamed w' = dw_streamed w @ [(ve_primary v, ds_bytes (be_stream e donor))]
          | _ \<Rightarrow> True) \<and>
     (case galera_restore c' g w of
        (None, w') \<Rightarrow> (\<exists>p. ge_ready g = Some p \<and> dw_streamed w' = dw_streamed w @ [(p, ds_bytes (be_stream e donor))])
      | _ \<Rightarrow> True) \<and>
     (case export_dump gz creatable x file c' w of
        (None, w') \<Rightarrow> map_of (dw_files w') file = Some (gz (ds_bytes (be_stream e donor)))
      | _ \<Rightarrow> True)"
proof (intro conjI)
  let ?s = "saved_snapshot c e typ donor (saved_path c n) extra"
  have r: "dw_repo w = repo @ [?s]" using backup_ok(1)[OF assms(1-3)] assms(9) by simp
  have a: "asks_for c' (be_restic e) (repo @ [])" using assms(10) by (auto simp: asks_for_def list_all_iff split: if_splits)
  note rd = dump_reads_saved[OF _ assms(4,6,7,5) _ refl]
  note later = rd[OF _ assms(10)]
  have now: "ds_bytes (dump_to y (snapshot_choice c') (restore_path c') (filter_tags c') (dw_repo w)) = ds_bytes (be_stream e donor)"
    if "reads_as_documented y" "\<not> ds_failed (dump_to y (snapshot_choice c') (restore_path c') (filter_tags c') (dw_repo w))" for y
    using rd[OF that(1) a, of "typ" donor] that(2) r by simp
  show "case cnpg_restore c' v w of
          (None, w') \<Rightarrow> dw_streamed w' = dw_streamed w @ [(ve_primary v, ds_bytes (be_stream e donor))] | _ \<Rightarrow> True"
  proof (cases "cnpg_restore c' v w")
    case (Pair err w')
    have "dw_streamed w' = dw_streamed w @ [(ve_primary v, ds_bytes (be_stream e donor))]" if none: "err = None"
    proof -
      obtain w1 where w1: "dw_repo w1 = dw_repo w @ ve_captured v" "dw_streamed w1 = dw_streamed w" "restore_stream c' v w1 = (None, w')"
        using restore_ok[of c' v w w'] assms(8) Pair none by blast
      have "dw_repo w1 = repo @ [?s] @ ve_captured v" using w1(1) r by simp
      then show ?thesis using stream_ok[OF w1(3)] later[OF assms(11)] w1(2) by simp
    qed
    then show ?thesis using Pair by (simp split: option.split)
  qed
  show "case galera_restore c' g w of
        (None, w') \<Rightarrow> (\<exists>p. ge_ready g = Some p \<and> dw_streamed w' = dw_streamed w @ [(p, ds_bytes (be_stream e donor))])
      | _ \<Rightarrow> True"
    using now[OF assms(12)] assms(8) by (simp add: galera_restore_def Let_def split: option.split)
  show "case export_dump gz creatable x file c' w of
        (None, w') \<Rightarrow> map_of (dw_files w') file = Some (gz (ds_bytes (be_stream e donor))) | _ \<Rightarrow> True"
    using now[OF assms(13)] assms(8) by (simp add: export_dump_def Let_def map_of_map_set)
qed

text \<open>A restic that reads the first snapshot its arguments name, and a MariaDB database with one older backup.\<close>

definition demo_reader :: restic_reader where
  "demo_reader args repo =
     (let opts = butlast (butlast (tl args)); i = last (butlast args); path = last args in
      case find_first (\<lambda>s. named_by opts i repo s \<and> map_of (st_files s) path \<noteq> None) repo of
        None \<Rightarrow> \<lparr> ds_bytes = [], ds_failed = True \<rparr>
      | Some s \<Rightarrow> \<lparr> ds_bytes = the (map_of (st_files s) path), ds_failed = False \<rparr>)"

lemma demo_reader_documented: "reads_as_documented demo_reader"
proof -
  have "ds_failed (demo_reader (''dump'' # opts @ [i, path]) repo) \<or>
      (\<exists>s. named_by opts i repo s \<and> map_of (st_files s) path = Some (ds_bytes (demo_reader (''dump'' # opts @ [i, path]) repo)))"
    for opts i path repo
  proof -
    let ?P = "\<lambda>s. named_by opts i repo s \<and> map_of (st_files s) path \<noteq> None"
    let ?d = "demo_reader (''dump'' # opts @ [i, path]) repo"
    have a: "butlast (butlast (opts @ [i, path])) = opts" "last (butlast (''dump'' # opts @ [i, path])) = i"
      "last (''dump'' # opts @ [i, path]) = path"
      by (simp_all add: butlast_append)
    have d: "?d = (case find_first ?P repo of None \<Rightarrow> \<lparr> ds_bytes = [], ds_failed = True \<rparr>
        | Some s \<Rightarrow> \<lparr> ds_bytes = the (map_of (st_files s) path), ds_failed = False \<rparr>)"
      unfolding demo_reader_def Let_def list.sel a by (rule refl)
    show ?thesis
    proof (cases "find_first ?P repo")
      case None
      have "ds_failed ?d" unfolding d None by simp
      then show ?thesis ..
    next
      case (Some s)
      then have "?P s" using find_first_Some[of ?P repo s] by simp
      moreover have "ds_bytes ?d = the (map_of (st_files s) path)" unfolding d Some by simp
      ultimately show ?thesis by auto
    qed
  qed
  then show ?thesis by (simp add: reads_as_documented_def)
qed

definition demo_dump_conf :: dump_conf where
  "demo_dump_conf = \<lparr> dc_engine = ''cnpg'', dc_cluster = ''pg'', dc_namespace = ''db'', dc_dry_run = False, dc_native = False,
     dc_force = True, dc_snapshot = [], dc_instance = None,
     dc_escrow = \<lparr> ec_namespace = ''db'', ec_cluster = ''pg'', ec_backups_path = ''/b'', ec_restic_password = ''pw'',
       ec_snapshot_class = [], ec_no_escrow = True \<rparr> \<rparr>"

definition demo_backup_env :: backup_env where
  "demo_backup_env = \<lparr> be_donor_found = True, be_donor_ready = True, be_healthy = None,
     be_stream = (\<lambda>_. \<lparr> ds_bytes = ''CREATE'', ds_failed = False \<rparr>),
     be_restic = \<lparr> rs_init = True, rs_saved = True, rs_exit = True, rs_summary = True, rs_id = ''b2'', rs_short = ''b2'', rs_time = 9 \<rparr>,
     be_exec_failed = False \<rparr>"

definition demo_old :: stored where
  "demo_old = \<lparr> sn_id = ''a1'', sn_short = ''a1'', sn_time = 4, sn_tags = stored_tags (dump_tags demo_dump_conf ''backup'' []),
     st_files = [(backup_path demo_dump_conf, ''OLD'')] \<rparr>"

definition demo_escrow_env :: escrow_env where
  "demo_escrow_env = \<lparr> xe_pods = Ok [], xe_pvc_class = (\<lambda>_. Ok None), xe_provisioner = (\<lambda>_. Err []), xe_classes = Ok [],
     xe_count = Ok 0, xe_statfs = Ok (1, 1), xe_create = (\<lambda>_. Ok ()), xe_snapshot = (\<lambda>_ _. Ok ([], True)), xe_init = Ok (),
     xe_helper = (\<lambda>_. Ok ()), xe_phase = (\<lambda>_ _. Ok HelperRunning), xe_backup = (\<lambda>_. Ok ''e1''), xe_tar = (\<lambda>_. Ok ()),
     xe_dump = (\<lambda>_ _. ([], None)), xe_now = 9, xe_run = ''r'' \<rparr>"

definition demo_restore_env :: restore_env where
  "demo_restore_env = \<lparr> ve_primary = ''pg-1'', ve_instances = [''pg-1'', ''pg-2''], ve_found = True, ve_ready = True,
     ve_triage = Ok zero_triage, ve_naming = id, ve_pod_of = (\<lambda>_. PodGone), ve_escrow = demo_escrow_env, ve_captured = [],
     ve_fence = Applied, ve_unfence = Applied, ve_restic = demo_reader, ve_stream_ok = True \<rparr>"

definition demo_galera_restore :: galera_restore_env where
  "demo_galera_restore = \<lparr> ge_ready = Some ''pg-1'', ge_restic = demo_reader, ge_stream_ok = True \<rparr>"

definition demo_dump_world :: dump_world where
  "demo_dump_world = \<lparr> dw_repo = snd (backup_dump demo_dump_conf demo_backup_env ''backup'' ''pg-1'' (backup_path demo_dump_conf) [] [demo_old]),
     dw_cluster = \<lparr> cc_fenced = None, cc_reconcile_off = False, cc_pods = [''pg-1'', ''pg-2''], cc_helpers = [], cc_data = [] \<rparr>, dw_streamed = [], dw_files = [] \<rparr>"

lemma backup_restore_roundtrip_witness:
  "fst (cnpg_restore demo_dump_conf demo_restore_env demo_dump_world) = None \<and>
   dw_streamed (snd (cnpg_restore demo_dump_conf demo_restore_env demo_dump_world)) = [(''pg-1'', ''CREATE'')]"
proof -
  let ?b = "backup_dump demo_dump_conf demo_backup_env ''backup'' ''pg-1'' (saved_path demo_dump_conf None) [] [demo_old]"
  have b: "?b = (Ok ''b2'', dw_repo demo_dump_world)" "\<not> dc_dry_run demo_dump_conf" "rs_saved (be_restic demo_backup_env)"
      "plain_names demo_dump_conf" "dc_instance demo_dump_conf = None"
    by code_simp+
  have s: "same_database demo_dump_conf demo_dump_conf" by (simp add: same_database_def)
  have a: "asks_for demo_dump_conf (be_restic demo_backup_env) ([demo_old] @ ve_captured demo_restore_env)" by code_simp
  have x: "reads_as_documented (ve_restic demo_restore_env)" "reads_as_documented (ge_restic demo_galera_restore)"
    by (simp_all add: demo_restore_env_def demo_galera_restore_def demo_reader_documented)
  have n: "fst (cnpg_restore demo_dump_conf demo_restore_env demo_dump_world) = None" by code_simp
  have e: "ve_primary demo_restore_env = ''pg-1''" "ds_bytes (be_stream demo_backup_env ''pg-1'') = ''CREATE''" "dw_streamed demo_dump_world = []"
    by code_simp+
  show ?thesis
    using backup_restore_roundtrip[OF b(1-4) _ s b(5) b(2) refl a x demo_reader_documented] n e
    by (cases "cnpg_restore demo_dump_conf demo_restore_env demo_dump_world") simp
qed

text \<open>When the dump program breaks off, restic has seen an ordinary end of its input: the truncated
  snapshot stays, tagged like a good one, and a later dump of the latest snapshot that succeeds delivers the stump,
  although the backup answered an error.\<close>

theorem failed_dump_becomes_latest:
  "if be_donor_found e \<and> be_donor_ready e \<and> \<not> dc_dry_run c \<and> rs_init (be_restic e) \<and> rs_saved (be_restic e) \<and>
      ds_failed (be_stream e donor) \<and> dc_instance c = None \<and> plain_names c \<and> reads_as_documented x \<and>
      dc_snapshot c = [] \<and> asks_for c (be_restic e) repo \<and>
      \<not> ds_failed (dump_to x ''latest'' (restore_path c) (filter_tags c) (snd (backup_dump c e typ donor (backup_path c) [] repo)))
   then fst (backup_dump c e typ donor (backup_path c) [] repo) = Err ResticFailed \<and>
     ds_bytes (dump_to x ''latest'' (restore_path c) (filter_tags c) (snd (backup_dump c e typ donor (backup_path c) [] repo))) =
       ds_bytes (be_stream e donor)
   else True"
  using dump_reads_saved[of x c c None "[]" e repo "[]" _ "typ" donor] backup_saves[of e c "typ" donor "backup_path c" "[]" repo]
  by (auto simp: saved_path_def same_database_def snapshot_choice_def backup_dump_def backup_stdin_def Let_def)

section \<open>What a restore may do\<close>

lemma restore_regression_none:
  assumes "restore_regression t force = None"
  shows "dc_authority (tr_comparison t) \<noteq> AuthorityLeaderNotPrimary" "force"
proof -
  show "dc_authority (tr_comparison t) \<noteq> AuthorityLeaderNotPrimary"
  proof
    assume "dc_authority (tr_comparison t) = AuthorityLeaderNotPrimary"
    then show False using assms by (simp add: restore_regression_def)
  qed
  then show force using assms
    by (cases "dc_authority (tr_comparison t)") (simp_all add: restore_regression_def split: if_splits)
qed

lemma stream_writes:
  "\<exists>b. dw_streamed (snd (restore_stream c e w)) = dw_streamed w @ [(ve_primary e, b)]"
  by (simp add: restore_stream_def Let_def)

text \<open>C32: In a CNPG restore bytes reach a server only on the primary, found and ready, on a forced run that is not a
  preview, with triage done and no authority away from the primary, after the escrow gate passed for the claims of
  every instance, and with every replica fenced.  The Galera restore has none of these guards: its bytes reach a ready
  node outside a preview.\<close>

theorem restore_is_guarded:
  "(if dw_streamed (snd (galera_restore c g w)) \<noteq> dw_streamed w
    then \<not> dc_dry_run c \<and> (\<exists>p b. ge_ready g = Some p \<and> dw_streamed (snd (galera_restore c g w)) = dw_streamed w @ [(p, b)])
    else True) \<and>
   (if dw_streamed (snd (cnpg_restore c e w)) \<noteq> dw_streamed w
   then dc_force c \<and> \<not> dc_dry_run c \<and> ve_found e \<and> ve_ready e \<and>
     (\<exists>b. dw_streamed (snd (cnpg_restore c e w)) = dw_streamed w @ [(ve_primary e, b)]) \<and>
     (\<exists>t pvcs refs. ve_triage e = Ok t \<and> dc_authority (tr_comparison t) \<noteq> AuthorityLeaderNotPrimary \<and>
        discover_pvcs (ve_naming e) (ve_pod_of e) (ve_instances e) [] = Ok pvcs \<and>
        gate (ve_escrow e) (dc_escrow c) pvcs (used_bytes_by_pvc (tr_assessments t) (ve_instances e)) = Ok refs) \<and>
     (if restore_names (ve_instances e) (ve_primary e) = [] then True else ve_fence e = Applied)
   else True)"
proof (rule conjI, goal_cases)
  case 1
  show ?case by (simp add: galera_restore_def Let_def split: option.split)
next
  case 2
  show ?case
  proof (cases "dw_streamed (snd (cnpg_restore c e w)) = dw_streamed w")
    case False
    have n: "\<not> dc_native c" using False by (auto simp: cnpg_restore_def)
    then have ch: "dw_streamed (snd (restore_dump c e w)) \<noteq> dw_streamed w" using False by (simp add: cnpg_restore_def)
    have fr: "ve_found e" "ve_ready e" using ch by (auto simp: restore_dump_def split: if_splits)
    obtain t where t: "ve_triage e = Ok t" using ch fr by (cases "ve_triage e") (simp_all add: restore_dump_def)
    have rr: "restore_regression t (dc_force c) = None" using ch fr t by (cases "restore_regression t (dc_force c)") (simp_all add: restore_dump_def)
    then have f: "dc_authority (tr_comparison t) \<noteq> AuthorityLeaderNotPrimary" "dc_force c"
      by (rule restore_regression_none)+
    have dry: "\<not> dc_dry_run c" using ch fr t rr by (auto simp: restore_dump_def)
    obtain pvcs where p: "discover_pvcs (ve_naming e) (ve_pod_of e) (ve_instances e) [] = Ok pvcs"
      using ch fr t rr dry by (cases "discover_pvcs (ve_naming e) (ve_pod_of e) (ve_instances e) []") (simp_all add: restore_dump_def)
    obtain refs where g: "gate (ve_escrow e) (dc_escrow c) pvcs (used_bytes_by_pvc (tr_assessments t) (ve_instances e)) = Ok refs"
      using ch fr t rr dry p
      by (cases "gate (ve_escrow e) (dc_escrow c) pvcs (used_bytes_by_pvc (tr_assessments t) (ve_instances e))") (simp_all add: restore_dump_def)

    have r: "restore_dump c e w =
        (let w1 = w\<lparr> dw_repo := dw_repo w @ ve_captured e \<rparr>; replicas = restore_names (ve_instances e) (ve_primary e)
         in if replicas = [] then restore_stream c e w1
            else (case call (ve_fence e) (fence_replicas replicas) (dw_cluster w1) of
                    (False, s) \<Rightarrow> (Some FenceFailed, w1\<lparr> dw_cluster := s \<rparr>)
                  | (True, s) \<Rightarrow> restore_stream c e (w1\<lparr> dw_cluster := s \<rparr>)))"
      using fr t rr dry p g by (simp add: restore_dump_def)
    have fence: "restore_names (ve_instances e) (ve_primary e) = [] \<or> ve_fence e = Applied"
      using ch r by (cases "ve_fence e"; cases "restore_names (ve_instances e) (ve_primary e) = []") (simp_all add: Let_def)
    have s: "\<exists>w1. dw_streamed w1 = dw_streamed w \<and> restore_dump c e w = restore_stream c e w1"
    proof (cases "restore_names (ve_instances e) (ve_primary e) = []")
      case True
      then show ?thesis using r by (intro exI[of _ "w\<lparr> dw_repo := dw_repo w @ ve_captured e \<rparr>"]) (simp add: Let_def)
    next
      case False
      then show ?thesis using r fence
        by (intro exI[of _ "w\<lparr> dw_repo := dw_repo w @ ve_captured e, dw_cluster :=
          fence_replicas (restore_names (ve_instances e) (ve_primary e)) (dw_cluster w) \<rparr>"]) (simp add: Let_def)
    qed
    then have "\<exists>b. dw_streamed (snd (restore_dump c e w)) = dw_streamed w @ [(ve_primary e, b)]"
      using stream_writes by metis
    then show ?thesis using n f dry fr t p g fence by (auto simp: cnpg_restore_def)
  qed simp
qed

text \<open>A restore of the latest snapshot cannot succeed when its own escrow went into the same repository:
  the escrow carries the same engine, cluster and namespace tags, is newer, and holds no dump.\<close>

theorem escrow_shadows_latest:
  "if \<not> dc_dry_run c \<and> dc_snapshot c = [] \<and> ve_captured e \<noteq> [] \<and> plain_names c \<and> reads_as_documented (ve_restic e) \<and>
      list_all (\<lambda>s. stored_matches (filter_tags c) s \<and> map_of (st_files s) (restore_path c) = None \<and>
        list_all (\<lambda>t. sn_time t < sn_time s) (dw_repo w)) (ve_captured e)
   then fst (cnpg_restore c e w) \<noteq> None
   else True"
proof -
  have False
    if h: "\<not> dc_dry_run c" "dc_snapshot c = []" "ve_captured e \<noteq> []" "plain_names c" "reads_as_documented (ve_restic e)"
      "list_all (\<lambda>s. stored_matches (filter_tags c) s \<and> map_of (st_files s) (restore_path c) = None \<and>
        list_all (\<lambda>t. sn_time t < sn_time s) (dw_repo w)) (ve_captured e)" and r: "cnpg_restore c e w = (None, w')" for w'
  proof -
    obtain w1 where w1: "dw_repo w1 = dw_repo w @ ve_captured e" "restore_stream c e w1 = (None, w')" using restore_ok[OF r h(1)] by blast
    obtain t where t: "named_by (tag_filter (filter_tags c)) (snapshot_choice c) (dw_repo w1) t" "map_of (st_files t) (restore_path c) \<noteq> None"
      using dump_named[OF h(5) stream_ok(1)[OF w1(2)]] by (metis option.distinct(1))
    have l: "snapshot_choice c = ''latest''" using h(2) by (simp add: snapshot_choice_def)
    obtain s where s: "s \<in> set (ve_captured e)" using h(3) by (cases "ve_captured e") auto
    have "t \<in> set (dw_repo w)" using t h(6) w1(1) by (auto simp: named_by_def list_all_iff)
    moreover have "sn_time s \<le> sn_time t"
      using t(1) s h(6) w1(1) unfolding l named_by_def option_is_filter[OF h(4)] by (auto simp: list_all_iff)
    moreover have "sn_time t < sn_time s" using h(6) s calculation(1) by (auto simp: list_all_iff)
    ultimately show False by simp
  qed
  then show ?thesis by (cases "cnpg_restore c e w") auto
qed

text \<open>A restore takes over the whole fence list: after it, no instance of the cluster is fenced, whoever had
  fenced it, an instance kept fenced by a WAL recovery included.\<close>

theorem restore_releases_every_fence:
  "if fst (cnpg_restore c e w) = None \<and> \<not> dc_dry_run c \<and> ve_unfence e = Applied \<and>
      restore_names (ve_instances e) (ve_primary e) \<noteq> []
   then fenced_in (dw_cluster (snd (cnpg_restore c e w))) = []
   else True"
proof -
  have st: "fenced_in (dw_cluster (snd (restore_stream c e w1))) = []"
    if "ve_unfence e = Applied" "restore_names (ve_instances e) (ve_primary e) \<noteq> []" for w1
    using that by (simp add: restore_stream_def Let_def unfence_all_def delete_pods_def fenced_in_def parse_fenced_def)
  show ?thesis using st
    by (simp add: cnpg_restore_def restore_dump_def Let_def split: sum.split option.split prod.split bool.split)
qed

text \<open>The Galera restore streams into a ready pod without triage, force, or escrow.\<close>

lemma galera_restore_unguarded:
  assumes "ge_ready e = Some p" "\<not> dc_dry_run c"
  shows "\<exists>b. dw_streamed (snd (galera_restore c e w)) = dw_streamed w @ [(p, b)]"
  using assms by (simp add: galera_restore_def Let_def)

text \<open>An export that fails removes the target file, one that was there before included.\<close>

lemma failed_export_removes_file:
  assumes "export_dump gz creatable x file c w = (Some ExportFailed, w')"
  shows "map_of (dw_files w') file = None"
proof -
  have "w' = w\<lparr> dw_files := filter (\<lambda>(n, _). n \<noteq> file) (dw_files w) \<rparr>"
    using assms by (auto simp: export_dump_def Let_def split: if_splits)
  then show ?thesis by (auto simp: map_of_eq_None_iff)
qed

end
