(* ===== verification/Operator.thy ===== *)
theory Operator
  imports Go_Strings Results_Model
begin

text \<open>
  The operator (\<open>src/controller/\<close>, \<open>src/api/v1alpha1/annotations.go\<close>): the effective configuration of a
  database, the scheduler with its cron entries, the reconciliation of one database resource, and the
  jobs the entries run.  The scheduler's methods hold its mutex, so each is one step.  The cron library
  is the table of its entries with the functions they call; whether it accepts a schedule is a
  parameter, and so are the API server's answers, the engines and the metrics.
\<close>

section \<open>Configuration\<close>

definition clinic :: "string \<Rightarrow> string" where "clinic s = ''clinic.hasteward.prplanit.com/'' @ s"

record keep_counts =
  kc_last :: int
  kc_daily :: int
  kc_weekly :: int
  kc_monthly :: int

record policy_spec =
  ps_backup :: string
  ps_triage :: string
  ps_mode :: string
  ps_retention :: keep_counts
  ps_repositories :: "string list"
  ps_heal :: int
  ps_delete :: int

record effective_config =
  ec_policy :: string
  ec_backup :: string
  ec_triage :: string
  ec_mode :: string
  ec_repositories :: "string list"
  ec_retention :: keep_counts
  ec_heal :: int
  ec_delete :: int
  ec_excluded :: bool

text \<open>\<open>splitString\<close> with the current part, and \<open>trimSpace\<close>, which knows blanks and tabs only.\<close>

fun split_string :: "char \<Rightarrow> string \<Rightarrow> string \<Rightarrow> string list" where
  "split_string sep cur [] = [cur]"
| "split_string sep cur (c # cs) = (if c = sep then cur # split_string sep [] cs else split_string sep (cur @ [c]) cs)"

definition is_blank :: "char \<Rightarrow> bool" where "is_blank c \<longleftrightarrow> c = CHR '' '' \<or> c = CHR 0x09"

definition trim_blanks :: "string \<Rightarrow> string" where
  "trim_blanks s = rev (dropWhile is_blank (rev (dropWhile is_blank s)))"

definition split_csv :: "string \<Rightarrow> string list" where
  "split_csv s = filter (\<lambda>p. p \<noteq> []) (map trim_blanks (split_string (CHR '','') [] s))"

definition atoi_or :: "int \<Rightarrow> string option \<Rightarrow> int" where
  "atoi_or d a = (case a of None \<Rightarrow> d | Some v \<Rightarrow> (case parse_int64 10 v of Inl _ \<Rightarrow> d | Inr n \<Rightarrow> n))"

definition text_or :: "string \<Rightarrow> string option \<Rightarrow> string" where
  "text_or d a = (case a of None \<Rightarrow> d | Some v \<Rightarrow> v)"

definition no_counts :: keep_counts where
  "no_counts = \<lparr> kc_last = 0, kc_daily = 0, kc_weekly = 0, kc_monthly = 0 \<rparr>"

definition no_spec :: policy_spec where
  "no_spec = \<lparr> ps_backup = [], ps_triage = [], ps_mode = [], ps_retention = no_counts, ps_repositories = [],
     ps_heal = 0, ps_delete = 0 \<rparr>"

definition parse_annotations :: "(string \<times> string) list \<Rightarrow> policy_spec option \<Rightarrow> effective_config" where
  "parse_annotations ann policy =
     (let p = (case policy of None \<Rightarrow> no_spec | Some p \<Rightarrow> p); a = (\<lambda>k. map_of ann (clinic k)); r = ps_retention p
      in \<lparr> ec_policy = map_get [] ann (clinic ''policy''),
           ec_backup = text_or (ps_backup p) (a ''backup-schedule''),
           ec_triage = text_or (ps_triage p) (a ''triage-schedule''),
           ec_mode = text_or (ps_mode p) (a ''mode''),
           ec_repositories = (case a ''repositories'' of None \<Rightarrow> ps_repositories p | Some v \<Rightarrow> split_csv v),
           ec_retention = \<lparr> kc_last = atoi_or (kc_last r) (a ''retention-keep-last''),
                            kc_daily = atoi_or (kc_daily r) (a ''retention-keep-daily''),
                            kc_weekly = atoi_or (kc_weekly r) (a ''retention-keep-weekly''),
                            kc_monthly = atoi_or (kc_monthly r) (a ''retention-keep-monthly'') \<rparr>,
           ec_heal = atoi_or (ps_heal p) (a ''heal-timeout''),
           ec_delete = atoi_or (ps_delete p) (a ''delete-timeout''),
           ec_excluded = (a ''exclude'' = Some ''true'') \<rparr>)"

section \<open>The scheduler\<close>

record managed_db =
  md_namespace :: string
  md_cluster :: string
  md_engine :: string
  md_config :: effective_config

datatype cron_job = BackupJob managed_db string | TriageJob managed_db

text \<open>A cron entry: its number, its schedule, and the function with the database it captured.\<close>

record cron_entry =
  ce_id :: nat
  ce_spec :: string
  ce_job :: cron_job

record scheduled_db =
  sd_db :: managed_db
  sd_backups :: "nat list"
  sd_triage :: nat

record scheduler =
  sc_entries :: "cron_entry list"
  sc_last_id :: nat
  sc_managed :: "(string \<times> scheduled_db) list"

definition new_scheduler :: scheduler where
  "new_scheduler = \<lparr> sc_entries = [], sc_last_id = 0, sc_managed = [] \<rparr>"

definition add_func :: "(string \<Rightarrow> bool) \<Rightarrow> string \<Rightarrow> cron_job \<Rightarrow> scheduler \<Rightarrow> nat option \<times> scheduler" where
  "add_func valid spec job s =
     (if valid spec
      then (Some (sc_last_id s + 1),
            s\<lparr> sc_entries := sc_entries s @ [\<lparr> ce_id = sc_last_id s + 1, ce_spec = spec, ce_job = job \<rparr>],
               sc_last_id := sc_last_id s + 1 \<rparr>)
      else (None, s))"

definition cron_remove :: "nat \<Rightarrow> scheduler \<Rightarrow> scheduler" where
  "cron_remove i s = s\<lparr> sc_entries := filter (\<lambda>x. ce_id x \<noteq> i) (sc_entries s) \<rparr>"

definition deregister :: "string \<Rightarrow> scheduler \<Rightarrow> scheduler" where
  "deregister key s =
     (case map_of (sc_managed s) key of
        None \<Rightarrow> s
      | Some d \<Rightarrow>
          let s1 = fold cron_remove (sd_backups d) s;
              s2 = (if sd_triage d \<noteq> 0 then cron_remove (sd_triage d) s1 else s1)
          in s2\<lparr> sc_managed := filter (\<lambda>(k, _). k \<noteq> key) (sc_managed s2) \<rparr>)"

text \<open>\<open>reposEqual\<close> compares lengths, then the positions one by one.\<close>

definition repos_equal :: "string list \<Rightarrow> string list \<Rightarrow> bool" where
  "repos_equal a b \<longleftrightarrow> (if length a \<noteq> length b then False else list_all (\<lambda>i. a ! i = b ! i) [0..<length a])"

definition same_schedule :: "effective_config \<Rightarrow> effective_config \<Rightarrow> bool" where
  "same_schedule a b \<longleftrightarrow> ec_backup a = ec_backup b \<and> ec_triage a = ec_triage b \<and> ec_mode a = ec_mode b \<and>
     repos_equal (ec_repositories a) (ec_repositories b)"

fun add_backups :: "(string \<Rightarrow> bool) \<Rightarrow> managed_db \<Rightarrow> string list \<Rightarrow> scheduler \<Rightarrow> nat list \<times> scheduler" where
  "add_backups valid db [] s = ([], s)"
| "add_backups valid db (r # rs) s =
     (case add_func valid (ec_backup (md_config db)) (BackupJob db r) s of
        (None, s1) \<Rightarrow> add_backups valid db rs s1
      | (Some i, s1) \<Rightarrow> (case add_backups valid db rs s1 of (is, s2) \<Rightarrow> (i # is, s2)))"

definition schedule :: "(string \<Rightarrow> bool) \<Rightarrow> string \<Rightarrow> managed_db \<Rightarrow> scheduler \<Rightarrow> scheduler" where
  "schedule valid key db s =
     (let c = md_config db in
      case (if ec_backup c \<noteq> [] \<and> ec_mode c \<noteq> ''disabled'' then add_backups valid db (ec_repositories c) s else ([], s)) of
        (bs, s1) \<Rightarrow>
          (case (if ec_triage c \<noteq> [] \<and> ec_mode c \<noteq> ''disabled'' then add_func valid (ec_triage c) (TriageJob db) s1 else (None, s1)) of
             (t, s2) \<Rightarrow>
               s2\<lparr> sc_managed := map_set key \<lparr> sd_db = db, sd_backups = bs, sd_triage = (case t of None \<Rightarrow> 0 | Some i \<Rightarrow> i) \<rparr>
                                    (sc_managed s2) \<rparr>))"

definition register :: "(string \<Rightarrow> bool) \<Rightarrow> string \<Rightarrow> managed_db \<Rightarrow> scheduler \<Rightarrow> scheduler" where
  "register valid key db s =
     (case map_of (sc_managed s) key of
        Some d \<Rightarrow>
          if same_schedule (md_config (sd_db d)) (md_config db)
          then s\<lparr> sc_managed := map_set key (d\<lparr> sd_db := db \<rparr>) (sc_managed s) \<rparr>
          else schedule valid key db (deregister key s)
      | None \<Rightarrow> schedule valid key db s)"

definition managed_count :: "scheduler \<Rightarrow> nat" where "managed_count s = length (sc_managed s)"

definition managed_gauge :: "scheduler \<Rightarrow> string \<Rightarrow> nat" where
  "managed_gauge s engine = length (filter (\<lambda>(_, d). md_engine (sd_db d) = engine) (sc_managed s))"

section \<open>Reconciliation\<close>

datatype 'a lookup = Found 'a | NotFound | LookupFailed

record request =
  rq_engine :: string
  rq_namespace :: string
  rq_name :: string

definition db_key :: "string \<Rightarrow> string \<Rightarrow> string \<Rightarrow> string" where
  "db_key engine namespace name = engine @ ''/'' @ namespace @ ''/'' @ name"

record reconcile_env =
  oe_object :: "(string \<times> string) list lookup"
  oe_policy :: "string \<Rightarrow> policy_spec lookup"
  oe_valid :: "string \<Rightarrow> bool"

text \<open>One reconciliation: whether it returns an error, whether it asks for the managed mark, and the scheduler.\<close>

definition reconcile :: "reconcile_env \<Rightarrow> request \<Rightarrow> scheduler \<Rightarrow> (bool \<times> bool) \<times> scheduler" where
  "reconcile e q s =
     (let key = db_key (rq_engine q) (rq_namespace q) (rq_name q) in
      case oe_object e of
        NotFound \<Rightarrow> ((False, False), deregister key s)
      | LookupFailed \<Rightarrow> ((True, False), s)
      | Found ann \<Rightarrow>
          let policy = map_get [] ann (clinic ''policy'') in
          if policy = [] then ((False, False), deregister key s)
          else if map_get [] ann (clinic ''exclude'') = ''true'' then ((False, False), deregister key s)
          else (case oe_policy e policy of
                  Found spec \<Rightarrow>
                    ((False, map_get [] ann (clinic ''managed'') \<noteq> ''true''),
                     register (oe_valid e) key
                       \<lparr> md_namespace = rq_namespace q, md_cluster = rq_name q, md_engine = rq_engine q,
                          md_config = parse_annotations ann (Some spec) \<rparr> s)
                | _ \<Rightarrow> ((False, False), s)))"

section \<open>The jobs\<close>

text \<open>Credentials: the repository resource, the password in its secret, the optional environment secret.\<close>

record repository_cr =
  rr_repository :: string
  rr_secret :: string
  rr_key :: string
  rr_env :: "string option"

datatype credential_error = RepositoryMissing string | SecretMissing string | KeyMissing string | EnvMissing string

definition repo_credentials ::
  "(string \<Rightarrow> repository_cr option) \<Rightarrow> (string \<Rightarrow> (string \<times> string) list option) \<Rightarrow> string \<Rightarrow>
     (credential_error, string \<times> string \<times> (string \<times> string) list) result" where
  "repo_credentials repo_of secret_of name =
     (case repo_of name of
        None \<Rightarrow> Err (RepositoryMissing name)
      | Some r \<Rightarrow>
          (case secret_of (rr_secret r) of
             None \<Rightarrow> Err (SecretMissing (rr_secret r))
           | Some data \<Rightarrow>
               (case map_of data (rr_key r) of
                  None \<Rightarrow> Err (KeyMissing (rr_key r))
                | Some pw \<Rightarrow>
                    (case rr_env r of
                       None \<Rightarrow> Ok (rr_repository r, pw, [])
                     | Some es \<Rightarrow>
                         (case secret_of es of
                            None \<Rightarrow> Err (EnvMissing es)
                          | Some env \<Rightarrow> Ok (rr_repository r, pw, env))))))"

text \<open>The configuration a job hands to the engine; what it does not set is the zero value.\<close>

record engine_conf =
  en_engine :: string
  en_cluster :: string
  en_namespace :: string
  en_mode :: string
  en_path :: string
  en_password :: string
  en_method :: string
  en_heal :: int
  en_delete :: int
  en_force :: bool
  en_no_escrow :: bool
  en_env :: "(string \<times> string) list"

definition job_conf :: "managed_db \<Rightarrow> string \<Rightarrow> string \<Rightarrow> string \<Rightarrow> string \<Rightarrow> engine_conf" where
  "job_conf db mode path pw method =
     \<lparr> en_engine = md_engine db, en_cluster = md_cluster db, en_namespace = md_namespace db, en_mode = mode,
        en_path = path, en_password = pw, en_method = method, en_heal = ec_heal (md_config db),
        en_delete = ec_delete (md_config db), en_force = False, en_no_escrow = False, en_env = [] \<rparr>"

text \<open>What a job does: the engine run it starts, and the status annotations it writes.\<close>

datatype job_action = RunBackup engine_conf | RunTriage engine_conf | RunRepair engine_conf | Annotate "(string \<times> string) list"

record entry_env =
  jv_repo_of :: "string \<Rightarrow> repository_cr option"
  jv_secret_of :: "string \<Rightarrow> (string \<times> string) list option"
  jv_valid :: "engine_conf \<Rightarrow> bool"
  jv_backup :: "engine_conf \<Rightarrow> string option"
  jv_triage :: "engine_conf \<Rightarrow> (string, triage_result) result"
  jv_now :: string

definition run_backup :: "entry_env \<Rightarrow> managed_db \<Rightarrow> string \<Rightarrow> job_action list" where
  "run_backup e db repo =
     (case repo_credentials (jv_repo_of e) (jv_secret_of e) repo of
        Inl _ \<Rightarrow> []
      | Inr (path, pw, env) \<Rightarrow>
          let c = job_conf db ''backup'' path pw ''dump'' in
          if \<not> jv_valid e c then []
          else (case jv_backup e c of
                  None \<Rightarrow> [RunBackup c, Annotate [(clinic ''last-backup'', jv_now e)]]
                | Some dur \<Rightarrow>
                    [RunBackup c, Annotate [(clinic ''last-backup'', jv_now e), (clinic ''last-backup-duration'', dur)]]))"

definition triage_status :: "triage_result \<Rightarrow> string" where
  "triage_status t =
     (if \<not> dc_safe_to_heal (tr_comparison t) \<and> dc_split_brain (tr_comparison t) \<noteq> [] then ''split-brain''
      else if tr_ready t < tr_total t then ''unhealthy'' else ''healthy'')"

definition auto_repair :: "entry_env \<Rightarrow> managed_db \<Rightarrow> job_action list" where
  "auto_repair e db =
     (case ec_repositories (md_config db) of
        [] \<Rightarrow> []
      | repo # _ \<Rightarrow>
          (case repo_credentials (jv_repo_of e) (jv_secret_of e) repo of
             Inl _ \<Rightarrow> []
           | Inr (path, pw, env) \<Rightarrow>
               let c = job_conf db ''repair'' path pw ''dump'' in
               if \<not> jv_valid e c then [] else [RunRepair c, Annotate [(clinic ''last-repair'', jv_now e)]]))"

definition run_triage :: "entry_env \<Rightarrow> managed_db \<Rightarrow> job_action list" where
  "run_triage e db =
     (let c = job_conf db ''triage'' [] [] [] in
      if \<not> jv_valid e c then []
      else (case jv_triage e c of
              Inl _ \<Rightarrow> [RunTriage c]
            | Inr t \<Rightarrow>
                [RunTriage c, Annotate [(clinic ''last-triage'', jv_now e), (clinic ''last-triage-result'', triage_status t)]] @
                (if ec_mode (md_config db) = ''repair'' \<and> triage_status t = ''unhealthy'' then auto_repair e db else [])))"

definition run_entry :: "entry_env \<Rightarrow> cron_job \<Rightarrow> job_action list" where
  "run_entry e j = (case j of BackupJob db repo \<Rightarrow> run_backup e db repo | TriageJob db \<Rightarrow> run_triage e db)"

section \<open>Parsing\<close>

lemma split_string_char: "split_string c cur s = (case split_char c s of [] \<Rightarrow> [cur] | w # ws \<Rightarrow> (cur @ w) # ws)"
proof (induction c cur s rule: split_string.induct)
  case (2 c cur x xs)
  then show ?case by (cases "split_char c xs") auto
qed simp

lemma repos_equal_iff [simp]: "repos_equal a b \<longleftrightarrow> a = b"
  by (auto simp: repos_equal_def list_all_iff intro: nth_equalityI)

definition counts_in_range :: "keep_counts \<Rightarrow> bool" where
  "counts_in_range r \<longleftrightarrow> in_int64 (kc_last r) \<and> in_int64 (kc_daily r) \<and> in_int64 (kc_weekly r) \<and> in_int64 (kc_monthly r)"

lemma atoi_or_range: "in_int64 d \<Longrightarrow> in_int64 (atoi_or d a)"
  by (auto simp: atoi_or_def split: option.split sum.split intro: parse_int64_range)

text \<open>C36: The effective configuration is well typed: over a policy whose numbers are 64-bit integers every
  override leaves 64-bit integers, and no repository name is empty or padded when it came from the
  annotation.\<close>

theorem effective_config_typed:
  "if counts_in_range (ps_retention p) \<and> in_int64 (ps_heal p) \<and> in_int64 (ps_delete p)
   then counts_in_range (ec_retention (parse_annotations ann (Some p))) \<and>
     in_int64 (ec_heal (parse_annotations ann (Some p))) \<and> in_int64 (ec_delete (parse_annotations ann (Some p))) \<and>
     (case map_of ann (clinic ''repositories'') of
        None \<Rightarrow> ec_repositories (parse_annotations ann (Some p)) = ps_repositories p
      | Some v \<Rightarrow> list_all (\<lambda>r. r \<noteq> [] \<and> \<not> is_blank (hd r) \<and> \<not> is_blank (last r) \<and> CHR '','' \<notin> set r)
                     (ec_repositories (parse_annotations ann (Some p))))
   else True"
proof -
  have tb: "\<not> is_blank (hd (trim_blanks w)) \<and> \<not> is_blank (last (trim_blanks w))" if "trim_blanks w \<noteq> []" for w
  proof -
    let ?v = "dropWhile is_blank w"
    have v: "dropWhile is_blank (rev ?v) \<noteq> []" using that by (simp add: trim_blanks_def)
    have l: "\<not> is_blank (last (trim_blanks w))" using hd_dropWhile[OF v] v by (simp add: trim_blanks_def last_rev)
    have vne: "?v \<noteq> []" using v by (metis dropWhile.simps(1) rev.simps(1))
    obtain ys where ys: "rev ?v = ys @ dropWhile is_blank (rev ?v)" by (metis takeWhile_dropWhile_id)
    then have "?v = trim_blanks w @ rev ys" by (metis rev_append rev_rev_ident trim_blanks_def)
    then have "hd (trim_blanks w) = hd ?v" using that by (metis hd_append2)
    then show ?thesis using l hd_dropWhile[OF vne] by simp
  qed
  have sub: "set (trim_blanks w) \<subseteq> set w" for w by (auto simp: trim_blanks_def dest!: set_dropWhileD)
  have "list_all (\<lambda>r. r \<noteq> [] \<and> \<not> is_blank (hd r) \<and> \<not> is_blank (last r) \<and> CHR '','' \<notin> set r) (split_csv v)" for v
  proof -
    have "CHR '','' \<notin> set w" if "w \<in> set (split_string (CHR '','') [] v)" for w
      using that split_char_no_sep[of w "CHR '',''" v] split_char_ne[of "CHR '',''" v]
      by (cases "split_char (CHR '','') v") (auto simp: split_string_char)
    then show ?thesis using tb sub by (fastforce simp: split_csv_def list_all_iff)
  qed
  then show ?thesis
    by (simp add: parse_annotations_def Let_def counts_in_range_def atoi_or_range split: option.split)
qed

section \<open>The scheduler's table\<close>

definition job_key :: "cron_job \<Rightarrow> string" where
  "job_key j = (case j of BackupJob db _ \<Rightarrow> db_key (md_engine db) (md_namespace db) (md_cluster db)
                 | TriageJob db \<Rightarrow> db_key (md_engine db) (md_namespace db) (md_cluster db))"

definition own_key :: "managed_db \<Rightarrow> string" where
  "own_key db = db_key (md_engine db) (md_namespace db) (md_cluster db)"

definition owned :: "scheduled_db \<Rightarrow> nat set" where
  "owned d = set (sd_backups d) \<union> (if sd_triage d = 0 then {} else {sd_triage d})"

text \<open>Every database is managed under its own key, every entry is one that the database of its job owns,
  and every number a database owns is an entry of its own.\<close>

definition scheduler_ok :: "scheduler \<Rightarrow> bool" where
  "scheduler_ok s \<longleftrightarrow> distinct (map fst (sc_managed s)) \<and> distinct (map ce_id (sc_entries s)) \<and>
     (\<forall>x\<in>set (sc_entries s). 0 < ce_id x \<and> ce_id x \<le> sc_last_id s) \<and>
     (\<forall>(k, d)\<in>set (sc_managed s). own_key (sd_db d) = k) \<and>
     (\<forall>x\<in>set (sc_entries s). \<exists>d. map_of (sc_managed s) (job_key (ce_job x)) = Some d \<and> ce_id x \<in> owned d) \<and>
     (\<forall>(k, d)\<in>set (sc_managed s). \<forall>i\<in>owned d. \<exists>x\<in>set (sc_entries s). ce_id x = i \<and> job_key (ce_job x) = k)"

lemma fold_cron_remove:
  "fold cron_remove is s = s\<lparr> sc_entries := filter (\<lambda>x. ce_id x \<notin> set is) (sc_entries s) \<rparr>"
proof (induction "is" arbitrary: s)
  case (Cons i "is")
  show ?case unfolding fold_Cons comp_apply Cons by (simp add: cron_remove_def conj_commute)
qed simp

lemma deregister_spec:
  "deregister key s = (case map_of (sc_managed s) key of None \<Rightarrow> s
     | Some d \<Rightarrow> s\<lparr> sc_entries := filter (\<lambda>x. ce_id x \<notin> set (sd_backups d) \<and> (sd_triage d \<noteq> 0 \<longrightarrow> ce_id x \<noteq> sd_triage d)) (sc_entries s),
                    sc_managed := filter (\<lambda>(k, _). k \<noteq> key) (sc_managed s) \<rparr>)"
  by (cases "map_of (sc_managed s) key")
    (auto simp: deregister_def Let_def fold_cron_remove cron_remove_def intro: filter_cong)

lemma deregister_entries:
  assumes "map_of (sc_managed s) key = Some d" "scheduler_ok s"
  shows "x \<in> set (sc_entries (deregister key s)) \<longleftrightarrow> x \<in> set (sc_entries s) \<and> ce_id x \<notin> owned d"
  using assms(1) by (auto simp: deregister_spec owned_def split: if_splits)

lemma map_of_other_keys: "map_of (filter (\<lambda>(k, _). k \<noteq> key) m) k = (if k = key then None else map_of m k)"
  by (induction m) auto

lemma deregister_ok:
  assumes "scheduler_ok s"
  shows "scheduler_ok (deregister key s)" "map_of (sc_managed (deregister key s)) key = None"
    "x \<in> set (sc_entries (deregister key s)) \<Longrightarrow> job_key (ce_job x) \<noteq> key"
proof -
  have m: "map_of (sc_managed (deregister key s)) k = (if k = key then None else map_of (sc_managed s) k)" for k
    by (cases "map_of (sc_managed s) key") (simp_all add: deregister_spec map_of_other_keys)
  then show "map_of (sc_managed (deregister key s)) key = None" by simp
  note ok = assms[unfolded scheduler_ok_def]
  show nk: "job_key (ce_job x) \<noteq> key" if "x \<in> set (sc_entries (deregister key s))" for x
  proof
    assume j: "job_key (ce_job x) = key"
    have xs: "x \<in> set (sc_entries s)"
      using that by (cases "map_of (sc_managed s) key") (auto simp: deregister_spec)
    then obtain d where d: "map_of (sc_managed s) key = Some d" "ce_id x \<in> owned d" using ok j by blast
    then show False using that deregister_entries[OF d(1) assms] by simp
  qed
  show "scheduler_ok (deregister key s)"
  proof (cases "map_of (sc_managed s) key")
    case None
    then show ?thesis using assms by (simp add: deregister_spec)
  next
    case (Some d)
    note ent = deregister_entries[OF Some assms]
    have man: "set (sc_managed (deregister key s)) = {(k, d) \<in> set (sc_managed s). k \<noteq> key}"
      using Some by (auto simp: deregister_spec)
    have kd: "(key, d) \<in> set (sc_managed s)" using Some by (rule map_of_SomeD)
    have un: "x \<in> set (sc_entries s) \<Longrightarrow> y \<in> set (sc_entries s) \<Longrightarrow> ce_id x = ce_id y \<Longrightarrow> x = y" for x y
      using ok by (simp add: distinct_map inj_on_def)
    have keep: "ce_id x \<notin> owned d" if "x \<in> set (sc_entries s)" "job_key (ce_job x) \<noteq> key" for x
    proof
      assume "ce_id x \<in> owned d"
      then obtain y where "y \<in> set (sc_entries s)" "ce_id y = ce_id x" "job_key (ce_job y) = key" using ok kd by fastforce
      then show False using un[of y x] that by simp
    qed
    show ?thesis unfolding scheduler_ok_def
    proof (intro conjI)
      show "distinct (map fst (sc_managed (deregister key s)))" "distinct (map ce_id (sc_entries (deregister key s)))"
        using ok Some by (simp_all add: deregister_spec distinct_map_filter)
      have l: "sc_last_id (deregister key s) = sc_last_id s" using Some by (simp add: deregister_spec)
      show "\<forall>x\<in>set (sc_entries (deregister key s)). 0 < ce_id x \<and> ce_id x \<le> sc_last_id (deregister key s)"
        unfolding l using ok ent by blast
      show "\<forall>(k, d)\<in>set (sc_managed (deregister key s)). own_key (sd_db d) = k" using ok man by auto
      show "\<forall>x\<in>set (sc_entries (deregister key s)). \<exists>d. map_of (sc_managed (deregister key s)) (job_key (ce_job x)) = Some d \<and> ce_id x \<in> owned d"
      proof
        fix x assume x: "x \<in> set (sc_entries (deregister key s))"
        then have "x \<in> set (sc_entries s)" using ent by simp
        then obtain d' where "map_of (sc_managed s) (job_key (ce_job x)) = Some d'" "ce_id x \<in> owned d'" using ok by blast
        then show "\<exists>d. map_of (sc_managed (deregister key s)) (job_key (ce_job x)) = Some d \<and> ce_id x \<in> owned d"
          unfolding m using nk[OF x] by simp
      qed
      show "\<forall>(k, d)\<in>set (sc_managed (deregister key s)). \<forall>i\<in>owned d. \<exists>x\<in>set (sc_entries (deregister key s)). ce_id x = i \<and> job_key (ce_job x) = k"
      proof (rule ballI, unfold split_beta, rule ballI)
        fix p i assume p: "p \<in> set (sc_managed (deregister key s))" and i: "i \<in> owned (snd p)"
        have pm: "p \<in> set (sc_managed s)" "fst p \<noteq> key" using p man by auto
        then obtain x where x: "x \<in> set (sc_entries s)" "ce_id x = i" "job_key (ce_job x) = fst p"
          using ok i by fastforce
        then show "\<exists>x\<in>set (sc_entries (deregister key s)). ce_id x = i \<and> job_key (ce_job x) = fst p"
          using ent keep pm by auto
      qed
    qed
  qed
qed

lemma add_func_spec:
  assumes "add_func valid spec job s = (r, s')"
  shows "\<exists>xs. sc_entries s' = sc_entries s @ xs \<and> sc_managed s' = sc_managed s \<and> sc_last_id s' = sc_last_id s + length xs \<and>
     map ce_id xs = map (\<lambda>i. sc_last_id s + 1 + i) [0..<length xs] \<and> map (\<lambda>x. (ce_spec x, ce_job x)) xs = (if valid spec then [(spec, job)] else []) \<and>
     (case r of None \<Rightarrow> xs = [] | Some i \<Rightarrow> map ce_id xs = [i])"
proof (cases "valid spec")
  case True
  then show ?thesis using assms
    by (intro exI[of _ "[\<lparr> ce_id = sc_last_id s + 1, ce_spec = spec, ce_job = job \<rparr>]"]) (auto simp: add_func_def)
qed (use assms in \<open>auto simp: add_func_def\<close>)

lemma add_backups_spec:
  "add_backups valid db rs s = (is, s') \<Longrightarrow>
   \<exists>xs. sc_entries s' = sc_entries s @ xs \<and> sc_managed s' = sc_managed s \<and> sc_last_id s' = sc_last_id s + length xs \<and>
     map ce_id xs = map (\<lambda>i. sc_last_id s + 1 + i) [0..<length xs] \<and> map ce_id xs = is \<and>
     map (\<lambda>x. (ce_spec x, ce_job x)) xs =
       (if valid (ec_backup (md_config db)) then map (\<lambda>r. (ec_backup (md_config db), BackupJob db r)) rs else [])"
proof (induction rs arbitrary: s "is")
  case (Cons r rs)
  show ?case
  proof (cases "valid (ec_backup (md_config db))")
    case True
    let ?s1 = "s\<lparr> sc_entries := sc_entries s @ [\<lparr> ce_id = sc_last_id s + 1, ce_spec = ec_backup (md_config db), ce_job = BackupJob db r \<rparr>],
               sc_last_id := sc_last_id s + 1 \<rparr>"
    obtain is' where r: "add_backups valid db rs ?s1 = (is', s')" "is = (sc_last_id s + 1) # is'"
      using Cons.prems True by (auto simp: add_func_def split: prod.splits)
    from Cons.IH[OF r(1)] obtain xs where x: "sc_entries s' = sc_entries ?s1 @ xs" "sc_managed s' = sc_managed ?s1"
      "sc_last_id s' = sc_last_id ?s1 + length xs" "map ce_id xs = map (\<lambda>i. sc_last_id ?s1 + 1 + i) [0..<length xs]" "map ce_id xs = is'"
      "map (\<lambda>x. (ce_spec x, ce_job x)) xs = map (\<lambda>r. (ec_backup (md_config db), BackupJob db r)) rs" using True by auto
    let ?y = "\<lparr> ce_id = sc_last_id s + 1, ce_spec = ec_backup (md_config db), ce_job = BackupJob db r \<rparr>"
    have "map (\<lambda>i. sc_last_id s + 1 + i) [0..<length (?y # xs)] = (sc_last_id s + 1) # map (\<lambda>i. sc_last_id ?s1 + 1 + i) [0..<length xs]"
      by (simp add: upt_conv_Cons map_Suc_upt[symmetric] del: upt_Suc)
    then show ?thesis using x r(2) True by (intro exI[of _ "?y # xs"]) simp
  next
    case False
    then show ?thesis using Cons by (simp add: add_func_def)
  qed
qed (auto intro: exI[of _ "[]"])

text \<open>The entries one database gets.\<close>

definition wanted_jobs :: "managed_db \<Rightarrow> (string \<times> cron_job) list" where
  "wanted_jobs db =
     (let c = md_config db in
      if ec_mode c = ''disabled'' then []
      else (if ec_backup c = [] then [] else map (\<lambda>r. (ec_backup c, BackupJob db r)) (ec_repositories c)) @
           (if ec_triage c = [] then [] else [(ec_triage c, TriageJob db)]))"

lemma schedule_spec:
  "\<exists>xs d. sc_entries (schedule valid key db s) = sc_entries s @ xs \<and>
     sc_managed (schedule valid key db s) = map_set key d (sc_managed s) \<and> sd_db d = db \<and>
     sc_last_id (schedule valid key db s) = sc_last_id s + length xs \<and>
     map ce_id xs = map (\<lambda>i. sc_last_id s + 1 + i) [0..<length xs] \<and> owned d = set (map ce_id xs) \<and>
     map (\<lambda>x. (ce_spec x, ce_job x)) xs = filter (\<lambda>(spec, _). valid spec) (wanted_jobs db)"
proof -
  let ?c = "md_config db"
  obtain bs s1 where b: "(if ec_backup ?c \<noteq> [] \<and> ec_mode ?c \<noteq> ''disabled'' then add_backups valid db (ec_repositories ?c) s else ([], s)) = (bs, s1)"
    by fastforce
  obtain t s2 where t: "(if ec_triage ?c \<noteq> [] \<and> ec_mode ?c \<noteq> ''disabled'' then add_func valid (ec_triage ?c) (TriageJob db) s1 else (None, s1)) = (t, s2)"
    by fastforce
  obtain xs where x: "sc_entries s1 = sc_entries s @ xs" "sc_managed s1 = sc_managed s" "sc_last_id s1 = sc_last_id s + length xs"
    "map ce_id xs = map (\<lambda>i. sc_last_id s + 1 + i) [0..<length xs]" "map ce_id xs = bs"
    "map (\<lambda>x. (ce_spec x, ce_job x)) xs =
       (if ec_backup ?c \<noteq> [] \<and> ec_mode ?c \<noteq> ''disabled'' \<and> valid (ec_backup ?c) then map (\<lambda>r. (ec_backup ?c, BackupJob db r)) (ec_repositories ?c) else [])"
    using b add_backups_spec[of valid db "ec_repositories ?c" s bs s1] by (cases "ec_backup ?c \<noteq> [] \<and> ec_mode ?c \<noteq> ''disabled''") auto
  obtain ys where y: "sc_entries s2 = sc_entries s1 @ ys" "sc_managed s2 = sc_managed s1" "sc_last_id s2 = sc_last_id s1 + length ys"
    "map ce_id ys = map (\<lambda>i. sc_last_id s1 + 1 + i) [0..<length ys]"
    "map (\<lambda>x. (ce_spec x, ce_job x)) ys = (if ec_triage ?c \<noteq> [] \<and> ec_mode ?c \<noteq> ''disabled'' \<and> valid (ec_triage ?c) then [(ec_triage ?c, TriageJob db)] else [])"
    "case t of None \<Rightarrow> ys = [] | Some i \<Rightarrow> map ce_id ys = [i]"
    using t add_func_spec[of valid "ec_triage ?c" "TriageJob db" s1 t s2] by (cases "ec_triage ?c \<noteq> [] \<and> ec_mode ?c \<noteq> ''disabled''") auto
  let ?d = "\<lparr> sd_db = db, sd_backups = bs, sd_triage = (case t of None \<Rightarrow> 0 | Some i \<Rightarrow> i) \<rparr>"
  have s: "schedule valid key db s = s2\<lparr> sc_managed := map_set key ?d (sc_managed s2) \<rparr>"
    using b t by (simp add: schedule_def Let_def)
  have ids: "map ce_id (xs @ ys) = map (\<lambda>i. sc_last_id s + 1 + i) [0..<length (xs @ ys)]"
  proof -
    have "[0..<length xs + length ys] = [0..<length xs] @ map (\<lambda>i. length xs + i) [0..<length ys]"
      by (simp add: upt_add_eq_append[of 0] map_add_upt add.commute)
    then show ?thesis using x(3,4) y(4) by (simp add: ac_simps)
  qed
  have "owned ?d = set (map ce_id (xs @ ys))"
  proof (cases t)
    case None
    then show ?thesis using x(5) y(6) by (simp add: owned_def)
  next
    case (Some i)
    then have "i \<noteq> 0" using y(4,6) by (cases ys) auto
    then show ?thesis using x(5) y(6) Some by (auto simp: owned_def simp flip: set_map)
  qed
  moreover have "map (\<lambda>x. (ce_spec x, ce_job x)) (xs @ ys) = filter (\<lambda>(spec, _). valid spec) (wanted_jobs db)"
    using x(6) y(5) by (auto simp: wanted_jobs_def Let_def filter_map o_def)
  moreover have "sc_entries (schedule valid key db s) = sc_entries s @ (xs @ ys)"
    "sc_managed (schedule valid key db s) = map_set key ?d (sc_managed s)" "sd_db ?d = db"
    "sc_last_id (schedule valid key db s) = sc_last_id s + length (xs @ ys)" using s x(1-3) y(1-3) by simp_all
  ultimately show ?thesis using ids by blast
qed

lemma wanted_jobs_key: "(spec, job) \<in> set (wanted_jobs db) \<Longrightarrow> job_key job = own_key db"
  by (auto simp: wanted_jobs_def Let_def job_key_def own_key_def split: if_splits)

lemma schedule_ok:
  assumes "scheduler_ok s" "map_of (sc_managed s) key = None" "own_key db = key"
  shows "scheduler_ok (schedule valid key db s)"
    "map (\<lambda>x. (ce_spec x, ce_job x)) (filter (\<lambda>x. job_key (ce_job x) = key) (sc_entries (schedule valid key db s))) =
       filter (\<lambda>(spec, _). valid spec) (wanted_jobs db)"
proof -
  let ?s = "schedule valid key db s"
  obtain xs d where x: "sc_entries ?s = sc_entries s @ xs" "sc_managed ?s = map_set key d (sc_managed s)" "sd_db d = db"
     "sc_last_id ?s = sc_last_id s + length xs" "map ce_id xs = map (\<lambda>i. sc_last_id s + 1 + i) [0..<length xs]"
     "owned d = set (map ce_id xs)" "map (\<lambda>x. (ce_spec x, ce_job x)) xs = filter (\<lambda>(spec, _). valid spec) (wanted_jobs db)"
    using schedule_spec[of valid key db s] by blast
  note ok = assms(1)[unfolded scheduler_ok_def]
  have xk: "job_key (ce_job y) = key" if "y \<in> set xs" for y
  proof -
    have "(ce_spec y, ce_job y) \<in> set (map (\<lambda>x. (ce_spec x, ce_job x)) xs)" using that by auto
    then have "(ce_spec y, ce_job y) \<in> set (wanted_jobs db)" unfolding x(7) by auto
    then show ?thesis using wanted_jobs_key assms(3) by simp
  qed
  have ek: "job_key (ce_job y) \<noteq> key" if "y \<in> set (sc_entries s)" for y
  proof -
    obtain d' where "map_of (sc_managed s) (job_key (ce_job y)) = Some d'" using ok \<open>y \<in> set (sc_entries s)\<close> by blast
    then show ?thesis using assms(2) by auto
  qed
  have xid: "sc_last_id s < ce_id y \<and> ce_id y \<le> sc_last_id s + length xs" if "y \<in> set xs" for y
  proof -
    have "ce_id y \<in> set (map ce_id xs)" using that by simp
    then show ?thesis unfolding x(5) by auto
  qed
  have kn: "key \<notin> fst ` set (sc_managed s)" using assms(2) by (simp add: map_of_eq_None_iff)
  have app: "map_set key d m = m @ [(key, d)]" if "key \<notin> fst ` set m" for m using that by (induction key d m rule: map_set.induct) auto
  show "scheduler_ok ?s" unfolding scheduler_ok_def
  proof (intro conjI)
    show "distinct (map fst (sc_managed ?s))" unfolding x(2) by (rule distinct_map_set) (use ok in simp)
    have "distinct (map ce_id xs)" unfolding x(5) by (simp add: distinct_map inj_on_def)
    moreover have "ce_id y \<le> sc_last_id s" if "y \<in> set (sc_entries s)" for y using ok that by simp
    then have "set (map ce_id (sc_entries s)) \<inter> set (map ce_id xs) = {}" using xid by fastforce
    ultimately show "distinct (map ce_id (sc_entries ?s))" unfolding x(1) using ok by simp
    show "\<forall>y\<in>set (sc_entries ?s). 0 < ce_id y \<and> ce_id y \<le> sc_last_id ?s" unfolding x(1,4) using ok xid by fastforce
    show "\<forall>(k, d)\<in>set (sc_managed ?s). own_key (sd_db d) = k" unfolding x(2) app[OF kn] using ok x(3) assms(3) by simp
    show "\<forall>y\<in>set (sc_entries ?s). \<exists>d. map_of (sc_managed ?s) (job_key (ce_job y)) = Some d \<and> ce_id y \<in> owned d"
    proof
      fix y assume "y \<in> set (sc_entries ?s)"
      then consider "y \<in> set (sc_entries s)" | "y \<in> set xs" using x(1) by auto
      then show "\<exists>d. map_of (sc_managed ?s) (job_key (ce_job y)) = Some d \<and> ce_id y \<in> owned d"
      proof cases
        case 1
        then obtain d' where "map_of (sc_managed s) (job_key (ce_job y)) = Some d'" "ce_id y \<in> owned d'" using ok by blast
        then show ?thesis using x(2) ek[OF 1] by simp
      next
        case 2
        then show ?thesis using x(2,6) xk[OF 2] by simp
      qed
    qed
    show "\<forall>(k, d)\<in>set (sc_managed ?s). \<forall>i\<in>owned d. \<exists>y\<in>set (sc_entries ?s). ce_id y = i \<and> job_key (ce_job y) = k"
    proof (rule ballI, unfold split_beta, rule ballI)
      fix p i assume p: "p \<in> set (sc_managed ?s)" and i: "i \<in> owned (snd p)"
      show "\<exists>y\<in>set (sc_entries ?s). ce_id y = i \<and> job_key (ce_job y) = fst p"
      proof (cases "p \<in> set (sc_managed s)")
        case True
        then obtain y where "y \<in> set (sc_entries s)" "ce_id y = i" "job_key (ce_job y) = fst p" using ok i by fastforce
        then show ?thesis unfolding x(1) by auto
      next
        case False
        then have "p = (key, d)" using p x(2) app[OF kn] by auto
        then obtain y where "y \<in> set xs" "ce_id y = i" using i x(6) by auto
        then show ?thesis unfolding x(1) using xk \<open>p = (key, d)\<close> by auto
      qed
    qed
  qed
  have "filter (\<lambda>y. job_key (ce_job y) = key) (sc_entries s) = []" using ek by (simp add: filter_empty_conv)
  moreover have "filter (\<lambda>y. job_key (ce_job y) = key) xs = xs" using xk by simp
  ultimately show "map (\<lambda>x. (ce_spec x, ce_job x)) (filter (\<lambda>x. job_key (ce_job x) = key) (sc_entries ?s)) =
       filter (\<lambda>(spec, _). valid spec) (wanted_jobs db)" unfolding x(1) using x(7) by simp
qed

lemma entry_owned:
  assumes "scheduler_ok s" "x \<in> set (sc_entries s)"
  shows "\<exists>d. map_of (sc_managed s) (job_key (ce_job x)) = Some d \<and> ce_id x \<in> owned d"
  using assms unfolding scheduler_ok_def by (elim conjE) (rule bspec)

lemma register_ok:
  assumes "scheduler_ok s" "own_key db = key"
  shows "scheduler_ok (register valid key db s)"
proof (cases "map_of (sc_managed s) key")
  case None
  then show ?thesis using schedule_ok(1)[OF assms(1) None assms(2)] by (simp add: register_def)
next
  case (Some d)
  show ?thesis
  proof (cases "same_schedule (md_config (sd_db d)) (md_config db)")
    case False
    then show ?thesis using Some schedule_ok(1)[OF deregister_ok(1,2)[OF assms(1)] assms(2)] by (simp add: register_def)
  next
    case True
    note ok = assms(1)[unfolded scheduler_ok_def]
    have kept: "\<forall>(k, d)\<in>set (sc_managed s). \<forall>i\<in>owned d. \<exists>x\<in>set (sc_entries s). ce_id x = i \<and> job_key (ce_job x) = k"
      using ok by (elim conjE)
    let ?d = "d\<lparr> sd_db := db \<rparr>"
    have o: "owned ?d = owned d" by (simp add: owned_def)
    have m: "map_of (map_set key ?d (sc_managed s)) k = (if k = key then Some ?d else map_of (sc_managed s) k)" for k by simp
    have dm: "distinct (map fst (map_set key ?d (sc_managed s)))" by (rule distinct_map_set) (use ok in simp)
    have mem: "p \<in> set (map_set key ?d (sc_managed s)) \<Longrightarrow> p = (key, ?d) \<or> p \<in> set (sc_managed s) \<and> fst p \<noteq> key" for p
    proof -
      assume "p \<in> set (map_set key ?d (sc_managed s))"
      then have "map_of (map_set key ?d (sc_managed s)) (fst p) = Some (snd p)" using dm by (metis map_of_eq_Some_iff prod.collapse)
      then show ?thesis unfolding m by (auto split: if_splits dest: map_of_SomeD intro: prod_eqI)
    qed
    have "scheduler_ok (s\<lparr> sc_managed := map_set key ?d (sc_managed s) \<rparr>)" unfolding scheduler_ok_def
    proof (intro conjI)
      show "\<forall>(k, d)\<in>set (sc_managed (s\<lparr> sc_managed := map_set key ?d (sc_managed s) \<rparr>)). own_key (sd_db d) = k"
      proof
        fix p assume "p \<in> set (sc_managed (s\<lparr> sc_managed := map_set key ?d (sc_managed s) \<rparr>))"
        then consider "p = (key, ?d)" | "p \<in> set (sc_managed s)" using mem[of p] by fastforce
        then show "case p of (k, d) \<Rightarrow> own_key (sd_db d) = k" using ok assms(2) by cases auto
      qed
      show "\<forall>x\<in>set (sc_entries (s\<lparr> sc_managed := map_set key ?d (sc_managed s) \<rparr>)).
          \<exists>d. map_of (sc_managed (s\<lparr> sc_managed := map_set key ?d (sc_managed s) \<rparr>)) (job_key (ce_job x)) = Some d \<and> ce_id x \<in> owned d"
      proof
        fix x assume "x \<in> set (sc_entries (s\<lparr> sc_managed := map_set key ?d (sc_managed s) \<rparr>))"
        then obtain d' where d': "map_of (sc_managed s) (job_key (ce_job x)) = Some d'" "ce_id x \<in> owned d'" using ok by auto
        show "\<exists>d. map_of (sc_managed (s\<lparr> sc_managed := map_set key ?d (sc_managed s) \<rparr>)) (job_key (ce_job x)) = Some d \<and> ce_id x \<in> owned d"
        proof (cases "job_key (ce_job x) = key")
          case True
          then have "d' = d" using d'(1) Some by simp
          then show ?thesis using d'(2) o m True by simp
        next
          case False
          then show ?thesis using d' m by simp
        qed
      qed
      show "\<forall>(k, d)\<in>set (sc_managed (s\<lparr> sc_managed := map_set key ?d (sc_managed s) \<rparr>)). \<forall>i\<in>owned d.
          \<exists>x\<in>set (sc_entries (s\<lparr> sc_managed := map_set key ?d (sc_managed s) \<rparr>)). ce_id x = i \<and> job_key (ce_job x) = k"
      proof
        fix p assume "p \<in> set (sc_managed (s\<lparr> sc_managed := map_set key ?d (sc_managed s) \<rparr>))"
        then consider "p = (key, ?d)" | "p \<in> set (sc_managed s)" using mem[of p] by fastforce
        then show "case p of (k, d) \<Rightarrow> \<forall>i\<in>owned d. \<exists>x\<in>set (sc_entries (s\<lparr> sc_managed := map_set key ?d (sc_managed s) \<rparr>)). ce_id x = i \<and> job_key (ce_job x) = k"
        proof cases
          case 1
          then show ?thesis using bspec[OF kept map_of_SomeD[OF Some]] o by simp
        next
          case 2
          then show ?thesis using bspec[OF kept 2] by simp
        qed
      qed
    qed (use ok dm in simp_all)
    then show ?thesis using Some True by (simp add: register_def)
  qed
qed

section \<open>The operator's runs\<close>

text \<open>The states the operator can be in: it starts empty and reconciles one request after the other.\<close>

inductive operator_state :: "scheduler \<Rightarrow> bool" where
  op_start: "operator_state new_scheduler"
| op_step: "operator_state s \<Longrightarrow> operator_state (snd (reconcile e q s))"

inductive_cases op_stepE: "operator_state s"

definition request_key :: "request \<Rightarrow> string" where
  "request_key q = db_key (rq_engine q) (rq_namespace q) (rq_name q)"

lemma reconcile_ok: "scheduler_ok s \<Longrightarrow> scheduler_ok (snd (reconcile e q s))"
  by (simp add: reconcile_def Let_def deregister_ok register_ok own_key_def split: lookup.split)

lemma operator_ok: "operator_state s \<Longrightarrow> scheduler_ok s"
  by (induction rule: operator_state.induct) (simp_all add: reconcile_ok, simp add: scheduler_ok_def new_scheduler_def)

text \<open>C33: In every state of the operator, every cron entry belongs to the managed database its job is for, and
  every database still has exactly the entries it was given: no entry is orphaned, none is lost.\<close>

theorem no_orphaned_jobs: "if operator_state s then scheduler_ok s else True"
  by (simp add: operator_ok)

text \<open>The ways a database leaves the schedule: it is gone, names no policy, is excluded, or its mode is disabled by
  its annotation or the policy it names, which must have been read for the mode to count.  A database that could
  not be read, or whose policy could not, is left as it was.\<close>

definition opted_out :: "reconcile_env \<Rightarrow> bool" where
  "opted_out e \<longleftrightarrow>
     (case oe_object e of
        NotFound \<Rightarrow> True
      | LookupFailed \<Rightarrow> False
      | Found ann \<Rightarrow>
          map_get [] ann (clinic ''policy'') = [] \<or> map_get [] ann (clinic ''exclude'') = ''true'' \<or>
          (case oe_policy e (map_get [] ann (clinic ''policy'')) of
             Found spec \<Rightarrow> ec_mode (parse_annotations ann (Some spec)) = ''disabled'' | _ \<Rightarrow> False))"

lemma register_disabled:
  assumes "scheduler_ok s" "own_key db = key" "ec_mode (md_config db) = ''disabled''"
    and "\<forall>d. map_of (sc_managed s) key = Some d \<longrightarrow> ec_mode (md_config (sd_db d)) = ''disabled'' \<longrightarrow> owned d = {}"
    and "x \<in> set (sc_entries (register valid key db s))"
  shows "job_key (ce_job x) \<noteq> key"
proof -
  have new: "job_key (ce_job x) \<noteq> key"
    if "scheduler_ok s'" "map_of (sc_managed s') key = None" "x \<in> set (sc_entries (schedule valid key db s'))" for s'
  proof
    assume "job_key (ce_job x) = key"
    then have "x \<in> set (filter (\<lambda>x. job_key (ce_job x) = key) (sc_entries (schedule valid key db s')))" using that by simp
    moreover have "filter (\<lambda>x. job_key (ce_job x) = key) (sc_entries (schedule valid key db s')) = []"
      using schedule_ok(2)[OF that(1,2) assms(2), of valid] assms(3) by (simp add: wanted_jobs_def Let_def)
    ultimately show False by simp
  qed
  show ?thesis
  proof (cases "map_of (sc_managed s) key")
    case None
    then show ?thesis using new[OF assms(1) None] assms(5) by (simp add: register_def)
  next
    case (Some d)
    show ?thesis
    proof (cases "same_schedule (md_config (sd_db d)) (md_config db)")
      case False
      then show ?thesis using new[OF deregister_ok(1,2)[OF assms(1)]] assms(5) Some by (simp add: register_def)
    next
      case True
      then have e: "owned d = {}" using assms(3,4) Some by (simp add: same_schedule_def)
      have "x \<in> set (sc_entries s)" using assms(5) Some True by (simp add: register_def)
      then show ?thesis using entry_owned[OF assms(1)] e Some by fastforce
    qed
  qed
qed

text \<open>A database whose managed configuration is disabled owns no entry.\<close>

lemma reconcile_steps:
  assumes "snd (reconcile e q s) \<noteq> s"
  obtains key where "snd (reconcile e q s) = deregister key s" | v key db where "snd (reconcile e q s) = register v key db s"
  using assms unfolding reconcile_def Let_def by (cases "oe_object e") (auto split: if_splits lookup.splits)

lemma schedule_owns:
  obtains xs :: "cron_entry list" and d where "sc_managed (schedule valid key db s) = map_set key d (sc_managed s)" "sd_db d = db"
    "owned d = set (map ce_id xs)" "map (\<lambda>x. (ce_spec x, ce_job x)) xs = filter (\<lambda>(spec, _). valid spec) (wanted_jobs db)"
  using schedule_spec[of valid key db s] by (elim exE conjE) blast

lemma disabled_owns_nothing:
  assumes "operator_state s" "map_of (sc_managed s) k = Some d" "ec_mode (md_config (sd_db d)) = ''disabled''"
  shows "owned d = {}"
  using assms
proof (induction arbitrary: k d rule: operator_state.induct)
  case op_start
  then show ?case by (simp add: new_scheduler_def)
next
  case (op_step s e q)
  have dereg: "owned d' = {}"
    if "map_of (sc_managed (deregister key s)) k' = Some d'" "ec_mode (md_config (sd_db d')) = ''disabled''" for key k' d'
  proof -
    have "map_of (sc_managed s) k' = Some d'"
      using that(1) by (cases "map_of (sc_managed s) key") (auto simp: deregister_spec map_of_other_keys split: if_splits)
    then show ?thesis using op_step.IH that(2) by blast
  qed
  have sched: "owned d' = {}"
    if "map_of (sc_managed (schedule v key db s')) k' = Some d'" "ec_mode (md_config (sd_db d')) = ''disabled''"
      "\<And>k2 d2. map_of (sc_managed s') k2 = Some d2 \<Longrightarrow> ec_mode (md_config (sd_db d2)) = ''disabled'' \<Longrightarrow> owned d2 = {}"
    for v key db s' k' d'
  proof -
    obtain xs :: "cron_entry list" and d2 where x: "sc_managed (schedule v key db s') = map_set key d2 (sc_managed s')" "sd_db d2 = db"
      "owned d2 = set (map ce_id xs)" "map (\<lambda>x. (ce_spec x, ce_job x)) xs = filter (\<lambda>(spec, _). v spec) (wanted_jobs db)"
      by (rule schedule_owns[of v key db s'])
    show ?thesis
    proof (cases "k' = key")
      case True
      then have "d' = d2" using that(1) x(1) by simp
      then have "wanted_jobs db = []" using that(2) x(2) by (simp add: wanted_jobs_def Let_def)
      then show ?thesis using x(3,4) \<open>d' = d2\<close> by simp
    next
      case False
      then show ?thesis using that x(1) by simp
    qed
  qed
  have reg: "owned d' = {}"
    if "map_of (sc_managed (register v key db s)) k' = Some d'" "ec_mode (md_config (sd_db d')) = ''disabled''" for v key db k' d'
  proof (cases "map_of (sc_managed s) key")
    case None
    then show ?thesis using sched[of v key db s k' d'] that op_step.IH by (simp add: register_def)
  next
    case (Some d0)
    show ?thesis
    proof (cases "same_schedule (md_config (sd_db d0)) (md_config db)")
      case False
      then show ?thesis using sched[of v key db "deregister key s" k' d'] that Some dereg by (simp add: register_def)
    next
      case True
      show ?thesis
      proof (cases "k' = key")
        case True
        then have "d' = d0\<lparr> sd_db := db \<rparr>" using that(1) Some \<open>same_schedule _ _\<close> by (simp add: register_def)
        moreover from this have "ec_mode (md_config (sd_db d0)) = ''disabled''"
          using that(2) \<open>same_schedule _ _\<close> by (simp add: same_schedule_def)
        moreover have "owned (d0\<lparr> sd_db := db \<rparr>) = owned d0" by (simp add: owned_def)
        ultimately show ?thesis using op_step.IH[OF Some] by simp
      next
        case False
        then show ?thesis using that Some True op_step.IH by (simp add: register_def)
      qed
    qed
  qed
  show ?case
  proof (cases "snd (reconcile e q s) = s")
    case True
    then show ?thesis using op_step.prems op_step.IH by simp
  next
    case False
    then consider key where "snd (reconcile e q s) = deregister key s" | v key db where "snd (reconcile e q s) = register v key db s"
      by (rule reconcile_steps)
    then show ?thesis using op_step.prems dereg reg by cases (metis, metis)
  qed
qed

definition left_alone :: "reconcile_env \<Rightarrow> bool" where
  "left_alone e \<longleftrightarrow>
     (case oe_object e of
        NotFound \<Rightarrow> False
      | LookupFailed \<Rightarrow> True
      | Found ann \<Rightarrow>
          map_get [] ann (clinic ''policy'') \<noteq> [] \<and> map_get [] ann (clinic ''exclude'') \<noteq> ''true'' \<and>
          (case oe_policy e (map_get [] ann (clinic ''policy'')) of Found _ \<Rightarrow> False | _ \<Rightarrow> True))"

text \<open>C34: After the reconciliation of a database that is gone, names no policy, is excluded, or whose policy was
  read and whose mode is disabled, no entry runs a job for it.  When the database or the policy it names could not
  be read, a deleted policy included, the schedule stays as it was, also for a database annotated as disabled.\<close>

theorem opted_out_is_unscheduled:
  "if operator_state s
   then (if opted_out e
         then list_all (\<lambda>x. job_key (ce_job x) \<noteq> request_key q) (sc_entries (snd (reconcile e q s)))
         else if left_alone e then snd (reconcile e q s) = s else True)
   else True"
proof -
  have kept: "snd (reconcile e q s) = s" if "left_alone e"
    using that by (auto simp: left_alone_def reconcile_def Let_def split: lookup.splits if_splits)
  have "job_key (ce_job x) \<noteq> request_key q"
    if h: "operator_state s" "opted_out e" "x \<in> set (sc_entries (snd (reconcile e q s)))" for x
  proof -
    note ok = operator_ok[OF h(1)]
    note d = deregister_ok(3)[OF ok]
    have r: "x \<in> set (sc_entries (register v key db s)) \<Longrightarrow> own_key db = key \<Longrightarrow> ec_mode (md_config db) = ''disabled'' \<Longrightarrow>
        job_key (ce_job x) \<noteq> key" for v key db
      using register_disabled[OF ok] disabled_owns_nothing[OF h(1)] by blast
    show ?thesis using h(2,3) d r
      by (cases "oe_object e") (auto simp: reconcile_def Let_def opted_out_def request_key_def own_key_def split: lookup.splits if_splits)
  qed
  then show ?thesis using kept by (simp add: list_all_iff)
qed

text \<open>A reconciliation that changes the schedules, the mode or the repositories leaves for the database
  exactly the wanted entries whose schedule the cron library accepts.\<close>

theorem registered_jobs_are_wanted:
  "if operator_state s \<and> own_key db = key \<and>
      (case map_of (sc_managed s) key of None \<Rightarrow> True | Some d \<Rightarrow> \<not> same_schedule (md_config (sd_db d)) (md_config db))
   then map (\<lambda>x. (ce_spec x, ce_job x)) (filter (\<lambda>x. job_key (ce_job x) = key) (sc_entries (register valid key db s))) =
     filter (\<lambda>(spec, _). valid spec) (wanted_jobs db)
   else True"
proof -
  have "map (\<lambda>x. (ce_spec x, ce_job x)) (filter (\<lambda>x. job_key (ce_job x) = key) (sc_entries (register valid key db s))) =
     filter (\<lambda>(spec, _). valid spec) (wanted_jobs db)"
    if h: "operator_state s" "own_key db = key"
      "case map_of (sc_managed s) key of None \<Rightarrow> True | Some d \<Rightarrow> \<not> same_schedule (md_config (sd_db d)) (md_config db)"
  proof (cases "map_of (sc_managed s) key")
    case None
    then show ?thesis using schedule_ok(2)[OF operator_ok[OF h(1)] None h(2)] by (simp add: register_def)
  next
    case (Some d)
    then show ?thesis using schedule_ok(2)[OF deregister_ok(1,2)[OF operator_ok[OF h(1)]] h(2)] h(3) by (simp add: register_def)
  qed
  then show ?thesis by simp
qed

text \<open>A change of the timeouts alone never reaches the jobs: the registered database is the new one, the
  entries keep calling the functions that captured the old one, and what these run has the old timeouts.\<close>

definition job_db :: "cron_job \<Rightarrow> managed_db" where
  "job_db j = (case j of BackupJob db _ \<Rightarrow> db | TriageJob db \<Rightarrow> db)"

definition action_conf :: "job_action \<Rightarrow> engine_conf option" where
  "action_conf a = (case a of RunBackup c \<Rightarrow> Some c | RunTriage c \<Rightarrow> Some c | RunRepair c \<Rightarrow> Some c | Annotate _ \<Rightarrow> None)"

lemma job_timeouts:
  "a \<in> set (run_entry e j) \<Longrightarrow> action_conf a = Some c \<Longrightarrow>
   en_heal c = ec_heal (md_config (job_db j)) \<and> en_delete c = ec_delete (md_config (job_db j)) \<and> \<not> en_force c \<and> \<not> en_no_escrow c"
  by (cases j) (auto simp: run_entry_def run_backup_def run_triage_def auto_repair_def Let_def action_conf_def job_db_def job_conf_def
      split: sum.splits option.splits if_splits list.splits prod.splits)

theorem changed_timeouts_never_run:
  "if map_of (sc_managed s) key = Some d \<and> same_schedule (md_config (sd_db d)) (md_config db)
   then sc_entries (register valid key db s) = sc_entries s \<and>
     map_option sd_db (map_of (sc_managed (register valid key db s)) key) = Some db \<and>
     list_all (\<lambda>x. list_all (\<lambda>a. case action_conf a of None \<Rightarrow> True
        | Some c \<Rightarrow> en_heal c = ec_heal (md_config (job_db (ce_job x))) \<and> en_delete c = ec_delete (md_config (job_db (ce_job x))))
        (run_entry e (ce_job x))) (sc_entries (register valid key db s))
   else True"
  using job_timeouts by (fastforce simp: register_def list_all_iff split: option.split)

text \<open>Deleting the policy, or failing to read it, leaves the database scheduled as it was.\<close>

lemma lost_policy_keeps_schedule:
  assumes "oe_object e = Found ann" "map_get [] ann (clinic ''policy'') \<noteq> []" "map_get [] ann (clinic ''exclude'') \<noteq> ''true''"
    and "oe_policy e (map_get [] ann (clinic ''policy'')) = NotFound"
  shows "snd (reconcile e q s) = s"
  using assms by (simp add: reconcile_def Let_def)

text \<open>C35: A repair is started only by the triage job of a database in repair mode, after a triage that found fewer
  instances ready than expected and no split brain, with a repository whose credentials were read, and
  never forced or without escrow.\<close>

theorem auto_repair_is_guarded:
  "if RunRepair c \<in> set (run_entry e j)
   then \<exists>db t path pw env repo. j = TriageJob db \<and> ec_mode (md_config db) = ''repair'' \<and>
     jv_triage e (job_conf db ''triage'' [] [] []) = Ok t \<and> tr_ready t < tr_total t \<and>
     (dc_safe_to_heal (tr_comparison t) \<or> dc_split_brain (tr_comparison t) = []) \<and>
     ec_repositories (md_config db) \<noteq> [] \<and> repo = hd (ec_repositories (md_config db)) \<and>
     repo_credentials (jv_repo_of e) (jv_secret_of e) repo = Ok (path, pw, env) \<and>
     c = job_conf db ''repair'' path pw ''dump'' \<and> \<not> en_force c \<and> \<not> en_no_escrow c
   else True"
proof (cases j)
  case (BackupJob db repo)
  then show ?thesis by (auto simp: run_entry_def run_backup_def Let_def split: sum.split option.split)
next
  case (TriageJob db)
  show ?thesis
  proof (cases "RunRepair c \<in> set (run_entry e j)")
    case True
    then obtain t where t: "jv_triage e (job_conf db ''triage'' [] [] []) = Ok t" "ec_mode (md_config db) = ''repair''"
      "triage_status t = ''unhealthy''" "RunRepair c \<in> set (auto_repair e db)"
      using TriageJob by (auto simp: run_entry_def run_triage_def Let_def split: sum.splits if_splits)
    obtain repo rs where r: "ec_repositories (md_config db) = repo # rs" using t(4) by (cases "ec_repositories (md_config db)") (simp_all add: auto_repair_def)
    obtain path pw env where p: "repo_credentials (jv_repo_of e) (jv_secret_of e) repo = Ok (path, pw, env)"
      using t(4) r by (cases "repo_credentials (jv_repo_of e) (jv_secret_of e) repo") (auto simp: auto_repair_def)
    have "c = job_conf db ''repair'' path pw ''dump''" using t(4) r p by (auto simp: auto_repair_def Let_def split: if_splits)
    moreover have "tr_ready t < tr_total t" "dc_safe_to_heal (tr_comparison t) \<or> dc_split_brain (tr_comparison t) = []"
      using t(3) by (auto simp: triage_status_def split: if_splits)
    ultimately show ?thesis using True TriageJob t(1,2) r p by (simp add: job_conf_def)
  qed simp
qed

end
