(* ===== verification/Helper_Pod.thy ===== *)
theory Helper_Pod
  imports Go_Strings Galera_Data Repair_Run
begin

text \<open>
  Helper pods (\<open>src/k8s/helperpod.go\<close>, \<open>readiness.go\<close>, \<open>pods.go\<close>): the builder with its hardening and mesh
  exemption, the description of a pod that makes no progress, the readiness helpers and waits; the pods
  the engines build by hand; and the Galera provider's helper runs (\<open>src/engine/provider/galera_ops.go\<close>).
  Labels and annotations are association lists; a pointer field is an option.
\<close>

section \<open>Pods\<close>

datatype volume = ClaimVolume string | SecretVolume string "string list" | ScratchVolume int

record volume_mount =
  vm_volume :: string
  vm_path :: string
  vm_read_only :: bool

record container_security =
  cs_escalation :: "bool option"
  cs_drop :: "string list"
  cs_add :: "string list"
  cs_read_only_root :: "bool option"

record kube_container =
  kc_name :: string
  kc_image :: string
  kc_command :: "string list"
  kc_mounts :: "volume_mount list"
  kc_security :: "container_security option"

record pod_security =
  ps_user :: "int option"
  ps_group :: "int option"
  ps_fs_group :: "int option"
  ps_seccomp :: "string option"
  ps_non_root :: "bool option"

record pod_condition =
  pc_type :: string
  pc_status :: string
  pc_reason :: string
  pc_message :: string

record container_status =
  st_name :: string
  st_ready :: bool
  st_waiting :: "(string \<times> string) option"

record kube_pod =
  kp_name :: string
  kp_namespace :: string
  kp_labels :: "(string \<times> string) list"
  kp_annotations :: "(string \<times> string) list"
  kp_restart :: string
  kp_account :: string
  kp_node :: string
  kp_selector :: "(string \<times> string) list"
  kp_deadline :: "int option"
  kp_security :: "pod_security option"
  kp_containers :: "kube_container list"
  kp_volumes :: "(string \<times> volume) list"
  kp_phase :: string
  kp_conditions :: "pod_condition list"
  kp_statuses :: "container_status list"

section \<open>The builder\<close>

definition istio_key :: string where "istio_key = ''sidecar.istio.io/inject''"
definition except_non_root :: string where "except_non_root = ''policy.prplanit.com/except-non-root''"
definition except_ro_rootfs :: string where "except_ro_rootfs = ''policy.prplanit.com/except-ro-rootfs''"

definition disable_istio :: "kube_pod \<Rightarrow> kube_pod" where
  "disable_istio p = p\<lparr> kp_labels := map_set istio_key ''false'' (kp_labels p),
                        kp_annotations := map_set istio_key ''false'' (kp_annotations p) \<rparr>"

record helper_hardening =
  hh_root :: bool
  hh_writable :: bool

definition no_container_security :: container_security where
  "no_container_security = \<lparr> cs_escalation = None, cs_drop = [], cs_add = [], cs_read_only_root = None \<rparr>"

definition no_pod_security :: pod_security where
  "no_pod_security = \<lparr> ps_user = None, ps_group = None, ps_fs_group = None, ps_seccomp = None, ps_non_root = None \<rparr>"

definition harden_container :: "helper_hardening \<Rightarrow> kube_container \<Rightarrow> kube_container" where
  "harden_container h c =
     (let s = (case kc_security c of None \<Rightarrow> no_container_security | Some s \<Rightarrow> s) in
      c\<lparr> kc_security := Some (s\<lparr> cs_escalation := Some False, cs_drop := [''ALL''],
            cs_add := (if hh_root h then [''DAC_OVERRIDE''] else []),
            cs_read_only_root := (if hh_writable h then cs_read_only_root s else Some True) \<rparr>) \<rparr>)"

definition harden_pod :: "helper_hardening \<Rightarrow> pod_security option \<Rightarrow> pod_security" where
  "harden_pod h so =
     (let s = (case so of None \<Rightarrow> no_pod_security | Some s \<Rightarrow> s) in
      s\<lparr> ps_seccomp := Some ''RuntimeDefault'', ps_non_root := (if hh_root h then ps_non_root s else Some True) \<rparr>)"

definition except_labels :: "helper_hardening \<Rightarrow> (string \<times> string) list \<Rightarrow> (string \<times> string) list" where
  "except_labels h ls =
     (let ls1 = (if hh_root h then map_set except_non_root ''true'' ls else ls)
      in if hh_writable h then map_set except_ro_rootfs ''true'' ls1 else ls1)"

definition apply_hardening :: "kube_pod \<Rightarrow> helper_hardening \<Rightarrow> kube_pod" where
  "apply_hardening p h = p\<lparr> kp_security := Some (harden_pod h (kp_security p)),
     kp_containers := map (harden_container h) (kp_containers p), kp_labels := except_labels h (kp_labels p) \<rparr>"

record helper_opts =
  ho_name :: string
  ho_namespace :: string
  ho_image :: string
  ho_command :: "string list"
  ho_account :: string
  ho_claim :: string
  ho_mount :: string
  ho_read_only :: bool
  ho_user :: "int option"
  ho_group :: "int option"
  ho_fs_group :: "int option"
  ho_node :: string
  ho_labels :: "(string \<times> string) list"
  ho_deadline :: int
  ho_hardening :: helper_hardening

text \<open>A pod as a caller fills it in; it has no status yet.\<close>

definition new_pod :: "string \<Rightarrow> string \<Rightarrow> (string \<times> string) list \<Rightarrow> string \<Rightarrow> pod_security option \<Rightarrow> kube_container \<Rightarrow>
    (string \<times> volume) list \<Rightarrow> kube_pod" where
  "new_pod name ns labels account sec c vols =
     \<lparr> kp_name = name, kp_namespace = ns, kp_labels = labels, kp_annotations = [], kp_restart = ''Never'',
        kp_account = account, kp_node = [], kp_selector = [], kp_deadline = None, kp_security = sec,
        kp_containers = [c], kp_volumes = vols, kp_phase = [], kp_conditions = [], kp_statuses = [] \<rparr>"

definition new_container :: "string \<Rightarrow> string \<Rightarrow> string list \<Rightarrow> volume_mount list \<Rightarrow> kube_container" where
  "new_container name img cmd mounts =
     \<lparr> kc_name = name, kc_image = img, kc_command = cmd, kc_mounts = mounts, kc_security = None \<rparr>"

definition run_as :: "int option \<Rightarrow> int option \<Rightarrow> int option \<Rightarrow> pod_security" where
  "run_as u g f = no_pod_security\<lparr> ps_user := u, ps_group := g, ps_fs_group := f \<rparr>"

definition mounted :: "string \<Rightarrow> string \<Rightarrow> bool \<Rightarrow> volume_mount" where
  "mounted v path ro = \<lparr> vm_volume = v, vm_path = path, vm_read_only = ro \<rparr>"

text \<open>Go copies the label map; a list without duplicate keys is such a map already.\<close>

definition build_helper_pod :: "helper_opts \<Rightarrow> kube_pod" where
  "build_helper_pod o' =
     (let p = new_pod (ho_name o') (ho_namespace o') (ho_labels o') (ho_account o')
                (if ho_user o' \<noteq> None \<or> ho_group o' \<noteq> None \<or> ho_fs_group o' \<noteq> None
                 then Some (run_as (ho_user o') (ho_group o') (ho_fs_group o')) else None)
                (new_container ''helper'' (ho_image o') (ho_command o') [mounted ''pvc'' (ho_mount o') (ho_read_only o')])
                [(''pvc'', ClaimVolume (ho_claim o'))]
      in apply_hardening (disable_istio (p\<lparr> kp_deadline := (if ho_deadline o' > 0 then Some (ho_deadline o') else None),
           kp_selector := (if ho_node o' \<noteq> [] then [(''kubernetes.io/hostname'', ho_node o')] else []) \<rparr>)) (ho_hardening o'))"

section \<open>Progress\<close>

definition refused_condition :: "pod_condition \<Rightarrow> bool" where
  "refused_condition c \<longleftrightarrow> pc_type c = ''PodScheduled'' \<and> pc_status c = ''False''"

definition pod_unschedulable :: "kube_pod option \<Rightarrow> bool" where
  "pod_unschedulable po = (case po of None \<Rightarrow> False | Some p \<Rightarrow> list_ex refused_condition (kp_conditions p))"

definition with_message :: "string \<Rightarrow> string \<Rightarrow> string \<Rightarrow> string" where
  "with_message what reason msg =
     (let m = trim_space msg in
      if m \<noteq> [] then what @ '' ('' @ reason @ ''): '' @ m else what @ '' ('' @ reason @ '')'')"

definition wedged :: "container_status \<Rightarrow> bool" where
  "wedged s = (case st_waiting s of None \<Rightarrow> False
     | Some (reason, _) \<Rightarrow> reason \<notin> set ['''', ''ContainerCreating'', ''PodInitializing''])"

definition pending_text :: string where
  "pending_text = ''pending (not yet running '' @ em_dash @ '' scheduling or volume attach in progress)''"

definition describe_scheduling :: "kube_pod option \<Rightarrow> string" where
  "describe_scheduling po =
     (case po of
        None \<Rightarrow> ''''
      | Some p \<Rightarrow>
          (case find_first refused_condition (kp_conditions p) of
             Some c \<Rightarrow> with_message ''unschedulable'' (if pc_reason c = [] then ''Unschedulable'' else pc_reason c) (pc_message c)
           | None \<Rightarrow>
               (case find_first wedged (kp_statuses p) of
                  Some s \<Rightarrow> (case st_waiting s of None \<Rightarrow> '''' | Some (reason, msg) \<Rightarrow> with_message ''container waiting'' reason msg)
                | None \<Rightarrow> if kp_phase p = ''Pending'' then pending_text else '''')))"

text \<open>Readiness is judged by the container's name; the status list has an order of its own.\<close>

definition container_status_by_name :: "kube_pod \<Rightarrow> string \<Rightarrow> container_status option" where
  "container_status_by_name p name = find_first (\<lambda>s. st_name s = name) (kp_statuses p)"

definition container_ready_by_name :: "kube_pod \<Rightarrow> string \<Rightarrow> bool" where
  "container_ready_by_name p name = (case container_status_by_name p name of None \<Rightarrow> False | Some s \<Rightarrow> st_ready s)"

definition kube_pod_ready :: "kube_pod \<Rightarrow> string \<Rightarrow> bool" where
  "kube_pod_ready p name \<longleftrightarrow> kp_phase p = ''Running'' \<and> container_ready_by_name p name"

text \<open>The answer to reading a pod, and the three waits of \<open>pods.go\<close>.\<close>

datatype pod_answer = PodIs kube_pod | PodNotFound | PodUnread

definition wait_for_pod_gone :: "(nat \<Rightarrow> pod_answer) \<Rightarrow> nat \<Rightarrow> bool" where
  "wait_for_pod_gone get attempts = poll_until (\<lambda>i. get i = PodNotFound) 0 attempts"

definition find_ready_pod :: "(string, kube_pod list) result \<Rightarrow> string \<Rightarrow> (string, string) result" where
  "find_ready_pod pods container =
     (case pods of
        Inl err \<Rightarrow> Err (''failed to list pods: '' @ err)
      | Inr ps \<Rightarrow> (case find_first (\<lambda>p. kube_pod_ready p container) ps of
                    Some p \<Rightarrow> Ok (kp_name p) | None \<Rightarrow> Err ''no ready pod found''))"

definition ready_count :: "kube_pod list \<Rightarrow> string \<Rightarrow> nat" where
  "ready_count ps container = length (filter (\<lambda>p. kube_pod_ready p container) ps)"

definition wait_all_ready :: "(nat \<Rightarrow> (string, kube_pod list) result) \<Rightarrow> string \<Rightarrow> int \<Rightarrow> nat \<Rightarrow> bool" where
  "wait_all_ready pods container expected attempts =
     poll_until (\<lambda>i. case pods i of Inl _ \<Rightarrow> False | Inr ps \<Rightarrow> int (ready_count ps container) = expected) 0 attempts"

definition service_account_from_pods :: "kube_pod list \<Rightarrow> string" where
  "service_account_from_pods ps = (case find_first (\<lambda>p. kp_account p \<noteq> []) ps of None \<Rightarrow> ''default'' | Some p \<Rightarrow> kp_account p)"

definition pod_claims :: "kube_pod \<Rightarrow> string list" where
  "pod_claims p = concat (map (\<lambda>(_, v). case v of ClaimVolume c \<Rightarrow> [c] | _ \<Rightarrow> []) (kp_volumes p))"

definition node_holding_pvc :: "(string, kube_pod list) result \<Rightarrow> string \<Rightarrow> string" where
  "node_holding_pvc pods pvc =
     (case pods of
        Inl _ \<Rightarrow> ''''
      | Inr ps \<Rightarrow> (case find_first (\<lambda>p. kp_node p \<noteq> [] \<and> pvc \<in> set (pod_claims p)) ps of
                    None \<Rightarrow> '''' | Some p \<Rightarrow> kp_node p))"

section \<open>The pods of the engines\<close>

definition pgdata_path :: string where "pgdata_path = ''/var/lib/postgresql/data''"
definition mysql_path :: string where "mysql_path = ''/var/lib/mysql''"
definition busybox :: string where "busybox = ''docker.io/library/busybox:latest''"

text \<open>Built: triage's probe and deep recovery, the Galera recovery, and the Galera helper.\<close>

definition probe_pod :: "string \<Rightarrow> string \<Rightarrow> string \<Rightarrow> string \<Rightarrow> string \<Rightarrow> string list \<Rightarrow> kube_pod" where
  "probe_pod name ns img sa node cmd = build_helper_pod
     \<lparr> ho_name = name @ ''-triage-probe'', ho_namespace = ns, ho_image = img, ho_command = cmd, ho_account = sa,
        ho_claim = name, ho_mount = pgdata_path, ho_read_only = True, ho_user = Some 26, ho_group = Some 26,
        ho_fs_group = Some 26, ho_node = node, ho_labels = [(''cnpg-triage'', ''probe'')], ho_deadline = 0,
        ho_hardening = \<lparr> hh_root = False, hh_writable = False \<rparr> \<rparr>"

definition deep_recover_pod :: "string \<Rightarrow> string \<Rightarrow> string \<Rightarrow> string \<Rightarrow> kube_pod" where
  "deep_recover_pod name ns img sa = build_helper_pod
     \<lparr> ho_name = name @ ''-triage-deeprecover'', ho_namespace = ns, ho_image = img,
        ho_command = [''sh'', ''-c'', ''sleep infinity''], ho_account = sa,
        ho_claim = name, ho_mount = pgdata_path, ho_read_only = True, ho_user = Some 26, ho_group = Some 26,
        ho_fs_group = Some 26, ho_node = [], ho_labels = [(''cnpg-triage'', ''deep-recover'')], ho_deadline = 0,
        ho_hardening = \<lparr> hh_root = False, hh_writable = False \<rparr> \<rparr>"

definition wsrep_recover_command :: "string \<Rightarrow> string" where
  "wsrep_recover_command so = ''mariadbd --wsrep-recover --datadir=/var/lib/mysql --wsrep-on=ON --wsrep-provider='' @ so @
     '' --wsrep-cluster-address=gcomm:// --binlog-format=ROW --log-error-verbosity=3 2>&1; exit 0''"

definition wsrep_pod :: "string \<Rightarrow> string \<Rightarrow> string \<Rightarrow> string \<Rightarrow> string \<Rightarrow> kube_pod" where
  "wsrep_pod helper ns img sa pod = build_helper_pod
     \<lparr> ho_name = helper, ho_namespace = ns, ho_image = img,
        ho_command = [''sh'', ''-c'', wsrep_recover_command ''/usr/lib/galera/libgalera_smm.so''], ho_account = sa,
        ho_claim = ''storage-'' @ pod, ho_mount = mysql_path, ho_read_only = False, ho_user = Some 999, ho_group = Some 999,
        ho_fs_group = Some 999, ho_node = [], ho_labels = [(''hasteward'', ''heal-helper'')], ho_deadline = 150,
        ho_hardening = \<lparr> hh_root = False, hh_writable = True \<rparr> \<rparr>"

record helper_spec =
  hs_name :: string
  hs_claim :: string
  hs_mount :: string
  hs_command :: "string list"
  hs_account :: string
  hs_read_only :: bool
  hs_node :: string
  hs_labels :: "(string \<times> string) list option"

definition spec_pod :: "string \<Rightarrow> helper_spec \<Rightarrow> kube_pod" where
  "spec_pod ns s = build_helper_pod
     \<lparr> ho_name = hs_name s, ho_namespace = ns, ho_image = busybox, ho_command = hs_command s, ho_account = hs_account s,
        ho_claim = hs_claim s, ho_mount = hs_mount s, ho_read_only = hs_read_only s, ho_user = Some 0, ho_group = None,
        ho_fs_group = None, ho_node = hs_node s,
        ho_labels = (case hs_labels s of None \<Rightarrow> [(''hasteward'', ''heal-helper'')] | Some l \<Rightarrow> l), ho_deadline = 0,
        ho_hardening = \<lparr> hh_root = True, hh_writable = True \<rparr> \<rparr>"

text \<open>Filled in by hand: the escrow's reader, the deadlock breaker's clearer, the reseed, the two WAL helpers,
  and the reset's helper.  Scripts are parameters here; what they do is modelled with their verbs.\<close>

definition one_claim :: "string \<Rightarrow> string \<Rightarrow> (string \<times> volume) list" where
  "one_claim v pvc = [(v, ClaimVolume pvc)]"

definition escrow_pod :: "string \<Rightarrow> string \<Rightarrow> string \<Rightarrow> string \<Rightarrow> string \<Rightarrow> kube_pod" where
  "escrow_pod helper ns sa node pvc = apply_hardening
     (new_pod helper ns [(''hasteward'', ''escrow-helper'')] sa (Some (run_as (Some 0) None None))
        (new_container ''escrow'' busybox [''sleep'', ''3600''] [mounted ''data'' ''/escrow-data'' True])
        (one_claim ''data'' pvc)\<lparr> kp_node := node \<rparr>)
     \<lparr> hh_root = True, hh_writable = False \<rparr>"

definition clear_pod :: "string \<Rightarrow> string \<Rightarrow> string \<Rightarrow> int \<Rightarrow> int \<Rightarrow> string \<Rightarrow> string \<Rightarrow> string \<Rightarrow> kube_pod" where
  "clear_pod name ns sa uid gid img script pvc = apply_hardening
     (new_pod name ns [(''hasteward'', ''unwedge-clear'')] sa (Some (run_as (Some uid) (Some gid) (Some gid)))
        (new_container ''clearer'' img [''sh'', ''-c'', script] [mounted ''pgdata'' pgdata_path False])
        (one_claim ''pgdata'' pvc))
     \<lparr> hh_root = False, hh_writable = False \<rparr>"

definition heal_pod ::
  "string \<Rightarrow> string \<Rightarrow> string \<Rightarrow> string \<Rightarrow> int \<Rightarrow> int \<Rightarrow> string \<Rightarrow> string \<Rightarrow> string \<Rightarrow> string \<Rightarrow> string \<Rightarrow> kube_pod" where
  "heal_pod name ns cluster sa uid gid img script pvc ca repl = apply_hardening
     (new_pod name ns [(''cnpg.io/cluster'', cluster), (''hasteward'', ''heal-helper'')] sa
        (Some (run_as (Some uid) (Some gid) (Some gid)))
        (new_container ''healer'' img [''sh'', ''-c'', script]
           [mounted ''pgdata'' pgdata_path False, mounted ''ca-certs'' ''/certs/ca'' True,
            mounted ''replication-certs'' ''/certs/replication'' True])
        (one_claim ''pgdata'' pvc @ [(''ca-certs'', SecretVolume ca [''ca.crt'']),
           (''replication-certs'', SecretVolume repl [''tls.crt'', ''tls.key''])]))
     \<lparr> hh_root = False, hh_writable = True \<rparr>"

definition prune_pod :: "string \<Rightarrow> string \<Rightarrow> int \<Rightarrow> int \<Rightarrow> string \<Rightarrow> string \<Rightarrow> kube_pod" where
  "prune_pod name ns uid gid img pvc = apply_hardening
     (new_pod name ns [] '''' (Some (run_as (Some uid) (Some gid) (Some gid)))
        (new_container ''wal-prune'' img [''sh'', ''-c'', ''sleep infinity''] [mounted ''pgdata'' pgdata_path False])
        (one_claim ''pgdata'' pvc))
     \<lparr> hh_root = False, hh_writable = True \<rparr>"

definition rehab_pod :: "string \<Rightarrow> string \<Rightarrow> string \<Rightarrow> string \<Rightarrow> string \<Rightarrow> int \<Rightarrow> kube_pod" where
  "rehab_pod name ns sa img pvc size' = apply_hardening
     (new_pod name ns [(''hasteward'', ''deadlock-recover'')] sa (Some (run_as (Some 26) (Some 26) (Some 26)))
        (new_container ''rehab'' img [''sh'', ''-c'', ''sleep infinity'']
           [mounted ''pgdata'' pgdata_path False, mounted ''scratch'' ''/scratch'' False])
        (one_claim ''pgdata'' pvc @ [(''scratch'', ScratchVolume size')])
      \<lparr> kp_annotations := [(istio_key, ''false'')] \<rparr>)
     \<lparr> hh_root = False, hh_writable = True \<rparr>"

definition reset_pod :: "string \<Rightarrow> string \<Rightarrow> string \<Rightarrow> string \<Rightarrow> string \<Rightarrow> string \<Rightarrow> kube_pod" where
  "reset_pod name ns sa pvc path script = apply_hardening
     (new_pod name ns [(''hasteward'', ''reconfigure-helper'')] sa (Some (run_as (Some 0) None None))
        (new_container ''reconfigure'' busybox [''sh'', ''-c'', script] [mounted ''data'' path False])
        (one_claim ''data'' pvc))
     \<lparr> hh_root = True, hh_writable = True \<rparr>"

section \<open>Running a helper\<close>

text \<open>The helpers that exist, by name.  \<open>rn_poll\<close> is the answer of each poll, \<open>rn_logs\<close> what the log request
  gives (nothing on an error).\<close>

record helper_run_env =
  rn_create :: outcome
  rn_create_error :: string
  rn_poll :: "nat \<Rightarrow> kube_pod option"
  rn_logs :: string
  rn_delete :: outcome

fun await_helper :: "(nat \<Rightarrow> kube_pod option) \<Rightarrow> kube_pod option \<Rightarrow> nat \<Rightarrow> nat \<Rightarrow> (kube_pod option, bool) result" where
  "await_helper poll seen i 0 = Err seen"
| "await_helper poll seen i (Suc k) =
     (case poll i of
        None \<Rightarrow> await_helper poll seen (Suc i) k
      | Some p \<Rightarrow>
          if kp_phase p = ''Succeeded'' then Ok True
          else if kp_phase p = ''Failed'' then Ok False
          else await_helper poll (Some p) (Suc i) k)"

definition create_helper :: "string \<Rightarrow> string list \<Rightarrow> string list" where
  "create_helper n ps = n # ps"

definition delete_helper :: "string \<Rightarrow> string list \<Rightarrow> string list" where
  "delete_helper n ps = removeAll n ps"

definition no_progress :: "string \<Rightarrow> kube_pod option \<Rightarrow> string" where
  "no_progress name seen =
     (let d = describe_scheduling seen in
      if d \<noteq> [] then ''helper pod '' @ name @ '' did not complete '' @ em_dash @ '' '' @ d
      else ''helper pod '' @ name @ '' timed out'')"

definition run_helper_pod_spec :: "helper_run_env \<Rightarrow> string \<Rightarrow> string list \<Rightarrow> (string, string \<times> bool) result \<times> string list" where
  "run_helper_pod_spec e name ps =
     (case call (rn_create e) (create_helper name) ps of
        (False, ps1) \<Rightarrow> (Err (''failed to create helper pod '' @ name @ '': '' @ rn_create_error e), ps1)
      | (True, ps1) \<Rightarrow>
          let ps2 = snd (call (rn_delete e) (delete_helper name) ps1) in
          (case await_helper (rn_poll e) None 0 30 of
             Inr ok \<Rightarrow> (Ok (rn_logs e, ok), ps2)
           | Inl seen \<Rightarrow> (Err (no_progress name seen), ps2)))"

definition run_helper_pod :: "helper_run_env \<Rightarrow> string \<Rightarrow> string list \<Rightarrow> string option \<times> string list" where
  "run_helper_pod e name ps =
     (case run_helper_pod_spec e name ps of
        (Inl err, ps1) \<Rightarrow> (Some err, ps1)
      | (Inr (_, ok), ps1) \<Rightarrow> (if ok then None else Some (''helper pod '' @ name @ '' failed''), ps1))"

text \<open>The recovery of a Galera position: the image comes first, a finished helper without output counts as
  a timeout and is deleted twice.\<close>


datatype wsrep_run_error = NoImage | WsrepCreateFailed string | WsrepStuck string | WsrepSilent | WsrepUnusable recover_error

definition run_wsrep_recover :: "helper_run_env \<Rightarrow> string \<Rightarrow> string \<Rightarrow> string list \<Rightarrow>
    (wsrep_run_error, wsrep_recover_result) result \<times> string list" where
  "run_wsrep_recover e img name ps =
     (if img = [] then (Err NoImage, ps)
      else (case call (rn_create e) (create_helper name) ps of
              (False, ps1) \<Rightarrow> (Err (WsrepCreateFailed (rn_create_error e)), ps1)
            | (True, ps1) \<Rightarrow>
                let ps2 = snd (call (rn_delete e) (delete_helper name) ps1);
                    seen = await_helper (rn_poll e) None 0 30 in
                (case seen of
                   Inr _ \<Rightarrow>
                     if rn_logs e \<noteq> [] then
                       (case parse_wsrep_recover (rn_logs e) of Inl err \<Rightarrow> (Err (WsrepUnusable err), ps2) | Inr r \<Rightarrow> (Ok r, ps2))
                     else (Err WsrepSilent, snd (call (rn_delete e) (delete_helper name) ps2))
                 | Inl p \<Rightarrow>
                     (Err (if describe_scheduling p \<noteq> [] then WsrepStuck (describe_scheduling p) else WsrepSilent), ps2))))"

section \<open>Admission\<close>

text \<open>The cluster's admission policy, as the source states it: every container drops all capabilities, forbids
  escalation and has a read-only root unless the pod carries the exception; the pod has the runtime's
  seccomp profile and is not root unless it carries the exception.\<close>

definition admitted :: "kube_pod \<Rightarrow> bool" where
  "admitted p \<longleftrightarrow>
     list_all (\<lambda>c. case kc_security c of None \<Rightarrow> False
        | Some s \<Rightarrow> ''ALL'' \<in> set (cs_drop s) \<and> cs_escalation s = Some False \<and>
            (cs_read_only_root s = Some True \<or> map_of (kp_labels p) except_ro_rootfs = Some ''true'')) (kp_containers p) \<and>
     (case kp_security p of None \<Rightarrow> False
      | Some s \<Rightarrow> ps_seccomp s = Some ''RuntimeDefault'' \<and>
          (ps_non_root s = Some True \<or> map_of (kp_labels p) except_non_root = Some ''true''))"

text \<open>The kubelet does not start a pod that must not be root and runs as root.\<close>

definition startable :: "kube_pod \<Rightarrow> bool" where
  "startable p \<longleftrightarrow> (case kp_security p of None \<Rightarrow> True | Some s \<Rightarrow> \<not> (ps_non_root s = Some True \<and> ps_user s = Some 0))"

definition mesh_exempt :: "kube_pod \<Rightarrow> bool" where
  "mesh_exempt p \<longleftrightarrow> map_of (kp_labels p) istio_key = Some ''false'' \<and> map_of (kp_annotations p) istio_key = Some ''false''"

definition mounts_read_only :: "kube_pod \<Rightarrow> bool" where
  "mounts_read_only p \<longleftrightarrow> list_all (\<lambda>c. list_all vm_read_only (kc_mounts c)) (kp_containers p)"

lemma except_keys [simp]: "except_non_root \<noteq> except_ro_rootfs" "except_ro_rootfs \<noteq> except_non_root"
    "istio_key \<noteq> except_non_root" "istio_key \<noteq> except_ro_rootfs" "except_non_root \<noteq> istio_key" "except_ro_rootfs \<noteq> istio_key"
  by (simp_all add: except_non_root_def except_ro_rootfs_def istio_key_def)

lemma hardened_admitted: "admitted (apply_hardening p h)"
  by (cases h) (auto simp: admitted_def apply_hardening_def harden_container_def harden_pod_def except_labels_def Let_def list_all_iff)

lemma hardened_startable:
  "startable (apply_hardening p h) \<longleftrightarrow>
     (case kp_security p of None \<Rightarrow> True
      | Some s \<Rightarrow> if hh_root h then \<not> (ps_non_root s = Some True \<and> ps_user s = Some 0) else ps_user s \<noteq> Some 0)"
  by (auto simp: startable_def apply_hardening_def harden_pod_def Let_def no_pod_security_def split: option.split)

lemma hardened_labels:
  "map_of (kp_labels (apply_hardening p h)) istio_key = map_of (kp_labels p) istio_key"
  "kp_annotations (apply_hardening p h) = kp_annotations p"
  by (simp_all add: apply_hardening_def except_labels_def Let_def)

lemma hardened_mounts: "mounts_read_only (apply_hardening p h) = mounts_read_only p" "pod_claims (apply_hardening p h) = pod_claims p"
  by (simp_all add: mounts_read_only_def pod_claims_def apply_hardening_def harden_container_def Let_def list_all_iff)

text \<open>Hardening twice is hardening once.\<close>

lemma hardening_idempotent: "apply_hardening (apply_hardening p h) h = apply_hardening p h"
proof -
  have ms: "map_of m k = Some v \<Longrightarrow> map_set k v m = m" for k v and m :: "(string \<times> string) list"
    by (induction k v m rule: map_set.induct) (auto split: if_splits)
  show ?thesis
    by (cases h) (auto simp: apply_hardening_def harden_container_def harden_pod_def except_labels_def Let_def ms)
qed

lemma build_is_hardened: "\<exists>p. build_helper_pod o' = apply_hardening (disable_istio p) (ho_hardening o') \<and>
    pod_claims p = [ho_claim o'] \<and> mounts_read_only p = ho_read_only o' \<and> kp_labels p = ho_labels o' \<and>
    kp_security p = (if ho_user o' \<noteq> None \<or> ho_group o' \<noteq> None \<or> ho_fs_group o' \<noteq> None
                     then Some (run_as (ho_user o') (ho_group o') (ho_fs_group o')) else None)"
  unfolding build_helper_pod_def Let_def
  by (rule exI, rule conjI, rule refl)
    (simp add: new_pod_def pod_claims_def mounts_read_only_def new_container_def mounted_def)

lemma istio_disabled: "mesh_exempt (apply_hardening (disable_istio p) h)"
  by (simp add: mesh_exempt_def hardened_labels disable_istio_def)

lemma disable_istio_keeps [simp]: "pod_claims (disable_istio p) = pod_claims p" "mounts_read_only (disable_istio p) = mounts_read_only p"
    "kp_security (disable_istio p) = kp_security p"
  by (simp_all add: disable_istio_def pod_claims_def mounts_read_only_def)

text \<open>Every pod of the builder clears the admission policy, is exempt from the mesh, mounts its one claim as
  asked, keeps the caller's identity, and carries an exception exactly for what it was declared to need.\<close>

theorem built_pods_clear_admission:
  "admitted (build_helper_pod o') \<and> mesh_exempt (build_helper_pod o') \<and> pod_claims (build_helper_pod o') = [ho_claim o'] \<and>
   mounts_read_only (build_helper_pod o') = ho_read_only o' \<and>
   (startable (build_helper_pod o') \<longleftrightarrow> (if hh_root (ho_hardening o') then True else ho_user o' \<noteq> Some 0)) \<and>
   (if map_of (ho_labels o') except_non_root = None \<and> map_of (ho_labels o') except_ro_rootfs = None
    then (map_of (kp_labels (build_helper_pod o')) except_non_root = (if hh_root (ho_hardening o') then Some ''true'' else None)) \<and>
      (map_of (kp_labels (build_helper_pod o')) except_ro_rootfs = (if hh_writable (ho_hardening o') then Some ''true'' else None))
    else True) \<and>
   apply_hardening (build_helper_pod o') (ho_hardening o') = build_helper_pod o'"
proof -
  obtain p where p: "build_helper_pod o' = apply_hardening (disable_istio p) (ho_hardening o')" "pod_claims p = [ho_claim o']"
    "mounts_read_only p = ho_read_only o'" "kp_labels p = ho_labels o'"
    "kp_security p = (if ho_user o' \<noteq> None \<or> ho_group o' \<noteq> None \<or> ho_fs_group o' \<noteq> None
                     then Some (run_as (ho_user o') (ho_group o') (ho_fs_group o')) else None)"
    using build_is_hardened by blast
  have "kp_labels (build_helper_pod o') = except_labels (ho_hardening o') (map_set istio_key ''false'' (ho_labels o'))"
    by (simp add: p(1,4) apply_hardening_def disable_istio_def)
  then show ?thesis
    by (simp add: p hardened_admitted istio_disabled hardened_mounts hardened_startable hardening_idempotent except_labels_def Let_def
        run_as_def no_pod_security_def)
qed

text \<open>Every helper an engine starts clears the policy, can start, and mounts exactly the claim it is for; the
  pods that only inspect mount it read-only.\<close>

theorem engine_helpers_clear_admission:
  "if 0 < uid then
     list_all (\<lambda>p. admitted p \<and> startable p \<and> pod_claims p = [pvc])
       [probe_pod pvc ns img sa node cmd, deep_recover_pod pvc ns img sa, escrow_pod name ns sa node pvc,
        spec_pod ns (s\<lparr> hs_claim := pvc \<rparr>), clear_pod name ns sa uid gid img cmd' pvc,
        heal_pod name ns cluster sa uid gid img cmd' pvc ca repl, prune_pod name ns uid gid img pvc,
        rehab_pod name ns sa img pvc size', reset_pod name ns sa pvc path cmd'] \<and>
     list_all mounts_read_only
       [probe_pod pvc ns img sa node cmd, deep_recover_pod pvc ns img sa, escrow_pod name ns sa node pvc] \<and>
     admitted (wsrep_pod name ns img sa pod) \<and> startable (wsrep_pod name ns img sa pod) \<and>
     pod_claims (wsrep_pod name ns img sa pod) = [''storage-'' @ pod]
   else True"
proof -
  have b: "admitted (build_helper_pod o') \<and> (startable (build_helper_pod o') \<longleftrightarrow> hh_root (ho_hardening o') \<or> ho_user o' \<noteq> Some 0) \<and>
      pod_claims (build_helper_pod o') = [ho_claim o'] \<and> mounts_read_only (build_helper_pod o') = ho_read_only o'" for o'
  proof -
    obtain p where p: "build_helper_pod o' = apply_hardening (disable_istio p) (ho_hardening o')" "pod_claims p = [ho_claim o']"
      "mounts_read_only p = ho_read_only o'"
      "kp_security p = (if ho_user o' \<noteq> None \<or> ho_group o' \<noteq> None \<or> ho_fs_group o' \<noteq> None
                       then Some (run_as (ho_user o') (ho_group o') (ho_fs_group o')) else None)"
      using build_is_hardened[of o'] by blast
    show ?thesis by (simp add: p hardened_admitted hardened_mounts hardened_startable run_as_def no_pod_security_def)
  qed
  have hand: "admitted (apply_hardening (new_pod n ns l sa (Some (run_as (Some u) g f)) c v) h)"
     "startable (apply_hardening (new_pod n ns l sa (Some (run_as (Some u) g f)) c v) h) \<longleftrightarrow> hh_root h \<or> u \<noteq> 0"
     for n l sa u g f c v h
    by (simp_all add: hardened_admitted hardened_startable new_pod_def run_as_def no_pod_security_def)
  have hand2: "startable (apply_hardening (new_pod n ns l sa (Some (run_as (Some u) g f)) c v\<lparr> kp_node := x \<rparr>) h) \<longleftrightarrow> hh_root h \<or> u \<noteq> 0"
     "startable (apply_hardening (new_pod n ns l sa (Some (run_as (Some u) g f)) c v\<lparr> kp_annotations := y \<rparr>) h) \<longleftrightarrow> hh_root h \<or> u \<noteq> 0"
     for n l sa u g f c v h x y
    by (simp_all add: hardened_startable new_pod_def run_as_def no_pod_security_def)
  show ?thesis
    by (simp add: b hand hand2 hardened_admitted hardened_mounts probe_pod_def deep_recover_pod_def escrow_pod_def spec_pod_def clear_pod_def
        heal_pod_def prune_pod_def rehab_pod_def reset_pod_def wsrep_pod_def)
      (simp add: pod_claims_def mounts_read_only_def new_pod_def new_container_def mounted_def one_claim_def)
qed

text \<open>The mesh exemption the builder promises for every helper is missing on the pods filled in by hand; the
  WAL helper also names no service account.\<close>

lemma hand_built_pods_join_the_mesh:
  "\<not> mesh_exempt (clear_pod name ns sa uid gid img script pvc)" "\<not> mesh_exempt (prune_pod name ns uid gid img pvc)"
  "\<not> mesh_exempt (heal_pod name ns cluster sa uid gid img script pvc ca repl)" "\<not> mesh_exempt (reset_pod name ns sa pvc path script)"
  "\<not> mesh_exempt (escrow_pod name ns sa node pvc)" "kp_account (prune_pod name ns uid gid img pvc) = []"
  by (simp_all add: mesh_exempt_def hardened_labels clear_pod_def prune_pod_def heal_pod_def reset_pod_def escrow_pod_def new_pod_def)
    (simp add: apply_hardening_def)

section \<open>Runs\<close>

definition ended :: "kube_pod \<Rightarrow> bool" where
  "ended p \<longleftrightarrow> kp_phase p = ''Succeeded'' \<or> kp_phase p = ''Failed''"

definition quiet :: "(nat \<Rightarrow> kube_pod option) \<Rightarrow> nat \<Rightarrow> bool" where
  "quiet poll l \<longleftrightarrow> (case poll l of None \<Rightarrow> True | Some q \<Rightarrow> \<not> ended q)"

lemma quiet_step: "quiet poll i \<Longrightarrow> \<forall>l. Suc i \<le> l \<and> l < j \<longrightarrow> quiet poll l \<Longrightarrow> \<forall>l. i \<le> l \<and> l < j \<longrightarrow> quiet poll l"
  by (metis le_eq_less_or_eq Suc_leI)

lemma await_step: "quiet poll i \<Longrightarrow>
    await_helper poll seen i (Suc k) = await_helper poll (case poll i of None \<Rightarrow> seen | Some p \<Rightarrow> Some p) (Suc i) k"
  by (cases "poll i") (auto simp: quiet_def ended_def)

lemma await_stop: "\<not> quiet poll i \<Longrightarrow>
    \<exists>p. poll i = Some p \<and> await_helper poll seen i (Suc k) = Ok (kp_phase p = ''Succeeded'') \<and>
      kp_phase p = (if kp_phase p = ''Succeeded'' then ''Succeeded'' else ''Failed'')"
  by (cases "poll i") (auto simp: quiet_def ended_def)

lemma await_helper_Ok:
  "await_helper poll seen i k = Ok b \<Longrightarrow> \<exists>j p. i \<le> j \<and> j < i + k \<and> poll j = Some p \<and>
     kp_phase p = (if b then ''Succeeded'' else ''Failed'') \<and> (\<forall>l. i \<le> l \<and> l < j \<longrightarrow> quiet poll l)"
proof (induction k arbitrary: i seen)
  case (Suc k)
  show ?case
  proof (cases "quiet poll i")
    case True
    then obtain j p where j: "Suc i \<le> j \<and> j < Suc i + k \<and> poll j = Some p \<and> kp_phase p = (if b then ''Succeeded'' else ''Failed'') \<and>
       (\<forall>l. Suc i \<le> l \<and> l < j \<longrightarrow> quiet poll l)" using Suc.IH Suc.prems unfolding await_step[OF True] by blast
    then have "\<forall>l. i \<le> l \<and> l < j \<longrightarrow> quiet poll l" using quiet_step[OF True] by blast
    then show ?thesis using j by (intro exI[of _ j] exI[of _ p]) simp
  next
    case False
    obtain p where p: "poll i = Some p" "await_helper poll seen i (Suc k) = Ok (kp_phase p = ''Succeeded'')"
      "kp_phase p = (if kp_phase p = ''Succeeded'' then ''Succeeded'' else ''Failed'')" using await_stop[OF False] by blast
    then show ?thesis using Suc.prems by (intro exI[of _ i] exI[of _ p]) auto
  qed
qed simp

lemma await_helper_Err:
  "await_helper poll seen i k = Err s \<Longrightarrow> (\<forall>l. i \<le> l \<and> l < i + k \<longrightarrow> quiet poll l) \<and>
     (s = seen \<or> (\<exists>l. i \<le> l \<and> l < i + k \<and> poll l = s \<and> s \<noteq> None))"
proof (induction k arbitrary: i seen)
  case (Suc k)
  have q: "quiet poll i" using Suc.prems await_stop[of poll i seen k] by force
  let ?seen = "case poll i of None \<Rightarrow> seen | Some p \<Rightarrow> Some p"
  have ih: "(\<forall>l. Suc i \<le> l \<and> l < Suc i + k \<longrightarrow> quiet poll l) \<and> (s = ?seen \<or> (\<exists>l. Suc i \<le> l \<and> l < Suc i + k \<and> poll l = s \<and> s \<noteq> None))"
    using Suc.IH Suc.prems unfolding await_step[OF q] by blast
  have "s = seen \<or> (\<exists>l. i \<le> l \<and> l < i + Suc k \<and> poll l = s \<and> s \<noteq> None)"
  proof (cases "s = ?seen")
    case True
    show ?thesis
    proof (cases "poll i")
      case None
      then show ?thesis using True by simp
    next
      case (Some a)
      then show ?thesis using True by (intro disjI2 exI[of _ i]) simp
    qed
  next
    case False
    then obtain l where "Suc i \<le> l \<and> l < Suc i + k \<and> poll l = s \<and> s \<noteq> None" using ih by blast
    then show ?thesis by (intro disjI2 exI[of _ l]) simp
  qed
  moreover have "\<forall>l. i \<le> l \<and> l < i + Suc k \<longrightarrow> quiet poll l" by (rule quiet_step[OF q]) (use ih in simp)
  ultimately show ?case by blast
qed auto

lemma await_helper_sees: "await_helper poll seen i k = Err None \<Longrightarrow> seen = None \<and> (\<forall>l. i \<le> l \<and> l < i + k \<longrightarrow> poll l = None)"
proof (induction k arbitrary: i seen)
  case (Suc k)
  have q: "quiet poll i" using Suc.prems await_stop[of poll i seen k] by force
  have ih: "(case poll i of None \<Rightarrow> seen | Some p \<Rightarrow> Some p) = None \<and> (\<forall>l. Suc i \<le> l \<and> l < Suc i + k \<longrightarrow> poll l = None)"
    using Suc.IH Suc.prems unfolding await_step[OF q] by blast
  then have "poll i = None" "seen = None" by (cases "poll i"; simp)+
  moreover have "poll l = None" if "i \<le> l" "l < i + Suc k" for l using ih \<open>poll i = None\<close> that by (cases "l = i") auto
  ultimately show ?case by blast
qed auto

text \<open>A helper run ends with the phase of the first poll that saw it end, or says after thirty polls that none
  did; when no answer to the creation or the deletion is lost or refused, no helper is left on any path.\<close>

theorem helper_run_ends_clean:
  "(case fst (run_helper_pod_spec e name ps) of
      Inr (logs, ok) \<Rightarrow> logs = rn_logs e \<and>
        (\<exists>j < 30. \<exists>p. rn_poll e j = Some p \<and> kp_phase p = (if ok then ''Succeeded'' else ''Failed'') \<and> (\<forall>l < j. quiet (rn_poll e) l))
    | Inl _ \<Rightarrow> rn_create e \<noteq> Applied \<or> (\<forall>l < 30. quiet (rn_poll e) l)) \<and>
   (if (rn_create e = Applied \<or> rn_create e = Refused) \<and> rn_delete e = Applied \<and> name \<notin> set ps
    then snd (run_helper_pod_spec e name ps) = ps \<and> snd (run_helper_pod e name ps) = ps \<and> snd (run_wsrep_recover e img name ps) = ps
    else True)"
proof -
  have "case fst (run_helper_pod_spec e name ps) of
      Inr (logs, ok) \<Rightarrow> logs = rn_logs e \<and>
        (\<exists>j < 30. \<exists>p. rn_poll e j = Some p \<and> kp_phase p = (if ok then ''Succeeded'' else ''Failed'') \<and> (\<forall>l < j. quiet (rn_poll e) l))
    | Inl _ \<Rightarrow> rn_create e \<noteq> Applied \<or> (\<forall>l < 30. quiet (rn_poll e) l)"
  proof (cases "rn_create e = Applied")
    case True
    show ?thesis
    proof (cases "await_helper (rn_poll e) None 0 30")
      case (Inl seen)
      then show ?thesis using True await_helper_Err[OF Inl] by (simp add: run_helper_pod_spec_def Let_def)
    next
      case (Inr ok)
      then show ?thesis using True await_helper_Ok[OF Inr] by (simp add: run_helper_pod_spec_def Let_def)
    qed
  next
    case False
    then show ?thesis by (cases "rn_create e") (simp_all add: run_helper_pod_spec_def)
  qed
  moreover have "snd (run_helper_pod_spec e name ps) = ps \<and> snd (run_helper_pod e name ps) = ps \<and> snd (run_wsrep_recover e img name ps) = ps"
    if "(rn_create e = Applied \<or> rn_create e = Refused) \<and> rn_delete e = Applied \<and> name \<notin> set ps"
  proof -
    have d: "snd (call (rn_delete e) (delete_helper name) (create_helper name ps)) = ps"
      "snd (call (rn_delete e) (delete_helper name) ps) = ps"
      using that by (simp_all add: delete_helper_def create_helper_def removeAll_id)
    have r: "snd (run_helper_pod_spec e name ps) = ps"
      using that d by (auto simp: run_helper_pod_spec_def Let_def split: sum.split)
    then have "snd (run_helper_pod e name ps) = ps"
      by (cases "run_helper_pod_spec e name ps") (auto simp: run_helper_pod_def split: sum.split)
    moreover have "snd (run_wsrep_recover e img name ps) = ps"
      using that d by (auto simp: run_wsrep_recover_def Let_def split: sum.split)
    ultimately show ?thesis using r by simp
  qed
  ultimately show ?thesis by simp
qed

text \<open>A pod the scheduler refused is described as unschedulable, whatever else its status says.\<close>

lemma unschedulable_is_described:
  "pod_unschedulable po \<Longrightarrow> has_prefix (describe_scheduling po) ''unschedulable (''"
proof (cases po)
  case (Some p)
  assume "pod_unschedulable po"
  then obtain c where "find_first refused_condition (kp_conditions p) = Some c"
    using Some by (cases "find_first refused_condition (kp_conditions p)") (auto simp: pod_unschedulable_def list_ex_iff)
  then show ?thesis using Some by (simp add: describe_scheduling_def with_message_def Let_def has_prefix_def)
qed (simp add: pod_unschedulable_def)

end
