(* ===== verification/Helper_Retry.thy ===== *)
theory Helper_Retry
  imports Helper_Pod Repair_Galera
begin

text \<open>
  Where the helper of \<open>Helper_Pod\<close> meets the retry of the Galera repair
  (\<open>src/engine/repair/galera.go\<close>, \<open>runHelperWithRetry\<close>): which error texts of a helper that never got its
  volume count as worth another attempt.
\<close>

section \<open>Words of a text\<close>

definition space :: char where "space = CHR '' ''"

text \<open>A two-word key occurs only where a word ends in its first half and the next begins with its second.\<close>

fun adjacent :: "string list \<Rightarrow> string \<Rightarrow> string \<Rightarrow> bool" where
  "adjacent (x # y # ws) a b \<longleftrightarrow> has_suffix x a \<and> has_prefix y b \<or> adjacent (y # ws) a b"
| "adjacent _ a b \<longleftrightarrow> False"

lemma split_space_append: "split_char space (u @ space # v) = split_char space u @ split_char space v"
proof (induction u)
  case (Cons x u)
  then show ?case by (cases "split_char space u") (auto split: list.splits)
qed simp

lemma adjacent_append: "adjacent (xs @ [x, y] @ ys) a b" if "has_suffix x a" "has_prefix y b"
proof (induction xs)
  case (Cons z zs)
  then show ?case by (cases zs) (simp_all add: that)
qed (simp add: that)

lemma two_words: "str_contains s (a @ space # b) \<Longrightarrow> space \<notin> set a \<Longrightarrow> space \<notin> set b \<Longrightarrow> adjacent (split_char space s) a b"
proof -
  assume c: "str_contains s (a @ space # b)" and na: "space \<notin> set a" and nb: "space \<notin> set b"
  obtain u v where s: "s = (u @ a) @ space # (b @ v)" using c by (auto simp: str_contains_iff)
  have l: "\<exists>xs x. split_char space (u @ a) = xs @ [x] \<and> has_suffix x a"
  proof (cases "space \<in> set u")
    case True
    then obtain u1 u2 where u: "u = u1 @ space # u2" "space \<notin> set u2" by (metis split_list_last)
    have "split_char space (u2 @ a) = [u2 @ a]" using u na by (intro split_char_id) simp
    then show ?thesis using u split_space_append[of u1 "u2 @ a"] by (auto simp: has_suffix_def)
  next
    case False
    then have "split_char space (u @ a) = [u @ a]" using na by (intro split_char_id) simp
    then show ?thesis by (auto simp: has_suffix_def)
  qed
  have r: "\<exists>y ys. split_char space (b @ v) = y # ys \<and> has_prefix y b"
  proof (cases "space \<in> set v")
    case True
    then obtain v1 v2 where v: "v = v1 @ space # v2" "space \<notin> set v1" by (metis split_list_first)
    have "split_char space (b @ v1) = [b @ v1]" using v nb by (intro split_char_id) simp
    then show ?thesis using v split_space_append[of "b @ v1" v2] by (auto simp: has_prefix_def)
  next
    case False
    then have "split_char space (b @ v) = [b @ v]" using nb by (intro split_char_id) simp
    then show ?thesis by (auto simp: has_prefix_def)
  qed
  obtain xs x y ys where "split_char space (u @ a) = xs @ [x]" "has_suffix x a" "split_char space (b @ v) = y # ys" "has_prefix y b"
    using l r by blast
  then show ?thesis using adjacent_append[of x a y b xs ys] unfolding s split_space_append by simp
qed

lemma no_two_words: "\<not> adjacent (split_char space s) a b \<Longrightarrow> space \<notin> set a \<Longrightarrow> space \<notin> set b \<Longrightarrow> \<not> str_contains s (a @ space # b)"
  using two_words by blast

section \<open>A helper that waits for its volume\<close>

text \<open>A pod name of Kubernetes: lower case letters, digits, dashes and dots.\<close>

definition pod_name_ok :: "string \<Rightarrow> bool" where
  "pod_name_ok n \<longleftrightarrow> list_all (\<lambda>c. c \<in> set ''abcdefghijklmnopqrstuvwxyz0123456789-.'') n"

text \<open>A pod that is placed and whose containers are being created: what a volume that is still attached to
  another node looks like from the pod's status.\<close>

definition awaits_volume :: "kube_pod \<Rightarrow> bool" where
  "awaits_volume p \<longleftrightarrow> kp_phase p = ''Pending'' \<and> list_all (\<lambda>c. \<not> refused_condition c) (kp_conditions p) \<and>
     list_all (\<lambda>s. \<not> wedged s) (kp_statuses p)"

lemma awaits_described: "awaits_volume p \<Longrightarrow> describe_scheduling (Some p) = pending_text"
proof -
  assume a: "awaits_volume p"
  then have "find_first refused_condition (kp_conditions p) = None" "find_first wedged (kp_statuses p) = None"
    unfolding find_first_None by (simp_all add: awaits_volume_def list_all_iff)
  then show ?thesis using a by (simp add: describe_scheduling_def awaits_volume_def del: find_first_None)
qed

lemma pending_words: "split_char space (''helper pod '' @ n @ '' did not complete '' @ em_dash @ '' '' @ pending_text) =
   [''helper'', ''pod'', n, ''did'', ''not'', ''complete'', em_dash, ''pending'', ''(not'', ''yet'', ''running'', em_dash, ''scheduling'', ''or'',
    ''volume'', ''attach'', ''in'', ''progress)'']" if "space \<notin> set n"
proof -
  have t: "''helper pod '' @ n @ '' did not complete '' @ em_dash @ '' '' @ pending_text =
    ''helper pod'' @ space # (n @ space # (''did not complete'' @ space # (em_dash @ space # pending_text)))"
    by (simp add: space_def)
  have n: "split_char space n = [n]" using that by (rule split_char_id)
  show ?thesis unfolding t split_space_append n
    by (simp add: space_def em_dash_def pending_text_def)
qed

lemma pending_is_no_mount_error:
  assumes "pod_name_ok n"
  shows "\<not> is_mount_error (''helper pod '' @ n @ '' did not complete '' @ em_dash @ '' '' @ pending_text)"
proof -
  let ?s = "''helper pod '' @ n @ '' did not complete '' @ em_dash @ '' '' @ pending_text"
  have chars: "c \<in> set n \<Longrightarrow> c \<in> set ''abcdefghijklmnopqrstuvwxyz0123456789-.''" for c using assms by (simp add: pod_name_ok_def list_all_iff)
  have sp: "space \<notin> set n" and upper: "CHR ''M'' \<notin> set n" "CHR ''F'' \<notin> set n" using chars by (auto simp: space_def)
  have sub: "str_contains t p \<Longrightarrow> set p \<subseteq> set t" for t p unfolding str_contains_iff by auto
  have up: "CHR ''M'' \<notin> set ?s" "CHR ''F'' \<notin> set ?s" using upper by (simp_all add: em_dash_def pending_text_def)
  have "\<not> str_contains ?s ''Multi-Attach''" "\<not> str_contains ?s ''FailedAttachVolume''" "\<not> str_contains ?s ''FailedMount''"
    using sub[of ?s "''Multi-Attach''"] sub[of ?s "''FailedAttachVolume''"] sub[of ?s "''FailedMount''"] up by fastforce+
  moreover have "\<not> str_contains ?s ''already attached''"
    by (rule no_two_words[of _ "''already''" "''attached''", unfolded space_def, simplified])
      (unfold pending_words[OF sp, unfolded space_def], simp add: has_prefix_def has_suffix_def em_dash_def)
  moreover have "\<not> str_contains ?s ''device busy''"
    by (rule no_two_words[of _ "''device''" "''busy''", unfolded space_def, simplified])
      (unfold pending_words[OF sp, unfolded space_def], simp add: has_prefix_def has_suffix_def em_dash_def)
  moreover have "\<not> str_contains ?s ''timed out''"
    by (rule no_two_words[of _ "''timed''" "''out''", unfolded space_def, simplified])
      (unfold pending_words[OF sp, unfolded space_def], simp add: has_prefix_def has_suffix_def em_dash_def)
  ultimately show ?thesis by (simp add: is_mount_error_def)
qed

text \<open>The retry is meant for a helper whose volume is still detaching.  Such a helper is placed and stays
  Pending; its run ends with a description instead of the words the retry looks for, and the repair gives
  up after the first attempt.\<close>

theorem detaching_volume_is_not_retried:
  "if rn_create e = Applied \<and> pod_name_ok name \<and> list_all (\<lambda>i. case rn_poll e i of None \<Rightarrow> True | Some p \<Rightarrow> awaits_volume p) [0..<30] \<and>
      list_ex (\<lambda>i. rn_poll e i \<noteq> None) [0..<30]
   then \<exists>msg. fst (run_helper_pod e name ps) = Some msg \<and> \<not> is_mount_error msg \<and>
     run_helper_with_retry (\<lambda>_. HelperErr msg 0) p steps prev attempt (Suc left) w = (Some (HelperFailed msg), on_disk p (run_script []) w)
   else True"
proof -
  have "\<exists>msg. fst (run_helper_pod e name ps) = Some msg \<and> \<not> is_mount_error msg"
    if h: "rn_create e = Applied" "pod_name_ok name" "\<forall>i<30. case rn_poll e i of None \<Rightarrow> True | Some p \<Rightarrow> awaits_volume p"
      "\<exists>i<30. rn_poll e i \<noteq> None"
  proof -
    obtain seen where s: "await_helper (rn_poll e) None 0 30 = Err seen"
    proof (cases "await_helper (rn_poll e) None 0 30")
      case (Inr b)
      then obtain j p where "j < 30" "rn_poll e j = Some p" "kp_phase p = (if b then ''Succeeded'' else ''Failed'')"
        using await_helper_Ok[OF Inr] by auto
      then show ?thesis using h(3) by (cases b) (fastforce simp: awaits_volume_def)+
    qed (use that in blast)
    have "seen \<noteq> None" using await_helper_sees[of "rn_poll e" None 0 30] s h(4) by (cases seen) auto
    then have "\<exists>p. seen = Some p \<and> awaits_volume p" using await_helper_Err[OF s] h(3) by fastforce
    then have d: "describe_scheduling seen = pending_text" using awaits_described by blast
    have "fst (run_helper_pod e name ps) = Some (''helper pod '' @ name @ '' did not complete '' @ em_dash @ '' '' @ pending_text)"
      using h(1) s d by (simp add: run_helper_pod_def run_helper_pod_spec_def Let_def no_progress_def pending_text_def)
    then show ?thesis using pending_is_no_mount_error[OF h(2)] by blast
  qed
  then have "rn_create e = Applied \<and> pod_name_ok name \<and> list_all (\<lambda>i. case rn_poll e i of None \<Rightarrow> True | Some p \<Rightarrow> awaits_volume p) [0..<30] \<and>
      list_ex (\<lambda>i. rn_poll e i \<noteq> None) [0..<30] \<Longrightarrow> \<exists>msg. fst (run_helper_pod e name ps) = Some msg \<and> \<not> is_mount_error msg"
    unfolding list_all_iff list_ex_iff by fastforce
  moreover have "\<not> is_mount_error msg \<Longrightarrow>
     run_helper_with_retry (\<lambda>_. HelperErr msg 0) p steps prev attempt (Suc left) w = (Some (HelperFailed msg), on_disk p (run_script []) w)" for msg
    by (simp add: Let_def)
  ultimately show ?thesis unfolding if_bool_eq_conj by blast
qed

end
