(* ===== verification/Secrets.thy ===== *)
theory Secrets
  imports Go_Strings
begin

text \<open>
  How secrets travel: the registry and the redaction of log records (\<open>src/common/logging.go\<close>), commands with
  an environment (\<open>src/k8s/exec.go\<close>), and the root password of a Galera cluster
  (\<open>src/engine/provider/galera.go\<close>).  Log levels, handlers and the exec stream are left out.
\<close>

section \<open>Redaction\<close>

definition redacted :: string where "redacted = ''[REDACTED]''"

definition register_secret :: "string \<Rightarrow> string list \<Rightarrow> string list" where
  "register_secret v secrets = (if v = [] then secrets else secrets @ [v])"

text \<open>\<open>strings.ReplaceAll\<close> for a text that is not empty.\<close>

function replace_all :: "string \<Rightarrow> string \<Rightarrow> string \<Rightarrow> string" where
  "replace_all old new s =
     (if old = [] then s
      else (case s of [] \<Rightarrow> []
            | c # cs \<Rightarrow> if has_prefix s old then new @ replace_all old new (drop (length old) s) else c # replace_all old new cs))"
  by pat_completeness auto
termination by (relation "measure (\<lambda>(_, _, s). length s)") auto

declare replace_all.simps [simp del]

lemma replace_all_Nil [simp]: "replace_all old new [] = []"
  by (simp add: replace_all.simps)

lemma replace_all_Cons: "old \<noteq> [] \<Longrightarrow> replace_all old new (c # cs) =
    (if has_prefix (c # cs) old then new @ replace_all old new (drop (length old) (c # cs)) else c # replace_all old new cs)"
  by (simp add: replace_all.simps[of old new "c # cs"])

definition sanitize :: "string list \<Rightarrow> string \<Rightarrow> string" where
  "sanitize secrets msg = foldl (\<lambda>m s. replace_all s redacted m) msg secrets"

text \<open>A value of an attribute: a text, a group, or anything else with the text it is printed as.\<close>

datatype log_value = LogString string | LogGroup "(string \<times> log_value) list" | LogOther string

primrec sanitize_value :: "string list \<Rightarrow> log_value \<Rightarrow> log_value" where
  "sanitize_value secrets (LogString s) = LogString (sanitize secrets s)"
| "sanitize_value secrets (LogGroup as) = LogGroup (map (map_prod id (sanitize_value secrets)) as)"
| "sanitize_value secrets (LogOther r) = LogOther r"

record log_record =
  lr_message :: string
  lr_attrs :: "(string \<times> log_value) list"

text \<open>The handler keeps the attributes of \<open>With\<close>; what reaches the sink are these and the record's.\<close>

definition with_attrs :: "(string \<times> log_value) list \<Rightarrow> (string \<times> log_value) list \<Rightarrow> (string \<times> log_value) list" where
  "with_attrs attrs preset = preset @ attrs"

definition handle_record :: "string list \<Rightarrow> (string \<times> log_value) list \<Rightarrow> log_record \<Rightarrow> log_record" where
  "handle_record secrets preset r =
     \<lparr> lr_message = sanitize secrets (lr_message r),
        lr_attrs = preset @ map (map_prod id (sanitize_value secrets)) (lr_attrs r) \<rparr>"

section \<open>Commands with an environment\<close>

definition single_quote :: char where "single_quote = CHR 0x27"
definition escape_char :: char where "escape_char = CHR 0x5C"

definition shell_escape :: "string \<Rightarrow> string" where
  "shell_escape s = concat (map (\<lambda>c. if c = single_quote then [single_quote, escape_char, single_quote, single_quote] else [c]) s)"

definition exec_args :: string where "exec_args = ''exec \"$@\"''"

definition export_line :: "string \<times> string \<Rightarrow> string" where
  "export_line kv = ''export '' @ fst kv @ ''='' @ [single_quote] @ shell_escape (snd kv) @ [single_quote, NL]"

definition export_script :: "(string \<times> string) list \<Rightarrow> string" where
  "export_script env = concat (map export_line env) @ exec_args"

definition exec_argv :: "(string \<times> string) list \<Rightarrow> string list \<Rightarrow> string list" where
  "exec_argv env cmd = [''sh'', ''-c'', export_script env, ''sh''] @ cmd"

section \<open>The root password\<close>

definition base64_letters :: string where
  "base64_letters = ''ABCDEFGHIJKLMNOPQRSTUVWXYZabcdefghijklmnopqrstuvwxyz0123456789+/''"

definition base64_char :: "nat \<Rightarrow> char" where
  "base64_char n = base64_letters ! (n mod 64)"

definition byte :: "char \<Rightarrow> nat" where "byte c = of_char c"

fun base64_encode :: "string \<Rightarrow> string" where
  "base64_encode [] = []"
| "base64_encode [a] = [base64_char (byte a div 4), base64_char (byte a mod 4 * 16), CHR ''='', CHR ''='']"
| "base64_encode [a, b] =
     [base64_char (byte a div 4), base64_char (byte a mod 4 * 16 + byte b div 16), base64_char (byte b mod 16 * 4), CHR ''='']"
| "base64_encode (a # b # c # s) =
     [base64_char (byte a div 4), base64_char (byte a mod 4 * 16 + byte b div 16),
      base64_char (byte b mod 16 * 4 + byte c div 64), base64_char (byte c)] @ base64_encode s"

datatype password_error = NoPasswordRef | PasswordSecretMissing string | PasswordKeyMissing string

definition fetch_root_password ::
  "string \<Rightarrow> string \<Rightarrow> (string \<Rightarrow> (string \<times> string) list option) \<Rightarrow> string list \<Rightarrow> (password_error, string) result \<times> string list" where
  "fetch_root_password name key secret_of secrets =
     (if name = [] \<or> key = [] then (Err NoPasswordRef, secrets)
      else (case secret_of name of
              None \<Rightarrow> (Err (PasswordSecretMissing name), secrets)
            | Some data \<Rightarrow>
                (case map_of data key of
                   None \<Rightarrow> (Err (PasswordKeyMissing key), secrets)
                 | Some pw \<Rightarrow> (Ok pw, register_secret (base64_encode pw) (register_secret pw secrets)))))"

section \<open>What redaction removes\<close>

text \<open>A secret the marker cannot hide or spell: it has no bracket and is no part of the marker's word.\<close>

definition redactable :: "string \<Rightarrow> bool" where
  "redactable s \<longleftrightarrow> s \<noteq> [] \<and> CHR ''['' \<notin> set s \<and> CHR '']'' \<notin> set s \<and> \<not> str_contains ''REDACTED'' s"

lemma contains_append_cases:
  assumes "str_contains (p @ q) x"
  shows "str_contains p x \<or> str_contains q x \<or> (\<exists>a b. x = a @ b \<and> a \<noteq> [] \<and> b \<noteq> [] \<and> has_suffix p a \<and> has_prefix q b)"
proof -
  obtain u v where e: "p @ q = u @ (x @ v)" using assms by (auto simp: str_contains_iff)
  consider w where "p @ w = u" "q = w @ (x @ v)" | w where "p = u @ w" "w @ q = x @ v"
    using e unfolding append_eq_append_conv2 by blast
  then show ?thesis
  proof cases
    case 1
    then show ?thesis unfolding str_contains_iff by blast
  next
    case w: 2
    consider b where "w @ b = x" "q = b @ v" | b where "w = x @ b" "b @ q = v"
      using w(2) unfolding append_eq_append_conv2 by blast
    then show ?thesis
    proof cases
      case 2
      then have "p = u @ x @ b" using w(1) by simp
      then show ?thesis unfolding str_contains_iff by blast
    next
      case b: 1
      have sp: "has_suffix p w" "has_prefix q b" using w(1) b(2) by (simp_all add: has_suffix_def)
      show ?thesis
      proof (cases "w = [] \<or> b = []")
        case False
        then show ?thesis using sp b(1) by blast
      next
        case True
        then show ?thesis
        proof
          assume "w = []"
          then have "q = [] @ x @ v" using b by simp
          then show ?thesis unfolding str_contains_iff by blast
        next
          assume "b = []"
          then have "p = u @ x @ []" using w(1) b(1) by simp
          then show ?thesis unfolding str_contains_iff by blast
        qed
      qed
    qed
  qed
qed

lemma marked_clean:
  assumes "redactable x" "\<not> str_contains p x" "\<not> str_contains r x"
  shows "\<not> str_contains (p @ redacted @ r) x"
proof
  assume "str_contains (p @ redacted @ r) x"
  have m: "redacted = CHR ''['' # ''REDACTED'' @ [CHR '']'']" by (simp add: redacted_def)
  have nb: "CHR ''['' \<notin> set x" "CHR '']'' \<notin> set x" "\<not> str_contains ''REDACTED'' x" "x \<noteq> []" using assms(1) by (simp_all add: redactable_def)
  have sp: False if h: "x = a @ b" "b \<noteq> []" "has_prefix (c # q) b" "c \<notin> set x" for a b c q
    using h by (cases b) (auto simp: has_prefix_def)
  have ss: False if h: "x = a @ b" "a \<noteq> []" "has_suffix (q @ [c]) a" "c \<notin> set x" for a b c q
  proof -
    obtain a' d where a: "a = a' @ [d]" using h(2) by (metis rev_exhaust)
    have "\<exists>t. q @ [c] = t @ a" using h(3) unfolding has_suffix_def by (metis append_take_drop_id)
    then have "d = c" using a by auto
    then show False using h(1,4) a by simp
  qed
  consider "str_contains (redacted @ r) x" | a b where "x = a @ b" "b \<noteq> []" "has_prefix (redacted @ r) b"
    using contains_append_cases[OF \<open>str_contains (p @ redacted @ r) x\<close>] assms(2) by blast
  then show False
  proof cases
    case 2
    then show ?thesis using sp[of a b "CHR ''[''"] nb(1) unfolding m by simp
  next
    case 1
    consider "str_contains redacted x" | a b where "x = a @ b" "a \<noteq> []" "has_suffix redacted a"
      using contains_append_cases[OF 1] assms(3) by blast
    then show False
    proof cases
      case 2
      then show ?thesis using ss[of a b "CHR ''['' # ''REDACTED''" "CHR '']''"] nb(2) unfolding m by simp
    next
      case 1
      then obtain u v where e: "CHR ''['' # ''REDACTED'' @ [CHR '']''] = u @ x @ v" unfolding m by (auto simp: str_contains_iff)
      then obtain u' where u: "u = CHR ''['' # u'" using nb(1,4) by (cases u) (auto simp: Cons_eq_append_conv)
      then have e': "''REDACTED'' @ [CHR '']''] = u' @ x @ v" using e by simp
      then obtain v' where "v = v' @ [CHR '']'']" using nb(2,4) by (cases v rule: rev_exhaust) (auto simp: append_eq_append_conv2 dest: arg_cong[of _ _ last])
      then have "''REDACTED'' = u' @ x @ v'" using e' by simp
      then show ?thesis using nb(3) by (auto simp: str_contains_iff)
    qed
  qed
qed

text \<open>A replacement keeps the pieces between the occurrences and puts the new text between them.\<close>

lemma join_Cons_piece: "ps \<noteq> [] \<Longrightarrow> join_with m ((c # p) # ps) = c # join_with m (p # ps)"
  by (cases ps) auto

lemma replace_pieces:
  "old \<noteq> [] \<Longrightarrow> \<exists>ps. ps \<noteq> [] \<and> s = join_with old ps \<and> replace_all old new s = join_with new ps \<and> list_all (\<lambda>p. \<not> str_contains p old) ps"
proof (induction old new s rule: replace_all.induct)
  case (1 old new s)
  show ?case
  proof (cases s)
    case Nil
    then show ?thesis using 1(3) by (intro exI[of _ "[[]]"]) (simp add: replace_all.simps)
  next
    case (Cons c cs)
    show ?thesis
    proof (cases "has_prefix s old")
      case True
      then obtain t where t: "s = old @ t" by (auto simp: has_prefix_iff)
      then obtain ps where ps: "ps \<noteq> []" "t = join_with old ps" "replace_all old new t = join_with new ps" "list_all (\<lambda>p. \<not> str_contains p old) ps"
        using 1(1)[OF 1(3) Cons True 1(3)] by auto
      have "drop (length old) s = t" using t by simp
      then have "replace_all old new s = new @ replace_all old new t" using 1(3) Cons True replace_all.simps[of old new s] by simp
      then show ?thesis using ps t 1(3) by (intro exI[of _ "[] # ps"]) (cases ps; simp)
    next
      case False
      then obtain ps where ps: "ps \<noteq> []" "cs = join_with old ps" "replace_all old new cs = join_with new ps" "list_all (\<lambda>p. \<not> str_contains p old) ps"
        using 1(2)[OF 1(3) Cons False 1(3)] by auto
      obtain p qs where pq: "ps = p # qs" using ps(1) by (cases ps) auto
      have cs: "s = join_with old ((c # p) # qs)" using Cons ps(2) pq by (cases qs) auto
      have nc: "\<not> str_contains (c # p) old"
      proof
        assume h: "str_contains (c # p) old"
        then have "has_prefix (c # p) old" using ps(4) pq by simp
        then obtain t where t: "c # p = old @ t" unfolding has_prefix_iff by blast
        obtain rest where "s = (c # p) @ rest" using cs by (cases qs) auto
        then have "s = old @ (t @ rest)" using t by simp
        then have "has_prefix s old" by simp
        then show False using False by simp
      qed
      have "replace_all old new s = c # join_with new ps" using 1(3) Cons False ps(3) by (subst replace_all.simps) simp
      then have "replace_all old new s = join_with new ((c # p) # qs)" using pq by (cases qs) auto
      then show ?thesis using cs nc ps(4) pq by (intro exI[of _ "(c # p) # qs"]) simp
    qed
  qed
qed

lemma joined_clean: "redactable x \<Longrightarrow> list_all (\<lambda>p. \<not> str_contains p x) ps \<Longrightarrow> \<not> str_contains (join_with redacted ps) x"
proof (induction redacted ps rule: join_with.induct)
  case (3 w v ws)
  then show ?case using marked_clean[of x w "join_with redacted (v # ws)"] by simp
qed (auto simp: redactable_def)

lemma piece_of_join: "p \<in> set ps \<Longrightarrow> str_contains p x \<Longrightarrow> str_contains (join_with old ps) x"
proof (induction old ps rule: join_with.induct)
  case (3 sep w v ws)
  then show ?case
  proof (cases "p = w")
    case True
    then obtain a b where "w = a @ x @ b" using 3(3) by (auto simp: str_contains_iff)
    then have "join_with sep (w # v # ws) = a @ x @ (b @ sep @ join_with sep (v # ws))" by simp
    then show ?thesis unfolding str_contains_iff by blast
  next
    case False
    then obtain a b where "join_with sep (v # ws) = a @ x @ b" using 3 by (auto simp: str_contains_iff)
    then have "join_with sep (w # v # ws) = (w @ sep @ a) @ x @ b" by simp
    then show ?thesis unfolding str_contains_iff by blast
  qed
qed auto

lemma replaced_clean: "redactable old \<Longrightarrow> \<not> str_contains (replace_all old redacted s) old"
  using replace_pieces[of old s redacted] joined_clean[of old] by (auto simp: redactable_def)

lemma replaced_keeps_clean:
  assumes "redactable x" "old \<noteq> []" "\<not> str_contains s x" shows "\<not> str_contains (replace_all old redacted s) x"
proof -
  obtain ps where ps: "s = join_with old ps" "replace_all old redacted s = join_with redacted ps" using replace_pieces[OF assms(2)] by blast
  have "list_all (\<lambda>p. \<not> str_contains p x) ps" using assms(3) piece_of_join[of _ ps x old] unfolding ps(1) list_all_iff by blast
  then show ?thesis using joined_clean[OF assms(1)] ps(2) by simp
qed

lemma sanitize_keeps_clean:
  "redactable x \<Longrightarrow> [] \<notin> set secrets \<Longrightarrow> \<not> str_contains s x \<Longrightarrow> \<not> str_contains (sanitize secrets s) x"
proof (induction secrets arbitrary: s)
  case (Cons old secrets)
  then have "\<not> str_contains (replace_all old redacted s) x" by (intro replaced_keeps_clean) auto
  then show ?case using Cons by (simp add: sanitize_def)
qed (simp add: sanitize_def)

lemma sanitize_clean: "redactable x \<Longrightarrow> [] \<notin> set secrets \<Longrightarrow> x \<in> set secrets \<Longrightarrow> \<not> str_contains (sanitize secrets s) x"
proof (induction secrets arbitrary: s)
  case (Cons old secrets)
  show ?case
  proof (cases "x = old")
    case True
    then have "\<not> str_contains (replace_all old redacted s) x" using Cons(2) replaced_clean by simp
    then show ?thesis using sanitize_keeps_clean[of x secrets "replace_all old redacted s"] Cons(2,3) by (simp add: sanitize_def)
  next
    case False
    then show ?thesis using Cons by (simp add: sanitize_def)
  qed
qed simp

text \<open>The texts of a value that redaction reaches, in a group at any depth.\<close>

primrec text_leaves :: "log_value \<Rightarrow> string list" where
  "text_leaves (LogString s) = [s]"
| "text_leaves (LogGroup as) = concat (map snd (map (map_prod id text_leaves) as))"
| "text_leaves (LogOther r) = []"

lemma leaves_clean: "redactable x \<Longrightarrow> [] \<notin> set secrets \<Longrightarrow> x \<in> set secrets \<Longrightarrow> t \<in> set (text_leaves (sanitize_value secrets v)) \<Longrightarrow> \<not> str_contains t x"
proof (induction v)
  case (LogString s)
  then show ?case using sanitize_clean by simp
next
  case (LogGroup as)
  then show ?case by (fastforce simp: split_beta)
qed simp

text \<open>C38: A registered secret without brackets that is no part of the marker's word appears, as a whole, neither in
  the message of a record nor in any string among the record's own attributes, at any depth, whatever the other secrets
  are, brackets in them included, in whatever order they were registered and however they overlap.  The attributes
  given to \<open>With\<close> are ahead of these and are as they were given.\<close>

theorem registered_secrets_are_redacted:
  "if redactable x \<and> x \<in> set secrets \<and> [] \<notin> set secrets
   then \<not> str_contains (lr_message (handle_record secrets preset r)) x \<and>
     take (length preset) (lr_attrs (handle_record secrets preset r)) = preset \<and>
     list_all (\<lambda>(k, v). list_all (\<lambda>t. \<not> str_contains t x) (text_leaves v))
       (drop (length preset) (lr_attrs (handle_record secrets preset r)))
   else True"
  using sanitize_clean[of x secrets] leaves_clean[of x secrets] by (fastforce simp: handle_record_def list_all_iff)

text \<open>The registry never holds an empty secret.\<close>

lemma registry_has_no_empty: "[] \<notin> set secrets \<Longrightarrow> [] \<notin> set (register_secret s secrets)"
  by (simp add: register_secret_def)

text \<open>A secret with a bracket can be spelled again by the marker of another one.\<close>

lemma bracketed_secret_reappears:
  "sanitize [''a['', ''b''] ''ab'' = ''a[REDACTED]''" "str_contains (sanitize [''a['', ''b''] ''ab'') ''a[''"
proof -
  show s: "sanitize [''a['', ''b''] ''ab'' = ''a[REDACTED]''"
    unfolding sanitize_def redacted_def foldl.simps by (simp add: replace_all_Cons has_prefix_def)
  show "str_contains (sanitize [''a['', ''b''] ''ab'') ''a[''" unfolding s by code_simp
qed

text \<open>Attributes given to \<open>With\<close>, and values that are no text, an error say, reach the sink as they are.\<close>

lemma redaction_gaps:
  "sanitize_value secrets (LogOther r) = LogOther r"
  "set preset \<subseteq> set (lr_attrs (handle_record secrets preset rec0))"
  by (simp_all add: handle_record_def)

text \<open>A secret that was registered after one it begins with leaves its rest in the text.\<close>

lemma overlapping_secret_leaves_its_rest:
  "sanitize [''hunter'', ''hunter2024''] ''password hunter2024'' = ''password [REDACTED]2024''"
  unfolding sanitize_def redacted_def foldl.simps by (simp add: replace_all_Cons has_prefix_def)

lemma base64_alphabet: "set (base64_encode s) \<subseteq> insert (CHR ''='') (set base64_letters)"
proof -
  have c: "base64_char n \<in> set base64_letters" for n
    unfolding base64_char_def by (rule nth_mem) (simp add: base64_letters_def)
  show ?thesis
  proof (induction s rule: base64_encode.induct)
    case (2 a)
    then show ?case using c[of "byte a div 4"] c[of "byte a mod 4 * 16"] by auto
  next
    case (3 a b)
    then show ?case using c[of "byte a div 4"] c[of "byte a mod 4 * 16 + byte b div 16"] c[of "byte b mod 16 * 4"] by auto
  next
    case (4 a b x s)
    then show ?case using c[of "byte a div 4"] c[of "byte a mod 4 * 16 + byte b div 16"] c[of "byte b mod 16 * 4 + byte x div 64"] c[of "byte x"]
      by auto
  qed simp
qed

text \<open>After a Galera provider is validated its root password is hidden, as a text and in base64.\<close>

lemma root_password_is_hidden:
  assumes "fetch_root_password name key secret_of secrets = (Ok pw, secrets')" "[] \<notin> set secrets" "redactable pw"
    "redactable (base64_encode pw)"
  shows "\<not> str_contains (sanitize secrets' msg) pw" "\<not> str_contains (sanitize secrets' msg) (base64_encode pw)"
proof -
  have "pw \<in> set secrets' \<and> base64_encode pw \<in> set secrets' \<and> [] \<notin> set secrets'" using assms
    by (auto simp: fetch_root_password_def register_secret_def redactable_def split: if_splits option.splits)
  then show "\<not> str_contains (sanitize secrets' msg) pw" "\<not> str_contains (sanitize secrets' msg) (base64_encode pw)"
    using sanitize_clean[OF assms(3)] sanitize_clean[OF assms(4)] by blast+
qed

section \<open>What a shell makes of the script\<close>

text \<open>The part of the shell's grammar that the script uses, after POSIX: a word is read to the next unquoted
  blank or newline; single quotes keep everything, a backslash outside them the next character.  A
  character that would start an expansion, a redirection, a list or a comment is refused.\<close>

definition shell_active :: "char \<Rightarrow> bool" where
  "shell_active c \<longleftrightarrow> c \<in> set ''$`;&|<>()#*?[]~!{}\"''"

fun shell_word :: "bool \<Rightarrow> string \<Rightarrow> string \<Rightarrow> (string \<times> string) option" where
  "shell_word True acc [] = None"
| "shell_word True acc (c # s) = (if c = single_quote then shell_word False acc s else shell_word True (acc @ [c]) s)"
| "shell_word False acc [] = Some (acc, [])"
| "shell_word False acc (c # s) =
     (if c = CHR '' '' \<or> c = CHR 0x09 \<or> c = NL then Some (acc, c # s)
      else if c = single_quote then shell_word True acc s
      else if c = escape_char then (case s of [] \<Rightarrow> None | d # s' \<Rightarrow> shell_word False (acc @ [d]) s')
      else if shell_active c then None
      else shell_word False (acc @ [c]) s)"

lemma shell_word_shrinks: "shell_word q acc s = Some (w, r) \<Longrightarrow> length r \<le> length s"
  by (induction q acc s rule: shell_word.induct) (fastforce split: if_splits list.splits)+

text \<open>Running the script: each export sets a variable, and the last line runs the arguments as they are.\<close>

function run_script_text :: "(string \<times> string) list \<Rightarrow> string list \<Rightarrow> string \<Rightarrow> ((string \<times> string) list \<times> string list) option" where
  "run_script_text env args s =
     (if s = exec_args then Some (env, args)
      else if has_prefix s ''export '' then
        (let r = drop 7 s; name = takeWhile (\<lambda>c. c \<noteq> CHR ''='') r in
         case shell_word False [] (drop (Suc (length name)) r) of
           Some (v, c # rest) \<Rightarrow> if c = NL then run_script_text (map_set name v env) args rest else None
         | _ \<Rightarrow> None)
      else None)"
  by pat_completeness auto
termination
proof (relation "measure (\<lambda>(_, _, s). length s)")
  fix env args s r name x v z c rest
  assume "(r :: string) = drop 7 s" "shell_word False [] (drop (Suc (length name)) r) = Some x" "(v, z) = x" "z = c # rest"
  then have "length (c # rest) \<le> length s" using shell_word_shrinks[of False "[]" "drop (Suc (length name)) r" v z] by simp
  then show "((map_set name v env, args, rest), (env, args, s)) \<in> measure (\<lambda>(_, _, s). length s)" by simp
qed simp

declare run_script_text.simps [simp del]

lemma escaped_is_read: "shell_word True acc (shell_escape v @ single_quote # t) = shell_word False (acc @ v) t"
proof (induction v arbitrary: acc)
  case (Cons c v)
  show ?case
  proof (cases "c = single_quote")
    case True
    have q: "\<not> (single_quote = CHR '' '' \<or> single_quote = CHR 0x09 \<or> single_quote = NL)" "\<not> (escape_char = CHR '' '' \<or> escape_char = CHR 0x09 \<or> escape_char = NL)" "escape_char \<noteq> single_quote"
      by (simp_all add: single_quote_def escape_char_def)
    have e: "shell_escape (c # v) @ single_quote # t = single_quote # escape_char # single_quote # single_quote # (shell_escape v @ single_quote # t)"
      using True by (simp add: shell_escape_def)
    show ?thesis unfolding e using Cons[of "acc @ [single_quote]"] q True by simp
  next
    case False
    have e: "shell_escape (c # v) @ single_quote # t = c # (shell_escape v @ single_quote # t)" using False by (simp add: shell_escape_def)
    show ?thesis unfolding e using Cons[of "acc @ [c]"] False by simp
  qed
qed (simp add: shell_escape_def)

lemma run_export:
  assumes "CHR ''='' \<notin> set k"
  shows "run_script_text env args (export_line (k, v) @ t) = run_script_text (map_set k v env) args t"
proof -
  define S where "S = export_line (k, v) @ t"
  have s: "S = ''export '' @ (k @ CHR ''='' # (single_quote # (shell_escape v @ single_quote # (NL # t))))" by (simp add: S_def export_line_def)
  have d: "drop 7 S = k @ CHR ''='' # (single_quote # (shell_escape v @ single_quote # (NL # t)))" unfolding s by simp
  have n: "takeWhile (\<lambda>c. c \<noteq> CHR ''='') (drop 7 S) = k" unfolding d using assms by (induction k) auto
  have w: "shell_word False [] (drop (Suc (length k)) (drop 7 S)) = Some (v, NL # t)"
  proof -
    have "drop (Suc (length k)) (drop 7 S) = single_quote # (shell_escape v @ single_quote # (NL # t))" unfolding d by simp
    moreover have "\<not> (single_quote = CHR '' '' \<or> single_quote = CHR 0x09 \<or> single_quote = NL)" by (simp add: single_quote_def)
    ultimately show ?thesis using escaped_is_read[of "[]" v "NL # t"] by (simp add:)
  qed
  have "S \<noteq> exec_args" "has_prefix S ''export ''" unfolding s by (simp_all add: exec_args_def has_prefix_def)
  then have "run_script_text env args S = run_script_text (map_set k v env) args t"
    by (subst run_script_text.simps) (simp add: n w Let_def del: drop_drop)
  then show ?thesis unfolding S_def .
qed

text \<open>C39: The script sets every variable to its value, whatever characters the value has, and runs the command
  with its arguments untouched.\<close>

theorem exec_passes_values_exactly:
  "if list_all (\<lambda>kv. CHR ''='' \<notin> set (fst kv)) env
   then run_script_text env0 (drop 4 (exec_argv env cmd)) (exec_argv env cmd ! 2) = Some (fold (\<lambda>(k, v). map_set k v) env env0, cmd)
   else True"
proof -
  have "run_script_text env0 cmd (export_script env) = Some (fold (\<lambda>(k, v). map_set k v) env env0, cmd)"
    if "list_all (\<lambda>kv. CHR ''='' \<notin> set (fst kv)) env"
    using that
  proof (induction env arbitrary: env0)
    case Nil
    then show ?case by (simp add: export_script_def run_script_text.simps)
  next
    case (Cons kv env)
    obtain k v where kv: "kv = (k, v)" by fastforce
    have "export_script (kv # env) = export_line (k, v) @ export_script env" by (simp add: export_script_def kv)
    then show ?case using Cons kv run_export[of k env0 cmd v "export_script env"] by simp
  qed
  then show ?thesis by (simp add: exec_argv_def)
qed

text \<open>The script is an argument of the shell, so a value is visible in the process list until the shell has run it.\<close>

lemma value_is_an_argument:
  assumes "single_quote \<notin> set v" "(k, v) \<in> set env"
  shows "str_contains (exec_argv env cmd ! 2) v"
proof -
  have e: "shell_escape v = v" using assms(1) by (induction v) (auto simp: shell_escape_def)
  obtain xs ys where "env = xs @ (k, v) # ys" using assms(2) by (auto dest: split_list)
  then have "exec_argv env cmd ! 2 = (concat (map export_line xs) @ ''export '' @ k @ ''='' @ [single_quote]) @ v @
      ([single_quote, NL] @ concat (map export_line ys) @ exec_args)"
    by (simp add: exec_argv_def export_script_def export_line_def e)
  then show ?thesis unfolding str_contains_iff by blast
qed

end
