(* ===== verification/Invocation.thy ===== *)
theory Invocation
  imports Secrets
begin

text \<open>
  From the command line to an engine (\<open>src/common/config.go\<close>, \<open>src/env/env.go\<close>, \<open>src/cmd/root.go\<close> and the
  commands' own checks): defaults from the environment, the numbers of instances, the checks before the
  provider is validated, and the output mode.  The flag library is the value each flag ends with, the
  default where the command line gives none; the clients and the provider's validation are parameters.
\<close>

section \<open>The environment\<close>

type_synonym environment = "string \<Rightarrow> string option"

definition env_prefix :: string where "env_prefix = ''HASTEWARD_''"

definition env_str :: "environment \<Rightarrow> string \<Rightarrow> string \<Rightarrow> string" where
  "env_str v key fallback = (case v (env_prefix @ key) of Some x \<Rightarrow> x | None \<Rightarrow> fallback)"

definition env_raw :: "environment \<Rightarrow> string \<Rightarrow> string \<Rightarrow> string" where
  "env_raw v key fallback = (case v key of Some x \<Rightarrow> x | None \<Rightarrow> fallback)"

definition parse_env_bool :: "string \<Rightarrow> bool option" where
  "parse_env_bool x =
     (let w = to_lower (trim_space x) in
      if w \<in> set [''1'', ''t'', ''true'', ''yes'', ''on''] then Some True
      else if w \<in> set [''0'', ''f'', ''false'', ''no'', ''off'', ''''] then Some False
      else None)"

definition env_bool :: "environment \<Rightarrow> string \<Rightarrow> bool \<Rightarrow> bool" where
  "env_bool v key fallback =
     (case v (env_prefix @ key) of None \<Rightarrow> fallback
      | Some x \<Rightarrow> (case parse_env_bool x of None \<Rightarrow> fallback | Some b \<Rightarrow> b))"

definition env_int :: "environment \<Rightarrow> string \<Rightarrow> int \<Rightarrow> int" where
  "env_int v key fallback =
     (case v (env_prefix @ key) of None \<Rightarrow> fallback
      | Some x \<Rightarrow> (case parse_int64 10 (trim_space x) of Inl _ \<Rightarrow> fallback | Inr n \<Rightarrow> n))"

text \<open>A flag and the variable behind it; the first declaration of a flag is the one that is documented.\<close>

record binding =
  bd_flag :: string
  bd_key :: string
  bd_raw :: string

definition binding_name :: "binding \<Rightarrow> string" where
  "binding_name b = (if bd_raw b \<noteq> [] then bd_raw b else env_prefix @ bd_key b)"

definition register_binding :: "binding \<Rightarrow> binding list \<Rightarrow> binding list" where
  "register_binding b bs = (if list_ex (\<lambda>e. bd_flag e = bd_flag b) bs then bs else bs @ [b])"

text \<open>The value of a flag: the command line's, else the default, which the environment may replace.\<close>

definition string_flag :: "environment \<Rightarrow> string option \<Rightarrow> string \<Rightarrow> string \<Rightarrow> string" where
  "string_flag v given key def = (case given of Some x \<Rightarrow> x | None \<Rightarrow> env_str v key def)"

definition bool_flag :: "environment \<Rightarrow> bool option \<Rightarrow> string \<Rightarrow> bool \<Rightarrow> bool" where
  "bool_flag v given key def = (case given of Some x \<Rightarrow> x | None \<Rightarrow> env_bool v key def)"

definition int_flag :: "environment \<Rightarrow> int option \<Rightarrow> string \<Rightarrow> int \<Rightarrow> int" where
  "int_flag v given key def = (case given of Some x \<Rightarrow> x | None \<Rightarrow> env_int v key def)"

definition raw_flag :: "environment \<Rightarrow> string option \<Rightarrow> string \<Rightarrow> string \<Rightarrow> string" where
  "raw_flag v given key def = (case given of Some x \<Rightarrow> x | None \<Rightarrow> env_raw v key def)"

definition raw_or_prefixed_flag :: "environment \<Rightarrow> string option \<Rightarrow> string \<Rightarrow> string \<Rightarrow> string" where
  "raw_or_prefixed_flag v given key def = (case given of Some x \<Rightarrow> x | None \<Rightarrow> env_raw v key (env_str v key def))"

section \<open>The configuration of a run\<close>

record cli_args =
  ca_engine :: "string option"
  ca_cluster :: "string option"
  ca_namespace :: "string option"
  ca_instance :: "string option"
  ca_donor :: "string option"
  ca_force :: "bool option"
  ca_wipe :: "bool option"
  ca_no_escrow :: "bool option"
  ca_unwedge :: "bool option"
  ca_promote :: "bool option"
  ca_dry_run :: "bool option"
  ca_backups_path :: "string option"
  ca_password :: "string option"
  ca_method :: "string option"
  ca_delete_timeout :: "int option"
  ca_heal_timeout :: "int option"

record run_config =
  rc_engine :: string
  rc_cluster :: string
  rc_namespace :: string
  rc_mode :: string
  rc_instance :: "int option"
  rc_donor :: "int option"
  rc_force :: bool
  rc_wipe :: bool
  rc_no_escrow :: bool
  rc_unwedge :: bool
  rc_promote :: bool
  rc_dry_run :: bool
  rc_backups_path :: string
  rc_password :: string
  rc_method :: string
  rc_delete_timeout :: int
  rc_heal_timeout :: int

text \<open>What the flags bind when the command starts; the instance, the donor and the preview are resolved later.\<close>

definition bound_config :: "environment \<Rightarrow> cli_args \<Rightarrow> run_config" where
  "bound_config v a =
     \<lparr> rc_engine = string_flag v (ca_engine a) ''ENGINE'' '''', rc_cluster = string_flag v (ca_cluster a) ''CLUSTER'' '''',
        rc_namespace = string_flag v (ca_namespace a) ''NAMESPACE'' '''', rc_mode = '''', rc_instance = None, rc_donor = None,
        rc_force = bool_flag v (ca_force a) ''FORCE'' False, rc_wipe = bool_flag v (ca_wipe a) ''WIPE_DATADIR'' False,
        rc_no_escrow = bool_flag v (ca_no_escrow a) ''NO_ESCROW'' False, rc_unwedge = bool_flag v (ca_unwedge a) ''UNWEDGE'' False,
        rc_promote = bool_flag v (ca_promote a) ''PROMOTE'' False, rc_dry_run = False,
        rc_backups_path = string_flag v (ca_backups_path a) ''BACKUPS_PATH'' '''',
        rc_password = raw_or_prefixed_flag v (ca_password a) ''RESTIC_PASSWORD'' '''',
        rc_method = string_flag v (ca_method a) ''BACKUP_METHOD'' ''dump'',
        rc_delete_timeout = int_flag v (ca_delete_timeout a) ''DELETE_TIMEOUT'' 300,
        rc_heal_timeout = int_flag v (ca_heal_timeout a) ''HEAL_TIMEOUT'' 600 \<rparr>"

datatype cli_error =
    MissingFlags "string list" | InstanceNotInteger string | DonorNotInteger string | DonorNegative int
  | WipeNeedsForce | WipeNeedsInstance | ClientsFailed | NoProvider string | ProviderRefused string
  | UnwedgeNeedsEscrow | PromoteNeedsEscrow | NeedsBackupsPath string | NeedsPassword string | BadOutputMode string

definition resolve_instance :: "string \<Rightarrow> (cli_error, int option) result" where
  "resolve_instance raw =
     (if raw = [] then Ok None
      else (case parse_int64 10 raw of Inl _ \<Rightarrow> Err (InstanceNotInteger raw) | Inr n \<Rightarrow> Ok (Some n)))"

definition donor_flag :: "string \<Rightarrow> (cli_error, int option) result" where
  "donor_flag raw =
     (if raw = [] then Ok None
      else (case parse_int64 10 raw of
              Inl _ \<Rightarrow> Err (DonorNotInteger raw)
            | Inr n \<Rightarrow> if n < 0 then Err (DonorNegative n) else Ok (Some n)))"

definition missing_flags :: "run_config \<Rightarrow> string list" where
  "missing_flags c = (if rc_engine c = [] then [''--engine/-e''] else []) @ (if rc_cluster c = [] then [''--cluster/-c''] else []) @
     (if rc_namespace c = [] then [''--namespace/-n''] else [])"

text \<open>The clients, the registry of engines, and the validation by the provider; the commands other than repair
  have no donor flag, and reading it gives the empty text.\<close>

record cli_env =
  cl_vars :: environment
  cl_clients :: bool
  cl_validate :: "run_config \<Rightarrow> string option"

definition engine_names :: "string list" where "engine_names = [''cnpg'', ''galera'']"

definition donor_text :: "environment \<Rightarrow> cli_args \<Rightarrow> string \<Rightarrow> string" where
  "donor_text v a mode = (if mode = ''repair'' then string_flag v (ca_donor a) ''DONOR'' '''' else '''')"

definition wipe_check :: "run_config \<Rightarrow> cli_error option" where
  "wipe_check c =
     (if rc_wipe c then (if \<not> rc_force c then Some WipeNeedsForce else if rc_instance c = None then Some WipeNeedsInstance else None)
      else None)"

definition pre_run :: "cli_env \<Rightarrow> cli_args \<Rightarrow> string \<Rightarrow> string list \<Rightarrow> (cli_error, run_config) result \<times> string list" where
  "pre_run e a mode secrets =
     (let v = cl_vars e;
          c = (bound_config v a)\<lparr> rc_mode := mode, rc_dry_run := bool_flag v (ca_dry_run a) ''DRY_RUN'' False \<rparr>;
          secrets1 = register_secret (rc_password c) secrets in
      (if missing_flags c \<noteq> [] then Err (MissingFlags (missing_flags c))
       else bind_ok (resolve_instance (string_flag v (ca_instance a) ''INSTANCE'' '''')) (\<lambda>inst.
            bind_ok (donor_flag (donor_text v a mode)) (\<lambda>donor.
              let c1 = c\<lparr> rc_instance := inst, rc_donor := donor \<rparr> in
              case wipe_check c1 of
                Some err \<Rightarrow> Err err
              | None \<Rightarrow>
                  if \<not> cl_clients e then Err ClientsFailed
                  else if rc_engine c1 \<notin> set engine_names then Err (NoProvider (rc_engine c1))
                  else (case cl_validate e c1 of Some err \<Rightarrow> Err (ProviderRefused err) | None \<Rightarrow> Ok c1))), secrets1))"

section \<open>The commands\<close>

text \<open>What the commands check before \<open>PreRun\<close>: they see the bound flags.\<close>

definition repair_command :: "cli_env \<Rightarrow> cli_args \<Rightarrow> string list \<Rightarrow> (cli_error, run_config) result \<times> string list" where
  "repair_command e a secrets =
     (let c = bound_config (cl_vars e) a in
      if rc_unwedge c \<and> rc_no_escrow c then (Err UnwedgeNeedsEscrow, secrets)
      else if rc_promote c \<and> rc_no_escrow c then (Err PromoteNeedsEscrow, secrets)
      else if \<not> rc_no_escrow c \<and> rc_backups_path c = [] then (Err (NeedsBackupsPath ''repair''), secrets)
      else if \<not> rc_no_escrow c \<and> rc_password c = [] then (Err (NeedsPassword ''repair''), secrets)
      else pre_run e a ''repair'' secrets)"

definition backup_command :: "cli_env \<Rightarrow> cli_args \<Rightarrow> string list \<Rightarrow> (cli_error, run_config) result \<times> string list" where
  "backup_command e a secrets =
     (let c = bound_config (cl_vars e) a in
      if rc_method c \<noteq> ''native'' \<and> rc_backups_path c = [] then (Err (NeedsBackupsPath ''backup''), secrets)
      else if rc_method c \<noteq> ''native'' \<and> rc_password c = [] then (Err (NeedsPassword ''backup''), secrets)
      else pre_run e a ''backup'' secrets)"

definition restore_command :: "cli_env \<Rightarrow> cli_args \<Rightarrow> string list \<Rightarrow> (cli_error, run_config) result \<times> string list" where
  "restore_command e a secrets =
     (let c = bound_config (cl_vars e) a in
      if rc_backups_path c = [] then (Err (NeedsBackupsPath ''restore''), secrets)
      else if rc_password c = [] then (Err (NeedsPassword ''restore''), secrets)
      else pre_run e a ''restore'' secrets)"

datatype output_mode = OutputAuto | OutputHuman | OutputJson | OutputJsonl

definition parse_output_mode :: "string \<Rightarrow> (cli_error, output_mode) result" where
  "parse_output_mode s =
     (let w = to_lower (trim_space s) in
      if w = ''auto'' \<or> w = '''' then Ok OutputAuto else if w = ''human'' then Ok OutputHuman
      else if w = ''json'' then Ok OutputJson else if w = ''jsonl'' then Ok OutputJsonl else Err (BadOutputMode s))"

definition resolve_mode :: "bool \<Rightarrow> output_mode \<Rightarrow> output_mode" where
  "resolve_mode tty m = (if m \<noteq> OutputAuto then m else if tty then OutputHuman else OutputJson)"

definition mode_string :: "output_mode \<Rightarrow> string" where
  "mode_string m = (case m of OutputAuto \<Rightarrow> ''auto'' | OutputHuman \<Rightarrow> ''human'' | OutputJson \<Rightarrow> ''json'' | OutputJsonl \<Rightarrow> ''jsonl'')"

section \<open>What reaches an engine\<close>

lemma donor_flag_ok: "donor_flag raw = Ok (Some d) \<Longrightarrow> 0 \<le> d \<and> in_int64 d"
  using parse_int64_range[of 10 raw d] by (auto simp: donor_flag_def split: if_splits sum.splits)

lemma pre_run_ok:
  assumes "fst (pre_run e a mode secrets) = Ok c"
  shows "rc_engine c \<in> set engine_names" "rc_cluster c \<noteq> []" "rc_namespace c \<noteq> []" "rc_mode c = mode" "cl_validate e c = None"
    "rc_dry_run c = bool_flag (cl_vars e) (ca_dry_run a) ''DRY_RUN'' False" "rc_wipe c \<Longrightarrow> rc_force c \<and> rc_instance c \<noteq> None"
    "rc_donor c = Some d \<Longrightarrow> 0 \<le> d \<and> in_int64 d"
    "c = (bound_config (cl_vars e) a)\<lparr> rc_mode := rc_mode c, rc_dry_run := rc_dry_run c, rc_instance := rc_instance c, rc_donor := rc_donor c \<rparr>"
proof -
  let ?c = "(bound_config (cl_vars e) a)\<lparr> rc_mode := mode, rc_dry_run := bool_flag (cl_vars e) (ca_dry_run a) ''DRY_RUN'' False \<rparr>"
  have m: "missing_flags ?c = []" using assms by (auto simp: pre_run_def Let_def split: if_splits)
  obtain inst donor where r: "resolve_instance (string_flag (cl_vars e) (ca_instance a) ''INSTANCE'' '''') = Ok inst"
      "donor_flag (donor_text (cl_vars e) a mode) = Ok donor"
      "(case wipe_check (?c\<lparr> rc_instance := inst, rc_donor := donor \<rparr>) of Some err \<Rightarrow> Err err
        | None \<Rightarrow> if \<not> cl_clients e then Err ClientsFailed
            else if rc_engine (?c\<lparr> rc_instance := inst, rc_donor := donor \<rparr>) \<notin> set engine_names then Err (NoProvider (rc_engine (?c\<lparr> rc_instance := inst, rc_donor := donor \<rparr>)))
            else (case cl_validate e (?c\<lparr> rc_instance := inst, rc_donor := donor \<rparr>) of Some err \<Rightarrow> Err (ProviderRefused err)
                  | None \<Rightarrow> Ok (?c\<lparr> rc_instance := inst, rc_donor := donor \<rparr>))) = Ok c"
    using assms m unfolding pre_run_def Let_def by (auto simp: bind_ok_Ok)
  let ?d = "?c\<lparr> rc_instance := inst, rc_donor := donor \<rparr>"
  have c: "c = ?d" "wipe_check ?d = None" "rc_engine ?d \<in> set engine_names" "cl_validate e ?d = None"
    using r(3) by (auto split: option.splits if_splits)
  show "rc_engine c \<in> set engine_names" "cl_validate e c = None" using c by blast+
  show "rc_cluster c \<noteq> []" "rc_namespace c \<noteq> []" using m unfolding c(1) by (auto simp: missing_flags_def split: if_splits)
  show "rc_mode c = mode" "rc_dry_run c = bool_flag (cl_vars e) (ca_dry_run a) ''DRY_RUN'' False" unfolding c(1) by simp_all
  show "rc_wipe c \<Longrightarrow> rc_force c \<and> rc_instance c \<noteq> None" using c(2) unfolding c(1) by (auto simp: wipe_check_def split: if_splits)
  show "rc_donor c = Some d \<Longrightarrow> 0 \<le> d \<and> in_int64 d" using r(2) donor_flag_ok unfolding c(1) by simp
  show "c = (bound_config (cl_vars e) a)\<lparr> rc_mode := rc_mode c, rc_dry_run := rc_dry_run c, rc_instance := rc_instance c, rc_donor := rc_donor c \<rparr>"
    unfolding c(1) by simp
qed

text \<open>A switch is asked for on the command line, or, when the command line does not name it, by its variable being
  set to one of the words for true.\<close>

definition asked_for :: "cli_env \<Rightarrow> bool option \<Rightarrow> string \<Rightarrow> bool" where
  "asked_for e given key \<longleftrightarrow>
     given = Some True \<or>
     given = None \<and> (\<exists>x. cl_vars e (''HASTEWARD_'' @ key) = Some x \<and>
        to_lower (trim_space x) \<in> {''1'', ''t'', ''true'', ''yes'', ''on''})"

lemma bool_flag_asked: "bool_flag (cl_vars e) given key False = asked_for e given key"
  by (auto simp: bool_flag_def env_bool_def env_prefix_def asked_for_def parse_env_bool_def Let_def split: option.split)

text \<open>C40: A repair reaches its engine only for a named cluster of a known, validated engine, and each of preview,
  force, wipe, no escrow, unwedge and promote is on exactly when it was asked for, on the command line or by its
  variable.  Without an escrow it neither unwedges nor promotes, with one it has a repository and a registered
  password, and it wipes only forced and with a target.\<close>

theorem repair_reaches_engine_guarded:
  "case fst (repair_command e a secrets) of
     Inl _ \<Rightarrow> True
   | Inr c \<Rightarrow> rc_engine c \<in> set engine_names \<and> rc_cluster c \<noteq> [] \<and> rc_namespace c \<noteq> [] \<and> rc_mode c = ''repair'' \<and>
       cl_validate e c = None \<and> rc_dry_run c = asked_for e (ca_dry_run a) ''DRY_RUN'' \<and>
       rc_force c = asked_for e (ca_force a) ''FORCE'' \<and> rc_wipe c = asked_for e (ca_wipe a) ''WIPE_DATADIR'' \<and>
       rc_no_escrow c = asked_for e (ca_no_escrow a) ''NO_ESCROW'' \<and>
       rc_unwedge c = asked_for e (ca_unwedge a) ''UNWEDGE'' \<and> rc_promote c = asked_for e (ca_promote a) ''PROMOTE'' \<and>
       (if rc_no_escrow c then \<not> rc_unwedge c \<and> \<not> rc_promote c
        else rc_backups_path c \<noteq> [] \<and> rc_password c \<noteq> [] \<and> rc_password c \<in> set (snd (repair_command e a secrets))) \<and>
       (if rc_wipe c then rc_force c \<and> rc_instance c \<noteq> None else True) \<and>
       (case rc_donor c of None \<Rightarrow> True | Some d \<Rightarrow> 0 \<le> d \<and> in_int64 d)"
proof (cases "fst (repair_command e a secrets)")
  case (Inr c)
  let ?b = "bound_config (cl_vars e) a"
  have g: "\<not> (rc_unwedge ?b \<and> rc_no_escrow ?b)" "\<not> (rc_promote ?b \<and> rc_no_escrow ?b)" "\<not> (\<not> rc_no_escrow ?b \<and> rc_backups_path ?b = [])"
      "\<not> (\<not> rc_no_escrow ?b \<and> rc_password ?b = [])" and p: "repair_command e a secrets = pre_run e a ''repair'' secrets"
    using Inr by (auto simp: repair_command_def Let_def split: if_splits)
  have ok: "fst (pre_run e a ''repair'' secrets) = Ok c" using Inr p by simp
  note f = pre_run_ok[OF ok]
  have b: "rc_no_escrow c = rc_no_escrow ?b" "rc_unwedge c = rc_unwedge ?b" "rc_promote c = rc_promote ?b" "rc_backups_path c = rc_backups_path ?b"
     "rc_password c = rc_password ?b" "rc_force c = rc_force ?b" "rc_wipe c = rc_wipe ?b"
    by (subst f(9), simp)+
  have q: "rc_no_escrow ?b = asked_for e (ca_no_escrow a) ''NO_ESCROW''" "rc_unwedge ?b = asked_for e (ca_unwedge a) ''UNWEDGE''"
     "rc_promote ?b = asked_for e (ca_promote a) ''PROMOTE''" "rc_force ?b = asked_for e (ca_force a) ''FORCE''"
     "rc_wipe ?b = asked_for e (ca_wipe a) ''WIPE_DATADIR''"
    by (simp_all add: bound_config_def bool_flag_asked)
  have dry: "rc_dry_run c = asked_for e (ca_dry_run a) ''DRY_RUN''" using f(6) by (simp add: bool_flag_asked)
  have w: "if rc_wipe c then rc_force c \<and> rc_instance c \<noteq> None else True" using f(7) by simp
  have d: "case rc_donor c of None \<Rightarrow> True | Some d \<Rightarrow> 0 \<le> d \<and> in_int64 d" using f(8) by (simp split: option.split)
  have s: "snd (pre_run e a ''repair'' secrets) = register_secret (rc_password ?b) secrets" by (simp add: pre_run_def Let_def)
  have "rc_password ?b \<noteq> [] \<Longrightarrow> rc_password ?b \<in> set (register_secret (rc_password ?b) secrets)" by (simp add: register_secret_def)
  then have e: "if rc_no_escrow c then \<not> rc_unwedge c \<and> \<not> rc_promote c
      else rc_backups_path c \<noteq> [] \<and> rc_password c \<noteq> [] \<and> rc_password c \<in> set (snd (repair_command e a secrets))"
    using g s unfolding b p by auto
  show ?thesis unfolding Inr sum.case using f(1-5) dry w d e b q by simp
qed simp

text \<open>The command line wins over the environment, the environment over the default; a value of a switch that
  is none of the known words counts as if it were not set.\<close>

lemma flag_precedence:
  "bool_flag v (Some b) key def = b" "v (env_prefix @ key) = None \<Longrightarrow> bool_flag v None key def = def"
  "v (env_prefix @ key) = Some x \<Longrightarrow> parse_env_bool x = Some b \<Longrightarrow> bool_flag v None key def = b"
  "v (env_prefix @ key) = Some x \<Longrightarrow> parse_env_bool x = None \<Longrightarrow> bool_flag v None key def = def"
  by (simp_all add: bool_flag_def env_bool_def)

text \<open>A preview asked for with a word the parser does not know is no preview.\<close>

lemma unknown_word_previews_nothing:
  assumes "cl_vars e ''HASTEWARD_DRY_RUN'' = Some ''enabled''" "ca_dry_run a = None" "fst (pre_run e a mode secrets) = Ok c"
  shows "\<not> rc_dry_run c"
proof -
  have "parse_env_bool ''enabled'' = None" by code_simp
  then show ?thesis using pre_run_ok(6)[OF assms(3)] assms(1,2) by (simp add: bool_flag_def env_bool_def env_prefix_def)
qed

lemma output_mode_roundtrip: "parse_output_mode (mode_string m) = Ok m" "resolve_mode tty m \<noteq> OutputAuto"
proof -
  have "parse_output_mode ''auto'' = Ok OutputAuto" "parse_output_mode ''human'' = Ok OutputHuman"
    "parse_output_mode ''json'' = Ok OutputJson" "parse_output_mode ''jsonl'' = Ok OutputJsonl" by code_simp+
  then show "parse_output_mode (mode_string m) = Ok m" by (cases m) (simp_all add: mode_string_def)
  show "resolve_mode tty m \<noteq> OutputAuto" by (simp add: resolve_mode_def)
qed

lemma bindings_distinct: "distinct (map bd_flag (fold register_binding bs []))"
proof -
  have "distinct (map bd_flag cs) \<Longrightarrow> distinct (map bd_flag (fold register_binding bs cs))" for cs
  proof (induction bs arbitrary: cs)
    case (Cons b bs)
    have "distinct (map bd_flag (register_binding b cs))" using Cons.prems by (auto simp: register_binding_def list_ex_iff)
    then show ?case using Cons.IH by simp
  qed simp
  then show ?thesis by simp
qed

end
