(* ===== verification/Listing.thy ===== *)
theory Listing
  imports Retention Operator Secrets
begin

text \<open>
  What the reading commands show (\<open>src/cmd/get.go\<close>): snapshots of one repository or of all declared ones,
  policies, repositories, and the status of managed databases.  The API server's lists and restic are
  parameters.  A secret read as an unstructured object has its values as the API sends them, in base64.
\<close>

section \<open>Snapshots\<close>

record snapshot_entry =
  se_repository :: string
  se_snapshot :: string
  se_type :: string
  se_engine :: string
  se_namespace :: string
  se_cluster :: string
  se_age :: string

definition trunc_div :: "int \<Rightarrow> int \<Rightarrow> int" where
  "trunc_div a b = (if 0 \<le> a then a div b else - ((- a) div b))"

definition truncate_duration :: "int \<Rightarrow> int \<Rightarrow> int" where
  "truncate_duration d unit = trunc_div d unit * unit"

definition minute :: int where "minute = 60 * nanos"
definition hour :: int where "hour = 60 * minute"
definition day :: int where "day = 24 * hour"

text \<open>Durations are whole seconds here, for which the floating point quotients of the source are exact enough to
  truncate to the integer quotient.\<close>

definition format_age :: "int \<Rightarrow> string" where
  "format_age d =
     (if d < minute then dec_str (trunc_div d nanos) @ ''s''
      else if d < hour then dec_str (trunc_div d minute) @ ''m''
      else if d < day then dec_str (trunc_div d hour) @ ''h''
      else dec_str (trunc_div d day) @ ''d'')"

definition entry_of :: "int \<Rightarrow> string \<Rightarrow> snapshot \<Rightarrow> snapshot_entry" where
  "entry_of now repo s =
     (let tm = tag_map s in
      \<lparr> se_repository = repo, se_snapshot = sn_short s, se_type = map_get [] tm ''type'', se_engine = map_get [] tm ''engine'',
         se_namespace = map_get [] tm ''namespace'', se_cluster = map_get [] tm ''cluster'',
         se_age = format_age (truncate_duration (now - sn_time s) nanos) \<rparr>)"

definition list_filter :: "string \<Rightarrow> string \<Rightarrow> string \<Rightarrow> (string \<times> string) list" where
  "list_filter typ ns cluster =
     (if typ \<noteq> ''all'' then [(''type'', typ)] else []) @ (if ns \<noteq> [] then [(''namespace'', ns)] else []) @
     (if cluster \<noteq> [] then [(''cluster'', cluster)] else [])"

text \<open>\<open>repoClient\<close>: the repository, the password as read, the environment as read.\<close>

definition unstructured_data :: "(string \<times> string) list \<Rightarrow> (string \<times> string) list" where
  "unstructured_data d = map (map_prod id base64_encode) d"

definition repo_client ::
  "(string \<Rightarrow> (string \<times> string) list option) \<Rightarrow> repository_cr \<Rightarrow>
     (credential_error, string \<times> string \<times> (string \<times> string) list) result" where
  "repo_client secret_of r =
     (case secret_of (rr_secret r) of
        None \<Rightarrow> Err (SecretMissing (rr_secret r))
      | Some data \<Rightarrow>
          (case map_of (unstructured_data data) (rr_key r) of
             None \<Rightarrow> Err (KeyMissing (rr_key r))
           | Some pw \<Rightarrow>
               (case rr_env r of
                  None \<Rightarrow> Ok (rr_repository r, pw, [])
                | Some es \<Rightarrow>
                    (case secret_of es of
                       None \<Rightarrow> Err (EnvMissing es)
                     | Some env \<Rightarrow> Ok (rr_repository r, pw, unstructured_data env)))))"

record list_env =
  le_now :: int
  le_repos :: "(string \<times> repository_cr) list option"
  le_secret :: "string \<Rightarrow> (string \<times> string) list option"
  le_open :: "string \<Rightarrow> string \<Rightarrow> (string \<times> string) list \<Rightarrow> snapshot list option"

definition snapshots_in :: "list_env \<Rightarrow> string \<times> string \<times> (string \<times> string) list \<Rightarrow> (string \<times> string) list \<Rightarrow> snapshot list option" where
  "snapshots_in e cred f = (case cred of (path, pw, env) \<Rightarrow> map_option (filter (matches_tags f)) (le_open e path pw env))"

datatype list_error = SnapshotsUnread | RepositoriesUnread

definition list_repo :: "list_env \<Rightarrow> (string \<times> string) list \<Rightarrow> string \<times> repository_cr \<Rightarrow> snapshot_entry list" where
  "list_repo e f nr =
     (case repo_client (le_secret e) (snd nr) of
        Inl _ \<Rightarrow> []
      | Inr cred \<Rightarrow> (case snapshots_in e cred f of None \<Rightarrow> [] | Some ss \<Rightarrow> map (entry_of (le_now e) (fst nr)) ss))"

definition list_backups :: "list_env \<Rightarrow> string \<Rightarrow> string \<Rightarrow> (string \<times> string) list \<Rightarrow> (list_error, snapshot_entry list) result" where
  "list_backups e path pw f =
     (if path \<noteq> [] \<and> pw \<noteq> [] then
        (case snapshots_in e (path, pw, []) f of None \<Rightarrow> Err SnapshotsUnread | Some ss \<Rightarrow> Ok (map (entry_of (le_now e) path) ss))
      else (case le_repos e of None \<Rightarrow> Err RepositoriesUnread | Some rs \<Rightarrow> Ok (concat (map (list_repo e f) rs))))"

section \<open>Status\<close>

record status_entry =
  ye_engine :: string
  ye_namespace :: string
  ye_name :: string
  ye_managed :: string
  ye_triage :: string
  ye_last_triage :: string
  ye_last_backup :: string

record database_object =
  do_namespace :: string
  do_name :: string
  do_annotations :: "(string \<times> string) list option"

definition or_dash :: "string \<Rightarrow> string \<Rightarrow> string" where
  "or_dash d s = (if s = [] then d else s)"

definition extract_status :: "bool \<Rightarrow> string \<Rightarrow> database_object \<Rightarrow> status_entry option" where
  "extract_status all_ns eng o' =
     (case do_annotations o' of
        None \<Rightarrow> None
      | Some ann \<Rightarrow>
          if map_get [] ann (clinic ''managed'') \<noteq> ''true'' \<and> map_get [] ann (clinic ''policy'') = [] \<and> \<not> all_ns then None
          else Some \<lparr> ye_engine = eng, ye_namespace = do_namespace o', ye_name = do_name o',
                      ye_managed = or_dash ''false'' (map_get [] ann (clinic ''managed'')),
                      ye_triage = or_dash ''-'' (map_get [] ann (clinic ''last-triage-result'')),
                      ye_last_triage = or_dash ''-'' (map_get [] ann (clinic ''last-triage'')),
                      ye_last_backup = or_dash ''-'' (map_get [] ann (clinic ''last-backup'')) \<rparr>)"

definition run_status :: "bool \<Rightarrow> database_object list option \<Rightarrow> database_object list option \<Rightarrow> status_entry list" where
  "run_status all_ns cnpg mariadb =
     (case cnpg of None \<Rightarrow> [] | Some os \<Rightarrow> List.map_filter (extract_status all_ns ''cnpg'') os) @
     (case mariadb of None \<Rightarrow> [] | Some os \<Rightarrow> List.map_filter (extract_status all_ns ''galera'') os)"

section \<open>Properties\<close>

lemma base64_length: "s \<noteq> [] \<Longrightarrow> length s < length (base64_encode s)"
proof (induction s rule: base64_encode.induct)
  case (4 a b c s)
  then show ?case by (cases "s = []") auto
qed auto

lemma map_of_unstructured: "map_of (unstructured_data d) k = map_option base64_encode (map_of d k)"
  by (induction d) (auto simp: unstructured_data_def)

text \<open>The client of the reading commands and the operator's job read the same password in two forms: what the
  operator's job opens, the listing does not, and it says nothing of the repository it left out.\<close>

theorem listing_misses_the_operators_repository:
  "case repo_credentials (\<lambda>_. Some r) (le_secret e) name of
     Inl _ \<Rightarrow> True
   | Inr (path, pw, env) \<Rightarrow>
       if pw \<noteq> [] then
         (\<exists>env'. repo_client (le_secret e) r = Ok (path, base64_encode pw, env')) \<and> base64_encode pw \<noteq> pw \<and>
         (if (\<forall>p q. if p = pw then True else le_open e path p q = None) \<and> le_repos e = Some [(name, r)]
          then list_backups e [] [] f = Ok [] else True)
       else True"
proof (cases "repo_credentials (\<lambda>_. Some r) (le_secret e) name")
  case (Inr x)
  obtain path pw env where x: "x = (path, pw, env)" by (cases x)
  have ne: "base64_encode pw \<noteq> pw" if "pw \<noteq> []" using base64_length[OF that] by auto
  obtain data where d: "le_secret e (rr_secret r) = Some data" "map_of data (rr_key r) = Some pw" "path = rr_repository r"
    using Inr x by (auto simp: repo_credentials_def split: option.splits)
  have c: "\<exists>env'. repo_client (le_secret e) r = Ok (path, base64_encode pw, env')"
    using Inr x d by (auto simp: repo_client_def repo_credentials_def map_of_unstructured split: option.splits)
  have "list_backups e [] [] f = Ok []"
    if "pw \<noteq> []" "\<forall>p q. if p = pw then True else le_open e path p q = None" "le_repos e = Some [(name, r)]"
    using c ne[OF that(1)] that by (auto simp: list_backups_def list_repo_def snapshots_in_def)
  then show ?thesis using Inr x c ne by simp
qed simp

text \<open>An age is printed in the largest unit it fills, rounded down.\<close>

lemma age_units:
  assumes "0 \<le> d"
  shows "\<exists>n u c. format_age d = dec_str n @ [c] \<and> n * u \<le> d \<and> d < (n + 1) * u \<and> u \<in> {nanos, minute, hour, day} \<and> (u \<noteq> day \<longrightarrow> n < 60)"
proof -
  have q: "trunc_div d u * u \<le> d \<and> d < (trunc_div d u + 1) * u" if "0 < u" for u
  proof -
    have "d div u * u + d mod u = d" by (rule div_mult_mod_eq)
    moreover have "0 \<le> d mod u" "d mod u < u" using that by simp_all
    moreover have "(d div u + 1) * u = d div u * u + u" by (simp add: distrib_right)
    ultimately have "d div u * u \<le> d \<and> d < (d div u + 1) * u" by linarith
    then show ?thesis using assms by (simp add: trunc_div_def)
  qed
  have p: "0 < nanos" "0 < minute" "0 < hour" "0 < day" by (simp_all add: nanos_def minute_def hour_def day_def)
  have b: "trunc_div d u < k" if "0 < u" "d < k * u" for u k
    using q[OF that(1)] that by (meson le_less_trans mult_less_cancel_right_disj not_less_iff_gr_or_eq)
  show ?thesis
  proof (cases "d < minute")
    case True
    then show ?thesis using q[OF p(1)] b[OF p(1), of 60] by (intro exI[of _ "trunc_div d nanos"] exI[of _ nanos] exI) (simp add: format_age_def minute_def)
  next
    case m: False
    show ?thesis
    proof (cases "d < hour")
      case True
      then show ?thesis using m q[OF p(2)] b[OF p(2), of 60]
        by (intro exI[of _ "trunc_div d minute"] exI[of _ minute] exI) (simp add: format_age_def hour_def)
    next
      case h: False
      show ?thesis
      proof (cases "d < day")
        case True
        then show ?thesis using m h q[OF p(3)] b[OF p(3), of 24]
          by (intro exI[of _ "trunc_div d hour"] exI[of _ hour] exI) (auto simp: format_age_def day_def)
      next
        case False
        then show ?thesis using m h q[OF p(4)]
          by (intro exI[of _ "trunc_div d day"] exI[of _ day] exI) (auto simp: format_age_def)
      qed
    qed
  qed
qed

lemma extract_status_managed:
  "extract_status False eng o' = Some y \<Longrightarrow> \<exists>ann. do_annotations o' = Some ann \<and> ye_name y = do_name o' \<and>
     (map_get [] ann (clinic ''managed'') = ''true'' \<or> map_get [] ann (clinic ''policy'') \<noteq> [])"
  by (cases "do_annotations o'") (auto simp: extract_status_def split: if_splits)

text \<open>Without the switch the status shows only databases that carry the mark or name a policy.\<close>

lemma status_of_managed:
  assumes "y \<in> set (run_status False cnpg mariadb)"
  shows "\<exists>os o' ann. (cnpg = Some os \<or> mariadb = Some os) \<and> o' \<in> set os \<and> do_annotations o' = Some ann \<and> ye_name y = do_name o' \<and>
       (map_get [] ann (clinic ''managed'') = ''true'' \<or> map_get [] ann (clinic ''policy'') \<noteq> [])"
proof -
  have "set (List.map_filter f xs) = {z. \<exists>x\<in>set xs. f x = Some z}" for f :: "database_object \<Rightarrow> status_entry option" and xs
    by (induction xs) (auto simp: List.map_filter_simps split: option.split)
  then obtain os o' eng where "cnpg = Some os \<or> mariadb = Some os" "o' \<in> set os" "extract_status False eng o' = Some y"
    using assms by (auto simp: run_status_def split: option.splits)
  then show ?thesis using extract_status_managed by blast
qed

end
