(* ===== verification/Self_Update.thy ===== *)
theory Self_Update
  imports Go_Strings
begin

text \<open>
  The update of the local binary (\<open>src/cmd/update.go\<close>): pull, extract beside the installed file, try, swap.
  Docker and the file system are parameters; printed lines and resolving the path are left out.
\<close>

definition update_default_image :: string where "update_default_image = ''ghcr.io/prplanit/hasteward:latest''"
definition update_dev_image :: string where "update_dev_image = ''ghcr.io/prplanit/hasteward:latest-dev''"

definition update_ref :: "string \<Rightarrow> bool \<Rightarrow> string" where
  "update_ref img dev = (if img \<noteq> [] then img else if dev then update_dev_image else update_default_image)"

text \<open>The files as their contents; an extraction gives the image's binary, or fails after writing some part.\<close>

record host =
  ht_installed :: string
  ht_staged :: "string option"
  ht_containers :: "string list"

record update_env =
  ue_located :: bool
  ue_open :: bool
  ue_pull :: "string \<Rightarrow> bool"
  ue_create :: "string \<Rightarrow> string option"
  ue_copy :: "string \<Rightarrow> bool \<times> string"
  ue_chmod :: bool
  ue_runs :: "string \<Rightarrow> bool"
  ue_rename :: bool
  ue_remove :: bool
  ue_rm :: bool

datatype update_error =
  NotLocated | NotWritable | PullFailed | ContainerFailed | CopyFailed | ChmodFailed | BinaryDoesNotRun | SwapFailed

definition remove_staged :: "update_env \<Rightarrow> host \<Rightarrow> host" where
  "remove_staged e h = (if ue_remove e then h\<lparr> ht_staged := None \<rparr> else h)"

definition remove_container :: "update_env \<Rightarrow> string \<Rightarrow> host \<Rightarrow> host" where
  "remove_container e cid h = (if ue_rm e then h\<lparr> ht_containers := removeAll cid (ht_containers h) \<rparr> else h)"

text \<open>From the container to the swap.\<close>

definition swap_binary :: "update_env \<Rightarrow> string \<Rightarrow> host \<Rightarrow> update_error option \<times> host" where
  "swap_binary e cid h =
     (case ue_copy e cid of
        (ok, content) \<Rightarrow>
          let h1 = h\<lparr> ht_staged := Some content \<rparr> in
          if \<not> ok then (Some CopyFailed, h1)
          else if \<not> ue_chmod e then (Some ChmodFailed, h1)
          else if \<not> ue_runs e content then (Some BinaryDoesNotRun, h1)
          else if \<not> ue_rename e then (Some SwapFailed, h1)
          else (None, h1\<lparr> ht_installed := content, ht_staged := None \<rparr>))"

definition run_update :: "update_env \<Rightarrow> string \<Rightarrow> bool \<Rightarrow> bool \<Rightarrow> host \<Rightarrow> update_error option \<times> host" where
  "run_update e img dev dry h =
     (let ref = update_ref img dev in
      if \<not> ue_located e then (Some NotLocated, h)
      else if dry then (None, h)
      else if \<not> ue_open e then (Some NotWritable, h)
      else (let h1 = h\<lparr> ht_staged := Some '''' \<rparr>;
                (err, h2) =
                  (if \<not> ue_pull e ref then (Some PullFailed, h1)
                   else (case ue_create e ref of
                           None \<Rightarrow> (Some ContainerFailed, h1)
                         | Some out \<Rightarrow>
                             let cid = trim_space out;
                                 (err, h3) = swap_binary e cid (h1\<lparr> ht_containers := cid # ht_containers h1 \<rparr>)
                             in (err, remove_container e cid h3)))
            in (err, remove_staged e h2)))"

text \<open>Whatever fails, the installed file is the old one or, after a success, a binary of the image that ran on this
  host; nothing staged and no container is left when the clean-up works, and a preview changes nothing.\<close>

theorem update_swaps_or_keeps:
  "case run_update e img dev dry h of
     (err, h') \<Rightarrow>
       (if err = None \<and> \<not> dry
        then \<exists>out. ue_create e (update_ref img dev) = Some out \<and> ue_copy e (trim_space out) = (True, ht_installed h') \<and>
          ue_runs e (ht_installed h')
        else ht_installed h' = ht_installed h) \<and>
       (if dry then h' = h else True) \<and>
       (if ue_remove e \<and> ht_staged h = None then ht_staged h' = None else True) \<and>
       (if ue_rm e \<and> (case ue_create e (update_ref img dev) of None \<Rightarrow> True | Some out \<Rightarrow> trim_space out \<notin> set (ht_containers h))
        then ht_containers h' = ht_containers h else True)"
proof (cases "ue_located e \<and> \<not> dry \<and> ue_open e \<and> ue_pull e (update_ref img dev)")
  case False
  then show ?thesis by (auto simp: run_update_def Let_def remove_staged_def)
next
  case True
  show ?thesis
  proof (cases "ue_create e (update_ref img dev)")
    case None
    then show ?thesis using True by (simp add: run_update_def Let_def remove_staged_def)
  next
    case (Some out)
    obtain ok content where "ue_copy e (trim_space out) = (ok, content)" by fastforce
    then show ?thesis using True Some
      by (simp add: run_update_def Let_def remove_staged_def remove_container_def swap_binary_def removeAll_id)
  qed
qed

end
