(* ===== verification/Machine_Output.thy ===== *)
theory Machine_Output
  imports Listing Invocation Repair_Run
begin

text \<open>
  What a command prints (\<open>src/output\<close>, \<open>src/cmd/sink.go\<close>, \<open>main.go\<close>, the services' steps and the tails of
  the commands): human lines, or one document, or a stream of events that ends in the result.
  The console is the state; what an engine says while it works, the time and the run's id are parameters.
  A line is one entry of the output; the encoding of a document as text is the encoder's.
\<close>

section \<open>Documents\<close>

datatype detail = DetailInt int | DetailBool bool

record out_event =
  ev_type :: string
  ev_command :: string
  ev_run :: string
  ev_time :: int
  ev_phase :: string
  ev_message :: string
  ev_resource :: "object_ref option"
  ev_success :: "bool option"
  ev_details :: "(string \<times> detail) list"

definition new_event :: "string \<Rightarrow> string \<Rightarrow> string \<Rightarrow> int \<Rightarrow> out_event" where
  "new_event ty command run now =
     \<lparr> ev_type = ty, ev_command = command, ev_run = run, ev_time = now, ev_phase = '''', ev_message = '''',
        ev_resource = None, ev_success = None, ev_details = [] \<rparr>"

definition with_phase :: "string \<Rightarrow> out_event \<Rightarrow> out_event" where "with_phase p e = e\<lparr> ev_phase := p \<rparr>"
definition event_message :: "string \<Rightarrow> out_event \<Rightarrow> out_event" where "event_message m e = e\<lparr> ev_message := m \<rparr>"
definition with_success :: "bool \<Rightarrow> out_event \<Rightarrow> out_event" where "with_success b e = e\<lparr> ev_success := Some b \<rparr>"

record output_warning =
  ow_code :: string
  ow_message :: string

record structured_error =
  se_code :: string
  se_category :: string
  se_message :: string
  se_retryable :: bool

definition new_error :: "string \<Rightarrow> string \<Rightarrow> string \<Rightarrow> structured_error" where
  "new_error code category msg = \<lparr> se_code = code, se_category = category, se_message = msg, se_retryable = False \<rparr>"

record 'a envelope =
  en_schema :: string
  en_command :: string
  en_run :: string
  en_success :: bool
  en_partial :: bool
  en_exit :: int
  en_time :: int
  en_duration_ms :: int
  en_warnings :: "output_warning list"
  en_errors :: "structured_error list"
  en_data :: 'a

definition new_envelope :: "string \<Rightarrow> string \<Rightarrow> int \<Rightarrow> 'a \<Rightarrow> 'a envelope" where
  "new_envelope command run now d =
     \<lparr> en_schema = ''v1alpha1'', en_command = command, en_run = run, en_success = True, en_partial = False, en_exit = 0,
        en_time = now, en_duration_ms = 0, en_warnings = [], en_errors = [], en_data = d \<rparr>"

definition with_duration :: "int \<Rightarrow> 'a envelope \<Rightarrow> 'a envelope" where
  "with_duration ns e = e\<lparr> en_duration_ms := trunc_div ns 1000000 \<rparr>"

definition with_warnings :: "output_warning list \<Rightarrow> 'a envelope \<Rightarrow> 'a envelope" where
  "with_warnings ws e = e\<lparr> en_warnings := en_warnings e @ ws \<rparr>"

definition with_errors :: "int \<Rightarrow> structured_error list \<Rightarrow> 'a envelope \<Rightarrow> 'a envelope" where
  "with_errors code es e = e\<lparr> en_success := False, en_exit := code, en_errors := en_errors e @ es \<rparr>"

definition completion_event ::
  "string \<Rightarrow> string \<Rightarrow> int \<Rightarrow> bool \<Rightarrow> bool \<Rightarrow> int \<Rightarrow> output_warning list \<Rightarrow> structured_error list \<Rightarrow> out_event" where
  "completion_event command run now ok partial code ws es =
     (new_event ''run.completed'' command run now)
       \<lparr> ev_success := Some ok,
         ev_details := [(''exitCode'', DetailInt code), (''partial'', DetailBool partial)]
           @ (if ws \<noteq> [] then [(''warningCount'', DetailInt (int (length ws)))] else [])
           @ (if es \<noteq> [] then [(''errorCount'', DetailInt (int (length es)))] else []) \<rparr>"

section \<open>The console\<close>

text \<open>The two streams; \<open>co_enabled\<close> is the switch of the human writer, \<open>co_log\<close> the records handed to the logger.\<close>

datatype 'a document = HumanLine string | EventDoc out_event | EnvelopeDoc "'a option envelope"

record 'a console =
  co_enabled :: bool
  co_stdout :: "'a document list"
  co_stderr :: "string list"
  co_log :: "string list"

definition fresh_console :: "'a console" where
  "fresh_console = \<lparr> co_enabled = True, co_stdout = [], co_stderr = [], co_log = [] \<rparr>"

definition emit :: "'a document \<Rightarrow> 'a console \<Rightarrow> 'a console" where
  "emit d c = c\<lparr> co_stdout := co_stdout c @ [d] \<rparr>"

definition set_enabled :: "bool \<Rightarrow> 'a console \<Rightarrow> 'a console" where "set_enabled b c = c\<lparr> co_enabled := b \<rparr>"

definition say :: "string list \<Rightarrow> 'a console \<Rightarrow> 'a console" where
  "say ls c = (if co_enabled c then c\<lparr> co_stdout := co_stdout c @ map HumanLine ls \<rparr> else c)"

definition to_upper_char :: "char \<Rightarrow> char" where
  "to_upper_char c = (if 97 \<le> byte_of c \<and> byte_of c \<le> 122 then char_of (byte_of c - 32) else c)"

definition out_banner :: "string \<Rightarrow> 'a console \<Rightarrow> 'a console" where
  "out_banner title = (let bar = replicate 60 (CHR ''='') in say ['''', bar, ''  '' @ title, bar, ''''])"

definition out_header :: "string \<Rightarrow> string \<Rightarrow> string \<Rightarrow> string \<Rightarrow> int \<Rightarrow> 'a console \<Rightarrow> 'a console" where
  "out_header eng mode cluster ns now =
     say [''=== HASteward / '' @ map to_upper_char eng @ '' ('' @ mode @ '') ==='',
          (if eng = ''galera'' then ''MariaDB: '' else ''Cluster: '') @ cluster, ''Namespace: '' @ ns,
          ''Timestamp: '' @ format_rfc3339 now]"

definition out_section :: "string \<Rightarrow> 'a console \<Rightarrow> 'a console" where
  "out_section title = say [''--- '' @ title @ '' ---'']"

definition out_field :: "string \<Rightarrow> string \<Rightarrow> 'a console \<Rightarrow> 'a console" where
  "out_field label value = say [label @ '': '' @ value]"

definition out_bullet :: "nat \<Rightarrow> string \<Rightarrow> 'a console \<Rightarrow> 'a console" where
  "out_bullet indent msg = say [concat (replicate indent ''  '') @ ''- '' @ msg]"

definition out_info :: "string \<Rightarrow> 'a console \<Rightarrow> 'a console" where "out_info msg = say [''  >> '' @ msg]"
definition out_success :: "string \<Rightarrow> 'a console \<Rightarrow> 'a console" where "out_success msg = say [''[OK] '' @ msg]"
definition out_warn :: "string \<Rightarrow> 'a console \<Rightarrow> 'a console" where "out_warn msg = say [''[WARN] '' @ msg]"
definition out_fail :: "string \<Rightarrow> 'a console \<Rightarrow> 'a console" where "out_fail msg = say [''[FAIL] '' @ msg]"
definition out_complete :: "string \<Rightarrow> 'a console \<Rightarrow> 'a console" where "out_complete msg = say [''=== '' @ msg @ '' ==='']"

text \<open>A plan goes to the log in every mode.\<close>

definition out_plan :: "string \<Rightarrow> 'a console \<Rightarrow> 'a console" where
  "out_plan msg c = say [''  >> '' @ msg] (c\<lparr> co_log := co_log c @ [msg] \<rparr>)"

definition out_stderr :: "string \<Rightarrow> 'a console \<Rightarrow> 'a console" where
  "out_stderr msg c = c\<lparr> co_stderr := co_stderr c @ [msg] \<rparr>"

definition suggested_commands :: "string \<Rightarrow> string \<Rightarrow> string \<Rightarrow> 'a console \<Rightarrow> 'a console" where
  "suggested_commands eng cluster ns c =
     (let verb = ''  hasteward repair -e '' @ eng @ '' -c '' @ cluster @ '' -n '' @ ns in
      say [''Repair all unhealthy instances:'', verb @ '' --backups-path /backups'', '''', ''Repair a specific instance:'',
           verb @ '' --instance <N> --backups-path /backups''] (out_section ''Suggested Commands'' (say [''''] c)))"

section \<open>The printer\<close>

text \<open>The mode is resolved; \<open>pr_now\<close> is the clock by the number of documents already written.\<close>

record printer =
  pr_mode :: output_mode
  pr_command :: string
  pr_run :: string
  pr_start :: int
  pr_now :: "nat \<Rightarrow> int"

definition is_human :: "printer \<Rightarrow> bool" where "is_human p \<longleftrightarrow> pr_mode p = OutputHuman"

definition clock_at :: "printer \<Rightarrow> 'a console \<Rightarrow> int" where "clock_at p c = pr_now p (length (co_stdout c))"

definition emit_event :: "printer \<Rightarrow> out_event \<Rightarrow> 'a console \<Rightarrow> 'a console" where
  "emit_event p e c = (if pr_mode p = OutputJsonl then emit (EventDoc e) c else c)"

definition result_envelope :: "printer \<Rightarrow> int \<Rightarrow> 'a option \<Rightarrow> output_warning list \<Rightarrow> string option \<Rightarrow> 'a option envelope" where
  "result_envelope p now d ws err =
     (let e = with_warnings ws (with_duration (now - pr_start p) (new_envelope (pr_command p) (pr_run p) now d)) in
      case err of None \<Rightarrow> e | Some msg \<Rightarrow> with_errors 1 [new_error ''command.failed'' ''internal'' msg] e)"

definition print_result :: "printer \<Rightarrow> 'a option \<Rightarrow> output_warning list \<Rightarrow> string option \<Rightarrow> 'a console \<Rightarrow> int \<times> 'a console" where
  "print_result p d ws err c =
     (let e = result_envelope p (clock_at p c) d ws err in
      (en_exit e,
       case pr_mode p of
         OutputJson \<Rightarrow> emit (EnvelopeDoc e) c
       | OutputJsonl \<Rightarrow>
           let c1 = emit (EnvelopeDoc e) c in
           emit_event p (completion_event (pr_command p) (pr_run p) (clock_at p c1) (en_success e) (en_partial e) (en_exit e)
                           (en_warnings e) (en_errors e)) c1
       | OutputHuman \<Rightarrow> (case err of None \<Rightarrow> c | Some msg \<Rightarrow> emit (HumanLine (''[FAIL] '' @ msg)) c)
       | OutputAuto \<Rightarrow> c))"

text \<open>The adapter from an engine's steps to the printer: it knows two states of a step.\<close>

definition sink_step :: "printer \<Rightarrow> string \<Rightarrow> string \<Rightarrow> 'a console \<Rightarrow> 'a console" where
  "sink_step p name status c =
     (let ev = \<lambda>ty. new_event ty (pr_command p) (pr_run p) (clock_at p c) in
      if status = ''running''
      then (let c1 = emit_event p (event_message (name @ '' started'') (with_phase name (ev ''step.started''))) c
            in if is_human p then out_section name c1 else c1)
      else if status = ''done'' then emit_event p (with_success True (with_phase name (ev ''step.completed''))) c
      else c)"

section \<open>What an engine says\<close>

text \<open>Steps, human text and log records, in the order the engine produces them.\<close>

datatype talk = Step string string | Say "string list" | Log string

fun talk_step :: "printer \<Rightarrow> talk \<Rightarrow> 'a console \<Rightarrow> 'a console" where
  "talk_step p (Step name status) c = sink_step p name status c"
| "talk_step p (Say ls) c = say ls c"
| "talk_step p (Log m) c = c\<lparr> co_log := co_log c @ [m] \<rparr>"

definition play :: "printer \<Rightarrow> talk list \<Rightarrow> 'a console \<Rightarrow> 'a console" where "play p ts = fold (talk_step p) ts"

text \<open>What a service answers: a result, an error, or both.\<close>

type_synonym 'a answer = "'a option \<times> string option"

definition one_step_service :: "string \<Rightarrow> talk list \<times> 'a answer \<Rightarrow> talk list \<times> 'a answer" where
  "one_step_service name body =
     (case body of (says, d, err) \<Rightarrow>
        (Step name ''running'' # says @ (if err = None then [Step name ''done''] else []), (if err = None then d else None), err))"

definition backup_service :: "talk list \<times> 'a answer \<Rightarrow> talk list \<times> 'a answer" where "backup_service = one_step_service ''backup''"
definition restore_service :: "talk list \<times> 'a answer \<Rightarrow> talk list \<times> 'a answer" where "restore_service = one_step_service ''restore''"
definition retention_service :: "talk list \<times> 'a answer \<Rightarrow> talk list \<times> 'a answer" where "retention_service = one_step_service ''retention''"
definition prune_wal_service :: "talk list \<times> 'a answer \<Rightarrow> talk list \<times> 'a answer" where "prune_wal_service = one_step_service ''prune-wal''"

text \<open>The bootstrap keeps what it has decided when it fails.\<close>

definition bootstrap_service :: "talk list \<times> 'a answer \<Rightarrow> talk list \<times> 'a answer" where
  "bootstrap_service body =
     (case body of (says, d, err) \<Rightarrow>
        (Step ''bootstrap'' ''running'' # says @ (if err = None then [Step ''bootstrap'' ''done''] else []), d, err))"

definition triage_service :: "talk list \<times> string option \<Rightarrow> talk list \<times> 'a answer \<Rightarrow> talk list \<times> 'a answer" where
  "triage_service collect analyze =
     (case collect of
        (says, Some err) \<Rightarrow> (Step ''collect'' ''running'' # says, None, Some err)
      | (says, None) \<Rightarrow>
          (case one_step_service ''analyze'' analyze of
             (ts, a) \<Rightarrow> (Step ''collect'' ''running'' # says @ Step ''collect'' ''done'' # ts, a)))"

text \<open>The steps of a repair, from the same hooks as the run.\<close>

definition step_done :: "string \<Rightarrow> talk list" where "step_done name = [Step name ''running'', Step name ''done'']"

fun heal_steps :: "('s, 'e) repairer \<Rightarrow> heal_target list \<Rightarrow> 's \<Rightarrow> talk list" where
  "heal_steps r [] s = []"
| "heal_steps r (t # ts) s =
     Step (''heal-'' @ ht_pod t) ''running'' #
       (case hk_heal r t s of (Some _, _) \<Rightarrow> [] | (None, s1) \<Rightarrow> Step (''heal-'' @ ht_pod t) ''done'' # heal_steps r ts s1)"

definition finish_steps :: "('s, 'e) repairer \<Rightarrow> string list \<Rightarrow> 's \<Rightarrow> talk list" where
  "finish_steps r healed s =
     step_done ''stabilize'' @ step_done ''reassess'' @
       (if healed = [] then []
        else Step ''verify'' ''running'' #
          (case hk_verify r healed (snd (hk_reassess r (hk_stabilize r s))) of
             (Some _, _) \<Rightarrow> [Step ''verify'' ''failed''] | (None, _) \<Rightarrow> [Step ''verify'' ''done'']))"

definition mutate_steps :: "('s, 'e) repairer \<Rightarrow> triage_result \<Rightarrow> 's \<Rightarrow> talk list" where
  "mutate_steps r t s =
     Step ''safety-gate'' ''running'' #
     (case hk_gate r t s of
        (Some _, _) \<Rightarrow> []
      | (None, s1) \<Rightarrow>
          [Step ''safety-gate'' ''done'', Step ''escrow'' ''running''] @
          (case hk_escrow r t s1 of
             (Some _, _) \<Rightarrow> []
           | (None, s2) \<Rightarrow>
               [Step ''escrow'' ''done'', Step ''plan'' ''running''] @
               (case hk_plan r t s2 of
                  Inl _ \<Rightarrow> []
                | Inr ts \<Rightarrow>
                    Step ''plan'' ''done'' #
                    (if ts = [] then []
                     else heal_steps r ts s2 @
                       (case heal_each r ts s2 of
                          (Some _, _) \<Rightarrow> [] | (None, s3) \<Rightarrow> finish_steps r (map ht_pod ts) s3)))))"

definition repair_steps :: "('s, 'e) repairer \<Rightarrow> 's \<Rightarrow> talk list" where
  "repair_steps r s =
     (case hk_lock r s of
        (Some _, _) \<Rightarrow> []
      | (None, s1) \<Rightarrow>
          Step ''pre-assess'' ''running'' #
          (case hk_pre r s1 of
             (PreCleanStop, _) \<Rightarrow> [Step ''pre-assess'' ''done'']
           | (PreError _, _) \<Rightarrow> []
           | (PreGoOn, s2) \<Rightarrow>
               [Step ''pre-assess'' ''done'', Step ''assess'' ''running''] @
               (case hk_assess r s2 of
                  (Inl _, _) \<Rightarrow> []
                | (Inr t, s3) \<Rightarrow> Step ''assess'' ''done'' # (if hk_dry_run r then [] else mutate_steps r t s3))))"

section \<open>The commands' tails\<close>

text \<open>Triage, repair, backup, restore, prune and prune-wal: an error is reported without the result.\<close>

type_synonym 'a tail = "printer \<Rightarrow> 'a answer \<Rightarrow> 'a console \<Rightarrow> string option \<times> 'a console"

definition reported_tail :: "('a option \<Rightarrow> string) \<Rightarrow> 'a tail" where
  "reported_tail summary p a c =
     (case a of
        (_, Some err) \<Rightarrow> (Some err, if is_human p then c else snd (print_result p None [] (Some err) c))
      | (d, None) \<Rightarrow> (None, if is_human p then out_complete (summary d) c else snd (print_result p d [] None c)))"

definition bootstrap_tail :: "bool \<Rightarrow> ('a option \<Rightarrow> 'a console \<Rightarrow> 'a console) \<Rightarrow> 'a tail" where
  "bootstrap_tail dry plan p a c =
     (case a of
        (d, Some err) \<Rightarrow> (Some err, if \<not> is_human p \<and> d \<noteq> None then snd (print_result p d [] (Some err) c) else c)
      | (d, None) \<Rightarrow>
          (None, if is_human p then (if dry then plan d c else out_complete ''Bootstrap complete'' c)
                 else snd (print_result p d [] None c)))"

text \<open>An export answers a result only when it wrote a file; a failure and a preview print nothing.\<close>

definition export_tail :: "'a tail" where
  "export_tail p a c =
     (case a of
        (_, Some err) \<Rightarrow> (Some err, c)
      | (None, None) \<Rightarrow> (None, c)
      | (Some d, None) \<Rightarrow> (None, if is_human p then c else snd (print_result p (Some d) [] None c)))"

definition reset_tail :: "string \<Rightarrow> bool \<Rightarrow> 'a tail" where
  "reset_tail took dry p a c =
     (case a of
        (_, Some err) \<Rightarrow> (Some err, c)
      | (_, None) \<Rightarrow>
          (None, if dry then out_plan (''DRY RUN: plan above '' @ em_dash @ '' stopping before any mutation (no CR suspend, scale-to-0, grastate reset, or pod delete). No changes made.'') c
                 else out_complete (''Reset-authority complete ('' @ took @ '')'') c))"

section \<open>A whole command\<close>

record 'a invocation =
  iv_mode :: string
  iv_tty :: bool
  iv_command :: string
  iv_run :: string
  iv_start :: int
  iv_now :: "nat \<Rightarrow> int"
  iv_checks :: "string option"
  iv_header :: "string \<times> string \<times> string \<times> int"
  iv_validate :: "string option"
  iv_talk :: "talk list"
  iv_answer :: "'a answer"

text \<open>\<open>iv_checks\<close> is what the command and \<open>PreRun\<close> refuse before the header is printed, \<open>iv_validate\<close> what
  the provider, the registry and the command refuse after it.\<close>

definition init_printer :: "'a invocation \<Rightarrow> 'a console \<Rightarrow> (cli_error, printer \<times> 'a console) result" where
  "init_printer i c =
     bind_ok (parse_output_mode (iv_mode i)) (\<lambda>m.
       let p = \<lparr> pr_mode = resolve_mode (iv_tty i) m, pr_command = iv_command i, pr_run = iv_run i, pr_start = iv_start i, pr_now = iv_now i \<rparr>
       in Ok (p, set_enabled (is_human p) c))"

definition print_header :: "'a invocation \<Rightarrow> printer \<Rightarrow> 'a console \<Rightarrow> 'a console" where
  "print_header i p c =
     (case iv_header i of (eng, cluster, ns, now) \<Rightarrow> if is_human p then out_header eng (iv_command i) cluster ns now c else c)"

definition run_verb :: "'a tail \<Rightarrow> 'a invocation \<Rightarrow> printer \<Rightarrow> 'a console \<Rightarrow> string option \<times> 'a console" where
  "run_verb tail i p c =
     (case iv_checks i of
        Some err \<Rightarrow> (Some err, c)
      | None \<Rightarrow>
          (let c1 = print_header i p c in
           case iv_validate i of Some err \<Rightarrow> (Some err, c1) | None \<Rightarrow> tail p (iv_answer i) (play p (iv_talk i) c1)))"

definition main_exit :: "string option \<times> 'a console \<Rightarrow> int \<times> 'a console" where
  "main_exit r = (case r of (None, c) \<Rightarrow> (0, c) | (Some err, c) \<Rightarrow> (1, out_stderr (''Error: '' @ err) c))"

definition bad_mode_text :: "string \<Rightarrow> string" where
  "bad_mode_text s = ''invalid output mode '' @ [CHR 0x22] @ s @ [CHR 0x22] @ '' (valid: auto, human, json, jsonl)''"

definition program_run :: "'a tail \<Rightarrow> 'a invocation \<Rightarrow> int \<times> 'a console" where
  "program_run tail i =
     main_exit (case init_printer i fresh_console of
                  Inl _ \<Rightarrow> (Some (bad_mode_text (iv_mode i)), fresh_console)
                | Inr (p, c) \<Rightarrow> run_verb tail i p c)"

section \<open>What a reader of the output can rely on\<close>

definition result_agrees :: "int \<Rightarrow> 'a option envelope \<Rightarrow> bool" where
  "result_agrees status e \<longleftrightarrow> en_exit e = status \<and> (en_success e \<longleftrightarrow> status = 0) \<and> (en_errors e = [] \<longleftrightarrow> status = 0)"

definition completion_agrees :: "int \<Rightarrow> out_event \<Rightarrow> bool" where
  "completion_agrees status v \<longleftrightarrow> ev_type v = ''run.completed'' \<and> ev_success v = Some (status = 0) \<and>
     map_of (ev_details v) ''exitCode'' = Some (DetailInt status)"

definition is_step :: "'a document \<Rightarrow> bool" where
  "is_step d = (case d of EventDoc v \<Rightarrow> ev_type v = ''step.started'' \<or> ev_type v = ''step.completed'' | _ \<Rightarrow> False)"

definition json_output :: "int \<Rightarrow> 'a document list \<Rightarrow> bool" where
  "json_output status out = (case out of [EnvelopeDoc e] \<Rightarrow> result_agrees status e | _ \<Rightarrow> False)"

definition jsonl_output :: "int \<Rightarrow> 'a document list \<Rightarrow> bool" where
  "jsonl_output status out =
     (case rev out of
        EventDoc v # EnvelopeDoc e # steps \<Rightarrow> completion_agrees status v \<and> result_agrees status e \<and> list_all is_step steps
      | _ \<Rightarrow> False)"

definition human_output :: "'a document list \<Rightarrow> bool" where
  "human_output out = list_all (\<lambda>d. case d of HumanLine _ \<Rightarrow> True | _ \<Rightarrow> False) out"

definition reached :: "'a invocation \<Rightarrow> bool" where "reached i \<longleftrightarrow> iv_checks i = None \<and> iv_validate i = None"

text \<open>With a machine mode the human writer is off, and stays off.\<close>

lemma set_enabled_simps [simp]: "co_enabled (set_enabled b c) = b" "co_stdout (set_enabled b c) = co_stdout c"
  by (simp_all add: set_enabled_def)

lemma emit_simps [simp]: "co_enabled (emit d c) = co_enabled c" "co_stdout (emit d c) = co_stdout c @ [d]"
  by (simp_all add: emit_def)

lemma say_silent: "\<not> co_enabled c \<Longrightarrow> say ls c = c"
  by (simp add: say_def)

lemma say_enabled [simp]: "co_enabled (say ls c) = co_enabled c"
  by (simp add: say_def)

lemma say_stdout: "co_stdout (say ls c) = co_stdout c @ (if co_enabled c then map HumanLine ls else [])"
  by (simp add: say_def)

lemma emit_event_enabled [simp]: "co_enabled (emit_event p e c) = co_enabled c"
  by (simp add: emit_event_def)

lemma sink_step_enabled [simp]: "co_enabled (sink_step p name status c) = co_enabled c"
  by (simp add: sink_step_def Let_def out_section_def)

lemma talk_step_enabled [simp]: "co_enabled (talk_step p t c) = co_enabled c"
  by (cases t) simp_all

lemma play_enabled [simp]: "co_enabled (play p ts c) = co_enabled c"
  unfolding play_def by (induction ts arbitrary: c) simp_all

definition step_doc :: "printer \<Rightarrow> int \<Rightarrow> talk \<Rightarrow> 'a document list" where
  "step_doc p now t =
     (case t of
        Step name status \<Rightarrow>
          (let ev = \<lambda>ty. new_event ty (pr_command p) (pr_run p) now in
           if status = ''running'' then [EventDoc (event_message (name @ '' started'') (with_phase name (ev ''step.started'')))]
           else if status = ''done'' then [EventDoc (with_success True (with_phase name (ev ''step.completed'')))] else [])
      | _ \<Rightarrow> [])"

lemma step_doc_steps: "list_all is_step (step_doc p now t)"
  by (auto simp: step_doc_def is_step_def Let_def new_event_def with_phase_def event_message_def with_success_def split: talk.split)

lemma talk_step_machine:
  assumes "\<not> co_enabled c" "pr_mode p \<noteq> OutputHuman"
  shows "co_stdout (talk_step p t c) = co_stdout c @ (if pr_mode p = OutputJsonl then step_doc p (clock_at p c) t else [])"
  using assms by (cases t) (auto simp: sink_step_def step_doc_def Let_def emit_event_def is_human_def say_silent)

lemma play_json:
  "\<not> co_enabled c \<Longrightarrow> pr_mode p = OutputJson \<Longrightarrow> co_stdout (play p ts c) = co_stdout c"
  unfolding play_def by (induction ts arbitrary: c) (simp_all add: talk_step_machine)

lemma play_jsonl:
  "\<not> co_enabled c \<Longrightarrow> pr_mode p = OutputJsonl \<Longrightarrow> list_all is_step (co_stdout c) \<Longrightarrow> list_all is_step (co_stdout (play p ts c))"
  unfolding play_def by (induction ts arbitrary: c) (simp_all add: talk_step_machine step_doc_steps)

lemma human_simps [simp]: "human_output []" "human_output (xs @ ys) \<longleftrightarrow> human_output xs \<and> human_output ys"
    "human_output (map HumanLine ls)" "human_output [HumanLine l]"
  by (auto simp: human_output_def list_all_iff)

lemma say_human [simp]: "human_output (co_stdout (say ls c)) \<longleftrightarrow> human_output (co_stdout c)"
  by (simp add: say_stdout)

lemma print_header_human: "human_output (co_stdout c) \<Longrightarrow> human_output (co_stdout (print_header i p c))"
  by (simp add: print_header_def out_header_def split: prod.split)

lemma play_human:
  "pr_mode p = OutputHuman \<Longrightarrow> human_output (co_stdout c) \<Longrightarrow> human_output (co_stdout (play p ts c))"
proof (unfold play_def, induction ts arbitrary: c)
  case (Cons t ts)
  have "human_output (co_stdout (talk_step p t c))"
    using Cons.prems by (cases t) (auto simp: sink_step_def Let_def emit_event_def out_section_def say_stdout)
  then show ?case using Cons by simp
qed simp

lemma result_envelope_agrees: "result_agrees (if err = None then 0 else 1) (result_envelope p now d [] err)"
  by (cases err) (simp_all add: result_agrees_def result_envelope_def Let_def new_envelope_def with_warnings_def with_duration_def with_errors_def)

lemma print_result_json:
  "pr_mode p = OutputJson \<Longrightarrow> co_stdout c = [] \<Longrightarrow>
     json_output (if err = None then 0 else 1) (co_stdout (snd (print_result p d [] err c)))"
  by (simp add: print_result_def json_output_def Let_def result_envelope_agrees)

lemma print_result_jsonl:
  assumes "pr_mode p = OutputJsonl" "list_all is_step (co_stdout c)"
  shows "jsonl_output (if err = None then 0 else 1) (co_stdout (snd (print_result p d [] err c)))"
proof -
  let ?st = "if err = None then 0 else 1 :: int"
  have a: "result_agrees ?st (result_envelope p now d [] err)" for now by (rule result_envelope_agrees)
  have b: "completion_agrees ?st (completion_event x y z (en_success e) (en_partial e) (en_exit e) ws es)" if "result_agrees ?st e" for x y z e ws es
    using that by (simp add: completion_agrees_def completion_event_def new_event_def result_agrees_def)
  show ?thesis using assms a b[OF a] by (simp del: if_split add: print_result_def jsonl_output_def Let_def emit_event_def)
qed

lemma reported_tail_simps:
  "fst (reported_tail summary p a c) = snd a"
  "is_human p \<Longrightarrow> co_stdout (snd (reported_tail summary p a c)) =
     (if snd a = None then co_stdout (out_complete (summary (fst a)) c) else co_stdout c)"
  "\<not> is_human p \<Longrightarrow> snd (reported_tail summary p a c) =
     snd (print_result p (if snd a = None then fst a else None) [] (snd a) c)"
  by (cases a; cases "snd a"; simp add: reported_tail_def)+

lemma main_exit_simps [simp]: "fst (main_exit r) = (if fst r = None then 0 else 1)" "co_stdout (snd (main_exit r)) = co_stdout (snd r)"
  by (cases r; cases "fst r"; simp add: main_exit_def out_stderr_def)+

definition exit_status :: "'a invocation \<Rightarrow> int" where
  "exit_status i = (if reached i \<and> snd (iv_answer i) = None then 0 else 1)"

lemma verb_status: "fst (run_verb (reported_tail summary) i p c) = None \<longleftrightarrow> reached i \<and> snd (iv_answer i) = None"
  by (simp add: run_verb_def reached_def reported_tail_simps Let_def split: option.split)

lemma verb_machine:
  assumes "pr_mode p \<noteq> OutputHuman"
  shows "reached i \<Longrightarrow> snd (run_verb (reported_tail summary) i p c) =
           snd (print_result p (if snd (iv_answer i) = None then fst (iv_answer i) else None) [] (snd (iv_answer i)) (play p (iv_talk i) c))"
    "\<not> reached i \<Longrightarrow> snd (run_verb (reported_tail summary) i p c) = c"
  using assms by (auto simp: run_verb_def reached_def print_header_def is_human_def reported_tail_simps Let_def split: prod.split option.split)

lemma reached_status: "reached i \<Longrightarrow> exit_status i = (if snd (iv_answer i) = None then 0 else 1)"
  by (simp add: exit_status_def)

lemma verb_json:
  assumes "pr_mode p = OutputJson" "\<not> co_enabled c" "co_stdout c = []"
  shows "if reached i then json_output (exit_status i) (co_stdout (snd (run_verb (reported_tail summary) i p c)))
         else co_stdout (snd (run_verb (reported_tail summary) i p c)) = []"
  using assms verb_machine[of p i summary c] reached_status[of i]
    print_result_json[of p "play p (iv_talk i) c" "snd (iv_answer i)"] play_json[of c p "iv_talk i"] by simp

lemma verb_jsonl:
  assumes "pr_mode p = OutputJsonl" "\<not> co_enabled c" "co_stdout c = []"
  shows "if reached i then jsonl_output (exit_status i) (co_stdout (snd (run_verb (reported_tail summary) i p c)))
         else co_stdout (snd (run_verb (reported_tail summary) i p c)) = []"
  using assms verb_machine[of p i summary c] reached_status[of i]
    print_result_jsonl[of p "play p (iv_talk i) c" "snd (iv_answer i)"] play_jsonl[of c p "iv_talk i"] by simp

lemma verb_human:
  assumes "pr_mode p = OutputHuman" "co_stdout c = []"
  shows "human_output (co_stdout (snd (run_verb (reported_tail summary) i p c)))"
  using print_header_human[of c i p] play_human[of p "print_header i p c" "iv_talk i"] assms
  by (auto simp: run_verb_def is_human_def reported_tail_simps out_complete_def Let_def split: option.split)

text \<open>C37: For the commands that end through the shared report (triage, repair, backup, restore, prune backups and
  prune wal): in the machine modes standard output is the result and nothing else, or the steps and then the
  result and the closing event; every report agrees with the exit status of the process.  When such a command
  is refused before it reaches its engine it leaves standard output empty.  The reset, the export and the
  bootstrap have ends of their own, and nothing is said of them here.\<close>

theorem machine_output_matches_exit:
  "case program_run (reported_tail summary) i of (status, c) \<Rightarrow>
     case parse_output_mode (iv_mode i) of
       Inl _ \<Rightarrow> status = 1 \<and> co_stdout c = []
     | Inr m \<Rightarrow> status = exit_status i \<and>
         (case resolve_mode (iv_tty i) m of
            OutputHuman \<Rightarrow> human_output (co_stdout c)
          | OutputJson \<Rightarrow> (if reached i then json_output status (co_stdout c) else co_stdout c = [])
          | OutputJsonl \<Rightarrow> (if reached i then jsonl_output status (co_stdout c) else co_stdout c = [])
          | OutputAuto \<Rightarrow> False)"
proof (cases "parse_output_mode (iv_mode i)")
  case (Inl err)
  then show ?thesis by (simp add: program_run_def init_printer_def main_exit_def out_stderr_def fresh_console_def)
next
  case (Inr m)
  define p where "p = \<lparr> pr_mode = resolve_mode (iv_tty i) m, pr_command = iv_command i, pr_run = iv_run i,
    pr_start = iv_start i, pr_now = iv_now i \<rparr>"
  define c where "c = set_enabled (is_human p) (fresh_console :: 'a console)"
  let ?v = "run_verb (reported_tail summary) i p c"
  have run: "program_run (reported_tail summary) i = main_exit ?v"
    using Inr by (simp add: program_run_def init_printer_def Let_def p_def c_def)
  have c0: "co_stdout c = []" "co_enabled c = is_human p" "pr_mode p = resolve_mode (iv_tty i) m" "resolve_mode (iv_tty i) m \<noteq> OutputAuto"
    by (simp_all add: fresh_console_def c_def p_def resolve_mode_def)
  have st: "fst (main_exit ?v) = exit_status i" by (simp add: verb_status exit_status_def)
  show ?thesis
    using Inr verb_json[of p c i summary] verb_jsonl[of p c i summary] verb_human[of p c summary i] c0 st unfolding run is_human_def
    by (cases "resolve_mode (iv_tty i) m") (simp_all add: case_prod_beta)
qed

section \<open>The stream of a repair\<close>

text \<open>The pods whose heal a stream reports as completed.\<close>

definition heal_prefix :: string where "heal_prefix = ''heal-''"

definition heal_of :: "'a document \<Rightarrow> string list" where
  "heal_of d =
     (case d of
        EventDoc v \<Rightarrow> if ev_type v = ''step.completed'' \<and> has_prefix (ev_phase v) heal_prefix
                      then [drop (length heal_prefix) (ev_phase v)] else []
      | _ \<Rightarrow> [])"

definition healed_in :: "'a document list \<Rightarrow> string list" where "healed_in ds = concat (map heal_of ds)"

definition done_heal :: "talk \<Rightarrow> string list" where
  "done_heal t =
     (case t of Step name status \<Rightarrow> if status = ''done'' \<and> has_prefix name heal_prefix then [drop (length heal_prefix) name] else []
      | _ \<Rightarrow> [])"

definition stream :: "printer \<Rightarrow> talk list \<Rightarrow> 'a document list" where
  "stream p ts = co_stdout (play (p\<lparr> pr_mode := OutputJsonl \<rparr>) ts (set_enabled False fresh_console))"

lemma heal_of_step: "concat (map heal_of (step_doc p now t)) = done_heal t"
  by (auto simp: step_doc_def heal_of_def done_heal_def Let_def new_event_def with_phase_def event_message_def with_success_def
      split: talk.split)

lemma healed_in_append [simp]: "healed_in (xs @ ys) = healed_in xs @ healed_in ys" "healed_in [] = []"
  by (simp_all add: healed_in_def)

lemma healed_in_play:
  "\<not> co_enabled c \<Longrightarrow> pr_mode p = OutputJsonl \<Longrightarrow>
     healed_in (co_stdout (play p ts c)) = healed_in (co_stdout c) @ concat (map done_heal ts)"
proof (unfold play_def, induction ts arbitrary: c)
  case (Cons t ts)
  have "healed_in (co_stdout (talk_step p t c)) = healed_in (co_stdout c) @ done_heal t"
    using Cons.prems by (simp add: talk_step_machine heal_of_step healed_in_def)
  then show ?case using Cons by simp
qed simp

lemma healed_in_stream: "healed_in (stream p ts) = concat (map done_heal ts)"
  unfolding stream_def by (subst healed_in_play) (simp_all add: fresh_console_def)

text \<open>The fixed steps are none of the heals.\<close>

lemma done_heal_simps [simp]:
  "done_heal (Step name ''running'') = []" "done_heal (Step name ''failed'') = []" "done_heal (Step (''heal-'' @ pod) ''done'') = [pod]"
  "done_heal (Step ''safety-gate'' ''done'') = []" "done_heal (Step ''escrow'' ''done'') = []" "done_heal (Step ''plan'' ''done'') = []"
  "done_heal (Step ''verify'' ''done'') = []" "done_heal (Step ''stabilize'' ''done'') = []" "done_heal (Step ''reassess'' ''done'') = []"
  "done_heal (Step ''pre-assess'' ''done'') = []" "done_heal (Step ''assess'' ''done'') = []"
  by (simp_all add: done_heal_def heal_prefix_def has_prefix_def)

lemma done_heal_Cons [simp]: "done_heal (Step (CHR ''h'' # CHR ''e'' # CHR ''a'' # CHR ''l'' # CHR ''-'' # pod) ''done'') = [pod]"
  using done_heal_simps(3)[of pod] by simp

lemma heals_done:
  "fst (heal_each r ts s) = None \<Longrightarrow> concat (map done_heal (heal_steps r ts s)) = map ht_pod ts"
proof (induction ts arbitrary: s)
  case (Cons t ts)
  obtain err s1 where h: "hk_heal r t s = (err, s1)" by fastforce
  then show ?case using Cons by (cases err) (auto simp: heal_each_def)
qed simp

text \<open>A run that stops at a heal has reported the targets before it.\<close>

lemma heals_stopped:
  "fst (heal_each r ts s) = Some err \<Longrightarrow>
     \<exists>n t. n < length ts \<and> t = ts ! n \<and> concat (map done_heal (heal_steps r ts s)) = take n (map ht_pod ts) \<and>
       (\<exists>e. err = RepairHeal (ht_pod t) e)"
proof (induction ts arbitrary: s)
  case Nil
  then show ?case by (simp add: heal_each_def)
next
  case (Cons t ts)
  obtain er s1 where h: "hk_heal r t s = (er, s1)" by fastforce
  show ?case
  proof (cases er)
    case None
    then obtain n where "n < length ts" "concat (map done_heal (heal_steps r ts s1)) = take n (map ht_pod ts)"
        "\<exists>e. err = RepairHeal (ht_pod (ts ! n)) e"
      using Cons.IH[of s1] Cons.prems h by (auto simp: heal_each_def)
    then show ?thesis using h None by (intro exI[of _ "Suc n"] exI[of _ "ts ! n"]) auto
  next
    case (Some e)
    then show ?thesis using Cons.prems h by (intro exI[of _ 0] exI[of _ t]) (auto simp: heal_each_def)
  qed
qed

lemma finish_no_heals: "concat (map done_heal (finish_steps r healed s)) = []"
  by (auto simp: finish_steps_def step_done_def split: prod.split option.split)

lemma finish_answer: "\<exists>res err s'. finish_repair r res0 s = ((Some res, err), s') \<and> rr_healed res = rr_healed res0"
  by (cases "hk_reassess r (hk_stabilize r s)") (auto simp: finish_repair_def Let_def split: prod.split option.split)

lemma mutate_heals:
  assumes "fst (mutate_phases r res0 t s) = (Some res, err)" "rr_healed res0 = []"
  shows "concat (map done_heal (mutate_steps r t s)) = rr_healed res"
proof -
  obtain s1 where g: "hk_gate r t s = (None, s1)"
    using assms(1) by (cases "hk_gate r t s"; cases "fst (hk_gate r t s)") (auto simp: mutate_phases_def)
  obtain s2 where e: "hk_escrow r t s1 = (None, s2)"
    using assms(1) g by (cases "hk_escrow r t s1"; cases "fst (hk_escrow r t s1)") (auto simp: mutate_phases_def)
  obtain ts where p: "hk_plan r t s2 = Inr ts"
    using assms(1) g e by (cases "hk_plan r t s2") (auto simp: mutate_phases_def)
  show ?thesis
  proof (cases "ts = []")
    case True
    then show ?thesis using assms g e p by (simp add: mutate_phases_def mutate_steps_def)
  next
    case False
    obtain s3 where h: "heal_each r ts s2 = (None, s3)"
      using assms(1) g e p False by (cases "heal_each r ts s2"; cases "fst (heal_each r ts s2)") (auto simp: mutate_phases_def)
    have "fst (finish_repair r (res0\<lparr> rr_healed := map ht_pod ts \<rparr>) s3) = (Some res, err)"
      using assms(1) g e p h False by (simp add: mutate_phases_def)
    then have "rr_healed res = map ht_pod ts"
      using finish_answer[of r "res0\<lparr> rr_healed := map ht_pod ts \<rparr>" s3] by auto
    moreover have "concat (map done_heal (heal_steps r ts s2)) = map ht_pod ts" using h by (intro heals_done) simp
    ultimately show ?thesis using g e p h False by (simp add: mutate_steps_def finish_no_heals)
  qed
qed

text \<open>What the stream of a repair reports as healed is what the run healed, also when the verification
  fails afterwards, where the closing envelope carries no result.\<close>

theorem repair_stream_names_healed:
  "case fst (repair_run r s) of
     (Some res, _) \<Rightarrow> healed_in (stream p (repair_steps r s)) = rr_healed res
   | (None, _) \<Rightarrow> True"
proof (cases "fst (fst (repair_run r s))")
  case (Some res)
  then obtain err where run: "fst (repair_run r s) = (Some res, err)" by (cases "fst (repair_run r s)") simp
  obtain s1 where l: "hk_lock r s = (None, s1)"
    using run by (cases "hk_lock r s"; cases "fst (hk_lock r s)") (auto simp: repair_run_def)
  have g: "fst (guarded_phases r s1) = (Some res, err)" using run l by (simp add: repair_run_def case_prod_beta)
  obtain a s2 where pre: "hk_pre r s1 = (a, s2)" by fastforce
  have "concat (map done_heal (repair_steps r s)) = rr_healed res"
  proof (cases a)
    case PreGoOn
    obtain t s3 where t: "hk_assess r s2 = (Inr t, s3)"
      using g pre PreGoOn by (cases "hk_assess r s2"; cases "fst (hk_assess r s2)") (auto simp: guarded_phases_def)
    have "concat (map done_heal (mutate_steps r t s3)) = rr_healed res" if "\<not> hk_dry_run r"
      using g pre PreGoOn t that by (intro mutate_heals) (auto simp: guarded_phases_def empty_result_def Let_def)
    then show ?thesis using g l pre PreGoOn t
      by (auto simp: repair_steps_def guarded_phases_def empty_result_def Let_def split: if_splits)
  qed (use g l pre in \<open>auto simp: repair_steps_def guarded_phases_def empty_result_def Let_def\<close>)
  then show ?thesis using run by (simp add: healed_in_stream)
qed (auto split: prod.split option.split)

end
