(* ===== verification/Boot_Report.thy ===== *)
theory Boot_Report
  imports Boot_Correct Machine_Output
begin

text \<open>
  What a bootstrap reports (\<open>src/engine/bootstrap/galera.go\<close>, \<open>src/cmd/bootstrap.go\<close>): the planned steps, the
  steps marked as completed while the offline execution goes on, the health found afterwards, and the
  printed plan.  The execution itself, with its errors and its rollback, is that of \<open>Boot_Run\<close>.
\<close>

section \<open>The planned steps\<close>

record resource_ref =
  kr_api :: string
  kr_kind :: string
  kr_namespace :: string
  kr_name :: string

record boot_action =
  ba_phase :: string
  ba_description :: string
  ba_resource :: "resource_ref option"
  ba_completed :: bool

record health_summary =
  hs_ready :: int
  hs_total :: int
  hs_healthy :: bool

record bootstrap_result =
  br_cluster :: resource_ref
  br_decision :: bootstrap_decision
  br_planned :: "boot_action list"
  br_taken :: "boot_action list"
  br_health :: "health_summary option"

definition cr_ref :: "string \<Rightarrow> string \<Rightarrow> resource_ref" where
  "cr_ref ns cluster = \<lparr> kr_api = ''k8s.mariadb.com/v1alpha1'', kr_kind = ''MariaDB'', kr_namespace = ns, kr_name = cluster \<rparr>"

definition sts_ref :: "string \<Rightarrow> string \<Rightarrow> resource_ref" where
  "sts_ref ns cluster = \<lparr> kr_api = '''', kr_kind = ''StatefulSet'', kr_namespace = ns, kr_name = cluster \<rparr>"

definition planned_action :: "string \<Rightarrow> string \<Rightarrow> resource_ref option \<Rightarrow> boot_action" where
  "planned_action phase desc ref = \<lparr> ba_phase = phase, ba_description = desc, ba_resource = ref, ba_completed = False \<rparr>"

definition mark_target :: "string \<Rightarrow> string" where
  "mark_target cand = (if cand \<noteq> '''' then cand else ''<recovered candidate>'')"

definition offline_plan :: "string \<Rightarrow> string \<Rightarrow> int \<Rightarrow> string \<Rightarrow> boot_action list" where
  "offline_plan ns cluster replicas cand =
     (let cr = Some (cr_ref ns cluster); sts = Some (sts_ref ns cluster) in
      [planned_action ''suspend'' ''Suspend MariaDB CR'' cr,
       planned_action ''gen_lock'' ''Set generation lock annotation'' cr,
       planned_action ''scale_down'' ''Scale StatefulSet to 0'' sts,
       planned_action ''wsrep_recover'' ''Run wsrep_recover on all PVCs'' None,
       planned_action ''safe_boot_clear'' ''Clear stale safe_to_bootstrap flags'' None,
       planned_action ''bootstrap_mark'' (''Set safe_to_bootstrap=1 on '' @ mark_target cand @ '' PVC'') None,
       planned_action ''cluster_patch'' (''Patch CR forceClusterBootstrapInPod='' @ mark_target cand) cr,
       planned_action ''scale_up'' (''Scale StatefulSet to '' @ dec_str replicas) sts,
       planned_action ''wait_ready'' ''Wait for all pods Ready'' None,
       planned_action ''cleanup'' ''Remove forceClusterBootstrapInPod, recovery status, and generation lock'' cr,
       planned_action ''resume'' ''Resume MariaDB CR'' cr,
       planned_action ''verify'' ''Re-triage to verify cluster health'' None])"

definition online_plan :: "string \<Rightarrow> string \<Rightarrow> string \<Rightarrow> boot_action list" where
  "online_plan ns cluster target =
     [planned_action ''cluster_patch'' (''Resume CR + patch forceClusterBootstrapInPod='' @ target @ '' (live, no scale-to-0)'') (Some (cr_ref ns cluster)),
      planned_action ''cleanup'' ''Delete stuck operator recovery jobs'' None,
      planned_action ''wait_ready'' (''Wait for GaleraReady=True (operator reforms from '' @ target @ '')'') None,
      planned_action ''verify'' ''Unset forceClusterBootstrapInPod if the operator left it'' None]"

section \<open>The completed steps\<close>

text \<open>The first step of that phase is marked.\<close>

fun mark_action :: "string \<Rightarrow> boot_action list \<Rightarrow> boot_action list" where
  "mark_action phase [] = []"
| "mark_action phase (a # as) = (if ba_phase a = phase then a\<lparr> ba_completed := True \<rparr> # as else a # mark_action phase as)"

definition acknowledged :: "outcome \<Rightarrow> bool" where "acknowledged o' \<longleftrightarrow> o' = Applied"

definition fence_marks :: "boot_env \<Rightarrow> string list" where
  "fence_marks e =
     (if \<not> acknowledged (be_suspend e) then []
      else ''suspend'' # (if \<not> acknowledged (be_lock_set e) then []
        else ''gen_lock'' # (if \<not> acknowledged (be_scale_down e) then [] else [''scale_down''])))"

definition apply_marks :: "boot_env \<Rightarrow> string \<Rightarrow> string list" where
  "apply_marks e cand =
     (if \<not> acknowledged (be_helper e (MarkSafe cand)) then []
      else ''bootstrap_mark'' # (if \<not> acknowledged (be_force_patch e) then []
        else ''cluster_patch'' # (if \<not> acknowledged (be_scale_up e) then [] else [''scale_up''])))"

definition final_marks :: "string list" where "final_marks = [''wait_ready'', ''cleanup'', ''resume'', ''verify'']"

text \<open>None while nothing is recorded: the escrow comes before the list of taken steps is made.\<close>

definition execute_marks ::
  "boot_env \<Rightarrow> string \<Rightarrow> bool \<Rightarrow> instance_assessment list \<Rightarrow> bootstrap_decision \<Rightarrow> string list option" where
  "execute_marks e cand belly as d =
     (case be_discover e of
        Inl _ \<Rightarrow> None
      | Inr _ \<Rightarrow>
        (case be_gate e of
           Inl _ \<Rightarrow> None
         | Inr _ \<Rightarrow>
           Some (fence_marks e @
             (if fence_marks e \<noteq> [''suspend'', ''gen_lock'', ''scale_down''] \<or> \<not> be_terminated e then []
              else ''wsrep_recover'' #
                (let rec = be_order e (boot_recover e (map ia_pod as)) in
                 case fst (boot_choose e cand belly as rec d) of
                   Inl _ \<Rightarrow> []
                 | Inr c \<Rightarrow> ''safe_boot_clear'' # apply_marks e c @
                     (if apply_marks e c \<noteq> [''bootstrap_mark'', ''cluster_patch'', ''scale_up''] then [] else final_marks))))))"

definition taken_actions :: "boot_action list \<Rightarrow> string list option \<Rightarrow> boot_action list" where
  "taken_actions plan marks = (case marks of None \<Rightarrow> [] | Some ms \<Rightarrow> fold mark_action ms plan)"

text \<open>The soft wait: its outcome changes nothing but a line of the log.\<close>

definition wait_for_all_ready :: "(nat \<Rightarrow> bool) \<Rightarrow> bool" where "wait_for_all_ready ready = poll_until ready 0 90"

definition final_health :: "triage_result option \<Rightarrow> health_summary option" where
  "final_health post = map_option (\<lambda>t. \<lparr> hs_ready = tr_ready t, hs_total = tr_total t, hs_healthy = tr_ready t = tr_total t \<rparr>) post"

definition health_line :: "health_summary \<Rightarrow> 'a console \<Rightarrow> 'a console" where
  "health_line h c =
     (let n = ''('' @ dec_str (hs_ready h) @ ''/'' @ dec_str (hs_total h) @ '' ready)'' in
      if hs_healthy h then out_success (''Bootstrap complete '' @ em_dash @ '' cluster is healthy '' @ n) c
      else out_warn (''Bootstrap complete '' @ em_dash @ '' cluster may need time '' @ n) c)"

text \<open>The result of the whole operation; no result when the triage failed.\<close>

definition blank_report :: "string \<Rightarrow> string \<Rightarrow> bootstrap_decision \<Rightarrow> bootstrap_result" where
  "blank_report ns cluster d = \<lparr> br_cluster = cr_ref ns cluster, br_decision = d, br_planned = [], br_taken = [], br_health = None \<rparr>"

definition bootstrap_report ::
  "string \<Rightarrow> string \<Rightarrow> boot_env \<Rightarrow> bool \<Rightarrow> triage_result option \<Rightarrow> galera_cluster \<Rightarrow> bootstrap_result option" where
  "bootstrap_report ns cluster e dry post s =
     (let blank = blank_report ns cluster (fst (snd (bootstrap e dry s))); err = fst (bootstrap e dry s) in
      case stale_lock e of
        Some _ \<Rightarrow> Some blank
      | None \<Rightarrow>
        (case be_triage e of
           Inl _ \<Rightarrow> None
         | Inr t \<Rightarrow>
           (case find_diagnosis t deadlock_id of
              Some dg \<Rightarrow> Some (if dg_target dg = '''' then blank else blank\<lparr> br_planned := online_plan ns cluster (dg_target dg) \<rparr>)
            | None \<Rightarrow>
                (case boot_gates (be_force e) t of
                   (Inl _, _) \<Rightarrow> Some blank
                 | (Inr (cand, belly), d) \<Rightarrow>
                     (let plan = offline_plan ns cluster (be_replicas e) cand in
                      if dry then Some (blank\<lparr> br_planned := plan \<rparr>)
                      else Some (blank\<lparr> br_planned := plan,
                             br_taken := taken_actions plan (execute_marks e cand belly (tr_assessments t) d),
                             br_health := (if err = None then final_health post else None) \<rparr>))))))"

text \<open>The preview that the command prints.\<close>

definition action_line :: "boot_action \<Rightarrow> string" where
  "action_line a = ''['' @ ba_phase a @ ''] '' @ ba_description a"

definition print_boot_plan :: "bootstrap_result \<Rightarrow> 'a console \<Rightarrow> 'a console" where
  "print_boot_plan r c =
     (let d = br_decision r;
          c1 = out_field ''UUID'' (bd_candidate_uuid d) (out_field ''Seqno'' (dec_str (bd_candidate_seqno d))
                 (out_field ''Candidate'' (bd_candidate_pod d) (out_banner (''DRY RUN '' @ em_dash @ '' Bootstrap Plan'') c)));
          c2 = (if bd_ambiguity d then out_warn (''Ambiguity detected: competitors ['' @ join_with '' '' (bd_competitors d) @ '']'') c1 else c1)
      in out_info ''Re-run without --dry-run to execute''
           (fold (\<lambda>a. out_bullet 0 (action_line a)) (br_planned r) (out_section ''Planned Actions'' c2)))"

section \<open>The report and the run\<close>

definition boot_phases :: "string list" where
  "boot_phases = [''suspend'', ''gen_lock'', ''scale_down'', ''wsrep_recover'', ''safe_boot_clear'', ''bootstrap_mark'', ''cluster_patch'',
     ''scale_up'', ''wait_ready'', ''cleanup'', ''resume'', ''verify'']"

lemma offline_phases: "map ba_phase (offline_plan ns cluster n cand) = boot_phases"
  by (simp add: offline_plan_def Let_def planned_action_def boot_phases_def)

lemma mark_skip: "ba_phase a \<notin> set ps \<Longrightarrow> fold mark_action ps (a # as) = a # fold mark_action ps as"
  by (induction ps arbitrary: as) auto

lemma mark_prefix:
  "distinct (map ba_phase as) \<Longrightarrow>
     fold mark_action (take n (map ba_phase as)) as = map (\<lambda>a. a\<lparr> ba_completed := True \<rparr>) (take n as) @ drop n as"
proof (induction as arbitrary: n)
  case (Cons a as)
  show ?case
  proof (cases n)
    case (Suc k)
    have "ba_phase (a\<lparr> ba_completed := True \<rparr>) \<notin> set (take k (map ba_phase as))" using Cons.prems by (auto dest: in_set_takeD)
    then show ?thesis using Cons Suc by (simp add: mark_skip)
  qed simp
qed simp

lemma offline_completed: "map ba_completed (drop n (offline_plan ns cluster r cand)) = replicate (12 - n) False"
proof -
  have "map ba_completed (offline_plan ns cluster r cand) = replicate 12 False"
    by (simp add: offline_plan_def Let_def planned_action_def numeral_eq_Suc)
  then show ?thesis by (simp add: drop_map[symmetric] drop_replicate)
qed

lemma call_answer: "fst (call o' f s) \<longleftrightarrow> acknowledged o'"
  by (cases o') (simp_all add: call_def acknowledged_def)

lemma fence_answer:
  "fst (boot_fence e cand s) = None \<longleftrightarrow> fence_marks e = [''suspend'', ''gen_lock'', ''scale_down''] \<and> be_terminated e"
  by (auto simp: boot_fence_def fence_marks_def call_answer case_prod_beta)

lemma apply_answer: "fst (boot_apply e c fl s) = None \<longleftrightarrow> apply_marks e c = [''bootstrap_mark'', ''cluster_patch'', ''scale_up'']"
  by (auto simp: boot_apply_def apply_marks_def call_answer case_prod_beta)

lemma fence_prefix: "fence_marks e = take (length (fence_marks e)) boot_phases"
  by (simp add: fence_marks_def boot_phases_def)

lemma apply_prefix: "apply_marks e c = take (length (apply_marks e c)) (drop 5 boot_phases)"
  by (simp add: apply_marks_def boot_phases_def)

lemma marks_prefix: "execute_marks e cand belly as d = Some ms \<Longrightarrow> ms = take (length ms) boot_phases"
  using fence_prefix[of e] apply_prefix[of e]
  by (auto simp: execute_marks_def boot_phases_def final_marks_def Let_def apply_marks_def split: sum.splits if_splits)

lemma marks_committed:
  assumes "execute_marks e cand belly as d = Some ms"
  shows "fst (execute_bootstrap e cand belly as d s) = None \<longleftrightarrow> length ms = 12"
proof -
  let ?rec = "be_order e (boot_recover e (map ia_pod as))"
  obtain u v where dg: "be_discover e = Inr u" "be_gate e = Inr v" using assms by (auto simp: execute_marks_def split: sum.splits)
  obtain err fl s1 where f: "boot_fence e cand s = (err, fl, s1)" by (cases "boot_fence e cand s") auto
  obtain ch d' where c: "boot_choose e cand belly as ?rec d = (ch, d')" by fastforce
  show ?thesis
  proof (cases "err = None")
    case False
    then have "\<not> (fence_marks e = [''suspend'', ''gen_lock'', ''scale_down''] \<and> be_terminated e)"
      using fence_answer[of e cand s] f by (metis fst_conv)
    moreover have "length (fence_marks e) \<noteq> 12" by (simp add: fence_marks_def)
    ultimately show ?thesis using assms dg f False by (auto simp: execute_marks_def execute_bootstrap_def)
  next
    case True
    then have m: "fence_marks e = [''suspend'', ''gen_lock'', ''scale_down'']" "be_terminated e" using fence_answer[of e cand s] f by simp_all
    show ?thesis
    proof (cases ch)
      case (Inl b)
      then show ?thesis using assms dg f c m True by (auto simp: execute_marks_def execute_bootstrap_def Let_def)
    next
      case (Inr p)
      obtain err2 fl2 s2 where a: "boot_apply e p fl (boot_prepare e p as ?rec s1) = (err2, fl2, s2)"
        by (cases "boot_apply e p fl (boot_prepare e p as ?rec s1)") auto
      have "err2 = None \<longleftrightarrow> apply_marks e p = [''bootstrap_mark'', ''cluster_patch'', ''scale_up'']"
        using apply_answer[of e p fl "boot_prepare e p as ?rec s1"] a by simp
      moreover have "length (apply_marks e p) \<le> 3" by (simp add: apply_marks_def)
      ultimately show ?thesis using assms dg f c m True Inr a
        by (auto simp: execute_marks_def execute_bootstrap_def Let_def final_marks_def)
    qed
  qed
qed

text \<open>C11: The completed steps of a report are always the first ones of its plan, none when the escrow refused, and
  all of them exactly when the run committed.\<close>

theorem report_marks_the_steps_taken:
  "let taken = taken_actions (offline_plan ns cluster r cand) (execute_marks e cand belly as d);
       answer = fst (execute_bootstrap e cand belly as d s)
   in case execute_marks e cand belly as d of
        None \<Rightarrow> taken = [] \<and> answer \<noteq> None
      | Some ms \<Rightarrow> length ms \<le> 12 \<and> map ba_completed taken = replicate (length ms) True @ replicate (12 - length ms) False \<and>
          (answer = None \<longleftrightarrow> length ms = 12)"
proof (cases "execute_marks e cand belly as d")
  case None
  then show ?thesis by (auto simp: taken_actions_def execute_marks_def execute_bootstrap_def split: sum.splits)
next
  case (Some ms)
  let ?plan = "offline_plan ns cluster r cand"
  have ph: "map ba_phase ?plan = boot_phases" by (rule offline_phases)
  have d: "distinct (map ba_phase ?plan)" unfolding ph by (simp add: boot_phases_def)
  have n: "length ms \<le> 12"
    using arg_cong[OF marks_prefix[OF Some], of length] by (simp add: boot_phases_def)
  have "length ?plan = 12" using arg_cong[OF ph, of length] by (simp add: boot_phases_def)
  moreover have "fold mark_action ms ?plan = map (\<lambda>a. a\<lparr> ba_completed := True \<rparr>) (take (length ms) ?plan) @ drop (length ms) ?plan"
    using mark_prefix[OF d, of "length ms"] marks_prefix[OF Some] ph by simp
  ultimately have "map ba_completed (fold mark_action ms ?plan) = replicate (length ms) True @ replicate (12 - length ms) False"
    using n by (simp add: offline_completed o_def map_replicate_const)
  then show ?thesis using Some n marks_committed[OF Some, of s] by (simp add: taken_actions_def)
qed

text \<open>The last steps are marked whatever their calls answered: a committed run whose resume call failed
  reports the step as completed and leaves the operator suspended.\<close>

lemma fence_suspends: "boot_fence e cand s = (None, fl, s1) \<Longrightarrow> gc_suspend s1"
  by (auto simp: boot_fence_def call_def cluster_ops split: outcome.splits if_splits)

lemma apply_keeps_suspend: "boot_apply e c fl s = (err, fl', s') \<Longrightarrow> gc_suspend s' = gc_suspend s"
  by (auto simp: boot_apply_def call_def cluster_ops mark_safe_def split: outcome.splits if_splits)

theorem resume_marked_though_refused:
  assumes "fst (execute_bootstrap e cand belly as d s) = None" "\<not> be_resume e"
  shows "gc_suspend (snd (snd (execute_bootstrap e cand belly as d s))) \<and>
    map_option (list_ex (\<lambda>m. m = ''resume'')) (execute_marks e cand belly as d) = Some True"
proof -
  let ?rec = "be_order e (boot_recover e (map ia_pod as))"
  obtain d' s' where ex: "execute_bootstrap e cand belly as d s = (None, d', s')"
    using assms(1) by (cases "execute_bootstrap e cand belly as d s") auto
  obtain u v where dg: "be_discover e = Inr u" "be_gate e = Inr v" using ex by (auto simp: execute_bootstrap_def split: sum.splits)
  obtain err fl s1 where f: "boot_fence e cand s = (err, fl, s1)" by (cases "boot_fence e cand s") auto
  obtain ch d2 where c: "boot_choose e cand belly as ?rec d = (ch, d2)" by fastforce
  have e1: "err = None" using ex dg f by (auto simp: execute_bootstrap_def split: if_splits)
  obtain p where ch: "ch = Inr p" using ex dg f c e1 by (auto simp: execute_bootstrap_def Let_def split: sum.splits)
  obtain err2 fl2 s2 where a: "boot_apply e p fl (boot_prepare e p as ?rec s1) = (err2, fl2, s2)"
    by (cases "boot_apply e p fl (boot_prepare e p as ?rec s1)") auto
  have "err2 = None" "s' = boot_cleanup e s2" using ex dg f c e1 ch a by (auto simp: execute_bootstrap_def Let_def split: if_splits)
  moreover have "gc_suspend s2"
    using apply_keeps_suspend[OF a] fence_suspends[of e cand s fl s1] prepare_frame[of s1 e p as ?rec] f e1 by (simp add: prepared_from_def)
  ultimately have "gc_suspend s'" using assms(2) by (simp add: boot_cleanup_def if_done_def cluster_ops)
  moreover obtain ms where ms: "execute_marks e cand belly as d = Some ms" using dg by (auto simp: execute_marks_def)
  have "ms = boot_phases"
    using marks_committed[OF ms, of s] assms(1) marks_prefix[OF ms] by (simp add: boot_phases_def)
  ultimately show ?thesis using ex ms by (simp add: boot_phases_def)
qed

end
