(* ===== verification/Command_Reports.thy ===== *)
theory Command_Reports
  imports Boot_Report Retention_Escrow Galera_Reconfig
begin

text \<open>
  The results the commands end with and the last line each prints (\<open>src/cmd/*.go\<close>,
  \<open>src/output/model/results.go\<close>), over the printer of \<open>Machine_Output\<close>; the plan an authority reset
  prints before it stops the cluster (\<open>src/engine/reconfigure/galera.go\<close>).
\<close>

section \<open>Results\<close>

record backup_result =
  bk_engine :: string
  bk_cluster :: object_ref
  bk_snapshot :: string
  bk_repository :: string
  bk_size :: int
  bk_duration :: int
  bk_tags :: "(string \<times> string) list"

record restore_result =
  rt_engine :: string
  rt_cluster :: object_ref
  rt_snapshot :: string
  rt_duration :: int

record prune_result =
  pu_kept :: nat
  pu_removed :: nat

record prune_wal_result =
  pq_engine :: string
  pq_cluster :: object_ref
  pq_instance :: int

record export_result =
  xp_file :: string
  xp_snapshot :: string
  xp_engine :: string
  xp_cluster :: string
  xp_namespace :: string

text \<open>\<open>Duration.String\<close> of a whole number of seconds that is not negative.\<close>

definition seconds_str :: "int \<Rightarrow> string" where
  "seconds_str s =
     (let h = s div 3600; m = s mod 3600 div 60; r = dec_str (s mod 60) @ ''s'' in
      if h > 0 then dec_str h @ ''h'' @ dec_str m @ ''m'' @ r else if m > 0 then dec_str m @ ''m'' @ r else r)"

definition took :: "int \<Rightarrow> string" where "took ns = ''('' @ seconds_str (trunc_div ns nanos) @ '')''"

section \<open>Tails\<close>

definition triage_tail :: "triage_result tail" where
  "triage_tail = reported_tail (\<lambda>_. ''Triage complete'')"

text \<open>The time a repair took is no field of its result here.\<close>

definition repair_tail :: "int \<Rightarrow> repair_result tail" where
  "repair_tail duration = reported_tail (\<lambda>d. case d of None \<Rightarrow> '''' | Some r \<Rightarrow>
     ''Repair complete '' @ em_dash @ '' healed: '' @ dec_str (int (length (rr_healed r))) @ '', skipped: ''
       @ dec_str (int (length (rr_skipped r))) @ '' '' @ took duration)"

definition backup_tail :: "backup_result tail" where
  "backup_tail = reported_tail (\<lambda>d. case d of None \<Rightarrow> '''' | Some r \<Rightarrow>
     ''Backup complete '' @ em_dash @ '' snapshot '' @ bk_snapshot r @ '' '' @ took (bk_duration r))"

definition restore_tail :: "restore_result tail" where
  "restore_tail = reported_tail (\<lambda>d. case d of None \<Rightarrow> '''' | Some r \<Rightarrow>
     ''Restore complete '' @ em_dash @ '' snapshot '' @ rt_snapshot r @ '' '' @ took (rt_duration r))"

definition prune_tail :: "prune_options \<Rightarrow> prune_result tail" where
  "prune_tail o' = reported_tail (\<lambda>d. case d of None \<Rightarrow> '''' | Some r \<Rightarrow>
     (if po_type o' = ''escrow'' then ''Released '' else ''Pruned '') @ dec_str (int (pu_removed r)) @ '' ''
       @ (if po_type o' = ''escrow'' then ''escrow snapshots'' else ''snapshots'') @ '', kept '' @ dec_str (int (pu_kept r)))"

definition prune_wal_tail :: "prune_wal_result tail" where
  "prune_wal_tail = reported_tail (\<lambda>_. ''WAL prune complete'')"

definition bootstrap_command_tail :: "bool \<Rightarrow> bootstrap_result tail" where
  "bootstrap_command_tail dry =
     bootstrap_tail dry (\<lambda>d. case d of None \<Rightarrow> (\<lambda>c. c) | Some r \<Rightarrow> print_boot_plan r)"

section \<open>The plan of an authority reset\<close>

definition target_note :: "instance_assessment list \<Rightarrow> string \<Rightarrow> string option" where
  "target_note as target =
     map_option (\<lambda>a. case ia_notes a of [] \<Rightarrow> ''unknown'' | n # _ \<Rightarrow> n) (find_first (\<lambda>a. ia_pod a = target) as)"

definition reset_actions :: "reconf_conf \<Rightarrow> string \<Rightarrow> 'a console \<Rightarrow> 'a console" where
  "reset_actions c target con =
     (if \<not> rx_fix c then con
      else out_bullet 1 ''Node will rejoin cluster via full SST from a healthy donor''
        (out_bullet 1 ''Local data on target instance will be discarded'' (say [''Data impact:'']
          (out_bullet 1 (''galera PVC (galera-'' @ target @ ''): 1-bootstrap.cnf will be removed'')
            (out_bullet 1 (''storage PVC (storage-'' @ target @ ''): grastate.dat cleared, gvwstate.dat + galera.cache + ib_logfile* removed'')
              (say [''Data mutation:'']
                (out_field ''Blast radius'' (''all '' @ dec_str (rx_replicas c) @ '' Galera pods stopped, then restarted'')
                  (out_field ''Action'' ''fix-bootstrap'' con))))))))"

definition reset_state_lines :: "reconf_conf \<Rightarrow> string \<Rightarrow> triage_result \<Rightarrow> 'a console \<Rightarrow> 'a console" where
  "reset_state_lines c target t con =
     (let members = dc_primary_members (tr_comparison t);
          c1 = out_bullet 1 (''Replicas: '' @ dec_str (rx_replicas c)) (say [''Current state:''] con);
          c2 = out_bullet 1 (if members \<noteq> [] then ''Primary: '' @ join_with '', '' members @ '' (seqno: '' @ dec_str (dc_best_primary_seqno (tr_comparison t)) @ '')''
                             else ''Primary: NONE'') c1
      in say [''''] (case target_note (tr_assessments t) target of
                       None \<Rightarrow> c2 | Some n \<Rightarrow> out_bullet 1 (''Target: '' @ target @ '' ('' @ n @ '')'') c2))"

definition print_reset_plan :: "reconf_conf \<Rightarrow> int \<Rightarrow> triage_result \<Rightarrow> 'a console \<Rightarrow> 'a console" where
  "print_reset_plan c n t con =
     (let target = instance_pod (rx_cluster c) n;
          c1 = say ['''', ''WARNING: This is a cluster-scoped operation.'', ''All database nodes will be stopped.'',
                    ''Service disruption will occur.'', ''''] con;
          c2 = out_field ''Target'' (target @ '' (ordinal '' @ dec_str n @ '')'')
                 (out_field ''Scope'' ''cluster'' (out_field ''Operation'' ''reconfigure'' (out_banner ''Reconfigure Plan'' c1)));
          c3 = out_field ''Expected'' ''cluster restarts without stale bootstrap intent on target; all replicas converge to Synced''
                 (reset_actions c target c2)
      in reset_state_lines c target t (say [''''] c3))"

section \<open>Silence\<close>

text \<open>With the human writer off none of these plans reaches standard output; the preview of a reset is then
  one record of the log.\<close>

lemma outs_silent:
  assumes "\<not> co_enabled c"
  shows "out_banner t c = c" "out_field l v c = c" "out_bullet n m c = c" "out_info m c = c" "out_warn m c = c" "out_section t c = c"
    "out_success m c = c" "out_complete m c = c" "say ls c = c"
  using assms by (simp_all add: out_banner_def out_field_def out_bullet_def out_info_def out_warn_def out_section_def
      out_success_def out_complete_def say_silent Let_def)

lemma bullets_silent: "\<not> co_enabled c \<Longrightarrow> fold (\<lambda>a. out_bullet 0 (action_line a)) as c = c"
  by (induction as) (simp_all add: outs_silent)

lemma print_boot_plan_silent: "\<not> co_enabled c \<Longrightarrow> print_boot_plan r c = c"
  by (simp add: print_boot_plan_def outs_silent bullets_silent Let_def)

lemma print_reset_plan_silent:
  assumes "\<not> co_enabled c"
  shows "print_reset_plan rc n t c = c"
proof -
  have a: "reset_actions rc target c = c" for target unfolding reset_actions_def by (simp only: outs_silent[OF assms] if_cancel)
  have s: "reset_state_lines rc target t c = c" for target
    unfolding reset_state_lines_def Let_def by (cases "target_note (tr_assessments t) target") (simp_all only: outs_silent[OF assms] option.case)
  show ?thesis unfolding print_reset_plan_def Let_def by (simp only: outs_silent[OF assms] a s)
qed

text \<open>A machine reader of an authority reset gets nothing, whether it was previewed, succeeded or failed.\<close>

theorem reset_reports_nothing:
  assumes "\<not> co_enabled c" "iv_checks i = None" "iv_validate i = None" "pr_mode p = OutputJson"
  shows "co_stdout (snd (run_verb (reset_tail d dry) i p c)) = co_stdout c"
proof -
  have h: "print_header i p c = c" using assms(4) by (simp add: print_header_def is_human_def split: prod.split)
  have e: "\<not> co_enabled (play p (iv_talk i) c)" using assms(1) by simp
  have "co_stdout (snd (reset_tail d dry p (iv_answer i) (play p (iv_talk i) c))) = co_stdout (play p (iv_talk i) c)"
    using e by (cases "iv_answer i"; cases "snd (iv_answer i)") (auto simp: reset_tail_def out_plan_def say_def out_complete_def)
  then show ?thesis using assms h play_json[of c p "iv_talk i"] by (simp add: run_verb_def Let_def)
qed

text \<open>A bootstrap whose triage failed leaves a machine reader without a document, although its engine was reached.\<close>

theorem bootstrap_triage_failure_is_silent:
  assumes "stale_lock e = None" "be_triage e = Inl err" "pr_mode p = OutputJson"
  shows "bootstrap_command_tail dry p (bootstrap_report ns cluster e dry post s, Some msg) c = (Some msg, c)"
  using assms by (simp add: bootstrap_report_def bootstrap_command_tail_def bootstrap_tail_def Let_def)

end
