(* ===== verification/Reset_Helper.thy ===== *)
theory Reset_Helper
  imports Galera_Reconfig Helper_Retry Machine_Output
begin

text \<open>
  The parts of the authority reset that work below its steps (\<open>src/engine/reconfigure/galera.go\<close>): its own
  helper runs with their retry, the probe of a node, the wait for ready pods, and what the verdict prints.
  The reset keeps its own copies of primitives that the repair also has; here they are compared.
\<close>

section \<open>The helper run\<close>

text \<open>The answers of the API server by attempt; \<open>rh_taken\<close> says that a helper of an earlier attempt
  still has the name.  The state is whether a helper pod of this name exists.\<close>

record reset_run =
  rh_create :: "nat \<Rightarrow> string option"
  rh_lost :: "nat \<Rightarrow> bool"
  rh_phase :: "nat \<Rightarrow> nat \<Rightarrow> string option"
  rh_delete :: "nat \<Rightarrow> outcome"

datatype helper_end = HelperSucceeded | HelperPodFailed | HelperTimedOut

fun reset_poll :: "(nat \<Rightarrow> string option) \<Rightarrow> nat \<Rightarrow> nat \<Rightarrow> helper_end" where
  "reset_poll phase i 0 = HelperTimedOut"
| "reset_poll phase i (Suc k) =
     (if phase i = Some ''Succeeded'' then HelperSucceeded
      else if phase i = Some ''Failed'' then HelperPodFailed
      else reset_poll phase (Suc i) k)"

definition drop_reset_helper :: "outcome \<Rightarrow> bool \<Rightarrow> bool" where
  "drop_reset_helper o' present = snd (call o' (\<lambda>_. False) present)"

text \<open>A create that is refused may have taken effect all the same.\<close>

definition reset_run_helper :: "reset_run \<Rightarrow> string \<Rightarrow> nat \<Rightarrow> bool \<Rightarrow> string option \<times> bool" where
  "reset_run_helper e name attempt present =
     (if present then (Some (''failed to create helper pod '' @ name @ '': pods already exists''), present)
      else (case rh_create e attempt of
              Some err \<Rightarrow> (Some (''failed to create helper pod '' @ name @ '': '' @ err), rh_lost e attempt)
            | None \<Rightarrow>
                (case reset_poll (rh_phase e attempt) 0 30 of
                   HelperSucceeded \<Rightarrow> (None, drop_reset_helper (rh_delete e attempt) True)
                 | HelperPodFailed \<Rightarrow> (Some (''helper pod '' @ name @ '' failed''), drop_reset_helper (rh_delete e attempt) True)
                 | HelperTimedOut \<Rightarrow> (Some (''helper pod '' @ name @ '' timed out''), drop_reset_helper (rh_delete e attempt) True))))"

fun reset_retry :: "reset_run \<Rightarrow> string \<Rightarrow> string \<Rightarrow> nat \<Rightarrow> nat \<Rightarrow> bool \<Rightarrow> galera_heal_error option \<times> bool" where
  "reset_retry e name prev attempt 0 present = (Some (HelperGaveUp prev), present)"
| "reset_retry e name prev attempt (Suc left) present =
     (case reset_run_helper e name attempt present of
        (None, present') \<Rightarrow> (None, present')
      | (Some msg, present') \<Rightarrow>
          if \<not> is_mount_error msg then (Some (HelperFailed msg), present')
          else reset_retry e name msg (Suc attempt) left present')"

text \<open>What the helper of each attempt answers, in the terms of the shared retry.\<close>

fun presence_before :: "reset_run \<Rightarrow> string \<Rightarrow> nat \<Rightarrow> nat \<Rightarrow> bool \<Rightarrow> bool" where
  "presence_before e name start 0 present = present"
| "presence_before e name start (Suc k) present =
     presence_before e name (Suc start) k (snd (reset_run_helper e name start present))"

definition attempt_answer :: "reset_run \<Rightarrow> string \<Rightarrow> bool \<Rightarrow> (nat \<Rightarrow> nat) \<Rightarrow> nat \<Rightarrow> helper_answer" where
  "attempt_answer e name present got i =
     (case fst (reset_run_helper e name i (presence_before e name 1 (i - 1) present)) of
        None \<Rightarrow> HelperOk | Some msg \<Rightarrow> HelperErr msg (got i))"

lemma presence_snoc:
  "presence_before e name s (Suc k) present = snd (reset_run_helper e name (s + k) (presence_before e name s k present))"
  by (induction k arbitrary: s present) simp_all

lemma retries_agree_from:
  assumes "attempt = Suc k"
  shows "fst (reset_retry e name prev attempt left (presence_before e name 1 k present)) =
    fst (run_helper_with_retry (attempt_answer e name present got) p steps prev attempt left w)"
  using assms
proof (induction left arbitrary: attempt k prev w)
  case (Suc left)
  let ?at = "presence_before e name 1 k present"
  obtain m pr where r: "reset_run_helper e name attempt ?at = (m, pr)" by fastforce
  have a: "attempt_answer e name present got attempt = (case m of None \<Rightarrow> HelperOk | Some msg \<Rightarrow> HelperErr msg (got attempt))"
    using r Suc.prems by (simp add: attempt_answer_def split: option.split)
  have n: "presence_before e name 1 (Suc k) present = pr"
    using presence_snoc[of e name 1 k present] r Suc.prems by simp
  show ?case
  proof (cases m)
    case (Some msg)
    show ?thesis
    proof (cases "is_mount_error msg")
      case True
      then show ?thesis using r a Some Suc.IH[of "Suc attempt" "Suc k" msg "on_disk p (run_script (take (got attempt) steps)) w"] n Suc.prems
        by (simp add: Let_def)
    qed (use r a Some in \<open>simp add: Let_def\<close>)
  qed (use r a in simp)
qed simp

text \<open>The reset's copy of the retry answers as the repair's does on the same helpers.\<close>

theorem reset_retry_is_the_repairs:
  "fst (reset_retry e name '''' 1 3 present) =
     fst (run_helper_with_retry (attempt_answer e name present got) p steps '''' 1 3 w)"
  using retries_agree_from[of 1 0 e name "''''" 3 present got p steps w] by simp

text \<open>A helper that never ends is retried here, since its error says that it timed out; the repair's helper run
  describes the same pod in other words and is not retried.\<close>

lemma reset_poll_pending:
  "list_all (\<lambda>j. phase j \<noteq> Some ''Succeeded'' \<and> phase j \<noteq> Some ''Failed'') [i..<i + k] \<Longrightarrow> reset_poll phase i k = HelperTimedOut"
  by (induction k arbitrary: i) (auto simp: upt_conv_Cons simp del: upt_Suc)

lemma timed_out_is_mount_error: "is_mount_error (''helper pod '' @ name @ '' timed out'')"
proof -
  have "''helper pod '' @ name @ '' timed out'' = (''helper pod '' @ name @ '' '') @ ''timed out'' @ []" by simp
  then have "str_contains (''helper pod '' @ name @ '' timed out'') ''timed out''" unfolding str_contains_iff by blast
  then show ?thesis by (simp add: is_mount_error_def)
qed

theorem pending_helper_is_retried:
  assumes "rh_create e 1 = None" "rh_create e 2 = None" "rh_create e 3 = None"
    "list_all (\<lambda>a. list_all (\<lambda>j. rh_phase e a j = Some ''Pending'') [0..<30]) [1, 2, 3]"
    "rh_delete e 1 = Applied" "rh_delete e 2 = Applied" "rh_delete e 3 = Applied"
  shows "reset_retry e name '''' 1 3 False = (Some (HelperGaveUp (''helper pod '' @ name @ '' timed out'')), False)"
proof -
  have "reset_run_helper e name a False = (Some (''helper pod '' @ name @ '' timed out''), False)" if "a \<in> {1, 2, 3}" for a
  proof -
    have "list_all (\<lambda>j. rh_phase e a j = Some ''Pending'') [0..<30]" using assms(4) that by auto
    then have "reset_poll (rh_phase e a) 0 30 = HelperTimedOut" by (intro reset_poll_pending) (auto simp: list_all_iff)
    then show ?thesis using assms that by (auto simp: reset_run_helper_def drop_reset_helper_def call_def)
  qed
  then show ?thesis using timed_out_is_mount_error[of name] by (simp add: numeral_eq_Suc)
qed

text \<open>A lost create leaves a helper behind that no later step deletes.\<close>

lemma lost_create_leaves_helper:
  assumes "rh_create e 1 = Some err" "rh_lost e 1" "\<not> is_mount_error (''failed to create helper pod '' @ name @ '': '' @ err)"
  shows "snd (reset_retry e name '''' 1 3 False)"
  using assms by (simp add: reset_run_helper_def numeral_eq_Suc)

section \<open>Probes and the verdict\<close>

record wsrep_probe =
  wp_exec :: bool
  wp_ready :: "bool option"
  wp_connected :: "bool option"
  wp_comment :: string
  wp_size :: int

definition reset_probe :: "(string, string) result \<Rightarrow> wsrep_probe" where
  "reset_probe answer =
     (case query_wsrep answer of
        Inl _ \<Rightarrow> \<lparr> wp_exec = False, wp_ready = None, wp_connected = None, wp_comment = '''', wp_size = 0 \<rparr>
      | Inr m \<Rightarrow> \<lparr> wp_exec = True, wp_ready = map_option (\<lambda>v. v = ''ON'') (map_of m ''wsrep_ready''),
                   wp_connected = map_option (\<lambda>v. v = ''ON'') (map_of m ''wsrep_connected''),
                   wp_comment = map_get '''' m ''wsrep_local_state_comment'',
                   wp_size = (case map_of m ''wsrep_cluster_size'' of None \<Rightarrow> 0 | Some v \<Rightarrow> atoi_lossy v) \<rparr>)"

definition probe_synced :: "wsrep_probe \<Rightarrow> bool" where
  "probe_synced r \<longleftrightarrow> wp_ready r = Some True \<and> wp_connected r = Some True \<and> wp_comment r = ''Synced''"

text \<open>A step of the poll, on the probe.\<close>

lemma round_step_probe:
  "round_step target ask p v =
     (let r = reset_probe (ask p) in
      if \<not> wp_exec r then v
      else \<lparr> cv_target = cv_target v \<or> p = target \<and> probe_synced r, cv_other = cv_other v \<or> p \<noteq> target \<and> probe_synced r,
             cv_size = max (cv_size v) (wp_size r) \<rparr>)"
  by (cases "query_wsrep (ask p)") (simp_all add: round_step_def reset_probe_def probe_synced_def Let_def)

text \<open>STEP 8: the pods are counted every ten seconds; running out of time is a warning.\<close>

definition all_ready :: "string list \<Rightarrow> (string \<Rightarrow> bool) \<Rightarrow> bool" where
  "all_ready ps ready \<longleftrightarrow> length (filter ready ps) = length ps"

definition wait_pods_ready :: "int \<Rightarrow> string list \<Rightarrow> (nat \<Rightarrow> string \<Rightarrow> bool) \<Rightarrow> bool" where
  "wait_pods_ready heal_timeout ps ready =
     poll_until (\<lambda>i. all_ready ps (ready i)) 0 (nat ((if heal_timeout \<le> 0 then 600 else heal_timeout) div 10))"

definition node_line :: "(string \<Rightarrow> (string, string) result) \<Rightarrow> string \<Rightarrow> 'a console \<Rightarrow> 'a console" where
  "node_line ask p c =
     (let r = reset_probe (ask p) in
      if wp_exec r then out_success (''Node '' @ p @ '': Synced, cluster_size='' @ dec_str (wp_size r)) c else c)"

definition verdict_lines :: "string list \<Rightarrow> (string \<Rightarrow> (string, string) result) \<Rightarrow> int \<Rightarrow> 'a console \<Rightarrow> 'a console" where
  "verdict_lines ps ask n c =
     out_success (''Reconfigure successful: cluster reformed with '' @ dec_str n @ '' nodes, all Synced'')
       (out_section ''Verdict'' (fold (node_line ask) ps c))"

text \<open>A node that answers the probe is printed as synced, whatever state it is in.\<close>

lemma answering_node_is_called_synced:
  assumes "query_wsrep (ask p) = Inr m" "co_enabled c"
  shows "\<exists>n. co_stdout (node_line ask p c) = co_stdout c @ [HumanLine (''[OK] Node '' @ p @ '': Synced, cluster_size='' @ n)]"
proof -
  have "wp_exec (reset_probe (ask p))" using assms(1) by (simp add: reset_probe_def)
  then show ?thesis using assms(2) by (auto simp: node_line_def out_success_def say_def Let_def)
qed

end
