(* ===== verification/Operator_Metrics.thy ===== *)
theory Operator_Metrics
  imports Operator Command_Reports
begin

text \<open>
  What the operator's metrics say (\<open>src/metrics/metrics.go\<close> with its callers in \<open>controller\<close>): the series by
  name and label values, the recording functions, and where reconciliations and jobs call them.
  A series that was never set is absent; the metrics library reads it as zero.  Durations are nanoseconds.
\<close>

section \<open>Series\<close>

type_synonym series = "string \<times> string list"
type_synonym metrics = "(series \<times> int) list"

definition set_series :: "series \<Rightarrow> int \<Rightarrow> metrics \<Rightarrow> metrics" where "set_series k v m = map_set k v m"
definition inc_series :: "series \<Rightarrow> metrics \<Rightarrow> metrics" where "inc_series k m = map_set k (map_get 0 m k + 1) m"

definition record_backup_success :: "string \<Rightarrow> string \<Rightarrow> string \<Rightarrow> string \<Rightarrow> int \<Rightarrow> backup_result \<Rightarrow> metrics \<Rightarrow> metrics" where
  "record_backup_success eng cluster ns repo now r m =
     (let ls = [eng, cluster, ns, repo];
          m1 = inc_series (''backup_total'', ls @ [''success''])
                 (set_series (''backup_last_duration_seconds'', ls) (bk_duration r)
                   (set_series (''backup_last_success_timestamp'', ls) now m))
      in if bk_size r > 0 then set_series (''backup_size_bytes'', ls) (bk_size r) m1 else m1)"

definition record_backup_failure :: "string \<Rightarrow> string \<Rightarrow> string \<Rightarrow> string \<Rightarrow> metrics \<Rightarrow> metrics" where
  "record_backup_failure eng cluster ns repo m = inc_series (''backup_total'', [eng, cluster, ns, repo, ''failure'']) m"

definition triage_outcomes :: "string list" where "triage_outcomes = [''healthy'', ''unhealthy'', ''split_brain'']"

definition record_triage_result :: "string \<Rightarrow> string \<Rightarrow> string \<Rightarrow> int \<Rightarrow> triage_result \<Rightarrow> string \<Rightarrow> metrics \<Rightarrow> metrics" where
  "record_triage_result eng cluster ns now t status m =
     (let ls = [eng, cluster, ns];
          m1 = set_series (''triage_total_instances'', ls) (tr_total t)
                 (set_series (''triage_healthy_instances'', ls) (tr_ready t)
                   (set_series (''triage_last_run_timestamp'', ls) now m))
      in fold (\<lambda>r. set_series (''triage_result'', ls @ [r]) (if r = status then 1 else 0)) triage_outcomes m1)"

definition record_repair :: "string \<Rightarrow> string \<Rightarrow> string \<Rightarrow> string \<Rightarrow> int \<Rightarrow> metrics \<Rightarrow> metrics" where
  "record_repair status eng cluster ns now m =
     set_series (''repair_last_timestamp'', [eng, cluster, ns]) now (inc_series (''repair_total'', [eng, cluster, ns, status]) m)"

definition record_repair_success :: "string \<Rightarrow> string \<Rightarrow> string \<Rightarrow> int \<Rightarrow> metrics \<Rightarrow> metrics" where
  "record_repair_success = record_repair ''success''"

definition record_repair_failure :: "string \<Rightarrow> string \<Rightarrow> string \<Rightarrow> int \<Rightarrow> metrics \<Rightarrow> metrics" where
  "record_repair_failure = record_repair ''failure''"

definition record_managed :: "string \<Rightarrow> int \<Rightarrow> metrics \<Rightarrow> metrics" where
  "record_managed eng n m = set_series (''managed_databases'', [eng]) n m"

definition record_reconcile :: "string \<Rightarrow> string \<Rightarrow> metrics \<Rightarrow> metrics" where
  "record_reconcile eng status m = inc_series (''controller_reconcile_total'', [eng, status]) m"

section \<open>Reconciliations\<close>

definition update_managed_gauge :: "scheduler \<Rightarrow> metrics \<Rightarrow> metrics" where
  "update_managed_gauge s m = fold (\<lambda>eng. record_managed eng (int (managed_gauge s eng))) engine_names m"

definition deregister_metrics :: "string \<Rightarrow> scheduler \<Rightarrow> metrics \<Rightarrow> metrics" where
  "deregister_metrics key s m =
     (case map_of (sc_managed s) key of None \<Rightarrow> m | Some _ \<Rightarrow> update_managed_gauge (deregister key s) m)"

definition register_metrics :: "(string \<Rightarrow> bool) \<Rightarrow> string \<Rightarrow> managed_db \<Rightarrow> scheduler \<Rightarrow> metrics \<Rightarrow> metrics" where
  "register_metrics valid key db s m =
     (case map_of (sc_managed s) key of
        Some d \<Rightarrow>
          if same_schedule (md_config (sd_db d)) (md_config db) then m
          else update_managed_gauge (register valid key db s) (deregister_metrics key s m)
      | None \<Rightarrow> update_managed_gauge (register valid key db s) m)"

text \<open>The same branches as the reconciliation itself.\<close>

definition reconcile_metrics :: "reconcile_env \<Rightarrow> request \<Rightarrow> scheduler \<Rightarrow> metrics \<Rightarrow> metrics" where
  "reconcile_metrics e q s m =
     (let key = db_key (rq_engine q) (rq_namespace q) (rq_name q) in
      case oe_object e of
        NotFound \<Rightarrow> record_reconcile (rq_engine q) ''success'' (deregister_metrics key s m)
      | LookupFailed \<Rightarrow> record_reconcile (rq_engine q) ''error'' m
      | Found ann \<Rightarrow>
          let policy = map_get [] ann (clinic ''policy'') in
          if policy = [] then deregister_metrics key s m
          else if map_get [] ann (clinic ''exclude'') = ''true'' then deregister_metrics key s m
          else (case oe_policy e policy of
                  Found spec \<Rightarrow>
                    record_reconcile (rq_engine q) ''success''
                      (register_metrics (oe_valid e) key
                         \<lparr> md_namespace = rq_namespace q, md_cluster = rq_name q, md_engine = rq_engine q,
                            md_config = parse_annotations ann (Some spec) \<rparr> s m)
                | _ \<Rightarrow> m))"

section \<open>Jobs\<close>

record job_readings =
  jr_now :: int
  jr_backup :: backup_result
  jr_repair_ok :: bool

definition backup_metrics :: "entry_env \<Rightarrow> job_readings \<Rightarrow> managed_db \<Rightarrow> string \<Rightarrow> metrics \<Rightarrow> metrics" where
  "backup_metrics e x db repo m =
     (case repo_credentials (jv_repo_of e) (jv_secret_of e) repo of
        Inl _ \<Rightarrow> m
      | Inr (path, pw, env) \<Rightarrow>
          let c = job_conf db ''backup'' path pw ''dump'' in
          if \<not> jv_valid e c then m
          else (case jv_backup e c of
                  None \<Rightarrow> record_backup_failure (md_engine db) (md_cluster db) (md_namespace db) repo m
                | Some _ \<Rightarrow> record_backup_success (md_engine db) (md_cluster db) (md_namespace db) repo (jr_now x) (jr_backup x) m))"

definition metrics_status :: "string \<Rightarrow> string" where
  "metrics_status s = (if s = ''split-brain'' then ''split_brain'' else s)"

definition repair_metrics :: "entry_env \<Rightarrow> job_readings \<Rightarrow> managed_db \<Rightarrow> metrics \<Rightarrow> metrics" where
  "repair_metrics e x db m =
     (case ec_repositories (md_config db) of
        [] \<Rightarrow> m
      | repo # _ \<Rightarrow>
          (case repo_credentials (jv_repo_of e) (jv_secret_of e) repo of
             Inl _ \<Rightarrow> m
           | Inr (path, pw, env) \<Rightarrow>
               let c = job_conf db ''repair'' path pw ''dump'' in
               if \<not> jv_valid e c then m
               else if jr_repair_ok x then record_repair_success (md_engine db) (md_cluster db) (md_namespace db) (jr_now x) m
               else record_repair_failure (md_engine db) (md_cluster db) (md_namespace db) (jr_now x) m))"

definition triage_metrics :: "entry_env \<Rightarrow> job_readings \<Rightarrow> managed_db \<Rightarrow> metrics \<Rightarrow> metrics" where
  "triage_metrics e x db m =
     (let c = job_conf db ''triage'' [] [] [] in
      if \<not> jv_valid e c then m
      else (case jv_triage e c of
              Inl _ \<Rightarrow> m
            | Inr t \<Rightarrow>
                (let m1 = record_triage_result (md_engine db) (md_cluster db) (md_namespace db) (jr_now x) t (metrics_status (triage_status t)) m
                 in if ec_mode (md_config db) = ''repair'' \<and> triage_status t = ''unhealthy'' then repair_metrics e x db m1 else m1)))"

definition job_metrics :: "entry_env \<Rightarrow> job_readings \<Rightarrow> cron_job \<Rightarrow> metrics \<Rightarrow> metrics" where
  "job_metrics e x j m = (case j of BackupJob db repo \<Rightarrow> backup_metrics e x db repo m | TriageJob db \<Rightarrow> triage_metrics e x db m)"

section \<open>The operator with its metrics\<close>

text \<open>A controller runs for each of the two engines; jobs run between reconciliations in any order.\<close>

inductive metered_state :: "scheduler \<Rightarrow> metrics \<Rightarrow> bool" where
  mt_start: "metered_state new_scheduler []"
| mt_reconcile: "metered_state s m \<Longrightarrow> rq_engine q \<in> set engine_names \<Longrightarrow>
     metered_state (snd (reconcile e q s)) (reconcile_metrics e q s m)"
| mt_job: "metered_state s m \<Longrightarrow> metered_state s (job_metrics e x j m)"

definition gauge_current :: "scheduler \<Rightarrow> metrics \<Rightarrow> bool" where
  "gauge_current s m \<longleftrightarrow> list_all (\<lambda>eng. map_get 0 m (''managed_databases'', [eng]) = int (managed_gauge s eng)) engine_names"

lemma series_simps [simp]:
  "map_get 0 (set_series k v m) k' = (if k' = k then v else map_get 0 m k')"
  "map_get 0 (inc_series k m) k' = (if k' = k then map_get 0 m k + 1 else map_get 0 m k')"
  by (simp_all add: set_series_def inc_series_def)

lemma gauge_updated: "gauge_current s (update_managed_gauge s m)"
  by (simp add: gauge_current_def update_managed_gauge_def record_managed_def engine_names_def)

lemma gauge_other:
  "gauge_current s (record_reconcile eng st m) \<longleftrightarrow> gauge_current s m"
  "gauge_current s (record_repair st eng cl ns now m) \<longleftrightarrow> gauge_current s m"
  "gauge_current s (record_backup_failure eng cl ns repo m) \<longleftrightarrow> gauge_current s m"
  "gauge_current s (record_backup_success eng cl ns repo now r m) \<longleftrightarrow> gauge_current s m"
  "gauge_current s (record_triage_result eng cl ns now t st m) \<longleftrightarrow> gauge_current s m"
  by (simp_all add: gauge_current_def record_reconcile_def record_repair_def record_backup_failure_def record_backup_success_def
      record_triage_result_def triage_outcomes_def Let_def list_all_iff)

lemma gauge_job: "gauge_current s (job_metrics e x j m) \<longleftrightarrow> gauge_current s m"
  by (auto simp: job_metrics_def backup_metrics_def triage_metrics_def repair_metrics_def record_repair_success_def record_repair_failure_def
      gauge_other Let_def split: cron_job.split sum.split option.split list.split prod.split)

lemma gauge_map_set:
  "map_of ms key = Some d \<Longrightarrow> md_engine (sd_db d') = md_engine (sd_db d) \<Longrightarrow>
     length (filter (\<lambda>(_, d). md_engine (sd_db d) = eng) (map_set key d' ms)) = length (filter (\<lambda>(_, d). md_engine (sd_db d) = eng) ms)"
  by (induction key d' ms rule: map_set.induct) (auto split: if_splits)

lemma set_map_set: "set (map_set k v m) \<subseteq> insert (k, v) (set m)"
  by (induction k v m rule: map_set.induct) auto

definition engines_known :: "scheduler \<Rightarrow> bool" where
  "engines_known s \<longleftrightarrow> (\<forall>(_, d) \<in> set (sc_managed s). md_engine (sd_db d) \<in> set engine_names)"

lemma key_engine:
  "db_key a n c = db_key b n' c' \<Longrightarrow> a \<in> set engine_names \<Longrightarrow> b \<in> set engine_names \<Longrightarrow> a = b"
  by (auto simp: engine_names_def db_key_def)

lemma fold_remove_managed: "sc_managed (fold cron_remove is s) = sc_managed s"
  by (induction "is" arbitrary: s) (simp_all add: cron_remove_def)

lemma deregister_managed: "set (sc_managed (deregister key s)) \<subseteq> set (sc_managed s)"
  by (auto simp: deregister_def Let_def cron_remove_def fold_remove_managed split: option.split)

lemma deregister_known: "engines_known s \<Longrightarrow> engines_known (deregister key s)"
  using deregister_managed unfolding engines_known_def by blast

lemma schedule_known: "engines_known s \<Longrightarrow> md_engine db \<in> set engine_names \<Longrightarrow> engines_known (schedule valid key db s)"
  using schedule_spec[of valid key db s] set_map_set[of key _ "sc_managed s"] unfolding engines_known_def by fastforce

lemma register_known: "engines_known s \<Longrightarrow> md_engine db \<in> set engine_names \<Longrightarrow> engines_known (register valid key db s)"
proof (cases "map_of (sc_managed s) key")
  case (Some d)
  assume a: "engines_known s" "md_engine db \<in> set engine_names"
  have "engines_known (s\<lparr> sc_managed := map_set key (d\<lparr> sd_db := db \<rparr>) (sc_managed s) \<rparr>)"
    using a set_map_set[of key "d\<lparr> sd_db := db \<rparr>" "sc_managed s"] unfolding engines_known_def by fastforce
  then show ?thesis using a Some by (simp add: register_def schedule_known deregister_known)
qed (simp add: register_def schedule_known)

lemma reconcile_known: "engines_known s \<Longrightarrow> rq_engine q \<in> set engine_names \<Longrightarrow> engines_known (snd (reconcile e q s))"
  by (simp add: reconcile_def Let_def deregister_known register_known split: lookup.split)

lemma register_gauge:
  assumes "scheduler_ok s" "engines_known s" "gauge_current s m" "own_key db = key" "md_engine db \<in> set engine_names"
  shows "gauge_current (register valid key db s) (register_metrics valid key db s m)"
proof (cases "map_of (sc_managed s) key")
  case None
  then show ?thesis by (simp add: register_metrics_def gauge_updated)
next
  case (Some d)
  have "(key, d) \<in> set (sc_managed s)" using Some by (rule map_of_SomeD)
  then have "own_key (sd_db d) = own_key db" "md_engine (sd_db d) \<in> set engine_names"
    using assms(1,2,4) by (auto simp: scheduler_ok_def engines_known_def)
  then have "md_engine db = md_engine (sd_db d)" using key_engine assms(5) by (metis own_key_def)
  then have "managed_gauge (s\<lparr> sc_managed := map_set key (d\<lparr> sd_db := db \<rparr>) (sc_managed s) \<rparr>) eng = managed_gauge s eng" for eng
    using gauge_map_set[OF Some, of "d\<lparr> sd_db := db \<rparr>" eng] by (simp add: managed_gauge_def)
  then show ?thesis using Some assms(3) by (simp add: register_metrics_def register_def gauge_updated, simp add: gauge_current_def)
qed

lemma deregister_gauge: "gauge_current s m \<Longrightarrow> gauge_current (deregister key s) (deregister_metrics key s m)"
  by (simp add: deregister_metrics_def gauge_updated deregister_def split: option.split)

lemma reconcile_gauge:
  assumes "scheduler_ok s" "engines_known s" "gauge_current s m" "rq_engine q \<in> set engine_names"
  shows "gauge_current (snd (reconcile e q s)) (reconcile_metrics e q s m)"
  using assms by (simp add: reconcile_def reconcile_metrics_def Let_def gauge_other deregister_gauge register_gauge own_key_def split: lookup.split)

lemma metered_invariant:
  "metered_state s m \<Longrightarrow> scheduler_ok s \<and> engines_known s \<and> gauge_current s m"
proof (induction rule: metered_state.induct)
  case mt_start
  have "scheduler_ok new_scheduler" by (rule operator_ok[OF op_start])
  moreover have "engines_known new_scheduler" "gauge_current new_scheduler []"
    by (simp_all add: engines_known_def new_scheduler_def gauge_current_def managed_gauge_def map_get_def list_all_iff)
  ultimately show ?case by simp
qed (simp_all add: reconcile_ok reconcile_known reconcile_gauge gauge_job)

section \<open>Triage outcomes\<close>

text \<open>Over the three outcomes of one database: all zero before its first triage, then exactly one is set.\<close>

definition outcome_of :: "metrics \<Rightarrow> string list \<Rightarrow> string \<Rightarrow> int" where
  "outcome_of m ls r = map_get 0 m (''triage_result'', ls @ [r])"

definition one_outcome :: "metrics \<Rightarrow> string list \<Rightarrow> bool" where
  "one_outcome m ls \<longleftrightarrow>
     list_all (\<lambda>r. outcome_of m ls r = 0 \<or> outcome_of m ls r = 1) triage_outcomes \<and>
     sum_list (map (outcome_of m ls) triage_outcomes) = (if map_of m (''triage_last_run_timestamp'', ls) = None then 0 else 1)"

lemma series_map_of [simp]:
  "map_of (set_series k v m) = (map_of m)(k \<mapsto> v)" "map_of (inc_series k m) = (map_of m)(k \<mapsto> map_get 0 m k + 1)"
  by (simp_all add: set_series_def inc_series_def)

lemma outcome_triage:
  assumes "status \<in> set triage_outcomes" "length ls = 3" "one_outcome m ls"
  shows "one_outcome (record_triage_result eng cluster ns now t status m) ls"
  using assms by (auto simp: one_outcome_def outcome_of_def record_triage_result_def triage_outcomes_def Let_def)

lemma outcome_other:
  "one_outcome (record_reconcile eng st m) ls \<longleftrightarrow> one_outcome m ls"
  "one_outcome (record_repair st eng cl ns now m) ls \<longleftrightarrow> one_outcome m ls"
  "one_outcome (record_backup_failure eng cl ns repo m) ls \<longleftrightarrow> one_outcome m ls"
  "one_outcome (record_backup_success eng cl ns repo now r m) ls \<longleftrightarrow> one_outcome m ls"
  "one_outcome (record_managed eng n m) ls \<longleftrightarrow> one_outcome m ls"
  by (auto simp: one_outcome_def outcome_of_def record_reconcile_def record_repair_def record_backup_failure_def
      record_backup_success_def record_managed_def triage_outcomes_def Let_def)

lemma outcome_gauge: "one_outcome (update_managed_gauge s m) ls \<longleftrightarrow> one_outcome m ls"
  by (simp add: update_managed_gauge_def engine_names_def outcome_other)

lemma outcome_reconcile: "one_outcome (reconcile_metrics e q s m) ls \<longleftrightarrow> one_outcome m ls"
  by (simp add: reconcile_metrics_def deregister_metrics_def register_metrics_def outcome_other outcome_gauge Let_def split: lookup.split option.split)

lemma status_known: "metrics_status (triage_status t) \<in> set triage_outcomes"
  by (simp add: metrics_status_def triage_status_def triage_outcomes_def)

lemma unhealthy_known: "metrics_status ''unhealthy'' \<in> set triage_outcomes"
  by (simp add: metrics_status_def triage_outcomes_def)

lemma outcome_job:
  assumes "length ls = 3" "one_outcome m ls"
  shows "one_outcome (job_metrics e x j m) ls"
  using assms outcome_triage[OF status_known assms] outcome_triage[OF unhealthy_known assms]
  by (auto simp: job_metrics_def backup_metrics_def triage_metrics_def repair_metrics_def record_repair_success_def record_repair_failure_def
      outcome_other Let_def split: cron_job.split sum.split option.split list.split prod.split)

text \<open>In every reachable state of the operator the gauge of managed databases is current for both engines, and
  of a database's three triage outcomes exactly one is set once it was triaged.\<close>

theorem metrics_tell_the_state:
  "if metered_state s m
   then list_all (\<lambda>eng. map_get 0 m (''managed_databases'', [eng]) = int (managed_gauge s eng)) engine_names \<and>
     one_outcome m [eng, cluster, ns]
   else True"
proof -
  have "metered_state s m \<Longrightarrow> one_outcome m [eng, cluster, ns]"
  proof (induction rule: metered_state.induct)
    case mt_start
    show ?case by (simp add: one_outcome_def outcome_of_def triage_outcomes_def map_get_def)
  qed (simp_all add: outcome_reconcile outcome_job)
  then show ?thesis using metered_invariant[of s m] by (simp add: gauge_current_def)
qed

text \<open>A triage that fails records nothing: a database that was healthy keeps being reported as healthy.\<close>

lemma failed_triage_keeps_outcome:
  "jv_triage e (job_conf db ''triage'' [] [] []) = Inl err \<Longrightarrow> job_metrics e x (TriageJob db) m = m"
  by (simp add: job_metrics_def triage_metrics_def Let_def)

text \<open>Nothing removes a series: a database that left the operator keeps its last outcome.\<close>

lemma deregistered_keeps_outcome:
  "outcome_of (reconcile_metrics (e\<lparr> oe_object := NotFound \<rparr>) q s m) ls r = outcome_of m ls r"
  by (simp add: reconcile_metrics_def deregister_metrics_def outcome_of_def record_reconcile_def update_managed_gauge_def
      record_managed_def engine_names_def Let_def split: option.split)

section \<open>Backups are counted\<close>

definition backup_count :: "metrics \<Rightarrow> string list \<Rightarrow> int" where
  "backup_count m ls = map_get 0 m (''backup_total'', ls @ [''success'']) + map_get 0 m (''backup_total'', ls @ [''failure''])"

definition backup_runs :: "entry_env \<Rightarrow> cron_job \<Rightarrow> nat" where
  "backup_runs e j = length (filter (\<lambda>a. case a of RunBackup _ \<Rightarrow> True | _ \<Rightarrow> False) (run_entry e j))"

definition backup_labels :: "cron_job \<Rightarrow> string list option" where
  "backup_labels j = (case j of BackupJob db repo \<Rightarrow> Some [md_engine db, md_cluster db, md_namespace db, repo] | TriageJob _ \<Rightarrow> None)"

lemma backup_counted:
  assumes "length ls = 4"
  shows "backup_count (job_metrics e x j m) ls = backup_count m ls + (if backup_labels j = Some ls then int (backup_runs e j) else 0)"
proof (cases j)
  case (BackupJob db repo)
  then show ?thesis
    by (auto simp: job_metrics_def backup_metrics_def run_entry_def run_backup_def backup_runs_def backup_labels_def backup_count_def
        record_backup_success_def record_backup_failure_def Let_def split: sum.split option.split)
next
  case (TriageJob db)
  have "backup_count (record_triage_result a b c d t st m) ls = backup_count m ls"
    "backup_count (record_repair st a b c d m) ls = backup_count m ls" for a b c d t st m
    by (simp_all add: backup_count_def record_triage_result_def record_repair_def triage_outcomes_def Let_def)
  then show ?thesis using TriageJob
    by (auto simp: job_metrics_def triage_metrics_def repair_metrics_def record_repair_success_def record_repair_failure_def backup_labels_def
        Let_def split: sum.split list.split)
qed

text \<open>Over any history of jobs the success and failure counters of a database and repository add up to the
  backups that were started for them.\<close>

theorem backup_counters_count_runs:
  "backup_count (fold (\<lambda>(e, x, j). job_metrics e x j) hist m) [eng, cluster, ns, repo] =
     backup_count m [eng, cluster, ns, repo] +
     sum_list (map (\<lambda>(e, x, j). if backup_labels j = Some [eng, cluster, ns, repo] then int (backup_runs e j) else 0) hist)"
  by (induction hist arbitrary: m) (auto simp: backup_counted)

section \<open>Declarations\<close>

text \<open>A series is set through the declaration of its metric; the library panics when the labels do not fit.\<close>

datatype metric_kind = Gauge | Counter

definition database_labels :: "string list" where "database_labels = [''engine'', ''cluster'', ''namespace'']"

definition metric_declarations :: "(string \<times> metric_kind \<times> string list) list" where
  "metric_declarations =
     [(''backup_last_success_timestamp'', Gauge, database_labels @ [''repository'']),
      (''backup_last_duration_seconds'', Gauge, database_labels @ [''repository'']),
      (''backup_total'', Counter, database_labels @ [''repository'', ''status'']),
      (''backup_size_bytes'', Gauge, database_labels @ [''repository'']),
      (''triage_last_run_timestamp'', Gauge, database_labels), (''triage_healthy_instances'', Gauge, database_labels),
      (''triage_total_instances'', Gauge, database_labels), (''triage_result'', Gauge, database_labels @ [''result'']),
      (''repair_total'', Counter, database_labels @ [''status'']), (''repair_last_timestamp'', Gauge, database_labels),
      (''repository_snapshot_count'', Gauge, [''repository'']), (''repository_total_size_bytes'', Gauge, [''repository'']),
      (''repository_deduplicated_size_bytes'', Gauge, [''repository'']),
      (''managed_databases'', Gauge, [''engine'']), (''controller_reconcile_total'', Counter, [''engine'', ''status''])]"

definition fits_declaration :: "series \<Rightarrow> bool" where
  "fits_declaration k = (case map_of metric_declarations (fst k) of None \<Rightarrow> False | Some (_, ls) \<Rightarrow> length (snd k) = length ls)"

definition repository_metrics :: "string list" where
  "repository_metrics = [''repository_snapshot_count'', ''repository_total_size_bytes'', ''repository_deduplicated_size_bytes'']"

definition key_ok :: "series \<Rightarrow> bool" where "key_ok k \<longleftrightarrow> fits_declaration k \<and> fst k \<notin> set repository_metrics"
definition keys_ok :: "metrics \<Rightarrow> bool" where "keys_ok m \<longleftrightarrow> list_all (\<lambda>(k, _). key_ok k) m"

lemma keys_ok_set: "key_ok k \<Longrightarrow> keys_ok m \<Longrightarrow> keys_ok (map_set k v m)"
  using set_map_set[of k v m] unfolding keys_ok_def list_all_iff by auto

lemmas key_defs = key_ok_def fits_declaration_def metric_declarations_def database_labels_def repository_metrics_def

lemma recorded_keys:
  "key_ok (''backup_last_success_timestamp'', [a, b, c, d])" "key_ok (''backup_last_duration_seconds'', [a, b, c, d])"
  "key_ok (''backup_total'', [a, b, c, d, st])" "key_ok (''backup_size_bytes'', [a, b, c, d])"
  "key_ok (''triage_last_run_timestamp'', [a, b, c])" "key_ok (''triage_healthy_instances'', [a, b, c])"
  "key_ok (''triage_total_instances'', [a, b, c])" "key_ok (''triage_result'', [a, b, c, d])"
  "key_ok (''repair_total'', [a, b, c, d])" "key_ok (''repair_last_timestamp'', [a, b, c])"
  "key_ok (''managed_databases'', [a])" "key_ok (''controller_reconcile_total'', [a, b])"
  by (simp_all add: key_defs)

lemma recorders_keep_keys:
  assumes "keys_ok m"
  shows "keys_ok (record_backup_success a b c d now r m)" "keys_ok (record_backup_failure a b c d m)"
    "keys_ok (record_triage_result a b c now t st m)" "keys_ok (record_repair st a b c now m)"
    "keys_ok (record_managed a n m)" "keys_ok (record_reconcile a st m)"
  using assms
  by (simp_all add: record_backup_success_def record_backup_failure_def record_triage_result_def record_repair_def record_managed_def
      record_reconcile_def set_series_def inc_series_def triage_outcomes_def keys_ok_set recorded_keys Let_def)

lemma gauge_keeps_keys: "keys_ok m \<Longrightarrow> keys_ok (update_managed_gauge s m)"
  by (simp add: update_managed_gauge_def engine_names_def recorders_keep_keys)

lemma reconcile_keeps_keys: "keys_ok m \<Longrightarrow> keys_ok (reconcile_metrics e q s m)"
  by (simp add: reconcile_metrics_def deregister_metrics_def register_metrics_def gauge_keeps_keys recorders_keep_keys Let_def
      split: lookup.split option.split)

lemma job_keeps_keys: "keys_ok m \<Longrightarrow> keys_ok (job_metrics e x j m)"
  by (auto simp: job_metrics_def backup_metrics_def triage_metrics_def repair_metrics_def record_repair_success_def record_repair_failure_def
      recorders_keep_keys Let_def split: cron_job.split sum.split option.split list.split prod.split)

text \<open>No recording of the operator panics on its labels, and the repository metrics that are declared stay without a
  value: nothing records them.\<close>

theorem recordings_fit_declarations:
  "if metered_state s m then list_all (\<lambda>(k, _). fits_declaration k \<and> fst k \<notin> set repository_metrics) m else True"
proof -
  have "metered_state s m \<Longrightarrow> keys_ok m"
  proof (induction rule: metered_state.induct)
    case mt_start
    show ?case by (simp add: keys_ok_def)
  qed (simp_all add: reconcile_keeps_keys job_keeps_keys)
  then show ?thesis by (simp add: keys_ok_def key_ok_def)
qed

section \<open>Status annotations\<close>

text \<open>The resource of a database, by its engine; an engine that is neither has none.  A text without quotes,
  backslashes and control characters is quoted as it is.  The list is the order in which the Go map is ranged over.\<close>

definition database_resource :: "string \<Rightarrow> (string \<times> string \<times> string) option" where
  "database_resource eng =
     (if eng = ''cnpg'' then Some (''postgresql.cnpg.io'', ''v1'', ''clusters'')
      else if eng = ''galera'' then Some (''k8s.mariadb.com'', ''v1alpha1'', ''mariadbs'') else None)"

definition quoted_pair :: "string \<times> string \<Rightarrow> string" where
  "quoted_pair kv = [CHR 0x22] @ fst kv @ [CHR 0x22, CHR '':'', CHR 0x22] @ snd kv @ [CHR 0x22]"

definition annotation_patch :: "(string \<times> string) list \<Rightarrow> string" where
  "annotation_patch kvs =
     ''{'' @ [CHR 0x22] @ ''metadata'' @ [CHR 0x22] @ '':{'' @ [CHR 0x22] @ ''annotations'' @ [CHR 0x22] @ '':{''
       @ join_with '','' (map quoted_pair kvs) @ ''}}}''"

lemma managed_databases_have_a_resource: "eng \<in> set engine_names \<Longrightarrow> database_resource eng \<noteq> None"
  by (auto simp: engine_names_def database_resource_def)

end
