(* ===== verification/Triage_Display.thy ===== *)
theory Triage_Display
  imports Command_Reports
begin

text \<open>
  What triage prints about a cluster (the display functions of \<open>src/engine/triage/cnpg.go\<close>, \<open>galera.go\<close>,
  \<open>authority_banner.go\<close> and \<open>diagnosis.go\<close>): the banner over a comparison that is not safe to heal, the
  data of each instance, the summary, and the commands it suggests.  What a resource's status prints as
  (\<open>%v\<close>) is a parameter.
\<close>

section \<open>The banner\<close>

definition refusal_rule :: string where "refusal_rule = replicate 62 (CHR ''!'')"

definition refusal_lines :: "data_comparison \<Rightarrow> string list" where
  "refusal_lines c =
     (case dc_authority c of
        AuthorityUndeterminable \<Rightarrow>
          [''  REFUSING TO HEAL '' @ em_dash @ '' AUTHORITY UNDETERMINABLE'',
           ''  A node that could hold data could not be read; deciding past it'',
           ''  risks discarding the newest data. Bring it up for inspection'',
           ''  (fenced read) and re-triage '' @ em_dash @ '' do NOT heal while blind.'']
      | AuthorityDiverged \<Rightarrow>
          [''  REFUSING TO HEAL '' @ em_dash @ '' TRUE DIVERGENCE (SPLIT-BRAIN)'',
           ''  Committed data exists on more than one lineage past a shared'',
           ''  fork. No node is a safe authority '' @ em_dash @ '' escrow ALL and choose the'',
           ''  surviving lineage manually.'']
      | AuthorityLeaderNotPrimary \<Rightarrow>
          [''  REFUSING TO HEAL '' @ em_dash @ '' AUTHORITY IS NOT THE CURRENT PRIMARY'',
           ''  The winning data is on '' @ dc_most_advanced c @ '', not the primary. Promote it first;'',
           ''  healing from the primary would discard the newer data.'']
      | _ \<Rightarrow>
          [''  CRITICAL: NOT SAFE TO HEAL '' @ em_dash @ '' authority is undeterminable'',
           ''  Triage could not prove a single, consistent most-advanced history.''])"

definition authority_banner :: "data_comparison \<Rightarrow> string list" where
  "authority_banner c =
     (if dc_safe_to_heal c then []
      else ['''', refusal_rule] @ refusal_lines c
        @ (if dc_split_brain c \<noteq> [] then ''  Reason(s):'' # map (\<lambda>d. ''    - '' @ d) (dc_split_brain c) else [])
        @ [''  DO NOT blindly heal '' @ em_dash @ '' review the data above and decide manually.'', refusal_rule, ''''])"

definition render_banner :: "data_comparison \<Rightarrow> 'a console \<Rightarrow> 'a console" where "render_banner c = say (authority_banner c)"

section \<open>Diagnoses\<close>

definition render_diagnosis :: "diagnosis \<Rightarrow> 'a console \<Rightarrow> 'a console" where
  "render_diagnosis d con =
     (let c1 = say [dg_summary d] (out_section (''DIAGNOSIS: '' @ dg_id d) (say [''''] con));
          c2 = (if dg_detail d \<noteq> '''' then say [dg_detail d] c1 else c1);
          c3 = (if dg_target d \<noteq> '''' then out_field ''Remediation target'' (dg_target d) c2 else c2)
      in if dg_remedy d \<noteq> '''' then out_field ''Remedy'' (dg_remedy d) c3 else c3)"

definition render_diagnoses :: "diagnosis list \<Rightarrow> 'a console \<Rightarrow> 'a console" where
  "render_diagnoses ds = fold render_diagnosis ds"

section \<open>PostgreSQL\<close>

definition join_pod_names :: "pod list \<Rightarrow> string" where
  "join_pod_names ps = (if ps = [] then ''none'' else join_with '', '' (map p_name ps))"

definition join_or_none :: "string list \<Rightarrow> string" where
  "join_or_none xs = (if xs = [] then ''NONE'' else join_with '', '' xs)"

record container_view =
  cv_restarts :: int
  cv_waiting :: "string option"
  cv_terminated :: "string option"

definition wait_reason :: "container_view option \<Rightarrow> string" where
  "wait_reason v =
     (case v of
        None \<Rightarrow> ''N/A''
      | Some s \<Rightarrow> (case cv_waiting s of Some r \<Rightarrow> r
          | None \<Rightarrow> (case cv_terminated s of Some r \<Rightarrow> r | None \<Rightarrow> ''N/A'')))"

definition restart_count :: "container_view option \<Rightarrow> int" where
  "restart_count v = (case v of None \<Rightarrow> 0 | Some s \<Rightarrow> cv_restarts s)"

definition nonrunning_line :: "(string \<Rightarrow> container_view option) \<Rightarrow> pod \<Rightarrow> string" where
  "nonrunning_line view p = p_name p @ '': phase='' @ p_phase p @ '' reason='' @ wait_reason (view (p_name p))
     @ '' restarts='' @ dec_str (restart_count (view (p_name p)))"

definition crashloop_line :: "(string \<Rightarrow> container_view option) \<Rightarrow> pod \<Rightarrow> string" where
  "crashloop_line view p = ''CRASH-LOOP: '' @ p_name p @ '': phase=Running ready=false restarts='' @ dec_str (restart_count (view (p_name p)))"

definition cnpg_pod_details :: "(string \<Rightarrow> container_view option) \<Rightarrow> cnpg_data \<Rightarrow> string list" where
  "cnpg_pod_details view d = map (nonrunning_line view) (cx_nonrunning d) @ map (crashloop_line view) (cx_crashloop d)"

definition control_display :: "control_data \<Rightarrow> string list" where
  "control_display d =
     [cd_pod d @ (if cd_source d = ''pvc_probe'' then '' (from PVC probe - pod not running)''
                  else if cd_source d = ''none'' then '' (NO DATA - could not probe)'' else '''')
        @ (if cd_crash_reason d = ''disk_full'' then '' [DISK FULL]'' else ''''),
      ''  State: '' @ cd_state d, ''  Timeline: '' @ cd_timeline d, ''  Checkpoint LSN: '' @ cd_checkpoint d,
      ''  Checkpoint time: '' @ cd_checkpoint_time d, ''  Min recovery end: '' @ cd_min_recovery d]"

definition class_name :: "classification \<Rightarrow> string" where
  "class_name k = (case k of ClassUnset \<Rightarrow> '''' | ClassAuthoritative \<Rightarrow> ''authoritative'' | ClassRecoverable \<Rightarrow> ''recoverable''
     | ClassDisposable \<Rightarrow> ''disposable'' | ClassUnknown \<Rightarrow> ''unknown'')"

definition disk_line :: "disk_stats \<Rightarrow> string" where
  "disk_line d = ''  Disk: '' @ format_bytes (ds_used d) @ ''/'' @ format_bytes (ds_total d) @ '' ('' @ dec_str (ds_used_percent d)
     @ ''%) '' @ em_dash @ '' wal '' @ format_bytes (ds_wal d) @ '', data '' @ format_bytes (ds_data d) @ '', ''
     @ dec_str (ds_segments d) @ '' segs ['' @ ds_source d @ '']''"

definition cnpg_instance_lines :: "instance_assessment \<Rightarrow> string list" where
  "cnpg_instance_lines a =
     [ia_pod a @ (if ia_is_primary a then '' [PRIMARY]'' else '''')
        @ (if ia_classification a \<noteq> ClassUnset then '' {'' @ class_name (ia_classification a) @ ''}'' else '''')
        @ '': '' @ join_with '', '' (ia_notes a),
      ''  Timeline: '' @ dec_str (ia_timeline a) @ '' | LSN: '' @ ia_lsn a]
     @ (case ia_disk a of None \<Rightarrow> [] | Some d \<Rightarrow> [disk_line d])
     @ (if ia_remediation a = ''restart'' \<or> ia_remediation a = ''reseed'' then [''  remediation: '' @ ia_remediation a] else [])
     @ [''  >> '' @ ia_recommendation a]"

definition recovery_lines :: "string \<Rightarrow> string \<Rightarrow> recovery \<Rightarrow> string list" where
  "recovery_lines cluster ns r =
     [''Authority: '' @ (if rec_authority r = '''' then ''(ambiguous)'' else rec_authority r)]
     @ (if rec_disposable r \<noteq> [] then [''Disposable: '' @ join_with '', '' (rec_disposable r)] else [])
     @ (if rec_blocked r
        then [''Deadlock: BLOCKED ('' @ rec_reason r @ '')'',
              ''Recovery set (must be escrow-reversible): '' @ join_with '', '' (rec_set r),
              ''>> hasteward repair -e cnpg -c '' @ cluster @ '' -n '' @ ns @ '' --unwedge'']
        else if rec_reason r = ''ambiguous_authority''
        then [''Authority ambiguous '' @ em_dash @ '' deadlock breaker unavailable (refuse).''] else [])"

definition heal_verdict :: "string \<Rightarrow> string \<Rightarrow> bool \<Rightarrow> string" where
  "heal_verdict what who safe =
     ''Safe to heal '' @ what @ '': '' @ (if safe then ''YES - '' @ who @ '' has most recent data''
        else ''NO - SPLIT-BRAIN DETECTED - review data above'')"

definition needing_heal :: "triage_result \<Rightarrow> nat" where
  "needing_heal t = length (filter ia_needs_heal (tr_assessments t))"

definition suggest :: "string \<Rightarrow> string \<Rightarrow> string \<Rightarrow> triage_result \<Rightarrow> 'a console \<Rightarrow> 'a console" where
  "suggest eng cluster ns t c = (if needing_heal t > 0 then suggested_commands eng cluster ns c else c)"

definition cnpg_summary :: "string \<Rightarrow> string \<Rightarrow> string \<Rightarrow> cnpg_data \<Rightarrow> triage_result \<Rightarrow> 'a console \<Rightarrow> 'a console" where
  "cnpg_summary cluster ns primary d t con =
     (let c1 = say [''Cluster: '' @ cluster @ '' ('' @ ns @ '')'',
                    ''Primary: '' @ primary @ '' (timeline '' @ cx_primary_timeline d @ '', LSN '' @ cd_checkpoint (cx_primary_control d) @ '')'',
                    ''Phase: '' @ tr_phase t, ''Ready: '' @ dec_str (tr_ready t) @ ''/'' @ dec_str (tr_total t),
                    heal_verdict ''replicas'' ''primary'' (dc_safe_to_heal (tr_comparison t)), '''']
                 (out_banner ''TRIAGE SUMMARY'' con);
          c2 = say (concat (map cnpg_instance_lines (tr_assessments t))) c1;
          c3 = (case tr_recovery t of None \<Rightarrow> c2 | Some r \<Rightarrow> say (recovery_lines cluster ns r) (out_section ''Recovery Assessment'' c2))
      in render_diagnoses (tr_diagnoses t) (suggest ''cnpg'' cluster ns t c3))"

section \<open>Galera\<close>

record galera_view =
  gv_ready :: string
  gv_galera_ready :: string
  gv_replicas :: int
  gv_image :: string
  gv_suspended :: bool
  gv_recovery :: "string option"

definition galera_status :: "galera_view \<Rightarrow> 'a console \<Rightarrow> 'a console" where
  "galera_status v con =
     out_field ''Galera recovery'' (case gv_recovery v of None \<Rightarrow> ''none'' | Some x \<Rightarrow> x)
       (out_field ''Suspended'' (bool_str (gv_suspended v)) (out_field ''Image'' (gv_image v)
         (out_field ''Replicas'' (dec_str (gv_replicas v)) (out_field ''GaleraReady'' (gv_galera_ready v)
           (out_field ''Ready'' (gv_ready v) (out_section ''MariaDB Status'' con))))))"

definition grastate_lines :: "grastate \<Rightarrow> string list" where
  "grastate_lines g =
     [gs_pod g @ (if gs_source g = ''pvc_probe'' then '' (from PVC probe - pod not running)''
                  else if gs_source g = ''exec_crashloop'' then '' (from crashloop pod)''
                  else if gs_source g = ''none'' then '' (NO DATA - could not probe)'' else ''''),
      ''  UUID: '' @ gs_uuid g, ''  Seqno: '' @ gs_seqno g, ''  Safe to bootstrap: '' @ gs_safe g]"

definition wsrep_lines :: "string \<Rightarrow> wsrep_status \<Rightarrow> string list" where
  "wsrep_lines name w =
     [name @ '':'', ''  local_state: '' @ dec_str (ws_local_state w) @ '' ('' @ ws_state_comment w @ '')'',
      ''  cluster_status: '' @ ws_cluster_status w, ''  cluster_size: '' @ ws_cluster_size w, ''  connected: '' @ ws_connected w,
      ''  ready: '' @ ws_ready w, ''  cluster_uuid: '' @ ws_cluster_uuid w, ''  last_committed: '' @ dec_str (ws_last_committed w),
      ''  flow_control_paused: '' @ ws_flow_paused w]"

definition galera_instance_lines :: "instance_assessment \<Rightarrow> string list" where
  "galera_instance_lines a =
     [ia_pod a @ (if ia_in_primary a then '' [PRIMARY COMPONENT]'' else '''') @ (if ia_crash_reason a = ''disk_full'' then '' [DISK FULL]'' else '''')
        @ '': '' @ join_with '', '' (ia_notes a),
      ''  Wsrep: state='' @ dec_str (ia_wsrep_state a) @ '' ('' @ ia_wsrep_comment a @ '') connected='' @ ia_wsrep_connected a
        @ '' ready='' @ ia_wsrep_ready a @ '' cluster='' @ ia_wsrep_cluster_status a,
      ''  Seqno: effective='' @ dec_str (ia_eff_seqno a) @ '' (source='' @ ia_seqno_source a @ '')''
        @ (if ia_seqno_lag a \<ge> 0 then '' lag='' @ dec_str (ia_seqno_lag a) else ''''),
      ''  Grastate: uuid='' @ ia_uuid a @ '' seqno='' @ dec_str (ia_seqno a) @ '' safe_to_bootstrap='' @ ia_safe_to_bootstrap a,
      ''  Disk: '' @ (if ia_disk_pct a \<ge> 0 then dec_str (ia_disk_pct a) @ ''%'' else ''N/A''),
      ''  >> '' @ ia_recommendation a]"

definition all_down_lines :: "string \<Rightarrow> string \<Rightarrow> galera_data \<Rightarrow> string list" where
  "all_down_lines cluster ns d =
     [''All nodes are down. Best bootstrap candidate: '' @ gd_best_node d @ '' (seqno: '' @ dec_str (gd_best_value d) @ '')'',
      ''The mariadb-operator should handle recovery automatically via galera.recovery.'',
      ''If stuck, check the MariaDB CR status.galeraRecovery field.'', '''', ''To manually bootstrap the cluster:'',
      ''  hasteward bootstrap -e galera -c '' @ cluster @ '' -n '' @ ns @ '' --dry-run'',
      ''  hasteward bootstrap -e galera -c '' @ cluster @ '' -n '' @ ns]"

definition galera_summary :: "string \<Rightarrow> string \<Rightarrow> galera_view \<Rightarrow> galera_data \<Rightarrow> triage_result \<Rightarrow> 'a console \<Rightarrow> 'a console" where
  "galera_summary cluster ns v d t con =
     (let cmp = tr_comparison t;
          c1 = say [''Cluster: '' @ cluster @ '' ('' @ ns @ '')'',
                    ''Ready: '' @ gv_ready v @ '' | GaleraReady: '' @ gv_galera_ready v, ''Replicas: '' @ dec_str (gv_replicas v),
                    ''Most advanced node: '' @ dc_most_advanced cmp @ '' (seqno: '' @ dec_str (dc_most_advanced_value cmp) @ '')'',
                    ''Primary component: '' @ join_or_none (dc_primary_members cmp) @ '' (best seqno: ''
                      @ dec_str (dc_best_primary_seqno cmp) @ '')'',
                    heal_verdict ''nodes'' ''primary component'' (dc_safe_to_heal cmp),
                    ''All nodes down: '' @ bool_str (gd_all_down d), ''Authority status: '' @ tr_authority_status t,
                    (if tr_donor t \<noteq> ''none'' then ''Recommended donor: '' @ tr_donor t
                     else ''Recommended donor: none (authority ambiguous; operator must choose)''), '''']
                 (out_banner ''TRIAGE SUMMARY'' con);
          c2 = suggest ''galera'' cluster ns t (say (concat (map galera_instance_lines (tr_assessments t))) c1);
          c3 = render_diagnoses (tr_diagnoses t) c2
      in if gd_all_down d then say (all_down_lines cluster ns d) (out_section ''Full Cluster Down'' (say [''''] c3)) else c3)"

section \<open>The sections before the summary\<close>

record cnpg_view =
  vw_phase :: string
  vw_instances :: int
  vw_ready :: string
  vw_current :: string
  vw_target :: string
  vw_timeline :: string
  vw_image :: string
  vw_fenced :: "string list"

definition bracketed :: "string list \<Rightarrow> string" where "bracketed xs = ''['' @ join_with '' '' xs @ '']''"

definition cnpg_status_display :: "cnpg_view \<Rightarrow> 'a console \<Rightarrow> 'a console" where
  "cnpg_status_display v con =
     fold (\<lambda>(k, x). out_field k x)
       [(''Phase'', vw_phase v), (''Instances'', dec_str (vw_instances v)), (''Ready instances'', vw_ready v),
        (''Current primary'', vw_current v), (''Target primary'', vw_target v), (''Timeline ID'', vw_timeline v),
        (''PostgreSQL image'', vw_image v), (''Fenced instances'', bracketed (vw_fenced v))]
       (out_section ''Cluster Status'' con)"

definition cnpg_pod_overview :: "string list \<Rightarrow> string list \<Rightarrow> cnpg_data \<Rightarrow> 'a console \<Rightarrow> 'a console" where
  "cnpg_pod_overview healthy dangling d con =
     (let c1 = fold (\<lambda>(k, x). out_field k x)
            [(''Expected instances'', join_with '', '' (cx_expected d)), (''Running'', join_pod_names (cx_running d)),
             (''Non-running'', join_pod_names (cx_nonrunning d)), (''Missing (no pod)'', join_with '', '' (cx_missing d))]
            (out_section ''Pod Overview'' con)
      in if dangling \<noteq> [] \<or> cx_missing d \<noteq> []
         then out_field ''Dangling PVCs'' (join_with '', '' dangling)
                (out_field ''Healthy PVCs'' (join_with '', '' healthy) (out_section ''PVC State'' c1))
         else c1)"

definition galera_pod_overview :: "(string \<Rightarrow> container_view option) \<Rightarrow> galera_data \<Rightarrow> 'a console \<Rightarrow> 'a console" where
  "galera_pod_overview view d con =
     say (map (nonrunning_line view) (gd_nonrunning d))
       (fold (\<lambda>(k, x). out_field k x)
          [(''Expected nodes'', join_with '', '' (gd_expected d)), (''Running'', join_pod_names (gd_running d)),
           (''Non-running'', join_pod_names (gd_nonrunning d)), (''Missing (no pod)'', join_or_none (gd_missing d)),
           (''Crash-looping'', join_pod_names (gd_crashloop d))]
          (out_section ''Pod Overview'' con))"

section \<open>What the display promises\<close>

lemma banner_iff_unsafe: "authority_banner c = [] \<longleftrightarrow> dc_safe_to_heal c"
  by (simp add: authority_banner_def)

lemma banner_names_every_reason:
  assumes "\<not> dc_safe_to_heal c" "r \<in> set (dc_split_brain c)"
  shows "''    - '' @ r \<in> set (authority_banner c)"
  using assms by (auto simp: authority_banner_def)

lemma banner_names_the_leader:
  assumes "\<not> dc_safe_to_heal c" "dc_authority c = AuthorityLeaderNotPrimary"
  shows "''  The winning data is on '' @ dc_most_advanced c @ '', not the primary. Promote it first;'' \<in> set (authority_banner c)"
  using assms by (simp add: authority_banner_def refusal_lines_def)

lemma verdict_tells_safety: "heal_verdict w p b = heal_verdict w p b' \<longleftrightarrow> b = b'"
  by (cases b; cases b') (simp_all add: heal_verdict_def)

lemma summary_says_split_brain_when_unread:
  assumes "\<not> dc_safe_to_heal c"
  shows "heal_verdict w p (dc_safe_to_heal c) = ''Safe to heal '' @ w @ '': '' @ ''NO - SPLIT-BRAIN DETECTED - review data above''"
  using assms by (simp add: heal_verdict_def)

lemma undeterminable_banner_is_no_split_brain:
  assumes "dc_authority c = AuthorityUndeterminable"
  shows "refusal_lines c ! 0 = ''  REFUSING TO HEAL '' @ em_dash @ '' AUTHORITY UNDETERMINABLE''"
  using assms by (simp add: refusal_lines_def)

text \<open>A comparison of the triage carries an outcome, so the banner's last branch prints for an unset outcome only.\<close>

lemma banner_branch_of_comparison:
  assumes "out \<noteq> AuthorityUnset" "\<not> dc_safe_to_heal (new_authority_comparison out ma v rs ok)"
  shows "out \<in> {AuthorityUndeterminable, AuthorityDiverged, AuthorityLeaderNotPrimary}"
  using assms by (cases out) simp_all

lemma summary_ends_with_diagnoses:
  "\<exists>con'. cnpg_summary cluster ns primary d t con = render_diagnoses (tr_diagnoses t) con'"
  by (auto simp: cnpg_summary_def Let_def)

lemma no_heal_no_suggestion: "needing_heal t = 0 \<Longrightarrow> suggest eng cl ns t c = c"
  by (simp add: suggest_def)

end
