(* ===== verification/Verb_Registry.thy ===== *)
theory Verb_Registry
  imports Invocation
begin

text \<open>
  Which engine implements which verb (the \<open>init\<close> functions and registries of every package under
  \<open>src/engine\<close>): each package registers a constructor per engine name, looks it up by the name of the
  provider, and the constructor asserts the provider's type before it builds on it.
\<close>

section \<open>Providers and constructors\<close>

datatype provider_kind = CnpgEngine | GaleraEngine

definition provider_name :: "provider_kind \<Rightarrow> string" where
  "provider_name p = (case p of CnpgEngine \<Rightarrow> ''cnpg'' | GaleraEngine \<Rightarrow> ''galera'')"

definition provider_registry :: "(string \<times> provider_kind) list" where
  "provider_registry = map_set ''galera'' GaleraEngine (map_set ''cnpg'' CnpgEngine [])"

definition valid_engines :: "string list" where "valid_engines = map fst provider_registry"

definition get_provider :: "string \<Rightarrow> (string, provider_kind) result" where
  "get_provider name =
     (case map_of provider_registry name of
        None \<Rightarrow> Err (''unknown engine '' @ [CHR 0x22] @ name @ [CHR 0x22] @ '' (valid: ['' @ join_with '' '' valid_engines @ ''])'')
      | Some p \<Rightarrow> Ok p)"

text \<open>\<open>%T\<close> of a provider.\<close>

definition go_type :: "provider_kind \<Rightarrow> string" where
  "go_type p = (case p of CnpgEngine \<Rightarrow> ''*provider.CNPGProvider'' | GaleraEngine \<Rightarrow> ''*provider.GaleraProvider'')"

datatype verb = VTriage | VBackup | VRepair | VRestore | VRetention | VPruneWal | VBootstrap | VReconfigure

type_synonym engine_part = "verb \<times> provider_kind"
type_synonym constructor = "provider_kind \<Rightarrow> (string, engine_part) result"
type_synonym registry = "(string \<times> constructor) list"

definition register_ctor :: "string \<Rightarrow> constructor \<Rightarrow> registry \<Rightarrow> registry" where "register_ctor eng f r = map_set eng f r"

definition unsupported :: "string \<Rightarrow> string \<Rightarrow> string" where
  "unsupported op eng = ''operation not supported: '' @ op @ '' for '' @ eng"

definition lookup_ctor :: "string \<Rightarrow> registry \<Rightarrow> constructor" where
  "lookup_ctor op r p = (case map_of r (provider_name p) of None \<Rightarrow> Err (unsupported op (provider_name p)) | Some f \<Rightarrow> f p)"

definition asserted :: "provider_kind \<Rightarrow> string \<Rightarrow> constructor \<Rightarrow> constructor" where
  "asserted k complaint f p = (if p = k then f p else Err (complaint @ '', got '' @ go_type p))"

definition building :: "string \<Rightarrow> constructor \<Rightarrow> constructor \<Rightarrow> constructor" where
  "building complaint part f p = (case part p of Inl err \<Rightarrow> Err (complaint @ err) | Inr _ \<Rightarrow> f p)"

definition made :: "verb \<Rightarrow> constructor" where "made v p = Ok (v, p)"

section \<open>The packages\<close>

definition triage_registry :: registry where
  "triage_registry =
     register_ctor ''galera'' (asserted GaleraEngine ''galera triager requires *provider.GaleraProvider'' (made VTriage))
       (register_ctor ''cnpg'' (asserted CnpgEngine ''cnpg triager requires *provider.CNPGProvider'' (made VTriage)) [])"

definition get_triager :: constructor where "get_triager = lookup_ctor ''triage'' triage_registry"

definition backup_registry :: registry where
  "backup_registry =
     register_ctor ''galera'' (asserted GaleraEngine ''galera backup: expected *provider.GaleraProvider'' (made VBackup))
       (register_ctor ''cnpg'' (asserted CnpgEngine ''cnpg backup: expected *provider.CNPGProvider'' (made VBackup)) [])"

definition get_backer :: constructor where "get_backer = lookup_ctor ''backup'' backup_registry"

definition restore_registry :: registry where
  "restore_registry =
     register_ctor ''galera'' (asserted GaleraEngine ''restore/galera: expected *provider.GaleraProvider'' (made VRestore))
       (register_ctor ''cnpg'' (asserted CnpgEngine ''restore/cnpg: expected *provider.CNPGProvider'' (made VRestore)) [])"

definition get_restorer :: constructor where "get_restorer = lookup_ctor ''restore'' restore_registry"

definition retention_registry :: registry where
  "retention_registry =
     register_ctor ''galera'' (asserted GaleraEngine ''expected *provider.GaleraProvider'' (made VRetention))
       (register_ctor ''cnpg'' (asserted CnpgEngine ''expected *provider.CNPGProvider'' (made VRetention)) [])"

definition get_retainer :: constructor where "get_retainer = lookup_ctor ''retention'' retention_registry"

definition cnpg_repair_ctor :: constructor where
  "cnpg_repair_ctor =
     asserted CnpgEngine ''cnpg repair: expected *provider.CNPGProvider''
       (building ''cnpg repair: triage init: '' get_triager (building ''cnpg repair: backup init: '' get_backer (made VRepair)))"

definition galera_repair_ctor :: constructor where
  "galera_repair_ctor =
     asserted GaleraEngine ''galera repair: expected *provider.GaleraProvider''
       (building ''galera repair: triage init: '' get_triager (building ''galera repair: backup init: '' get_backer (made VRepair)))"

definition get_repairer :: constructor where
  "get_repairer = lookup_ctor ''repair'' (register_ctor ''galera'' galera_repair_ctor (register_ctor ''cnpg'' cnpg_repair_ctor []))"

definition cnpg_pruner_ctor :: constructor where
  "cnpg_pruner_ctor =
     asserted CnpgEngine ''cnpg pruner requires *provider.CNPGProvider''
       (building ''cnpg pruner: failed to get triager: '' get_triager (made VPruneWal))"

definition get_pruner :: constructor where "get_pruner = lookup_ctor ''prune-wal'' (register_ctor ''cnpg'' cnpg_pruner_ctor [])"

definition galera_bootstrap_ctor :: constructor where
  "galera_bootstrap_ctor =
     asserted GaleraEngine ''galera bootstrapper requires *provider.GaleraProvider''
       (building ''galera bootstrapper: '' get_triager (made VBootstrap))"

definition get_bootstrapper :: constructor where
  "get_bootstrapper = lookup_ctor ''bootstrap'' (register_ctor ''galera'' galera_bootstrap_ctor [])"

definition galera_reconfigure_ctor :: constructor where
  "galera_reconfigure_ctor =
     asserted GaleraEngine ''galera reconfigure: expected *provider.GaleraProvider''
       (building ''galera reconfigure: triage init: '' get_triager (made VReconfigure))"

definition get_reconfigurer :: constructor where
  "get_reconfigurer p =
     (case map_of (register_ctor ''galera'' galera_reconfigure_ctor []) (provider_name p) of
        None \<Rightarrow> Err (''no reconfigure engine registered for '' @ [CHR 0x22] @ provider_name p @ [CHR 0x22])
      | Some f \<Rightarrow> f p)"

section \<open>The matrix of verbs and engines\<close>

lemmas registry_defs = lookup_ctor_def register_ctor_def asserted_def building_def made_def provider_name_def map_set.simps
  triage_registry_def backup_registry_def restore_registry_def retention_registry_def

lemma engine_of_name: "get_provider name = Ok p \<longleftrightarrow> provider_name p = name"
  by (cases p) (auto simp: get_provider_def provider_registry_def provider_name_def)

lemma get_provider_names: "valid_engines = engine_names"
  by (simp add: valid_engines_def provider_registry_def engine_names_def)

lemma triager_exists: "get_triager p = Ok (VTriage, p)"
  by (cases p) (simp_all add: get_triager_def registry_defs)

lemma backer_exists: "get_backer p = Ok (VBackup, p)"
  by (cases p) (simp_all add: get_backer_def registry_defs)

text \<open>Every lookup either builds the verb for its own provider or reports the verb as missing for the engine:
  no constructor meets a provider of another type, and none fails on the parts it builds on.\<close>

theorem constructors_fit_their_engine:
  "get_triager p = Ok (VTriage, p) \<and> get_backer p = Ok (VBackup, p) \<and> get_restorer p = Ok (VRestore, p) \<and>
   get_retainer p = Ok (VRetention, p) \<and> get_repairer p = Ok (VRepair, p) \<and>
   get_pruner p = (if p = CnpgEngine then Ok (VPruneWal, p) else Err (unsupported ''prune-wal'' ''galera'')) \<and>
   get_bootstrapper p = (if p = GaleraEngine then Ok (VBootstrap, p) else Err (unsupported ''bootstrap'' ''cnpg'')) \<and>
   is_ok (get_reconfigurer p) = (p = GaleraEngine)"
  by (cases p)
    (simp_all add: triager_exists backer_exists get_restorer_def get_retainer_def get_repairer_def get_pruner_def get_bootstrapper_def
      get_reconfigurer_def cnpg_repair_ctor_def galera_repair_ctor_def cnpg_pruner_ctor_def galera_bootstrap_ctor_def
      galera_reconfigure_ctor_def registry_defs)

end
