(* ===== verification/Restic_Client.thy ===== *)
theory Restic_Client
  imports Go_Strings
begin

text \<open>
  Running restic (\<open>src/restic/restic.go\<close>, \<open>repository.go\<close>): the program, its environment and arguments, what a
  failure reads like, and how the answers of \<open>init\<close> and \<open>cat config\<close> are classified.  The program itself is a
  parameter: from its path, arguments, environment and input to its exit and its two outputs.
\<close>

section \<open>The client\<close>

record restic_client =
  rc_binary :: string
  rc_repository :: string
  rc_password :: string
  rc_env :: "(string \<times> string) list"

definition new_client :: "string \<Rightarrow> string \<Rightarrow> restic_client" where
  "new_client repo pw = \<lparr> rc_binary = '''', rc_repository = repo, rc_password = pw, rc_env = [] \<rparr>"

definition restic_binary :: "restic_client \<Rightarrow> string" where
  "restic_binary c = (if rc_binary c \<noteq> '''' then rc_binary c else ''restic'')"

text \<open>An entry \<open>k=v\<close> of the environment is the pair; of two entries for one name the later one counts, as
  \<open>os/exec\<close> documents.\<close>

type_synonym process_env = "(string \<times> string) list"

definition build_env :: "restic_client \<Rightarrow> process_env" where
  "build_env c = [(''RESTIC_REPOSITORY'', rc_repository c), (''RESTIC_PASSWORD'', rc_password c)] @ rc_env c"

definition env_value :: "process_env \<Rightarrow> string \<Rightarrow> string option" where "env_value e k = map_of (rev e) k"

record program_end =
  pe_error :: "string option"
  pe_stdout :: string
  pe_stderr :: string

type_synonym program = "string \<Rightarrow> string list \<Rightarrow> process_env \<Rightarrow> string \<Rightarrow> program_end"

definition failure_text :: "string list \<Rightarrow> string \<Rightarrow> string \<Rightarrow> string" where
  "failure_text args err errout = ''restic '' @ hd args @ '' failed: '' @ err @ [CHR 0x0A] @ ''stderr: '' @ trim_space errout"

definition run_with_stdin :: "program \<Rightarrow> process_env \<Rightarrow> restic_client \<Rightarrow> string \<Rightarrow> string list \<Rightarrow> (string, string) result" where
  "run_with_stdin prog environ c input args =
     (let r = prog (restic_binary c) args (environ @ build_env c) input in
      case pe_error r of None \<Rightarrow> Ok (pe_stdout r) | Some err \<Rightarrow> Err (failure_text args err (pe_stderr r)))"

definition run_restic :: "program \<Rightarrow> process_env \<Rightarrow> restic_client \<Rightarrow> string list \<Rightarrow> (string, string) result" where
  "run_restic prog environ c args = run_with_stdin prog environ c '''' args"

text \<open>The output goes to a writer, also the part before a failure.\<close>

definition run_with_stdout :: "program \<Rightarrow> process_env \<Rightarrow> restic_client \<Rightarrow> string \<Rightarrow> string list \<Rightarrow> string option \<times> string" where
  "run_with_stdout prog environ c written args =
     (let r = prog (restic_binary c) args (environ @ build_env c) '''' in
      (map_option (\<lambda>err. failure_text args err (pe_stderr r)) (pe_error r), written @ pe_stdout r))"

section \<open>The repository\<close>

definition init_repository :: "program \<Rightarrow> process_env \<Rightarrow> restic_client \<Rightarrow> string option" where
  "init_repository prog environ c =
     (case run_restic prog environ c [''init''] of
        Inr _ \<Rightarrow> None
      | Inl e \<Rightarrow> if str_contains e ''already initialized'' \<or> str_contains e ''already exists'' then None else Some (''restic init: '' @ e))"

definition missing_texts :: "string list" where
  "missing_texts = [''unable to open config file'', ''repository does not exist'', ''no such file or directory'',
     ''Is there a repository at the following location?'']"

definition repository_exists :: "program \<Rightarrow> process_env \<Rightarrow> restic_client \<Rightarrow> (string, bool) result" where
  "repository_exists prog environ c =
     (case run_restic prog environ c [''cat'', ''config''] of
        Inr _ \<Rightarrow> Ok True
      | Inl e \<Rightarrow> if list_ex (str_contains e) missing_texts then Ok False else Err e)"

definition check_repository :: "program \<Rightarrow> process_env \<Rightarrow> restic_client \<Rightarrow> string option" where
  "check_repository prog environ c = (case run_restic prog environ c [''check''] of Inl e \<Rightarrow> Some e | Inr _ \<Rightarrow> None)"

definition unlock_repository :: "program \<Rightarrow> process_env \<Rightarrow> restic_client \<Rightarrow> string option" where
  "unlock_repository prog environ c = (case run_restic prog environ c [''unlock''] of Inl e \<Rightarrow> Some e | Inr _ \<Rightarrow> None)"

record repo_stats =
  rs_total_size :: int
  rs_file_count :: int

text \<open>Reading the document is the library's.\<close>

definition repository_stats ::
  "(string \<Rightarrow> (string, repo_stats) result) \<Rightarrow> program \<Rightarrow> process_env \<Rightarrow> restic_client \<Rightarrow> (string, repo_stats) result" where
  "repository_stats decode prog environ c =
     (case run_restic prog environ c [''stats'', ''--json''] of
        Inl e \<Rightarrow> Err e
      | Inr out \<Rightarrow> (case decode out of Inl e \<Rightarrow> Err (''failed to parse restic stats: '' @ e) | Inr s \<Rightarrow> Ok s))"

section \<open>What reaches the program\<close>

lemma env_value_append: "env_value (a @ b) k = (case env_value b k of None \<Rightarrow> env_value a k | Some v \<Rightarrow> Some v)"
  by (simp add: env_value_def map_add_def split: option.split)

lemma env_value_none: "k \<notin> fst ` set e \<Longrightarrow> env_value e k = None"
  by (simp add: env_value_def map_of_eq_None_iff)

text \<open>The client's repository and password reach restic whatever the process has in its own environment, unless the
  client's extra variables name them; these win over both.\<close>

theorem client_settings_reach_restic:
  "env_value (environ @ build_env c) k =
     (case env_value (rc_env c) k of
        Some v \<Rightarrow> Some v
      | None \<Rightarrow> if k = ''RESTIC_PASSWORD'' then Some (rc_password c)
                else if k = ''RESTIC_REPOSITORY'' then Some (rc_repository c) else env_value environ k)"
  unfolding build_env_def env_value_append by (cases "env_value (rc_env c) k") (simp_all add: env_value_def)

lemma contains_suffix: "str_contains s p \<Longrightarrow> str_contains (a @ s) p"
  by (auto simp: str_contains_iff) (metis append_assoc)

lemma contains_prefix: "str_contains s p \<Longrightarrow> str_contains (s @ b) p"
  by (auto simp: str_contains_iff) (metis append_assoc)

text \<open>A failure before restic runs carries its reason in the same text: with a program path that does not exist
  the repository is reported as missing, not as unreachable.\<close>

lemma missing_program_reads_as_missing_repository:
  assumes "pe_error (prog (restic_binary c) [''cat'', ''config''] (environ @ build_env c) '''') = Some err"
    and "str_contains err ''no such file or directory''"
  shows "repository_exists prog environ c = Ok False"
proof -
  let ?r = "prog (restic_binary c) [''cat'', ''config''] (environ @ build_env c) ''''"
  have "str_contains (failure_text [''cat'', ''config''] err (pe_stderr ?r)) ''no such file or directory''"
    unfolding failure_text_def by (intro contains_suffix contains_prefix assms(2))
  then show ?thesis using assms(1)
    by (simp add: repository_exists_def run_restic_def run_with_stdin_def missing_texts_def Let_def)
qed

text \<open>An answer that is no such text is never taken for a missing repository.\<close>

lemma exists_is_proven:
  "repository_exists prog environ c = Ok True \<longleftrightarrow> is_ok (run_restic prog environ c [''cat'', ''config''])"
  by (auto simp: repository_exists_def split: sum.splits)

lemma failed_output_is_written:
  "snd (run_with_stdout prog environ c w args) = w @ pe_stdout (prog (restic_binary c) args (environ @ build_env c) '''')"
  by (simp add: run_with_stdout_def Let_def)

end
