(* ===== verification/Provider_State.thy ===== *)
theory Provider_State
  imports Cnpg_Job Secrets Verb_Registry
begin

text \<open>
  What the providers keep of a cluster's resource (\<open>src/engine/provider/cnpg.go\<close>, \<open>galera.go\<close>, the readers and the
  clients of \<open>src/k8s/client.go\<close>).  A resource is a tree of values; the library's nested readers are a
  parameter: each answers a value, nothing, or an error where the path or the type does not fit.
\<close>

section \<open>Trees\<close>

datatype jvalue = JNull | JBool bool | JInt int | JText string | JList "jvalue list" | JObject "(string \<times> jvalue) list"

type_synonym jobject = "(string \<times> jvalue) list"

record nested_reads =
  nr_string :: "jobject \<Rightarrow> string list \<Rightarrow> (string, string option) result"
  nr_int :: "jobject \<Rightarrow> string list \<Rightarrow> (string, int option) result"
  nr_bool :: "jobject \<Rightarrow> string list \<Rightarrow> (string, bool option) result"
  nr_slice :: "jobject \<Rightarrow> string list \<Rightarrow> (string, jvalue list option) result"
  nr_map :: "jobject \<Rightarrow> string list \<Rightarrow> (string, jobject option) result"
  nr_field :: "jobject \<Rightarrow> string list \<Rightarrow> (string, jvalue option) result"

definition read_or :: "'v \<Rightarrow> (string, 'v option) result \<Rightarrow> 'v" where
  "read_or z r = (case r of Inr (Some v) \<Rightarrow> v | _ \<Rightarrow> z)"

definition get_nested_string :: "nested_reads \<Rightarrow> jobject \<Rightarrow> string list \<Rightarrow> string" where
  "get_nested_string lib obj path = read_or '''' (nr_string lib obj path)"
definition get_nested_int64 :: "nested_reads \<Rightarrow> jobject \<Rightarrow> string list \<Rightarrow> int" where
  "get_nested_int64 lib obj path = read_or 0 (nr_int lib obj path)"
definition get_nested_bool :: "nested_reads \<Rightarrow> jobject \<Rightarrow> string list \<Rightarrow> bool" where
  "get_nested_bool lib obj path = read_or False (nr_bool lib obj path)"
definition get_nested_slice :: "nested_reads \<Rightarrow> jobject \<Rightarrow> string list \<Rightarrow> jvalue list" where
  "get_nested_slice lib obj path = read_or [] (nr_slice lib obj path)"
definition get_nested_map :: "nested_reads \<Rightarrow> jobject \<Rightarrow> string list \<Rightarrow> jobject" where
  "get_nested_map lib obj path = read_or [] (nr_map lib obj path)"
definition has_nested_field :: "nested_reads \<Rightarrow> jobject \<Rightarrow> string list \<Rightarrow> bool" where
  "has_nested_field lib obj path = (case nr_field lib obj path of Inr (Some _) \<Rightarrow> True | _ \<Rightarrow> False)"
definition get_nested_field_copy :: "nested_reads \<Rightarrow> jobject \<Rightarrow> string list \<Rightarrow> jvalue option" where
  "get_nested_field_copy lib obj path = (case nr_field lib obj path of Inr v \<Rightarrow> v | _ \<Rightarrow> None)"

definition text_at :: "jobject \<Rightarrow> string \<Rightarrow> string" where
  "text_at m k = (case map_of m k of Some (JText s) \<Rightarrow> s | _ \<Rightarrow> '''')"

fun first_condition :: "string \<Rightarrow> jvalue list \<Rightarrow> jobject option" where
  "first_condition t [] = None"
| "first_condition t (JObject c # cs) = (if text_at c ''type'' = t then Some c else first_condition t cs)"
| "first_condition t (_ # cs) = first_condition t cs"

definition find_condition :: "jobject \<Rightarrow> string \<Rightarrow> jobject option" where
  "find_condition status t = (case map_of status ''conditions'' of Some (JList cs) \<Rightarrow> first_condition t cs | _ \<Rightarrow> None)"

text \<open>How a value prints (\<open>%v\<close>) is a parameter.\<close>

definition get_map_string :: "(jvalue \<Rightarrow> string) \<Rightarrow> jobject \<Rightarrow> string \<Rightarrow> string" where
  "get_map_string shown m k = (case map_of m k of Some v \<Rightarrow> shown v | None \<Rightarrow> ''Unknown'')"

definition get_condition_status :: "(jvalue \<Rightarrow> string) \<Rightarrow> jobject option \<Rightarrow> string" where
  "get_condition_status shown c = (case c of None \<Rightarrow> ''Unknown'' | Some m \<Rightarrow> get_map_string shown m ''status'')"

definition get_recovery_map :: "jobject \<Rightarrow> string \<Rightarrow> jobject" where
  "get_recovery_map m k = (case map_of m k of Some (JObject v) \<Rightarrow> v | _ \<Rightarrow> [])"

section \<open>The clients\<close>

text \<open>The first call builds them, from an explicit file, the environment, the cluster or the default rules; every
  later call answers the same, an error included.\<close>

record ('cfg, 'cs, 'dyn) client_library =
  bl_environment :: string
  bl_from_file :: "string \<Rightarrow> (string, 'cfg) result"
  bl_in_cluster :: "(string, 'cfg) result"
  bl_default :: "(string, 'cfg) result"
  bl_clientset :: "'cfg \<Rightarrow> (string, 'cs) result"
  bl_dynamic :: "'cfg \<Rightarrow> (string, 'dyn) result"

definition build_config :: "('cfg, 'cs, 'dyn) client_library \<Rightarrow> string \<Rightarrow> (string, 'cfg) result" where
  "build_config l kubeconfig =
     (let path = (if kubeconfig = '''' then bl_environment l else kubeconfig) in
      if path \<noteq> '''' then bl_from_file l path
      else (case bl_in_cluster l of Inr cfg \<Rightarrow> Ok cfg | Inl _ \<Rightarrow> bl_default l))"

definition build_clients :: "('cfg, 'cs, 'dyn) client_library \<Rightarrow> string \<Rightarrow> (string, 'cs \<times> 'dyn \<times> 'cfg) result" where
  "build_clients l kubeconfig =
     (case build_config l kubeconfig of
        Inl e \<Rightarrow> Err (''failed to build kubeconfig: '' @ e)
      | Inr cfg \<Rightarrow>
          (case bl_clientset l cfg of
             Inl e \<Rightarrow> Err (''failed to create clientset: '' @ e)
           | Inr cs \<Rightarrow> (case bl_dynamic l cfg of Inl e \<Rightarrow> Err (''failed to create dynamic client: '' @ e) | Inr dy \<Rightarrow> Ok (cs, dy, cfg))))"

type_synonym ('cfg, 'cs, 'dyn) once = "(string, 'cs \<times> 'dyn \<times> 'cfg) result option"

definition init_clients ::
  "('cfg, 'cs, 'dyn) client_library \<Rightarrow> string \<Rightarrow> ('cfg, 'cs, 'dyn) once \<Rightarrow> (string, 'cs \<times> 'dyn \<times> 'cfg) result \<times> ('cfg, 'cs, 'dyn) once" where
  "init_clients l kubeconfig st = (case st of Some r \<Rightarrow> (r, st) | None \<Rightarrow> (build_clients l kubeconfig, Some (build_clients l kubeconfig)))"

definition get_clients :: "('cfg, 'cs, 'dyn) once \<Rightarrow> ('cs \<times> 'dyn \<times> 'cfg) option" where
  "get_clients st = (case st of Some (Inr c) \<Rightarrow> Some c | _ \<Rightarrow> None)"

text \<open>After any number of calls, with any files, the answer is that of the first.\<close>

theorem clients_are_built_once:
  "fst (init_clients l k (snd (fold (\<lambda>(l', k') st. init_clients l' k' (snd st)) calls (init_clients l0 k0 None)))) = build_clients l0 k0"
proof -
  have "snd (fold (\<lambda>(l', k') st. init_clients l' k' (snd st)) calls st) = snd st" if "snd st = Some r" for st r
    using that by (induction calls arbitrary: st) (auto simp: init_clients_def)
  from this[of "init_clients l0 k0 None"] show ?thesis by (simp add: init_clients_def)
qed

section \<open>PostgreSQL\<close>

record cnpg_provider =
  pv_config :: "string \<times> string"
  pv_cluster :: jobject
  pv_spec :: jobject
  pv_status :: jobject
  pv_annotations :: jobject
  pv_instances :: int
  pv_fenced :: "string list"

definition fenced_annotation :: "jobject \<Rightarrow> string option" where
  "fenced_annotation m = (case map_of m ''cnpg.io/fencedInstances'' of Some (JText s) \<Rightarrow> Some s | _ \<Rightarrow> None)"

definition set_cluster :: "nested_reads \<Rightarrow> jobject \<Rightarrow> cnpg_provider \<Rightarrow> cnpg_provider" where
  "set_cluster lib obj p =
     p\<lparr> pv_cluster := obj, pv_spec := get_nested_map lib obj [''spec''], pv_status := get_nested_map lib obj [''status''],
        pv_annotations := get_nested_map lib obj [''metadata'', ''annotations''],
        pv_fenced := parse_fenced (fenced_annotation (get_nested_map lib obj [''metadata'', ''annotations''])) \<rparr>"

definition no_clients_text :: string where "no_clients_text = ''kubernetes clients not initialized''"

definition validate_cnpg ::
  "nested_reads \<Rightarrow> bool \<Rightarrow> (string \<Rightarrow> string \<Rightarrow> (string, jobject) result) \<Rightarrow> string \<times> string \<Rightarrow> cnpg_provider \<Rightarrow> string option \<times> cnpg_provider" where
  "validate_cnpg lib clients fetch conf p =
     (let p1 = p\<lparr> pv_config := conf \<rparr> in
      if \<not> clients then (Some no_clients_text, p1)
      else (case conf of (ns, name) \<Rightarrow>
        (case fetch ns name of
           Inl e \<Rightarrow> (Some (''CNPG Cluster '' @ ns @ ''/'' @ name @ '' not found: '' @ e), p1)
         | Inr obj \<Rightarrow> (None, (set_cluster lib obj p1)\<lparr> pv_instances := get_nested_int64 lib obj [''spec'', ''instances''] \<rparr>))))"

section \<open>Galera\<close>

record galera_provider =
  gp_config :: "string \<times> string"
  gp_object :: jobject
  gp_spec :: jobject
  gp_status :: jobject
  gp_replicas :: int
  gp_suspended :: bool
  gp_password :: string
  gp_ready :: "jobject option"
  gp_galera :: "jobject option"
  gp_recovery :: jobject

definition set_mariadb :: "nested_reads \<Rightarrow> jobject \<Rightarrow> galera_provider \<Rightarrow> galera_provider" where
  "set_mariadb lib obj p =
     (let status = get_nested_map lib obj [''status''] in
      p\<lparr> gp_object := obj, gp_spec := get_nested_map lib obj [''spec''], gp_status := status,
         gp_ready := find_condition status ''Ready'', gp_galera := find_condition status ''GaleraReady'',
         gp_recovery := get_nested_map lib obj [''status'', ''galeraRecovery''], gp_suspended := get_nested_bool lib obj [''spec'', ''suspend''] \<rparr>)"

text \<open>The API server's own words after \<open>not found\<close> are left out.\<close>

definition password_text :: "string \<Rightarrow> string \<Rightarrow> password_error \<Rightarrow> string" where
  "password_text ns name e =
     (case e of
        NoPasswordRef \<Rightarrow> ''MariaDB CR missing spec.rootPasswordSecretKeyRef''
      | PasswordSecretMissing n \<Rightarrow> ''secret '' @ ns @ ''/'' @ n @ '' not found''
      | PasswordKeyMissing k \<Rightarrow> ''key '' @ [CHR 0x22] @ k @ [CHR 0x22] @ '' not found in secret '' @ name)"

definition password_ref :: "string list" where "password_ref = [''spec'', ''rootPasswordSecretKeyRef'']"

definition validate_galera ::
  "nested_reads \<Rightarrow> bool \<Rightarrow> (string \<Rightarrow> string \<Rightarrow> (string, jobject) result) \<Rightarrow> (string \<Rightarrow> (string \<times> string) list option) \<Rightarrow>
   string \<times> string \<Rightarrow> galera_provider \<times> string list \<Rightarrow> string option \<times> galera_provider \<times> string list" where
  "validate_galera lib clients fetch secret_of conf st =
     (let p1 = (fst st)\<lparr> gp_config := conf \<rparr> in
      if \<not> clients then (Some no_clients_text, p1, snd st)
      else (case conf of (ns, name) \<Rightarrow>
        (case fetch ns name of
           Inl e \<Rightarrow> (Some (''MariaDB '' @ ns @ ''/'' @ name @ '' not found: '' @ e), p1, snd st)
         | Inr obj \<Rightarrow>
             (let p2 = (set_mariadb lib obj p1)\<lparr> gp_replicas := get_nested_int64 lib obj [''spec'', ''replicas''] \<rparr>;
                  secret = get_nested_string lib obj (password_ref @ [''name'']) in
              case fetch_root_password secret (get_nested_string lib obj (password_ref @ [''key''])) secret_of (snd st) of
                (Inl e, secrets) \<Rightarrow> (Some (''failed to get root password: '' @ password_text ns secret e), p2, secrets)
              | (Inr pw, secrets) \<Rightarrow> (None, p2\<lparr> gp_password := pw \<rparr>, secrets)))))"

section \<open>The cached fields follow the resource\<close>

definition cnpg_cached :: "nested_reads \<Rightarrow> cnpg_provider \<Rightarrow> bool" where
  "cnpg_cached lib p \<longleftrightarrow>
     pv_spec p = get_nested_map lib (pv_cluster p) [''spec''] \<and> pv_status p = get_nested_map lib (pv_cluster p) [''status''] \<and>
     pv_annotations p = get_nested_map lib (pv_cluster p) [''metadata'', ''annotations''] \<and>
     pv_fenced p = parse_fenced (fenced_annotation (pv_annotations p))"

definition galera_cached :: "nested_reads \<Rightarrow> galera_provider \<Rightarrow> bool" where
  "galera_cached lib p \<longleftrightarrow>
     gp_spec p = get_nested_map lib (gp_object p) [''spec''] \<and> gp_status p = get_nested_map lib (gp_object p) [''status''] \<and>
     gp_ready p = find_condition (gp_status p) ''Ready'' \<and> gp_galera p = find_condition (gp_status p) ''GaleraReady'' \<and>
     gp_recovery p = get_nested_map lib (gp_object p) [''status'', ''galeraRecovery''] \<and>
     gp_suspended p = get_nested_bool lib (gp_object p) [''spec'', ''suspend'']"

text \<open>After a validation, and after any number of later readings of the resource, every cached field is that of
  the last resource read; the number of instances and the password stay those of the validation.\<close>

theorem providers_follow_the_resource:
  "(case validate_cnpg lib cl fetch conf p of
      (Some _, _) \<Rightarrow> True
    | (None, q) \<Rightarrow> cnpg_cached lib (fold (set_cluster lib) objs q) \<and> pv_instances (fold (set_cluster lib) objs q) = pv_instances q \<and>
        pv_cluster (fold (set_cluster lib) objs q) = last (pv_cluster q # objs)) \<and>
   (case validate_galera lib cl fetch secret_of conf (p', secrets) of
      (Some _, _) \<Rightarrow> True
    | (None, q, _) \<Rightarrow> galera_cached lib (fold (set_mariadb lib) objs q) \<and> gp_replicas (fold (set_mariadb lib) objs q) = gp_replicas q \<and>
        gp_password (fold (set_mariadb lib) objs q) = gp_password q \<and> gp_object (fold (set_mariadb lib) objs q) = last (gp_object q # objs))"
proof -
  have c: "cnpg_cached lib (fold (set_cluster lib) objs q) \<and> pv_instances (fold (set_cluster lib) objs q) = pv_instances q \<and>
      pv_cluster (fold (set_cluster lib) objs q) = last (pv_cluster q # objs)" if "cnpg_cached lib q" for q
    using that by (induction objs arbitrary: q) (auto simp: set_cluster_def cnpg_cached_def)
  have g: "galera_cached lib (fold (set_mariadb lib) objs q) \<and> gp_replicas (fold (set_mariadb lib) objs q) = gp_replicas q \<and>
      gp_password (fold (set_mariadb lib) objs q) = gp_password q \<and> gp_object (fold (set_mariadb lib) objs q) = last (gp_object q # objs)"
    if "galera_cached lib q" for q
    using that by (induction objs arbitrary: q) (auto simp: set_mariadb_def galera_cached_def Let_def)
  have "case validate_cnpg lib cl fetch conf p of (Some _, _) \<Rightarrow> True | (None, q) \<Rightarrow> cnpg_cached lib q"
    by (auto simp: validate_cnpg_def set_cluster_def cnpg_cached_def Let_def split: prod.split sum.split)
  moreover have "case validate_galera lib cl fetch secret_of conf (p', secrets) of (Some _, _) \<Rightarrow> True | (None, q, _) \<Rightarrow> galera_cached lib q"
    by (auto simp: validate_galera_def set_mariadb_def galera_cached_def Let_def split: prod.split sum.split)
  ultimately show ?thesis using c g by (auto split: prod.splits option.splits)
qed

lemma validated_password_is_registered:
  assumes "validate_galera lib cl fetch secret_of conf (p, secrets) = (None, q, secrets')" "gp_password q \<noteq> []"
  shows "gp_password q \<in> set secrets'"
  using assms by (auto simp: validate_galera_def fetch_root_password_def register_secret_def Let_def split: if_splits prod.splits sum.splits option.splits)

lemma condition_has_type: "first_condition t cs = Some c \<Longrightarrow> text_at c ''type'' = t \<and> JObject c \<in> set cs"
  by (induction t cs rule: first_condition.induct) (auto split: if_splits)

end
