(* ===== verification/Settling.thy ===== *)
theory Settling
  imports Reset_Helper Provider_State
begin

text \<open>
  What the engines do after they acted: waiting for the cluster to settle (\<open>src/engine/prunewal/deadlock.go\<close>,
  \<open>cnpg.go\<close>), for a healed node to join (\<open>src/engine/repair/galera.go\<close>), the readings they report, the identity of
  the PostgreSQL process (\<open>discoverPostgresInfo\<close>) and the stale connection setting a repair strips
  (\<open>src/engine/repair/cnpg.go\<close>).
\<close>

section \<open>After a deadlock recovery\<close>

record cluster_reading =
  sr_phase :: string
  sr_current :: string
  sr_target :: string
  sr_ready :: int
  sr_serving :: bool

text \<open>\<open>sr_serving\<close> says that the pod of the current primary was read and is ready.  \<open>%q\<close> prints a text without
  quotes, backslashes and control characters between quotes.\<close>

definition reading_line :: "cluster_reading \<Rightarrow> string" where
  "reading_line r = ''phase='' @ [CHR 0x22] @ sr_phase r @ [CHR 0x22] @ '' currentPrimary='' @ sr_current r
     @ '' targetPrimary='' @ sr_target r @ '' readyInstances='' @ dec_str (sr_ready r)"

definition settled_on :: "int \<Rightarrow> cluster_reading \<Rightarrow> bool" where
  "settled_on instances r \<longleftrightarrow> sr_current r \<noteq> '''' \<and> sr_current r = sr_target r \<and> instances \<le> sr_ready r \<and> sr_serving r"

fun wait_cluster_settled :: "(nat \<Rightarrow> cluster_reading option) \<Rightarrow> int \<Rightarrow> string \<Rightarrow> nat \<Rightarrow> nat \<Rightarrow> string \<times> string \<times> bool" where
  "wait_cluster_settled read n seen i 0 = ('''', seen, False)"
| "wait_cluster_settled read n seen i (Suc k) =
     (case read i of
        None \<Rightarrow> wait_cluster_settled read n seen (Suc i) k
      | Some r \<Rightarrow> if settled_on n r then (sr_current r, reading_line r, True)
                  else wait_cluster_settled read n (reading_line r) (Suc i) k)"

definition to_log :: "string \<Rightarrow> 'a console \<Rightarrow> 'a console" where "to_log m c = c\<lparr> co_log := co_log c @ [m] \<rparr>"

definition watch_and_report :: "(nat \<Rightarrow> cluster_reading option) \<Rightarrow> int \<Rightarrow> string \<Rightarrow> 'a console \<Rightarrow> 'a console" where
  "watch_and_report read n recovered con =
     (let c1 = out_bullet 0 (''Released '' @ recovered @ '' to the operator (a caught-up replica exists) '' @ em_dash
                 @ '' watching for a healthy primary, not forcing one'') (out_section ''Phase 4: Watching the cluster settle'' con) in
      case wait_cluster_settled read n ''unknown'' 0 18 of
        (primary, state, True) \<Rightarrow>
          (if primary = recovered
           then out_success (''Cluster settled: '' @ recovered @ '' returned as primary ('' @ state @ ''). No data loss, no PVC growth.'') c1
           else out_success (''Cluster settled: '' @ primary @ '' is primary and '' @ recovered @ '' re-cloned as a replica ('' @ state
                  @ '') '' @ em_dash @ '' CNPG promoted a caught-up peer, no data loss.'') c1)
      | (_, state, False) \<Rightarrow>
          to_log (''Cluster not yet healthy ('' @ state @ ''). The WAL recovery is durable and the escrow snapshot is intact '' @ em_dash
            @ '' a slow settle, not data loss. Re-triage if it persists.'') c1)"

text \<open>The report names a primary only after a reading in which that instance was current and target primary,
  serving, with every instance ready.\<close>

theorem settled_primary_was_read:
  "case wait_cluster_settled read n seen i k of
     (p, line, True) \<Rightarrow> \<exists>j r. i \<le> j \<and> j < i + k \<and> read j = Some r \<and> settled_on n r \<and> p = sr_current r \<and> line = reading_line r
   | (p, line, False) \<Rightarrow> p = '''' \<and> list_all (\<lambda>j. case read j of None \<Rightarrow> True | Some r \<Rightarrow> \<not> settled_on n r) [i..<i + k]"
proof (induction k arbitrary: i seen)
  case (Suc k)
  have up: "[i..<i + Suc k] = i # [Suc i..<Suc i + k]" by (simp add: upt_rec[of i])
  show ?case
  proof (cases "case read i of None \<Rightarrow> False | Some r \<Rightarrow> settled_on n r")
    case True
    then obtain r where "read i = Some r" "settled_on n r" by (auto split: option.splits)
    then show ?thesis by auto
  next
    case False
    then obtain seen' where next_round: "wait_cluster_settled read n seen i (Suc k) = wait_cluster_settled read n seen' (Suc i) k"
      by (auto split: option.splits)
    obtain p line b where w: "wait_cluster_settled read n seen' (Suc i) k = (p, line, b)" by (cases "wait_cluster_settled read n seen' (Suc i) k")
    note IH = Suc.IH[of "Suc i" seen', unfolded w prod.case]
    show ?thesis
    proof (cases b)
      case True
      then obtain j r where "Suc i \<le> j" "j < Suc i + k" "read j = Some r" "settled_on n r" "p = sr_current r" "line = reading_line r"
        using IH by auto
      moreover from this have "i \<le> j" "j < i + Suc k" by simp_all
      ultimately have "\<exists>j r. i \<le> j \<and> j < i + Suc k \<and> read j = Some r \<and> settled_on n r \<and> p = sr_current r \<and> line = reading_line r"
        by blast
      then show ?thesis unfolding next_round w using True by simp
    next
      case unsettled: False
      then show ?thesis using IH False unfolding next_round w up by (auto split: option.splits)
    qed
  qed
qed simp

section \<open>After a pruning\<close>

definition kept_fenced_text :: "string \<Rightarrow> string \<Rightarrow> string \<Rightarrow> string" where
  "kept_fenced_text target cluster ns =
     ''WAL relieved on '' @ target @ '' '' @ em_dash @ '' its disk is freed, but it was KEPT FENCED so CNPG will not start or ''
     @ ''pg_rewind it onto the stale primary's lineage. Bring it up for inspection and promote it deliberately; ''
     @ ''unfence ONLY as part of that promotion (kubectl annotate cluster '' @ cluster @ '' -n '' @ ns @ '' cnpg.io/fencedInstances-).''"

definition finish_pruning :: "bool \<Rightarrow> (nat \<Rightarrow> bool) \<Rightarrow> string \<Rightarrow> string \<Rightarrow> string \<Rightarrow> 'a console \<Rightarrow> 'a console" where
  "finish_pruning keep_fenced online target cluster ns con =
     (if keep_fenced then out_success (kept_fenced_text target cluster ns) con
      else (let c1 = out_bullet 0 (''Waiting for '' @ target @ '' to come back online'') con in
        if poll_until online 0 30 then out_success (''Instance '' @ target @ '' is back online!'') c1
        else to_log (target @ '' did not become ready within timeout. CNPG may still be reconciling.'') c1))"

section \<open>The PostgreSQL process\<close>

record postgres_probe =
  pq_ready :: bool
  pq_image :: string
  pq_uid :: "string option"
  pq_gid :: "string option"

text \<open>\<open>pq_image\<close> is the image of the first container with the name, empty without one.  The image found
  stays when a later pod has none.\<close>

definition probed_ids :: "postgres_probe \<Rightarrow> (string \<times> string) option" where
  "probed_ids r =
     (case (pq_uid r, pq_gid r) of
        (Some u, Some g) \<Rightarrow> if trim_space u \<noteq> '''' \<and> trim_space g \<noteq> '''' then Some (trim_space u, trim_space g) else None
      | _ \<Rightarrow> None)"

fun discover_from :: "(string \<Rightarrow> postgres_probe option) \<Rightarrow> string \<Rightarrow> string list \<Rightarrow> string \<Rightarrow> (string \<times> string \<times> string) option" where
  "discover_from probe primary [] img = None"
| "discover_from probe primary (p # ps) img =
     (case (if p = primary then None else probe p) of
        None \<Rightarrow> discover_from probe primary ps img
      | Some r \<Rightarrow>
          if \<not> pq_ready r then discover_from probe primary ps img
          else (let img' = (if pq_image r \<noteq> '''' then pq_image r else img) in
            case (if img' = '''' then None else probed_ids r) of
              None \<Rightarrow> discover_from probe primary ps img'
            | Some (u, g) \<Rightarrow> Some (img', u, g)))"

definition discover_postgres_info ::
  "(string \<Rightarrow> postgres_probe option) \<Rightarrow> string \<Rightarrow> string list \<Rightarrow> string \<Rightarrow> (string, string \<times> string \<times> string) result" where
  "discover_postgres_info probe primary pods status_image =
     (case discover_from probe primary pods '''' of
        Some found \<Rightarrow> Ok found
      | None \<Rightarrow> if status_image = '''' then Err ''could not determine postgres image from cluster'' else Ok (status_image, ''26'', ''26''))"

lemma discovered_is_usable:
  assumes "discover_postgres_info probe primary pods img = Ok (im, uid, gid)"
  shows "im \<noteq> '''' \<and> uid \<noteq> '''' \<and> gid \<noteq> ''''"
proof -
  have ids: "u \<noteq> '''' \<and> g \<noteq> ''''" if "probed_ids r = Some (u, g)" for r u g
    using that by (auto simp: probed_ids_def split: option.splits if_splits)
  have "i \<noteq> '''' \<and> u \<noteq> '''' \<and> g \<noteq> ''''" if "discover_from probe primary ps img = Some (i, u, g)" for ps img i u g
    using that
  proof (induction ps arbitrary: img)
    case (Cons p ps)
    show ?case
    proof (cases "if p = primary then None else probe p")
      case None
      then show ?thesis using Cons by simp
    next
      case (Some r)
      then show ?thesis using Cons.prems Cons.IH[of img] Cons.IH[of "pq_image r"] ids[of r u g]
        by (auto simp: Let_def split: option.splits if_splits)
    qed
  qed simp
  then show ?thesis using assms by (auto simp: discover_postgres_info_def split: option.splits if_splits)
qed

section \<open>A healed Galera node\<close>

definition await_join :: "(nat \<Rightarrow> (string, string) result) \<Rightarrow> bool" where
  "await_join ask = poll_until (\<lambda>i. let r = reset_probe (ask i) in wp_exec r \<and> probe_synced r) 0 12"

text \<open>The size printed is that of the probe which answered.  A node that does not join is a warning: its last
  state is asked once more, and the heal ends without an error.\<close>

fun joined_size :: "(nat \<Rightarrow> (string, string) result) \<Rightarrow> nat \<Rightarrow> nat \<Rightarrow> int option" where
  "joined_size ask i 0 = None"
| "joined_size ask i (Suc k) =
     (let r = reset_probe (ask i) in if wp_exec r \<and> probe_synced r then Some (wp_size r) else joined_size ask (Suc i) k)"

definition report_join :: "string \<Rightarrow> (nat \<Rightarrow> (string, string) result) \<Rightarrow> 'a console \<Rightarrow> string option \<times> 'a console" where
  "report_join target ask con =
     (None, case joined_size ask 0 12 of
        Some n \<Rightarrow> out_success (''Node '' @ target @ '' healed and joined cluster (wsrep_ready=ON, Synced, cluster_size='' @ dec_str n @ '')'') con
      | None \<Rightarrow>
          if wp_exec (reset_probe (ask 12))
          then to_log (''Node '' @ target @ '' did not reach Synced within 60s (state='' @ wp_comment (reset_probe (ask 12)) @ ''). SST may still be in progress.'') con
          else to_log (''Node '' @ target @ '' is Running but wsrep probe failed '' @ em_dash @ '' cannot confirm Galera join'') con)"

lemma joined_iff: "joined_size ask i k \<noteq> None \<longleftrightarrow> poll_until (\<lambda>j. let r = reset_probe (ask j) in wp_exec r \<and> probe_synced r) i k"
  by (induction k arbitrary: i) (simp_all add: Let_def)

lemma heal_ends_unjoined: "\<not> await_join ask \<Longrightarrow> fst (report_join target ask con) = None \<and> co_stdout (snd (report_join target ask con)) = co_stdout con"
  using joined_iff[of ask 0 12] by (auto simp: await_join_def report_join_def to_log_def split: option.split)

section \<open>Stabilizing and the last reading\<close>

definition repair_stabilized :: "(nat \<Rightarrow> (string, kube_pod list) result) \<Rightarrow> string \<Rightarrow> int \<Rightarrow> bool" where
  "repair_stabilized pods container expected = wait_all_ready pods container expected 30"

definition reassess_cnpg :: "nested_reads \<Rightarrow> (string, jobject) result \<Rightarrow> cnpg_provider \<Rightarrow> cnpg_provider" where
  "reassess_cnpg lib fetched p = (case fetched of Inl _ \<Rightarrow> p | Inr obj \<Rightarrow> set_cluster lib obj p)"

definition reassess_galera :: "nested_reads \<Rightarrow> (string, jobject) result \<Rightarrow> galera_provider \<Rightarrow> galera_provider" where
  "reassess_galera lib fetched p = (case fetched of Inl _ \<Rightarrow> p | Inr obj \<Rightarrow> set_mariadb lib obj p)"

definition pod_line :: "string \<Rightarrow> kube_pod \<Rightarrow> string" where
  "pod_line container p = kp_name p @ '': '' @ kp_phase p @ '' ready='' @ bool_str (container_ready_by_name p container)"

definition pod_lines :: "string \<Rightarrow> (string, kube_pod list) result \<Rightarrow> 'a console \<Rightarrow> 'a console" where
  "pod_lines container pods c = (case pods of Inl _ \<Rightarrow> c | Inr ps \<Rightarrow> fold (\<lambda>p. out_bullet 0 (pod_line container p)) ps c)"

definition cnpg_final_status :: "nested_reads \<Rightarrow> (string, jobject) result \<Rightarrow> (string, kube_pod list) result \<Rightarrow> 'a console \<Rightarrow> 'a console" where
  "cnpg_final_status lib fetched pods c =
     (case fetched of
        Inl _ \<Rightarrow> c
      | Inr obj \<Rightarrow>
          pod_lines ''postgres'' pods
            (out_field ''Ready'' (dec_str (get_nested_int64 lib obj [''status'', ''readyInstances'']) @ ''/'' @ dec_str (get_nested_int64 lib obj [''spec'', ''instances'']))
              (out_field ''Cluster'' (get_nested_string lib obj [''status'', ''phase'']) (out_section ''Final Status'' c))))"

definition condition_field :: "(jvalue \<Rightarrow> string) \<Rightarrow> string \<Rightarrow> jobject option \<Rightarrow> 'a console \<Rightarrow> 'a console" where
  "condition_field shown label cond c =
     (case cond of None \<Rightarrow> c | Some m \<Rightarrow> out_field label (case map_of m ''status'' of None \<Rightarrow> ''<nil>'' | Some v \<Rightarrow> shown v) c)"

definition galera_final_status ::
  "nested_reads \<Rightarrow> (jvalue \<Rightarrow> string) \<Rightarrow> (string, jobject) result \<Rightarrow> (string, kube_pod list) result \<Rightarrow> 'a console \<Rightarrow> 'a console" where
  "galera_final_status lib shown fetched pods c =
     (case fetched of
        Inl _ \<Rightarrow> c
      | Inr obj \<Rightarrow>
          (let status = get_nested_map lib obj [''status''] in
           pod_lines ''mariadb'' pods
             (condition_field shown ''GaleraReady'' (find_condition status ''GaleraReady'')
               (condition_field shown ''Ready'' (find_condition status ''Ready'') (out_section ''Final Status'' c)))))"

section \<open>The connection setting\<close>

text \<open>A line of the file sets \<open>primary_conninfo\<close>; the search ignores case, the deletion does not.\<close>

definition conninfo_name :: string where "conninfo_name = ''primary_conninfo''"

definition equals_follows :: "string \<Rightarrow> bool" where
  "equals_follows s = (case dropWhile is_space s of [] \<Rightarrow> False | c # _ \<Rightarrow> c = CHR ''='')"

definition conninfo_line :: "bool \<Rightarrow> string \<Rightarrow> bool" where
  "conninfo_line any_case line =
     (let l = dropWhile is_space line
      in has_prefix (if any_case then to_lower l else l) conninfo_name \<and> equals_follows (drop (length conninfo_name) l))"

definition clear_conninfo :: "string list option \<Rightarrow> string list option \<times> string" where
  "clear_conninfo conf =
     (case conf of
        None \<Rightarrow> (None, ''clean'')
      | Some ls \<Rightarrow> if list_ex (conninfo_line True) ls then (Some (filter (\<lambda>l. \<not> conninfo_line False l) ls), ''stripped'') else (Some ls, ''clean''))"

lemma written_line_is_any_case:
  assumes "conninfo_line False l"
  shows "conninfo_line True l"
proof -
  have "has_prefix (to_lower s) (to_lower p)" if "has_prefix s p" for s p
    using that by (auto simp: has_prefix_iff to_lower_def)
  moreover have "to_lower conninfo_name = conninfo_name" by code_simp
  ultimately show ?thesis using assms unfolding conninfo_line_def Let_def by (metis (full_types))
qed

theorem no_written_shadow_remains:
  "case fst (clear_conninfo conf) of None \<Rightarrow> conf = None
   | Some ls \<Rightarrow> list_all (\<lambda>l. \<not> conninfo_line False l) ls \<and> fst (clear_conninfo (Some ls)) = Some ls"
proof (cases conf)
  case (Some ls)
  have "list_all (\<lambda>l. \<not> conninfo_line False l) ls" if "\<not> list_ex (conninfo_line True) ls"
    using that written_line_is_any_case by (auto simp: list_all_iff list_ex_iff)
  then show ?thesis using Some by (auto simp: clear_conninfo_def list_all_iff)
qed (simp add: clear_conninfo_def)

text \<open>A setting written in capitals, which the server reads all the same, is reported as stripped and stays.\<close>

lemma capital_shadow_stays:
  "clear_conninfo (Some [''PRIMARY_CONNINFO = 'host=old'' @ [CHR 39]]) = (Some [''PRIMARY_CONNINFO = 'host=old'' @ [CHR 39]], ''stripped'')"
  by code_simp

end
