(* ===== verification/Catalog.thy ===== *)
theory Catalog
  imports Listing Machine_Output
begin

text \<open>
  The listing commands to their last line (\<open>src/cmd/get.go\<close>): policies, repositories, snapshots and the status of
  the managed databases, as a table for a person or as a result for a machine.  Aligning the columns is the
  library's and a parameter; the cells are exact.
\<close>

section \<open>Policies and repositories\<close>

record policy_entry =
  py_name :: string
  py_backup :: string
  py_triage :: string
  py_mode :: string
  py_repositories :: "string list"

definition policy_entries :: "(string \<times> policy_spec) list \<Rightarrow> policy_entry list" where
  "policy_entries ps =
     map (\<lambda>(n, s). \<lparr> py_name = n, py_backup = ps_backup s, py_triage = ps_triage s, py_mode = ps_mode s, py_repositories = ps_repositories s \<rparr>) ps"

definition list_policies :: "(string, (string \<times> policy_spec) list) result \<Rightarrow> (string, policy_entry list) result" where
  "list_policies read = (case read of Inl e \<Rightarrow> Err (''failed to list BackupPolicies: '' @ e) | Inr ps \<Rightarrow> Ok (policy_entries ps))"

record repository_status =
  ry_path :: string
  ry_ready :: bool
  ry_snapshots :: int
  ry_size :: string
  ry_deduplicated :: string

type_synonym repository_entry = "string \<times> repository_status"

definition list_repositories :: "(string, repository_entry list) result \<Rightarrow> (string, repository_entry list) result" where
  "list_repositories read = (case read of Inl e \<Rightarrow> Err (''failed to list BackupRepositories: '' @ e) | Inr rs \<Rightarrow> Ok rs)"

definition init_get_clients :: "string option \<Rightarrow> string option" where
  "init_get_clients err = map_option (\<lambda>e. ''kubernetes init failed: '' @ e) err"

section \<open>Tables\<close>

definition policy_row :: "policy_entry \<Rightarrow> string list" where
  "policy_row e = [py_name e, py_backup e, py_triage e, py_mode e,
     if py_repositories e = [] then ''-'' else ''['' @ join_with '' '' (py_repositories e) @ '']'']"

definition repository_row :: "repository_entry \<Rightarrow> string list" where
  "repository_row e = (case e of (n, s) \<Rightarrow>
     [n, ry_path s, bool_str (ry_ready s), dec_str (ry_snapshots s), ry_size s, ry_deduplicated s])"

definition snapshot_row :: "snapshot_entry \<Rightarrow> string list" where
  "snapshot_row e = [se_repository e, se_snapshot e, se_type e, se_engine e, se_namespace e, se_cluster e, se_age e]"

definition status_row :: "status_entry \<Rightarrow> string list" where
  "status_row e = [ye_engine e, ye_namespace e, ye_name e, ye_managed e, ye_triage e, ye_last_triage e, ye_last_backup e]"

definition policy_columns :: "string list" where
  "policy_columns = [''NAME'', ''BACKUP SCHEDULE'', ''TRIAGE SCHEDULE'', ''MODE'', ''REPOSITORIES'']"
definition repository_columns :: "string list" where
  "repository_columns = [''NAME'', ''REPOSITORY'', ''READY'', ''SNAPSHOTS'', ''TOTAL SIZE'', ''DEDUP SIZE'']"
definition snapshot_columns :: "string list" where
  "snapshot_columns = [''REPOSITORY'', ''SNAPSHOT'', ''TYPE'', ''ENGINE'', ''NAMESPACE'', ''CLUSTER'', ''AGE'']"
definition status_columns :: "string list" where
  "status_columns = [''ENGINE'', ''NAMESPACE'', ''CLUSTER'', ''MANAGED'', ''STATUS'', ''LAST TRIAGE'', ''LAST BACKUP'']"

text \<open>The table goes to standard output past the writer; an error leaves the command before either form.\<close>

definition print_table :: "(string list list \<Rightarrow> string list) \<Rightarrow> string list list \<Rightarrow> 'a console \<Rightarrow> 'a console" where
  "print_table align rows c = c\<lparr> co_stdout := co_stdout c @ map HumanLine (align rows) \<rparr>"

definition listing_tail ::
  "(string list list \<Rightarrow> string list) \<Rightarrow> string list \<Rightarrow> ('e \<Rightarrow> string list) \<Rightarrow> printer \<Rightarrow> (string, 'e list) result \<Rightarrow>
   'e list console \<Rightarrow> string option \<times> 'e list console" where
  "listing_tail align columns row p answer c =
     (case answer of
        Inl e \<Rightarrow> (Some e, c)
      | Inr es \<Rightarrow> (None, if is_human p then print_table align (columns # map row es) c else snd (print_result p (Some es) [] None c)))"

definition policies_tail :: "(string list list \<Rightarrow> string list) \<Rightarrow> printer \<Rightarrow> (string, policy_entry list) result \<Rightarrow>
   policy_entry list console \<Rightarrow> string option \<times> policy_entry list console" where
  "policies_tail align = listing_tail align policy_columns policy_row"

definition repositories_tail :: "(string list list \<Rightarrow> string list) \<Rightarrow> printer \<Rightarrow> (string, repository_entry list) result \<Rightarrow>
   repository_entry list console \<Rightarrow> string option \<times> repository_entry list console" where
  "repositories_tail align = listing_tail align repository_columns repository_row"

definition backups_tail :: "(string list list \<Rightarrow> string list) \<Rightarrow> printer \<Rightarrow> (string, snapshot_entry list) result \<Rightarrow>
   snapshot_entry list console \<Rightarrow> string option \<times> snapshot_entry list console" where
  "backups_tail align = listing_tail align snapshot_columns snapshot_row"

text \<open>The status has no error once the clients are there.\<close>

definition status_tail :: "(string list list \<Rightarrow> string list) \<Rightarrow> bool \<Rightarrow> printer \<Rightarrow> database_object list option \<Rightarrow> database_object list option \<Rightarrow>
   status_entry list console \<Rightarrow> string option \<times> status_entry list console" where
  "status_tail align all_ns p cnpg mariadb = listing_tail align status_columns status_row p (Ok (run_status all_ns cnpg mariadb))"

section \<open>What a listing shows\<close>

text \<open>Every row has a cell for every column.\<close>

lemma rows_fit:
  "length (policy_row e1) = length policy_columns" "length (repository_row e2) = length repository_columns"
  "length (snapshot_row e3) = length snapshot_columns" "length (status_row e4) = length status_columns"
  by (simp_all add: policy_row_def policy_columns_def repository_row_def repository_columns_def snapshot_row_def
      snapshot_columns_def status_row_def status_columns_def split: prod.split)

text \<open>On success exactly one envelope in the json mode, with the whole list; a failure prints nothing in any mode.\<close>

theorem listing_output:
  "case listing_tail align cols row p answer c of
     (Some e, c') \<Rightarrow> answer = Err e \<and> c' = c
   | (None, c') \<Rightarrow> (\<exists>es. answer = Ok es \<and>
       (if pr_mode p = OutputJson then co_stdout c' = co_stdout c @ [EnvelopeDoc (result_envelope p (clock_at p c) (Some es) [] None)]
        else if pr_mode p = OutputHuman then co_stdout c' = co_stdout c @ map HumanLine (align (cols # map row es)) else True))"
  by (cases answer)
    (auto simp: listing_tail_def print_result_def print_table_def is_human_def emit_def Let_def split: output_mode.split)

text \<open>A status of a cluster that cannot be listed is an empty success.\<close>

lemma unreadable_status_is_empty:
  "fst (status_tail align all_ns p None None c) = None"
  "pr_mode p = OutputJson \<Longrightarrow>
   co_stdout (snd (status_tail align all_ns p None None c)) = co_stdout c @ [EnvelopeDoc (result_envelope p (clock_at p c) (Some []) [] None)]"
  by (simp_all add: status_tail_def listing_tail_def run_status_def print_result_def is_human_def emit_def Let_def)

end
