(* ===== verification/Escrow_Store.thy ===== *)
theory Escrow_Store
  imports Escrow Retention_Escrow Helper_Pod
begin

text \<open>
  What escrows leave in the cluster (\<open>src/engine/escrow/gate.go\<close>, \<open>volumesnapshot.go\<close>, \<open>resticpvc.go\<close>): the gate
  over the stock of snapshots it counts and adds to, the labels and tags of what it takes, and the release by
  a provider.  The answers of the API server and of restic are those of \<open>Escrow\<close>.
\<close>

section \<open>Names and tags\<close>

definition kind_split_brain :: string where "kind_split_brain = ''split-brain''"
definition kind_deadlock :: string where "kind_deadlock = ''deadlock''"

definition escrow_kind :: "string \<Rightarrow> string" where
  "escrow_kind operation =
     (if operation = ''escrow'' then kind_split_brain else if operation = ''deadlock-recover'' then kind_deadlock else operation)"

definition provider_label :: "provider \<Rightarrow> string" where
  "provider_label p = (case p of ResticPvc \<Rightarrow> ''resticpvc'' | SnapshotClass _ \<Rightarrow> ''volumesnapshot'')"

definition describe_set :: "provider \<Rightarrow> int \<Rightarrow> int \<Rightarrow> string" where
  "describe_set p estimate available =
     provider_label p @ '' '' @ em_dash @ '' ~'' @ format_bytes estimate @ '' needed, '' @ format_bytes available @ '' available''"

definition escrow_tags :: "string \<Rightarrow> string \<Rightarrow> string \<Rightarrow> string \<Rightarrow> string \<Rightarrow> string \<Rightarrow> (string \<times> string) list" where
  "escrow_tags eng cluster ns pvc kind run =
     [(''engine'', eng), (''cluster'', cluster), (''namespace'', ns), (''instance'', pvc), (''type'', ''escrow''), (''kind'', kind), (''run-id'', run)]"

definition pvcs_for :: "(string \<Rightarrow> string) \<Rightarrow> string list \<Rightarrow> string list" where "pvcs_for naming pods = map naming pods"

text \<open>The reader's account is that of the first pod of the whole namespace that names one.\<close>

definition escrow_account :: "(string, kube_pod list) result \<Rightarrow> string" where
  "escrow_account pods = (case pods of Inl _ \<Rightarrow> ''default'' | Inr ps \<Rightarrow> service_account_from_pods ps)"

section \<open>The stock of snapshots\<close>

definition taken_snapshot :: "escrow_env \<Rightarrow> escrow_conf \<Rightarrow> string \<Rightarrow> string \<Rightarrow> volume_snapshot" where
  "taken_snapshot e c kind pvc =
     \<lparr> vs_name = escrow_name pvc (xe_run e), vs_labels = escrow_labels (ec_cluster c) pvc (xe_run e) kind,
        vs_annotations = captured_at_annotation (xe_now e), vs_created = xe_now e \<rparr>"

fun capture_into :: "escrow_env \<Rightarrow> escrow_conf \<Rightarrow> string \<Rightarrow> string list \<Rightarrow> volume_snapshot list \<Rightarrow> (string, escrow_ref list) result \<times> volume_snapshot list" where
  "capture_into e c kind [] stock = (Ok [], stock)"
| "capture_into e c kind (p # ps) stock =
     (case xe_create e (escrow_name p (xe_run e)) of
        Inl err \<Rightarrow> (Err err, stock)
      | Inr _ \<Rightarrow>
          (case capture_into e c kind ps (stock @ [taken_snapshot e c kind p]) of
             (Inl err, stock') \<Rightarrow> (Err err, stock')
           | (Inr refs, stock') \<Rightarrow> (Ok (new_ref e c ''volumesnapshot'' (escrow_name p (xe_run e)) p # refs), stock')))"

definition outstanding :: "string \<Rightarrow> volume_snapshot list \<Rightarrow> volume_snapshot list" where
  "outstanding cluster stock = filter (selected cluster) stock"

text \<open>A listing that fails is an error, never a zero.\<close>

definition count_outstanding :: "string option \<Rightarrow> string \<Rightarrow> volume_snapshot list \<Rightarrow> (string, int) result" where
  "count_outstanding refused cluster stock =
     (case refused of Some err \<Rightarrow> Err err | None \<Rightarrow> Ok (int (length (outstanding cluster stock))))"

definition gate_over ::
  "escrow_env \<Rightarrow> string option \<Rightarrow> escrow_conf \<Rightarrow> string \<Rightarrow> string list \<Rightarrow> (string \<times> int) list \<Rightarrow> volume_snapshot list \<Rightarrow>
   (escrow_error, escrow_ref list) result \<times> volume_snapshot list" where
  "gate_over e refused c operation pvcs used stock =
     (let e' = e\<lparr> xe_count := count_outstanding refused (ec_cluster c) stock \<rparr> in
      (gate e' c pvcs used,
       if ec_no_escrow c then stock
       else (case prepare e' c pvcs used of
               Inr (SnapshotClass _) \<Rightarrow> snd (capture_into e' c (escrow_kind operation) pvcs stock)
             | _ \<Rightarrow> stock)))"

section \<open>Releasing\<close>

text \<open>Each provider's \<open>Cleanup\<close> goes through all references and answers no error; a refused deletion is logged.\<close>

datatype cleanup_answer = SnapshotGone | SnapshotAbsent | SnapshotKept string

fun snapshot_cleanup :: "(string \<Rightarrow> cleanup_answer) \<Rightarrow> escrow_ref list \<Rightarrow> volume_snapshot list \<Rightarrow> string list \<times> volume_snapshot list" where
  "snapshot_cleanup ask [] stock = ([], stock)"
| "snapshot_cleanup ask (r # rs) stock =
     (case ask (er_id r) of
        SnapshotKept err \<Rightarrow>
          (case snapshot_cleanup ask rs stock of
             (ws, stock') \<Rightarrow> ((''Failed to delete escrow VolumeSnapshot '' @ er_id r @ '': '' @ err) # ws, stock'))
      | _ \<Rightarrow> snapshot_cleanup ask rs (filter (\<lambda>o'. vs_name o' \<noteq> er_id r) stock))"

definition restic_cleanup :: "(string \<Rightarrow> bool) \<Rightarrow> escrow_ref list \<Rightarrow> string list \<Rightarrow> string list" where
  "restic_cleanup forgets rs ids = filter (\<lambda>i. \<not> (i \<in> er_id ` set rs \<and> forgets i)) ids"

section \<open>The cap\<close>

lemma capture_agrees: "fst (capture_into e c kind pvcs stock) = snapshot_capture e c pvcs"
proof (induction pvcs arbitrary: stock)
  case (Cons p ps)
  show ?case using Cons[of "stock @ [taken_snapshot e c kind p]"] by (auto split: sum.splits prod.splits)
qed simp

definition created :: "escrow_env \<Rightarrow> string \<Rightarrow> bool" where "created e p \<longleftrightarrow> is_ok (xe_create e (escrow_name p (xe_run e)))"

lemma captured_stock: "snd (capture_into e c kind pvcs stock) = stock @ map (taken_snapshot e c kind) (takeWhile (created e) pvcs)"
proof (induction pvcs arbitrary: stock)
  case (Cons p ps)
  show ?case using Cons[of "stock @ [taken_snapshot e c kind p]"] by (auto simp: created_def split: sum.splits prod.splits)
qed simp

lemma captured_all: "is_ok (snapshot_capture e c pvcs) \<longleftrightarrow> list_all (created e) pvcs"
  by (induction pvcs) (auto simp: created_def split: sum.splits)

lemma own_labels: "selected cluster (taken_snapshot e c kind p) \<longleftrightarrow> cluster = ec_cluster c"
  by (auto simp: selected_def taken_snapshot_def escrow_labels_def label_managed_by_def label_escrow_def label_cluster_def
      label_instance_def label_run_id_def label_kind_def label_prefix_def)

lemma outstanding_taken:
  "outstanding cluster (stock @ map (taken_snapshot e c kind) ps) =
     outstanding cluster stock @ (if cluster = ec_cluster c then map (taken_snapshot e c kind) ps else [])"
  by (simp add: outstanding_def own_labels filter_map o_def)

lemma taken_at_most: "length (takeWhile f ps) \<le> length ps"
  by (simp add: length_takeWhile_le)

text \<open>The cap is read before the capture and without the size of the set: a cluster's snapshots never exceed
  eleven and one set, other clusters' stay what they are, and no outcome of the gate releases one.\<close>

theorem escrows_are_bounded:
  "let stock' = snd (gate_over e refused c operation pvcs used stock);
       old = length (outstanding (ec_cluster c) stock); new = length (outstanding (ec_cluster c) stock')
   in old \<le> new \<and> new \<le> max old (11 + length pvcs) \<and> take (length stock) stock' = stock \<and>
      (if cluster = ec_cluster c then True else outstanding cluster stock' = outstanding cluster stock)"
proof -
  define e' where "e' = e\<lparr> xe_count := count_outstanding refused (ec_cluster c) stock \<rparr>"
  define stock' where "stock' = snd (gate_over e refused c operation pvcs used stock)"
  have below: "length (outstanding (ec_cluster c) stock) < 12" if "prepare e' c pvcs used = Inr p" for p
    using that by (auto simp: prepare_def e'_def count_outstanding_def max_outstanding_def split: if_splits option.splits sum.splits)
  consider "stock' = stock"
    | k where "prepare e' c pvcs used = Inr (SnapshotClass k)"
        "stock' = stock @ map (taken_snapshot e' c (escrow_kind operation)) (takeWhile (created e') pvcs)"
  proof (cases "if ec_no_escrow c then Inl EmptySet else prepare e' c pvcs used")
    case (Inl err)
    then show ?thesis using that(1) by (auto simp: stock'_def gate_over_def e'_def[symmetric] Let_def split: if_splits)
  next
    case (Inr p)
    then show ?thesis using that by (cases p) (auto simp: stock'_def gate_over_def e'_def[symmetric] captured_stock Let_def split: if_splits)
  qed
  then show ?thesis
  proof cases
    case 1
    then show ?thesis by (simp add: stock'_def)
  next
    case 2
    then show ?thesis using below[OF 2(1)] taken_at_most[of "created e'" pvcs]
      by (auto simp: Let_def outstanding_taken stock'_def[symmetric])
  qed
qed

text \<open>A capture that could not be proven stays, and counts: nothing calls a provider's release.\<close>

lemma unproven_capture_stays:
  assumes "\<not> ec_no_escrow c" "prepare (e\<lparr> xe_count := count_outstanding refused (ec_cluster c) stock \<rparr>) c pvcs used = Inr (SnapshotClass k)"
    and "list_all (created e) pvcs"
  shows "length (outstanding (ec_cluster c) (snd (gate_over e refused c operation pvcs used stock))) = length (outstanding (ec_cluster c) stock) + length pvcs"
proof -
  let ?e = "e\<lparr> xe_count := count_outstanding refused (ec_cluster c) stock \<rparr>"
  have "created ?e = created e" by (simp add: created_def fun_eq_iff)
  then have "length (takeWhile (created ?e) pvcs) = length pvcs" using assms(3) by (simp add: list_all_iff takeWhile_eq_all_conv[THEN iffD2])
  then show ?thesis using assms(1,2) by (simp add: gate_over_def captured_stock outstanding_taken Let_def)
qed

text \<open>A full stock refuses every further escrow, whatever the storage has room for.\<close>

lemma full_stock_refuses:
  assumes "\<not> ec_no_escrow c" "12 \<le> length (outstanding (ec_cluster c) stock)"
  shows "\<not> is_ok (fst (gate_over e refused c operation pvcs used stock))" "snd (gate_over e refused c operation pvcs used stock) = stock"
proof -
  have "\<exists>err. prepare (e\<lparr> xe_count := count_outstanding refused (ec_cluster c) stock \<rparr>) c pvcs used = Inl err"
    using assms(2) by (auto simp: prepare_def count_outstanding_def max_outstanding_def split: option.splits)
  then show "\<not> is_ok (fst (gate_over e refused c operation pvcs used stock))" "snd (gate_over e refused c operation pvcs used stock) = stock"
    using assms(1) by (auto simp: gate_over_def gate_def Let_def)
qed

text \<open>The account of an unrelated pod is taken.\<close>

lemma account_of_a_stranger:
  assumes "kp_account p \<noteq> []"
  shows "escrow_account (Ok (p # ps)) = kp_account p"
  using assms by (simp add: escrow_account_def service_account_from_pods_def)

end
