(* ===== verification/Spec2Isabelle.thy ===== *)
theory Spec2Isabelle
  imports Cnpg_Content Cnpg_Triage_Correct Triage_Verdict Galera_Correct Fence_Lock Boot_Correct Escrow
    Repair_Cnpg Cnpg_Lease Repair_Galera Galera_Reconfig Prune_Deadlock Retention_Escrow
    Dump_Flow Operator Helper_Retry Invocation Listing Self_Update Machine_Output
    Boot_Report Command_Reports Reset_Helper Operator_Metrics Triage_Display
    Verb_Registry Restic_Client Provider_State Settling Catalog Escrow_Store
begin

text \<open>
  HASteward: verification library.

  The program diagnoses and repairs highly available databases on Kubernetes: PostgreSQL clusters of
  CloudNativePG and MariaDB Galera clusters of mariadb-operator.  A command (\<open>src/cmd\<close>) or a scheduled
  job of the operator (\<open>controller\<close>) builds a configuration, validates the engine's provider, and runs one
  of the verbs under \<open>src/engine\<close>.  Every verb that can destroy data starts from a triage, which collects
  what every instance holds and decides which one is the authority; takes an escrow, a set of snapshots
  that must be proven restorable; and works under a lock that keeps a second run away.  Backups are
  streams through restic, whose snapshots the retention verb thins out.  Each theory below holds the
  model of one part, its lemmas, and its properties; \<open>C<n>\<close> in front of a theorem names its place in the
  manifest.

  Shared vocabulary.
  \<^item> \<open>HS_Prelude\<close>: fallible results (\<open>Ok\<close>, \<open>Err\<close> on the sum type), association lists with Go's map reads,
    int64 ranges and wrap-around, lemmas and simp collections that the components share.
  \<^item> \<open>Go_Strings\<close>, \<open>Go_Time\<close>, \<open>Go_Float\<close>: what the source uses of \<open>strings\<close>, \<open>strconv\<close>, \<open>fmt\<close>, \<open>time\<close>
    (calendar, RFC 3339 printing and parsing with their round trip) and of float64 division.
  \<^item> \<open>Results_Model\<close>: the result types of \<open>src/output/model/results.go\<close>.

  Triage of PostgreSQL (\<open>src/engine/triage\<close>).
  \<^item> \<open>Pg_Lsn\<close>: log positions and timelines, read and printed.
  \<^item> \<open>Cnpg_Lineage\<close>, \<open>Cnpg_Authority\<close>: \<open>cnpg_authority.go\<close>.  Histories of timelines, the relation of two
    instances, the pairwise comparison and the choice of a leader; the leader holds every position that any
    readable instance ever wrote, the decision is total, and an unread instance blocks it.
  \<^item> \<open>Cnpg_Content\<close>: \<open>cnpg_diff.go\<close>, \<open>cnpg_witness.go\<close>, \<open>cnpg_witness_downread.go\<close>.  Content comparators with
    their caches; the witness leader covers the others' bases.  The contract of a comparator is the locale
    \<open>content_contract\<close>, interpreted on both comparators of the source.
  \<^item> \<open>Cnpg_Data\<close>, \<open>Cnpg_Collect\<close>, \<open>Cnpg_Triage\<close>, \<open>Cnpg_Triage_Correct\<close>, \<open>Triage_Verdict\<close>: \<open>cnpg.go\<close>,
    \<open>cnpg_deeprecover.go\<close>, \<open>classify.go\<close>, \<open>authority.go\<close>.  What is collected, how instances are assessed and
    the comparison assembled; what a comparison that is safe to heal guarantees.

  Triage and bootstrap of Galera.
  \<^item> \<open>Galera_Data\<close>, \<open>Galera_Collect\<close>, \<open>Galera_Triage\<close>, \<open>Galera_Correct\<close>: \<open>galera.go\<close>.  Parsers of the positions,
    the collection with its fenced recovery, lineages and blockers; when an authority is provable.
  \<^item> \<open>Galera_Provider\<close>, \<open>Fence_Lock\<close>: \<open>provider/galera_ops.go\<close>.  The fence lock annotation with
    resource versions; \<open>Fence_Lock\<close> is a step relation over any number of acquirers with its invariant.
  \<^item> \<open>Boot_Select\<close>, \<open>Boot_Run\<close>, \<open>Boot_Correct\<close>: \<open>bootstrap/galera.go\<close>.  The choice of the source, the whole
    verb with its rollback, and what a committed or a failed bootstrap leaves behind.

  Escrow and repair.
  \<^item> \<open>Escrow\<close>: \<open>src/engine/escrow\<close>.  The space guard, the capture, its proof, and the gate; the locale
    \<open>escrow_provider\<close> is what a provider promises, interpreted on both.
  \<^item> \<open>Escrow_Store\<close>: the gate over the stock of snapshots that it counts and adds to; how far the cap bounds it.
  \<^item> \<open>Repair_Plan\<close>, \<open>Repair_Escrow\<close>, \<open>Repair_Run\<close>: \<open>src/engine/repair\<close>.  Plans, proofs of disposability, the copies of
    an unsafe cluster, and the lifecycle; \<open>repair_hooks\<close>, \<open>run_invariant\<close> and \<open>gated_hooks\<close> are the
    contracts between the lifecycle and an engine.
  \<^item> \<open>Cnpg_Job\<close>, \<open>Cnpg_Lease\<close>: \<open>cnpgjob/offlinejob.go\<close>, \<open>cnpgjob/lock.go\<close>.  The offline job with its fence and the
    lease; the lease as a step relation with its mutual exclusion.
  \<^item> \<open>Repair_Cnpg\<close>, \<open>Repair_Galera\<close>, \<open>Galera_Reconfig\<close>: the engines' repairs and the authority reset of
    \<open>reconfigure/galera.go\<close>; which claims a run can change and what it restores on every exit.
  \<^item> \<open>Prune_Wal\<close>, \<open>Prune_Deadlock\<close>: \<open>src/engine/prunewal\<close>.  Deletion of old segments, and the recovery of an
    instance that is too full to start.

  Backups and the operator.
  \<^item> \<open>Retention\<close>, \<open>Retention_Escrow\<close>: \<open>src/restic/forget.go\<close>, \<open>snapshots.go\<close>, \<open>src/engine/retention\<close>.
    Jobs of snapshots, calendar windows, the grouped forget; the release of escrows.
  \<^item> \<open>Dump_Flow\<close>: \<open>src/engine/backup\<close>, \<open>src/engine/restore\<close>, \<open>src/restic/backup.go\<close>, \<open>restore.go\<close>, \<open>src/cmd/export.go\<close>.
  \<^item> \<open>Operator\<close>: \<open>controller\<close> and \<open>api/v1alpha1/annotations.go\<close>.  Annotations, the scheduler's table as a state
    machine, and the jobs.

  From the command line to a pod.
  \<^item> \<open>Invocation\<close>: \<open>src/common/config.go\<close>, \<open>src/env\<close>, \<open>src/cmd/root.go\<close> and the checks of the commands.  Defaults from
    the environment, the bound configuration, and what a run must have passed before its engine sees it.
  \<^item> \<open>Helper_Pod\<close>, \<open>Helper_Retry\<close>: \<open>src/k8s/helperpod.go\<close>, \<open>pods.go\<close>, \<open>readiness.go\<close>, the helper runs of
    \<open>provider/galera_ops.go\<close>, and the pods the engines fill in.  Every helper clears the admission policy, a run
    ends and leaves no helper behind; \<open>Helper_Retry\<close> composes the run with the retry of the Galera repair.
  \<^item> \<open>Secrets\<close>: \<open>src/common/logging.go\<close>, \<open>src/k8s/exec.go\<close>, the root password in \<open>provider/galera.go\<close>.  Redaction, and
    commands wrapped in a shell script, read back under the quoting rules of POSIX.
  \<^item> \<open>Verb_Registry\<close>, \<open>Provider_State\<close>: the registries of the verbs, \<open>src/k8s/client.go\<close>, \<open>provider/cnpg.go\<close> and
    \<open>provider/galera.go\<close>.  Which engine has which verb, clients that are built once, and providers whose cached
    fields follow the resource that was read last.
  \<^item> \<open>Restic_Client\<close>: \<open>src/restic/restic.go\<close>, \<open>repository.go\<close>.  What reaches the program, and how its answers are read.
  \<^item> \<open>Settling\<close>: the waits and readings after a repair, a pruning and a deadlock recovery.
  \<^item> \<open>Listing\<close>, \<open>Catalog\<close>, \<open>Self_Update\<close>: \<open>src/cmd/get.go\<close>, \<open>src/cmd/update.go\<close>.

  What a reader of the output sees.
  \<^item> \<open>Machine_Output\<close>: \<open>src/output\<close>, \<open>src/cmd/sink.go\<close>, the services and the ends of the commands.  Standard output is
    a list of documents (lines, events, envelopes); a command runs from its output mode to the exit status of the
    process, and every document agrees with that status.
  \<^item> \<open>Boot_Report\<close>, \<open>Command_Reports\<close>, \<open>Reset_Helper\<close>: the actions a bootstrap plans and marks as taken, the results
    the commands end with, the plan, the helper pods and the verdict of an authority reset.  The completed steps are
    tied to the run of \<open>Boot_Run\<close>, and the reset's own copy of the helper retry is shown equal to the repair's.
  \<^item> \<open>Triage_Display\<close>: \<open>authority_banner.go\<close>, \<open>diagnosis.go\<close> and the display functions of both engines.
  \<^item> \<open>Operator_Metrics\<close>: \<open>src/metrics/metrics.go\<close> and the places of \<open>controller\<close> that record; the series are a state
    beside the scheduler's, reached by the same reconciliations and jobs.

  State.  Go maps are association lists where the source reads or replaces keys, and a Go map's iteration
  order is never relied on.  Go's \<open>int\<close> and \<open>int64\<close> are integers with the wrap-around or the range check written
  out where the source can leave the range, log positions are 64-bit words where the source uses \<open>uint64\<close>.
  The Kubernetes objects, data directories and repositories a verb works on are records of their own
  (\<open>galera_cluster\<close>, \<open>wal_disk\<close>, \<open>dump_world\<close>, \<open>prune_world\<close>, \<open>scheduler\<close>, ...), and a verb is a function from
  its environment and this state to its answer and the new state.  The environment holds the answers of
  what is not under \<open>src\<close>: the API server, programs run in a pod, restic, the cron library.  An answer
  comes in each shape the caller tells apart, lost answers to a call that took effect included.

  Bounds.  Polling loops run as often as the source's: 60 polls of a terminating pod or a starting cluster, 30 of
  a helper, 120 of a native backup, 24 of a converging cluster, 5 attempts of a reconciliation switch, 3 of a helper
  script.  The wait for recovery (\<open>Repair_Run\<close>) is bounded by a clock instead: it is a partial function, and it is
  shown to answer whenever every sleep advances the clock.  The unit of a printed size (\<open>Go_Float\<close>) counts down from the number of
  units, which is shown to be enough.

  Not modelled.  The encoding of a document as JSON text, colours, the alignment of tables and the lines that the collection of a triage
  prints between its steps have no influence on what a verb does or answers; neither have the version and the
  generation of the documentation.  Opening exec streams, building clients from a configuration and walking an unstructured
  object are calls into libraries; the model starts at their answers.  The operator's process (\<open>controller/manager.go\<close>,
  \<open>src/cmd/serve.go\<close>) wires the controller library to the modelled scheduler.  Generated deep copies carry no logic.
\<close>

end
